(* ===== verification/Prelude.thy ===== *)
theory Prelude
  imports Main "HOL-Library.Word"
begin

unbundle bit_operations_syntax

text \<open>
  Shared ground of the development: the machine types of the PSP and of the host PC, C strings as
  character lists without their terminating NUL, character classes by code, byte-addressed memory
  with the little-endian word accesses \<open>_lw\<close> and \<open>_sw\<close>, and the generic lemmas on lists, words
  and memory that the component theories rest on.
\<close>

section \<open>Machine types\<close>

type_synonym u8 = "8 word"
type_synonym u16 = "16 word"
type_synonym u32 = "32 word"
type_synonym mem = "u32 \<Rightarrow> u8"

named_theorems mem_simps "rewrites of loads and stores"
named_theorems char_simps "rewrites of character codes and classes"

section \<open>Characters\<close>

text \<open>The code of a character, as an unsigned byte.\<close>

abbreviation ccode :: "char \<Rightarrow> nat" where
  "ccode c \<equiv> of_char c"

text \<open>Reading a C string one past its last character gives the NUL.\<close>

definition chead :: "string \<Rightarrow> char" where
  "chead s = (case s of [] \<Rightarrow> CHR 0x00 | c # _ \<Rightarrow> c)"

lemma chead_Nil [simp]: "chead [] = CHR 0x00"
  and chead_Cons [simp]: "chead (c # s) = c"
  by (simp_all add: chead_def)

text \<open>The C string held by a buffer: what precedes the first NUL.\<close>

definition cstr :: "string \<Rightarrow> string" where
  "cstr s = takeWhile (\<lambda>c. c \<noteq> CHR 0x00) s"

definition no_nul :: "string \<Rightarrow> bool" where
  "no_nul s \<longleftrightarrow> CHR 0x00 \<notin> set s"

lemma cstr_no_nul: "no_nul s \<Longrightarrow> cstr s = s"
  by (auto simp: cstr_def no_nul_def takeWhile_eq_all_conv)

lemma no_nul_cstr [simp]: "no_nul (cstr s)"
  by (auto simp: cstr_def no_nul_def dest: set_takeWhileD)

lemma no_nul_simps [simp]:
  "no_nul []" "no_nul (c # s) \<longleftrightarrow> c \<noteq> CHR 0x00 \<and> no_nul s"
  "no_nul (s @ t) \<longleftrightarrow> no_nul s \<and> no_nul t"
  by (auto simp: no_nul_def)

text \<open>\<open>strncpy (d, s, n); d[n] = 0\<close>: the first \<open>n\<close> characters of the string.\<close>

definition strlcpy :: "nat \<Rightarrow> string \<Rightarrow> string" where
  "strlcpy n s = take n s"

lemma length_strlcpy: "length (strlcpy n s) \<le> n"
  by (simp add: strlcpy_def)

section \<open>Lists\<close>

lemma takeWhile_dropWhile_length:
  "length (takeWhile P xs) + length (dropWhile P xs) = length xs"
  by (metis length_append takeWhile_dropWhile_id)

lemma length_dropWhile_less: "dropWhile P xs \<noteq> xs \<Longrightarrow> length (dropWhile P xs) < length xs"
  by (cases xs) (auto simp: length_dropWhile_le le_imp_less_Suc split: if_splits)

lemma dropWhile_Cons_split: "dropWhile P xs = y # ys \<Longrightarrow> \<not> P y"
  by (metis hd_dropWhile list.distinct(1) list.sel(1))

text \<open>The position of the first element that satisfies a predicate (a \<open>strchr\<close>-style scan).\<close>

fun split_at :: "('a \<Rightarrow> bool) \<Rightarrow> 'a list \<Rightarrow> ('a list \<times> 'a list) option" where
  "split_at p [] = None"
| "split_at p (x # xs) =
     (if p x then Some ([], xs)
      else (case split_at p xs of None \<Rightarrow> None | Some (a, b) \<Rightarrow> Some (x # a, b)))"

lemma split_at_None: "split_at p xs = None \<longleftrightarrow> (\<forall>x \<in> set xs. \<not> p x)"
  by (induction xs) (auto split: option.splits)

lemma split_at_append: "(\<forall>x \<in> set a. \<not> p x) \<Longrightarrow> p c \<Longrightarrow> split_at p (a @ c # b) = Some (a, b)"
  by (induction a) auto

lemma split_at_Some:
  "split_at p xs = Some (a, b) \<Longrightarrow> \<exists>c. p c \<and> xs = a @ c # b \<and> (\<forall>x \<in> set a. \<not> p x)"
  by (induction xs arbitrary: a b) (fastforce split: if_splits option.splits)+

lemma split_at_length: "split_at p xs = Some (a, b) \<Longrightarrow> length a + length b < length xs"
  by (drule split_at_Some) auto

section \<open>Memory: bytes, and little-endian words\<close>

definition lw :: "mem \<Rightarrow> u32 \<Rightarrow> u32" where
  "lw m a = ucast (m a) OR push_bit 8 (ucast (m (a + 1)))
          OR push_bit 16 (ucast (m (a + 2))) OR push_bit 24 (ucast (m (a + 3)))"

definition sw :: "mem \<Rightarrow> u32 \<Rightarrow> u32 \<Rightarrow> mem" where
  "sw m a v = m(a := ucast v, a + 1 := ucast (drop_bit 8 v),
                a + 2 := ucast (drop_bit 16 v), a + 3 := ucast (drop_bit 24 v))"

definition aligned :: "u32 \<Rightarrow> bool" where
  "aligned a \<longleftrightarrow> a AND 3 = 0"

lemma bytes_of_word:
  "(ucast (ucast v :: u8) :: u32) OR push_bit 8 (ucast (ucast (drop_bit 8 v) :: u8))
    OR push_bit 16 (ucast (ucast (drop_bit 16 v) :: u8))
    OR push_bit 24 (ucast (ucast (drop_bit 24 v) :: u8)) = v"
proof (rule bit_word_eqI)
  fix n assume "n < LENGTH(32)"
  then have n: "n < 32" by simp
  consider "n < 8" | k where "n = 8 + k" "k < 8" | k where "n = 16 + k" "k < 8"
    | k where "n = 24 + k" "k < 8"
  proof -
    have "n < 8 \<or> (\<exists>k. n = 8 + k \<and> k < 8) \<or> (\<exists>k. n = 16 + k \<and> k < 8) \<or> (\<exists>k. n = 24 + k \<and> k < 8)"
      using n by presburger
    with that show ?thesis by blast
  qed
  then show "bit ((ucast (ucast v :: u8) :: u32) OR push_bit 8 (ucast (ucast (drop_bit 8 v) :: u8))
    OR push_bit 16 (ucast (ucast (drop_bit 16 v) :: u8))
    OR push_bit 24 (ucast (ucast (drop_bit 24 v) :: u8))) n = bit v n"
    by cases (simp_all add: bit_simps)
qed

lemma byte_of_bytes:
  fixes b0 b1 b2 b3 :: u8
  defines "w \<equiv> (ucast b0 :: u32) OR push_bit 8 (ucast b1) OR push_bit 16 (ucast b2)
                OR push_bit 24 (ucast b3)"
  shows "ucast w = b0" "ucast (drop_bit 8 w) = b1"
    "ucast (drop_bit 16 w) = b2" "ucast (drop_bit 24 w) = b3"
  unfolding w_def by (rule bit_word_eqI; auto simp: bit_simps dest: bit_imp_le_length)+

lemma offset_neq [simp]:
  fixes a :: u32
  shows "a + 1 \<noteq> a" "a + 2 \<noteq> a" "a + 3 \<noteq> a" "a + 2 \<noteq> a + 1" "a + 3 \<noteq> a + 1" "a + 3 \<noteq> a + 2"
    "a \<noteq> a + 1" "a \<noteq> a + 2" "a \<noteq> a + 3" "a + 1 \<noteq> a + 2" "a + 1 \<noteq> a + 3" "a + 2 \<noteq> a + 3"
  by simp_all

lemma lw_sw_same [mem_simps]: "lw (sw m a v) a = v"
  by (simp add: lw_def sw_def bytes_of_word)

lemma sw_lw_id [mem_simps]: "sw m a (lw m a) = m"
  by (rule ext) (simp only: sw_def lw_def byte_of_bytes fun_upd_apply split: if_split, blast)

lemma sw_sw_same [mem_simps]: "sw (sw m a v) a w = sw m a w"
  by (auto simp: sw_def fun_eq_iff)

text \<open>Distinct aligned words do not overlap.\<close>

lemma unat_add_mod_4: "unat (a + b :: u32) mod 4 = (unat a + unat b) mod 4"
  by (simp add: unat_word_ariths mod_mod_cancel)

lemma aligned_unat: "aligned a \<longleftrightarrow> unat a mod 4 = 0"
proof -
  have m: "(3 :: u32) = mask 2" by (simp add: mask_eq_exp_minus_1)
  have "aligned a \<longleftrightarrow> take_bit 2 a = 0" by (simp only: aligned_def m take_bit_eq_mask)
  also have "\<dots> \<longleftrightarrow> unat (take_bit 2 a) = 0" by (rule unat_0_iff [symmetric])
  also have "unat (take_bit 2 a) = unat a mod 4"
    by (simp add: take_bit_eq_mod unat_mod)
  finally show ?thesis .
qed

lemma aligned_offset: "aligned a \<Longrightarrow> i < 4 \<Longrightarrow> unat (a + i) mod 4 = unat (i :: u32)"
  by (simp add: aligned_unat unat_add_mod_4 mod_add_left_eq [of "unat a", symmetric] word_less_nat_alt)

lemma aligned_disjoint:
  "aligned a \<Longrightarrow> aligned b \<Longrightarrow> a \<noteq> b \<Longrightarrow> i < 4 \<Longrightarrow> j < 4 \<Longrightarrow> a + i \<noteq> b + (j :: u32)"
  by (metis add_right_imp_eq aligned_offset unsigned_word_eqI)

lemma aligned_disjoints:
  assumes "aligned a" "aligned b" "a \<noteq> b"
  shows "i < 4 \<Longrightarrow> a + i \<noteq> b" "j < 4 \<Longrightarrow> a \<noteq> b + j"
    "i < 4 \<Longrightarrow> j < 4 \<Longrightarrow> a + i \<noteq> b + j"
  using aligned_disjoint [OF assms, of i 0] aligned_disjoint [OF assms, of 0 j]
    aligned_disjoint [OF assms, of i j] by auto

lemma lw_sw_other [mem_simps]:
  assumes "aligned a" "aligned b" "a \<noteq> b"
  shows "lw (sw m a v) b = lw m b"
proof -
  note d = aligned_disjoints [OF assms(2,1) assms(3) [symmetric]]
  show ?thesis by (simp add: lw_def sw_def d assms(3) assms(3) [symmetric])
qed

lemma sw_commute:
  assumes "aligned a" "aligned b" "a \<noteq> b"
  shows "sw (sw m a v) b w = sw (sw m b w) a v"
proof -
  note d = aligned_disjoints [OF assms] and e = aligned_disjoints [OF assms(2,1) assms(3) [symmetric]]
  show ?thesis by (rule ext) (simp add: sw_def d e assms(3) assms(3) [symmetric])
qed

lemma aligned_add: "aligned a \<Longrightarrow> aligned b \<Longrightarrow> aligned (a + b)"
  by (simp add: aligned_unat unat_add_mod_4 mod_add_eq [of "unat a", symmetric])

section \<open>Little-endian fields of messages\<close>

definition to_le32 :: "u32 \<Rightarrow> u8 list" where
  "to_le32 v = [ucast v, ucast (drop_bit 8 v), ucast (drop_bit 16 v), ucast (drop_bit 24 v)]"

fun le32 :: "u8 list \<Rightarrow> u32" where
  "le32 (a # b # c # d # bs) =
     ucast a OR push_bit 8 (ucast b) OR push_bit 16 (ucast c) OR push_bit 24 (ucast d)"
| "le32 bs = 0"

lemma length_to_le32 [simp]: "length (to_le32 v) = 4"
  by (simp add: to_le32_def)

lemma le32_to_le32 [simp]: "le32 (to_le32 v @ bs) = v"
  by (simp add: to_le32_def bytes_of_word)

lemma le32_to_le32_Nil [simp]: "le32 (to_le32 v) = v"
  using le32_to_le32 [of v "[]"] by simp

lemma to_le32_le32: "to_le32 (le32 [a, b, c, d]) = [a, b, c, d]"
  by (simp only: to_le32_def le32.simps byte_of_bytes)

section \<open>The k1 register\<close>

text \<open>
  \<open>psplinkSetK1\<close> of \<open>psplink/kmode.S\<close>: install a value in the register \<open>k1\<close>, return the old one.
  System calls clear it on entry and put the caller's value back on exit.
\<close>

definition psplinkSetK1 :: "u32 \<Rightarrow> u32 \<Rightarrow> u32 \<times> u32" where
  "psplinkSetK1 k1 new = (k1, new)"

end
