(* ===== verification/Ring.thy ===== *)
theory Ring
  imports Prelude
begin

text \<open>
  The byte rings of the program. \<open>psplink/tty.c\<close> keeps the characters typed for the debugged
  program in a ring of \<open>STDIN_BUFSIZE\<close> bytes, \<open>usbhostfs/main.c\<close> keeps one ring of
  \<open>MAX_ASYNC_BUFFER\<close> bytes per asynchronous channel. Both are an array with a read position, a
  write position and a fill count, advanced modulo the array's length.

  \<open>ring_view\<close> is what such an array holds, oldest byte first, with its two laws (one byte in, one
  byte out). The locale \<open>byte_fifo\<close> is the interface both rings promise to their users: a bounded
  first-in first-out buffer that drops what does not fit. Its lemmas are about any run of
  operations, and the theories \<open>Tty\<close> and \<open>Async\<close> interpret it on the two rings of the code.
\<close>

section \<open>The contents of a ring\<close>

definition ring_view :: "'a list \<Rightarrow> nat \<Rightarrow> nat \<Rightarrow> 'a list" where
  "ring_view buf r n = map (\<lambda>i. buf ! ((r + i) mod length buf)) [0..<n]"

definition ring_ok :: "nat \<Rightarrow> 'a list \<Rightarrow> nat \<Rightarrow> nat \<Rightarrow> nat \<Rightarrow> bool" where
  "ring_ok cap buf r w n \<longleftrightarrow>
     0 < cap \<and> length buf = cap \<and> r < cap \<and> w = (r + n) mod cap \<and> n \<le> cap"

lemma ring_view_length [simp]: "length (ring_view buf r n) = n"
  by (simp add: ring_view_def)

lemma ring_view_0 [simp]: "ring_view buf r 0 = []"
  by (simp add: ring_view_def)

lemma ring_index_neq:
  assumes "i < n" "n < (cap :: nat)"
  shows "(r + i) mod cap \<noteq> (r + n) mod cap"
proof
  assume eq: "(r + i) mod cap = (r + n) mod cap"
  have "cap dvd (r + n) - (r + i)"
    using mod_eq_dvd_iff_nat [of "r + i" "r + n" cap] eq assms by simp
  then have "cap dvd n - i" by simp
  with assms show False by (meson diff_less_mono2 dvd_imp_le le_less_trans less_imp_diff_less
        not_le zero_less_diff)
qed

lemma ring_view_put:
  assumes "ring_ok cap buf r w n" "n < cap"
  shows "ring_view (buf[w := x]) r (Suc n) = ring_view buf r n @ [x]"
proof -
  have L: "length buf = cap" "w = (r + n) mod cap" "0 < cap" using assms by (auto simp: ring_ok_def)
  have "w \<noteq> (r + i) mod cap" if "i < n" for i
    using ring_index_neq [OF that assms(2), of r] L by simp
  then have "map (\<lambda>i. buf[w := x] ! ((r + i) mod cap)) [0..<n] = map (\<lambda>i. buf ! ((r + i) mod cap)) [0..<n]"
    by simp
  then show ?thesis using L by (simp add: ring_view_def)
qed

lemma ring_ok_put:
  "ring_ok cap buf r w n \<Longrightarrow> n < cap \<Longrightarrow> ring_ok cap (buf[w := x]) r ((w + 1) mod cap) (Suc n)"
  by (auto simp: ring_ok_def mod_simps)

lemma ring_view_get:
  assumes "ring_ok cap buf r w n" "0 < n"
  shows "ring_view buf r n = buf ! r # ring_view buf ((r + 1) mod cap) (n - 1)"
proof -
  obtain k where k: "n = Suc k" using assms(2) by (cases n) auto
  have L: "length buf = cap" "r < cap" using assms by (auto simp: ring_ok_def)
  have "(Suc r mod cap + i) mod cap = (r + Suc i) mod cap" for i
    by (simp add: mod_simps)
  then show ?thesis
    using L unfolding ring_view_def k upt_conv_Cons [OF zero_less_Suc]
    by (simp add: map_Suc_upt [symmetric] del: upt_Suc)
qed

lemma ring_ok_get:
  "ring_ok cap buf r w n \<Longrightarrow> 0 < n \<Longrightarrow> ring_ok cap buf ((r + 1) mod cap) w (n - 1)"
  by (cases n) (auto simp: ring_ok_def mod_simps)

lemma ring_ok_empty: "0 < cap \<Longrightarrow> length buf = cap \<Longrightarrow> ring_ok cap buf 0 0 0"
  by (simp add: ring_ok_def)

section \<open>The interface: a bounded first-in first-out buffer\<close>

datatype 'a fifo_op = Put "'a list" | Get nat

text \<open>A run of operations: the data read by all its \<open>Get\<close>s, and the final state.\<close>

fun fifo_run :: "('r \<Rightarrow> 'a list \<Rightarrow> 'r) \<Rightarrow> ('r \<Rightarrow> nat \<Rightarrow> 'a list \<times> 'r) \<Rightarrow> 'r \<Rightarrow> 'a fifo_op list
    \<Rightarrow> 'a list \<times> 'r" where
  "fifo_run put get r [] = ([], r)"
| "fifo_run put get r (Put xs # ops) = fifo_run put get (put r xs) ops"
| "fifo_run put get r (Get n # ops) =
     (let (d, r') = get r n; (ds, r'') = fifo_run put get r' ops in (d @ ds, r''))"

text \<open>The specification of a run: a plain list, cut to the capacity.\<close>

fun list_run :: "nat \<Rightarrow> 'a list \<Rightarrow> 'a fifo_op list \<Rightarrow> 'a list \<times> 'a list" where
  "list_run cap q [] = ([], q)"
| "list_run cap q (Put xs # ops) = list_run cap (q @ take (cap - length q) xs) ops"
| "list_run cap q (Get n # ops) =
     (let (ds, q') = list_run cap (drop n q) ops in (take n q @ ds, q'))"

fun puts :: "'a fifo_op list \<Rightarrow> 'a list" where
  "puts [] = []"
| "puts (Put xs # ops) = xs @ puts ops"
| "puts (Get n # ops) = puts ops"

lemma list_run_total:
  "length q + length (puts ops) \<le> cap \<Longrightarrow> list_run cap q ops = (ds, q') \<Longrightarrow> ds @ q' = q @ puts ops"
proof (induction ops arbitrary: q ds rule: puts.induct)
  case (2 xs ops)
  then show ?case using "2.IH" [of "q @ xs" ds] by simp
next
  case (3 n ops)
  obtain ds' where *: "list_run cap (drop n q) ops = (ds', q')" "ds = take n q @ ds'"
    using "3.prems"(2) by (auto split: prod.splits)
  then have "ds' @ q' = drop n q @ puts ops" using 3 by simp
  then show ?case using * by (metis append.assoc append_take_drop_id puts.simps(3))
qed simp

locale byte_fifo =
  fixes put :: "'r \<Rightarrow> 'a list \<Rightarrow> 'r"
    and get :: "'r \<Rightarrow> nat \<Rightarrow> 'a list \<times> 'r"
    and contents :: "'r \<Rightarrow> 'a list"
    and cap :: nat
    and inv :: "'r \<Rightarrow> bool"
  assumes inv_put: "inv r \<Longrightarrow> inv (put r xs)"
    and inv_get: "inv r \<Longrightarrow> inv (snd (get r n))"
    and contents_bound: "inv r \<Longrightarrow> length (contents r) \<le> cap"
    and contents_put: "inv r \<Longrightarrow> contents (put r xs) = contents r @ take (cap - length (contents r)) xs"
    and get_data: "inv r \<Longrightarrow> fst (get r n) = take n (contents r)"
    and contents_get: "inv r \<Longrightarrow> contents (snd (get r n)) = drop n (contents r)"
begin

lemma run_refines:
  assumes "inv r" and "fifo_run put get r ops = (ds, r')"
  shows "inv r' \<and> list_run cap (contents r) ops = (ds, contents r')"
  using assms
proof (induction ops arbitrary: r ds)
  case Nil
  then show ?case by simp
next
  case (Cons op ops)
  show ?case
  proof (cases op)
    case (Put xs)
    then show ?thesis using Cons.IH [OF inv_put [OF Cons.prems(1)]] Cons.prems
      by (simp add: contents_put)
  next
    case (Get n)
    obtain ds' where *: "fifo_run put get (snd (get r n)) ops = (ds', r')" "ds = fst (get r n) @ ds'"
      using Cons.prems Get by (auto simp: Let_def split: prod.splits)
    then show ?thesis
      using Cons.IH [OF inv_get [OF Cons.prems(1)] *(1)] Cons.prems(1) Get
      by (simp add: contents_get get_data)
  qed
qed

lemma run_no_loss:
  assumes "inv r" and "length (contents r) + length (puts ops) \<le> cap"
    and "fifo_run put get r ops = (ds, r')"
  shows "ds @ contents r' = contents r @ puts ops"
  using run_refines [OF assms(1,3)] list_run_total [OF assms(2)] by blast

lemma put_get:
  assumes "inv r" and "contents r = []" and "length xs \<le> cap"
  shows "fst (get (put r xs) (length xs)) = xs"
    and "contents (snd (get (put r xs) (length xs))) = []"
  using assms by (simp_all add: get_data contents_get contents_put inv_put)

end

end
