(* ===== verification/Tty.thy ===== *)
theory Tty
  imports Ring
begin

text \<open>
  \<open>psplink/tty.c\<close> and \<open>psplink/stdio.c\<close>: the terminal device of the debugged program.
  Output written to \<open>stdout\<close> or \<open>stderr\<close> is handed to every installed shell (serial, wifi, USB,
  console); input typed in a shell's tty mode is queued in the ring \<open>g_stdinbuf\<close>, from which the
  program's reads of \<open>stdin\<close> are served. The ring is shared by the shell's thread, which adds
  data, and the program's thread, which reads it and sleeps when there is none; each works on
  it with interrupts disabled, so its critical section is one atomic step here, and what can
  be interleaved is what lies between the critical sections.

  A handler, a function pointer of the code, is a value of the type \<open>'h\<close>; a call of a handler is
  recorded in the result. The results of the kernel's calls are arguments.
\<close>

section \<open>The output side\<close>

record 'h tty_handlers =
  g_sioHandler :: "'h option"
  g_wifiHandler :: "'h option"
  g_usbHandler :: "'h option"
  g_consHandler :: "'h option"

definition ttySetWifiHandler :: "'h option \<Rightarrow> 'h tty_handlers \<Rightarrow> 'h tty_handlers" where
  "ttySetWifiHandler h t = t\<lparr>g_wifiHandler := h\<rparr>"

definition ttySetSioHandler :: "'h option \<Rightarrow> 'h tty_handlers \<Rightarrow> 'h tty_handlers" where
  "ttySetSioHandler h t = t\<lparr>g_sioHandler := h\<rparr>"

definition ttySetUsbHandler :: "'h option \<Rightarrow> 'h tty_handlers \<Rightarrow> 'h tty_handlers" where
  "ttySetUsbHandler h t = t\<lparr>g_usbHandler := h\<rparr>"

definition ttySetConsHandler :: "'h option \<Rightarrow> 'h tty_handlers \<Rightarrow> 'h tty_handlers" where
  "ttySetConsHandler h t = t\<lparr>g_consHandler := h\<rparr>"

definition call_handler :: "'h option \<Rightarrow> string \<Rightarrow> ('h \<times> string) list" where
  "call_handler h data = (case h of None \<Rightarrow> [] | Some f \<Rightarrow> [(f, data)])"

text \<open>
  The calls made, in order, and the returned size (the build with every shell, without
  \<open>USB_ONLY\<close>). \<open>inexec\<close> and \<open>consinterfere\<close> are fields of the global context.
\<close>

definition outputHandler :: "bool \<Rightarrow> bool \<Rightarrow> 'h tty_handlers \<Rightarrow> string \<Rightarrow> ('h \<times> string) list \<times> int"
where
  "outputHandler inexec consinterfere t data =
     (call_handler (g_sioHandler t) data
      @ call_handler (g_wifiHandler t) data
      @ call_handler (g_usbHandler t) data
      @ (case g_consHandler t of None \<Rightarrow> []
         | Some f \<Rightarrow> (if \<not> inexec \<or> consinterfere then [(f, data)] else [])),
      int (length data))"

lemma outputHandler_size [simp]: "snd (outputHandler i c t data) = int (length data)"
  by (simp add: outputHandler_def)

lemma outputHandler_all_data: "\<forall>(f, d) \<in> set (fst (outputHandler i c t data)). d = data"
  by (auto simp: outputHandler_def call_handler_def split: option.splits if_splits)

section \<open>The ring of typed characters\<close>

abbreviation STDIN_BUFSIZE :: nat where
  "STDIN_BUFSIZE \<equiv> 4096"

record stdin_ring =
  g_stdinbuf :: string
  g_stdinreadpos :: nat
  g_stdinwritepos :: nat
  g_stdinsize :: nat

definition stdin_init :: stdin_ring where
  "stdin_init = \<lparr>g_stdinbuf = replicate STDIN_BUFSIZE CHR 0x00,
     g_stdinreadpos = 0, g_stdinwritepos = 0, g_stdinsize = 0\<rparr>"

text \<open>The loop of \<open>ttyAddInputData\<close>: \<open>sizeleft\<close> bytes are stored.\<close>

fun stdin_store :: "stdin_ring \<Rightarrow> string \<Rightarrow> nat \<Rightarrow> stdin_ring" where
  "stdin_store s (c # data) (Suc sizeleft) =
     stdin_store (s\<lparr>g_stdinbuf := (g_stdinbuf s)[g_stdinwritepos s := c],
                    g_stdinwritepos := (g_stdinwritepos s + 1) mod STDIN_BUFSIZE,
                    g_stdinsize := g_stdinsize s + 1\<rparr>) data sizeleft"
| "stdin_store s data sizeleft = s"

definition stdin_put :: "stdin_ring \<Rightarrow> string \<Rightarrow> stdin_ring" where
  "stdin_put s data =
     (let len = length data;
          sizeleft = (if len < STDIN_BUFSIZE - g_stdinsize s then len
                      else STDIN_BUFSIZE - g_stdinsize s)
      in stdin_store s data sizeleft)"

text \<open>The loop of \<open>inputHandler\<close>: \<open>sizeread\<close> bytes are taken.\<close>

fun stdin_fetch :: "stdin_ring \<Rightarrow> nat \<Rightarrow> string \<times> stdin_ring" where
  "stdin_fetch s 0 = ([], s)"
| "stdin_fetch s (Suc k) =
     (let c = g_stdinbuf s ! g_stdinreadpos s;
          (d, s') = stdin_fetch (s\<lparr>g_stdinreadpos := (g_stdinreadpos s + 1) mod STDIN_BUFSIZE,
                                   g_stdinsize := g_stdinsize s - 1\<rparr>) k
      in (c # d, s'))"

definition stdin_get :: "stdin_ring \<Rightarrow> nat \<Rightarrow> string \<times> stdin_ring" where
  "stdin_get s n = stdin_fetch s (if n < g_stdinsize s then n else g_stdinsize s)"

definition stdin_contents :: "stdin_ring \<Rightarrow> string" where
  "stdin_contents s = ring_view (g_stdinbuf s) (g_stdinreadpos s) (g_stdinsize s)"

definition stdin_ok :: "stdin_ring \<Rightarrow> bool" where
  "stdin_ok s \<longleftrightarrow> ring_ok STDIN_BUFSIZE (g_stdinbuf s) (g_stdinreadpos s)
                   (g_stdinwritepos s) (g_stdinsize s)"

lemma stdin_init_ok: "stdin_ok stdin_init" and stdin_init_contents: "stdin_contents stdin_init = []"
  by (simp_all add: stdin_ok_def stdin_init_def ring_ok_empty stdin_contents_def)

lemma stdin_size_contents: "g_stdinsize s = length (stdin_contents s)"
  by (simp add: stdin_contents_def)

lemma stdin_store_spec:
  "stdin_ok s \<Longrightarrow> k \<le> length data \<Longrightarrow> g_stdinsize s + k \<le> STDIN_BUFSIZE \<Longrightarrow>
   stdin_ok (stdin_store s data k) \<and>
   stdin_contents (stdin_store s data k) = stdin_contents s @ take k data"
proof (induction s data k rule: stdin_store.induct)
  case (1 s c data k)
  let ?s = "s\<lparr>g_stdinbuf := (g_stdinbuf s)[g_stdinwritepos s := c],
              g_stdinwritepos := (g_stdinwritepos s + 1) mod STDIN_BUFSIZE,
              g_stdinsize := g_stdinsize s + 1\<rparr>"
  have n: "g_stdinsize s < STDIN_BUFSIZE" and ok: "ring_ok STDIN_BUFSIZE (g_stdinbuf s)
      (g_stdinreadpos s) (g_stdinwritepos s) (g_stdinsize s)"
    using "1.prems" by (simp_all add: stdin_ok_def)
  have "stdin_ok ?s" using ring_ok_put [OF ok n] by (simp add: stdin_ok_def)
  moreover have "stdin_contents ?s = stdin_contents s @ [c]"
    using ring_view_put [OF ok n] by (simp add: stdin_contents_def)
  ultimately show ?case using "1.IH" "1.prems" by simp
qed simp_all

lemma stdin_fetch_spec:
  "stdin_ok s \<Longrightarrow> k \<le> g_stdinsize s \<Longrightarrow>
   fst (stdin_fetch s k) = take k (stdin_contents s) \<and> stdin_ok (snd (stdin_fetch s k)) \<and>
   stdin_contents (snd (stdin_fetch s k)) = drop k (stdin_contents s)"
proof (induction k arbitrary: s)
  case (Suc k)
  let ?s = "s\<lparr>g_stdinreadpos := (g_stdinreadpos s + 1) mod STDIN_BUFSIZE,
              g_stdinsize := g_stdinsize s - 1\<rparr>"
  have n: "0 < g_stdinsize s" and ok: "ring_ok STDIN_BUFSIZE (g_stdinbuf s)
      (g_stdinreadpos s) (g_stdinwritepos s) (g_stdinsize s)"
    using Suc.prems by (simp_all add: stdin_ok_def)
  have s: "stdin_ok ?s" using ring_ok_get [OF ok n] by (simp add: stdin_ok_def)
  have "stdin_contents s = g_stdinbuf s ! g_stdinreadpos s # stdin_contents ?s"
    using ring_view_get [OF ok n] by (simp add: stdin_contents_def)
  then show ?case using Suc.IH [OF s] Suc.prems
    by (cases "stdin_fetch ?s k") (auto simp: Let_def)
qed simp

interpretation stdin: byte_fifo stdin_put stdin_get stdin_contents STDIN_BUFSIZE stdin_ok
proof
  fix s :: stdin_ring and data :: string and n :: nat
  assume ok: "stdin_ok s"
  have b: "g_stdinsize s \<le> STDIN_BUFSIZE" using ok by (simp add: stdin_ok_def ring_ok_def)
  show "length (stdin_contents s) \<le> STDIN_BUFSIZE" using b by (simp add: stdin_contents_def)
  let ?k = "if length data < STDIN_BUFSIZE - g_stdinsize s then length data
            else STDIN_BUFSIZE - g_stdinsize s"
  have p: "stdin_ok (stdin_store s data ?k) \<and>
      stdin_contents (stdin_store s data ?k) = stdin_contents s @ take ?k data"
    using b by (intro stdin_store_spec ok) (auto split: if_splits)
  then show "stdin_ok (stdin_put s data)" by (simp add: stdin_put_def Let_def)
  have "take ?k data = take (STDIN_BUFSIZE - length (stdin_contents s)) data"
    by (simp add: stdin_contents_def)
  with p show "stdin_contents (stdin_put s data) =
      stdin_contents s @ take (STDIN_BUFSIZE - length (stdin_contents s)) data"
    by (simp add: stdin_put_def Let_def)
  let ?g = "if n < g_stdinsize s then n else g_stdinsize s"
  have g: "fst (stdin_fetch s ?g) = take ?g (stdin_contents s) \<and> stdin_ok (snd (stdin_fetch s ?g)) \<and>
      stdin_contents (snd (stdin_fetch s ?g)) = drop ?g (stdin_contents s)"
    by (intro stdin_fetch_spec ok) (simp split: if_splits)
  then show "stdin_ok (snd (stdin_get s n))" by (simp add: stdin_get_def)
  show "fst (stdin_get s n) = take n (stdin_contents s)"
    and "stdin_contents (snd (stdin_get s n)) = drop n (stdin_contents s)"
    using g by (auto simp: stdin_get_def stdin_contents_def split: if_splits)
qed

section \<open>The two critical sections, and the threads around them\<close>

text \<open>
  One turn of the loop of \<open>inputHandler\<close>, run by the thread \<open>me\<close> for \<open>size\<close> bytes (a C
  \<open>int\<close>, which may be negative): the bytes read, the ring, \<open>g_stdinwaitth\<close>, and whether the loop is left.
\<close>

definition inputHandler_turn :: "int \<Rightarrow> int \<Rightarrow> stdin_ring \<Rightarrow> int \<Rightarrow> string \<times> stdin_ring \<times> int \<times> bool"
where
  "inputHandler_turn me sz s waitth =
     (let sizeread = (if sz < int (g_stdinsize s) then sz else int (g_stdinsize s));
          (data, s') = stdin_fetch s (nat sizeread)
      in (data, s', (if sizeread = 0 then me else waitth), 0 < sizeread))"

text \<open>\<open>ttyAddInputData\<close>: the ring, \<open>g_stdinwaitth\<close> and the threads woken.\<close>

definition ttyAddInputData :: "string \<Rightarrow> stdin_ring \<Rightarrow> int \<Rightarrow> stdin_ring \<times> int \<times> int list" where
  "ttyAddInputData data s waitth =
     (if 0 \<le> waitth then (stdin_put s data, -1, [waitth]) else (stdin_put s data, waitth, []))"

lemma inputHandler_turn_done_iff:
  "snd (snd (snd (inputHandler_turn me sz s w))) \<longleftrightarrow> 0 < sz \<and> stdin_contents s \<noteq> []"
  by (auto simp: inputHandler_turn_def Let_def split_beta stdin_contents_def
      simp flip: length_greater_0_conv)

lemma inputHandler_turn_get:
  assumes "0 < sz"
  shows "inputHandler_turn me sz s w =
    (fst (stdin_get s (nat sz)), snd (stdin_get s (nat sz)),
     (if stdin_contents s = [] then me else w), stdin_contents s \<noteq> [])"
proof -
  have "nat (if sz < int (g_stdinsize s) then sz else int (g_stdinsize s)) =
      (if nat sz < g_stdinsize s then nat sz else g_stdinsize s)"
    using assms by auto
  moreover have "stdin_contents s = [] \<longleftrightarrow> g_stdinsize s = 0"
    by (simp add: stdin_size_contents)
  ultimately show ?thesis
    using assms by (auto simp: inputHandler_turn_def stdin_get_def Let_def split_beta)
qed

text \<open>
  The system: the program's reading thread, and any number of shell threads that add data. The
  reader is \<open>Running\<close> outside the handler, \<open>Reading\<close> at the head of its loop, or \<open>Sleeping\<close>: past
  the critical section that found no data, up to the return of \<open>sceKernelSleepThread\<close>. \<open>woken\<close>
  records that \<open>sceKernelWakeupThread\<close> has been called for it since that critical section;
  when the kernel returns from the sleep is left open. \<open>accepted\<close> and \<open>delivered\<close> record the data
  stored and the data read so far.
\<close>

datatype reader = Running | Reading int | Sleeping int

record tty_sys =
  ring :: stdin_ring
  waitth :: int
  reader :: reader
  woken :: bool
  accepted :: string
  delivered :: string

definition tty_sys_init :: tty_sys where
  "tty_sys_init = \<lparr>ring = stdin_init, waitth = -1, reader = Running, woken = False,
     accepted = [], delivered = []\<rparr>"

inductive tty_step :: "int \<Rightarrow> tty_sys \<Rightarrow> tty_sys \<Rightarrow> bool" for me :: int where
  call: "reader s = Running \<Longrightarrow> tty_step me s (s\<lparr>reader := Reading sz\<rparr>)"
| finish: "reader s = Reading sz \<Longrightarrow>
    inputHandler_turn me sz (ring s) (waitth s) = (data, r', w', True) \<Longrightarrow>
    tty_step me s (s\<lparr>ring := r', waitth := w', reader := Running, delivered := delivered s @ data\<rparr>)"
| no_data: "reader s = Reading sz \<Longrightarrow>
    inputHandler_turn me sz (ring s) (waitth s) = (data, r', w', False) \<Longrightarrow>
    tty_step me s (s\<lparr>ring := r', waitth := w', reader := Sleeping sz, woken := False\<rparr>)"
| resume: "reader s = Sleeping sz \<Longrightarrow> tty_step me s (s\<lparr>reader := Reading sz\<rparr>)"
| add: "ttyAddInputData data (ring s) (waitth s) = (r', w', woke) \<Longrightarrow>
    tty_step me s (s\<lparr>ring := r', waitth := w', woken := (woken s \<or> me \<in> set woke),
      accepted := accepted s @ take (STDIN_BUFSIZE - g_stdinsize (ring s)) data\<rparr>)"

inductive tty_reachable :: "int \<Rightarrow> tty_sys \<Rightarrow> bool" for me :: int where
  start: "tty_reachable me tty_sys_init"
| step: "tty_reachable me s \<Longrightarrow> tty_step me s t \<Longrightarrow> tty_reachable me t"

definition tty_inv :: "int \<Rightarrow> tty_sys \<Rightarrow> bool" where
  "tty_inv me s \<longleftrightarrow> stdin_ok (ring s) \<and> delivered s @ stdin_contents (ring s) = accepted s \<and>
     (\<forall>sz. reader s = Sleeping sz \<and> 0 < sz \<and> \<not> woken s
        \<longrightarrow> stdin_contents (ring s) = [] \<and> waitth s = me)"

lemma inputHandler_turn_nonpos:
  assumes "sz \<le> 0" "inputHandler_turn me sz s w = (data, s', w', d)"
  shows "s' = s \<and> data = [] \<and> \<not> d"
proof -
  have "nat (if sz < int (g_stdinsize s) then sz else int (g_stdinsize s)) = 0"
    using assms(1) by auto
  then show ?thesis using assms by (auto simp: inputHandler_turn_def Let_def split: if_splits)
qed

lemma tty_step_inv:
  assumes "tty_step me s t" and "tty_inv me s" and "0 \<le> me"
  shows "tty_inv me t"
  using assms
proof (induction rule: tty_step.induct)
  case (call s sz)
  then show ?case by (simp add: tty_inv_def)
next
  case (finish s sz data r' w')
  have "0 < sz" using inputHandler_turn_done_iff [of me sz "ring s" "waitth s"] finish by simp
  then have "data = take (nat sz) (stdin_contents (ring s))" "stdin_ok r'"
    "stdin_contents r' = drop (nat sz) (stdin_contents (ring s))"
    using finish stdin.inv_get stdin.get_data stdin.contents_get
    by (auto simp: inputHandler_turn_get tty_inv_def)
  then show ?case using finish by (auto simp: tty_inv_def)
next
  case (no_data s sz data r' w')
  show ?case
  proof (cases "0 < sz")
    case True
    then have e: "stdin_contents (ring s) = []" "w' = me" "r' = snd (stdin_get (ring s) (nat sz))"
      using no_data by (auto simp: inputHandler_turn_get split: if_splits)
    then show ?thesis using no_data stdin.inv_get stdin.contents_get
      by (auto simp: tty_inv_def)
  next
    case False
    then show ?thesis using no_data inputHandler_turn_nonpos [of sz me "ring s" "waitth s"]
      by (auto simp: tty_inv_def)
  qed
next
  case (resume s sz)
  then show ?case by (simp add: tty_inv_def)
next
  case (add data s r' w' woke)
  have r: "r' = stdin_put (ring s) data" using add.hyps by (auto simp: ttyAddInputData_def split: if_splits)
  have "stdin_ok r'" and "stdin_contents r' = stdin_contents (ring s)
      @ take (STDIN_BUFSIZE - g_stdinsize (ring s)) data"
    using add.prems(1) by (simp_all add: r stdin.inv_put stdin.contents_put stdin_size_contents tty_inv_def)
  moreover have "waitth s = me \<longrightarrow> me \<in> set woke"
    using add by (auto simp: ttyAddInputData_def split: if_splits)
  ultimately show ?case using add.prems(1) by (auto simp: tty_inv_def simp flip: append_assoc)
qed

lemma tty_reachable_inv: "tty_reachable me s \<Longrightarrow> 0 \<le> me \<Longrightarrow> tty_inv me s"
proof (induction rule: tty_reachable.induct)
  case start
  show ?case by (simp add: tty_inv_def tty_sys_init_def stdin_init_ok stdin_init_contents)
next
  case (step s t)
  then show ?case by (blast intro: tty_step_inv)
qed

section \<open>The device\<close>

text \<open>
  \<open>psplink/stdio.c\<close>: the handlers installed in the device \<open>tty\<close>. The kernel's answers to the
  calls of \<open>tty_init\<close> are the arguments of the record \<open>tty_init_results\<close>.
\<close>

record 'h stdio =
  g_initialised :: bool
  g_stdin_handler :: "'h option"
  g_stdout_handler :: "'h option"
  g_stderr_handler :: "'h option"
  g_in_sema :: int
  g_out_sema :: int

record tty_init_results =
  res_AddDrv :: int
  res_InSema :: int
  res_OutSema :: int
  res_Reopen :: int
  res_StdoutReopen :: int
  res_StderrReopen :: int

definition stdio_start :: "'h stdio" where
  "stdio_start = \<lparr>g_initialised = False, g_stdin_handler = None, g_stdout_handler = None,
     g_stderr_handler = None, g_in_sema = 0, g_out_sema = 0\<rparr>"

definition io_open :: "int \<Rightarrow> int \<Rightarrow> int" where
  "io_open error_nofile fs_num =
     (if fs_num \<noteq> 0 \<and> fs_num \<noteq> 1 \<and> fs_num \<noteq> 2 then error_nofile else 0)"

text \<open>The handler that serves a read or a write, if any; without one the call returns 0.\<close>

definition io_read :: "'h stdio \<Rightarrow> int \<Rightarrow> 'h option" where
  "io_read st fs_num = (if fs_num = 0 \<and> g_stdin_handler st \<noteq> None then g_stdin_handler st else None)"

definition io_write :: "'h stdio \<Rightarrow> int \<Rightarrow> 'h option" where
  "io_write st fs_num =
     (if fs_num = 1 \<and> g_stdout_handler st \<noteq> None then g_stdout_handler st
      else if fs_num = 2 \<and> g_stderr_handler st \<noteq> None then g_stderr_handler st
      else None)"

definition tty_init :: "tty_init_results \<Rightarrow> 'h stdio \<Rightarrow> int \<times> 'h stdio" where
  "tty_init k st =
     (if res_AddDrv k < 0 then (res_AddDrv k, st)
      else let st = st\<lparr>g_in_sema := res_InSema k\<rparr> in
      if g_in_sema st < 0 then (g_in_sema st, st)
      else let st = st\<lparr>g_out_sema := res_OutSema k\<rparr> in
      if g_out_sema st < 0 then (g_out_sema st, st)
      else if res_Reopen k < 0 then (res_Reopen k, st)
      else if res_StdoutReopen k < 0 then (res_StdoutReopen k, st)
      else if res_StderrReopen k < 0 then (res_StderrReopen k, st)
      else (0, st\<lparr>g_initialised := True\<rparr>))"

definition stdioInstallStdinHandler :: "tty_init_results \<Rightarrow> 'h option \<Rightarrow> 'h stdio \<Rightarrow> int \<times> 'h stdio" where
  "stdioInstallStdinHandler k h st =
     (let (ret, st') = (if \<not> g_initialised st then tty_init k st else (0, st))
      in if ret < 0 then (ret, st') else (0, st'\<lparr>g_stdin_handler := h\<rparr>))"

definition stdioInstallStdoutHandler :: "tty_init_results \<Rightarrow> 'h option \<Rightarrow> 'h stdio \<Rightarrow> int \<times> 'h stdio" where
  "stdioInstallStdoutHandler k h st =
     (let (ret, st') = (if \<not> g_initialised st then tty_init k st else (0, st))
      in if ret < 0 then (ret, st') else (0, st'\<lparr>g_stdout_handler := h\<rparr>))"

definition stdioInstallStderrHandler :: "tty_init_results \<Rightarrow> 'h option \<Rightarrow> 'h stdio \<Rightarrow> int \<times> 'h stdio" where
  "stdioInstallStderrHandler k h st =
     (let (ret, st') = (if \<not> g_initialised st then tty_init k st else (0, st))
      in if ret < 0 then (ret, st') else (0, st'\<lparr>g_stderr_handler := h\<rparr>))"

lemma tty_init_frame:
  "tty_init k st = (ret, st') \<Longrightarrow>
   g_stdin_handler st' = g_stdin_handler st \<and> g_stdout_handler st' = g_stdout_handler st \<and>
   g_stderr_handler st' = g_stderr_handler st \<and> (g_initialised st' \<longleftrightarrow> g_initialised st \<or> ret = 0) \<and> ret \<le> 0"
  by (auto simp: tty_init_def Let_def split: if_splits)

section \<open>Properties\<close>

text \<open>
  C36: No lost wakeup. Whatever the interleaving of the program's reads with the shells' calls of
  \<open>ttyAddInputData\<close>: a reader that asked for bytes and is asleep while the ring holds data
  has been woken. The thread id of the reader is a kernel id, never negative.
\<close>
theorem tty_no_lost_wakeup:
  assumes "tty_reachable me s" and "0 \<le> me" and "reader s = Sleeping sz" and "0 < sz"
    and "stdin_contents (ring s) \<noteq> []"
  shows "woken s"
  using tty_reachable_inv [OF assms(1,2)] assms(3-5) by (auto simp: tty_inv_def)

lemma tty_reachable_example:
  "\<exists>s. tty_reachable 5 s \<and> reader s = Sleeping 3 \<and> stdin_contents (ring s) = ''ab''
     \<and> accepted s = ''ab''"
proof -
  let ?s1 = "tty_sys_init\<lparr>reader := Reading 3\<rparr>"
  let ?s2 = "?s1\<lparr>ring := stdin_init, waitth := 5, reader := Sleeping 3, woken := False\<rparr>"
  let ?r = "stdin_put stdin_init ''ab''"
  let ?s3 = "?s2\<lparr>ring := ?r, waitth := -1, woken := (woken ?s2 \<or> 5 \<in> set [5 :: int]),
      accepted := accepted ?s2 @ take (STDIN_BUFSIZE - g_stdinsize (ring ?s2)) ''ab''\<rparr>"
  have "tty_reachable 5 ?s1"
    by (rule tty_reachable.step [OF tty_reachable.start tty_step.call]) (simp add: tty_sys_init_def)
  moreover have "tty_step 5 ?s1 ?s2"
    by (rule tty_step.no_data [where data = "[]"])
      (simp_all add: inputHandler_turn_def tty_sys_init_def stdin_init_def)
  moreover have "tty_step 5 ?s2 ?s3"
    by (rule tty_step.add [where data = "''ab''"]) (simp add: ttyAddInputData_def)
  ultimately have "tty_reachable 5 ?s3" by (blast intro: tty_reachable.step)
  moreover have "stdin_contents ?r = ''ab''"
    by (simp add: stdin.contents_put stdin_init_ok stdin_init_contents)
  ultimately show ?thesis
    by (intro exI [of _ ?s3]) (simp add: tty_sys_init_def stdin_init_def)
qed

theorem tty_no_lost_wakeup_witness:
  "\<exists>s. tty_reachable 5 s \<and> reader s = Sleeping 3 \<and> stdin_contents (ring s) = ''ab'' \<and> woken s"
proof -
  obtain s where s: "tty_reachable 5 s" "reader s = Sleeping 3" "stdin_contents (ring s) = ''ab''"
    using tty_reachable_example by blast
  then have "woken s" by (intro tty_no_lost_wakeup [of 5 s 3]) simp_all
  with s show ?thesis by blast
qed

text \<open>
  The typed stream is not reordered, duplicated or lost: in every reachable state what the
  program has read, followed by what the ring still holds, is what the ring has accepted, and the
  ring never holds more than its 4096 bytes.
\<close>
theorem tty_stream:
  assumes "tty_reachable me s" and "0 \<le> me"
  shows "delivered s @ stdin_contents (ring s) = accepted s
    \<and> length (stdin_contents (ring s)) \<le> STDIN_BUFSIZE"
  using tty_reachable_inv [OF assms] stdin.contents_bound [of "ring s"] by (simp add: tty_inv_def)

theorem tty_stream_witness:
  "\<exists>s. tty_reachable 5 s \<and> accepted s = ''ab'' \<and> delivered s @ stdin_contents (ring s) = ''ab''"
proof -
  obtain s where s: "tty_reachable 5 s" "accepted s = ''ab''"
    using tty_reachable_example by blast
  with tty_stream [of 5 s] show ?thesis by auto
qed

text \<open>
  A read of the standard input returns exactly when it asked for at least one byte and the
  ring holds one. So a read of zero bytes never returns, whatever is typed.
\<close>
theorem stdin_read_returns_iff:
  "snd (snd (snd (inputHandler_turn me sz s w))) \<longleftrightarrow> 0 < sz \<and> stdin_contents s \<noteq> []"
  by (rule inputHandler_turn_done_iff)

text \<open>
  Installing a standard-stream handler either succeeds and installs exactly that handler, or
  fails with a negative error of the kernel and leaves all three handlers as they were; the device
  is never marked initialised by a failed installation.
\<close>
theorem stdioInstall_atomic:
  assumes "stdioInstallStdoutHandler k h st = (ret, st')"
  shows "(ret = 0 \<and> st' = (st\<lparr>g_stdout_handler := h, g_initialised := True,
            g_in_sema := g_in_sema st', g_out_sema := g_out_sema st'\<rparr>))
       \<or> (ret < 0 \<and> g_stdout_handler st' = g_stdout_handler st \<and> g_stdin_handler st' = g_stdin_handler st
          \<and> g_stderr_handler st' = g_stderr_handler st \<and> \<not> g_initialised st')"
  using assms by (auto simp: stdioInstallStdoutHandler_def tty_init_def Let_def split: if_splits)

theorem stdioInstall_atomic_witness:
  "\<exists>st'. stdioInstallStdoutHandler
      \<lparr>res_AddDrv = 0, res_InSema = 3, res_OutSema = - 5, res_Reopen = 0, res_StdoutReopen = 0,
       res_StderrReopen = 0\<rparr> (Some (1 :: nat)) stdio_start = (- 5, st')
    \<and> g_stdout_handler st' = None \<and> \<not> g_initialised st'"
proof -
  define k where "k = \<lparr>res_AddDrv = 0, res_InSema = 3, res_OutSema = - 5, res_Reopen = 0,
      res_StdoutReopen = 0, res_StderrReopen = 0\<rparr>"
  obtain st' where st': "stdioInstallStdoutHandler k (Some (1 :: nat)) stdio_start = (- 5, st')"
    by (simp add: stdioInstallStdoutHandler_def tty_init_def k_def stdio_start_def Let_def)
  with stdioInstall_atomic [OF st'] show ?thesis by (auto simp: k_def stdio_start_def)
qed

end
