(* ===== verification/Async.thy ===== *)
theory Async
  imports Ring
begin

text \<open>
  The asynchronous channels of \<open>usbhostfs/main.c\<close>, the PSP's side of the USB link: eight channels
  (shell, debugger, standard streams, four for users), each with a ring that the USB thread fills
  from the frames sent by the PC (\<open>fill_async\<close>) and its owner reads (\<open>usbAsyncRead\<close>).

  A channel holds a pointer to its owner's \<open>AsyncEndpoint\<close>: channels are a list of addresses and the
  endpoints an explicit store, so that one endpoint under two channels is one ring. Calls on the
  event flag \<open>g_asyncevent\<close> are recorded in order in the state; what a wait returns is an argument.
\<close>

section \<open>Endpoints\<close>

abbreviation MAX_ASYNC_BUFFER :: nat where
  "MAX_ASYNC_BUFFER \<equiv> 4096"

abbreviation MAX_ASYNC_CHANNELS :: nat where
  "MAX_ASYNC_CHANNELS \<equiv> 8"

abbreviation ASYNC_USER :: nat where
  "ASYNC_USER \<equiv> 4"

abbreviation ASYNC_ALLOC_CHAN :: u32 where
  "ASYNC_ALLOC_CHAN \<equiv> - 1"

abbreviation ASYNC_MAGIC :: u32 where
  "ASYNC_MAGIC \<equiv> 0x782F0813"

text \<open>The size of \<open>struct AsyncCommand\<close>: a magic number and a channel.\<close>

abbreviation async_header :: nat where
  "async_header \<equiv> 8"

record AsyncEndpoint =
  ep_buffer :: "u8 list"
  ep_read_pos :: nat
  ep_write_pos :: nat
  ep_size :: nat

definition ep_contents :: "AsyncEndpoint \<Rightarrow> u8 list" where
  "ep_contents e = ring_view (ep_buffer e) (ep_read_pos e) (ep_size e)"

definition ep_ok :: "AsyncEndpoint \<Rightarrow> bool" where
  "ep_ok e \<longleftrightarrow> ring_ok MAX_ASYNC_BUFFER (ep_buffer e) (ep_read_pos e) (ep_write_pos e) (ep_size e)"

text \<open>The loop of \<open>fill_async\<close>.\<close>

fun ep_store :: "AsyncEndpoint \<Rightarrow> u8 list \<Rightarrow> nat \<Rightarrow> AsyncEndpoint" where
  "ep_store e (b # data) (Suc sizeleft) =
     ep_store (e\<lparr>ep_buffer := (ep_buffer e)[ep_write_pos e := b],
                 ep_write_pos := (ep_write_pos e + 1) mod MAX_ASYNC_BUFFER,
                 ep_size := ep_size e + 1\<rparr>) data sizeleft"
| "ep_store e data sizeleft = e"

definition ep_put :: "AsyncEndpoint \<Rightarrow> u8 list \<Rightarrow> AsyncEndpoint" where
  "ep_put e data =
     ep_store e data (if length data < MAX_ASYNC_BUFFER - ep_size e then length data
                      else MAX_ASYNC_BUFFER - ep_size e)"

text \<open>The loop of \<open>usbAsyncRead\<close>.\<close>

fun ep_fetch :: "AsyncEndpoint \<Rightarrow> nat \<Rightarrow> u8 list \<times> AsyncEndpoint" where
  "ep_fetch e 0 = ([], e)"
| "ep_fetch e (Suc k) =
     (let b = ep_buffer e ! ep_read_pos e;
          (d, e') = ep_fetch (e\<lparr>ep_read_pos := (ep_read_pos e + 1) mod MAX_ASYNC_BUFFER,
                                ep_size := ep_size e - 1\<rparr>) k
      in (b # d, e'))"

definition ep_get :: "AsyncEndpoint \<Rightarrow> nat \<Rightarrow> u8 list \<times> AsyncEndpoint" where
  "ep_get e n = ep_fetch e (if n < ep_size e then n else ep_size e)"

definition ep_flush :: "AsyncEndpoint \<Rightarrow> AsyncEndpoint" where
  "ep_flush e = e\<lparr>ep_size := 0, ep_read_pos := 0, ep_write_pos := 0\<rparr>"

lemma ep_size_contents: "ep_size e = length (ep_contents e)"
  by (simp add: ep_contents_def)

lemma ep_flush_ok: "length (ep_buffer e) = MAX_ASYNC_BUFFER \<Longrightarrow> ep_ok (ep_flush e)"
  and ep_flush_contents [simp]: "ep_contents (ep_flush e) = []"
  by (simp_all add: ep_ok_def ep_flush_def ring_ok_empty ep_contents_def)

lemma ep_store_spec:
  "ep_ok e \<Longrightarrow> k \<le> length data \<Longrightarrow> ep_size e + k \<le> MAX_ASYNC_BUFFER \<Longrightarrow>
   ep_ok (ep_store e data k) \<and> ep_contents (ep_store e data k) = ep_contents e @ take k data"
proof (induction e data k rule: ep_store.induct)
  case (1 e b data k)
  let ?e = "e\<lparr>ep_buffer := (ep_buffer e)[ep_write_pos e := b],
              ep_write_pos := (ep_write_pos e + 1) mod MAX_ASYNC_BUFFER,
              ep_size := ep_size e + 1\<rparr>"
  have n: "ep_size e < MAX_ASYNC_BUFFER" and ok: "ring_ok MAX_ASYNC_BUFFER (ep_buffer e)
      (ep_read_pos e) (ep_write_pos e) (ep_size e)"
    using "1.prems" by (simp_all add: ep_ok_def)
  have "ep_ok ?e" using ring_ok_put [OF ok n] by (simp add: ep_ok_def)
  moreover have "ep_contents ?e = ep_contents e @ [b]"
    using ring_view_put [OF ok n] by (simp add: ep_contents_def)
  ultimately show ?case using "1.IH" "1.prems" by simp
qed simp_all

lemma ep_fetch_spec:
  "ep_ok e \<Longrightarrow> k \<le> ep_size e \<Longrightarrow>
   fst (ep_fetch e k) = take k (ep_contents e) \<and> ep_ok (snd (ep_fetch e k)) \<and>
   ep_contents (snd (ep_fetch e k)) = drop k (ep_contents e)"
proof (induction k arbitrary: e)
  case (Suc k)
  let ?e = "e\<lparr>ep_read_pos := (ep_read_pos e + 1) mod MAX_ASYNC_BUFFER, ep_size := ep_size e - 1\<rparr>"
  have n: "0 < ep_size e" and ok: "ring_ok MAX_ASYNC_BUFFER (ep_buffer e)
      (ep_read_pos e) (ep_write_pos e) (ep_size e)"
    using Suc.prems by (simp_all add: ep_ok_def)
  have e: "ep_ok ?e" using ring_ok_get [OF ok n] by (simp add: ep_ok_def)
  have "ep_contents e = ep_buffer e ! ep_read_pos e # ep_contents ?e"
    using ring_view_get [OF ok n] by (simp add: ep_contents_def)
  then show ?case using Suc.IH [OF e] Suc.prems
    by (cases "ep_fetch ?e k") (auto simp: Let_def)
qed simp

interpretation endpoint: byte_fifo ep_put ep_get ep_contents MAX_ASYNC_BUFFER ep_ok
proof
  fix e :: AsyncEndpoint and data :: "u8 list" and n :: nat
  assume ok: "ep_ok e"
  have b: "ep_size e \<le> MAX_ASYNC_BUFFER" using ok by (simp add: ep_ok_def ring_ok_def)
  show "length (ep_contents e) \<le> MAX_ASYNC_BUFFER" using b by (simp add: ep_contents_def)
  let ?k = "if length data < MAX_ASYNC_BUFFER - ep_size e then length data
            else MAX_ASYNC_BUFFER - ep_size e"
  have p: "ep_ok (ep_store e data ?k) \<and> ep_contents (ep_store e data ?k) = ep_contents e @ take ?k data"
    using b by (intro ep_store_spec ok) (auto split: if_splits)
  then show "ep_ok (ep_put e data)" by (simp add: ep_put_def)
  show "ep_contents (ep_put e data) =
      ep_contents e @ take (MAX_ASYNC_BUFFER - length (ep_contents e)) data"
    using p by (simp add: ep_put_def ep_contents_def)
  let ?g = "if n < ep_size e then n else ep_size e"
  have g: "fst (ep_fetch e ?g) = take ?g (ep_contents e) \<and> ep_ok (snd (ep_fetch e ?g)) \<and>
      ep_contents (snd (ep_fetch e ?g)) = drop ?g (ep_contents e)"
    by (intro ep_fetch_spec ok) (simp split: if_splits)
  then show "ep_ok (snd (ep_get e n))" by (simp add: ep_get_def)
  show "fst (ep_get e n) = take n (ep_contents e)"
    and "ep_contents (snd (ep_get e n)) = drop n (ep_contents e)"
    using g by (auto simp: ep_get_def ep_contents_def split: if_splits)
qed

section \<open>Channels\<close>

datatype event_call = SetEventFlag u32 | ClearEventFlag u32

record async_state =
  g_async_chan :: "nat option list"
  endpoints :: "nat \<Rightarrow> AsyncEndpoint"
  event_calls :: "event_call list"

definition chan_bit :: "nat \<Rightarrow> u32" where
  "chan_bit chan = push_bit chan 1"

definition async_init :: "(nat \<Rightarrow> AsyncEndpoint) \<Rightarrow> async_state" where
  "async_init eps = \<lparr>g_async_chan = replicate MAX_ASYNC_CHANNELS None, endpoints = eps, event_calls = []\<rparr>"

text \<open>The endpoint of a channel: \<open>None\<close> out of range or when nothing is registered.\<close>

definition chan_endpoint :: "async_state \<Rightarrow> u32 \<Rightarrow> nat option" where
  "chan_endpoint s chan =
     (if MAX_ASYNC_CHANNELS \<le> unat chan then None else g_async_chan s ! unat chan)"

definition usbAsyncFlush :: "u32 \<Rightarrow> async_state \<Rightarrow> async_state" where
  "usbAsyncFlush chan s =
     (case chan_endpoint s chan of None \<Rightarrow> s
      | Some e \<Rightarrow> s\<lparr>endpoints := (endpoints s)(e := ep_flush (endpoints s e)),
                    event_calls := event_calls s @ [ClearEventFlag (NOT (chan_bit (unat chan)))]\<rparr>)"

text \<open>The scan of the user channels for a free one.\<close>

definition find_free_chan :: "nat option list \<Rightarrow> nat option" where
  "find_free_chan chans = find (\<lambda>i. chans ! i = None) [ASYNC_USER..<MAX_ASYNC_CHANNELS]"

definition usbAsyncRegister :: "u32 \<Rightarrow> nat option \<Rightarrow> async_state \<Rightarrow> int \<times> async_state" where
  "usbAsyncRegister chan endp s =
     (case endp of None \<Rightarrow> (-1, s)
      | Some e \<Rightarrow>
         (let slot = (if chan = ASYNC_ALLOC_CHAN then find_free_chan (g_async_chan s)
                      else if MAX_ASYNC_CHANNELS \<le> unat chan \<or> g_async_chan s ! unat chan \<noteq> None
                      then None else Some (unat chan))
          in case slot of None \<Rightarrow> (-1, s)
             | Some c \<Rightarrow> (int c, usbAsyncFlush (of_nat c)
                           (s\<lparr>g_async_chan := (g_async_chan s)[c := Some e]\<rparr>))))"

definition usbAsyncUnregister :: "u32 \<Rightarrow> async_state \<Rightarrow> int \<times> async_state" where
  "usbAsyncUnregister chan s =
     (case chan_endpoint s chan of None \<Rightarrow> (-1, s)
      | Some _ \<Rightarrow> (0, s\<lparr>g_async_chan := (g_async_chan s)[unat chan := None]\<rparr>))"

text \<open>
  \<open>fill_async\<close>: one frame from the PC, the \<open>len\<close> bytes received, header first. Its critical section
  sets the channel's event bit whenever the frame is accepted.
\<close>

definition fill_async :: "u8 list \<Rightarrow> async_state \<Rightarrow> async_state" where
  "fill_async frame s =
     (if async_header < length frame then
        let data = drop async_header frame; magic = le32 frame; channel = le32 (drop 4 frame)
        in if magic = ASYNC_MAGIC then
             (case chan_endpoint s channel of None \<Rightarrow> s
              | Some e \<Rightarrow> s\<lparr>endpoints := (endpoints s)(e := ep_put (endpoints s e) data),
                  event_calls := event_calls s @ [SetEventFlag (chan_bit (unat channel))]\<rparr>)
           else s
      else s)"

text \<open>
  \<open>usbAsyncRead\<close> is cut at its wait for the event flag, where other threads run. \<open>usbAsyncRead_enter\<close>
  gives the \<open>k1\<close> left behind and the error result, or \<open>None\<close> when it goes on to wait; with \<open>wait\<close>,
  what the wait returned, \<open>usbAsyncRead_leave\<close> gives \<open>k1\<close>, the result and the data. It reads
  the channel's endpoint again, and a null pointer there is the fault \<open>None\<close>.
\<close>

definition usbAsyncRead_enter :: "u32 \<Rightarrow> u32 \<Rightarrow> async_state \<Rightarrow> u32 \<times> int option" where
  "usbAsyncRead_enter k1 chan s =
     (let (saved, k1) = psplinkSetK1 k1 0
      in if chan_endpoint s chan = None then (k1, Some (-1)) else (k1, None))"

definition usbAsyncRead_leave :: "u32 \<Rightarrow> u32 \<Rightarrow> int \<Rightarrow> u32 \<Rightarrow> int \<Rightarrow> async_state
    \<Rightarrow> (u32 \<times> int \<times> u8 list \<times> async_state) option" where
  "usbAsyncRead_leave saved k1 wait chan len s =
     (if wait < 0 then Some (k1, -1, [], s)
      else case chan_endpoint s chan of None \<Rightarrow> None
      | Some e \<Rightarrow>
         (let ep = endpoints s e;
              len = (if len < int (ep_size ep) then len else int (ep_size ep));
              (data, ep') = ep_fetch ep (nat len);
              s' = s\<lparr>endpoints := (endpoints s)(e := ep')\<rparr>;
              s' = (if ep_size ep' \<noteq> 0
                    then s'\<lparr>event_calls := event_calls s' @ [SetEventFlag (chan_bit (unat chan))]\<rparr>
                    else s')
          in Some (snd (psplinkSetK1 k1 saved), len, data, s')))"

text \<open>A whole read, when nothing else runs during its wait.\<close>

definition usbAsyncRead :: "u32 \<Rightarrow> int \<Rightarrow> u32 \<Rightarrow> int \<Rightarrow> async_state
    \<Rightarrow> (u32 \<times> int \<times> u8 list \<times> async_state) option" where
  "usbAsyncRead k1 wait chan len s =
     (case usbAsyncRead_enter k1 chan s of
        (k1', Some ret) \<Rightarrow> Some (k1', ret, [], s)
      | (k1', None) \<Rightarrow> usbAsyncRead_leave k1 k1' wait chan len s)"

section \<open>The invariant of the channels\<close>

definition async_ok :: "async_state \<Rightarrow> bool" where
  "async_ok s \<longleftrightarrow> length (g_async_chan s) = MAX_ASYNC_CHANNELS \<and>
     (\<forall>e. length (ep_buffer (endpoints s e)) = MAX_ASYNC_BUFFER) \<and>
     (\<forall>e. Some e \<in> set (g_async_chan s) \<longrightarrow> ep_ok (endpoints s e))"

lemma chan_endpoint_mem: "async_ok s \<Longrightarrow> chan_endpoint s c = Some e \<Longrightarrow> Some e \<in> set (g_async_chan s)"
  by (auto simp: chan_endpoint_def async_ok_def split: if_splits) (metis not_le nth_mem)

lemma ep_ok_length: "ep_ok e \<Longrightarrow> length (ep_buffer e) = MAX_ASYNC_BUFFER"
  by (simp add: ep_ok_def ring_ok_def)

lemma async_ok_update:
  "async_ok s \<Longrightarrow> ep_ok ep \<Longrightarrow> async_ok (s\<lparr>endpoints := (endpoints s)(e := ep), event_calls := ev\<rparr>)"
  by (simp add: async_ok_def ep_ok_length)

lemma async_init_ok: "(\<forall>e. length (ep_buffer (eps e)) = MAX_ASYNC_BUFFER) \<Longrightarrow> async_ok (async_init eps)"
  by (simp add: async_ok_def async_init_def)

lemma usbAsyncFlush_ok: "async_ok s \<Longrightarrow> async_ok (usbAsyncFlush chan s)"
  by (auto simp: usbAsyncFlush_def async_ok_def ep_flush_ok ep_ok_length split: option.splits)

lemma fill_async_ok: "async_ok s \<Longrightarrow> async_ok (fill_async frame s)"
  using chan_endpoint_mem [of s]
  by (auto simp: fill_async_def Let_def split: option.splits
      intro!: async_ok_update endpoint.inv_put) (auto simp: async_ok_def)

lemma usbAsyncUnregister_ok:
  "async_ok s \<Longrightarrow> usbAsyncUnregister chan s = (ret, s') \<Longrightarrow> async_ok s'"
  by (auto simp: usbAsyncUnregister_def async_ok_def split: option.splits
      dest!: set_update_subset_insert [THEN subsetD])

text \<open>Registering flushes, so a fresh endpoint's positions need not be initialised by its owner.\<close>

lemma usbAsyncRegister_Some:
  assumes "usbAsyncRegister chan (Some e) s = (ret, s')" "0 \<le> ret"
    and "length (g_async_chan s) = MAX_ASYNC_CHANNELS"
  shows "nat ret < MAX_ASYNC_CHANNELS \<and> g_async_chan s ! nat ret = None \<and>
    s' = usbAsyncFlush (of_nat (nat ret)) (s\<lparr>g_async_chan := (g_async_chan s)[nat ret := Some e]\<rparr>)"
  using assms
  by (auto simp: usbAsyncRegister_def find_free_chan_def find_Some_iff Let_def not_le
      split: option.splits if_splits)

lemma unat_chan [simp]: "c < MAX_ASYNC_CHANNELS \<Longrightarrow> unat (of_nat c :: u32) = c"
  by (simp add: unat_of_nat)

lemma usbAsyncRegister_ok:
  assumes ok: "async_ok s" and r: "usbAsyncRegister chan (Some e) s = (ret, s')"
  shows "async_ok s'"
proof (cases "0 \<le> ret")
  case True
  have L: "length (g_async_chan s) = MAX_ASYNC_CHANNELS" using ok by (simp add: async_ok_def)
  note R = usbAsyncRegister_Some [OF r True L]
  have "chan_endpoint (s\<lparr>g_async_chan := (g_async_chan s)[nat ret := Some e]\<rparr>) (of_nat (nat ret)) = Some e"
    using R L by (simp add: chan_endpoint_def)
  then have "usbAsyncFlush (of_nat (nat ret)) (s\<lparr>g_async_chan := (g_async_chan s)[nat ret := Some e]\<rparr>) =
     s\<lparr>g_async_chan := (g_async_chan s)[nat ret := Some e],
       endpoints := (endpoints s)(e := ep_flush (endpoints s e)),
       event_calls := event_calls s @ [ClearEventFlag (NOT (chan_bit (nat ret)))]\<rparr>"
    using R by (simp add: usbAsyncFlush_def)
  then show ?thesis using ok R
    by (auto simp: async_ok_def ep_flush_ok ep_ok_length dest!: set_update_subset_insert [THEN subsetD])
next
  case False
  then have "s' = s" using r
    by (auto simp: usbAsyncRegister_def Let_def split: option.splits if_splits)
  with ok show ?thesis by simp
qed

section \<open>Writing to the PC\<close>

text \<open>
  The loop of \<open>usbAsyncWrite\<close>: frames of at most 512 bytes, header included. \<open>sent i\<close> is the result
  of the \<open>i\<close>-th \<open>send_async\<close>. The frames handed to \<open>send_async\<close>, in order, and \<open>written\<close>.
\<close>

abbreviation async_buffer :: nat where
  "async_buffer \<equiv> 512"

definition async_frame :: "u32 \<Rightarrow> u8 list \<Rightarrow> u8 list" where
  "async_frame chan data = to_le32 ASYNC_MAGIC @ to_le32 chan @ data"

function async_write_loop :: "(nat \<Rightarrow> bool) \<Rightarrow> nat \<Rightarrow> u32 \<Rightarrow> u8 list \<Rightarrow> u8 list list \<times> nat" where
  "async_write_loop sent i chan data =
     (if data = [] then ([], 0)
      else let room = async_buffer - async_header;
               sz = (if room < length data then room else length data);
               frame = async_frame chan (take sz data)
           in if sent i then
                (let (fs, n) = async_write_loop sent (Suc i) chan (drop sz data) in (frame # fs, sz + n))
              else ([frame], 0))"
  by pat_completeness auto
termination
  by (relation "measure (\<lambda>(sent, i, chan, data). length data)") auto

declare async_write_loop.simps [simp del]

definition usbAsyncWrite :: "u32 \<Rightarrow> bool \<Rightarrow> (nat \<Rightarrow> bool) \<Rightarrow> u32 \<Rightarrow> u8 list \<Rightarrow> int
    \<Rightarrow> u32 \<times> int \<times> u8 list list" where
  "usbAsyncWrite k1 connected sent chan data len =
     (let (saved, k1) = psplinkSetK1 k1 0;
          (ret, frames) =
            (if \<not> connected then (-1, [])
             else let (frames, written) = async_write_loop sent 0 chan (take (nat len) data)
                  in (int written, frames))
      in (snd (psplinkSetK1 k1 saved), ret, frames))"

section \<open>The PC's side of the channels\<close>

text \<open>
  \<open>usbhostfs_pc/main.c\<close>: a frame from the PSP is written to the client socket of its channel (the
  socket and the bytes, if a write is made), and what a client sends is framed with its channel.
\<close>

definition do_async :: "(nat \<Rightarrow> int) \<Rightarrow> u8 list \<Rightarrow> (int \<times> u8 list) option" where
  "do_async clientsocks cmd =
     (if async_header < length cmd then
        let data = drop async_header cmd; chan = unat (le32 (drop 4 cmd))
        in if chan < MAX_ASYNC_CHANNELS \<and> 0 \<le> clientsocks chan then Some (clientsocks chan, data) else None
      else None)"

definition async_client_frame :: "nat \<Rightarrow> u8 list \<Rightarrow> u8 list" where
  "async_client_frame i data = async_frame (of_nat i) data"

lemma drop_async_frame [simp]: "drop 8 (async_frame chan data) = data"
    "le32 (async_frame chan data) = ASYNC_MAGIC" "le32 (drop 4 (async_frame chan data)) = chan"
  by (simp_all add: async_frame_def)

lemma length_async_frame [simp]: "length (async_frame chan data) = 8 + length data"
  by (simp add: async_frame_def)

lemma async_write_loop_spec:
  "(\<forall>i. sent i) \<Longrightarrow> async_write_loop sent i chan data = (fs, n) \<Longrightarrow>
   n = length data \<and> concat (map (drop async_header) fs) = data \<and>
   (\<forall>f \<in> set fs. length f \<le> async_buffer \<and> async_header < length f \<and> le32 f = ASYNC_MAGIC
      \<and> le32 (drop 4 f) = chan)"
proof (induction sent i chan data arbitrary: fs n rule: async_write_loop.induct)
  case (1 sent i chan data)
  show ?case
  proof (cases "data = []")
    case True
    with "1.prems"(2) show ?thesis by (simp add: async_write_loop.simps [of sent i chan])
  next
    case False
    define sz where "sz = (if 504 < length data then 504 else length data)"
    obtain fs' n' where *: "async_write_loop sent (Suc i) chan (drop sz data) = (fs', n')"
      by fastforce
    have "sent i" using "1.prems"(1) by blast
    with "1.prems"(2) False * have e: "fs = async_frame chan (take sz data) # fs'" "n = sz + n'"
      by (simp_all add: async_write_loop.simps [of sent i chan data] sz_def Let_def)
    have z: "0 < sz" "sz \<le> 504" "sz \<le> length data" using False by (auto simp: sz_def)
    have "n' = length (drop sz data) \<and> concat (map (drop async_header) fs') = drop sz data \<and>
      (\<forall>f \<in> set fs'. length f \<le> async_buffer \<and> async_header < length f \<and> le32 f = ASYNC_MAGIC
         \<and> le32 (drop 4 f) = chan)"
      using "1.IH" [OF False refl refl refl \<open>sent i\<close> "1.prems"(1), of fs' n'] *
      unfolding sz_def by (simp cong: if_cong)
    with e z False show ?thesis by simp
  qed
qed

text \<open>Frames of one channel, filled one after the other.\<close>

definition fill_frames :: "u8 list list \<Rightarrow> async_state \<Rightarrow> async_state" where
  "fill_frames fs s = fold fill_async fs s"

lemma fill_async_frame:
  assumes "async_ok s" "chan_endpoint s (of_nat c) = Some e" "c < MAX_ASYNC_CHANNELS" "data \<noteq> []"
  shows "fill_async (async_client_frame c data) s =
    s\<lparr>endpoints := (endpoints s)(e := ep_put (endpoints s e) data),
      event_calls := event_calls s @ [SetEventFlag (chan_bit c)]\<rparr>"
  using assms by (simp add: fill_async_def async_client_frame_def Let_def)

lemma chan_endpoint_update [simp]:
  "chan_endpoint (s\<lparr>endpoints := f, event_calls := ev\<rparr>) c = chan_endpoint s c"
  by (simp add: chan_endpoint_def)

lemma fill_frames_contents:
  assumes "async_ok s" "chan_endpoint s (of_nat c) = Some e" "c < MAX_ASYNC_CHANNELS"
    and "\<forall>d \<in> set ds. d \<noteq> []"
    and "length (ep_contents (endpoints s e)) + length (concat ds) \<le> MAX_ASYNC_BUFFER"
  shows "let s' = fill_frames (map (async_client_frame c) ds) s in
    async_ok s' \<and> chan_endpoint s' (of_nat c) = Some e \<and>
    ep_contents (endpoints s' e) = ep_contents (endpoints s e) @ concat ds"
  using assms
proof (induction ds arbitrary: s)
  case (Cons d ds)
  let ?t = "fill_async (async_client_frame c d) s"
  have t: "?t = s\<lparr>endpoints := (endpoints s)(e := ep_put (endpoints s e) d),
      event_calls := event_calls s @ [SetEventFlag (chan_bit c)]\<rparr>"
    using Cons.prems by (intro fill_async_frame) auto
  have ok: "ep_ok (endpoints s e)"
    using chan_endpoint_mem [OF Cons.prems(1,2)] Cons.prems(1) by (simp add: async_ok_def)
  have c: "ep_contents (endpoints ?t e) = ep_contents (endpoints s e) @ d"
    using Cons.prems(5) by (simp add: t endpoint.contents_put [OF ok])
  have "chan_endpoint ?t (of_nat c) = Some e" using Cons.prems(2) by (simp add: t)
  from Cons.IH [OF fill_async_ok [OF Cons.prems(1)] this Cons.prems(3)] Cons.prems(4,5) c
  show ?case by (simp add: fill_frames_def)
qed (simp add: fill_frames_def)

section \<open>Properties\<close>

text \<open>
  Writing to a channel loses nothing: when every transfer succeeds, \<open>usbAsyncWrite\<close> reports
  the whole length, every frame carries the magic number and the channel and has at
  most 512 bytes, and the payloads, in order, are the data.
\<close>
theorem usbAsyncWrite_frames:
  assumes "\<forall>i. sent i" and "usbAsyncWrite k1 True sent chan data (int (length data)) = (k1', ret, fs)"
  shows "k1' = k1 \<and> ret = int (length data) \<and> concat (map (drop async_header) fs) = data \<and>
    (\<forall>f \<in> set fs. length f \<le> async_buffer \<and> async_header < length f \<and> le32 f = ASYNC_MAGIC
       \<and> le32 (drop 4 f) = chan)"
proof -
  obtain n where n: "async_write_loop sent 0 chan data = (fs, n)" "k1' = k1" "ret = int n"
    using assms(2) by (auto simp: usbAsyncWrite_def psplinkSetK1_def split: prod.splits)
  with async_write_loop_spec [OF assms(1) n(1)] show ?thesis by simp
qed

theorem usbAsyncWrite_frames_witness:
  "concat (map (drop async_header) (snd (snd (usbAsyncWrite 7 True (\<lambda>_. True) 4 (replicate 600 1) 600))))
     = replicate 600 1"
  using usbAsyncWrite_frames [of "\<lambda>_. True" 7 4 "replicate 600 1"]
  by (cases "usbAsyncWrite 7 True (\<lambda>_. True) 4 (replicate 600 1) 600") simp

text \<open>
  C32: From a client of the PC to the owner of the channel: the pieces a client sends, framed by
  the PC and received by \<open>fill_async\<close>, are read back in order by \<open>usbAsyncRead\<close> as one stream, as
  long as they fit the channel's ring of 4096 bytes.
\<close>
theorem async_client_stream:
  assumes "async_ok s" and "chan_endpoint s (of_nat c) = Some e" and "c < MAX_ASYNC_CHANNELS"
    and "\<forall>d \<in> set ds. d \<noteq> []" and "ep_contents (endpoints s e) = []"
    and "length (concat ds) \<le> MAX_ASYNC_BUFFER"
  shows "\<exists>s'. usbAsyncRead k1 0 (of_nat c) (int (length (concat ds)))
      (fill_frames (map (async_client_frame c) ds) s) = Some (k1, int (length (concat ds)), concat ds, s')
    \<and> ep_contents (endpoints s' e) = []"
proof -
  define t where "t = fill_frames (map (async_client_frame c) ds) s"
  have t: "async_ok t" "chan_endpoint t (of_nat c) = Some e" "ep_contents (endpoints t e) = concat ds"
    using fill_frames_contents [OF assms(1-4)] assms(5,6) by (simp_all add: t_def Let_def)
  have ok: "ep_ok (endpoints t e)"
    using chan_endpoint_mem [OF t(1,2)] t(1) by (simp add: async_ok_def)
  let ?n = "length (concat ds)"
  have n: "ep_size (endpoints t e) = ?n" by (simp only: ep_size_contents t(3))
  obtain d ep where f: "ep_fetch (endpoints t e) ?n = (d, ep)" by fastforce
  have "d = concat ds" "ep_contents ep = []"
    using ep_fetch_spec [OF ok, of ?n] f n t(3) by simp_all
  moreover have "ep_size ep = 0" using \<open>ep_contents ep = []\<close> by (simp add: ep_size_contents)
  ultimately show ?thesis
    using f n t(2)
    by (simp add: usbAsyncRead_def usbAsyncRead_enter_def usbAsyncRead_leave_def psplinkSetK1_def
        Let_def t_def [symmetric] del: length_concat)
qed

definition example_channels :: async_state where
  "example_channels =
     snd (usbAsyncRegister 4 (Some 0) (async_init (\<lambda>_. \<lparr>ep_buffer = replicate MAX_ASYNC_BUFFER 0,
       ep_read_pos = 9, ep_write_pos = 1, ep_size = 3\<rparr>)))"

lemma example_channels:
  "async_ok example_channels" "chan_endpoint example_channels 4 = Some 0"
  "ep_contents (endpoints example_channels 0) = []"
proof -
  let ?s = "async_init (\<lambda>_. \<lparr>ep_buffer = replicate MAX_ASYNC_BUFFER (0 :: u8),
       ep_read_pos = 9, ep_write_pos = 1, ep_size = 3\<rparr>)"
  show "async_ok example_channels"
    using usbAsyncRegister_ok [OF async_init_ok, of _ 4 0] unfolding example_channels_def
    by (metis (no_types, lifting) AsyncEndpoint.select_convs(1) length_replicate prod.collapse)
  show "chan_endpoint example_channels 4 = Some 0" "ep_contents (endpoints example_channels 0) = []"
    by (simp_all add: example_channels_def usbAsyncRegister_def async_init_def usbAsyncFlush_def
        chan_endpoint_def)
qed

theorem async_client_stream_witness:
  "\<exists>s'. usbAsyncRead 1 0 4 3 (fill_frames (map (async_client_frame 4) [[1, 2], [3]]) example_channels)
     = Some (1, 3, [1, 2, 3], s')"
  using async_client_stream [of example_channels 4 0 "[[1, 2], [3]]" 1] example_channels by auto

text \<open>
  Registering a channel: success gives a free channel (a user channel 4..7 when the caller
  asks for any), which now belongs to the endpoint, empty; a failure changes nothing. Either
  way the channels stay well formed.
\<close>
theorem usbAsyncRegister_spec:
  assumes "async_ok s" and "usbAsyncRegister chan (Some e) s = (ret, s')"
  shows "async_ok s' \<and>
    (ret = -1 \<and> s' = s \<or>
     0 \<le> ret \<and> ret < 8 \<and> g_async_chan s ! nat ret = None \<and> g_async_chan s' = (g_async_chan s)[nat ret := Some e]
     \<and> (chan = ASYNC_ALLOC_CHAN \<or> nat ret = unat chan) \<and> (chan = ASYNC_ALLOC_CHAN \<longrightarrow> 4 \<le> ret)
     \<and> ep_contents (endpoints s' e) = [])"
proof (cases "ret = -1")
  case True
  have "s' = s" using assms(2) True
    by (auto simp: usbAsyncRegister_def Let_def split: option.splits if_splits)
  with True assms(1) show ?thesis by simp
next
  case False
  have L: "length (g_async_chan s) = MAX_ASYNC_CHANNELS" using assms(1) by (simp add: async_ok_def)
  have "0 \<le> ret" "chan = ASYNC_ALLOC_CHAN \<or> nat ret = unat chan" "chan = ASYNC_ALLOC_CHAN \<longrightarrow> 4 \<le> ret"
    using assms(2) False
    by (auto simp: usbAsyncRegister_def Let_def find_free_chan_def find_Some_iff
        split: option.splits if_splits)
  moreover note R = usbAsyncRegister_Some [OF assms(2) \<open>0 \<le> ret\<close> L]
  have "g_async_chan s' = (g_async_chan s)[nat ret := Some e] \<and> ep_contents (endpoints s' e) = []"
    using R L by (auto simp: usbAsyncFlush_def chan_endpoint_def)
  ultimately show ?thesis using R usbAsyncRegister_ok [OF assms] by auto
qed

theorem usbAsyncRegister_spec_witness:
  "async_ok (snd (usbAsyncRegister ASYNC_ALLOC_CHAN (Some 1) example_channels))"
  using usbAsyncRegister_spec [OF example_channels(1), of ASYNC_ALLOC_CHAN 1]
  by (cases "usbAsyncRegister ASYNC_ALLOC_CHAN (Some 1) example_channels") simp

text \<open>
  The error exits of \<open>usbAsyncRead\<close> do not put the caller's \<open>k1\<close> back: on a channel that is
  out of range or has no owner the read fails with -1 and leaves \<open>k1\<close> zero.
\<close>
theorem usbAsyncRead_error_k1:
  assumes "chan_endpoint s chan = None"
  shows "usbAsyncRead k1 wait chan len s = Some (0, -1, [], s)"
  using assms by (simp add: usbAsyncRead_def usbAsyncRead_enter_def psplinkSetK1_def)

theorem usbAsyncRead_error_k1_witness:
  "usbAsyncRead 0x80000 0 8 1 example_channels = Some (0, -1, [], example_channels)"
  by (rule usbAsyncRead_error_k1) (simp add: chan_endpoint_def)

end
