(* ===== verification/CUtil.thy ===== *)
theory CUtil
  imports Prelude
begin

text \<open>
  \<open>psplink/util.c\<close>: the helpers the shell and its configuration rest on. Character classes and
  case, path handling (\<open>normalize_path\<close>, \<open>handlepath\<close>, \<open>findinpath\<close>), argument blocks, the state of
  the two USB drivers, buffered file reading, whitespace, masked memory search and hexadecimal strings.

  C strings are character lists without their NUL. What the kernel answers (opening a file, the
  attributes of a path, starting a driver) is an argument; printed messages are left out.
\<close>

section \<open>Characters\<close>

definition upcase :: "char \<Rightarrow> char" where
  "upcase ch = (if ccode (CHR ''a'') \<le> ccode ch \<and> ccode ch \<le> ccode (CHR ''z'')
                then char_of (ccode ch XOR push_bit 5 1) else ch)"

definition is_alnum :: "char \<Rightarrow> bool" where
  "is_alnum ch = (let c = ccode (upcase ch)
     in ccode (CHR ''A'') \<le> c \<and> c \<le> ccode (CHR ''Z'') \<or> ccode (CHR ''0'') \<le> c \<and> c \<le> ccode (CHR ''9''))"

definition is_oct :: "char \<Rightarrow> bool" where
  "is_oct ch \<longleftrightarrow> ccode (CHR ''0'') \<le> ccode ch \<and> ccode ch < ccode (CHR ''8'')"

definition oct_to_int :: "char \<Rightarrow> nat" where
  "oct_to_int ch = (if ccode (CHR ''0'') \<le> ccode ch \<and> ccode ch < ccode (CHR ''8'')
                    then ccode ch - ccode (CHR ''0'') else 0)"

definition is_hex :: "char \<Rightarrow> bool" where
  "is_hex ch = (let ch = upcase ch
     in ccode (CHR ''0'') \<le> ccode ch \<and> ccode ch \<le> ccode (CHR ''9'')
        \<or> ccode (CHR ''A'') \<le> ccode ch \<and> ccode ch \<le> ccode (CHR ''F''))"

definition hex_to_int :: "char \<Rightarrow> nat" where
  "hex_to_int ch =
     (if ccode (CHR ''0'') \<le> ccode ch \<and> ccode ch \<le> ccode (CHR ''9'') then ccode ch - ccode (CHR ''0'')
      else let ch = upcase ch in
        if ccode (CHR ''A'') \<le> ccode ch \<and> ccode ch \<le> ccode (CHR ''F'')
        then ccode ch - ccode (CHR ''A'') + 10 else 0)"

definition is_aspace :: "char \<Rightarrow> bool" where
  "is_aspace ch \<longleftrightarrow> ch = CHR '' '' \<or> ch = CHR 0x09 \<or> ch = CHR 0x0A \<or> ch = CHR 0x0D"

lemma hex_to_int_bound: "hex_to_int ch < 16"
  by (auto simp: hex_to_int_def Let_def)

lemma oct_to_int_bound: "oct_to_int ch < 8"
  by (auto simp: oct_to_int_def)

lemma is_aspace_simps [simp]:
  "is_aspace CHR '' ''" "is_aspace CHR 0x09" "is_aspace CHR 0x0A" "is_aspace CHR 0x0D"
  by (simp_all add: is_aspace_def)

section \<open>Paths\<close>

text \<open>\<open>strchr (s + i, c)\<close>, as an index into \<open>s\<close>.\<close>

definition strchr_from :: "char \<Rightarrow> string \<Rightarrow> nat \<Rightarrow> nat option" where
  "strchr_from c s i =
     (let k = length (takeWhile (\<lambda>x. x \<noteq> c) (drop i s)) in if i + k < length s then Some (i + k) else None)"

text \<open>\<open>strncmp (a, b, n) == 0\<close> for strings without NUL.\<close>

definition strncmp0 :: "nat \<Rightarrow> string \<Rightarrow> string \<Rightarrow> bool" where
  "strncmp0 n a b \<longleftrightarrow> take n a = take n b"

text \<open>The backward scan for a slash: it stops at the start of the path.\<close>

fun last_slash :: "string \<Rightarrow> nat \<Rightarrow> nat" where
  "last_slash path 0 = 0"
| "last_slash path (Suc k) = (if path ! Suc k = CHR ''/'' then Suc k else last_slash path k)"

text \<open>
  The loop of \<open>normalize_path\<close>, at a slash \<open>curr_pos\<close>; \<open>last_dir\<close> is the slash before it. The step
  gives the path and the position after the component between the two was looked at.
\<close>

definition normalize_step :: "string \<Rightarrow> nat option \<Rightarrow> nat \<Rightarrow> string \<times> nat" where
  "normalize_step path last_dir curr_pos =
     (case last_dir of None \<Rightarrow> (path, curr_pos)
      | Some l \<Rightarrow>
          if strncmp0 (curr_pos - l) (drop l path) ''/.'' then (take l path @ drop curr_pos path, l)
          else if strncmp0 (curr_pos - l) (drop l path) ''/..'' then
            let last_pos = last_slash path (l - 1); l' = (if 0 < last_pos then last_pos else l)
            in (take l' path @ drop curr_pos path, l')
          else (path, curr_pos))"

lemma last_slash_le: "last_slash path k \<le> k"
  by (induction k) auto

lemma last_slash_at: "0 < last_slash path k \<Longrightarrow> path ! last_slash path k = CHR ''/''"
  by (induction k) (auto split: if_splits)

lemma strchr_from_Some:
  "strchr_from c s i = Some k \<Longrightarrow> i \<le> k \<and> k < length s \<and> s ! k = c \<and> (\<forall>m. i \<le> m \<and> m < k \<longrightarrow> s ! m \<noteq> c)"
proof -
  assume a: "strchr_from c s i = Some k"
  define n where "n = length (takeWhile (\<lambda>x. x \<noteq> c) (drop i s))"
  have k: "k = i + n" "k < length s" using a by (auto simp: strchr_from_def n_def Let_def split: if_splits)
  then have "n < length (drop i s)" by simp
  then have "drop i s ! n = c" using nth_length_takeWhile [of "\<lambda>x. x \<noteq> c" "drop i s"] by (simp add: n_def)
  moreover have "s ! m \<noteq> c" if "i \<le> m" "m < k" for m
  proof -
    have "takeWhile (\<lambda>x. x \<noteq> c) (drop i s) ! (m - i) = drop i s ! (m - i)"
      using that k by (intro takeWhile_nth) (simp add: n_def)
    moreover have "takeWhile (\<lambda>x. x \<noteq> c) (drop i s) ! (m - i) \<in> set (takeWhile (\<lambda>x. x \<noteq> c) (drop i s))"
      using that k by (intro nth_mem) (simp add: n_def)
    ultimately have "drop i s ! (m - i) \<noteq> c" using set_takeWhileD by metis
    then show ?thesis using that k by simp
  qed
  ultimately show ?thesis using k by simp
qed

lemma strchr_from_None:
  assumes "strchr_from c s i = None" "i \<le> m" "m < length s"
  shows "s ! m \<noteq> c"
proof -
  define n where "n = length (takeWhile (\<lambda>x. x \<noteq> c) (drop i s))"
  have "\<not> i + n < length s" using assms(1) by (auto simp: strchr_from_def n_def Let_def split: if_splits)
  then have "length (takeWhile (\<lambda>x. x \<noteq> c) (drop i s)) = length (drop i s)"
    using length_takeWhile_le [of "\<lambda>x. x \<noteq> c" "drop i s"] by (simp add: n_def)
  then have "takeWhile (\<lambda>x. x \<noteq> c) (drop i s) = drop i s"
    using takeWhile_eq_take [of "\<lambda>x. x \<noteq> c" "drop i s"] by simp
  then have "\<forall>x \<in> set (drop i s). x \<noteq> c" by (simp only: takeWhile_eq_all_conv)
  moreover have "s ! m \<in> set (drop i s)"
    using assms(2,3) nth_mem [of "m - i" "drop i s"] by simp
  ultimately show ?thesis by blast
qed

lemma normalize_step_length:
  assumes "\<forall>l. last_dir = Some l \<longrightarrow> l \<le> curr_pos" "curr_pos \<le> length path"
    and "normalize_step path last_dir curr_pos = (path', curr')"
  shows "length path' - curr' = length path - curr_pos \<and> curr' \<le> length path'"
proof (cases last_dir)
  case None
  with assms show ?thesis by (simp add: normalize_step_def)
next
  case (Some l)
  have "last_slash path (l - 1) \<le> l" using last_slash_le [of path "l - 1"] by linarith
  then show ?thesis using assms Some
    by (auto simp: normalize_step_def Let_def split: if_splits)
qed

function normalize_loop :: "string \<Rightarrow> nat option \<Rightarrow> nat \<Rightarrow> string" where
  "normalize_loop path last_dir curr_pos =
     (if (case last_dir of None \<Rightarrow> True | Some l \<Rightarrow> l \<le> curr_pos) \<and> curr_pos \<le> length path then
        let (path', curr') = normalize_step path last_dir curr_pos
        in case strchr_from (CHR ''/'') path' (curr' + 1) of
             None \<Rightarrow> path'
           | Some c \<Rightarrow> normalize_loop path' (Some curr') c
      else path)"
  by pat_completeness auto
termination
proof (relation "measure (\<lambda>(path, last_dir, curr_pos). length path - curr_pos)", goal_cases)
  case (2 path last_dir curr_pos st path' curr' c)
  have "length path' - curr' = length path - curr_pos \<and> curr' \<le> length path'"
    using 2 by (intro normalize_step_length [of last_dir]) (auto split: option.splits)
  moreover have "curr' < c \<and> c < length path'" using strchr_from_Some [OF 2(4)] by simp
  ultimately have "length path' - c < length path - curr_pos" by linarith
  then show ?case by simp
qed simp

declare normalize_loop.simps [simp del]

text \<open>
  The conjunct on the positions in \<open>normalize_loop\<close> holds on every call of the code; it carries the
  termination argument. \<open>normalize_path\<close> is \<open>None\<close> when the code returns 0.
\<close>

definition normalize_path :: "string \<Rightarrow> string option" where
  "normalize_path path =
     (if chead path = CHR ''/'' then None
      else case strchr_from (CHR ''/'') path 0 of
             None \<Rightarrow> Some path
           | Some c \<Rightarrow> Some (normalize_loop path None c))"

text \<open>\<open>isdir\<close>; \<open>getstat\<close> gives the attributes of a path, if it exists.\<close>

abbreviation FIO_SO_IFDIR :: u32 where
  "FIO_SO_IFDIR \<equiv> 0x10"

definition isdir :: "(string \<Rightarrow> u32 option) \<Rightarrow> string \<Rightarrow> bool" where
  "isdir getstat path =
     (let len = length path in
      if len < 2 then False
      else if path ! (len - 1) = CHR ''/'' \<and> path ! (len - 2) = CHR '':''
           \<and> strchr_from (CHR ''/'') path 0 = Some (len - 1) then True
      else let localpath = (if path ! (len - 1) = CHR ''/'' then take (len - 1) path else path)
           in case getstat localpath of None \<Rightarrow> False | Some attr \<Rightarrow> attr AND FIO_SO_IFDIR \<noteq> 0)"

abbreviation TYPE_FILE :: nat where "TYPE_FILE \<equiv> 1"
abbreviation TYPE_DIR :: nat where "TYPE_DIR \<equiv> 2"
abbreviation TYPE_ETHER :: nat where "TYPE_ETHER \<equiv> 3"

text \<open>The part of the current directory up to and including its first colon.\<close>

fun device_part :: "string \<Rightarrow> string" where
  "device_part [] = []"
| "device_part (c # s) = (if c = CHR '':'' then [c] else c # device_part s)"

text \<open>Trailing white space is cut off.\<close>

function strip_end :: "string \<Rightarrow> string" where
  "strip_end s = (if s \<noteq> [] \<and> is_aspace (last s) then strip_end (butlast s) else s)"
  by pat_completeness auto
termination
  by (relation "measure length") auto

declare strip_end.simps [simp del]

text \<open>
  \<open>handlepath\<close>: the path when the code returns 1. \<open>can_open\<close> tells whether \<open>sceIoOpen\<close> succeeds.
\<close>

definition handlepath :: "(string \<Rightarrow> u32 option) \<Rightarrow> (string \<Rightarrow> bool) \<Rightarrow> string \<Rightarrow> string \<Rightarrow> nat \<Rightarrow> bool
    \<Rightarrow> string option" where
  "handlepath getstat can_open currentdir relative type valid =
     (let path = (if CHR '':'' \<notin> set relative
                  then (if chead relative = CHR ''/'' then device_part currentdir else currentdir)
                  else []);
          path = strip_end (path @ relative);
          len = length path
      in if len = 0 then None
      else let path = (if type = TYPE_DIR \<and> path ! (len - 1) \<noteq> CHR ''/'' then path @ ''/''
                       else if type = TYPE_FILE \<and> path ! (len - 1) = CHR ''/'' then take (len - 1) path
                       else path)
      in case normalize_path path of None \<Rightarrow> None
         | Some path \<Rightarrow>
            if valid then
              (if type = TYPE_DIR then (if isdir getstat path then Some path else None)
               else if type = TYPE_FILE then (if can_open path then Some path else None)
               else None)
            else Some path)"

text \<open>\<open>findinpath\<close>: the first entry of the search path that holds the file.\<close>

function findinpath_loop :: "(string \<Rightarrow> bool) \<Rightarrow> string \<Rightarrow> string \<Rightarrow> string option" where
  "findinpath_loop can_open relative currpath =
     (let (dir, nextpath) = (case split_at (\<lambda>c. c = CHR '';'') currpath of
                               None \<Rightarrow> (currpath, None) | Some (d, n) \<Rightarrow> (d, Some n))
      in if dir \<noteq> [] \<and> can_open (dir @ ''/'' @ relative) then Some (dir @ ''/'' @ relative)
         else case nextpath of None \<Rightarrow> None | Some n \<Rightarrow> findinpath_loop can_open relative n)"
  by pat_completeness auto
termination
proof (relation "measure (\<lambda>(can_open, relative, currpath). length currpath)", goal_cases)
  case (2 can_open relative currpath p dir nextpath n)
  then obtain d where "split_at (\<lambda>c. c = CHR '';'') currpath = Some (d, n)"
    by (auto split: option.splits)
  from split_at_length [OF this] show ?case by simp
qed simp

declare findinpath_loop.simps [simp del]

definition findinpath :: "(string \<Rightarrow> bool) \<Rightarrow> string \<Rightarrow> string option \<Rightarrow> string option" where
  "findinpath can_open relative pathvar =
     (case pathvar of None \<Rightarrow> None | Some p \<Rightarrow> findinpath_loop can_open relative p)"

section \<open>What a normalised path looks like\<close>

definition dot_component :: "string \<Rightarrow> bool" where
  "dot_component seg \<longleftrightarrow> seg = ''/'' \<or> seg = ''/.'' \<or> seg = ''/..''"

text \<open>Slashes \<open>i\<close> and \<open>j\<close> with none between them.\<close>

definition slash_pair :: "string \<Rightarrow> nat \<Rightarrow> nat \<Rightarrow> bool" where
  "slash_pair p i j \<longleftrightarrow> i < j \<and> j < length p \<and> p ! i = CHR ''/'' \<and> p ! j = CHR ''/'' \<and>
     (\<forall>m. i < m \<and> m < j \<longrightarrow> p ! m \<noteq> CHR ''/'')"

definition norm_upto :: "string \<Rightarrow> nat \<Rightarrow> bool" where
  "norm_upto p k \<longleftrightarrow> (\<forall>i j. slash_pair p i j \<and> j \<le> k \<longrightarrow> \<not> dot_component (take (j - i) (drop i p)))"

text \<open>No component between two slashes is empty, \<open>.\<close> or \<open>..\<close>.\<close>

definition normalized :: "string \<Rightarrow> bool" where
  "normalized p \<longleftrightarrow> norm_upto p (length p)"

lemma strncmp0_dots:
  assumes "0 < n" "n \<le> length p"
  shows "dot_component (take n p) \<longleftrightarrow> strncmp0 n p ''/.'' \<or> strncmp0 n p ''/..''"
proof -
  have ne: "take n p \<noteq> xs" if "length xs \<noteq> n" for xs
    using assms(2) that by (metis length_take min.absorb2)
  consider "n = 1" | "n = 2" | "n = 3" | "3 < n" using assms(1) by linarith
  then show ?thesis
  proof cases
    case 1
    with ne [of "''/.''"] ne [of "''/..''"] show ?thesis by (simp add: dot_component_def strncmp0_def)
  next
    case 2
    with ne [of "''/''"] ne [of "''/..''"] show ?thesis by (simp add: dot_component_def strncmp0_def)
  next
    case 3
    with ne [of "''/''"] ne [of "''/.''"] show ?thesis by (simp add: dot_component_def strncmp0_def)
  next
    case 4
    with ne [of "''/''"] ne [of "''/.''"] ne [of "''/..''"] show ?thesis
      by (simp add: dot_component_def strncmp0_def)
  qed
qed

lemma norm_upto_prefix:
  assumes "take (Suc k) p = take (Suc k) q" "norm_upto p k" "k < length p" "k < length q"
  shows "norm_upto q k"
  unfolding norm_upto_def
proof (intro allI impI, elim conjE)
  fix i j assume sp: "slash_pair q i j" and j: "j \<le> k"
  have e: "p ! m = q ! m" if "m \<le> k" for m
    by (metis assms(1) le_imp_less_Suc nth_take that)
  have "slash_pair p i j" using sp j e assms(3) by (auto simp: slash_pair_def)
  then have "\<not> dot_component (take (j - i) (drop i p))" using assms(2) j by (simp add: norm_upto_def)
  moreover have "take (j - i) (drop i p) = take (j - i) (drop i q)"
    by (rule nth_equalityI) (use sp j e assms(3,4) in \<open>auto simp: slash_pair_def\<close>)
  ultimately show "\<not> dot_component (take (j - i) (drop i q))" by simp
qed

lemma norm_upto_mono: "norm_upto p k \<Longrightarrow> l \<le> k \<Longrightarrow> norm_upto p l"
  by (auto simp: norm_upto_def)

lemma norm_upto_next:
  assumes "norm_upto p l" "slash_pair p l c" "\<not> dot_component (take (c - l) (drop l p))"
  shows "norm_upto p c"
  unfolding norm_upto_def
proof (intro allI impI, elim conjE)
  fix i j assume sp: "slash_pair p i j" and "j \<le> c"
  have *: "j \<le> l \<or> j = c" "j = c \<Longrightarrow> i = l"
    using sp assms(2) \<open>j \<le> c\<close> unfolding slash_pair_def by (metis nat_neq_iff order_le_less)+
  then show "\<not> dot_component (take (j - i) (drop i p))"
    using sp assms(1,3) by (auto simp: norm_upto_def)
qed

text \<open>One step keeps the prefix clean, the last character, and stands on a slash.\<close>

lemma normalize_step_Some:
  assumes "norm_upto p l" "slash_pair p l c" "0 < l" and s: "normalize_step p (Some l) c = (p', c')"
  shows "norm_upto p' c' \<and> c' < length p' \<and> p' ! c' = CHR ''/'' \<and> 0 < c' \<and> last p' = last p \<and> p' ! 0 = p ! 0"
proof -
  have lc: "l < c" "c < length p" "p ! l = CHR ''/''" "p ! c = CHR ''/''"
    using assms(2) by (auto simp: slash_pair_def)
  have cut: "norm_upto (take k p @ drop c p) k \<and> k < length (take k p @ drop c p)
      \<and> (take k p @ drop c p) ! k = CHR ''/'' \<and> last (take k p @ drop c p) = last p
      \<and> (take k p @ drop c p) ! 0 = p ! 0"
    if k: "0 < k" "k \<le> l" "p ! k = CHR ''/''" for k
  proof -
    have n: "k < length (take k p @ drop c p)" "(take k p @ drop c p) ! k = CHR ''/''"
      using k lc by (simp_all add: nth_append)
    have "take (Suc k) p = take k p @ [p ! k]" using k lc by (simp add: take_Suc_conv_app_nth)
    also have "\<dots> = take (Suc k) (take k p @ drop c p)"
      unfolding take_Suc_conv_app_nth [OF n(1)] using n k lc by simp
    finally have "take (Suc k) p = take (Suc k) (take k p @ drop c p)" .
    from this norm_upto_mono [OF assms(1) k(2)] _ n(1) have "norm_upto (take k p @ drop c p) k"
      by (rule norm_upto_prefix) (use k lc in linarith)
    with n k lc show ?thesis by (simp add: nth_append)
  qed
  consider "strncmp0 (c - l) (drop l p) ''/.''"
    | "\<not> strncmp0 (c - l) (drop l p) ''/.''" "strncmp0 (c - l) (drop l p) ''/..''"
    | "\<not> dot_component (take (c - l) (drop l p))"
    using strncmp0_dots [of "c - l" "drop l p"] lc by auto
  then show ?thesis
  proof cases
    case 1
    then show ?thesis using s cut [of l] lc assms(3) by (auto simp: normalize_step_def)
  next
    case 2
    then show ?thesis
      using s cut [of l] cut [of "last_slash p (l - 1)"] lc assms(3)
        last_slash_le [of p "l - 1"] last_slash_at [of p "l - 1"]
      by (auto simp: normalize_step_def Let_def split: if_splits)
  next
    case 3
    then have "p' = p" "c' = c"
      using s strncmp0_dots [of "c - l" "drop l p"] lc by (auto simp: normalize_step_def)
    then show ?thesis using norm_upto_next [OF assms(1,2) 3] lc by simp
  qed
qed

lemma normalized_last_slash:
  assumes "norm_upto p k" "strchr_from CHR ''/'' p (k + 1) = None"
  shows "normalized p"
  unfolding normalized_def norm_upto_def
proof (intro allI impI, elim conjE)
  fix i j assume sp: "slash_pair p i j"
  have "j \<le> k"
  proof (rule ccontr)
    assume "\<not> j \<le> k"
    then show False
      using strchr_from_None [OF assms(2), of j] sp by (simp add: slash_pair_def)
  qed
  with sp assms(1) show "\<not> dot_component (take (j - i) (drop i p))" by (simp add: norm_upto_def)
qed

lemma normalize_loop_Some:
  "norm_upto p l \<Longrightarrow> slash_pair p l c \<Longrightarrow> 0 < l \<Longrightarrow>
   normalized (normalize_loop p (Some l) c) \<and> last (normalize_loop p (Some l) c) = last p
   \<and> normalize_loop p (Some l) c ! 0 = p ! 0 \<and> normalize_loop p (Some l) c \<noteq> []"
proof (induction p "Some l" c arbitrary: l rule: normalize_loop.induct)
  case (1 p c)
  obtain p' c' where s: "normalize_step p (Some l) c = (p', c')" by fastforce
  note S = normalize_step_Some [OF "1.prems" s]
  have g: "l \<le> c \<and> c \<le> length p" using "1.prems"(2) by (auto simp: slash_pair_def)
  show ?case
  proof (cases "strchr_from CHR ''/'' p' (c' + 1)")
    case None
    then have "normalize_loop p (Some l) c = p'" using s g by (simp add: normalize_loop.simps [of p])
    with S normalized_last_slash [OF _ None] show ?thesis by auto
  next
    case (Some d)
    have e: "normalize_loop p (Some l) c = normalize_loop p' (Some c') d"
      using s g Some by (simp add: normalize_loop.simps [of p])
    have "slash_pair p' c' d" using strchr_from_Some [OF Some] S by (auto simp: slash_pair_def)
    with "1.hyps" [OF _ s [symmetric] refl Some] g S e show ?thesis by simp
  qed
qed

lemma normalize_path_Some:
  assumes n: "normalize_path p = Some q" and "p \<noteq> []"
  shows "normalized q \<and> last q = last p \<and> chead q \<noteq> CHR ''/'' \<and> q \<noteq> []"
proof -
  have h: "p ! 0 \<noteq> CHR ''/''" using assms by (cases p) (auto simp: normalize_path_def split: if_splits)
  show ?thesis
  proof (cases "strchr_from CHR ''/'' p 0")
    case None
    then have "q = p" using n by (simp add: normalize_path_def split: if_splits)
    moreover have "normalized p"
      using strchr_from_None [OF None] by (auto simp: normalized_def norm_upto_def slash_pair_def)
    ultimately show ?thesis using h assms(2) by (cases p) auto
  next
    case (Some c)
    note C = strchr_from_Some [OF Some]
    have "0 < c" using C h by (cases c) auto
    have q: "q = normalize_loop p None c" using n Some by (simp add: normalize_path_def split: if_splits)
    have nu: "norm_upto p c" using C by (auto simp: norm_upto_def slash_pair_def)
    show ?thesis
    proof (cases "strchr_from CHR ''/'' p (c + 1)")
      case None
      then have "q = p" using q C by (simp add: normalize_loop.simps [of p] normalize_step_def)
      then show ?thesis using normalized_last_slash [OF nu None] h assms(2) by (cases p) auto
    next
      case (Some d)
      then have "q = normalize_loop p (Some c) d"
        using q C by (simp add: normalize_loop.simps [of p None] normalize_step_def)
      moreover have "slash_pair p c d" using strchr_from_Some [OF Some] C by (auto simp: slash_pair_def)
      ultimately show ?thesis using normalize_loop_Some [OF nu _ \<open>0 < c\<close>] h
        by (cases q) fastforce+
    qed
  qed
qed

section \<open>Argument blocks\<close>

text \<open>
  The block handed to a started module: strings with their NULs, one after the other.
  \<open>args_loop\<close> is the loop over \<open>argv\<close> with the block built so far; the result is the block, whose
  length is the code's return value.
\<close>

definition args_loop :: "string list \<Rightarrow> string \<Rightarrow> string" where
  "args_loop argv args = fold (\<lambda>a args. args @ a @ [CHR 0x00]) argv args"

definition build_args :: "string \<Rightarrow> string list \<Rightarrow> string" where
  "build_args execfile argv = args_loop argv (execfile @ [CHR 0x00])"

definition build_bootargs :: "string \<Rightarrow> string option \<Rightarrow> string list \<Rightarrow> string" where
  "build_bootargs bootfile execfile argv =
     (let args = bootfile @ [CHR 0x00]
      in case execfile of None \<Rightarrow> args | Some e \<Rightarrow> args_loop argv (args @ e @ [CHR 0x00]))"

text \<open>\<open>load_start_module\<close>: the block passed to the kernel, and the id or error returned.\<close>

definition load_start_module :: "(string \<Rightarrow> int) \<Rightarrow> (int \<Rightarrow> string \<Rightarrow> int) \<Rightarrow> string \<Rightarrow> string list
    \<Rightarrow> int \<times> string option" where
  "load_start_module load start name argv =
     (let modid = load name
      in if 0 \<le> modid then let args = build_args name argv in (start modid args, Some args)
         else (modid, None))"

text \<open>
  \<open>save_execargs\<close>: the strings copied to \<open>execargs\<close>, the entries of \<open>execargv\<close> as offsets into it, and
  \<open>execargc\<close>. The terminating null pointer goes to the caller's \<open>argv\<close>, at the index returned last.
\<close>

abbreviation MAX_ARGS :: nat where "MAX_ARGS \<equiv> 16"

fun execargs_loop :: "string list \<Rightarrow> nat \<Rightarrow> nat \<Rightarrow> string \<times> nat list" where
  "execargs_loop (a # argv) (Suc n) loc =
     (let (args, offs) = execargs_loop argv n (loc + length a + 1) in (a @ [CHR 0x00] @ args, loc # offs))"
| "execargs_loop argv n loc = ([], [])"

definition save_execargs :: "string list \<Rightarrow> string \<times> nat list \<times> nat \<times> nat" where
  "save_execargs argv =
     (let argc = length argv; n = (if argc < MAX_ARGS then argc else MAX_ARGS - 1);
          (args, offs) = execargs_loop argv n 0
      in (args, offs, argc, n))"

lemma args_loop_eq: "args_loop argv args = args @ concat (map (\<lambda>a. a @ [CHR 0x00]) argv)"
  by (induction argv arbitrary: args) (simp_all add: args_loop_def)

text \<open>The strings of a block, as its receiver finds them.\<close>

function split_nul :: "string \<Rightarrow> string list" where
  "split_nul s = (case split_at (\<lambda>c. c = CHR 0x00) s of None \<Rightarrow> [] | Some (a, b) \<Rightarrow> a # split_nul b)"
  by pat_completeness auto
termination
proof (relation "measure length", goal_cases)
  case (2 s x a b)
  then show ?case using split_at_length [of "\<lambda>c. c = CHR 0x00" s a b] by simp
qed simp

declare split_nul.simps [simp del]

lemma split_nul_Nil [simp]: "split_nul [] = []"
  by (simp add: split_nul.simps)

lemma split_nul_append: "no_nul a \<Longrightarrow> split_nul (a @ CHR 0x00 # s) = a # split_nul s"
  by (subst split_nul.simps, subst split_at_append) (auto simp: no_nul_def)

lemma split_nul_concat:
  "\<forall>a \<in> set as. no_nul a \<Longrightarrow> split_nul (concat (map (\<lambda>a. a @ [CHR 0x00]) as)) = as"
  by (induction as) (simp_all add: split_nul_append)

lemma execargs_loop_spec:
  "n \<le> length argv \<Longrightarrow> execargs_loop argv n loc = (args, offs) \<Longrightarrow>
   length offs = n \<and> args = concat (map (\<lambda>a. a @ [CHR 0x00]) (take n argv)) \<and>
   (\<forall>i < n. loc \<le> offs ! i \<and> (\<exists>s. drop (offs ! i - loc) args = (argv ! i) @ CHR 0x00 # s))"
proof (induction argv n loc arbitrary: args offs rule: execargs_loop.induct)
  case (1 a argv n loc)
  obtain args' offs' where r: "execargs_loop argv n (loc + length a + 1) = (args', offs')" by fastforce
  then have e: "args = a @ [CHR 0x00] @ args'" "offs = loc # offs'" using "1.prems"(2) by simp_all
  have IH: "length offs' = n \<and> args' = concat (map (\<lambda>a. a @ [CHR 0x00]) (take n argv)) \<and>
     (\<forall>i < n. loc + length a + 1 \<le> offs' ! i \<and>
       (\<exists>s. drop (offs' ! i - (loc + length a + 1)) args' = (argv ! i) @ CHR 0x00 # s))"
    by (rule "1.IH" [OF _ r]) (use "1.prems"(1) in simp)
  have "loc \<le> offs ! i \<and> (\<exists>s. drop (offs ! i - loc) args = ((a # argv) ! i) @ CHR 0x00 # s)"
    if "i < Suc n" for i
  proof (cases i)
    case (Suc k)
    then have k: "loc + length a + 1 \<le> offs' ! k"
      "\<exists>s. drop (offs' ! k - (loc + length a + 1)) args' = (argv ! k) @ CHR 0x00 # s"
      using IH that by auto
    have "offs' ! k - loc = length (a @ [CHR 0x00]) + (offs' ! k - (loc + length a + 1))"
      using k(1) by simp
    then have "drop (offs' ! k - loc) args = drop (offs' ! k - (loc + length a + 1)) args'"
      unfolding e(1) by (metis append.assoc drop_append add_diff_cancel_left' drop_all
          le_add1 append_Nil)
    with k Suc e show ?thesis by auto
  qed (simp add: e)
  with IH e show ?case by simp
qed simp_all

section \<open>The two USB drivers\<close>

text \<open>
  Mass storage and host file system share the USB bus; each remembers whether it was never loaded,
  is on, or was switched off. The kernel calls of an operation are recorded in order; \<open>res\<close> gives
  what each call returns.
\<close>

datatype UsbStates = USB_NOSTART | USB_ON | USB_OFF

datatype usb_driver = BUS_DRIVER | STOR_DRIVER | HOSTFS_DRIVER

datatype usb_call = LoadStart string | UsbStart usb_driver | SetCapacity | Activate nat
  | Deactivate nat | UsbStop usb_driver

record usb_state =
  g_usbmassstate :: UsbStates
  g_usbhoststate :: UsbStates

definition usb_start :: usb_state where
  "usb_start = \<lparr>g_usbmassstate = USB_NOSTART, g_usbhoststate = USB_NOSTART\<rparr>"

text \<open>Calls made one after the other up to the first that does not return 0.\<close>

fun until_error :: "(usb_call \<Rightarrow> int) \<Rightarrow> usb_call list \<Rightarrow> int \<times> usb_call list" where
  "until_error res [] = (0, [])"
| "until_error res (c # cs) =
     (if res c \<noteq> 0 then (res c, [c]) else let (r, done) = until_error res cs in (r, c # done))"

definition init_usbmass :: "(usb_call \<Rightarrow> int) \<Rightarrow> usb_state \<Rightarrow> int \<times> usb_state \<times> usb_call list" where
  "init_usbmass res u =
     (if g_usbmassstate u = USB_ON \<or> g_usbhoststate u = USB_ON then (0, u, [])
      else let loads = (if g_usbmassstate u = USB_NOSTART
             then map LoadStart [''flash0:/kd/semawm.prx'', ''flash0:/kd/usbstor.prx'',
                    ''flash0:/kd/usbstormgr.prx'', ''flash0:/kd/usbstorms.prx'', ''flash0:/kd/usbstorboot.prx'']
             else []);
             (retVal, calls) = until_error res
               [UsbStart BUS_DRIVER, UsbStart STOR_DRIVER, SetCapacity, Activate 0x1c8]
           in (retVal, (if retVal = 0 then u\<lparr>g_usbmassstate := USB_ON\<rparr> else u), loads @ calls))"

definition stop_usbmass :: "usb_state \<Rightarrow> int \<times> usb_state \<times> usb_call list" where
  "stop_usbmass u =
     (if g_usbmassstate u \<noteq> USB_ON \<or> g_usbhoststate u = USB_ON then (0, u, [])
      else (0, u\<lparr>g_usbmassstate := USB_OFF\<rparr>,
            [Deactivate 0x1c8, UsbStop STOR_DRIVER, UsbStop BUS_DRIVER]))"

definition init_usbhost :: "string \<Rightarrow> nat \<Rightarrow> (usb_call \<Rightarrow> int) \<Rightarrow> usb_state
    \<Rightarrow> int \<times> usb_state \<times> usb_call list" where
  "init_usbhost bootpath pid res u =
     (if g_usbmassstate u = USB_ON \<or> g_usbhoststate u = USB_ON then (0, u, [])
      else let loads = (if g_usbhoststate u = USB_NOSTART
                        then [LoadStart (bootpath @ ''usbhostfs.prx'')] else []);
             (retVal, calls) = until_error res [UsbStart BUS_DRIVER, UsbStart HOSTFS_DRIVER, Activate pid]
           in (retVal, (if retVal = 0 then u\<lparr>g_usbhoststate := USB_ON\<rparr> else u), loads @ calls))"

definition stop_usbhost :: "nat \<Rightarrow> usb_state \<Rightarrow> int \<times> usb_state \<times> usb_call list" where
  "stop_usbhost pid u =
     (if g_usbhoststate u \<noteq> USB_ON \<or> g_usbmassstate u = USB_ON then (0, u, [])
      else (0, u\<lparr>g_usbhoststate := USB_OFF\<rparr>,
            [Deactivate pid, UsbStop HOSTFS_DRIVER, UsbStop BUS_DRIVER]))"

inductive usb_reachable :: "usb_state \<Rightarrow> bool" where
  start: "usb_reachable usb_start"
| mass_on: "usb_reachable u \<Longrightarrow> init_usbmass res u = (r, u', cs) \<Longrightarrow> usb_reachable u'"
| mass_off: "usb_reachable u \<Longrightarrow> stop_usbmass u = (r, u', cs) \<Longrightarrow> usb_reachable u'"
| host_on: "usb_reachable u \<Longrightarrow> init_usbhost b pid res u = (r, u', cs) \<Longrightarrow> usb_reachable u'"
| host_off: "usb_reachable u \<Longrightarrow> stop_usbhost pid u = (r, u', cs) \<Longrightarrow> usb_reachable u'"

section \<open>Buffered files\<close>

abbreviation MAX_BUFFER :: nat where "MAX_BUFFER \<equiv> 4096"
abbreviation MAXPATHLEN :: nat where "MAXPATHLEN \<equiv> 1024"

text \<open>
  \<open>PspFile\<close>. What \<open>sceIoRead\<close> will return, call after call, is the list \<open>chunks\<close> (an empty chunk
  for the end of the file or an error); of an answer, at most the \<open>MAX_BUFFER\<close> bytes asked for arrive.
\<close>

record PspFile =
  read_buf :: string
  read_size :: nat
  read_pos :: nat
  chunks :: "string list"

text \<open>A byte read as a \<open>signed char\<close>.\<close>

definition schar :: "char \<Rightarrow> int" where
  "schar c = (if ccode c < 128 then int (ccode c) else int (ccode c) - 256)"

text \<open>\<open>openfile\<close> and \<open>closefile\<close>: the file is zeroed, and its descriptor checked.\<close>

definition openfile :: "int \<Rightarrow> string list \<Rightarrow> PspFile option" where
  "openfile fd data = (if fd < 0 then None
     else Some \<lparr>read_buf = replicate MAX_BUFFER CHR 0x00, read_size = 0, read_pos = 0, chunks = data\<rparr>)"

definition closefile :: "int \<Rightarrow> bool" where
  "closefile fd = (0 \<le> fd)"

definition fdgetc :: "PspFile \<Rightarrow> int \<times> PspFile" where
  "fdgetc f =
     (let f = (if read_size f = 0 then
                 (let chunk = (case chunks f of [] \<Rightarrow> [] | c # _ \<Rightarrow> take MAX_BUFFER c);
                      f = f\<lparr>chunks := tl (chunks f)\<rparr>
                  in if chunk \<noteq> []
                     then f\<lparr>read_buf := chunk @ drop (length chunk) (read_buf f),
                            read_size := length chunk, read_pos := 0\<rparr>
                     else f\<lparr>read_size := 0, read_pos := 0\<rparr>)
               else f)
      in if read_pos f < read_size f
         then (schar (read_buf f ! read_pos f), f\<lparr>read_pos := read_pos f + 1\<rparr>)
         else (-1, f))"

text \<open>The loop of \<open>fdgets\<close>, with the room left: the characters stored.\<close>

fun fdgets_loop :: "nat \<Rightarrow> PspFile \<Rightarrow> string \<times> PspFile" where
  "fdgets_loop 0 f = ([], f)"
| "fdgets_loop (Suc n) f =
     (let (ch, f') = fdgetc f
      in if ch = -1 then ([], f')
         else if ch = 10 then ([CHR 0x0A], f')
         else let (s, f'') = fdgets_loop n f' in (char_of (nat (ch mod 256)) # s, f''))"

definition fdgets :: "PspFile \<Rightarrow> nat \<Rightarrow> string \<times> nat \<times> PspFile" where
  "fdgets f bufsize = (let (s, f') = fdgets_loop (bufsize - 1) f in (s, length s, f'))"

section \<open>White space\<close>

fun strip_start :: "string \<Rightarrow> string" where
  "strip_start [] = []"
| "strip_start (c # s) = (if is_aspace c then strip_start s else c # s)"

definition strip_whitesp :: "string \<Rightarrow> string" where
  "strip_whitesp s = strip_start (strip_end s)"

section \<open>Search under a mask\<close>

text \<open>\<open>memcmp\<close>: the difference of the first two bytes that differ.\<close>

fun c_memcmp :: "u8 list \<Rightarrow> u8 list \<Rightarrow> nat \<Rightarrow> int" where
  "c_memcmp (a # as) (b # bs) (Suc n) =
     (if a \<noteq> b then int (unat a) - int (unat b) else c_memcmp as bs n)"
| "c_memcmp as bs n = 0"

fun memcmp_mask_loop :: "u8 list \<Rightarrow> u8 list \<Rightarrow> u8 list \<Rightarrow> nat \<Rightarrow> int" where
  "memcmp_mask_loop (a # as) (b # bs) (m # ms) (Suc n) =
     (if a AND m \<noteq> b then int (unat (a AND m)) - int (unat b) else memcmp_mask_loop as bs ms n)"
| "memcmp_mask_loop as bs ms n = 0"

definition memcmp_mask :: "u8 list \<Rightarrow> u8 list \<Rightarrow> u8 list option \<Rightarrow> nat \<Rightarrow> int" where
  "memcmp_mask data1 data2 msk len =
     (case msk of None \<Rightarrow> c_memcmp data1 data2 len | Some m \<Rightarrow> memcmp_mask_loop data1 data2 m len)"

text \<open>\<open>memmem_mask\<close>, for non-null pointers: the offset of the match. \<open>n\<close> turns are left.\<close>

fun memmem_loop :: "nat \<Rightarrow> nat \<Rightarrow> u8 list \<Rightarrow> u8 list option \<Rightarrow> u8 list \<Rightarrow> nat \<Rightarrow> nat option" where
  "memmem_loop 0 i data msk search slen = None"
| "memmem_loop (Suc n) i data msk search slen =
     (if memcmp_mask (drop i data) search msk slen = 0 then Some i
      else memmem_loop n (Suc i) data msk search slen)"

definition memmem_mask :: "u8 list \<Rightarrow> u8 list option \<Rightarrow> int \<Rightarrow> u8 list \<Rightarrow> int \<Rightarrow> nat option" where
  "memmem_mask data msk len search slen =
     (if len < 0 \<or> slen < 0 then None else memmem_loop (nat (len - slen + 1)) 0 data msk search (nat slen))"

section \<open>Hexadecimal strings\<close>

fun decode_hex_loop :: "string \<Rightarrow> u8 list option" where
  "decode_hex_loop (a # b # s) =
     (if \<not> is_hex a \<or> \<not> is_hex b then None
      else map_option ((#) (of_nat (hex_to_int a * 16 + hex_to_int b))) (decode_hex_loop s))"
| "decode_hex_loop s = Some []"

text \<open>\<open>None\<close> stands for the result 0 with a message.\<close>

definition decode_hexstr :: "string \<Rightarrow> nat \<Rightarrow> u8 list option" where
  "decode_hexstr str maxlen =
     (let hexlen = length str
      in if odd hexlen then None else if maxlen < hexlen div 2 then None else decode_hex_loop str)"

section \<open>Modules, numbers and the debug register\<close>

text \<open>\<open>query\<close> is \<open>g_QueryModuleInfo\<close>: its result and the information filled in.\<close>

definition psplinkReferModule :: "(int \<Rightarrow> int \<times> 'i) \<Rightarrow> int \<Rightarrow> int \<times> 'i" where
  "psplinkReferModule query uid = (let (ret, info) = query uid in (if ret = 0 then 1 else 0, info))"

definition module_refer :: "(int \<Rightarrow> int \<times> 'i) \<Rightarrow> int option \<Rightarrow> bool \<Rightarrow> int" where
  "module_refer query pMod want_info =
     (case pMod of None \<Rightarrow> -1
      | Some modid \<Rightarrow> if want_info \<and> fst (psplinkReferModule query modid) = 0 then -1 else modid)"

text \<open>The tests on the bits of a single-precision number.\<close>

definition is_nan :: "u32 \<Rightarrow> bool" where
  "is_nan conv \<longleftrightarrow> drop_bit 23 conv AND 0xff = 255 \<and> conv AND 0x7fffff \<noteq> 0"

definition is_inf :: "u32 \<Rightarrow> int" where
  "is_inf conv =
     (if drop_bit 23 conv AND 0xff = 255 \<and> conv AND 0x7fffff = 0
      then (if drop_bit 31 conv AND 1 \<noteq> 0 then -1 else 1) else 0)"

text \<open>
  \<open>get_debug_register\<close>: the address built by the \<open>lui\<close>/\<open>addiu\<close> pair found at the target of the jump in
  the kernel's stub.
\<close>

definition get_debug_register :: "mem \<Rightarrow> u32 \<Rightarrow> u32" where
  "get_debug_register m stub =
     (let pData = 0x80000000 OR push_bit 2 (stub AND 0x03FFFFFF)
      in push_bit 16 (lw m pData AND 0xFFFF) + scast (ucast (lw m (pData + 8) AND 0xFFFF) :: 16 word))"

section \<open>Lemmas on the helpers\<close>

lemma strip_end_spec:
  "\<exists>b. s = strip_end s @ b \<and> (\<forall>c \<in> set b. is_aspace c) \<and> (strip_end s \<noteq> [] \<longrightarrow> \<not> is_aspace (last (strip_end s)))"
proof (induction s rule: strip_end.induct)
  case (1 s)
  show ?case
  proof (cases "s \<noteq> [] \<and> is_aspace (last s)")
    case True
    then obtain b where b: "butlast s = strip_end (butlast s) @ b" "\<forall>c \<in> set b. is_aspace c"
      "strip_end (butlast s) \<noteq> [] \<longrightarrow> \<not> is_aspace (last (strip_end (butlast s)))"
      using "1.IH" by blast
    have e: "strip_end s = strip_end (butlast s)" using True by (simp add: strip_end.simps [of s])
    have "s = butlast s @ [last s]" using True by simp
    then have "s = strip_end s @ (b @ [last s])" unfolding e using b(1) by (metis append.assoc)
    with b True e show ?thesis by (intro exI [of _ "b @ [last s]"]) simp
  next
    case False
    then show ?thesis by (auto simp: strip_end.simps [of s])
  qed
qed

lemma strip_start_dropWhile: "strip_start s = dropWhile is_aspace s"
  by (induction s) auto

lemma strip_whitesp_spec:
  "\<exists>a b. s = a @ strip_whitesp s @ b \<and> (\<forall>c \<in> set a \<union> set b. is_aspace c) \<and>
     (strip_whitesp s \<noteq> [] \<longrightarrow> \<not> is_aspace (hd (strip_whitesp s)) \<and> \<not> is_aspace (last (strip_whitesp s)))"
proof -
  obtain b where b: "s = strip_end s @ b" "\<forall>c \<in> set b. is_aspace c"
    "strip_end s \<noteq> [] \<longrightarrow> \<not> is_aspace (last (strip_end s))" using strip_end_spec by blast
  define a where "a = takeWhile is_aspace (strip_end s)"
  have e: "strip_end s = a @ strip_whitesp s"
    by (simp add: a_def strip_whitesp_def strip_start_dropWhile)
  have h: "strip_whitesp s \<noteq> [] \<Longrightarrow> \<not> is_aspace (hd (strip_whitesp s))"
    by (simp add: strip_whitesp_def strip_start_dropWhile hd_dropWhile)
  have l: "strip_whitesp s \<noteq> [] \<Longrightarrow> last (strip_end s) = last (strip_whitesp s)"
    by (subst e) simp
  have "s = a @ strip_whitesp s @ b" using b(1) e by simp
  moreover have "\<forall>c \<in> set a. is_aspace c" by (auto simp: a_def dest: set_takeWhileD)
  ultimately show ?thesis using b h l e by (metis Un_iff append_is_Nil_conv)
qed

lemma decode_hex_loop_Some:
  "decode_hex_loop s = Some bs \<Longrightarrow> even (length s) \<Longrightarrow>
   length s = 2 * length bs \<and> (\<forall>c \<in> set s. is_hex c) \<and>
   (\<forall>i < length bs. unat (bs ! i) = hex_to_int (s ! (2 * i)) * 16 + hex_to_int (s ! (2 * i + 1)))"
proof (induction s arbitrary: bs rule: decode_hex_loop.induct)
  case (1 a b s)
  from "1.prems"(1) obtain bs' where bs: "bs = of_nat (hex_to_int a * 16 + hex_to_int b) # bs'"
    "decode_hex_loop s = Some bs'" "is_hex a" "is_hex b" by (auto split: if_splits)
  then have IH: "length s = 2 * length bs' \<and> (\<forall>c \<in> set s. is_hex c) \<and>
     (\<forall>i < length bs'. unat (bs' ! i) = hex_to_int (s ! (2 * i)) * 16 + hex_to_int (s ! (2 * i + 1)))"
    using "1.IH" [OF _ bs(2)] "1.prems"(2) bs(3,4) by simp
  have "unat (of_nat (hex_to_int a * 16 + hex_to_int b) :: u8) = hex_to_int a * 16 + hex_to_int b"
    using hex_to_int_bound [of a] hex_to_int_bound [of b] by (simp only: unat_of_nat) simp
  then have "unat (bs ! i) = hex_to_int ((a # b # s) ! (2 * i)) * 16 + hex_to_int ((a # b # s) ! (2 * i + 1))"
    if "i < length bs" for i
    using IH that bs(1) by (cases i) auto
  with IH bs show ?case by auto
qed auto

lemma decode_hexstr_Some:
  "decode_hexstr str n = Some bs \<Longrightarrow>
   length str = 2 * length bs \<and> length bs \<le> n \<and> (\<forall>c \<in> set str. is_hex c) \<and>
   (\<forall>i < length bs. unat (bs ! i) = hex_to_int (str ! (2 * i)) * 16 + hex_to_int (str ! (2 * i + 1)))"
proof -
  assume "decode_hexstr str n = Some bs"
  then have d: "decode_hex_loop str = Some bs" "even (length str)" "length str div 2 \<le> n"
    by (auto simp: decode_hexstr_def Let_def not_less split: if_splits)
  note A = decode_hex_loop_Some [OF d(1,2)]
  then have "length bs \<le> n" using d(3) by linarith
  with A show ?thesis by blast
qed

subsection \<open>Masked search\<close>

lemma c_memcmp_0: "n \<le> length as \<Longrightarrow> n \<le> length bs \<Longrightarrow> c_memcmp as bs n = 0 \<longleftrightarrow> take n as = take n bs"
  by (induction as bs n rule: c_memcmp.induct) (auto dest: unsigned_word_eqI)

lemma memcmp_mask_loop_0:
  "n \<le> length as \<Longrightarrow> n \<le> length bs \<Longrightarrow> n \<le> length ms \<Longrightarrow>
   memcmp_mask_loop as bs ms n = 0 \<longleftrightarrow> map2 (AND) (take n as) (take n ms) = take n bs"
  by (induction as bs ms n rule: memcmp_mask_loop.induct) (auto dest: unsigned_word_eqI)

definition masked :: "u8 list option \<Rightarrow> u8 list \<Rightarrow> u8 list" where
  "masked msk as = (case msk of None \<Rightarrow> as | Some ms \<Rightarrow> map2 (AND) as ms)"

lemma memcmp_mask_0:
  assumes "n \<le> length as" "n = length bs" "\<forall>ms. msk = Some ms \<longrightarrow> length ms = n"
  shows "memcmp_mask as bs msk n = 0 \<longleftrightarrow> masked msk (take n as) = bs"
  using assms by (cases msk) (auto simp: memcmp_mask_def masked_def c_memcmp_0 memcmp_mask_loop_0)

lemma memmem_loop_Some:
  "memmem_loop n i data msk search slen = Some j \<longleftrightarrow>
   i \<le> j \<and> j < i + n \<and> memcmp_mask (drop j data) search msk slen = 0 \<and>
   (\<forall>k. i \<le> k \<and> k < j \<longrightarrow> memcmp_mask (drop k data) search msk slen \<noteq> 0)"
proof (induction n arbitrary: i)
  case (Suc n)
  show ?case
  proof (cases "memcmp_mask (drop i data) search msk slen = 0")
    case True
    then show ?thesis by (auto simp: not_less)
  next
    case False
    then have "memmem_loop (Suc n) i data msk search slen = memmem_loop n (Suc i) data msk search slen"
      by simp
    with Suc.IH [of "Suc i"] False show ?thesis
      by (auto simp: Suc_le_eq) (metis le_neq_implies_less)+
  qed
qed auto

subsection \<open>Reading lines\<close>

text \<open>What is left to be read of the buffer, and the invariant of the buffer.\<close>

definition file_rest :: "PspFile \<Rightarrow> string" where
  "file_rest f = take (read_size f - read_pos f) (drop (read_pos f) (read_buf f))"

definition file_ok :: "PspFile \<Rightarrow> bool" where
  "file_ok f \<longleftrightarrow> 0 < read_size f \<and> read_pos f \<le> read_size f \<and> read_size f \<le> length (read_buf f)"

text \<open>The reference: the next line of a string, cut at \<open>n\<close> characters, a byte 0xFF ending it.\<close>

fun getline :: "nat \<Rightarrow> string \<Rightarrow> string \<times> string" where
  "getline 0 s = ([], s)"
| "getline (Suc n) [] = ([], [])"
| "getline (Suc n) (c # s) =
     (if c = CHR 0xFF then ([], s) else if c = CHR 0x0A then ([c], s)
      else let (l, r) = getline n s in (c # l, r))"

lemma ccode_bound: "ccode c < 256"
  by simp

lemma ccode_eq: "(ccode c :: nat) = of_char d \<longleftrightarrow> c = d"
  by simp

lemma schar_eof: "schar c = -1 \<longleftrightarrow> c = CHR 0xFF"
  using ccode_eq [of c "CHR 0xFF"] by (auto simp: schar_def)

lemma schar_nl: "schar c = 10 \<longleftrightarrow> c = CHR 0x0A"
proof -
  have "(if n < 128 then int n else int n - 256) = 10 \<longleftrightarrow> n = 10" if "n < 256" for n
    using that by auto
  from this [OF ccode_bound] have "schar c = 10 \<longleftrightarrow> ccode c = 10" by (simp only: schar_def)
  then show ?thesis using ccode_eq [of c "CHR 0x0A"] by simp
qed

lemma char_of_schar: "char_of (nat (schar c mod 256)) = c"
proof -
  have b: "ccode c < 256" by simp
  have "nat (schar c mod 256) = ccode c"
  proof (cases "ccode c < 128")
    case True
    then show ?thesis by (simp add: schar_def)
  next
    case False
    have "(int (ccode c) - 256) mod 256 = int (ccode c) mod 256"
      by (metis minus_mod_self2)
    with False b show ?thesis by (simp add: schar_def)
  qed
  then show ?thesis by simp
qed

lemma file_rest_Cons:
  assumes "file_ok f" "read_pos f < read_size f"
  shows "file_rest f = read_buf f ! read_pos f # file_rest (f\<lparr>read_pos := read_pos f + 1\<rparr>)"
proof -
  have "read_pos f < length (read_buf f)" using assms by (simp add: file_ok_def)
  moreover obtain k where "read_size f - read_pos f = Suc k" "read_size f - (read_pos f + 1) = k"
    using assms(2) by (metis Suc_diff_Suc Suc_eq_plus1)
  ultimately show ?thesis by (simp add: file_rest_def Cons_nth_drop_Suc [symmetric])
qed

lemma fdgetc_ok:
  assumes "file_ok f"
  shows "fdgetc f = (case file_rest f of [] \<Rightarrow> (-1, f) | c # _ \<Rightarrow> (schar c, f\<lparr>read_pos := read_pos f + 1\<rparr>))"
proof (cases "read_pos f < read_size f")
  case True
  with file_rest_Cons [OF assms True] assms show ?thesis by (simp add: fdgetc_def file_ok_def)
next
  case False
  then have "file_rest f = []" by (simp add: file_rest_def)
  with False assms show ?thesis by (simp add: fdgetc_def file_ok_def)
qed

lemma fdgets_loop_getline:
  "file_ok f \<Longrightarrow> fdgets_loop n f = (l, f') \<Longrightarrow>
   file_ok f' \<and> getline n (file_rest f) = (l, file_rest f') \<and> chunks f' = chunks f"
proof (induction n arbitrary: f l f')
  case (Suc n)
  let ?f = "f\<lparr>read_pos := read_pos f + 1\<rparr>"
  show ?case
  proof (cases "read_pos f < read_size f")
    case False
    then have "file_rest f = []" by (simp add: file_rest_def)
    with Suc.prems fdgetc_ok [OF Suc.prems(1)] show ?thesis by simp
  next
    case True
    let ?c = "read_buf f ! read_pos f"
    note R = file_rest_Cons [OF Suc.prems(1) True]
    have g: "fdgetc f = (schar ?c, ?f)" using fdgetc_ok [OF Suc.prems(1)] R by simp
    have ok: "file_ok ?f" using Suc.prems(1) True by (simp add: file_ok_def)
    show ?thesis
    proof (cases "?c = CHR 0xFF \<or> ?c = CHR 0x0A")
      case True
      with Suc.prems(2) g R ok show ?thesis by (auto simp: schar_eof schar_nl)
    next
      case False
      obtain l' f'' where r: "fdgets_loop n ?f = (l', f'')" by fastforce
      with Suc.prems(2) g False have "l = ?c # l'" "f' = f''"
        by (simp_all add: schar_eof schar_nl char_of_schar)
      with Suc.IH [OF ok r] R False show ?thesis by simp
    qed
  qed
qed simp

section \<open>Properties\<close>

lemma handlepath_dir_ok:
  assumes "handlepath getstat can_open currentdir relative TYPE_DIR valid = Some p"
  shows "normalized p \<and> chead p \<noteq> CHR ''/'' \<and> p \<noteq> [] \<and> last p = CHR ''/'' \<and> (valid \<longrightarrow> isdir getstat p)"
proof -
  define r where "r = strip_end ((if CHR '':'' \<notin> set relative
      then (if chead relative = CHR ''/'' then device_part currentdir else currentdir) else []) @ relative)"
  define q where "q = (if r ! (length r - 1) \<noteq> CHR ''/'' then r @ ''/'' else r)"
  have ne: "r \<noteq> []" and n: "normalize_path q = Some p" "valid \<longrightarrow> isdir getstat p"
    using assms by (simp_all add: handlepath_def Let_def r_def [symmetric] q_def
        split: if_splits option.splits)
  have q: "q \<noteq> []" "last q = CHR ''/''" using ne by (auto simp: q_def last_conv_nth)
  from normalize_path_Some [OF n(1) q(1)] q n(2) show ?thesis by simp
qed

text \<open>
  What \<open>handlepath\<close> accepts as a directory: a path without a leading slash that ends with one,
  in which no component between two slashes is empty, \<open>.\<close> or \<open>..\<close> (so \<open>cd\<close> never leaves a
  device by \<open>..\<close>), and which is a directory when validation was asked for.
\<close>
theorem handlepath_dir:
  assumes "handlepath getstat can_open currentdir relative TYPE_DIR valid = Some p"
  shows "normalized p \<and> chead p \<noteq> CHR ''/'' \<and> p \<noteq> [] \<and> last p = CHR ''/'' \<and> (valid \<longrightarrow> isdir getstat p)"
  using assms by (rule handlepath_dir_ok)

theorem handlepath_dir_witness:
  "handlepath (\<lambda>_. None) (\<lambda>_. False) ''ms0:/psp/'' ''../game/./x '' TYPE_DIR False
     = Some ''ms0:/game/x/'' \<and> normalized ''ms0:/game/x/''"
proof -
  have "handlepath (\<lambda>_. None) (\<lambda>_. False) ''ms0:/psp/'' ''../game/./x '' TYPE_DIR False
     = Some ''ms0:/game/x/''" by code_simp
  with handlepath_dir [OF this] show ?thesis by blast
qed

text \<open>
  The strings of an argument block come back: a program started by \<open>load_start_module\<close> that
  splits its block at the NULs finds its own name and then the arguments, in order.
\<close>
theorem build_args_split:
  assumes "no_nul execfile" and "\<forall>a \<in> set argv. no_nul a"
  shows "split_nul (build_args execfile argv) = execfile # argv"
  using assms split_nul_concat [of argv] by (simp add: build_args_def args_loop_eq split_nul_append)

theorem build_args_split_witness:
  "split_nul (build_args ''ms0:/x.prx'' [''-v'', ''a b'']) = [''ms0:/x.prx'', ''-v'', ''a b'']"
  by (rule build_args_split) simp_all

text \<open>
  The saved command line: entry \<open>i\<close> of \<open>execargv\<close> points at argument \<open>i\<close> and its NUL inside
  \<open>execargs\<close>; at most 15 arguments are saved, while \<open>execargc\<close> is the caller's count.
\<close>
theorem save_execargs_spec:
  assumes "save_execargs argv = (args, offs, argc, n)"
  shows "argc = length argv \<and> n = min (length argv) 15 \<and> length offs = n \<and>
    (\<forall>i < n. \<exists>s. drop (offs ! i) args = (argv ! i) @ CHR 0x00 # s)"
proof -
  have n: "n = (if length argv < MAX_ARGS then length argv else MAX_ARGS - 1)" "argc = length argv"
    and l: "execargs_loop argv n 0 = (args, offs)"
    using assms by (auto simp: save_execargs_def Let_def split: prod.splits)
  with execargs_loop_spec [OF _ l] show ?thesis by auto
qed

theorem save_execargs_spec_witness:
  "\<exists>args offs. save_execargs (replicate 16 ''x'') = (args, offs, 16, 15) \<and> length offs = 15"
proof -
  obtain args offs argc n where e: "save_execargs (replicate 16 ''x'') = (args, offs, argc, n)"
    by (metis prod_cases4)
  with save_execargs_spec [OF e] show ?thesis by auto
qed

text \<open>
  The mass-storage and the host-file-system drivers are never both on, whatever sequence of
  start and stop requests is made and whatever the kernel answers.
\<close>
theorem usb_exclusive:
  assumes "usb_reachable u"
  shows "\<not> (g_usbmassstate u = USB_ON \<and> g_usbhoststate u = USB_ON)"
  using assms
proof (induction rule: usb_reachable.induct)
  case start
  show ?case by (simp add: usb_start_def)
qed (auto simp: init_usbmass_def stop_usbmass_def init_usbhost_def stop_usbhost_def Let_def
      split: if_splits prod.splits)

theorem usb_exclusive_witness:
  "\<exists>u. usb_reachable u \<and> g_usbmassstate u = USB_ON \<and> g_usbhoststate u \<noteq> USB_ON"
proof -
  define u where "u = fst (snd (init_usbmass (\<lambda>_. 0) usb_start))"
  have "usb_reachable u"
    using usb_reachable.mass_on [OF usb_reachable.start, of "\<lambda>_. 0"] unfolding u_def
    by (metis prod.collapse)
  moreover have "g_usbmassstate u = USB_ON"
    by (simp add: u_def init_usbmass_def usb_start_def)
  ultimately show ?thesis using usb_exclusive [of u] by blast
qed

text \<open>
  Reading lines: once the file's first block is in the buffer, \<open>fdgets\<close> returns exactly the
  next line of that block (cut at the caller's size, a byte 0xFF counting as the end of the file),
  and no further block is ever read: a file longer than \<open>MAX_BUFFER\<close> is cut there.
\<close>
theorem fdgets_refines:
  assumes "file_ok f" and "fdgets f bufsize = (l, n, f')"
  shows "getline (bufsize - 1) (file_rest f) = (l, file_rest f') \<and> n = length l \<and> file_ok f'
    \<and> chunks f' = chunks f"
  using assms fdgets_loop_getline [of f "bufsize - 1"] by (auto simp: fdgets_def split: prod.splits)

theorem fdgets_refines_witness:
  "let f = \<lparr>read_buf = ''ab'' @ [CHR 0x0A], read_size = 3, read_pos = 0, chunks = [''more'']\<rparr>
   in fst (fdgets f 80) = ''ab'' @ [CHR 0x0A] \<and> chunks (snd (snd (fdgets f 80))) = [''more'']"
proof -
  define f where "f = \<lparr>read_buf = ''ab'' @ [CHR 0x0A], read_size = 3, read_pos = 0, chunks = [''more'']\<rparr>"
  obtain l n f' where e: "fdgets f 80 = (l, n, f')" by (metis prod_cases3)
  have "file_ok f" by (simp add: file_ok_def f_def)
  from fdgets_refines [OF this e] have "l = ''ab'' @ [CHR 0x0A]" "chunks f' = [''more'']"
    by (simp_all add: file_rest_def f_def eval_nat_numeral)
  with e show ?thesis unfolding f_def [symmetric] Let_def by simp
qed

lemma memmem_mask_Some:
  assumes "len = int (length data)" and "slen = int (length search)"
    and "\<forall>ms. msk = Some ms \<longrightarrow> length ms = length search"
  shows "memmem_mask data msk len search slen = Some j \<longleftrightarrow>
    j + length search \<le> length data \<and> masked msk (take (length search) (drop j data)) = search \<and>
    (\<forall>k < j. masked msk (take (length search) (drop k data)) \<noteq> search)"
proof -
  let ?s = "length search"
  have m: "memcmp_mask (drop k data) search msk ?s = 0 \<longleftrightarrow> masked msk (take ?s (drop k data)) = search"
    if "k + ?s \<le> length data" for k
    using that assms(3) by (intro memcmp_mask_0) auto
  have n: "nat (len - slen + 1) = length data + 1 - ?s" using assms(1,2) by simp
  have "memmem_mask data msk len search slen = Some j \<longleftrightarrow>
      j < length data + 1 - ?s \<and> memcmp_mask (drop j data) search msk ?s = 0 \<and>
      (\<forall>k. k < j \<longrightarrow> memcmp_mask (drop k data) search msk ?s \<noteq> 0)"
    using assms(1,2) n by (simp add: memmem_mask_def memmem_loop_Some)
  also have "\<dots> \<longleftrightarrow> j + ?s \<le> length data \<and> masked msk (take ?s (drop j data)) = search \<and>
    (\<forall>k < j. masked msk (take ?s (drop k data)) \<noteq> search)"
    using m [of j] m by (auto simp: less_diff_conv)
  finally show ?thesis .
qed

text \<open>
  The masked search returns the first place where the masked data equals what is searched,
  and nothing only when there is no such place.
\<close>
theorem memmem_mask_first:
  assumes "len = int (length data)" and "slen = int (length search)"
    and "\<forall>ms. msk = Some ms \<longrightarrow> length ms = length search"
  shows "memmem_mask data msk len search slen = Some j \<longleftrightarrow>
    j + length search \<le> length data \<and> masked msk (take (length search) (drop j data)) = search \<and>
    (\<forall>k < j. masked msk (take (length search) (drop k data)) \<noteq> search)"
  using assms by (rule memmem_mask_Some)

theorem memmem_mask_first_witness:
  "memmem_mask [1, 0x12, 0x34] (Some [0xF0]) 3 [0x30] 1 = Some 2"
  using memmem_mask_first [of 3 "[1, 0x12, 0x34]" 1 "[0x30]" "Some [0xF0]" 2]
  by (auto simp: masked_def less_2_cases_iff)

end
