(* ===== verification/Args.thy ===== *)
theory Args
  imports CUtil
begin

text \<open>
  \<open>psplink/parse_args.c\<close>: the split of a command line into arguments, with quotes and escapes.
  \<open>parse_args\<close> writes the arguments, each with its NUL, to an output buffer and their addresses to
  \<open>argv\<close>; here the buffer is the list of characters written so far and the addresses are offsets
  into it. The result \<open>None\<close> is the code's return value 0.
\<close>

section \<open>Escapes\<close>

text \<open>
  The digits of an escape: at most \<open>n\<close>, up to the first character that is none. The result is the number
  of digits and the byte, which keeps the low eight bits.
\<close>

fun decode_digits :: "(char \<Rightarrow> bool) \<Rightarrow> (char \<Rightarrow> nat) \<Rightarrow> nat \<Rightarrow> nat \<Rightarrow> string \<Rightarrow> u8 \<Rightarrow> nat \<times> u8" where
  "decode_digits ok val sh 0 str ch = (0, ch)"
| "decode_digits ok val sh (Suc n) str ch =
     (if \<not> ok (chead str) then (0, ch)
      else let (i, ch') = decode_digits ok val sh n (tl str) (push_bit sh ch OR of_nat (val (chead str)))
           in (Suc i, ch'))"

definition decode_hex :: "string \<Rightarrow> nat \<times> u8" where
  "decode_hex str =
     (let (i, ch) = decode_digits is_hex hex_to_int 4 2 str 0
      in if i = 0 then (0, ch) else if ch = 0 then (0, ch) else (i, ch))"

definition decode_oct :: "string \<Rightarrow> nat \<times> u8" where
  "decode_oct str =
     (let (i, ch) = decode_digits is_oct oct_to_int 3 4 str 0
      in if i = 0 then (0, ch) else if ch = 0 then (0, ch) else (i, ch))"

lemma decode_digits_le: "\<not> ok CHR 0x00 \<Longrightarrow> fst (decode_digits ok val sh n str ch) \<le> length str"
proof (induction n arbitrary: str ch)
  case (Suc n)
  show ?case
  proof (cases str)
    case (Cons c s)
    then show ?thesis using Suc.IH [OF Suc.prems, of s] by (auto split: prod.splits) (metis fst_conv)
  qed (use Suc.prems in simp)
qed simp

section \<open>The loop\<close>

text \<open>
  One turn of the loop, for a non-empty input and fewer than \<open>max_args\<close> arguments: the rest of the input,
  the buffer, the arguments' offsets and the open quote; \<open>None\<close> when the escape is invalid.
\<close>

definition byte_char :: "u8 \<Rightarrow> char" where
  "byte_char b = char_of (unat b)"

definition parse_escape :: "string \<Rightarrow> string \<Rightarrow> (string \<times> string) option" where
  "parse_escape inp out =
     (case inp of [] \<Rightarrow> Some (inp, out)
      | c # inp' \<Rightarrow>
          if c = CHR ''n'' then Some (inp', out @ [CHR 0x0A])
          else if c = CHR ''r'' then Some (inp', out @ [CHR 0x0D])
          else if c = CHR ''0'' then
            let (i, ch) = decode_oct inp'
            in if i = 0 then None else Some (drop i inp', out @ [byte_char ch])
          else if c = CHR ''x'' then
            let (i, ch) = decode_hex inp'
            in if i = 0 then None else Some (drop i inp', out @ [byte_char ch])
          else Some (inp', out @ [c]))"

definition parse_turn :: "string \<Rightarrow> string \<Rightarrow> nat list \<Rightarrow> char option
    \<Rightarrow> (string \<times> string \<times> nat list \<times> char option) option" where
  "parse_turn inp out offs in_quote =
     (let c = hd inp in
      if c = CHR 0x5C then
        map_option (\<lambda>(inp', out'). (inp', out', offs, in_quote)) (parse_escape (tl inp) out)
      else if is_aspace c \<and> in_quote = None then
        let out' = out @ [CHR 0x00]; inp' = strip_start inp
        in Some (inp', out', (if inp' \<noteq> [] then offs @ [length out'] else offs), in_quote)
      else if c = CHR 0x22 \<or> c = CHR 0x27 then
        (case in_quote of
           Some q \<Rightarrow> if c = q then Some (tl inp, out, offs, None)
                     else Some (tl inp, out @ [c], offs, in_quote)
         | None \<Rightarrow> Some (tl inp, out, offs, Some c))
      else Some (tl inp, out @ [c], offs, in_quote))"

lemma strip_start_le: "length (strip_start s) \<le> length s"
  by (simp add: strip_start_dropWhile length_dropWhile_le)

lemma parse_escape_length:
  "parse_escape inp out = Some (inp', out') \<Longrightarrow>
   length inp' \<le> length inp \<and> length inp' + length out' \<le> length inp + length out"
  by (auto simp: parse_escape_def Let_def split: list.splits if_splits prod.splits)

lemma parse_turn_length:
  "inp \<noteq> [] \<Longrightarrow> parse_turn inp out offs q = Some (inp', out', offs', q') \<Longrightarrow>
   length inp' < length inp \<and> length inp' + length out' \<le> length inp + length out
   \<and> length offs' \<le> Suc (length offs) \<and> (offs \<noteq> [] \<longrightarrow> offs' \<noteq> [])"
proof -
  assume ne: "inp \<noteq> []" and t: "parse_turn inp out offs q = Some (inp', out', offs', q')"
  obtain c s where i: "inp = c # s" using ne by (cases inp) auto
  show ?thesis
  proof (cases "c = CHR 0x5C")
    case True
    then obtain a b where "parse_escape s out = Some (a, b)" "inp' = a" "out' = b" "offs' = offs"
      using t i by (auto simp: parse_turn_def)
    with parse_escape_length [of s out a b] i show ?thesis by auto
  next
    case False
    then show ?thesis using t i strip_start_le [of s]
      by (auto simp: parse_turn_def Let_def split: if_splits option.splits)
  qed
qed

function parse_args_loop :: "nat \<Rightarrow> string \<Rightarrow> string \<Rightarrow> nat list \<Rightarrow> char option
    \<Rightarrow> (string \<times> nat list \<times> char option) option" where
  "parse_args_loop max_args inp out offs in_quote =
     (if inp \<noteq> [] \<and> length offs < max_args then
        (case parse_turn inp out offs in_quote of None \<Rightarrow> None
         | Some (inp', out', offs', q') \<Rightarrow> parse_args_loop max_args inp' out' offs' q')
      else Some (out, offs, in_quote))"
  by pat_completeness auto
termination
  by (relation "measure (\<lambda>(m, inp, out, offs, q). length inp)") (auto dest!: parse_turn_length)

declare parse_args_loop.simps [simp del]

text \<open>
  The buffer and the offsets in \<open>argv\<close>. An empty line gives no argument and leaves \<open>argv\<close> unset;
  an empty last argument is dropped.
\<close>

definition parse_args :: "nat \<Rightarrow> string \<Rightarrow> (string \<times> nat list) option" where
  "parse_args max_args inp =
     (if max_args = 0 then None
      else let inp = strip_start inp
      in if inp = [] then Some ([], [])
      else case parse_args_loop max_args inp [] [0] None of
             None \<Rightarrow> None
           | Some (out, offs, in_quote) \<Rightarrow>
               if in_quote \<noteq> None then None
               else let out = out @ [CHR 0x00]
               in Some (out, if out ! last offs = CHR 0x00 then butlast offs else offs))"

text \<open>The arguments as the command sees them.\<close>

definition argv_strings :: "string \<times> nat list \<Rightarrow> string list" where
  "argv_strings r = map (\<lambda>off. cstr (drop off (fst r))) (snd r)"

section \<open>Bounds\<close>

lemma parse_args_loop_bounds:
  "parse_args_loop m inp out offs q = Some (out', offs', q') \<Longrightarrow> length offs \<le> m \<Longrightarrow> offs \<noteq> [] \<Longrightarrow>
   length out' \<le> length inp + length out \<and> length offs' \<le> m \<and> offs' \<noteq> []"
proof (induction m inp out offs q rule: parse_args_loop.induct)
  case (1 m inp out offs q)
  show ?case
  proof (cases "inp \<noteq> [] \<and> length offs < m")
    case True
    then obtain i o' f q'' where t: "parse_turn inp out offs q = Some (i, o', f, q'')"
      "parse_args_loop m i o' f q'' = Some (out', offs', q')"
      using "1.prems"(1) by (auto simp: parse_args_loop.simps [of m inp] split: option.splits)
    have l: "length i < length inp \<and> length i + length o' \<le> length inp + length out
        \<and> length f \<le> Suc (length offs) \<and> (offs \<noteq> [] \<longrightarrow> f \<noteq> [])"
      using parse_turn_length t(1) True by blast
    have "length f \<le> m" "f \<noteq> []" using l True "1.prems"(3) by auto
    with "1.IH" [OF True t(1) refl refl refl t(2)] l show ?thesis by auto
  next
    case False
    then have "out' = out" "offs' = offs"
      using "1.prems"(1) by (auto simp: parse_args_loop.simps [of m inp])
    with "1.prems" show ?thesis by simp
  qed
qed

text \<open>Where the offsets point: every offset but the last is inside what has been written.\<close>

definition offs_ok :: "string \<Rightarrow> nat list \<Rightarrow> bool" where
  "offs_ok out offs \<longleftrightarrow> (\<forall>off \<in> set offs. off \<le> length out)"

lemma parse_escape_out: "parse_escape inp out = Some (i, o') \<Longrightarrow> length out \<le> length o'"
  by (auto simp: parse_escape_def Let_def split: list.splits if_splits prod.splits)

lemma offs_ok_mono: "offs_ok out offs \<Longrightarrow> length out \<le> length out' \<Longrightarrow> offs_ok out' offs"
  by (auto simp: offs_ok_def)

lemma parse_turn_offs:
  "parse_turn inp out offs q = Some (i, o', f, q') \<Longrightarrow> offs_ok out offs \<Longrightarrow> offs_ok o' f"
  by (auto simp: parse_turn_def Let_def dest!: parse_escape_out split: if_splits option.splits
      intro: offs_ok_mono) (auto simp: offs_ok_def)

lemma parse_args_loop_offs:
  "parse_args_loop m inp out offs q = Some (out', offs', q') \<Longrightarrow> offs_ok out offs \<Longrightarrow> offs_ok out' offs'"
proof (induction m inp out offs q rule: parse_args_loop.induct)
  case (1 m inp out offs q)
  show ?case
  proof (cases "inp \<noteq> [] \<and> length offs < m")
    case True
    then obtain i o' f q'' where t: "parse_turn inp out offs q = Some (i, o', f, q'')"
      "parse_args_loop m i o' f q'' = Some (out', offs', q')"
      using "1.prems"(1) by (auto simp: parse_args_loop.simps [of m inp] split: option.splits)
    with "1.IH" [OF True t(1) refl refl refl t(2)] parse_turn_offs [OF t(1) "1.prems"(2)]
    show ?thesis by blast
  next
    case False
    with "1.prems" show ?thesis by (auto simp: parse_args_loop.simps [of m inp])
  qed
qed

text \<open>When the loop stops because \<open>argv\<close> is full, the last argument is still empty.\<close>

lemma parse_turn_extend:
  "parse_turn inp out offs q = Some (i, o', f, q') \<Longrightarrow> f = offs \<or> last f = length o'"
  by (auto simp: parse_turn_def Let_def split: if_splits option.splits)

lemma parse_args_loop_full:
  "parse_args_loop m inp out offs q = Some (out', offs', q') \<Longrightarrow> length offs \<le> m \<Longrightarrow> offs \<noteq> [] \<Longrightarrow>
   (length offs = m \<longrightarrow> last offs = length out) \<Longrightarrow> length offs' = m \<longrightarrow> last offs' = length out'"
proof (induction m inp out offs q rule: parse_args_loop.induct)
  case (1 m inp out offs q)
  show ?case
  proof (cases "inp \<noteq> [] \<and> length offs < m")
    case True
    then obtain i o' f q'' where t: "parse_turn inp out offs q = Some (i, o', f, q'')"
      "parse_args_loop m i o' f q'' = Some (out', offs', q')"
      using "1.prems"(1) by (auto simp: parse_args_loop.simps [of m inp] split: option.splits)
    have l: "length f \<le> Suc (length offs) \<and> (offs \<noteq> [] \<longrightarrow> f \<noteq> [])"
      using parse_turn_length t(1) True by blast
    have "length f \<le> m" "f \<noteq> []" "length f = m \<longrightarrow> last f = length o'"
      using l True "1.prems"(3) parse_turn_extend [OF t(1)] by auto
    with "1.IH" [OF True t(1) refl refl refl t(2)] show ?thesis by blast
  next
    case False
    with "1.prems" show ?thesis by (auto simp: parse_args_loop.simps [of m inp])
  qed
qed

section \<open>Quoting\<close>

text \<open>A way to write any argument: between double quotes, with the quote and the backslash escaped.\<close>

definition esc :: "char \<Rightarrow> string" where
  "esc c = (if c = CHR 0x22 \<or> c = CHR 0x5C then [CHR 0x5C, c] else [c])"

definition quoted :: "string \<Rightarrow> string" where
  "quoted a = CHR 0x22 # concat (map esc a) @ [CHR 0x22]"

definition command_line :: "string list \<Rightarrow> string" where
  "command_line as = concat (map (\<lambda>a. quoted a @ '' '') as)"

text \<open>The offsets of strings laid out one after the other.\<close>

fun layout :: "nat \<Rightarrow> string list \<Rightarrow> nat list" where
  "layout n [] = []"
| "layout n (a # as) = n # layout (n + length a + 1) as"

definition block :: "string list \<Rightarrow> string" where
  "block as = concat (map (\<lambda>a. a @ [CHR 0x00]) as)"

lemma block_append: "block (as @ [a]) = block as @ a @ [CHR 0x00]"
  by (simp add: block_def)

lemma layout_append: "layout n (as @ [a]) = layout n as @ [n + length (block as)]"
  by (induction as arbitrary: n) (simp_all add: block_def)

lemma length_layout [simp]: "length (layout n as) = length as"
  by (induction as arbitrary: n) simp_all

lemma cstr_append_nul: "no_nul a \<Longrightarrow> cstr (a @ CHR 0x00 # s) = a"
  unfolding cstr_def no_nul_def by (subst takeWhile_append2) auto

lemma layout_strings:
  "\<forall>a \<in> set as. no_nul a \<Longrightarrow> map (\<lambda>off. cstr (drop off (pre @ block as))) (layout (length pre) as) = as"
proof (induction as arbitrary: pre)
  case (Cons a as)
  have "map (\<lambda>off. cstr (drop off ((pre @ a @ [CHR 0x00]) @ block as))) (layout (length (pre @ a @ [CHR 0x00])) as) = as"
    using Cons.IH [of "pre @ a @ [CHR 0x00]"] Cons.prems by simp
  then show ?case using Cons.prems by (simp add: block_def cstr_append_nul)
qed simp

lemma parse_turn_esc:
  "parse_args_loop m (esc c @ s) out offs (Some CHR 0x22) =
   (if length offs < m then parse_args_loop m s (out @ [c]) offs (Some CHR 0x22)
    else Some (out, offs, Some CHR 0x22))"
  by (subst parse_args_loop.simps) (simp add: esc_def parse_turn_def parse_escape_def Let_def)

lemma parse_quoted_body:
  "length offs < m \<Longrightarrow>
   parse_args_loop m (concat (map esc a) @ CHR 0x22 # s) out offs (Some CHR 0x22) =
   parse_args_loop m s (out @ a) offs None"
proof (induction a arbitrary: out)
  case Nil
  then show ?case by (subst parse_args_loop.simps) (simp add: parse_turn_def)
next
  case (Cons c a)
  then show ?case using parse_turn_esc [of m c "concat (map esc a) @ CHR 0x22 # s"] by simp
qed

lemma parse_quoted:
  "length offs < m \<Longrightarrow>
   parse_args_loop m (quoted a @ s) out offs None = parse_args_loop m s (out @ a) offs None"
  using parse_quoted_body [of offs m a s out]
  by (subst parse_args_loop.simps) (simp add: parse_turn_def quoted_def is_aspace_def Let_def)

lemma parse_space:
  assumes "length offs < m" "s \<noteq> [] \<longrightarrow> \<not> is_aspace (hd s)"
  shows "parse_args_loop m (CHR '' '' # s) out offs None =
    parse_args_loop m s (out @ [CHR 0x00]) (if s \<noteq> [] then offs @ [length out + 1] else offs) None"
proof -
  have "strip_start s = s" using assms(2) by (cases s) auto
  then show ?thesis using assms(1)
    by (subst parse_args_loop.simps) (simp add: parse_turn_def)
qed

lemma command_line_hd: "as \<noteq> [] \<Longrightarrow> hd (command_line as) = CHR 0x22 \<and> command_line as \<noteq> []"
  by (cases as) (simp_all add: command_line_def quoted_def)

lemma parse_command_line:
  "length pre + length as < m \<Longrightarrow> as \<noteq> [] \<Longrightarrow>
   parse_args_loop m (command_line as) (block pre) (layout 0 pre @ [length (block pre)]) None =
   Some (block (pre @ as), layout 0 (pre @ as), None)"
proof (induction as arbitrary: pre)
  case (Cons a as)
  let ?offs = "layout 0 pre @ [length (block pre)]"
  have m: "length ?offs < m" using Cons.prems by simp
  have o: "?offs = layout 0 (pre @ [a])" by (simp add: layout_append)
  have "parse_args_loop m (command_line (a # as)) (block pre) ?offs None =
      parse_args_loop m (CHR '' '' # command_line as) (block pre @ a) ?offs None"
    using parse_quoted [OF m, of a "'' '' @ command_line as"] by (simp add: command_line_def)
  also have "\<dots> = parse_args_loop m (command_line as) (block (pre @ [a]))
      (if command_line as \<noteq> [] then ?offs @ [length (block (pre @ [a]))] else ?offs) None"
    using parse_space [OF m, of "command_line as" "block pre @ a"] command_line_hd [of as]
    by (cases "as = []") (simp_all add: block_append command_line_def is_aspace_def)
  also have "\<dots> = Some (block (pre @ a # as), layout 0 (pre @ a # as), None)"
  proof (cases "as = []")
    case True
    then show ?thesis by (subst parse_args_loop.simps) (simp add: command_line_def o)
  next
    case False
    with Cons.IH [of "pre @ [a]"] Cons.prems command_line_hd [of as] show ?thesis
      by (simp add: o)
  qed
  finally show ?case .
qed simp

section \<open>Properties\<close>

lemma parse_args_command_line:
  assumes "\<forall>a \<in> set as. no_nul a" and "length as < m"
  shows "map_option argv_strings (parse_args m (command_line as)) =
    Some (if as \<noteq> [] \<and> last as = [] then butlast as else as)"
proof (cases as rule: rev_cases)
  case Nil
  then show ?thesis using assms(2) by (simp add: parse_args_def command_line_def argv_strings_def Let_def)
next
  case (snoc bs b)
  have s: "strip_start (command_line as) = command_line as" "command_line as \<noteq> []"
    using command_line_hd [of as] snoc by (cases "command_line as"; simp add: is_aspace_def)+
  have l: "parse_args_loop m (command_line as) [] [0] None = Some (block as, layout 0 as, None)"
    using parse_command_line [of "[]" as m] assms(2) snoc by (simp add: block_def)
  have last: "last (layout 0 as) = length (block bs)" "butlast (layout 0 as) = layout 0 bs"
    by (simp_all add: snoc layout_append)
  have b: "(block as @ [CHR 0x00]) ! length (block bs) = CHR 0x00 \<longleftrightarrow> b = []"
    using assms(1) snoc by (cases b) (auto simp: block_append nth_append)
  have "map (\<lambda>off. cstr (drop off (block (as @ [[]])))) (layout 0 (as @ [[]])) = as @ [[]]"
    using layout_strings [of "as @ [[]]" "[]"] assms(1) by simp
  then have o: "map (\<lambda>off. cstr (drop off (block as @ [CHR 0x00]))) (layout 0 as) = as"
    by (simp add: layout_append block_append)
  then have o': "map (\<lambda>off. cstr (drop off (block as @ [CHR 0x00]))) (layout 0 bs) = bs"
    by (simp add: snoc layout_append)
  have p: "parse_args m (command_line as) =
      Some (block as @ [CHR 0x00], if b = [] then layout 0 bs else layout 0 as)"
    using assms(2) unfolding parse_args_def Let_def s(1) l by (simp add: s(2) last b)
  have "map_option argv_strings (parse_args m (command_line as)) = Some (if b = [] then bs else as)"
    unfolding p argv_strings_def option.map fst_conv snd_conv if_distrib [of "map _"] o o' ..
  moreover have "(if as \<noteq> [] \<and> last as = [] then butlast as else as) = (if b = [] then bs else as)"
    by (simp add: snoc)
  ultimately show ?thesis by (simp only:)
qed

text \<open>
  C19: Every argument vector can be written as a command line: \<open>parse_args\<close> gives back exactly
  the strings that were quoted, provided they fit below \<open>max_args\<close>; only an empty last argument
  is lost, whether quoted or not.
\<close>
theorem parse_args_quoted:
  assumes "\<forall>a \<in> set as. no_nul a" and "length as < m"
  shows "map_option argv_strings (parse_args m (command_line as)) =
    Some (if as \<noteq> [] \<and> last as = [] then butlast as else as)"
  using assms by (rule parse_args_command_line)

theorem parse_args_quoted_witness:
  "map_option argv_strings (parse_args 16 (command_line [''ls'', ''a \"b'', ''c''])) =
    Some [''ls'', ''a \"b'', ''c'']"
  using parse_args_quoted [of "[''ls'', ''a \"b'', ''c'']" 16] by simp

text \<open>
  C23: Bounds: a parsed line has fewer than \<open>max_args\<close> arguments, so the final null pointer is
  stored inside \<open>argv\<close>; the output never needs more than the input's length and its NUL, and every
  argument starts inside it.
\<close>
theorem parse_args_bounds:
  assumes "parse_args m inp = Some (out, offs)"
  shows "length offs < m \<and> length out \<le> length inp + 1 \<and> (\<forall>off \<in> set offs. off < length out)"
proof (cases "strip_start inp = []")
  case True
  then show ?thesis using assms by (auto simp: parse_args_def Let_def split: if_splits)
next
  case False
  have m: "0 < m" using assms by (auto simp: parse_args_def Let_def split: if_splits)
  obtain o' f where l: "parse_args_loop m (strip_start inp) [] [0] None = Some (o', f, None)"
    and e: "out = o' @ [CHR 0x00]" "offs = (if out ! last f = CHR 0x00 then butlast f else f)"
    using assms False by (auto simp: parse_args_def Let_def split: if_splits option.splits)
  have B: "length o' \<le> length (strip_start inp) \<and> length f \<le> m \<and> f \<noteq> []"
    using parse_args_loop_bounds [OF l] m by simp
  have O: "offs_ok o' f" using parse_args_loop_offs [OF l] by (simp add: offs_ok_def)
  then have O': "\<forall>off \<in> set offs. off < length out" unfolding e(2)
    by (auto simp: offs_ok_def e(1) less_Suc_eq_le dest: in_set_butlastD)
  have "length offs < m"
  proof (cases "length f < m")
    case True
    then show ?thesis using m by (auto simp: e(2))
  next
    case False
    then have "length f = m" using B by simp
    then have "last f = length o'" using parse_args_loop_full [OF l] m by simp
    then have "offs = butlast f" by (simp add: e)
    with \<open>length f = m\<close> m show ?thesis by simp
  qed
  with B O' strip_start_le [of inp] e(1) show ?thesis by simp
qed

theorem parse_args_bounds_witness:
  "\<exists>out offs. parse_args 2 ''a b c'' = Some (out, offs) \<and> length offs < 2"
proof -
  have "parse_args 2 ''a b c'' = Some (''a'' @ [CHR 0x00, CHR 0x00], [0])" by code_simp
  with parse_args_bounds [OF this] show ?thesis by blast
qed

end
