(* ===== verification/CLib.thy ===== *)
theory CLib
  imports CUtil
begin

text \<open>
  The number parser of the C library as the program uses it (\<open>strtoul\<close> with base 0 on 32-bit
  \<open>unsigned long\<close>), \<open>strtoint\<close> of \<open>psplink/util.c\<close> on top of it, and the measure of a buffered file that
  bounds the loops reading it.
\<close>

section \<open>Numbers\<close>

definition digit_in :: "nat \<Rightarrow> char \<Rightarrow> bool" where
  "digit_in base c \<longleftrightarrow> is_hex c \<and> hex_to_int c < base"

fun digits_value :: "int \<Rightarrow> string \<Rightarrow> int \<Rightarrow> int" where
  "digits_value base [] n = n"
| "digits_value base (c # s) n = digits_value base s (n * base + int (hex_to_int c))"

text \<open>The base chosen by a prefix, and what follows the prefix.\<close>

definition number_base :: "string \<Rightarrow> nat \<times> string" where
  "number_base s =
     (case s of
        c # x # d # r \<Rightarrow>
          if c = CHR ''0'' \<and> (x = CHR ''x'' \<or> x = CHR ''X'') \<and> is_hex d then (16, d # r)
          else if c = CHR ''0'' then (8, s) else (10, s)
      | c # r \<Rightarrow> if c = CHR ''0'' then (8, s) else (10, s)
      | [] \<Rightarrow> (10, s))"

definition c_isspace :: "char \<Rightarrow> bool" where
  "c_isspace c \<longleftrightarrow> c = CHR '' '' \<or> 9 \<le> ccode c \<and> ccode c \<le> 13"

text \<open>The base is 16 when it is given, with or without a prefix.\<close>

definition hex_base :: "string \<Rightarrow> nat \<times> string" where
  "hex_base s =
     (case s of
        c # x # d # r \<Rightarrow>
          if c = CHR ''0'' \<and> (x = CHR ''x'' \<or> x = CHR ''X'') \<and> is_hex d then (16, d # r) else (16, s)
      | _ \<Rightarrow> (16, s))"

text \<open>The value, and the string at \<open>endp\<close>: the whole string when there is no number.\<close>

definition strtoul_by :: "(string \<Rightarrow> nat \<times> string) \<Rightarrow> string \<Rightarrow> u32 \<times> string" where
  "strtoul_by base_of str =
     (let s = dropWhile c_isspace str;
          neg = (chead s = CHR ''-'');
          s = (if chead s = CHR ''-'' \<or> chead s = CHR ''+'' then tl s else s);
          (base, s) = base_of s;
          ds = takeWhile (digit_in base) s;
          n = digits_value (int base) ds 0
      in if ds = [] then (0, str)
         else ((if 4294967296 \<le> n then - 1 else word_of_int (if neg then - n else n)), dropWhile (digit_in base) s))"

definition strtoul :: "string \<Rightarrow> u32 \<times> string" where
  "strtoul = strtoul_by number_base"

definition strtoul16 :: "string \<Rightarrow> u32 \<times> string" where
  "strtoul16 = strtoul_by hex_base"

lemma length_dropWhile_c_isspace: "length (dropWhile c_isspace str) \<le> length str"
  by (rule length_dropWhile_le)

lemma number_base_length: "number_base s = (b, r) \<Longrightarrow> length r \<le> length s"
  by (auto simp: number_base_def split: list.splits if_splits)

lemma strtoul_length: "strtoul str = (v, r) \<Longrightarrow> length r \<le> length str"
proof -
  assume a: "strtoul str = (v, r)"
  let ?t = "dropWhile c_isspace str"
  let ?s = "if chead ?t = CHR ''-'' \<or> chead ?t = CHR ''+'' then tl ?t else ?t"
  obtain b q where q: "number_base ?s = (b, q)" by fastforce
  have "length q \<le> length ?s" by (rule number_base_length [OF q])
  also have "\<dots> \<le> length ?t" by simp
  also have "\<dots> \<le> length str" by (rule length_dropWhile_le)
  finally have l: "length q \<le> length str" .
  have "r = str \<or> r = dropWhile (digit_in b) q"
    using a q unfolding strtoul_def strtoul_by_def Let_def by (simp split: if_splits)
  then show ?thesis using l length_dropWhile_le [of "digit_in b" q] by auto
qed

definition strtoint :: "string \<Rightarrow> u32 option" where
  "strtoint str = (let (val, endp) = strtoul str in if endp \<noteq> [] then None else Some val)"

lemma strtoint_code_example:
  "strtoint ''0x1F'' = Some 31" "strtoint ''010'' = Some 8" "strtoint ''12'' = Some 12"
  "strtoint ''12z'' = None" "strtoint ''-1'' = Some 0xFFFFFFFF"
  by code_simp+

section \<open>What is left of a file\<close>

definition file_left :: "PspFile \<Rightarrow> nat" where
  "file_left f = (if read_size f = 0 then length (concat (chunks f)) else read_size f - read_pos f)"

lemma fdgetc_left:
  assumes "fdgetc f = (ch, f')"
  shows "file_left f' \<le> file_left f \<and> (ch \<noteq> -1 \<longrightarrow> file_left f' < file_left f)"
proof (cases "read_size f = 0")
  case False
  then show ?thesis using assms by (auto simp: fdgetc_def file_left_def split: if_splits)
next
  case True
  show ?thesis
  proof (cases "chunks f")
    case (Cons c cs)
    then show ?thesis using True assms
      by (cases c) (auto simp: fdgetc_def file_left_def Let_def min_def split: if_splits)
  qed (use True assms in \<open>auto simp: fdgetc_def file_left_def\<close>)
qed

lemma fdgets_loop_left:
  "fdgets_loop n f = (l, f') \<Longrightarrow> file_left f' \<le> file_left f \<and> (l \<noteq> [] \<longrightarrow> file_left f' < file_left f)"
proof (induction n arbitrary: f l f')
  case (Suc n)
  obtain ch g where c: "fdgetc f = (ch, g)" by fastforce
  note L = fdgetc_left [OF c]
  show ?case
  proof (cases "ch = -1 \<or> ch = 10")
    case True
    with Suc.prems c L show ?thesis by (auto split: if_splits)
  next
    case False
    obtain l' h where r: "fdgets_loop n g = (l', h)" by fastforce
    with False Suc.prems c have "f' = h" by simp
    with Suc.IH [OF r] L False show ?thesis by auto
  qed
qed simp

lemma fdgets_left:
  "fdgets f n = (l, k, f') \<Longrightarrow> k \<noteq> 0 \<Longrightarrow> file_left f' < file_left f"
  using fdgets_loop_left [of "n - 1" f l f'] by (auto simp: fdgets_def split: prod.splits)

end
