(* ===== verification/Conf.thy ===== *)
theory Conf
  imports CLib
begin

text \<open>
  The configuration file \<open>psplink.ini\<close>: its reader (\<open>psplink/psplinkcnf.c\<close>), the table of settings and
  their handlers, and \<open>configLoad\<close>, \<open>configPrint\<close> and \<open>configChange\<close> (\<open>psplink/config.c\<close>). The
  build is the one with every shell (no \<open>USB_ONLY\<close>). What handlers do outside the configuration (loading a
  module, setting disassembler options) is recorded as a list of effects.
\<close>

section \<open>Reading entries\<close>

text \<open>One line, as \<open>psplinkConfigReadNext\<close> treats it: a name and a value, or nothing.\<close>

definition parse_config_line :: "string \<Rightarrow> (string \<times> string) option" where
  "parse_config_line str_buf =
     (let s = strip_whitesp (cstr str_buf) in
      if chead s = CHR ''#'' \<or> s = [] then None
      else case split_at (\<lambda>c. c = CHR ''='') s of None \<Rightarrow> None
      | Some (name, v) \<Rightarrow>
          if chead v = CHR 0x22 then
            (case split_at (\<lambda>c. c = CHR 0x22) (tl v) of None \<Rightarrow> None | Some (val, _) \<Rightarrow> Some (name, val))
          else Some (name, v))"

function psplinkConfigReadNext :: "PspFile \<Rightarrow> (string \<times> string) option \<times> PspFile" where
  "psplinkConfigReadNext f =
     (let (str_buf, n, f') = fdgets f MAX_BUFFER in
      if n = 0 then (None, f')
      else case parse_config_line str_buf of
             None \<Rightarrow> psplinkConfigReadNext f'
           | Some (name, val) \<Rightarrow> (Some (name, val), f'))"
  by pat_completeness auto
termination
  by (relation "measure file_left") (auto dest!: fdgets_left [OF sym])

declare psplinkConfigReadNext.simps [simp del]

definition psplinkConfigOpen :: "int \<Rightarrow> string list \<Rightarrow> PspFile option" where
  "psplinkConfigOpen fd data = openfile fd data"

lemma psplinkConfigReadNext_left:
  "psplinkConfigReadNext f = (Some e, f') \<Longrightarrow> file_left f' < file_left f"
proof (induction f rule: psplinkConfigReadNext.induct)
  case (1 f)
  obtain l n g where r: "fdgets f MAX_BUFFER = (l, n, g)" by (metis prod_cases3)
  show ?case
  proof (cases "n = 0 \<or> parse_config_line l \<noteq> None")
    case True
    then have "f' = g" "n \<noteq> 0"
      using "1.prems" r by (auto simp: psplinkConfigReadNext.simps [of f] split: if_splits option.splits)
    with fdgets_left [OF r] show ?thesis by simp
  next
    case False
    have n: "n \<noteq> 0" "parse_config_line l = None" using False by (auto simp del: not_None_eq)
    then have "psplinkConfigReadNext g = (Some e, f')"
      using "1.prems" r by (simp add: psplinkConfigReadNext.simps [of f])
    with "1.IH" [OF r [symmetric] refl refl n] fdgets_left [OF r n(1)] show ?thesis
      by (metis order_less_trans)
  qed
qed

text \<open>The loops of \<open>configLoad\<close>, \<open>configPrint\<close> and \<open>configChange\<close> all visit the entries in this order.\<close>

function config_entries :: "PspFile \<Rightarrow> (string \<times> string) list" where
  "config_entries f =
     (case psplinkConfigReadNext f of (None, _) \<Rightarrow> [] | (Some e, f') \<Rightarrow> e # config_entries f')"
  by pat_completeness auto
termination
  by (relation "measure file_left") (auto dest!: psplinkConfigReadNext_left [OF sym])

declare config_entries.simps [simp del]

section \<open>The configuration\<close>

abbreviation DEFAULT_BAUDRATE :: u32 where "DEFAULT_BAUDRATE \<equiv> 115200"

record ConfigContext =
  enableuser :: u32
  cliprompt :: string
  path :: string
  startsh :: string
  resetonexit :: u32
  wifi :: u32
  wifishell :: u32
  sioshell :: u32
  conshell :: u32
  consinterfere :: u32
  pid :: u32
  conscrosscmd :: string
  conssquarecmd :: string
  constrianglecmd :: string
  conscirclecmd :: string
  consselectcmd :: string
  consstartcmd :: string
  consdowncmd :: string
  consleftcmd :: string
  consupcmd :: string
  consrightcmd :: string
  pcterm :: u32
  baudrate :: u32
  usbmass :: u32
  usbhost :: u32
  usbshell :: u32
  usbgdb :: u32
  kprintf :: u32

datatype config_effect = LoadModule string | SetDisasmOpts string

text \<open>\<open>memset (ctx, 0, sizeof (*ctx))\<close>.\<close>

definition config_zero :: ConfigContext where
  "config_zero = \<lparr>enableuser = 0, cliprompt = [], path = [], startsh = [], resetonexit = 0, wifi = 0,
     wifishell = 0, sioshell = 0, conshell = 0, consinterfere = 0, pid = 0, conscrosscmd = [],
     conssquarecmd = [], constrianglecmd = [], conscirclecmd = [], consselectcmd = [], consstartcmd = [],
     consdowncmd = [], consleftcmd = [], consupcmd = [], consrightcmd = [], pcterm = 0, baudrate = 0,
     usbmass = 0, usbhost = 0, usbshell = 0, usbgdb = 0, kprintf = 0\<rparr>"

type_synonym config_state = "ConfigContext \<times> config_effect list"
type_synonym config_handler = "string \<Rightarrow> u32 \<Rightarrow> config_state \<Rightarrow> config_state"

definition on_ctx :: "(ConfigContext \<Rightarrow> ConfigContext) \<Rightarrow> config_state \<Rightarrow> config_state" where
  "on_ctx f st = (f (fst st), snd st)"

definition config_usbmass :: config_handler where
  "config_usbmass sz i = on_ctx (\<lambda>c. c\<lparr>usbmass := i\<rparr>)"

definition config_usbhost :: config_handler where
  "config_usbhost sz i = on_ctx (\<lambda>c. c\<lparr>usbhost := i\<rparr>)"

definition config_baud :: config_handler where
  "config_baud sz i = on_ctx (\<lambda>c. c\<lparr>baudrate :=
     (if i \<in> {4800, 9600, 19200, 38400, 57600, 115200} then i else DEFAULT_BAUDRATE)\<rparr>)"

definition config_modload :: config_handler where
  "config_modload sz i st = (fst st, snd st @ [LoadModule sz])"

definition config_pluser :: config_handler where
  "config_pluser sz i = on_ctx (\<lambda>c. c\<lparr>enableuser := i\<rparr>)"

definition config_prompt :: config_handler where
  "config_prompt sz i = on_ctx (\<lambda>c. c\<lparr>cliprompt := strlcpy 127 sz\<rparr>)"

definition config_startsh :: config_handler where
  "config_startsh sz i = on_ctx (\<lambda>c. c\<lparr>startsh := strlcpy 127 sz\<rparr>)"

definition config_path :: config_handler where
  "config_path sz i = on_ctx (\<lambda>c. c\<lparr>path := strlcpy 127 sz\<rparr>)"

definition config_resetonexit :: config_handler where
  "config_resetonexit sz i = on_ctx (\<lambda>c. c\<lparr>resetonexit := i\<rparr>)"

definition config_wifishell :: config_handler where
  "config_wifishell sz i = on_ctx (\<lambda>c. let c = c\<lparr>wifishell := i\<rparr>
     in if i \<noteq> 0 \<and> wifi c = 0 then c\<lparr>wifi := 1\<rparr> else c)"

definition config_conshell :: config_handler where
  "config_conshell sz i = on_ctx (\<lambda>c. c\<lparr>conshell := i\<rparr>)"

definition config_conscrosscmd :: config_handler where
  "config_conscrosscmd sz i = on_ctx (\<lambda>c. c\<lparr>conscrosscmd := strlcpy 63 sz\<rparr>)"

definition config_conssquarecmd :: config_handler where
  "config_conssquarecmd sz i = on_ctx (\<lambda>c. c\<lparr>conssquarecmd := strlcpy 63 sz\<rparr>)"

definition config_constrianglecmd :: config_handler where
  "config_constrianglecmd sz i = on_ctx (\<lambda>c. c\<lparr>constrianglecmd := strlcpy 63 sz\<rparr>)"

definition config_conscirclecmd :: config_handler where
  "config_conscirclecmd sz i = on_ctx (\<lambda>c. c\<lparr>conscirclecmd := strlcpy 63 sz\<rparr>)"

definition config_consselectcmd :: config_handler where
  "config_consselectcmd sz i = on_ctx (\<lambda>c. c\<lparr>consselectcmd := strlcpy 63 sz\<rparr>)"

definition config_consstartcmd :: config_handler where
  "config_consstartcmd sz i = on_ctx (\<lambda>c. c\<lparr>consstartcmd := strlcpy 63 sz\<rparr>)"

definition config_consdowncmd :: config_handler where
  "config_consdowncmd sz i = on_ctx (\<lambda>c. c\<lparr>consdowncmd := strlcpy 63 sz\<rparr>)"

definition config_consleftcmd :: config_handler where
  "config_consleftcmd sz i = on_ctx (\<lambda>c. c\<lparr>consleftcmd := strlcpy 63 sz\<rparr>)"

definition config_consupcmd :: config_handler where
  "config_consupcmd sz i = on_ctx (\<lambda>c. c\<lparr>consupcmd := strlcpy 63 sz\<rparr>)"

definition config_consrightcmd :: config_handler where
  "config_consrightcmd sz i = on_ctx (\<lambda>c. c\<lparr>consrightcmd := strlcpy 63 sz\<rparr>)"

definition config_consinterfere :: config_handler where
  "config_consinterfere sz i = on_ctx (\<lambda>c. c\<lparr>consinterfere := i\<rparr>)"

definition config_sioshell :: config_handler where
  "config_sioshell sz i = on_ctx (\<lambda>c. c\<lparr>sioshell := i\<rparr>)"

definition config_pcterm :: config_handler where
  "config_pcterm sz i = on_ctx (\<lambda>c. c\<lparr>pcterm := i\<rparr>)"

definition config_wifi :: config_handler where
  "config_wifi sz i = on_ctx (\<lambda>c. c\<lparr>wifi := i\<rparr>)"

definition config_usbshell :: config_handler where
  "config_usbshell sz i = on_ctx (\<lambda>c. if i \<noteq> 0 then c\<lparr>usbhost := 1, usbshell := 1\<rparr> else c)"

definition config_usbgdb :: config_handler where
  "config_usbgdb sz i = on_ctx (\<lambda>c. c\<lparr>usbgdb := i\<rparr>)"

definition config_disopt :: config_handler where
  "config_disopt sz i st = (fst st, snd st @ [SetDisasmOpts sz])"

definition config_kprintf :: config_handler where
  "config_kprintf sz i = on_ctx (\<lambda>c. c\<lparr>kprintf := i\<rparr>)"

definition config_pid :: config_handler where
  "config_pid sz i = on_ctx (\<lambda>c. c\<lparr>pid := i\<rparr>)"

text \<open>The table of settings: name, whether the value is a number, handler.\<close>

definition config_names :: "(string \<times> bool \<times> config_handler) list" where
  "config_names =
    [(''usbmass'', True, config_usbmass), (''usbhost'', True, config_usbhost),
     (''baud'', True, config_baud), (''modload'', False, config_modload),
     (''pluser'', True, config_pluser), (''prompt'', False, config_prompt),
     (''resetonexit'', True, config_resetonexit), (''wifishell'', True, config_wifishell),
     (''sioshell'', True, config_sioshell), (''pcterm'', True, config_pcterm),
     (''pid'', True, config_pid), (''startsh'', False, config_startsh),
     (''conshell'', True, config_conshell), (''consinterfere'', True, config_consinterfere),
     (''conscrosscmd'', False, config_conscrosscmd), (''conssquarecmd'', False, config_conssquarecmd),
     (''constrianglecmd'', False, config_constrianglecmd), (''conscirclecmd'', False, config_conscirclecmd),
     (''consselectcmd'', False, config_consselectcmd), (''consstartcmd'', False, config_consstartcmd),
     (''consdowncmd'', False, config_consdowncmd), (''consleftcmd'', False, config_consleftcmd),
     (''consupcmd'', False, config_consupcmd), (''consrightcmd'', False, config_consrightcmd),
     (''wifi'', True, config_wifi), (''path'', False, config_path), (''disopt'', False, config_disopt),
     (''usbshell'', True, config_usbshell), (''usbgdb'', True, config_usbgdb),
     (''kprintf'', True, config_kprintf)]"

text \<open>The walk through the table for one entry; a value that is no number ends it.\<close>

fun apply_config :: "(string \<times> bool \<times> config_handler) list \<Rightarrow> string \<Rightarrow> string \<Rightarrow> config_state \<Rightarrow> config_state"
where
  "apply_config [] name val st = st"
| "apply_config ((n, isnum, h) # tbl) name val st =
     (if n = name then
        (if isnum then
           let (iVal, endp) = strtoul val
           in if endp \<noteq> [] then st else apply_config tbl name val (h val iVal st)
         else apply_config tbl name val (h val 0 st))
      else apply_config tbl name val st)"

text \<open>\<open>configLoad\<close>; \<open>file\<close> is the opened file, if it could be opened.\<close>

definition configLoad :: "PspFile option \<Rightarrow> config_state" where
  "configLoad file =
     (let st = (case file of None \<Rightarrow> (config_zero, [])
                | Some f \<Rightarrow> fold (\<lambda>(name, val). apply_config config_names name val) (config_entries f) (config_zero, []))
      in if usbshell (fst st) = 0 \<and> wifishell (fst st) = 0 then on_ctx (\<lambda>c. c\<lparr>sioshell := 1\<rparr>) st else st)"

section \<open>Changing an entry\<close>

abbreviation CONFIG_MODE_ADD :: nat where "CONFIG_MODE_ADD \<equiv> 1"
abbreviation CONFIG_MODE_DEL :: nat where "CONFIG_MODE_DEL \<equiv> 2"

definition config_line :: "string \<Rightarrow> string \<Rightarrow> string" where
  "config_line name val = name @ ''='' @ [CHR 0x22] @ val @ [CHR 0x22, CHR 0x0A]"

definition configPrint :: "PspFile \<Rightarrow> string list" where
  "configPrint f = map (\<lambda>(name, val). name @ ''='' @ val @ [CHR 0x0A]) (config_entries f)"

text \<open>The loop of \<open>configChange\<close>: the text written so far and whether the name was found.\<close>

definition change_entry :: "string \<Rightarrow> string \<Rightarrow> nat \<Rightarrow> string \<times> string \<Rightarrow> string \<times> bool \<Rightarrow> string \<times> bool" where
  "change_entry newname newval mode e st =
     (if fst e = newname then
        (if mode = CONFIG_MODE_ADD then (fst st @ config_line newname newval, True) else st)
      else (fst st @ config_line (fst e) (snd e), snd st))"

text \<open>
  What happens to the files. \<open>tmp\<close> tells whether the temporary file can be created; \<open>removed\<close> and
  \<open>renamed\<close> are the kernel's answers.
\<close>

datatype config_outcome =
    Unchanged | Replaced string | OldKept string | OldLost string

definition configChange :: "bool \<Rightarrow> PspFile option \<Rightarrow> bool \<Rightarrow> bool \<Rightarrow> string \<Rightarrow> string \<Rightarrow> nat \<Rightarrow> config_outcome"
where
  "configChange tmp file removed renamed newname newval mode =
     (if mode \<noteq> CONFIG_MODE_ADD \<and> mode \<noteq> CONFIG_MODE_DEL then Unchanged
      else if \<not> tmp then Unchanged
      else case file of None \<Rightarrow> Unchanged
      | Some f \<Rightarrow>
          (let (text, found) = fold (change_entry newname newval mode) (config_entries f) ([], False);
               text = (if mode = CONFIG_MODE_ADD \<and> \<not> found then text @ config_line newname newval else text)
           in if \<not> removed then OldKept text else if \<not> renamed then OldLost text else Replaced text))"

section \<open>Well-formed configurations\<close>

definition valid_bauds :: "u32 set" where
  "valid_bauds = {0, 4800, 9600, 19200, 38400, 57600, 115200}"

definition ctx_ok :: "ConfigContext \<Rightarrow> bool" where
  "ctx_ok c \<longleftrightarrow> baudrate c \<in> valid_bauds \<and>
     length (cliprompt c) < 128 \<and> length (path c) < 128 \<and> length (startsh c) < 128 \<and>
     (\<forall>s \<in> {conscrosscmd c, conssquarecmd c, constrianglecmd c, conscirclecmd c, consselectcmd c,
        consstartcmd c, consdowncmd c, consleftcmd c, consupcmd c, consrightcmd c}. length s < 64)"

lemma length_strlcpy_less [simp]: "length (strlcpy 127 s) < 128" "length (strlcpy 63 s) < 64"
  by (simp_all add: strlcpy_def)

lemmas config_handlers =
  config_usbmass_def config_usbhost_def config_baud_def config_modload_def config_pluser_def
  config_prompt_def config_startsh_def config_path_def config_resetonexit_def config_wifishell_def
  config_conshell_def config_conscrosscmd_def config_conssquarecmd_def config_constrianglecmd_def
  config_conscirclecmd_def config_consselectcmd_def config_consstartcmd_def config_consdowncmd_def
  config_consleftcmd_def config_consupcmd_def config_consrightcmd_def config_consinterfere_def
  config_sioshell_def config_pcterm_def config_wifi_def config_usbshell_def config_usbgdb_def
  config_disopt_def config_kprintf_def config_pid_def

lemma config_handlers_ok:
  "\<forall>(n, isnum, h) \<in> set config_names. \<forall>sz i st. ctx_ok (fst st) \<longrightarrow> ctx_ok (fst (h sz i st))"
  unfolding config_names_def
  by (simp add: config_handlers on_ctx_def Let_def ctx_ok_def valid_bauds_def)

lemma apply_config_ok:
  "\<forall>(n, isnum, h) \<in> set tbl. \<forall>sz i st. ctx_ok (fst st) \<longrightarrow> ctx_ok (fst (h sz i st)) \<Longrightarrow>
   ctx_ok (fst st) \<Longrightarrow> ctx_ok (fst (apply_config tbl name val st))"
proof (induction tbl name val st rule: apply_config.induct)
  case (2 n isnum h tbl name val st)
  obtain iv endp where v: "strtoul val = (iv, endp)" by fastforce
  have h: "ctx_ok (fst (h val i st))" for i
    using "2.prems" by (auto simp del: split_paired_All)
  have t: "\<forall>(n, isnum, h) \<in> set tbl. \<forall>sz i st. ctx_ok (fst st) \<longrightarrow> ctx_ok (fst (h sz i st))"
    using "2.prems"(1) by (auto simp del: split_paired_All)
  show ?case
    using "2.IH"(1) [OF _ _ v [symmetric] refl _ t h] "2.IH"(2) [OF _ _ t h] "2.IH"(3) [OF _ t "2.prems"(2)]
      "2.prems"(2) v by simp
qed simp

lemma entries_ok:
  "ctx_ok (fst st) \<Longrightarrow> ctx_ok (fst (fold (\<lambda>(name, val). apply_config config_names name val) es st))"
proof (induction es arbitrary: st)
  case (Cons e es)
  from Cons.IH [OF apply_config_ok [OF config_handlers_ok Cons.prems, of "fst e" "snd e"]]
  show ?case by (simp add: split_beta)
qed simp

section \<open>Entries of a text\<close>

lemma getline_length: "getline n s = (l, r) \<Longrightarrow> length l + length r \<le> length s"
proof (induction n s arbitrary: l rule: getline.induct)
  case (3 n c s)
  obtain l' r' where g: "getline n s = (l', r')" by fastforce
  with 3 show ?case by (auto split: if_splits)
qed simp_all

function text_entries :: "string \<Rightarrow> (string \<times> string) list" where
  "text_entries s =
     (let (l, r) = getline 4095 s in
      if l = [] then []
      else case parse_config_line l of None \<Rightarrow> text_entries r | Some e \<Rightarrow> e # text_entries r)"
  by pat_completeness auto
termination
proof (relation "measure length", goal_cases)
  case (2 s x l r)
  then show ?case using getline_length [of 4095 s l r] by (cases l) auto
next
  case (3 s x l r e)
  then show ?case using getline_length [of 4095 s l r] by (cases l) auto
qed simp

declare text_entries.simps [simp del]

lemma fdgets_getline:
  assumes "file_ok f"
  obtains f' where "fdgets f MAX_BUFFER = (fst (getline 4095 (file_rest f)), length (fst (getline 4095 (file_rest f))), f')"
    "file_ok f'" "file_rest f' = snd (getline 4095 (file_rest f))"
proof -
  obtain l f' where r: "fdgets_loop 4095 f = (l, f')" by fastforce
  have g: "file_ok f'" "getline 4095 (file_rest f) = (l, file_rest f')"
    using fdgets_loop_getline [OF assms r] by blast+
  have "fdgets f MAX_BUFFER = (l, length l, f')" using r by (simp add: fdgets_def)
  with g show ?thesis by (intro that [of f']) (simp_all only: fst_conv snd_conv)
qed

lemma config_entries_skip:
  assumes "fdgets f MAX_BUFFER = (l, n, f')"
  shows "config_entries f = (if n = 0 then []
    else case parse_config_line l of None \<Rightarrow> config_entries f' | Some e \<Rightarrow> e # config_entries f')"
  using assms
  by (auto simp: config_entries.simps [of f] config_entries.simps [of f'] psplinkConfigReadNext.simps [of f]
      split: option.splits)

lemma config_entries_text: "file_ok f \<Longrightarrow> config_entries f = text_entries (file_rest f)"
proof (induction "file_rest f" arbitrary: f rule: text_entries.induct)
  case 1
  obtain l r where g: "getline 4095 (file_rest f) = (l, r)" by fastforce
  obtain f' where f': "fdgets f MAX_BUFFER = (l, length l, f')" "file_ok f'" "file_rest f' = r"
    using fdgets_getline [OF "1.prems"] g by (metis fst_conv snd_conv)
  show ?case
  proof (cases "l = []")
    case True
    then show ?thesis using config_entries_skip [OF f'(1)] g by (simp add: text_entries.simps [of "file_rest f"])
  next
    case False
    have "config_entries f' = text_entries r"
      using "1.hyps"(1) [OF g [symmetric] _ False]
        "1.hyps"(2) [OF g [symmetric] _ False] f'(3)
f'(2) by (cases "parse_config_line l") auto
    then show ?thesis using config_entries_skip [OF f'(1)] False g
      by (cases "parse_config_line l") (simp_all add: text_entries.simps [of "file_rest f"])
  qed
qed

text \<open>A file that has just been opened: its first block is all that is ever read of it.\<close>

definition load_chunk :: "PspFile \<Rightarrow> PspFile" where
  "load_chunk f = (let c = take MAX_BUFFER (hd (chunks f)) in f\<lparr>chunks := tl (chunks f),
     read_buf := c @ drop (length c) (read_buf f), read_size := length c, read_pos := 0\<rparr>)"

lemma fresh_file:
  assumes "read_size f = 0" "chunks f = c # cs" "c \<noteq> []"
  shows "file_ok (load_chunk f)" "file_rest (load_chunk f) = take MAX_BUFFER c"
    "fdgets f MAX_BUFFER = fdgets (load_chunk f) MAX_BUFFER"
proof -
  have c: "take MAX_BUFFER c \<noteq> []" using assms(3) by simp
  have n: "0 < length (take MAX_BUFFER c)" using assms(3) by simp
  show "file_ok (load_chunk f)" "file_rest (load_chunk f) = take MAX_BUFFER c"
    using assms n by (simp_all add: file_ok_def file_rest_def load_chunk_def Let_def min_def)
  have "fdgetc f = fdgetc (load_chunk f)"
    using assms c n by (simp add: fdgetc_def load_chunk_def Let_def del: take_eq_Nil length_take)
  then have "fdgets_loop (Suc n) f = fdgets_loop (Suc n) (load_chunk f)" for n by simp
  from this [of 4094] show "fdgets f MAX_BUFFER = fdgets (load_chunk f) MAX_BUFFER"
    by (simp add: fdgets_def del: fdgets_loop.simps)
qed

lemma config_entries_fresh:
  assumes "read_size f = 0" "chunks f = c # cs" "c \<noteq> []"
  shows "config_entries f = text_entries (take MAX_BUFFER c)"
proof -
  note F = fresh_file [OF assms]
  obtain l n f' where "fdgets (load_chunk f) MAX_BUFFER = (l, n, f')" by (metis prod_cases3)
  with config_entries_skip F(3) have "config_entries f = config_entries (load_chunk f)" by metis
  with config_entries_text [OF F(1)] F(2) show ?thesis by simp
qed

lemma config_entries_empty:
  assumes "read_size f = 0" "chunks f = []"
  shows "config_entries f = []"
proof -
  let ?f = "f\<lparr>chunks := [], read_size := 0, read_pos := 0\<rparr>"
  have "fdgetc f = (-1, ?f)" using assms by (simp add: fdgetc_def Let_def)
  then have "fdgets_loop (Suc n) f = ([], ?f)" for n by simp
  from this [of 4094] have "fdgets f MAX_BUFFER = ([], 0, ?f)" by (simp add: fdgets_def del: fdgets_loop.simps)
  then show ?thesis by (simp add: config_entries_skip)
qed

text \<open>What \<open>sceIoRead\<close> answers for a file that holds a text: its pieces of \<open>MAX_BUFFER\<close> bytes.\<close>

function file_blocks :: "string \<Rightarrow> string list" where
  "file_blocks s = (if s = [] then [] else take MAX_BUFFER s # file_blocks (drop MAX_BUFFER s))"
  by pat_completeness auto
termination by (relation "measure length") auto

declare file_blocks.simps [simp del]

text \<open>The entries that are read of a file: those of its first 4096 bytes.\<close>

lemma config_entries_file:
  assumes "psplinkConfigOpen fd (file_blocks text) = Some g"
  shows "config_entries g = text_entries (take MAX_BUFFER text)"
proof -
  have g: "read_size g = 0" "chunks g = file_blocks text"
    using assms by (auto simp: psplinkConfigOpen_def openfile_def split: if_splits)
  show ?thesis
  proof (cases "text = []")
    case True
    then show ?thesis using config_entries_empty [OF g(1)] g(2)
      by (simp add: file_blocks.simps text_entries.simps [of "[]"] numeral_eq_Suc)
  next
    case False
    then have "chunks g = take MAX_BUFFER text # file_blocks (drop MAX_BUFFER text)"
      using g(2) by (subst (asm) file_blocks.simps) simp
    from config_entries_fresh [OF g(1) this] False show ?thesis by simp
  qed
qed

section \<open>Written entries are read back\<close>

abbreviation QUOTE :: char where "QUOTE \<equiv> CHR 0x22"
abbreviation NEWLINE :: char where "NEWLINE \<equiv> CHR 0x0A"

definition plain :: "string \<Rightarrow> bool" where
  "plain s \<longleftrightarrow> no_nul s \<and> NEWLINE \<notin> set s \<and> CHR 0xFF \<notin> set s"

definition entry_ok :: "string \<times> string \<Rightarrow> bool" where
  "entry_ok e \<longleftrightarrow> plain (fst e) \<and> plain (snd e) \<and> QUOTE \<notin> set (snd e) \<and> CHR ''='' \<notin> set (fst e) \<and>
     fst e \<noteq> [] \<and> hd (fst e) \<noteq> CHR ''#'' \<and> \<not> is_aspace (hd (fst e)) \<and>
     length (fst e) + length (snd e) + 4 \<le> 4095"

lemma getline_line:
  "NEWLINE \<notin> set l \<Longrightarrow> CHR 0xFF \<notin> set l \<Longrightarrow> length l < n \<Longrightarrow>
   getline n (l @ NEWLINE # r) = (l @ [NEWLINE], r)"
proof (induction l arbitrary: n)
  case Nil
  then show ?case by (cases n) auto
next
  case (Cons c l)
  then obtain k where "n = Suc k" by (cases n) auto
  with Cons show ?case by auto
qed

lemma strip_whitesp_line:
  assumes "s \<noteq> []" "\<not> is_aspace (hd s)" "\<not> is_aspace (last s)"
  shows "strip_whitesp (s @ [NEWLINE]) = s"
proof -
  have "strip_end s = s" using assms(3) by (simp add: strip_end.simps)
  then have "strip_end (s @ [NEWLINE]) = s" by (simp add: strip_end.simps [of "s @ [NEWLINE]"])
  then show ?thesis using assms by (cases s) (simp_all add: strip_whitesp_def)
qed

lemma parse_config_line_back:
  assumes "entry_ok (name, val)"
  shows "parse_config_line (config_line name val) = Some (name, val)"
proof -
  let ?s = "name @ CHR ''='' # QUOTE # val @ [QUOTE]"
  have E: "no_nul name" "no_nul val" "QUOTE \<notin> set val" "CHR ''='' \<notin> set name" "name \<noteq> []"
    "hd name \<noteq> CHR ''#''" "\<not> is_aspace (hd name)" using assms by (auto simp: entry_ok_def plain_def)
  have "cstr (config_line name val) = ?s @ [NEWLINE]"
    using E(1,2) by (simp add: config_line_def cstr_no_nul)
  moreover have "strip_whitesp (?s @ [NEWLINE]) = ?s"
    using E by (intro strip_whitesp_line) (auto simp: is_aspace_def)
  moreover have "split_at (\<lambda>c. c = CHR ''='') ?s = Some (name, QUOTE # val @ [QUOTE])"
    using E(4) by (intro split_at_append) auto
  moreover have "split_at (\<lambda>c. c = QUOTE) (val @ [QUOTE]) = Some (val, [])"
    using E(3) by (intro split_at_append) auto
  moreover have "chead ?s \<noteq> CHR ''#''" using E(5,6) by (cases name) auto
  ultimately show ?thesis by (simp add: parse_config_line_def Let_def)
qed

definition config_text :: "(string \<times> string) list \<Rightarrow> string" where
  "config_text es = concat (map (\<lambda>e. config_line (fst e) (snd e)) es)"

lemma text_entries_back: "\<forall>e \<in> set es. entry_ok e \<Longrightarrow> text_entries (config_text es) = es"
proof (induction es)
  case Nil
  show ?case by (simp add: config_text_def text_entries.simps [of "[]"] numeral_eq_Suc)
next
  case (Cons e es)
  let ?l = "fst e @ CHR ''='' # QUOTE # snd e @ [QUOTE]"
  have ok: "entry_ok e" using Cons.prems by simp
  have t: "config_text (e # es) = ?l @ NEWLINE # config_text es"
    by (simp add: config_text_def config_line_def)
  have "getline 4095 (config_text (e # es)) = (?l @ [NEWLINE], config_text es)"
    unfolding t using ok by (intro getline_line) (auto simp: entry_ok_def plain_def)
  moreover have "parse_config_line (?l @ [NEWLINE]) = Some e"
    using parse_config_line_back [of "fst e" "snd e"] ok by (simp add: config_line_def)
  ultimately show ?case using Cons by (subst text_entries.simps) simp
qed

text \<open>The entries of the changed file, as a function of the old ones.\<close>

definition updated :: "string \<Rightarrow> string \<Rightarrow> nat \<Rightarrow> (string \<times> string) list \<Rightarrow> (string \<times> string) list" where
  "updated name val mode es =
     (if mode = CONFIG_MODE_ADD
      then map (\<lambda>e. if fst e = name then (name, val) else e) es
           @ (if name \<in> fst ` set es then [] else [(name, val)])
      else filter (\<lambda>e. fst e \<noteq> name) es)"

lemma change_entry_fold:
  "fold (change_entry name val mode) es (t, b) =
   (t @ config_text (if mode = CONFIG_MODE_ADD then map (\<lambda>e. if fst e = name then (name, val) else e) es
                     else filter (\<lambda>e. fst e \<noteq> name) es),
    b \<or> mode = CONFIG_MODE_ADD \<and> name \<in> fst ` set es)"
  by (induction es arbitrary: t b) (auto simp: change_entry_def config_text_def)

lemma configChange_text:
  "mode = CONFIG_MODE_ADD \<or> mode = CONFIG_MODE_DEL \<Longrightarrow>
   configChange True (Some f) True True name val mode = Replaced (config_text (updated name val mode (config_entries f)))"
  by (auto simp: configChange_def change_entry_fold updated_def config_text_def Let_def)

section \<open>Properties\<close>

text \<open>
  C28: Changing the configuration is what the user asked for: when \<open>configChange\<close> has replaced the
  file, reading the new file gives the old entries with the value replaced, added at the end, or
  removed. This holds for files of at most 4096 bytes, which is what the reader sees of a file, and for entries
  that a line can hold (\<open>entry_ok\<close>): names that are not empty, begin with neither a blank nor \<open>#\<close> and hold no \<open>=\<close>,
  values without a quote, neither with a NUL, a line end or the byte 0xFF, which the reader takes for the end, and
  both together at most 4091 characters long.
\<close>
theorem configChange_readback:
  assumes "mode = CONFIG_MODE_ADD \<or> mode = CONFIG_MODE_DEL"
    and "\<forall>e \<in> set (config_entries f). entry_ok e" and "entry_ok (name, val)"
    and "configChange True (Some f) True True name val mode = Replaced text"
    and "length text \<le> MAX_BUFFER" and "psplinkConfigOpen fd (file_blocks text) = Some g"
  shows "config_entries g = updated name val mode (config_entries f)"
proof -
  have t: "text = config_text (updated name val mode (config_entries f))"
    using assms(4) configChange_text [OF assms(1)] by simp
  have "\<forall>e \<in> set (updated name val mode (config_entries f)). entry_ok e"
    using assms(2,3) by (auto simp: updated_def split: if_splits)
  from text_entries_back [OF this] have "text_entries text = updated name val mode (config_entries f)"
    by (simp add: t)
  then show ?thesis using config_entries_file [OF assms(6)] assms(5) by simp
qed

definition example_conf :: PspFile where
  "example_conf = the (psplinkConfigOpen 3 [config_text [(''baud'', ''9600'')]])"

lemma example_conf_entries: "config_entries example_conf = [(''baud'', ''9600'')]"
proof -
  have "config_entries example_conf = text_entries (take MAX_BUFFER (config_text [(''baud'', ''9600'')]))"
    by (rule config_entries_fresh [where cs = "[]"])
      (simp_all add: example_conf_def psplinkConfigOpen_def openfile_def config_text_def config_line_def)
  also have "\<dots> = text_entries (config_text [(''baud'', ''9600'')])" by (simp add: config_text_def config_line_def)
  also have "\<dots> = [(''baud'', ''9600'')]"
    by (intro text_entries_back) (simp add: entry_ok_def plain_def is_aspace_def)
  finally show ?thesis .
qed

theorem configChange_readback_witness:
  "config_entries (the (psplinkConfigOpen 3
     [config_text [(''baud'', ''9600''), (''prompt'', ''x > '')]])) = [(''baud'', ''9600''), (''prompt'', ''x > '')]"
proof -
  let ?text = "config_text [(''baud'', ''9600''), (''prompt'', ''x > '')]"
  have "configChange True (Some example_conf) True True ''prompt'' ''x > '' CONFIG_MODE_ADD = Replaced ?text"
    using configChange_text [of CONFIG_MODE_ADD example_conf] by (simp add: example_conf_entries updated_def)
  moreover have "length ?text \<le> MAX_BUFFER" by (simp add: config_text_def config_line_def)
  moreover have "file_blocks ?text = [?text]"
    by (simp add: config_text_def config_line_def file_blocks.simps)
  ultimately show ?thesis
    using configChange_readback [of CONFIG_MODE_ADD example_conf "''prompt''" "''x > ''" ?text 3
        "the (psplinkConfigOpen 3 (file_blocks ?text))"]
    by (simp add: example_conf_entries entry_ok_def plain_def is_aspace_def updated_def
        psplinkConfigOpen_def openfile_def)
qed

text \<open>
  A loaded configuration is well formed whatever the file holds: every string fits its buffer,
  the baud rate is one the serial port accepts (or unset), and some shell is enabled.
\<close>
theorem configLoad_ok:
  "ctx_ok (fst (configLoad file)) \<and>
   (0 < usbshell (fst (configLoad file)) \<or> 0 < wifishell (fst (configLoad file))
    \<or> sioshell (fst (configLoad file)) = 1)"
proof -
  have z: "ctx_ok config_zero" by (simp add: ctx_ok_def config_zero_def valid_bauds_def)
  have "ctx_ok (fst (case file of None \<Rightarrow> (config_zero, [])
      | Some f \<Rightarrow> fold (\<lambda>(name, val). apply_config config_names name val) (config_entries f) (config_zero, [])))"
    using entries_ok [of "(config_zero, [])"] z by (simp split: option.splits)
  then show ?thesis by (auto simp: configLoad_def Let_def on_ctx_def ctx_ok_def word_gt_0)
qed

end
