(* ===== verification/Script.thy ===== *)
theory Script
  imports CLib
begin

text \<open>
  Shell scripts, \<open>psplink/script.c\<close>: the replacement of \<open>$n\<close> by the script's arguments and of \<open>$!\<close>
  by the last loaded module, and the loop over the lines. The command interpreter \<open>shellParse\<close> is
  an argument that threads the shell's state.
\<close>

section \<open>Arguments\<close>

definition is_num :: "char \<Rightarrow> bool" where
  "is_num ch \<longleftrightarrow> ccode (CHR ''0'') \<le> ccode ch \<and> ccode ch \<le> ccode (CHR ''9'')"

text \<open>The digits collected into \<open>num\<close>, at most 15, and the number they mean.\<close>

fun take_digits :: "nat \<Rightarrow> string \<Rightarrow> string \<times> string" where
  "take_digits (Suc n) (c # line) =
     (if is_num c then let (ds, r) = take_digits n line in (c # ds, r) else ([], c # line))"
| "take_digits n line = ([], line)"

definition c_atoi :: "string \<Rightarrow> int" where
  "c_atoi ds = fold (\<lambda>c n. n * 10 + int (ccode c - ccode (CHR ''0''))) ds 0"

text \<open>A copy loop: as much of the string as fits into the buffer.\<close>

definition copy_bounded :: "string \<Rightarrow> string \<Rightarrow> string" where
  "copy_bounded tmpbuf s = tmpbuf @ take (MAX_BUFFER - 1 - length tmpbuf) s"

lemma take_digits_length: "take_digits n line = (ds, r) \<Longrightarrow> length ds + length r = length line"
  by (induction n line arbitrary: ds r rule: take_digits.induct) (auto split: if_splits prod.splits)

text \<open>
  The loop of \<open>process_arguments\<close> on what is left of the line's array: the string, its NUL, and what
  the array holds behind it, which the code can reach after a final \<open>$\<close>. The result is the
  contents of \<open>tmpbuf\<close>. A number too large for an \<open>int\<close> is no argument either way.
\<close>

function process_loop :: "string list option \<Rightarrow> string option \<Rightarrow> string \<Rightarrow> string \<Rightarrow> string" where
  "process_loop argv lastmod line tmpbuf =
     (if line \<noteq> [] \<and> hd line \<noteq> CHR 0x00 \<and> length tmpbuf < MAX_BUFFER - 1 then
        (if hd line = CHR ''$'' then
           let line = tl line in
           if is_num (chead line) then
             let (num, rest) = take_digits 15 line; val = c_atoi num
             in process_loop argv lastmod rest
                  (case argv of Some as \<Rightarrow> if val < int (length as) then copy_bounded tmpbuf (as ! nat val) else tmpbuf
                   | None \<Rightarrow> tmpbuf)
           else if chead line = CHR ''!'' then
             process_loop argv lastmod (tl line)
               (case lastmod of Some str \<Rightarrow> copy_bounded tmpbuf str | None \<Rightarrow> tmpbuf)
           else process_loop argv lastmod (tl line) (tmpbuf @ [chead line])
         else process_loop argv lastmod (tl line) (tmpbuf @ [hd line]))
      else tmpbuf)"
  by pat_completeness auto
termination
proof (relation "measure (\<lambda>(argv, lastmod, line, tmpbuf). length line)", goal_cases)
  case (2 argv lastmod line tmpbuf line' r num rest val)
  then show ?case using take_digits_length [of 15 line' num rest] by (cases line) auto
qed (auto simp: neq_Nil_conv less_Suc_eq_le)

declare process_loop.simps [simp del]

definition process_arguments :: "string \<Rightarrow> string list option \<Rightarrow> string option \<Rightarrow> string" where
  "process_arguments line argv lastmod = cstr (process_loop argv lastmod line [])"

section \<open>Running a script\<close>

abbreviation CMD_EXITSHELL :: int where "CMD_EXITSHELL \<equiv> 1"
abbreviation CMD_OK :: int where "CMD_OK \<equiv> 0"
abbreviation CMD_ERROR :: int where "CMD_ERROR \<equiv> -1"

text \<open>
  The loop of \<open>scriptRun\<close>. \<open>stale i\<close> is what the line buffer holds behind the NUL of line \<open>i\<close>. The lines
  echoed are returned with the result.
\<close>

function script_loop :: "(string \<Rightarrow> 's \<Rightarrow> int \<times> 's) \<Rightarrow> string list option \<Rightarrow> string option
    \<Rightarrow> (nat \<Rightarrow> string) \<Rightarrow> PspFile \<Rightarrow> nat \<Rightarrow> bool \<Rightarrow> int \<Rightarrow> 's \<Rightarrow> int \<times> (nat \<times> string) list \<times> 's" where
  "script_loop shellParse argv lastmod stale file i pr ret s =
     (let (line, n, file') = fdgets file 1024 in
      if n = 0 then (ret, [], s)
      else let i = i + 1; line = strip_whitesp (cstr line) in
      if line = ''echo on'' then script_loop shellParse argv lastmod stale file' i True ret s
      else if line = ''echo off'' then script_loop shellParse argv lastmod stale file' i False ret s
      else let line = process_arguments (line @ CHR 0x00 # stale i) argv lastmod;
               echo = (if pr then [(i, line)] else []);
               (ret, s') = shellParse line s
           in if ret \<noteq> CMD_OK then (ret, echo, s')
              else let (r, es, s'') = script_loop shellParse argv lastmod stale file' i pr ret s'
                   in (r, echo @ es, s''))"
  by pat_completeness auto
termination
  by (relation "measure (\<lambda>(sp, argv, lastmod, stale, file, i, pr, ret, s). file_left file)")
    (auto dest!: fdgets_left [OF sym])

declare script_loop.simps [simp del]

definition scriptRun :: "(string \<Rightarrow> 's \<Rightarrow> int \<times> 's) \<Rightarrow> PspFile option \<Rightarrow> string list option \<Rightarrow> string option
    \<Rightarrow> (nat \<Rightarrow> string) \<Rightarrow> bool \<Rightarrow> 's \<Rightarrow> int \<times> (nat \<times> string) list \<times> 's" where
  "scriptRun shellParse file argv lastmod stale pr s =
     (case file of None \<Rightarrow> (CMD_OK, [], s)
      | Some f \<Rightarrow> script_loop shellParse argv lastmod stale f 0 pr CMD_OK s)"

section \<open>What the replacement means\<close>

text \<open>The reference: the whole string, without a bound on the result.\<close>

function expand :: "string list option \<Rightarrow> string option \<Rightarrow> string \<Rightarrow> string" where
  "expand argv lastmod [] = []"
| "expand argv lastmod (c # s) =
     (if c \<noteq> CHR ''$'' then c # expand argv lastmod s
      else if is_num (chead s) then
        let (num, rest) = take_digits 15 s; val = c_atoi num
        in (case argv of Some as \<Rightarrow> if val < int (length as) then as ! nat val else [] | None \<Rightarrow> [])
           @ expand argv lastmod rest
      else (case s of [] \<Rightarrow> []
            | d # t \<Rightarrow> (if d = CHR ''!'' then (case lastmod of Some m \<Rightarrow> m | None \<Rightarrow> []) else [d])
                      @ expand argv lastmod t))"
  by pat_completeness auto
termination
  by (relation "measure (\<lambda>(argv, lastmod, s). length s)")
    (auto dest!: take_digits_length [OF sym] simp: less_diff_conv le_imp_less_Suc)

declare expand.simps [simp del]
lemma expand_Nil [simp]: "expand argv lastmod [] = []"
  by (rule expand.simps)

lemma take_digits_nul: "take_digits n (s @ CHR 0x00 # t) =
    (fst (take_digits n s), snd (take_digits n s) @ CHR 0x00 # t)"
proof (induction n arbitrary: s)
  case (Suc n)
  then show ?case by (cases s) (auto simp: is_num_def split: prod.splits)
qed simp

lemma take_digits_no_nul: "take_digits n s = (ds, r) \<Longrightarrow> no_nul s \<Longrightarrow> no_nul r"
  by (induction n s arbitrary: ds r rule: take_digits.induct) (auto split: if_splits prod.splits)

lemma cstr_append: "no_nul a \<Longrightarrow> cstr (a @ b) = a @ cstr b"
  unfolding cstr_def no_nul_def by (subst takeWhile_append2) auto

lemma copy_bounded_take: "length out \<le> 4095 \<Longrightarrow> copy_bounded out s = take 4095 (out @ s)"
  by (simp add: copy_bounded_def)

lemma process_loop_extends: "\<exists>x. process_loop argv lastmod line out = out @ x"
proof (induction argv lastmod line out rule: process_loop.induct)
  case (1 argv lastmod line out)
  obtain num rest where d: "take_digits 15 (tl line) = (num, rest)" by fastforce
  have c: "\<exists>x. (case argv of None \<Rightarrow> out | Some as \<Rightarrow> if c_atoi num < int (length as)
      then copy_bounded out (as ! nat (c_atoi num)) else out) = out @ x"
    "\<exists>x. (case lastmod of None \<Rightarrow> out | Some str \<Rightarrow> copy_bounded out str) = out @ x"
    by (auto simp: copy_bounded_def split: option.splits)
  show ?case
  proof (cases "line \<noteq> [] \<and> hd line \<noteq> CHR 0x00 \<and> length out < MAX_BUFFER - 1")
    case go: True
    show ?thesis
      using "1.IH"(1) [OF go _ refl _ d [symmetric] refl] "1.IH"(2) [OF go _ refl]
        "1.IH"(3) [OF go _ refl] "1.IH"(4) [OF go] go c d
      by (subst process_loop.simps) (simp add: Let_def, metis append.assoc)
  next
    case False
    then show ?thesis by (subst process_loop.simps) auto
  qed
qed

lemma process_loop_expand:
  assumes "\<forall>as. argv = Some as \<longrightarrow> (\<forall>a \<in> set as. no_nul a)" "\<forall>m. lastmod = Some m \<longrightarrow> no_nul m"
  shows "no_nul s \<Longrightarrow> no_nul out \<Longrightarrow> length out \<le> 4095 \<Longrightarrow>
    cstr (process_loop argv lastmod (s @ CHR 0x00 # t) out) = take 4095 (out @ expand argv lastmod s)"
  using assms
proof (induction argv lastmod s arbitrary: out rule: expand.induct)
  case (1 argv lastmod)
  then show ?case by (simp add: process_loop.simps cstr_no_nul)
next
  case (2 argv lastmod c s)
  note hyps = "2.prems"
  let ?line = "(c # s) @ CHR 0x00 # t"
  show ?case
  proof (cases "length out < 4095")
    case False
    then show ?thesis using hyps by (subst process_loop.simps) (simp add: cstr_no_nul)
  next
    case go: True
    have P: "process_loop argv lastmod ?line out =
      (if c = CHR ''$'' then
         if is_num (chead (s @ CHR 0x00 # t)) then
           process_loop argv lastmod (snd (take_digits 15 (s @ CHR 0x00 # t)))
             (case argv of Some as \<Rightarrow> if c_atoi (fst (take_digits 15 (s @ CHR 0x00 # t))) < int (length as)
                then copy_bounded out (as ! nat (c_atoi (fst (take_digits 15 (s @ CHR 0x00 # t))))) else out
              | None \<Rightarrow> out)
         else if chead (s @ CHR 0x00 # t) = CHR ''!'' then
           process_loop argv lastmod (tl (s @ CHR 0x00 # t))
             (case lastmod of Some str \<Rightarrow> copy_bounded out str | None \<Rightarrow> out)
         else process_loop argv lastmod (tl (s @ CHR 0x00 # t)) (out @ [chead (s @ CHR 0x00 # t)])
       else process_loop argv lastmod (s @ CHR 0x00 # t) (out @ [c]))"
      using go hyps(1) by (subst process_loop.simps) (simp add: Let_def split_beta)
    consider "c \<noteq> CHR ''$''" | "c = CHR ''$''" "is_num (chead s)" | "c = CHR ''$''" "s = []"
      | d u where "c = CHR ''$''" "s = d # u" "\<not> is_num d"
      by (cases s) auto
    then show ?thesis
    proof cases
      case 1
      then show ?thesis using "2.IH"(1) [OF 1, of "out @ [c]"] P go hyps
        by (simp add: expand.simps(2))
    next
      case 2
      obtain num rest where d: "take_digits 15 s = (num, rest)" by fastforce
      have e: "chead (s @ CHR 0x00 # t) = chead s" using 2(2) by (cases s) (auto simp: is_num_def)
      define v where "v = (case argv of Some as \<Rightarrow> if c_atoi num < int (length as)
          then as ! nat (c_atoi num) else [] | None \<Rightarrow> [])"
      have "0 \<le> fold (\<lambda>c n. n * 10 + int (ccode c - ccode (CHR ''0''))) xs n" if "0 \<le> n" for xs and n :: int
        using that by (induction xs arbitrary: n) auto
      then have "0 \<le> c_atoi num" unfolding c_atoi_def by blast
      then have v: "no_nul v" using hyps(4) by (auto simp: v_def split: option.splits)
      have o: "(case argv of Some as \<Rightarrow> if c_atoi num < int (length as)
          then copy_bounded out (as ! nat (c_atoi num)) else out | None \<Rightarrow> out) = take 4095 (out @ v)"
        using hyps(3) by (auto simp: v_def copy_bounded_take split: option.splits)
      have n: "no_nul (take 4095 (out @ v))" using hyps(2) v by (auto simp: no_nul_def dest: in_set_takeD)
      have "cstr (process_loop argv lastmod (rest @ CHR 0x00 # t) (take 4095 (out @ v))) =
          take 4095 (take 4095 (out @ v) @ expand argv lastmod rest)"
        using "2.IH"(2) [OF _ 2(2) d [symmetric] refl refl _ n _ hyps(4,5)] take_digits_no_nul [OF d] hyps(1) 2(1)
        by simp
      also have "\<dots> = take 4095 (out @ v @ expand argv lastmod rest)"
        by (simp add: min_def)
      finally have r: "cstr (process_loop argv lastmod (rest @ CHR 0x00 # t) (take 4095 (out @ v))) =
          take 4095 (out @ v @ expand argv lastmod rest)" .
      have td: "take_digits 15 (s @ CHR 0x00 # t) = (num, rest @ CHR 0x00 # t)"
        by (simp add: take_digits_nul d)
      have "process_loop argv lastmod ?line out =
          process_loop argv lastmod (rest @ CHR 0x00 # t) (take 4095 (out @ v))"
        using 2 P e unfolding td fst_conv snd_conv o by simp
      moreover have "expand argv lastmod (c # s) = v @ expand argv lastmod rest"
        using 2 d by (simp add: expand.simps(2) v_def Let_def)
      ultimately show ?thesis using r by simp
    next
      case 3
      obtain x where x: "process_loop argv lastmod t (out @ [CHR 0x00]) = (out @ [CHR 0x00]) @ x"
        using process_loop_extends by blast
      have "cstr ((out @ [CHR 0x00]) @ x) = out" using hyps(2)
        by (simp add: cstr_append) (simp add: cstr_def)
      with 3 P x go show ?thesis by (simp add: expand.simps(2) is_num_def)
    next
      case 4
      define v where "v = (if d = CHR ''!'' then (case lastmod of Some m \<Rightarrow> m | None \<Rightarrow> []) else [d])"
      have v: "no_nul v" using hyps(1,5) 4 by (auto simp: v_def split: option.splits)
      have o: "process_loop argv lastmod ?line out = process_loop argv lastmod (u @ CHR 0x00 # t) (take 4095 (out @ v))"
        using 4 P go hyps(3) by (auto simp: v_def copy_bounded_take split: option.splits)
      have n: "no_nul (take 4095 (out @ v))" using hyps(2) v by (auto simp: no_nul_def dest: in_set_takeD)
      have "cstr (process_loop argv lastmod (u @ CHR 0x00 # t) (take 4095 (out @ v))) =
          take 4095 (take 4095 (out @ v) @ expand argv lastmod u)"
        using "2.IH"(3) [OF _ _ 4(2) _ n _ hyps(4,5)] hyps(1) 4 by simp
      also have "\<dots> = take 4095 (out @ v @ expand argv lastmod u)" by (simp add: min_def)
      finally show ?thesis using 4 o by (simp add: expand.simps(2) v_def [symmetric])
    qed
  qed
qed

section \<open>Properties\<close>

text \<open>
  Argument replacement computes the replaced line, cut at the buffer's 4095 characters, whatever
  the line's array holds behind its NUL: \<open>$n\<close> gives argument \<open>n\<close> or nothing, \<open>$!\<close> the last module or
  nothing, \<open>$\<close> before any other character that character.
\<close>
theorem process_arguments_expand:
  assumes "no_nul s" and "\<forall>as. argv = Some as \<longrightarrow> (\<forall>a \<in> set as. no_nul a)"
    and "\<forall>m. lastmod = Some m \<longrightarrow> no_nul m"
  shows "process_arguments (s @ CHR 0x00 # stale) argv lastmod = take 4095 (expand argv lastmod s)"
  using process_loop_expand [OF assms(2,3,1), of "[]" stale] by (simp add: process_arguments_def)

theorem process_arguments_expand_witness:
  "process_arguments (''run $1 $$ $! $9$'' @ CHR 0x00 # ''old'') (Some [''x.sh'', ''a b'']) (Some ''mod'')
     = ''run a b $ mod ''"
proof -
  have "expand (Some [''x.sh'', ''a b'']) (Some ''mod'') ''run $1 $$ $! $9$'' = ''run a b $ mod ''"
    by code_simp
  with process_arguments_expand [of "''run $1 $$ $! $9$''" "Some [''x.sh'', ''a b'']" "Some ''mod''" "''old''"]
  show ?thesis by simp
qed

end
