(* ===== verification/MemMap.thy ===== *)
theory MemMap
  imports CLib
begin

text \<open>
  \<open>psplink/decodeaddr.c\<close>: the memory map that guards every access the shell and the debugger make
  (\<open>memValidate\<close>), and the evaluator of address expressions typed by the user (\<open>memDecode\<close>).

  Registers, modules, threads and symbols are looked up in other parts of the program or in the
  kernel; the lookups are the fields of the record \<open>lookups\<close>.
\<close>

section \<open>Memory regions\<close>

record mem_entry =
  m_addr :: u32
  m_size :: u32
  m_attrib :: u32
  m_v1only :: bool

abbreviation MEM_ATTRIB_READ :: u32 where "MEM_ATTRIB_READ \<equiv> 1"
abbreviation MEM_ATTRIB_WRITE :: u32 where "MEM_ATTRIB_WRITE \<equiv> 2"
abbreviation MEM_ATTRIB_EXEC :: u32 where "MEM_ATTRIB_EXEC \<equiv> 4"
abbreviation MEM_ATTRIB_BYTE :: u32 where "MEM_ATTRIB_BYTE \<equiv> 8"
abbreviation MEM_ATTRIB_HALF :: u32 where "MEM_ATTRIB_HALF \<equiv> 16"
abbreviation MEM_ATTRIB_WORD :: u32 where "MEM_ATTRIB_WORD \<equiv> 32"
abbreviation MEM_ATTRIB_ALL :: u32 where "MEM_ATTRIB_ALL \<equiv> 0xFFFFFFFF"

definition entry :: "u32 \<Rightarrow> u32 \<Rightarrow> bool \<Rightarrow> mem_entry" where
  "entry a n v1 = \<lparr>m_addr = a, m_size = n, m_attrib = MEM_ATTRIB_ALL, m_v1only = v1\<rparr>"

text \<open>Sizes in bytes: 16K, 2M, 24M, 4M and 1M.\<close>

definition g_memareas :: "mem_entry list" where
  "g_memareas =
    [entry 0x00010000 0x4000 False, entry 0x40010000 0x4000 False,
     entry 0x04000000 0x200000 False, entry 0x44000000 0x200000 False,
     entry 0x08800000 0x1800000 False, entry 0x48800000 0x1800000 False,
     entry 0x88000000 0x400000 False, entry 0xA8000000 0x400000 False,
     entry 0x88400000 0x400000 True, entry 0xC8400000 0x400000 True,
     entry 0x88800000 0x1800000 False, entry 0xA8800000 0x1800000 False,
     entry 0xBFC00000 0x100000 False]"

definition in_entry :: "mem_entry \<Rightarrow> u32 \<Rightarrow> bool" where
  "in_entry e a \<longleftrightarrow> m_addr e \<le> a \<and> a < m_addr e + m_size e"

text \<open>The scan of the table: the first region that holds the address decides.\<close>

fun validate_scan :: "bool \<Rightarrow> mem_entry list \<Rightarrow> u32 \<Rightarrow> u32 \<Rightarrow> nat" where
  "validate_scan isv1 [] a attrib = 0"
| "validate_scan isv1 (e # es) a attrib =
     (if in_entry e a then
        (if m_attrib e AND attrib = attrib \<and> (\<not> m_v1only e \<or> isv1)
         then unat (m_size e) - unat (a - m_addr e) else 0)
      else validate_scan isv1 es a attrib)"

definition memValidate_in :: "mem_entry list \<Rightarrow> bool \<Rightarrow> bool \<Rightarrow> u32 \<Rightarrow> u32 \<Rightarrow> nat" where
  "memValidate_in table isv1 protoff a attrib =
     (let size_left = validate_scan isv1 table a attrib
      in if protoff \<and> size_left = 0 then 4 else size_left)"

definition memValidate :: "bool \<Rightarrow> bool \<Rightarrow> u32 \<Rightarrow> u32 \<Rightarrow> nat" where
  "memValidate isv1 protoff a attrib = memValidate_in g_memareas isv1 protoff a attrib"

text \<open>The regions printed by \<open>memPrintRegions\<close>.\<close>

definition memPrintRegions :: "bool \<Rightarrow> (nat \<times> u32 \<times> u32) list" where
  "memPrintRegions isv1 =
     map (\<lambda>(i, e). (i, m_addr e, m_size e))
       (filter (\<lambda>(i, e). \<not> m_v1only e \<or> isv1)
         (zip [0..<length g_memareas] (takeWhile (\<lambda>e. m_addr e \<noteq> 0) g_memareas)))"

definition memSetProtoff :: "bool \<Rightarrow> bool \<Rightarrow> bool" where
  "memSetProtoff old protoff = protoff"

section \<open>Operators\<close>

datatype Operator = OP_START | OP_NONE | OP_PLUS | OP_MINUS | OP_AND | OP_OR | OP_XOR | OP_SHL | OP_SHR
  | OP_LAND | OP_LOR | OP_NEQ | OP_EQ | OP_LT | OP_LEQ | OP_GT | OP_GEQ | OP_MUL | OP_DIV

definition of_bool32 :: "bool \<Rightarrow> u32" where
  "of_bool32 b = (if b then 1 else 0)"

text \<open>
  A shift by 32 or more is undefined in C; \<open>wide_shl\<close> and \<open>wide_shr\<close> are what the machine does then.
\<close>

record machine =
  wide_shl :: "u32 \<Rightarrow> u32 \<Rightarrow> u32"
  wide_shr :: "u32 \<Rightarrow> u32 \<Rightarrow> u32"

definition do_op :: "'m machine_scheme \<Rightarrow> Operator \<Rightarrow> nat \<Rightarrow> u32 \<Rightarrow> u32 \<Rightarrow> u32" where
  "do_op mc op n left right =
     (let right = ((NOT) ^^ n) right in
      case op of
        OP_PLUS \<Rightarrow> left + right
      | OP_MINUS \<Rightarrow> left - right
      | OP_AND \<Rightarrow> left AND right
      | OP_OR \<Rightarrow> left OR right
      | OP_XOR \<Rightarrow> left XOR right
      | OP_SHL \<Rightarrow> if right < 32 then push_bit (unat right) left else wide_shl mc left right
      | OP_SHR \<Rightarrow> if right < 32 then drop_bit (unat right) left else wide_shr mc left right
      | OP_LAND \<Rightarrow> of_bool32 (left \<noteq> 0 \<and> right \<noteq> 0)
      | OP_LOR \<Rightarrow> of_bool32 (left \<noteq> 0 \<or> right \<noteq> 0)
      | OP_NEQ \<Rightarrow> of_bool32 (left \<noteq> right)
      | OP_EQ \<Rightarrow> of_bool32 (left = right)
      | OP_LT \<Rightarrow> of_bool32 (left < right)
      | OP_GT \<Rightarrow> of_bool32 (left > right)
      | OP_LEQ \<Rightarrow> of_bool32 (left \<le> right)
      | OP_GEQ \<Rightarrow> of_bool32 (left \<ge> right)
      | OP_MUL \<Rightarrow> left * right
      | OP_DIV \<Rightarrow> if right \<noteq> 0 then left div right else 1
      | _ \<Rightarrow> right)"

section \<open>Names\<close>

record module_info =
  text_addr :: u32
  text_size :: u32
  data_size :: u32
  bss_size :: u32
  segments :: "(u32 \<times> u32) list"

text \<open>
  What expressions look up. \<open>find_module\<close> and \<open>refer_module\<close> are the kernel's (the information of an
  unknown module is all zero, see \<open>psplinkReferModule\<close>); \<open>export_by_nid\<close> and \<open>export_by_name\<close> are those of
  \<open>libs.c\<close>; \<open>thread_by_name\<close> and \<open>refer_thread\<close> the kernel's (entry, stack and stack size); \<open>symbol\<close>
  is \<open>symbolFindByName\<close> (0 for none, with the symbol's size); \<open>get_reg\<close> is \<open>exceptionGetReg\<close>.
\<close>

record lookups = machine +
  find_module :: "string \<Rightarrow> u32 option"
  refer_module :: "u32 \<Rightarrow> module_info"
  export_by_nid :: "u32 \<Rightarrow> string \<Rightarrow> u32 \<Rightarrow> u32"
  export_by_name :: "u32 \<Rightarrow> string \<Rightarrow> string \<Rightarrow> u32"
  thread_by_name :: "string \<Rightarrow> u32 option"
  refer_thread :: "u32 \<Rightarrow> (u32 \<times> u32 \<times> u32) option"
  symbol :: "string \<Rightarrow> u32 \<times> u32"
  get_reg :: "string \<Rightarrow> u32 option"
  memory :: mem
  isv1 :: bool
  protoff :: bool

text \<open>\<open>strchr\<close> with the separator overwritten by a NUL: what precedes it, what follows if it is there.\<close>

definition cut :: "char \<Rightarrow> string \<Rightarrow> string \<times> string option" where
  "cut c s = (case split_at (\<lambda>x. x = c) s of None \<Rightarrow> (s, None) | Some (a, b) \<Rightarrow> (a, Some b))"

text \<open>A segment number, \<open>1\<close> to \<open>4\<close>.\<close>

definition segment_id :: "string \<Rightarrow> nat option" where
  "segment_id s = (case s of [d] \<Rightarrow> if ccode (CHR ''1'') \<le> ccode d \<and> ccode d \<le> ccode (CHR ''4'')
                                    then Some (ccode d - ccode (CHR ''1'')) else None
                   | _ \<Rightarrow> None)"

definition get_modaddr :: "'m lookups_scheme \<Rightarrow> string \<Rightarrow> u32 option" where
  "get_modaddr env name =
     (let (name, pcolon) = cut (CHR '':'') name;
          uid = (case find_module env name of Some uid \<Rightarrow> Some uid
                 | None \<Rightarrow> let (uid, endp) = strtoul16 name in if endp \<noteq> [] then None else Some uid)
      in case uid of None \<Rightarrow> None
      | Some uid \<Rightarrow>
        (let info = refer_module env uid in
         case pcolon of None \<Rightarrow> Some (text_addr info)
         | Some ext \<Rightarrow>
           if ext = ''text'' then Some (text_addr info)
           else if ext = ''stext'' then Some (text_size info)
           else if ext = ''sdata'' then Some (data_size info)
           else if ext = ''sbss'' then Some (bss_size info)
           else case cut (CHR '','') ext of
             (lib, Some func) \<Rightarrow>
               if take 2 func = ''0x'' then Some (export_by_nid env uid lib (fst (strtoul16 func)))
               else Some (export_by_name env uid lib func)
           | (_, None) \<Rightarrow>
               if chead ext = CHR ''s'' \<and> segment_id (tl ext) \<noteq> None then
                 let i = the (segment_id (tl ext))
                 in Some (if i < length (segments info) then snd (segments info ! i) else 0)
               else if segment_id ext \<noteq> None then
                 let i = the (segment_id ext)
                 in Some (if i < length (segments info) then fst (segments info ! i) else 0)
               else None))"

definition get_threadaddr :: "'m lookups_scheme \<Rightarrow> string \<Rightarrow> u32 option" where
  "get_threadaddr env name =
     (let (name, pcolon) = cut (CHR '':'') name;
          uid = (case thread_by_name env name of Some uid \<Rightarrow> Some uid
                 | None \<Rightarrow> let (uid, endp) = strtoul16 name in if endp \<noteq> [] then None else Some uid)
      in case uid of None \<Rightarrow> None
      | Some uid \<Rightarrow>
         (case refer_thread env uid of None \<Rightarrow> None
          | Some (ent, stack, stackSize) \<Rightarrow>
             (case pcolon of None \<Rightarrow> Some ent
              | Some ext \<Rightarrow> if ext = ''stack'' then Some stack
                            else if ext = ''sstack'' then Some stackSize else None)))"

text \<open>\<open>deref_addr\<close>: that many loads, each of an aligned valid word.\<close>

fun deref_addr :: "'m lookups_scheme \<Rightarrow> u32 \<Rightarrow> nat \<Rightarrow> u32 option" where
  "deref_addr env val 0 = Some val"
| "deref_addr env val (Suc n) =
     (if val AND 3 \<noteq> 0 then None
      else if memValidate (isv1 env) (protoff env) val (MEM_ATTRIB_READ OR MEM_ATTRIB_WORD) < 4 then None
      else deref_addr env (lw (memory env) val) n)"

section \<open>Expressions\<close>

text \<open>The text up to the bracket that closes the one already open.\<close>

fun close_bracket :: "nat \<Rightarrow> string \<Rightarrow> (string \<times> string) option" where
  "close_bracket depth [] = None"
| "close_bracket depth (c # s) =
     (if c = CHR '')'' \<and> depth = 1 then Some ([], s)
      else map_option (\<lambda>(a, b). (c # a, b))
        (close_bracket (if c = CHR ''('' then depth + 1 else if c = CHR '')'' then depth - 1 else depth) s))"

text \<open>What the head of the line is; the scan stops at a word of an operand, never inside.\<close>

datatype turn =
    Skip string | Deref string | Invert string
  | Operand u32 string | Bracket string string | Oper Operator string | Bad

text \<open>The operator at the head of the line.\<close>

definition operator_at :: "string \<Rightarrow> (Operator \<times> string) option" where
  "operator_at line =
     (let c = hd line; r = tl line; d = chead r in
      if c = CHR ''+'' then Some (OP_PLUS, r)
      else if c = CHR ''-'' then Some (OP_MINUS, r)
      else if c = CHR ''&'' then (if d = CHR ''&'' then Some (OP_LAND, tl r) else Some (OP_AND, r))
      else if c = CHR ''|'' then (if d = CHR ''|'' then Some (OP_LOR, tl r) else Some (OP_OR, r))
      else if c = CHR ''^'' then Some (OP_XOR, r)
      else if c = CHR ''='' then (if d = CHR ''='' then Some (OP_EQ, tl r) else None)
      else if c = CHR ''!'' then (if d = CHR ''='' then Some (OP_NEQ, tl r) else None)
      else if c = CHR ''<'' then
        (if d = CHR ''<'' then Some (OP_SHL, tl r) else if d = CHR ''='' then Some (OP_LEQ, tl r) else Some (OP_LT, r))
      else if c = CHR ''>'' then
        (if d = CHR ''>'' then Some (OP_SHR, tl r) else if d = CHR ''='' then Some (OP_GEQ, tl r) else Some (OP_GT, r))
      else if c = CHR ''*'' then Some (OP_MUL, r)
      else if c = CHR ''/'' then Some (OP_DIV, r)
      else None)"

text \<open>The symbol lookup between question marks; a backquote asks for the size.\<close>

definition symbol_value :: "'m lookups_scheme \<Rightarrow> string \<Rightarrow> u32 option" where
  "symbol_value env name =
     (let getsize = (chead name = CHR 0x60); name = (if getsize then tl name else name);
          (temp, sz) = symbol env name
      in if temp = 0 then None else if getsize then Some sz else Some temp)"

definition name_operand :: "(string \<Rightarrow> u32 option) \<Rightarrow> char \<Rightarrow> string \<Rightarrow> turn" where
  "name_operand lookup q r =
     (case split_at (\<lambda>x. x = q) r of None \<Rightarrow> Bad
      | Some (name, rest) \<Rightarrow> (case lookup name of None \<Rightarrow> Bad | Some temp \<Rightarrow> Operand temp rest))"

definition line_turn :: "'m lookups_scheme \<Rightarrow> Operator \<Rightarrow> string \<Rightarrow> turn" where
  "line_turn env op line =
     (let c = hd line; r = tl line in
      if is_aspace c then Skip r
      else if c = CHR ''*'' \<and> (op = OP_START \<or> op \<noteq> OP_NONE) then Deref r
      else if c = CHR ''~'' then Invert r
      else if c = CHR ''$'' then
        (let buf = takeWhile is_alnum (take 15 r)
         in case get_reg env buf of None \<Rightarrow> Bad | Some temp \<Rightarrow> Operand temp (drop (length buf) r))
      else if c = CHR ''@'' then name_operand (get_modaddr env) (CHR ''@'') r
      else if c = CHR ''%'' then name_operand (get_threadaddr env) (CHR ''%'') r
      else if c = CHR ''?'' then name_operand (symbol_value env) (CHR ''?'') r
      else if c = CHR ''('' then
        (case close_bracket 1 r of None \<Rightarrow> Bad | Some (inner, rest) \<Rightarrow> Bracket inner rest)
      else if is_hex c then
        (if op = OP_NONE then Bad else let (temp, endp) = strtoul line in Operand temp endp)
      else if op \<noteq> OP_NONE then Bad
      else (case operator_at line of None \<Rightarrow> Bad | Some (op, r) \<Rightarrow> Oper op r))"

lemma close_bracket_length: "close_bracket d s = Some (a, b) \<Longrightarrow> length a + length b < length s"
  by (induction d s arbitrary: a b rule: close_bracket.induct) (fastforce split: if_splits)+

lemma operator_at_length: "line \<noteq> [] \<Longrightarrow> operator_at line = Some (op, r) \<Longrightarrow> length r < length line"
  by (cases line) (auto simp: operator_at_def Let_def split: if_splits)

lemma name_operand_length: "name_operand f q r = Operand t s \<Longrightarrow> length s < length r"
  using split_at_length [of "\<lambda>x. x = q" r]
  by (fastforce simp: name_operand_def split: option.splits)

lemma name_operand_turn [simp]:
  "name_operand f q r \<noteq> Skip s" "name_operand f q r \<noteq> Deref s" "name_operand f q r \<noteq> Invert s"
  "name_operand f q r \<noteq> Bracket s s'" "name_operand f q r \<noteq> Oper p s"
  by (auto simp: name_operand_def split: option.splits)

lemma line_turn_length:
  assumes "line \<noteq> []"
  shows "line_turn env op line = Skip r \<Longrightarrow> length r < length line"
    and "line_turn env op line = Deref r \<Longrightarrow> length r < length line"
    and "line_turn env op line = Invert r \<Longrightarrow> length r < length line"
    and "line_turn env op line = Oper p r \<Longrightarrow> length r < length line"
    and "line_turn env op line = Bracket i r \<Longrightarrow> length i < length line \<and> length r < length line"
    and "line_turn env op line = Operand t r \<Longrightarrow> length r < length line \<or> op \<noteq> OP_NONE \<and> length r \<le> length line"
proof -
  obtain c s where l: "line = c # s" using assms by (cases line) auto
  note d = line_turn_def l Let_def
  show "line_turn env op line = Skip r \<Longrightarrow> length r < length line"
    by (simp add: d split: if_splits option.splits prod.splits)
  show "line_turn env op line = Deref r \<Longrightarrow> length r < length line"
    by (simp add: d split: if_splits option.splits prod.splits)
  show "line_turn env op line = Invert r \<Longrightarrow> length r < length line"
    by (simp add: d split: if_splits option.splits prod.splits)
  show "line_turn env op line = Oper p r \<Longrightarrow> length r < length line"
    using operator_at_length [OF assms] by (auto simp: d split: if_splits option.splits prod.splits)
  show "line_turn env op line = Bracket i r \<Longrightarrow> length i < length line \<and> length r < length line"
    using close_bracket_length [of 1 s i r] by (auto simp: d split: if_splits option.splits prod.splits)
  show "line_turn env op line = Operand t r \<Longrightarrow> length r < length line \<or> op \<noteq> OP_NONE \<and> length r \<le> length line"
    using name_operand_length [of _ _ s t r] strtoul_length [of line t r]
    by (auto simp: d less_Suc_eq_le split: if_splits option.splits prod.splits dest: less_imp_le)
qed

text \<open>
  \<open>parse_line\<close>, with the loop's variables: operator, pending dereferences, pending inversions, value.
  The measure: a number with no digits is consumed without progress, once.
\<close>

function parse_loop :: "'m lookups_scheme \<Rightarrow> string \<Rightarrow> Operator \<Rightarrow> nat \<Rightarrow> nat \<Rightarrow> u32 \<Rightarrow> u32 option" where
  "parse_loop env line op deref nots val =
     (if line = [] then Some val
      else case line_turn env op line of
        Skip r \<Rightarrow> parse_loop env r op deref nots val
      | Deref r \<Rightarrow> parse_loop env r op (deref + 1) nots val
      | Invert r \<Rightarrow> parse_loop env r op deref (nots + 1) val
      | Oper op' r \<Rightarrow> parse_loop env r op' deref nots val
      | Bad \<Rightarrow> None
      | Operand temp r \<Rightarrow>
          (case deref_addr env temp deref of None \<Rightarrow> None
           | Some temp \<Rightarrow> parse_loop env r OP_NONE 0 0 (do_op env op nots val temp))
      | Bracket inner r \<Rightarrow>
          (case parse_loop env inner OP_START 0 0 0 of None \<Rightarrow> None
           | Some temp \<Rightarrow>
             (case deref_addr env temp deref of None \<Rightarrow> None
              | Some temp \<Rightarrow> parse_loop env r OP_NONE 0 0 (do_op env op nots val temp))))"
  by pat_completeness auto
termination
proof (relation "measure (\<lambda>(env, line, op, deref, nots, val). 2 * length line + (if op = OP_NONE then 0 else 1))",
    goal_cases)
  case (2 env line op deref nots val r)
  from line_turn_length(1) [OF this] show ?case by simp
next
  case (3 env line op deref nots val r)
  from line_turn_length(2) [OF this] show ?case by simp
next
  case (4 env line op deref nots val r)
  from line_turn_length(3) [OF this] show ?case by simp
next
  case (5 env line op deref nots val r)
  from line_turn_length(6) [OF this(1,2)] show ?case by auto
next
  case (6 env line op deref nots val i r)
  from line_turn_length(5) [OF this(1,2)] show ?case by simp
next
  case (7 env line op deref nots val i r)
  from line_turn_length(5) [OF this(1,2)] show ?case by simp
next
  case (8 env line op deref nots val op' r)
  from line_turn_length(4) [OF this] show ?case by simp
qed simp

declare parse_loop.simps [simp del]

definition parse_line :: "'m lookups_scheme \<Rightarrow> string \<Rightarrow> u32 option" where
  "parse_line env line = parse_loop env line OP_START 0 0 0"

definition memDecode :: "'m lookups_scheme \<Rightarrow> string \<Rightarrow> u32 option" where
  "memDecode env line = parse_line env (take 1023 line)"

section \<open>The regions are disjoint\<close>

definition lo :: "mem_entry \<Rightarrow> nat" where "lo e = unat (m_addr e)"
definition hi :: "mem_entry \<Rightarrow> nat" where "hi e = unat (m_addr e) + unat (m_size e)"

definition entry_fits :: "mem_entry \<Rightarrow> bool" where
  "entry_fits e \<longleftrightarrow> hi e < 2 ^ 32"

definition apart :: "mem_entry \<Rightarrow> mem_entry \<Rightarrow> bool" where
  "apart e f \<longleftrightarrow> hi e \<le> lo f \<or> hi f \<le> lo e"

lemma in_entry_unat: "entry_fits e \<Longrightarrow> in_entry e a \<longleftrightarrow> lo e \<le> unat a \<and> unat a < hi e"
  by (simp add: in_entry_def entry_fits_def hi_def lo_def word_le_nat_alt word_less_nat_alt unat_word_ariths)

text \<open>A table of regions that do not overlap and do not reach the end of the address space.\<close>

definition regions_ok :: "mem_entry list \<Rightarrow> bool" where
  "regions_ok es \<longleftrightarrow> (\<forall>e \<in> set es. entry_fits e) \<and> pairwise apart (set es)"

lemma memareas_fit: "\<forall>e \<in> set g_memareas. entry_fits e"
  by (simp add: g_memareas_def entry_def entry_fits_def hi_def)

lemma memareas_apart: "pairwise apart (set g_memareas)"
  by (simp add: g_memareas_def entry_def pairwise_def apart_def hi_def lo_def)

lemma memareas_ok: "regions_ok g_memareas"
  using memareas_fit memareas_apart by (simp add: regions_ok_def)

lemma apart_in_entry:
  "entry_fits e \<Longrightarrow> entry_fits f \<Longrightarrow> apart e f \<Longrightarrow> in_entry e a \<Longrightarrow> \<not> in_entry f a"
  by (auto simp: in_entry_unat apart_def)

text \<open>The scan, by the region of the address.\<close>

lemma validate_scan_at:
  assumes "e \<in> set es" "in_entry e a" "pairwise apart (set es)" "\<forall>e \<in> set es. entry_fits e"
  shows "validate_scan v1 es a attrib =
    (if m_attrib e AND attrib = attrib \<and> (\<not> m_v1only e \<or> v1) then unat (m_size e) - unat (a - m_addr e) else 0)"
  using assms
proof (induction es)
  case (Cons f es)
  show ?case
  proof (cases "f = e")
    case False
    then have "e \<in> set es" "\<not> in_entry f a"
      using Cons.prems apart_in_entry [of e f a] by (auto simp: pairwise_def)
    then show ?thesis using Cons by (simp add: pairwise_insert)
  qed (use Cons.prems in simp)
qed simp

lemma validate_scan_outside: "\<forall>e \<in> set es. \<not> in_entry e a \<Longrightarrow> validate_scan v1 es a attrib = 0"
  by (induction es) auto

lemma unat_offset: "entry_fits e \<Longrightarrow> in_entry e a \<Longrightarrow> unat (a - m_addr e) = unat a - lo e"
  by (simp add: in_entry_def unat_sub lo_def)

lemma memValidate_in_cases:
  assumes "memValidate_in es v1 False a attrib = n" "0 < n" "regions_ok es"
  obtains e where "e \<in> set es" "in_entry e a" "n = hi e - unat a" "m_attrib e AND attrib = attrib"
    "\<not> m_v1only e \<or> v1"
proof -
  have n: "validate_scan v1 es a attrib = n" using assms(1) by (simp add: memValidate_in_def Let_def)
  obtain e where e: "e \<in> set es" "in_entry e a"
    using validate_scan_outside [of es a v1 attrib] n assms(2) by auto
  have f: "entry_fits e" using e assms(3) by (simp add: regions_ok_def)
  note S = validate_scan_at [OF e, of v1 attrib]
  have c: "m_attrib e AND attrib = attrib" "\<not> m_v1only e \<or> v1"
    using S n assms(2,3) by (auto simp: regions_ok_def split: if_splits)
  moreover have "n = hi e - unat a"
    using S n c unat_offset [OF f e(2)] e(2) f assms(3) by (auto simp: regions_ok_def in_entry_unat hi_def lo_def)
  ultimately show ?thesis using that e by blast
qed

lemma memValidate_cases:
  assumes "memValidate v1 False a attrib = n" "0 < n"
  obtains e where "e \<in> set g_memareas" "in_entry e a" "n = hi e - unat a" "m_attrib e AND attrib = attrib"
    "\<not> m_v1only e \<or> v1"
  using that memValidate_in_cases [OF assms(1) [unfolded memValidate_def] assms(2) memareas_ok] by blast

section \<open>Evaluation of operator chains\<close>

text \<open>A number as the evaluator can read it: it starts with a digit and ends at a blank.\<close>

definition numeral_of :: "string \<Rightarrow> u32 \<Rightarrow> bool" where
  "numeral_of ns v \<longleftrightarrow> ns \<noteq> [] \<and> is_hex (hd ns) \<and>
     (\<forall>rest. rest = [] \<or> hd rest = CHR '' '' \<longrightarrow> strtoul (ns @ rest) = (v, rest))"

text \<open>The way an operator is written.\<close>

fun op_text :: "Operator \<Rightarrow> string" where
  "op_text OP_PLUS = ''+''" | "op_text OP_MINUS = ''-''" | "op_text OP_AND = ''&''"
| "op_text OP_OR = ''|''" | "op_text OP_XOR = ''^''" | "op_text OP_SHL = ''<<''"
| "op_text OP_SHR = ''>>''" | "op_text OP_LAND = ''&&''" | "op_text OP_LOR = ''||''"
| "op_text OP_NEQ = ''!=''" | "op_text OP_EQ = ''==''" | "op_text OP_LT = ''<''"
| "op_text OP_LEQ = ''<=''" | "op_text OP_GT = ''>''" | "op_text OP_GEQ = ''>=''"
| "op_text OP_MUL = ''*''" | "op_text OP_DIV = ''/''" | "op_text op = []"

definition binary :: "Operator \<Rightarrow> bool" where
  "binary op \<longleftrightarrow> op \<noteq> OP_START \<and> op \<noteq> OP_NONE"

lemma hex_chars:
  assumes "is_hex c"
  shows "\<not> is_aspace c" "c \<noteq> CHR ''*''" "c \<noteq> CHR ''~''" "c \<noteq> CHR ''$''" "c \<noteq> CHR ''@''"
    "c \<noteq> CHR ''%''" "c \<noteq> CHR ''?''" "c \<noteq> CHR ''(''"
  using assms by (auto simp: is_hex_def is_aspace_def upcase_def)

lemma parse_loop_number:
  assumes "numeral_of ns v" "op \<noteq> OP_NONE" "rest = [] \<or> hd rest = CHR '' ''"
  shows "parse_loop env (ns @ rest) op 0 0 acc = parse_loop env rest OP_NONE 0 0 (do_op env op 0 acc v)"
proof -
  obtain c s where ns: "ns = c # s" "is_hex c" using assms(1) by (cases ns) (auto simp: numeral_of_def)
  have "strtoul (ns @ rest) = (v, rest)" using assms(1,3) unfolding numeral_of_def by blast
  then have "line_turn env op (ns @ rest) = Operand v rest"
    using ns hex_chars [OF ns(2)] assms(2) by (simp add: line_turn_def Let_def)
  then show ?thesis using ns by (subst parse_loop.simps) simp
qed

lemma line_turn_op:
  "binary op \<Longrightarrow> line_turn env OP_NONE (op_text op @ CHR '' '' # s) = Oper op (CHR '' '' # s)"
  by (cases op) (simp_all add: binary_def line_turn_def operator_at_def Let_def is_aspace_def is_hex_def upcase_def)

lemma parse_loop_space: "parse_loop env (CHR '' '' # s) op d i acc = parse_loop env s op d i acc"
  by (subst parse_loop.simps) (simp add: line_turn_def)

lemma parse_loop_op:
  assumes "binary op"
  shows "parse_loop env (CHR '' '' # op_text op @ CHR '' '' # s) OP_NONE 0 0 acc = parse_loop env s op 0 0 acc"
proof -
  have "parse_loop env (op_text op @ CHR '' '' # s) OP_NONE 0 0 acc = parse_loop env (CHR '' '' # s) op 0 0 acc"
    using line_turn_op [OF assms, of env s]
    by (subst parse_loop.simps) simp
  then show ?thesis by (simp add: parse_loop_space)
qed

definition chain_text :: "(Operator \<times> string) list \<Rightarrow> string" where
  "chain_text ts = concat (map (\<lambda>(op, ns). '' '' @ op_text op @ '' '' @ ns) ts)"

lemma parse_loop_chain:
  "list_all2 (\<lambda>(op, ns) v. binary op \<and> numeral_of ns v) ts vs \<Longrightarrow>
   parse_loop env (chain_text ts) OP_NONE 0 0 acc =
   Some (fold (\<lambda>((op, _), v) acc. do_op env op 0 acc v) (zip ts vs) acc)"
proof (induction ts vs arbitrary: acc rule: list_all2_induct)
  case Nil
  then show ?case by (subst parse_loop.simps) (simp add: chain_text_def)
next
  case (Cons t ts v vs)
  obtain op ns where t: "t = (op, ns)" by fastforce
  have b: "binary op" "numeral_of ns v" "op \<noteq> OP_NONE" using Cons.hyps(1) t by (auto simp: binary_def)
  have r: "chain_text ts = [] \<or> hd (chain_text ts) = CHR '' ''"
    by (cases ts) (auto simp: chain_text_def split: prod.splits)
  have "chain_text (t # ts) = CHR '' '' # op_text op @ CHR '' '' # ns @ chain_text ts"
    by (simp add: chain_text_def t)
  then show ?case using Cons.IH parse_loop_number [OF b(2,3) r, of env acc] by (simp add: parse_loop_op [OF b(1)] t)
qed

lemma numeral_hex:
  assumes "ds \<noteq> []" "list_all is_hex ds" "digits_value 16 ds 0 < 4294967296"
  shows "numeral_of (''0x'' @ ds) (word_of_int (digits_value 16 ds 0))"
  unfolding numeral_of_def
proof (intro conjI allI impI)
  fix rest :: string assume r: "rest = [] \<or> hd rest = CHR '' ''"
  obtain d ds' where d: "ds = d # ds'" using assms(1) by (cases ds) auto
  have h: "\<forall>c \<in> set ds. digit_in 16 c"
    using assms(2) hex_to_int_bound by (auto simp: digit_in_def list_all_iff)
  have nr: "takeWhile (digit_in 16) rest = []" "dropWhile (digit_in 16) rest = rest"
    using r by (cases rest; simp add: digit_in_def is_hex_def upcase_def)+
  have "takeWhile (digit_in 16) (ds @ rest) = ds" "dropWhile (digit_in 16) (ds @ rest) = rest"
    using h nr by (simp_all add: takeWhile_append2 dropWhile_append2)
  moreover have "number_base (''0x'' @ ds @ rest) = (16, ds @ rest)"
    using assms(2) by (simp add: number_base_def d)
  ultimately show "strtoul ((''0x'' @ ds) @ rest) = (word_of_int (digits_value 16 ds 0), rest)"
    using assms(1,3) by (simp add: strtoul_def strtoul_by_def Let_def c_isspace_def)
qed (simp_all add: is_hex_def upcase_def)

section \<open>Properties\<close>

lemma memValidate_in_inside:
  assumes "memValidate_in es v1 False a attrib = n" and "k < n" and ok: "regions_ok es"
  shows "unat a + n \<le> 2 ^ 32 \<and> memValidate_in es v1 False (a + of_nat k) attrib = n - k
    \<and> (\<exists>e \<in> set es. m_attrib e AND attrib = attrib \<and> (m_v1only e \<longrightarrow> v1) \<and> unat a + n = hi e \<and>
         (\<forall>j < n. in_entry e (a + of_nat j)))"
proof -
  have "0 < n" using assms(2) by simp
  from memValidate_in_cases [OF assms(1) this ok] obtain e where
    e: "e \<in> set es" "in_entry e a" "n = hi e - unat a" "m_attrib e AND attrib = attrib" "\<not> m_v1only e \<or> v1"
    by blast
  have f: "entry_fits e" using e(1) ok by (simp add: regions_ok_def)
  then have b: "hi e < 2 ^ 32" by (simp add: entry_fits_def)
  have u: "unat (a + of_nat j) = unat a + j" if "j < n" for j
    using that e(3) b by (simp add: unat_word_ariths unat_of_nat)
  have i: "in_entry e (a + of_nat j)" if "j < n" for j
    using that u [OF that] e(2,3) by (auto simp: in_entry_unat [OF f])
  have "memValidate_in es v1 False (a + of_nat k) attrib = n - k"
    using validate_scan_at [OF e(1) i [OF assms(2)], of v1 attrib] ok
      e(3-5) unat_offset [OF f i [OF assms(2)]] u [OF assms(2)] i [OF assms(2)]
    by (auto simp: memValidate_in_def regions_ok_def Let_def hi_def lo_def in_entry_unat [OF f])
  moreover have h: "unat a + n = hi e" using e(2,3) by (auto simp: in_entry_unat [OF f])
  moreover have "unat a + n \<le> 2 ^ 32" using b h by simp
  ultimately show ?thesis using i e(1,4,5) by blast
qed

lemma memValidate_inside:
  assumes "memValidate v1 False a attrib = n" and "k < n"
  shows "unat a + n \<le> 2 ^ 32 \<and> memValidate v1 False (a + of_nat k) attrib = n - k
    \<and> (\<exists>e \<in> set g_memareas. \<forall>j < n. in_entry e (a + of_nat j))"
  using memValidate_in_inside [OF assms(1) [unfolded memValidate_def] assms(2) memareas_ok]
  by (auto simp: memValidate_def)

lemma memValidate_in_zero:
  assumes "e \<in> set es" "in_entry e a" "m_attrib e AND attrib = attrib" "m_v1only e \<longrightarrow> v1" "regions_ok es"
  shows "0 < memValidate_in es v1 False a attrib"
proof -
  have f: "entry_fits e" using assms(1,5) by (simp add: regions_ok_def)
  have "validate_scan v1 es a attrib = unat (m_size e) - (unat a - lo e)"
    using validate_scan_at [OF assms(1,2), of v1 attrib] unat_offset [OF f assms(2)] assms(3-5) by (auto simp: regions_ok_def)
  then show ?thesis using assms(2) by (auto simp: memValidate_in_def in_entry_unat [OF f] hi_def lo_def)
qed

text \<open>
  C10: What \<open>memValidate\<close> promises, for any table of regions that do not overlap (as those of the program do:
  \<open>memareas_ok\<close>): with protection on, the answer is positive exactly when the address lies in a region that has
  the attributes asked for and exists on this firmware. A positive answer \<open>n\<close> is the distance to the end of that
  region: the \<open>n\<close> bytes from the address lie in it, without wrap-around, and every address among them gets the
  matching answer.
\<close>
theorem memValidate_extent:
  assumes "regions_ok table" and "memValidate_in table v1 False a attrib = n"
  shows "(0 < n \<longleftrightarrow> (\<exists>e \<in> set table. in_entry e a \<and> m_attrib e AND attrib = attrib \<and> (m_v1only e \<longrightarrow> v1))) \<and>
    (\<forall>k < n. unat a + n \<le> 2 ^ 32 \<and> memValidate_in table v1 False (a + of_nat k) attrib = n - k \<and>
       (\<exists>e \<in> set table. m_attrib e AND attrib = attrib \<and> (m_v1only e \<longrightarrow> v1) \<and> unat a + n = hi e \<and>
         (\<forall>j < n. in_entry e (a + of_nat j)))) \<and>
    (table = g_memareas \<longrightarrow> memValidate v1 False a attrib = n)"
proof -
  note ok = assms(1)
  have "\<exists>e \<in> set table. in_entry e a \<and> m_attrib e AND attrib = attrib \<and> (m_v1only e \<longrightarrow> v1)" if "0 < n"
    using memValidate_in_cases [OF assms(2) that ok] by metis
  moreover have "0 < n" if "\<exists>e \<in> set table. in_entry e a \<and> m_attrib e AND attrib = attrib \<and> (m_v1only e \<longrightarrow> v1)"
    using that memValidate_in_zero [OF _ _ _ _ ok] assms(2) by blast
  ultimately show ?thesis
    using memValidate_in_inside [OF assms(2) _ ok] assms(2) by (auto simp: memValidate_def)
qed

theorem memValidate_extent_witness:
  "memValidate False False (0x0A000000 - 2) MEM_ATTRIB_BYTE = 2
   \<and> memValidate False False (0x0A000000 - 2 + of_nat 1) MEM_ATTRIB_BYTE = 1"
proof -
  have "memValidate_in g_memareas False False (0x0A000000 - 2) MEM_ATTRIB_BYTE = 2"
    by (simp add: memValidate_in_def g_memareas_def entry_def in_entry_def)
  from memValidate_extent [OF memareas_ok this]
  have "memValidate False False (0x0A000000 - 2) MEM_ATTRIB_BYTE = 2"
    and "\<And>k. k < 2 \<Longrightarrow> memValidate_in g_memareas False False (0x0A000000 - 2 + of_nat k) MEM_ATTRIB_BYTE = 2 - k" by blast+
  from this(1) this(2) [of 1] show ?thesis by (simp add: memValidate_def)
qed

text \<open>
  C29: Expressions are evaluated from left to right, without precedence: a number followed by any
  chain of operators and numbers has the value obtained by applying the operators in that order
  on 32-bit words.
\<close>
theorem parse_line_chain:
  assumes "numeral_of ns v" and "list_all2 (\<lambda>(op, ns) v. binary op \<and> numeral_of ns v) ts vs"
  shows "parse_line env (ns @ chain_text ts) =
    Some (fold (\<lambda>((op, _), v) acc. do_op env op 0 acc v) (zip ts vs) v)"
proof -
  have r: "chain_text ts = [] \<or> hd (chain_text ts) = CHR '' ''"
    by (cases ts) (auto simp: chain_text_def split: prod.splits)
  show ?thesis
    using parse_loop_number [OF assms(1) _ r, of OP_START env 0] parse_loop_chain [OF assms(2), of env]
    by (simp add: parse_line_def do_op_def Let_def)
qed

theorem parse_line_chain_witness:
  "\<forall>env :: lookups. parse_line env ''0x2 + 0x3 * 0x4'' = Some 20"
proof
  fix env :: lookups
  have n: "numeral_of ''0x2'' 2" "numeral_of ''0x3'' 3" "numeral_of ''0x4'' 4"
    using numeral_hex [of "''2''"] numeral_hex [of "''3''"] numeral_hex [of "''4''"]
    by (simp_all add: is_hex_def upcase_def hex_to_int_def)
  have "list_all2 (\<lambda>(op, ns) v. binary op \<and> numeral_of ns v)
      [(OP_PLUS, ''0x3''), (OP_MUL, ''0x4'')] [3, 4]"
    using n by (simp add: binary_def)
  from parse_line_chain [OF n(1) this, of env] show "parse_line env ''0x2 + 0x3 * 0x4'' = Some 20"
    by (simp add: chain_text_def do_op_def Let_def)
qed

text \<open>
  Dereferencing an expression touches only checked memory: \<open>deref_addr\<close> succeeds on one level
  exactly when the address is word-aligned and its word is readable under the memory map, and then
  gives the word stored there.
\<close>
theorem deref_addr_safe:
  "deref_addr env val 1 =
    (if val AND 3 = 0 \<and> 4 \<le> memValidate (isv1 env) (protoff env) val (MEM_ATTRIB_READ OR MEM_ATTRIB_WORD)
     then Some (lw (memory env) val) else None)"
  by (simp add: not_less)

end
