(* ===== verification/Debug.thy ===== *)
theory Debug
  imports Prelude
begin

text \<open>
  \<open>psplink/debug.c\<close>: software breakpoints, single stepping and the hardware debug registers.
  Memory is a map of bytes; a breakpoint saves the word at its address and stores the break
  instruction there. The exception handler takes breakpoints out again when one is hit.
  Addresses that differ only in the top nibble (cached, uncached, kernel views of one cell) are
  different cells of the model; the code compares them as equal, and so does \<open>find_bp\<close>.
\<close>

section \<open>State\<close>

abbreviation MAX_BPS :: nat where "MAX_BPS \<equiv> 16"
abbreviation SW_BREAK_INST :: u32 where "SW_BREAK_INST \<equiv> 0x0000000D"

record BreakPoint =
  bp_address :: u32
  bp_oldinst :: u32
  bp_active :: bool

record RegBlock =
  epc :: u32
  regs :: "u32 list"

record debug_state =
  dmem :: mem
  g_bps :: "BreakPoint list"
  g_stepbp0 :: BreakPoint
  g_stepbp1 :: BreakPoint

definition no_bp :: BreakPoint where
  "no_bp = \<lparr>bp_address = 0, bp_oldinst = 0, bp_active = False\<rparr>"

definition debug_start :: "mem \<Rightarrow> debug_state" where
  "debug_start m = \<lparr>dmem = m, g_bps = replicate MAX_BPS no_bp, g_stepbp0 = no_bp, g_stepbp1 = no_bp\<rparr>"

section \<open>Where an instruction goes\<close>

text \<open>The offset of a conditional branch, sign-extended, in bytes.\<close>

definition branch_offset :: "u32 \<Rightarrow> u32" where
  "branch_offset opcode = scast (ucast opcode :: 16 word) * 4"

record step_target =
  targetpc :: u32
  branch :: bool
  cond :: bool
  link :: bool

definition conditional :: "u32 \<Rightarrow> u32 \<Rightarrow> step_target" where
  "conditional opcode next = \<lparr>targetpc = next + branch_offset opcode, branch = True, cond = True, link = False\<rparr>"

definition fall_through :: "u32 \<Rightarrow> step_target" where
  "fall_through next = \<lparr>targetpc = next, branch = False, cond = False, link = False\<rparr>"

text \<open>The classification made by the switch statements of \<open>step_generic\<close>.\<close>

definition decode_step :: "u32 \<Rightarrow> RegBlock \<Rightarrow> step_target" where
  "decode_step opcode rb =
     (let next = epc rb + 4; op = drop_bit 26 opcode in
      if op \<in> {0x4, 0x14, 0x7, 0x17, 0x6, 0x16, 0x5, 0x15} then conditional opcode next
      else if op = 0x1 then
        (if drop_bit 16 opcode AND 0x1f \<in> {0x1, 0x11, 0x13, 0x3, 0, 0x10, 0x12, 0x2}
         then conditional opcode next else fall_through next)
      else if op = 0x3 \<or> op = 0x2 then
        \<lparr>targetpc = push_bit 2 (opcode AND 0x3ffffff) OR (next AND 0xf0000000),
         branch = True, cond = False, link = (op = 0x3)\<rparr>
      else if op = 0 then
        (if opcode AND 0x3f = 0x9 \<or> opcode AND 0x3f = 0x8 then
           \<lparr>targetpc = regs rb ! unat (drop_bit 21 opcode AND 0x1f),
            branch = True, cond = False, link = (opcode AND 0x3f = 0x9)\<rparr>
         else fall_through next)
      else if op \<in> {0x10, 0x11, 0x12} then
        (if drop_bit 16 opcode AND 0x3ff \<in> {0x100, 0x102, 0x101, 0x103}
         then conditional opcode next else fall_through next)
      else fall_through next)"

section \<open>Stepping\<close>

definition plant :: "mem \<Rightarrow> u32 \<Rightarrow> BreakPoint \<times> mem" where
  "plant m a = (\<lparr>bp_address = a, bp_oldinst = lw m a, bp_active = True\<rparr>, sw m a SW_BREAK_INST)"

definition plant0 :: "u32 \<Rightarrow> debug_state \<Rightarrow> debug_state" where
  "plant0 a s = (let (b, m) = plant (dmem s) a in s\<lparr>dmem := m, g_stepbp0 := b\<rparr>)"

definition plant1 :: "u32 \<Rightarrow> debug_state \<Rightarrow> debug_state" where
  "plant1 a s = (let (b, m) = plant (dmem s) a in s\<lparr>dmem := m, g_stepbp1 := b\<rparr>)"

definition step_generic :: "RegBlock \<Rightarrow> bool \<Rightarrow> debug_state \<Rightarrow> debug_state" where
  "step_generic rb skip s =
     (let t = decode_step (lw (dmem s) (epc rb)) rb; after = epc rb + 8 in
      if link t \<and> skip then plant1 after s
      else if branch t then
        let s = plant0 (targetpc t) s
        in if cond t \<and> targetpc t \<noteq> after then plant1 after s else s
      else plant0 (targetpc t) s)"

text \<open>\<open>debugStep\<close>: nothing happens when the program is not stopped in an exception.\<close>

definition debugStep :: "RegBlock option \<Rightarrow> bool \<Rightarrow> debug_state \<Rightarrow> debug_state \<times> bool" where
  "debugStep currex skip s =
     (case currex of None \<Rightarrow> (s, False) | Some rb \<Rightarrow> (step_generic rb skip s, True))"

section \<open>Breakpoints\<close>

definition mask_addr :: "u32 \<Rightarrow> u32" where
  "mask_addr a = a AND 0x0FFFFFFF"

definition find_bp :: "u32 \<Rightarrow> BreakPoint list \<Rightarrow> nat option" where
  "find_bp a bps =
     find (\<lambda>i. bp_active (bps ! i) \<and> mask_addr (bp_address (bps ! i)) = mask_addr a) [0..<MAX_BPS]"

definition find_freebp :: "BreakPoint list \<Rightarrow> nat option" where
  "find_freebp bps = find (\<lambda>i. \<not> bp_active (bps ! i)) [0..<MAX_BPS]"

definition debugSetBP :: "u32 \<Rightarrow> debug_state \<Rightarrow> bool \<times> debug_state" where
  "debugSetBP a s =
     (if find_bp a (g_bps s) = None then
        (case find_freebp (g_bps s) of
           Some i \<Rightarrow> (True, s\<lparr>dmem := sw (dmem s) a SW_BREAK_INST,
             g_bps := (g_bps s)[i := \<lparr>bp_address = a, bp_oldinst = lw (dmem s) a, bp_active = True\<rparr>]\<rparr>)
         | None \<Rightarrow> (False, s))
      else (False, s))"

text \<open>Taking out breakpoint \<open>i\<close>: the word is put back and the entry freed.\<close>

definition take_out :: "nat \<Rightarrow> debug_state \<Rightarrow> debug_state" where
  "take_out i s =
     (let b = g_bps s ! i
      in s\<lparr>dmem := sw (dmem s) (bp_address b) (bp_oldinst b), g_bps := (g_bps s)[i := b\<lparr>bp_active := False\<rparr>]\<rparr>)"

definition debugDeleteBp :: "int \<Rightarrow> debug_state \<Rightarrow> debug_state" where
  "debugDeleteBp i s =
     (if 0 \<le> i \<and> i < int MAX_BPS then (if bp_active (g_bps s ! nat i) then take_out (nat i) s else s) else s)"

definition debugPrintBPS :: "debug_state \<Rightarrow> (nat \<times> u32 \<times> u32) list" where
  "debugPrintBPS s =
     map (\<lambda>i. (i, bp_address (g_bps s ! i), bp_oldinst (g_bps s ! i)))
       (filter (\<lambda>i. bp_active (g_bps s ! i)) [0..<MAX_BPS])"

definition check_bp :: "u32 \<Rightarrow> debug_state \<Rightarrow> bool" where
  "check_bp a s \<longleftrightarrow> bp_active (g_stepbp0 s) \<and> bp_address (g_stepbp0 s) = a
     \<or> bp_active (g_stepbp1 s) \<and> bp_address (g_stepbp1 s) = a \<or> find_bp a (g_bps s) \<noteq> None"

definition recover0 :: "debug_state \<Rightarrow> debug_state" where
  "recover0 s = (let b = g_stepbp0 s in
     if bp_active b then s\<lparr>dmem := sw (dmem s) (bp_address b) (bp_oldinst b), g_stepbp0 := b\<lparr>bp_active := False\<rparr>\<rparr>
     else s)"

definition recover1 :: "debug_state \<Rightarrow> debug_state" where
  "recover1 s = (let b = g_stepbp1 s in
     if bp_active b then s\<lparr>dmem := sw (dmem s) (bp_address b) (bp_oldinst b), g_stepbp1 := b\<lparr>bp_active := False\<rparr>\<rparr>
     else s)"

text \<open>
  \<open>debugHandleException\<close> at the address where the program stopped: whether the exception was a
  breakpoint, in which case it is dealt with here. The printed disassembly is left out.
\<close>

definition debugHandleException :: "u32 \<Rightarrow> debug_state \<Rightarrow> bool \<times> debug_state" where
  "debugHandleException a s =
     (if check_bp a s then
        let s = recover1 (recover0 s)
        in (True, case find_bp a (g_bps s) of Some i \<Rightarrow> take_out i s | None \<Rightarrow> s)
      else (False, s))"

section \<open>Hardware debug registers\<close>

record DebugEnv =
  flags :: u32
  DRCNTL :: u32
  IBC :: u32
  DBC :: u32
  IBA :: u32
  IBAM :: u32
  DBA :: u32
  DBAM :: u32
  DBD :: u32
  DBDM :: u32

text \<open>
  The environment that \<open>debug_get_env\<close> finds when hardware debugging is enabled, and the number of
  times \<open>debug_set_env\<close> has written it to the registers.
\<close>

type_synonym hw_state = "DebugEnv option \<times> nat"

text \<open>The status-register bit of \<open>debugEnableHW\<close> and its companions.\<close>

definition debugEnableHW :: "u32 \<Rightarrow> u32" where
  "debugEnableHW status = push_bit 16 8 OR status"

definition debugDisableHW :: "u32 \<Rightarrow> u32" where
  "debugDisableHW status = NOT (push_bit 16 8) AND status"

definition debugHWEnabled :: "u32 \<Rightarrow> u32" where
  "debugHWEnabled status = push_bit 16 8 AND status"

definition debugGetEnv :: "hw_state \<Rightarrow> (int \<times> DebugEnv option)" where
  "debugGetEnv h = (case fst h of Some e \<Rightarrow> (0, Some e) | None \<Rightarrow> (1, None))"

definition debugSetEnv :: "DebugEnv \<Rightarrow> hw_state \<Rightarrow> int \<times> hw_state" where
  "debugSetEnv env h = (case fst h of Some _ \<Rightarrow> (0, (Some env, snd h + 1)) | None \<Rightarrow> (1, h))"

definition debugSetHWBreak :: "u32 \<Rightarrow> u32 \<Rightarrow> hw_state \<Rightarrow> hw_state" where
  "debugSetHWBreak a m h =
     (case fst h of None \<Rightarrow> h
      | Some e \<Rightarrow>
          (Some (if a \<noteq> 0 then e\<lparr>IBC := 0x12, IBA := a, IBAM := m\<rparr> else e\<lparr>IBC := 0x10, IBA := 0, IBAM := 0\<rparr>),
           snd h + 1))"

definition set_hw_reg :: "string \<Rightarrow> u32 \<Rightarrow> DebugEnv \<Rightarrow> DebugEnv option" where
  "set_hw_reg name val e =
     (if name = ''IBC'' then Some (e\<lparr>IBC := val\<rparr>)
      else if name = ''DBC'' then Some (e\<lparr>DBC := val\<rparr>)
      else if name = ''IBA'' then Some (e\<lparr>IBA := val\<rparr>)
      else if name = ''IBAM'' then Some (e\<lparr>IBAM := val\<rparr>)
      else if name = ''DBA'' then Some (e\<lparr>DBA := val\<rparr>)
      else if name = ''DBAM'' then Some (e\<lparr>DBAM := val\<rparr>)
      else if name = ''DBD'' then Some (e\<lparr>DBD := val\<rparr>)
      else if name = ''DBDM'' then Some (e\<lparr>DBDM := val\<rparr>)
      else None)"

text \<open>The loop of \<open>debugSetHWRegs\<close>: it stops at the first argument it cannot use.\<close>

fun set_hw_regs_loop :: "(string \<Rightarrow> u32 option) \<Rightarrow> string list \<Rightarrow> DebugEnv \<times> nat \<Rightarrow> DebugEnv \<times> nat" where
  "set_hw_regs_loop decode [] st = st"
| "set_hw_regs_loop decode (a # argv) st =
     (case split_at (\<lambda>c. c = CHR ''='') a of None \<Rightarrow> st
      | Some (name, expr) \<Rightarrow>
          (case decode expr of None \<Rightarrow> st
           | Some val \<Rightarrow>
               (case set_hw_reg name val (fst st) of None \<Rightarrow> st
                | Some e \<Rightarrow> set_hw_regs_loop decode argv (e, snd st + 1))))"

definition debugSetHWRegs :: "(string \<Rightarrow> u32 option) \<Rightarrow> string list \<Rightarrow> hw_state \<Rightarrow> hw_state" where
  "debugSetHWRegs decode argv h =
     (case fst h of None \<Rightarrow> h
      | Some e \<Rightarrow> (let (e', n) = set_hw_regs_loop decode argv (e, snd h) in (Some e', n)))"

lemma debugEnableHW_enabled: "debugHWEnabled (debugEnableHW status) \<noteq> 0"
  and debugDisableHW_disabled: "debugHWEnabled (debugDisableHW status) = 0"
proof -
  have "bit (debugHWEnabled (debugEnableHW status)) 19"
    by (simp add: debugHWEnabled_def debugEnableHW_def bit_simps)
  then show "debugHWEnabled (debugEnableHW status) \<noteq> 0" by auto
  show "debugHWEnabled (debugDisableHW status) = 0"
    by (rule bit_word_eqI) (simp add: debugHWEnabled_def debugDisableHW_def bit_simps)
qed

section \<open>The program's own memory\<close>

text \<open>
  The abstraction: the memory with every breakpoint taken out, which is the program as it was
  loaded, and the set of (masked) addresses that have a breakpoint.
\<close>

definition unplant :: "BreakPoint \<Rightarrow> mem \<Rightarrow> mem" where
  "unplant b m = (if bp_active b then sw m (bp_address b) (bp_oldinst b) else m)"

definition original :: "debug_state \<Rightarrow> mem" where
  "original s = fold unplant (g_bps s) (unplant (g_stepbp1 s) (unplant (g_stepbp0 s) (dmem s)))"

definition bp_set :: "debug_state \<Rightarrow> u32 set" where
  "bp_set s = (\<lambda>b. mask_addr (bp_address b)) ` {b \<in> set (g_bps s). bp_active b}"

definition quiet :: "debug_state \<Rightarrow> bool" where
  "quiet s \<longleftrightarrow> \<not> bp_active (g_stepbp0 s) \<and> \<not> bp_active (g_stepbp1 s)"

text \<open>Two entries that cannot disturb each other.\<close>

definition compatible :: "BreakPoint \<Rightarrow> BreakPoint \<Rightarrow> bool" where
  "compatible b c \<longleftrightarrow> (bp_active b \<and> bp_active c \<longrightarrow>
     aligned (bp_address b) \<and> aligned (bp_address c) \<and> mask_addr (bp_address b) \<noteq> mask_addr (bp_address c))"

definition debug_ok :: "debug_state \<Rightarrow> bool" where
  "debug_ok s \<longleftrightarrow> length (g_bps s) = MAX_BPS \<and> (\<forall>b \<in> set (g_bps s). bp_active b \<longrightarrow> aligned (bp_address b)) \<and>
     (\<forall>i j. i < MAX_BPS \<and> j < MAX_BPS \<and> i \<noteq> j \<longrightarrow> compatible (g_bps s ! i) (g_bps s ! j))"

lemma unplant_commute: "compatible b c \<Longrightarrow> unplant b (unplant c m) = unplant c (unplant b m)"
  using sw_commute [of "bp_address c" "bp_address b"]
  by (cases "bp_address b = bp_address c") (auto simp: unplant_def compatible_def)

lemma fold_unplant_first:
  "\<forall>c \<in> set bs. compatible b c \<Longrightarrow> fold unplant bs (unplant b m) = unplant b (fold unplant bs m)"
  by (induction bs arbitrary: m) (simp_all add: unplant_commute [of b, symmetric])

text \<open>Entry \<open>i\<close> of a list of compatible entries can be taken first.\<close>

lemma fold_unplant_at:
  assumes "i < length bs" "\<forall>j < length bs. j \<noteq> i \<longrightarrow> compatible b (bs ! j)"
  shows "fold unplant (bs[i := b]) m = fold unplant (bs[i := b\<lparr>bp_active := False\<rparr>]) (unplant b m)"
proof -
  let ?l = "take i bs" and ?r = "drop (Suc i) bs"
  have c: "\<forall>c \<in> set ?l. compatible b c"
    using assms by (auto simp: in_set_conv_nth)
  have u: "unplant (b\<lparr>bp_active := False\<rparr>) m' = m'" for m' by (simp add: unplant_def)
  have "fold unplant (bs[i := b]) m = fold unplant ?r (unplant b (fold unplant ?l m))"
    using assms(1) by (simp add: upd_conv_take_nth_drop)
  also have "\<dots> = fold unplant ?r (fold unplant ?l (unplant b m))"
    by (simp add: fold_unplant_first [OF c])
  also have "\<dots> = fold unplant (bs[i := b\<lparr>bp_active := False\<rparr>]) (unplant b m)"
    using assms(1) by (simp add: upd_conv_take_nth_drop u)
  finally show ?thesis .
qed

lemma mask_addr_eq: "a = b \<Longrightarrow> mask_addr a = mask_addr b" by simp

lemma find_bp_Some:
  "find_bp a bps = Some i \<Longrightarrow> i < MAX_BPS \<and> bp_active (bps ! i) \<and> mask_addr (bp_address (bps ! i)) = mask_addr a"
  by (auto simp: find_bp_def find_Some_iff)

lemma find_bp_None:
  "find_bp a bps = None \<Longrightarrow> i < MAX_BPS \<Longrightarrow> bp_active (bps ! i) \<Longrightarrow> mask_addr (bp_address (bps ! i)) \<noteq> mask_addr a"
  by (auto simp: find_bp_def find_None_iff)

lemma find_freebp_Some: "find_freebp bps = Some i \<Longrightarrow> i < MAX_BPS \<and> \<not> bp_active (bps ! i)"
  by (auto simp: find_freebp_def find_Some_iff)

lemma find_freebp_None: "find_freebp bps = None \<Longrightarrow> i < MAX_BPS \<Longrightarrow> bp_active (bps ! i)"
  by (auto simp: find_freebp_def find_None_iff)

lemma original_quiet: "quiet s \<Longrightarrow> original s = fold unplant (g_bps s) (dmem s)"
  by (simp add: original_def quiet_def unplant_def)

lemma debug_start_ok: "debug_ok (debug_start m) \<and> original (debug_start m) = m \<and> quiet (debug_start m)"
proof -
  have "fold unplant (replicate n no_bp) m = m" for n
    by (induction n) (simp_all add: unplant_def no_bp_def)
  moreover have q: "quiet (debug_start m)" by (simp add: quiet_def debug_start_def no_bp_def)
  moreover have "debug_ok (debug_start m)"
    by (simp add: debug_start_def debug_ok_def compatible_def) (simp add: no_bp_def)
  ultimately show ?thesis using original_quiet [OF q] by (simp add: debug_start_def)
qed

subsection \<open>Setting\<close>

lemma debug_ok_update:
  assumes "debug_ok s" "i < MAX_BPS" "bp_active b \<longrightarrow> aligned (bp_address b)"
    and "\<forall>j < MAX_BPS. j \<noteq> i \<longrightarrow> compatible b (g_bps s ! j)" "g_bps t = (g_bps s)[i := b]"
  shows "debug_ok t"
proof -
  have L: "length (g_bps s) = MAX_BPS" using assms(1) by (simp add: debug_ok_def)
  have sym: "compatible c d = compatible d c" for c d by (auto simp: compatible_def)
  have "\<forall>c \<in> set (g_bps t). bp_active c \<longrightarrow> aligned (bp_address c)"
    using assms(1,3) set_update_subset_insert [of "g_bps s" i b] by (auto simp: assms(5) debug_ok_def)
  moreover have "compatible (g_bps t ! j) (g_bps t ! k)" if "j < MAX_BPS" "k < MAX_BPS" "j \<noteq> k" for j k
    using that assms(1,2,4) L sym by (auto simp: assms(5) nth_list_update debug_ok_def)
  ultimately show ?thesis using L by (simp add: debug_ok_def assms(5))
qed

text \<open>
  An address that the pending step breakpoints, if any, do not touch. (Without a step under way every address is
  one.) Stores there commute with taking the step breakpoints out.
\<close>

definition step_apart :: "u32 \<Rightarrow> debug_state \<Rightarrow> bool" where
  "step_apart a s \<longleftrightarrow> (\<forall>b \<in> {g_stepbp0 s, g_stepbp1 s}. bp_active b \<longrightarrow>
     aligned (bp_address b) \<and> mask_addr (bp_address b) \<noteq> mask_addr a)"

definition without_step :: "debug_state \<Rightarrow> mem \<Rightarrow> mem" where
  "without_step s m = unplant (g_stepbp1 s) (unplant (g_stepbp0 s) m)"

lemma original_without_step: "original s = fold unplant (g_bps s) (without_step s (dmem s))"
  by (simp add: original_def without_step_def)

lemma quiet_apart: "quiet s \<Longrightarrow> step_apart a s"
  by (simp add: quiet_def step_apart_def)

lemma unplant_sw:
  "aligned a \<Longrightarrow> bp_active b \<longrightarrow> aligned (bp_address b) \<and> mask_addr (bp_address b) \<noteq> mask_addr a \<Longrightarrow>
   unplant b (sw m a v) = sw (unplant b m) a v \<and> lw (unplant b m) a = lw m a"
  using sw_commute [of "bp_address b" a m "bp_oldinst b" v] lw_sw_other [of "bp_address b" a]
  by (cases "bp_address b = a") (auto simp: unplant_def)

lemma without_step_sw:
  assumes "aligned a" "step_apart a s"
  shows "without_step s (sw m a v) = sw (without_step s m) a v" and "lw (without_step s m) a = lw m a"
  using assms unplant_sw [OF assms(1), of "g_stepbp0 s"] unplant_sw [OF assms(1), of "g_stepbp1 s"]
  by (simp_all add: without_step_def step_apart_def)

text \<open>The breakpoint commands leave the step breakpoints alone.\<close>

definition same_step :: "debug_state \<Rightarrow> debug_state \<Rightarrow> bool" where
  "same_step s t \<longleftrightarrow> g_stepbp0 t = g_stepbp0 s \<and> g_stepbp1 t = g_stepbp1 s"

lemma same_stepD: "same_step s t \<Longrightarrow> without_step t = without_step s \<and> quiet t = quiet s"
  by (simp add: same_step_def without_step_def quiet_def fun_eq_iff)

lemma debugSetBP_same_step: "debugSetBP a s = (r, s') \<Longrightarrow> same_step s s'"
  by (auto simp: debugSetBP_def same_step_def split: if_splits option.splits)

lemma debugDeleteBp_same_step: "same_step s (debugDeleteBp i s)"
  by (simp add: debugDeleteBp_def take_out_def same_step_def Let_def)

lemma debugSetBP_spec:
  assumes ok: "debug_ok s" and q: "step_apart a s" and al: "aligned a" and r: "debugSetBP a s = (r, s')"
  shows "debug_ok s' \<and> original s' = original s"
proof (cases r)
  case False
  then have "s' = s" using r by (auto simp: debugSetBP_def split: if_splits option.splits)
  with ok show ?thesis by simp
next
  case True
  let ?b = "\<lparr>bp_address = a, bp_oldinst = lw (dmem s) a, bp_active = True\<rparr>" and ?m = "without_step s (dmem s)"
  obtain i where i: "find_bp a (g_bps s) = None" "find_freebp (g_bps s) = Some i"
    "s' = s\<lparr>dmem := sw (dmem s) a SW_BREAK_INST, g_bps := (g_bps s)[i := ?b]\<rparr>"
    using r True by (auto simp: debugSetBP_def split: if_splits option.splits)
  note F = find_freebp_Some [OF i(2)] and W = same_stepD [OF debugSetBP_same_step [OF r]]
  have L: "length (g_bps s) = MAX_BPS" using ok by (simp add: debug_ok_def)
  have c: "\<forall>j < MAX_BPS. j \<noteq> i \<longrightarrow> compatible ?b (g_bps s ! j)"
    using find_bp_None [OF i(1)] al ok L by (fastforce simp: compatible_def debug_ok_def)
  have "debug_ok s'" using debug_ok_update [OF ok _ _ c] F al i(3) by simp
  moreover have "original s' = original s"
  proof -
    have "original s' = fold unplant ((g_bps s)[i := ?b]) (sw ?m a SW_BREAK_INST)"
      using W without_step_sw(1) [OF al q] by (simp add: original_without_step i(3))
    also have "\<dots> = fold unplant ((g_bps s)[i := ?b\<lparr>bp_active := False\<rparr>]) (unplant ?b (sw ?m a SW_BREAK_INST))"
      using F L c by (intro fold_unplant_at) auto
    also have "unplant ?b (sw ?m a SW_BREAK_INST) = ?m"
      using without_step_sw(2) [OF al q, of "dmem s"] sw_lw_id [of ?m a] by (simp add: unplant_def mem_simps)
    also have "fold unplant ((g_bps s)[i := ?b\<lparr>bp_active := False\<rparr>]) ?m = fold unplant (g_bps s) ?m"
    proof -
      have "fold unplant ((g_bps s)[i := g_bps s ! i]) ?m =
          fold unplant ((g_bps s)[i := (g_bps s ! i)\<lparr>bp_active := False\<rparr>]) (unplant (g_bps s ! i) ?m)"
        using F L ok by (intro fold_unplant_at) (auto simp: debug_ok_def)
      moreover have "fold unplant ((g_bps s)[i := c]) m = fold unplant ((g_bps s)[i := d]) m"
        if "\<not> bp_active c" "\<not> bp_active d" for c d m
        using that F L by (simp add: upd_conv_take_nth_drop unplant_def)
      ultimately show ?thesis using F by (simp add: unplant_def)
    qed
    finally show ?thesis by (simp add: original_without_step)
  qed
  ultimately show ?thesis by simp
qed

subsection \<open>Taking out\<close>

lemma take_out_spec:
  assumes ok: "debug_ok s" and i: "i < MAX_BPS" "bp_active (g_bps s ! i)" and q: "step_apart (bp_address (g_bps s ! i)) s"
  shows "debug_ok (take_out i s) \<and> original (take_out i s) = original s"
proof -
  let ?b = "g_bps s ! i"
  have L: "length (g_bps s) = MAX_BPS" using ok by (simp add: debug_ok_def)
  have al: "aligned (bp_address ?b)" using ok i L by (simp add: debug_ok_def)
  have "debug_ok (take_out i s)"
    by (rule debug_ok_update [OF ok i(1), of "?b\<lparr>bp_active := False\<rparr>"])
      (simp_all add: take_out_def Let_def compatible_def)
  moreover have "original (take_out i s) = original s"
  proof -
    have "fold unplant ((g_bps s)[i := ?b]) (without_step s (dmem s)) =
        fold unplant ((g_bps s)[i := ?b\<lparr>bp_active := False\<rparr>]) (unplant ?b (without_step s (dmem s)))"
      using i(1) L ok by (intro fold_unplant_at) (auto simp: debug_ok_def)
    then show ?thesis using without_step_sw(1) [OF al q] i(2)
      by (simp add: original_without_step without_step_def take_out_def Let_def unplant_def)
  qed
  ultimately show ?thesis by simp
qed

lemma take_out_quiet: "quiet s \<Longrightarrow> quiet (take_out i s)"
  by (simp add: quiet_def take_out_def Let_def)

text \<open>Deleting breakpoint \<open>i\<close> while a step is under way: not one on which a step breakpoint lies.\<close>

definition delete_apart :: "int \<Rightarrow> debug_state \<Rightarrow> bool" where
  "delete_apart i s \<longleftrightarrow> (0 \<le> i \<and> i < int MAX_BPS \<and> bp_active (g_bps s ! nat i) \<longrightarrow>
     step_apart (bp_address (g_bps s ! nat i)) s)"

lemma debugDeleteBp_spec:
  "debug_ok s \<Longrightarrow> delete_apart i s \<Longrightarrow> debug_ok (debugDeleteBp i s) \<and> original (debugDeleteBp i s) = original s"
  using take_out_spec [of s "nat i"] by (auto simp: debugDeleteBp_def delete_apart_def)

subsection \<open>Stepping and stopping\<close>

lemma recover_spec:
  "quiet (recover1 (recover0 s)) \<and> g_bps (recover1 (recover0 s)) = g_bps s \<and>
   dmem (recover1 (recover0 s)) = unplant (g_stepbp1 s) (unplant (g_stepbp0 s) (dmem s))"
  by (auto simp: recover0_def recover1_def quiet_def unplant_def Let_def)

lemma debug_ok_bps: "g_bps t = g_bps s \<Longrightarrow> debug_ok t = debug_ok s"
  by (simp add: debug_ok_def)

lemma debugHandleException_spec:
  assumes ok: "debug_ok s" and r: "debugHandleException a s = (r, s')"
  shows "debug_ok s' \<and> original s' = original s \<and> (r \<longleftrightarrow> check_bp a s) \<and> (r \<longrightarrow> quiet s') \<and> (r \<or> s' = s)"
proof (cases "check_bp a s")
  case True
  let ?t = "recover1 (recover0 s)"
  note R = recover_spec [of s]
  have t: "debug_ok ?t" using ok R debug_ok_bps by blast
  have q: "quiet ?t" using R by blast
  have o: "original ?t = original s"
    unfolding original_quiet [OF q] original_def [of s] using R by metis
  show ?thesis
  proof (cases "find_bp a (g_bps ?t)")
    case None
    then show ?thesis using r True t o R by (simp add: debugHandleException_def Let_def)
  next
    case (Some i)
    note F = find_bp_Some [OF Some]
    from r True Some have "r" "s' = take_out i ?t" by (auto simp: debugHandleException_def Let_def)
    with take_out_spec [OF t, of i] take_out_quiet [OF q, of i] quiet_apart [OF q] F R o True show ?thesis by auto
  qed
qed (use ok r in \<open>simp add: debugHandleException_def\<close>)

lemma unplant_plant: "plant m a = (b, m') \<Longrightarrow> unplant b m' = m"
  by (auto simp: plant_def unplant_def mem_simps)

lemma plant_two:
  assumes "aligned a" "aligned b" "a \<noteq> b"
  shows "sw (sw (sw (sw m a x) b y) a (lw m a)) b (lw (sw m a x) b) = m"
proof -
  have "sw (sw (sw (sw m a x) b y) a (lw m a)) b v = sw (sw (sw (sw m a x) a (lw m a)) b y) b v" for v
    using sw_commute [OF assms, of "sw m a x" "lw m a" y] by simp
  then show ?thesis by (simp add: mem_simps lw_sw_other [OF assms])
qed

text \<open>Planting the step breakpoints changes nothing but memory and the step entries.\<close>

lemma step_generic_spec:
  assumes "quiet s" and "aligned (epc rb)" and "aligned (targetpc (decode_step (lw (dmem s) (epc rb)) rb))"
  shows "g_bps (step_generic rb skip s) = g_bps s \<and>
    unplant (g_stepbp1 (step_generic rb skip s))
      (unplant (g_stepbp0 (step_generic rb skip s)) (dmem (step_generic rb skip s))) = dmem s"
proof -
  have a: "aligned (epc rb + 8)" using aligned_add [OF assms(2), of 8] by (simp add: aligned_def)
  show ?thesis
    using assms(1) plant_two [OF assms(3) a, of "dmem s" SW_BREAK_INST SW_BREAK_INST]
    by (auto simp: step_generic_def Let_def plant0_def plant1_def plant_def unplant_def quiet_def mem_simps)
qed

lemma branch_aligned: "aligned (next :: u32) \<Longrightarrow> aligned (next + branch_offset opcode)"
proof (rule aligned_add)
  show "aligned (branch_offset opcode)"
    by (simp add: aligned_unat branch_offset_def unat_word_ariths mod_mod_cancel)
qed

text \<open>Only a jump through a register can lead to an address that is not a word's.\<close>

lemma decode_step_aligned:
  assumes "aligned (epc rb)" "aligned (regs rb ! unat (drop_bit 21 opcode AND 0x1f))"
  shows "aligned (targetpc (decode_step opcode rb))"
proof -
  have n: "aligned (epc rb + 4)" using aligned_add [OF assms(1), of 4] by (simp add: aligned_def)
  have "aligned (push_bit 2 x)" for x
    by (simp add: aligned_unat push_bit_eq_mult unat_word_ariths mod_mod_cancel)
  moreover have "(x AND 0xf0000000) AND 3 = 0" for x :: u32
    by (simp only: and.assoc) simp
  ultimately have j: "aligned (push_bit 2 x OR (epc rb + 4 AND 0xf0000000))" for x
    by (simp add: aligned_def bit.conj_disj_distrib2)
  show ?thesis
    unfolding decode_step_def Let_def conditional_def fall_through_def
    by (simp only: if_distrib [of targetpc] step_target.simps if_distrib [of aligned] n assms(2) j
        branch_aligned [OF n] if_cancel)
qed

lemma find_bp_start: "find_bp a (g_bps (debug_start m)) = None"
proof (rule ccontr)
  assume "find_bp a (g_bps (debug_start m)) \<noteq> None"
  then obtain i where "find_bp a (g_bps (debug_start m)) = Some i" by blast
  from find_bp_Some [OF this] show False by (auto simp: debug_start_def no_bp_def)
qed

section \<open>Debugging sessions\<close>

text \<open>
  What a user and the program can do. Exceptions come at any time and anywhere, and breakpoints are set and
  deleted also while a step is under way (its breakpoints are planted and have not been hit). The steps of a
  session leave out what follows, none of which the code tests:

  \<^item> a breakpoint set, or deleted, at the address of a pending step breakpoint (\<open>step_bp_lost\<close> below shows that
    this leaves the break instruction in the program);
  \<^item> a step while another one is pending, whose breakpoints are then forgotten (\<open>second_step_lost\<close>);
  \<^item> addresses that are not a word's, at which \<open>_lw\<close> and \<open>_sw\<close> trap. The command \<open>bpset\<close> rounds its address down.
\<close>

inductive debug_session :: "mem \<Rightarrow> debug_state \<Rightarrow> bool" for m :: mem where
  start: "debug_session m (debug_start m)"
| set_bp: "debug_session m s \<Longrightarrow> step_apart a s \<Longrightarrow> aligned a \<Longrightarrow> debugSetBP a s = (r, s') \<Longrightarrow> debug_session m s'"
| delete_bp: "debug_session m s \<Longrightarrow> delete_apart i s \<Longrightarrow> debug_session m (debugDeleteBp i s)"
| step_on: "debug_session m s \<Longrightarrow> quiet s \<Longrightarrow> aligned (epc rb) \<Longrightarrow>
    aligned (targetpc (decode_step (lw (dmem s) (epc rb)) rb)) \<Longrightarrow>
    debugStep (Some rb) skip s = (s', True) \<Longrightarrow> debug_session m s'"
| stop: "debug_session m s \<Longrightarrow> debugHandleException a s = (r, s') \<Longrightarrow> debug_session m s'"

lemma debug_session_inv: "debug_session m s \<Longrightarrow> debug_ok s \<and> original s = m"
proof (induction rule: debug_session.induct)
  case start
  then show ?case using debug_start_ok by blast
next
  case (set_bp s a r s')
  then show ?case using debugSetBP_spec by metis
next
  case (delete_bp s i)
  then show ?case using debugDeleteBp_spec by blast
next
  case (step_on s rb skip s')
  have s': "s' = step_generic rb skip s" using step_on by (simp add: debugStep_def)
  note S = step_generic_spec [OF step_on(2,3,4), of skip]
  have "debug_ok s'" using S step_on(6) debug_ok_bps [of s' s] by (simp add: s')
  moreover have "original s' = m"
    using S step_on(6) original_quiet [OF step_on(2)] by (simp add: s' original_def)
  ultimately show ?case by simp
next
  case (stop s a r s')
  then show ?case using debugHandleException_spec by blast
qed

lemma no_bp_memory: "quiet s \<Longrightarrow> \<forall>b \<in> set (g_bps s). \<not> bp_active b \<Longrightarrow> original s = dmem s"
proof -
  assume q: "quiet s" and n: "\<forall>b \<in> set (g_bps s). \<not> bp_active b"
  have "\<forall>b \<in> set bs. \<not> bp_active b \<Longrightarrow> fold unplant bs m = m" for bs and m
    by (induction bs arbitrary: m) (simp_all add: unplant_def)
  with n original_quiet [OF q] show ?thesis by simp
qed

section \<open>Where it fails\<close>

text \<open>
  The first instruction is stepped, a breakpoint is set where the step will stop, and the program stops there: no
  breakpoint is left, but the break instruction is still in the program.
\<close>

abbreviation zero_block :: RegBlock where "zero_block \<equiv> \<lparr>epc = 0, regs = []\<rparr>"

lemma step_zero: "step_generic zero_block False (debug_start (\<lambda>_. 0)) =
    (debug_start (\<lambda>_. 0))\<lparr>dmem := sw (\<lambda>_. 0) 4 SW_BREAK_INST, g_stepbp0 := \<lparr>bp_address = 4, bp_oldinst = 0, bp_active = True\<rparr>\<rparr>"
proof -
  have d: "lw (dmem (debug_start (\<lambda>_. 0))) a = 0" for a by (simp add: debug_start_def lw_def)
  have "decode_step 0 zero_block = fall_through 4" by (simp add: decode_step_def)
  then show ?thesis using d by (simp add: step_generic_def fall_through_def plant0_def plant_def Let_def debug_start_def)
qed

lemma step_bp_lost:
  defines "s \<equiv> snd (debugSetBP 4 (step_generic zero_block False (debug_start (\<lambda>_. 0))))"
  shows "lw (dmem (snd (debugHandleException 4 s))) 4 = SW_BREAK_INST \<and> find_bp 4 (g_bps (snd (debugHandleException 4 s))) = None"
proof -
  let ?b = "\<lparr>bp_address = 4, bp_oldinst = SW_BREAK_INST, bp_active = True\<rparr>"
  have n: "find_bp 4 (replicate MAX_BPS no_bp) = None" "find_freebp (replicate MAX_BPS no_bp) = Some 0"
    "find_bp 4 ((replicate MAX_BPS no_bp)[0 := ?b]) = Some 0"
    "find_bp 4 ((replicate MAX_BPS no_bp)[0 := ?b\<lparr>bp_active := False\<rparr>]) = None"
    by (simp_all add: find_bp_def find_freebp_def no_bp_def find_None_iff upt_conv_Cons nth_list_update)
  have s: "s = (debug_start (\<lambda>_. 0))\<lparr>dmem := sw (\<lambda>_. 0) 4 SW_BREAK_INST,
      g_stepbp0 := \<lparr>bp_address = 4, bp_oldinst = 0, bp_active = True\<rparr>, g_bps := (replicate MAX_BPS no_bp)[0 := ?b]\<rparr>"
    using n unfolding s_def step_zero by (simp add: debugSetBP_def debug_start_def mem_simps)
  show ?thesis using n unfolding s
    by (simp add: debugHandleException_def check_bp_def recover0_def recover1_def take_out_def debug_start_def Let_def
        no_bp_def mem_simps)
qed

text \<open>A second step forgets the breakpoint of the first.\<close>

lemma second_step_lost:
  assumes "bp_active (g_stepbp0 s)" "\<not> link (decode_step (lw (dmem s) (epc rb)) rb) \<or> \<not> skip"
    "targetpc (decode_step (lw (dmem s) (epc rb)) rb) \<noteq> bp_address (g_stepbp0 s)"
  shows "bp_address (g_stepbp0 (step_generic rb skip s)) \<noteq> bp_address (g_stepbp0 s)"
  using assms by (auto simp: step_generic_def plant0_def plant1_def plant_def Let_def)

section \<open>Properties\<close>

text \<open>
  C1: Debugging leaves the program as it was: after any sequence of setting and deleting breakpoints, steps and
  exceptions, the memory with the active breakpoints taken out is the original one; in particular, once no
  breakpoint is active and no step under way, memory is exactly what it was at the start. Breakpoints may be set
  and deleted while a step is under way, but not at an address where a step breakpoint lies, and a step begins
  only when none is under way: the code does not check either, and there it fails. Addresses are those of words.
\<close>
theorem debug_session_memory:
  assumes "debug_session m s"
  shows "original s = m \<and> (quiet s \<and> (\<forall>b \<in> set (g_bps s). \<not> bp_active b) \<longrightarrow> dmem s = m)"
  using debug_session_inv [OF assms] no_bp_memory [of s] by auto

theorem debug_session_memory_witness:
  "\<exists>s. debug_session (\<lambda>_. 0) s \<and> lw (dmem s) 8 = SW_BREAK_INST \<and> original s = (\<lambda>_. 0)"
proof -
  obtain r s where e: "debugSetBP 8 (debug_start (\<lambda>_. 0)) = (r, s)" by fastforce
  have "find_bp 8 (replicate MAX_BPS no_bp) = None" "find_freebp (replicate MAX_BPS no_bp) = Some 0"
    by (simp_all add: find_bp_def find_freebp_def no_bp_def find_None_iff upt_conv_Cons)
  then have "lw (dmem s) 8 = SW_BREAK_INST" using e by (auto simp: debugSetBP_def debug_start_def mem_simps)
  moreover have "debug_session (\<lambda>_. 0) s"
    by (rule debug_session.set_bp [OF debug_session.start _ _ e])
      (use debug_start_ok quiet_apart in \<open>auto simp: aligned_def\<close>)
  ultimately show ?thesis using debug_session_memory [of "\<lambda>_. 0" s] by blast
qed

text \<open>
  C14: A step is transparent: when the program stops at one of the step's own breakpoints, where the
  user has none, the handler leaves memory and the user's breakpoints exactly as they were before the
  step, and no step under way.
\<close>
theorem step_then_stop:
  assumes "quiet s" and "aligned (epc rb)" and "aligned (targetpc (decode_step (lw (dmem s) (epc rb)) rb))"
    and "t = step_generic rb skip s"
    and "bp_active (g_stepbp0 t) \<and> bp_address (g_stepbp0 t) = a \<or> bp_active (g_stepbp1 t) \<and> bp_address (g_stepbp1 t) = a"
    and "find_bp a (g_bps s) = None"
  shows "\<exists>u. debugHandleException a t = (True, u) \<and> dmem u = dmem s \<and> g_bps u = g_bps s \<and> quiet u"
proof -
  note S = step_generic_spec [OF assms(1-3), of skip] and R = recover_spec [of t]
  have "check_bp a t" using assms(5) by (auto simp: check_bp_def)
  moreover have "find_bp a (g_bps (recover1 (recover0 t))) = None" using R S assms(4,6) by simp
  ultimately show ?thesis using R S assms(4) by (simp add: debugHandleException_def Let_def)
qed

theorem step_then_stop_witness:
  "\<exists>u. debugHandleException 4 (step_generic \<lparr>epc = 0, regs = []\<rparr> False (debug_start (\<lambda>_. 0))) = (True, u)
     \<and> dmem u = (\<lambda>_. 0)"
proof -
  let ?s = "debug_start (\<lambda>_. 0)" and ?rb = "\<lparr>epc = 0, regs = [] :: u32 list\<rparr>"
  have d: "lw (dmem ?s) (epc ?rb) = 0" by (simp add: debug_start_def lw_def)
  have t: "decode_step 0 ?rb = fall_through 4" by (simp add: decode_step_def)
  have "find_bp 4 (g_bps ?s) = None" by (rule find_bp_start)
  moreover have "bp_active (g_stepbp0 (step_generic ?rb False ?s)) \<and> bp_address (g_stepbp0 (step_generic ?rb False ?s)) = 4"
    unfolding step_generic_def Let_def d t by (simp add: fall_through_def plant0_def plant_def Let_def)
  moreover have "quiet ?s" using debug_start_ok by blast
  ultimately show ?thesis
    using step_then_stop [of ?s ?rb "step_generic ?rb False ?s" False 4] unfolding d t
    by (auto simp: fall_through_def aligned_def debug_start_def)
qed

text \<open>
  Setting a breakpoint succeeds exactly when the address has none in any of its views and one of
  the sixteen entries is free; then the break instruction is in memory, and a stop there is recognised
  by \<open>debugHandleException\<close>. A refusal changes nothing.
\<close>
theorem debugSetBP_result:
  assumes "debug_ok s" and "debugSetBP a s = (r, s')"
  shows "(r \<longleftrightarrow> find_bp a (g_bps s) = None \<and> (\<exists>b \<in> set (g_bps s). \<not> bp_active b))
    \<and> (r \<longrightarrow> lw (dmem s') a = SW_BREAK_INST \<and> check_bp a s') \<and> (r \<or> s' = s)"
proof -
  have L: "length (g_bps s) = MAX_BPS" using assms(1) by (simp add: debug_ok_def)
  have free: "find_freebp (g_bps s) = None \<longleftrightarrow> (\<forall>b \<in> set (g_bps s). bp_active b)"
    using L by (auto simp: find_freebp_def find_None_iff all_set_conv_all_nth)
  show ?thesis
  proof (cases "find_bp a (g_bps s) = None \<and> find_freebp (g_bps s) \<noteq> None")
    case False
    then have "\<not> r" "s' = s" using assms(2) by (auto simp: debugSetBP_def split: option.splits)
    with False free show ?thesis by auto
  next
    case True
    then obtain i where i: "find_freebp (g_bps s) = Some i" by blast
    let ?b = "\<lparr>bp_address = a, bp_oldinst = lw (dmem s) a, bp_active = True\<rparr>"
    have s': "r" "s' = s\<lparr>dmem := sw (dmem s) a SW_BREAK_INST, g_bps := (g_bps s)[i := ?b]\<rparr>"
      using assms(2) True i by (auto simp: debugSetBP_def)
    have "find_bp a (g_bps s') \<noteq> None"
      using find_bp_None [of a "g_bps s'" i] find_freebp_Some [OF i] L s'(2) by auto
    with s' True free show ?thesis by (auto simp: check_bp_def mem_simps)
  qed
qed

theorem debugSetBP_result_witness:
  "fst (debugSetBP 8 (debug_start (\<lambda>_. 0))) \<and> \<not> fst (debugSetBP 0x80000008 (snd (debugSetBP 8 (debug_start (\<lambda>_. 0)))))"
proof -
  let ?s = "debug_start (\<lambda>_. 0)"
  obtain r s where e: "debugSetBP 8 ?s = (r, s)" by fastforce
  obtain r' s' where e': "debugSetBP 0x80000008 s = (r', s')" by fastforce
  have "debug_ok ?s" "quiet ?s" using debug_start_ok by blast+
  have "find_bp 8 (g_bps ?s) = None" by (rule find_bp_start)
  moreover have "\<exists>b \<in> set (g_bps ?s). \<not> bp_active b" by (simp add: debug_start_def no_bp_def)
  ultimately have r: "r" "check_bp 8 s" using debugSetBP_result [OF \<open>debug_ok ?s\<close> e] by auto
  have "debug_ok s" using debugSetBP_spec [OF \<open>debug_ok ?s\<close> quiet_apart [OF \<open>quiet ?s\<close>] _ e] by (simp add: aligned_def)
  have "g_stepbp0 s = no_bp" "g_stepbp1 s = no_bp"
    using e by (auto simp: debugSetBP_def debug_start_def split: if_splits option.splits)
  with r have "find_bp 0x80000008 (g_bps s) \<noteq> None"
    by (auto simp: check_bp_def no_bp_def find_bp_def mask_addr_def)
  with debugSetBP_result [OF \<open>debug_ok s\<close> e'] have "\<not> r'" by blast
  with r e e' show ?thesis by simp
qed

end
