(* ===== verification/Gdb.thy ===== *)
theory Gdb
  imports Debug
begin

text \<open>
  The debugger stub, \<open>gdbcommon/gdb-stub.c\<close> and \<open>gdb-common.c\<close>: the remote serial protocol spoken
  with a GDB on the PC (packets with checksums and acknowledgements), hexadecimal and escaped
  binary transfers to memory with their range check, stepping, hardware breakpoints, and the
  command loop. The bytes received are a list that ends when the link does; the bytes and blocks sent are
  recorded. The thread list of the kernel is an argument.
\<close>

section \<open>Bytes\<close>

definition hexchars :: "u8 list" where
  "hexchars = [0x30, 0x31, 0x32, 0x33, 0x34, 0x35, 0x36, 0x37, 0x38, 0x39, 0x61, 0x62, 0x63, 0x64, 0x65, 0x66]"

definition hexchar :: "u8 \<Rightarrow> u8" where
  "hexchar n = hexchars ! unat (n AND 0xf)"

text \<open>\<open>hex\<close>: the value of a digit, or -1.\<close>

definition hex :: "u8 \<Rightarrow> int" where
  "hex ch =
     (if 0x61 \<le> ch \<and> ch \<le> 0x66 then uint ch - 0x61 + 10
      else if 0x30 \<le> ch \<and> ch \<le> 0x39 then uint ch - 0x30
      else if 0x41 \<le> ch \<and> ch \<le> 0x46 then uint ch - 0x41 + 10
      else -1)"

text \<open>Two digits of a byte, and the byte of two digits.\<close>

definition byte_hex :: "u8 \<Rightarrow> u8 list" where
  "byte_hex b = [hexchar (drop_bit 4 b), hexchar b]"

definition hex_byte :: "u8 \<Rightarrow> u8 \<Rightarrow> u8" where
  "hex_byte a b = push_bit 4 (word_of_int (hex a)) OR word_of_int (hex b)"

definition str :: "string \<Rightarrow> u8 list" where
  "str s = map of_char s"

text \<open>\<open>buf[i]\<close>, zero past what is modelled of the buffer.\<close>

definition byte_at :: "u8 list \<Rightarrow> nat \<Rightarrow> u8" where
  "byte_at buf i = (if i < length buf then buf ! i else 0)"

definition cbytes :: "u8 list \<Rightarrow> u8 list" where
  "cbytes buf = takeWhile (\<lambda>b. b \<noteq> 0) buf"

lemma byte_cases:
  assumes "\<forall>n < 256. P (word_of_nat n :: u8)"
  shows "P (b :: u8)"
proof -
  have "unat b < 256" using unsigned_less [of b] by simp
  with assms have "P (word_of_nat (unat b))" by blast
  then show ?thesis by simp
qed

lemma nibble_cases:
  assumes "\<forall>n < 16. P (word_of_nat n :: u8)"
  shows "P (b AND 0xf)"
proof -
  have "(0xf :: u8) = mask 4" by (simp add: mask_eq_exp_minus_1)
  then have "unat (b AND 0xf) < 16"
    by (simp only: take_bit_eq_mask [symmetric]) (simp add: take_bit_eq_mod unat_mod)
  with assms have "P (word_of_nat (unat (b AND 0xf)))" by blast
  then show ?thesis by simp
qed

lemma less_16: "(\<forall>n < (16 :: nat). P n) \<longleftrightarrow> P 0 \<and> P 1 \<and> P 2 \<and> P 3 \<and> P 4 \<and> P 5 \<and> P 6 \<and> P 7 \<and> P 8 \<and> P 9
    \<and> P 10 \<and> P 11 \<and> P 12 \<and> P 13 \<and> P 14 \<and> P 15"
  by (simp add: numeral_eq_Suc All_less_Suc conj_ac)

lemma hex_hexchar: "hex (hexchar n) = uint (n AND 0xf)"
proof -
  have "hex (hexchars ! unat (n AND 0xf)) = uint (n AND 0xf)"
    by (rule nibble_cases [where P = "\<lambda>x. hex (hexchars ! unat x) = uint x"])
      (simp only: less_16, simp add: hexchars_def hex_def)
  then show ?thesis by (simp add: hexchar_def)
qed

lemma hexchar_digit: "hexchar n \<in> set hexchars"
proof -
  have "hexchars ! unat (n AND 0xf) \<in> set hexchars"
    by (rule nibble_cases [where P = "\<lambda>x. hexchars ! unat x \<in> set hexchars"])
      (simp only: less_16, simp add: hexchars_def)
  then show ?thesis by (simp add: hexchar_def)
qed

lemma hex_byte_hexchar: "hex_byte (hexchar (drop_bit 4 b)) (hexchar b) = b"
proof -
  have f: "(0xf :: u8) = mask 4" by (simp add: mask_eq_exp_minus_1)
  have "hex_byte (hexchar (drop_bit 4 b)) (hexchar b) = push_bit 4 (drop_bit 4 b AND 0xf) OR (b AND 0xf)"
    by (simp add: hex_byte_def hex_hexchar)
  also have "\<dots> = b"
    unfolding f by (rule bit_word_eqI) (auto simp: bit_simps)
  finally show ?thesis .
qed

section \<open>Packets\<close>

abbreviation MAX_BUF :: nat where "MAX_BUF \<equiv> 2048"
abbreviation DOLLAR :: u8 where "DOLLAR \<equiv> 0x24"
abbreviation HASH :: u8 where "HASH \<equiv> 0x23"
abbreviation PLUS :: u8 where "PLUS \<equiv> 0x2b"
abbreviation DASH :: u8 where "DASH \<equiv> 0x2d"
abbreviation COLON :: u8 where "COLON \<equiv> 0x3a"
abbreviation COMMA :: u8 where "COMMA \<equiv> 0x2c"

definition checksum_of :: "u8 list \<Rightarrow> u8" where
  "checksum_of p = sum_list p"

definition packet_frame :: "u8 list \<Rightarrow> u8 list" where
  "packet_frame p = DOLLAR # p @ HASH # byte_hex (checksum_of p)"

text \<open>
  The loop of \<open>putpacket\<close>: the index into \<open>outputbuffer\<close> is not reset, so every retry sends all that was
  sent before and the packet again. The blocks written, the rest of the input, and the result.
\<close>

fun putpacket_loop :: "u8 list \<Rightarrow> u8 list \<Rightarrow> u8 list \<Rightarrow> u8 list list \<times> u8 list \<times> bool" where
  "putpacket_loop p outputbuffer [] = ([outputbuffer @ packet_frame p], [], False)"
| "putpacket_loop p outputbuffer (ch # inp) =
     (let out = outputbuffer @ packet_frame p
      in if ch AND 0x7f \<noteq> PLUS then
           let (ws, rest, ok) = putpacket_loop p out inp in (out # ws, rest, ok)
         else ([out], inp, True))"

definition putpacket :: "u8 list \<Rightarrow> u8 list \<Rightarrow> u8 list list \<times> u8 list \<times> bool" where
  "putpacket buffer inp = putpacket_loop (cbytes buffer) [] inp"

text \<open>The wait for the start of a packet.\<close>

fun wait_start :: "u8 list \<Rightarrow> u8 list option" where
  "wait_start [] = None"
| "wait_start (ch # inp) = (if ch AND 0x7F = DOLLAR then Some inp else wait_start inp)"

text \<open>
  Reading up to the hash sign: the bytes stored, whether the hash sign was met (if not, the buffer is
  full), and the rest of the input.
\<close>

fun read_body :: "nat \<Rightarrow> u8 list \<Rightarrow> (u8 list \<times> bool \<times> u8 list) option" where
  "read_body 0 inp = Some ([], False, inp)"
| "read_body (Suc n) [] = None"
| "read_body (Suc n) (ch # inp) =
     (if ch = HASH then Some ([], True, inp)
      else map_option (\<lambda>(b, e, r). (ch # b, e, r)) (read_body n inp))"

text \<open>The start of a buffer is overwritten.\<close>

definition overwrite :: "u8 list \<Rightarrow> u8 list \<Rightarrow> u8 list" where
  "overwrite b buf = b @ drop (length b) buf"

text \<open>\<open>for (i = 3; i <= count; i++) buffer[i-3] = buffer[i]\<close>.\<close>

definition drop_sequence :: "u8 list \<Rightarrow> u8 list" where
  "drop_sequence buf = (let count = length (cbytes buf) in overwrite (take (count - 2) (drop 3 buf)) buf)"

lemma wait_start_length: "wait_start inp = Some r \<Longrightarrow> length r < length inp"
  by (induction inp) (auto split: if_splits)

lemma read_body_length: "read_body n inp = Some (b, e, r) \<Longrightarrow> length r \<le> length inp"
  by (induction n inp arbitrary: b e rule: read_body.induct) (fastforce split: if_splits)+

text \<open>
  \<open>getpacket\<close>: the new contents of the buffer if a packet was accepted, the bytes put, and
  the rest of the input. A packet that fills the buffer goes to the loop's test with
  \<open>xmitcsum\<close> still at its initial value 255.
\<close>

function getpacket :: "u8 list \<Rightarrow> u8 list \<Rightarrow> u8 list option \<times> u8 list \<times> u8 list" where
  "getpacket buf inp =
     (case wait_start inp of None \<Rightarrow> (None, [], [])
      | Some inp1 \<Rightarrow>
         (case read_body MAX_BUF inp1 of None \<Rightarrow> (None, [], [])
          | Some (body, ended, inp2) \<Rightarrow>
             (let checksum = checksum_of body in
              if \<not> ended then
                (if checksum \<noteq> 0xff then getpacket (overwrite body buf) inp2
                 else (Some (overwrite body buf), [], inp2))
              else let buf' = overwrite (body @ [0]) buf in
                (case inp2 of
                   c1 # c2 # inp3 \<Rightarrow>
                     (let xmitcsum = hex_byte (c1 AND 0x7f) (c2 AND 0x7f) in
                      if checksum \<noteq> xmitcsum then
                        (let (r, ps, rest) = getpacket buf' inp3 in (r, DASH # ps, rest))
                      else if byte_at buf' 2 = COLON then
                        (Some (drop_sequence buf'), [PLUS, byte_at buf' 0, byte_at buf' 1], inp3)
                      else (Some buf', [PLUS], inp3))
                 | _ \<Rightarrow> (None, [], [])))))"
  by pat_completeness auto
termination
proof (relation "measure (\<lambda>(buf, inp). length inp)", goal_cases)
  case (2 buf inp inp1 x body y ended inp2 checksum)
  then show ?case using wait_start_length [of inp inp1] read_body_length [of MAX_BUF inp1 body ended inp2] by auto
next
  case (3 buf inp inp1 x body y ended inp2 checksum buf' c1 z c2 inp3 xmitcsum)
  then show ?case using wait_start_length [of inp inp1] read_body_length [of MAX_BUF inp1 body ended inp2] by auto
qed simp

declare getpacket.simps [simp del]

section \<open>Memory transfers\<close>

definition gdb_accessible :: "u32 \<Rightarrow> bool" where
  "gdb_accessible a \<longleftrightarrow> 0x08800000 \<le> a \<and> a < 0x0a000000"

definition GdbReadByte :: "mem \<Rightarrow> u32 \<Rightarrow> u8 option" where
  "GdbReadByte m a = (if gdb_accessible a then Some (m a) else None)"

definition GdbWriteByte :: "u8 \<Rightarrow> u32 \<Rightarrow> mem \<Rightarrow> mem option" where
  "GdbWriteByte v a m = (if gdb_accessible a then Some (m(a := v)) else None)"

text \<open>\<open>mem2hex\<close>: the digits written, unless a byte cannot be read.\<close>

fun mem2hex :: "mem \<Rightarrow> u32 \<Rightarrow> nat \<Rightarrow> u8 list option" where
  "mem2hex m a 0 = Some []"
| "mem2hex m a (Suc count) =
     (case GdbReadByte m a of None \<Rightarrow> None
      | Some ch \<Rightarrow> map_option (\<lambda>t. byte_hex ch @ t) (mem2hex m (a + 1) count))"

text \<open>The next byte of \<open>hex2mem\<close>, hexadecimal or escaped binary, and the number of characters it took.\<close>

definition next_byte :: "u8 list \<Rightarrow> bool \<Rightarrow> u8 \<times> nat" where
  "next_byte buf binary =
     (if binary then
        (let ch = byte_at buf 0 in if ch = 0x7d then (0x20 XOR byte_at buf 1, 2) else (ch, 1))
      else (hex_byte (byte_at buf 0) (byte_at buf 1), 2))"

text \<open>\<open>hex2mem\<close>: the memory after the bytes written up to the first that is refused, if any.\<close>

fun hex2mem :: "u8 list \<Rightarrow> u32 \<Rightarrow> nat \<Rightarrow> bool \<Rightarrow> mem \<Rightarrow> bool \<times> mem" where
  "hex2mem buf a 0 binary m = (True, m)"
| "hex2mem buf a (Suc count) binary m =
     (let (ch, k) = next_byte buf binary
      in case GdbWriteByte ch a m of None \<Rightarrow> (False, m)
         | Some m' \<Rightarrow> hex2mem (drop k buf) (a + 1) count binary m')"

text \<open>\<open>hexToInt\<close>: the number of digits, the value, and what follows.\<close>

fun hexToInt_loop :: "u8 list \<Rightarrow> u32 \<Rightarrow> nat \<times> u32 \<times> u8 list" where
  "hexToInt_loop [] v = (0, v, [])"
| "hexToInt_loop (c # ptr) v =
     (if c = 0 \<or> hex c < 0 then (0, v, c # ptr)
      else let (n, v', r) = hexToInt_loop ptr (push_bit 4 v OR word_of_int (hex c)) in (Suc n, v', r))"

definition hexToInt :: "u8 list \<Rightarrow> nat \<times> u32 \<times> u8 list" where
  "hexToInt ptr = hexToInt_loop ptr 0"

text \<open>\<open>strtohex\<close> for the characters below 128 (others index \<open>hexchars\<close> with a negative number).\<close>

definition strtohex :: "u8 list \<Rightarrow> u8 list" where
  "strtohex s = concat (map byte_hex s)"

section \<open>The state of the stub\<close>

text \<open>
  The register block seen by GDB: 90 words in the order of the \<open>g\<close> packet, which is the order
  of the structure (\<open>r\<close>, status to epc, \<open>fpr\<close>, \<open>fsr\<close> and \<open>fir\<close>, \<open>frame_ptr\<close>, \<open>index\<close> and on).
\<close>

record gdb_regs =
  g_r :: "u32 list"
  g_cp0 :: "u32 list"
  g_fpr :: "u32 list"
  g_cp1 :: "u32 list"
  g_frp :: "u32 list"
  g_cp0x :: "u32 list"

record gdb_module =
  gm_text :: u32
  gm_textsize :: u32
  gm_datasize :: u32
  gm_segments :: "u32 list"

record gdb_state =
  gmem :: mem
  gstep0 :: BreakPoint
  gstep1 :: BreakPoint
  gregs :: gdb_regs
  gthid :: u32
  gtype_debug :: bool
  gdrcntl :: u32
  started :: bool
  attached :: bool
  g_elf :: bool
  g_hw :: bool
  g_iaddr :: u32
  g_daddr :: u32
  g_datatype :: nat
  g_env :: "DebugEnv option"
  g_module :: gdb_module
  q_threads :: "u32 list"
  q_loc :: nat

definition regs_ok :: "gdb_regs \<Rightarrow> bool" where
  "regs_ok rs \<longleftrightarrow> length (g_r rs) = 32 \<and> length (g_cp0 rs) = 6 \<and> length (g_fpr rs) = 32 \<and>
     length (g_cp1 rs) = 2 \<and> length (g_frp rs) = 2 \<and> length (g_cp0x rs) = 16"

definition reg_epc :: "gdb_regs \<Rightarrow> u32" where
  "reg_epc rs = g_cp0 rs ! 5"

definition set_epc :: "u32 \<Rightarrow> gdb_regs \<Rightarrow> gdb_regs" where
  "set_epc a rs = rs\<lparr>g_cp0 := (g_cp0 rs)[5 := a]\<rparr>"

text \<open>Words in the stub's own structures, as \<open>mem2hex\<close> prints them and \<open>hex2mem\<close> reads them.\<close>

definition word_hex :: "u32 \<Rightarrow> u8 list" where
  "word_hex w = concat (map byte_hex (to_le32 w))"

definition words_hex :: "u32 list \<Rightarrow> u8 list" where
  "words_hex ws = concat (map word_hex ws)"

definition hex_word :: "u8 list \<Rightarrow> u32" where
  "hex_word buf = le32 (map (\<lambda>i. hex_byte (byte_at buf (2 * i)) (byte_at buf (2 * i + 1))) [0, 1, 2, 3])"

fun hex_words :: "u8 list \<Rightarrow> nat \<Rightarrow> u32 list" where
  "hex_words buf 0 = []"
| "hex_words buf (Suc n) = hex_word buf # hex_words (drop 8 buf) n"

definition read_registers :: "gdb_regs \<Rightarrow> u8 list" where
  "read_registers rs = words_hex (g_r rs) @ words_hex (g_cp0 rs) @ words_hex (g_fpr rs)
     @ words_hex (g_cp1 rs) @ words_hex (g_frp rs) @ words_hex (g_cp0x rs)"

definition write_registers :: "u8 list \<Rightarrow> gdb_regs" where
  "write_registers ptr =
     (let p1 = drop (32 * 8) ptr; p2 = drop (6 * 8) p1; p3 = drop (32 * 8) p2;
          p4 = drop (2 * 8) p3; p5 = drop (2 * 8) p4
      in \<lparr>g_r = hex_words ptr 32, g_cp0 = hex_words p1 6, g_fpr = hex_words p2 32,
          g_cp1 = hex_words p3 2, g_frp = hex_words p4 2, g_cp0x = hex_words p5 16\<rparr>)"

section \<open>Signals\<close>

abbreviation SIGHUP :: nat where "SIGHUP \<equiv> 1"
abbreviation SIGILL :: nat where "SIGILL \<equiv> 4"
abbreviation SIGTRAP :: nat where "SIGTRAP \<equiv> 5"
abbreviation SIGFPE :: nat where "SIGFPE \<equiv> 8"
abbreviation SIGBUS :: nat where "SIGBUS \<equiv> 10"
abbreviation SIGSEGV :: nat where "SIGSEGV \<equiv> 11"

definition hard_trap_info :: "(nat \<times> nat) list" where
  "hard_trap_info = [(6, SIGBUS), (7, SIGBUS), (9, SIGTRAP), (10, SIGILL), (12, SIGFPE), (13, SIGTRAP),
     (14, SIGSEGV), (15, SIGFPE), (23, SIGSEGV), (31, SIGSEGV)]"

definition computeSignal :: "nat \<Rightarrow> nat" where
  "computeSignal tt = (case map_of hard_trap_info tt of Some sig \<Rightarrow> sig | None \<Rightarrow> SIGHUP)"

definition exception_signal :: "gdb_state \<Rightarrow> nat" where
  "exception_signal st =
     (if gtype_debug st then SIGTRAP
      else computeSignal (unat (drop_bit 2 (g_cp0 (gregs st) ! 4 AND 0x7c))))"

text \<open>\<open>%08X\<close> and \<open>%08x\<close>.\<close>

definition nibbles :: "u32 \<Rightarrow> u8 list" where
  "nibbles v = map (\<lambda>i. hexchar (ucast (drop_bit (4 * i) v))) [7, 6, 5, 4, 3, 2, 1, 0]"

definition upper :: "u8 \<Rightarrow> u8" where
  "upper b = (if 0x61 \<le> b \<and> b \<le> 0x66 then b - 0x20 else b)"

definition print_x :: "u32 \<Rightarrow> u8 list" where
  "print_x v = nibbles v"

definition print_X :: "u32 \<Rightarrow> u8 list" where
  "print_X v = map upper (nibbles v)"

abbreviation DATABP_TYPE_READ :: nat where "DATABP_TYPE_READ \<equiv> 1"
abbreviation DATABP_TYPE_WRITE :: nat where "DATABP_TYPE_WRITE \<equiv> 2"
abbreviation DATABP_TYPE_ACCESS :: nat where "DATABP_TYPE_ACCESS \<equiv> 3"

definition build_trap_cmd :: "nat \<Rightarrow> gdb_state \<Rightarrow> u8 list" where
  "build_trap_cmd sigval st =
     str ''T'' @ byte_hex (of_nat sigval)
     @ byte_hex 37 @ [COLON] @ word_hex (reg_epc (gregs st)) @ str '';''
     @ byte_hex 30 @ [COLON] @ word_hex (g_r (gregs st) ! 30) @ str '';''
     @ byte_hex 29 @ [COLON] @ word_hex (g_r (gregs st) ! 29) @ str '';''
     @ str ''thread:'' @ print_x (gthid st) @ str '';''
     @ (if gtype_debug st \<and> g_daddr st \<noteq> 0 \<and> bit (gdrcntl st) 12 then
          (let name = (if g_datatype st = DATABP_TYPE_READ then str ''rwatch:''
                       else if g_datatype st = DATABP_TYPE_WRITE then str ''watch:''
                       else if g_datatype st = DATABP_TYPE_ACCESS then str ''awatch:'' else [])
           in if name \<noteq> [] then name @ word_hex (g_daddr st) @ str '';'' else [])
        else [])"

section \<open>Stepping\<close>

text \<open>The stub's own copy of the stepper, which knows system calls as well.\<close>

definition gdb_decode_step :: "u32 \<Rightarrow> RegBlock \<Rightarrow> step_target" where
  "gdb_decode_step opcode rb =
     (if drop_bit 26 opcode = 0 \<and> opcode AND 0x3f = 0xc then fall_through (regs rb ! 31)
      else decode_step opcode rb)"

definition gdb_plant0 :: "u32 \<Rightarrow> gdb_state \<Rightarrow> gdb_state" where
  "gdb_plant0 a s = (let (b, m) = plant (gmem s) a in s\<lparr>gmem := m, gstep0 := b\<rparr>)"

definition gdb_plant1 :: "u32 \<Rightarrow> gdb_state \<Rightarrow> gdb_state" where
  "gdb_plant1 a s = (let (b, m) = plant (gmem s) a in s\<lparr>gmem := m, gstep1 := b\<rparr>)"

definition gdb_step_generic :: "bool \<Rightarrow> gdb_state \<Rightarrow> gdb_state" where
  "gdb_step_generic skip s =
     (let pc = reg_epc (gregs s);
          t = gdb_decode_step (lw (gmem s) pc) \<lparr>epc = pc, regs = g_r (gregs s)\<rparr>; after = pc + 8 in
      if link t \<and> skip then gdb_plant1 after s
      else if branch t then
        let s = gdb_plant0 (targetpc t) s
        in if cond t \<and> targetpc t \<noteq> after then gdb_plant1 after s else s
      else gdb_plant0 (targetpc t) s)"

text \<open>\<open>set_swbp\<close>: the breakpoint at the entry of the program.\<close>

definition set_swbp :: "u32 \<Rightarrow> gdb_state \<Rightarrow> gdb_state" where
  "set_swbp a s = gdb_plant0 a (s\<lparr>gstep0 := no_bp, gstep1 := no_bp\<rparr>)"

definition GdbStubInit :: "gdb_state \<Rightarrow> gdb_state" where
  "GdbStubInit s = s\<lparr>gstep0 := no_bp, gstep1 := no_bp, attached := True\<rparr>"

definition gdb_recover :: "gdb_state \<Rightarrow> gdb_state" where
  "gdb_recover s =
     (let s = (if bp_active (gstep0 s) then
                 s\<lparr>gmem := sw (gmem s) (bp_address (gstep0 s)) (bp_oldinst (gstep0 s)),
                   gstep0 := (gstep0 s)\<lparr>bp_active := False\<rparr>\<rparr> else s)
      in if bp_active (gstep1 s) then
           s\<lparr>gmem := sw (gmem s) (bp_address (gstep1 s)) (bp_oldinst (gstep1 s)),
             gstep1 := (gstep1 s)\<lparr>bp_active := False\<rparr>\<rparr> else s)"

section \<open>Queries and hardware breakpoints\<close>

text \<open>
  What queries ask the kernel: the threads with their entry points, and for a thread its name or an error.
\<close>

record gdb_kernel =
  k_threads :: "(u32 \<times> u32) list"
  k_thread_name :: "u32 \<Rightarrow> u32 + u8 list"

definition starts :: "u8 list \<Rightarrow> string \<Rightarrow> bool" where
  "starts s p \<longleftrightarrow> take (length p) s = str p"

definition own_threads :: "gdb_kernel \<Rightarrow> gdb_state \<Rightarrow> u32 list" where
  "own_threads k st = map fst (filter (\<lambda>(_, ent). gm_text (g_module st) \<le> ent
      \<and> ent < gm_text (g_module st) + gm_textsize (g_module st)) (k_threads k))"

definition handle_query :: "gdb_kernel \<Rightarrow> u8 list \<Rightarrow> gdb_state \<Rightarrow> gdb_state \<times> u8 list" where
  "handle_query k s st =
     (let c = byte_at s 0 in
      if c = of_char (CHR ''C'') then (st, str ''QC'' @ print_X (gthid st))
      else if c = of_char (CHR ''f'') then
        (if starts s ''fThreadInfo'' \<and> k_threads k \<noteq> [] then
           (let ts = own_threads k st in
            if ts \<noteq> [] then (st\<lparr>q_threads := ts, q_loc := 1\<rparr>, str ''m'' @ print_X (hd ts))
            else (st\<lparr>q_threads := ts\<rparr>, []))
         else if starts s ''fThreadInfo'' then (st\<lparr>q_threads := []\<rparr>, [])
         else (st, []))
      else if c = of_char (CHR ''s'') then
        (if starts s ''sThreadInfo'' then
           (if q_loc st < length (q_threads st)
            then (st\<lparr>q_loc := q_loc st + 1\<rparr>, str ''m'' @ print_X (q_threads st ! q_loc st))
            else (st, str ''l''))
         else (st, []))
      else if c = of_char (CHR ''T'') then
        (if starts s ''ThreadExtraInfo,'' then
           (let (n, thid, _) = hexToInt (drop 16 s) in
            if n \<noteq> 0 then
              (st, strtohex (case k_thread_name k thid of
                               Inr name \<Rightarrow> name | Inl err \<Rightarrow> str ''Error: 0x'' @ print_X err))
            else (st, []))
         else (st, []))
      else if c = of_char (CHR ''O'') then
        (if starts s ''Offsets'' \<and> \<not> g_elf st then
           (let md = g_module st; txt = gm_text md;
                data = (if 1 < length (gm_segments md) then gm_segments md ! 1 else txt + gm_textsize md);
                bss = data + gm_datasize md
            in (st, str ''Text='' @ print_X txt @ str '';Data='' @ print_X data @ str '';Bss='' @ print_X bss))
         else (st, []))
      else (st, []))"

definition set_env :: "(DebugEnv \<Rightarrow> DebugEnv) \<Rightarrow> gdb_state \<Rightarrow> gdb_state" where
  "set_env f st = st\<lparr>g_env := map_option f (g_env st)\<rparr>"

definition hwbp_code :: "u32 \<Rightarrow> bool \<Rightarrow> gdb_state \<Rightarrow> gdb_state \<times> u8 list" where
  "hwbp_code a setting st =
     (if setting then
        (if g_iaddr st = 0 then ((set_env (\<lambda>e. e\<lparr>IBA := a, IBAM := 0, IBC := 2\<rparr>) st)\<lparr>g_iaddr := a\<rparr>, str ''OK'')
         else (st, str ''E03''))
      else if g_iaddr st \<noteq> 0 then ((set_env (\<lambda>e. e\<lparr>IBA := 0, IBAM := 0, IBC := 0\<rparr>) st)\<lparr>g_iaddr := 0\<rparr>, str ''OK'')
      else (st, str ''E03''))"

definition hwbp_data :: "nat \<Rightarrow> u32 \<Rightarrow> bool \<Rightarrow> gdb_state \<Rightarrow> gdb_state \<times> u8 list" where
  "hwbp_data datatype a setting st =
     (if setting then
        (if g_daddr st = 0 then
           ((set_env (\<lambda>e. e\<lparr>DBA := a, DBAM := 0, DBC := push_bit 20 (of_nat datatype) OR 2\<rparr>) st)
              \<lparr>g_daddr := a, g_datatype := datatype\<rparr>, str ''OK'')
         else (st, str ''E03''))
      else if g_daddr st \<noteq> 0 then
        ((set_env (\<lambda>e. e\<lparr>DBA := 0, DBAM := 0, DBC := 0\<rparr>) st)\<lparr>g_daddr := 0, g_datatype := 0\<rparr>, str ''OK'')
      else (st, str ''E03''))"

definition handle_hwbp :: "u8 list \<Rightarrow> bool \<Rightarrow> gdb_state \<Rightarrow> gdb_state \<times> u8 list" where
  "handle_hwbp s setting st =
     (if \<not> g_hw st then (st, [])
      else if \<not> (0x30 \<le> byte_at s 0 \<and> byte_at s 0 \<le> 0x39) \<or> byte_at s 1 \<noteq> COMMA then (st, str ''E01'')
      else let (n, a, p) = hexToInt (drop 2 s) in
        if n \<noteq> 0 \<and> byte_at p 0 = COMMA \<and> fst (hexToInt (tl p)) \<noteq> 0 then
          (let d = byte_at s 0 in
           if d = of_char (CHR ''1'') then hwbp_code a setting st
           else if d = of_char (CHR ''4'') then hwbp_data 3 a setting st
           else if d = of_char (CHR ''2'') then hwbp_data 2 a setting st
           else if d = of_char (CHR ''3'') then hwbp_data 1 a setting st
           else (st, []))
        else (st, str ''E01''))"

section \<open>The command loop\<close>

datatype gdb_next = SendReply | RestartProgram | ReplyAndRestart | ExitGame | StartAndRestart

text \<open>\<open>maddr,length\<close> and what follows, as the guards of \<open>m\<close>, \<open>M\<close> and \<open>X\<close> read it.\<close>

definition addr_length :: "u8 list \<Rightarrow> (u32 \<times> u32 \<times> u8 list) option" where
  "addr_length ptr =
     (let (n, a, p) = hexToInt ptr in
      if n \<noteq> 0 \<and> byte_at p 0 = COMMA then
        (let (k, len, q) = hexToInt (tl p) in if k \<noteq> 0 then Some (a, len, q) else None)
      else None)"

text \<open>An \<open>int\<close> count from an \<open>unsigned int\<close>: nothing is done for a negative one.\<close>

definition int_count :: "u32 \<Rightarrow> nat" where
  "int_count len = nat (sint len)"

definition read_memory :: "u8 list \<Rightarrow> gdb_state \<Rightarrow> u8 list" where
  "read_memory ptr st =
     (case addr_length ptr of
        Some (a, len, _) \<Rightarrow> (case mem2hex (gmem st) a (int_count len) of Some t \<Rightarrow> t | None \<Rightarrow> str ''E03'')
      | None \<Rightarrow> str ''E01'')"

definition write_memory :: "bool \<Rightarrow> u8 list \<Rightarrow> gdb_state \<Rightarrow> gdb_state \<times> u8 list" where
  "write_memory binary ptr st =
     (case addr_length ptr of
        Some (a, len, p) \<Rightarrow>
          if byte_at p 0 = COLON then
            (let (ok, m') = hex2mem (tl p) a (int_count len) binary (gmem st)
             in (st\<lparr>gmem := m'\<rparr>, if ok then str ''OK'' else str ''E03''))
          else (st, str ''E02'')
      | None \<Rightarrow> (st, str ''E02''))"

text \<open>One packet, in the buffer \<open>input\<close>: the new state, the reply, and how the loop goes on.\<close>

definition gdb_command :: "gdb_kernel \<Rightarrow> nat \<Rightarrow> u8 list \<Rightarrow> gdb_state \<Rightarrow> gdb_state \<times> u8 list \<times> gdb_next" where
  "gdb_command k sigval input st =
     (let c = byte_at input 0; ptr = tl input in
      if c = of_char (CHR ''?'') then (st, build_trap_cmd sigval st, SendReply)
      else if c = of_char (CHR ''c'') then
        (if \<not> started st then (st\<lparr>started := True\<rparr>, [], StartAndRestart)
         else let (n, a, _) = hexToInt ptr in
           ((if n \<noteq> 0 then st\<lparr>gregs := set_epc a (gregs st)\<rparr> else st), [], RestartProgram))
      else if c = of_char (CHR ''D'') then (st\<lparr>attached := False\<rparr>, [], ReplyAndRestart)
      else if c = of_char (CHR ''g'') then (st, read_registers (gregs st), SendReply)
      else if c = of_char (CHR ''G'') then (st\<lparr>gregs := write_registers ptr\<rparr>, str ''OK'', SendReply)
      else if c = of_char (CHR ''m'') then (st, read_memory ptr st, SendReply)
      else if c = of_char (CHR ''X'') then (let (st', out) = write_memory True ptr st in (st', out, SendReply))
      else if c = of_char (CHR ''M'') then (let (st', out) = write_memory False ptr st in (st', out, SendReply))
      else if c = of_char (CHR ''s'') then
        (let (n, a, _) = hexToInt ptr;
             st = (if n \<noteq> 0 then st\<lparr>gregs := set_epc a (gregs st)\<rparr> else st)
         in (gdb_step_generic False st, [], RestartProgram))
      else if c = of_char (CHR ''q'') then (let (st', out) = handle_query k ptr st in (st', out, SendReply))
      else if c = of_char (CHR ''Z'') then (let (st', out) = handle_hwbp ptr True st in (st', out, SendReply))
      else if c = of_char (CHR ''z'') then (let (st', out) = handle_hwbp ptr False st in (st', out, SendReply))
      else if c = of_char (CHR ''k'') \<or> c = of_char (CHR ''r'') then (st, [], ExitGame)
      else (st, [], SendReply))"

text \<open>What the loop sends and does, in order.\<close>

datatype gdb_event = Put u8 | Block "u8 list" | StartModule | Exit

lemma getpacket_length: "getpacket buf inp = (Some b, ps, rest) \<Longrightarrow> length rest < length inp"
proof (induction buf inp arbitrary: ps rule: getpacket.induct)
  case (1 buf inp)
  obtain inp1 where w: "wait_start inp = Some inp1"
    using "1.prems" by (subst (asm) getpacket.simps) (auto split: option.splits)
  obtain body ended inp2 where r: "read_body MAX_BUF inp1 = Some (body, ended, inp2)"
    using "1.prems" w by (subst (asm) getpacket.simps) (auto split: option.splits)
  have l: "length inp1 < length inp" "length inp2 \<le> length inp1"
    using wait_start_length [OF w] read_body_length [OF r] by simp_all
  show ?case
  proof (cases ended)
    case False
    then show ?thesis using "1.prems" w r l "1.IH"(1) [OF w r refl refl refl False, of ps]
      by (subst (asm) getpacket.simps) (auto split: if_splits)
  next
    case True
    let ?buf = "overwrite (body @ [0]) buf"
    obtain c1 c2 inp3 where i: "inp2 = c1 # c2 # inp3"
      using "1.prems" w r True by (subst (asm) getpacket.simps) (auto simp: Let_def split: list.splits)
    show ?thesis
    proof (cases "checksum_of body = hex_byte (c1 AND 0x7f) (c2 AND 0x7f)")
      case c: True
      have "rest = inp3"
        using "1.prems" w r True i c by (subst (asm) getpacket.simps) (auto simp: Let_def split: if_splits)
      with l i show ?thesis by simp
    next
      case False
      obtain q ps' rest' where g: "getpacket ?buf inp3 = (q, ps', rest')" by (metis prod_cases3)
      have "q = Some b" "rest' = rest"
        using "1.prems" w r True i False g by (subst (asm) getpacket.simps; simp add: Let_def)+
      with "1.IH"(2) [OF w r refl refl refl _ refl i refl refl False, of ps'] True g l i show ?thesis by simp
    qed
  qed
qed

lemma putpacket_loop_length: "putpacket_loop p out inp = (ws, rest, ok) \<Longrightarrow> length rest \<le> length inp"
  by (induction p out inp arbitrary: ws rule: putpacket_loop.induct)
    (fastforce simp: Let_def split: if_splits prod.splits)+

lemma putpacket_length: "putpacket out inp = (ws, rest, ok) \<Longrightarrow> length rest \<le> length inp"
  by (simp add: putpacket_def putpacket_loop_length)

text \<open>The loop of \<open>GdbHandleException\<close>: its result, the state, and the events.\<close>

function gdb_loop :: "gdb_kernel \<Rightarrow> nat \<Rightarrow> u8 list \<Rightarrow> u8 list \<Rightarrow> gdb_state
    \<Rightarrow> bool \<times> gdb_state \<times> gdb_event list" where
  "gdb_loop k sigval buf inp st =
     (case getpacket buf inp of
        (None, ps, rest) \<Rightarrow> (False, st, map Put ps)
      | (Some buf', ps, rest) \<Rightarrow>
          (let (st', out, next) = gdb_command k sigval buf' st;
               (ws, rest', ok) = putpacket out rest
           in (case next of
                 RestartProgram \<Rightarrow> (True, st', map Put ps)
               | StartAndRestart \<Rightarrow> (True, st', map Put ps @ [StartModule])
               | ReplyAndRestart \<Rightarrow> (True, st', map Put ps @ map Block ws)
               | _ \<Rightarrow>
                   (let (r, st'', ev) = gdb_loop k sigval buf' rest' st'
                    in (r, st'', map Put ps @ (if next = ExitGame then [Exit] else []) @ map Block ws @ ev)))))"
  by pat_completeness auto
termination
  by (relation "measure (\<lambda>(k, sigval, buf, inp, st). length inp)")
    (auto dest!: getpacket_length [OF sym] putpacket_length [OF sym])

declare gdb_loop.simps [simp del]

definition GdbHandleException :: "gdb_kernel \<Rightarrow> u8 list \<Rightarrow> u8 list \<Rightarrow> gdb_state
    \<Rightarrow> bool \<times> gdb_state \<times> gdb_event list" where
  "GdbHandleException k buf inp st =
     (let sigval = exception_signal st; st = gdb_recover st in
      if started st then
        (let (ws, rest, ok) = putpacket (build_trap_cmd sigval st) inp;
             (r, st', ev) = gdb_loop k sigval buf rest st
         in (r, st', map Block ws @ ev))
      else gdb_loop k sigval buf inp st)"

section \<open>Lemmas on transfers\<close>

lemma hexchars_small: "b \<in> set hexchars \<Longrightarrow> b AND 0x7f = b \<and> b \<noteq> HASH \<and> b \<noteq> 0 \<and> 0 \<le> hex b"
proof -
  have "\<forall>b \<in> set hexchars. b AND 0x7f = b \<and> b \<noteq> HASH \<and> b \<noteq> 0 \<and> 0 \<le> hex b"
    by (simp add: hexchars_def hex_def)
  then show "b \<in> set hexchars \<Longrightarrow> b AND 0x7f = b \<and> b \<noteq> HASH \<and> b \<noteq> 0 \<and> 0 \<le> hex b" by blast
qed

lemma length_byte_hex [simp]: "length (byte_hex b) = 2"
  by (simp add: byte_hex_def)

lemma byte_at_simps [simp]:
  "byte_at (x # xs) 0 = x" "byte_at (x # xs) (Suc n) = byte_at xs n" "byte_at [] n = 0"
  by (simp_all add: byte_at_def)

lemma byte_at_numeral [simp]: "byte_at (x # xs) (numeral k) = byte_at xs (pred_numeral k)"
  by (simp add: numeral_eq_Suc)

lemma next_byte_hex: "next_byte (byte_hex b @ t) False = (b, 2)"
  by (simp add: next_byte_def byte_hex_def hex_byte_hexchar [unfolded One_nat_def])

text \<open>The bytes from \<open>a\<close> on replaced by those of a list.\<close>

fun put_bytes :: "u8 list \<Rightarrow> u32 \<Rightarrow> mem \<Rightarrow> mem" where
  "put_bytes [] a m = m"
| "put_bytes (b # bs) a m = put_bytes bs (a + 1) (m(a := b))"

definition range_ok :: "u32 \<Rightarrow> nat \<Rightarrow> bool" where
  "range_ok a n \<longleftrightarrow> (\<forall>i < n. gdb_accessible (a + of_nat i))"

lemma range_ok_Suc: "range_ok a (Suc n) \<longleftrightarrow> gdb_accessible a \<and> range_ok (a + 1) n"
  by (auto simp: range_ok_def less_Suc_eq_0_disj add.assoc)

lemma hex2mem_bytes:
  "range_ok a (length bs) \<Longrightarrow>
   hex2mem (concat (map byte_hex bs) @ r) a (length bs) False m = (True, put_bytes bs a m)"
  by (induction bs arbitrary: a m) (simp_all add: range_ok_Suc GdbWriteByte_def next_byte_hex)

definition escape :: "u8 \<Rightarrow> u8 list" where
  "escape b = (if b = HASH \<or> b = DOLLAR \<or> b = 0x7d then [0x7d, b XOR 0x20] else [b])"

lemma next_byte_escape: "next_byte (escape b @ t) True = (b, length (escape b))"
  by (auto simp: next_byte_def escape_def)

lemma hex2mem_escaped:
  "range_ok a (length bs) \<Longrightarrow>
   hex2mem (concat (map escape bs) @ r) a (length bs) True m = (True, put_bytes bs a m)"
  by (induction bs arbitrary: a m) (simp_all add: range_ok_Suc GdbWriteByte_def next_byte_escape)

lemma mem2hex_bytes:
  "mem2hex m a n = (if range_ok a n then Some (concat (map byte_hex (map (\<lambda>i. m (a + of_nat i)) [0..<n]))) else None)"
proof (induction n arbitrary: a)
  case (Suc n)
  have "map (\<lambda>i. m (a + of_nat i)) [0..<Suc n] = m a # map (\<lambda>i. m (a + 1 + of_nat i)) [0..<n]"
    by (simp add: upt_conv_Cons map_Suc_upt [symmetric] add.assoc del: upt_Suc)
  with Suc show ?case by (simp add: range_ok_Suc GdbReadByte_def del: upt_Suc)
qed (simp add: range_ok_def)

lemma hex2mem_frame: "hex2mem buf a n binary m = (ok, m') \<Longrightarrow> \<not> gdb_accessible x \<Longrightarrow> m' x = m x"
proof (induction buf a n binary m rule: hex2mem.induct)
  case (2 buf a n binary m)
  obtain ch k where n: "next_byte buf binary = (ch, k)" by fastforce
  show ?case
  proof (cases "GdbWriteByte ch a m")
    case (Some m1)
    then have "m1 x = m x" using "2.prems"(2) by (auto simp: GdbWriteByte_def split: if_splits)
    with 2 n Some show ?thesis by (simp add: Let_def)
  qed (use "2.prems"(1) n in simp)
qed simp

subsection \<open>Packets\<close>

lemma read_body_frame:
  "HASH \<notin> set p \<Longrightarrow> length p < n \<Longrightarrow> read_body n (p @ HASH # r) = Some (p, True, r)"
proof (induction p arbitrary: n)
  case Nil
  then show ?case by (cases n) auto
next
  case (Cons c p)
  then obtain k where "n = Suc k" by (cases n) auto
  with Cons show ?case by auto
qed

lemma getpacket_frame:
  assumes "HASH \<notin> set p" "length p < MAX_BUF" "byte_at (overwrite (p @ [0]) buf) 2 \<noteq> COLON"
  shows "getpacket buf (packet_frame p @ rest) = (Some (overwrite (p @ [0]) buf), [PLUS], rest)"
proof -
  have h: "hexchar x AND 0x7f = hexchar x" for x
    using hexchars_small [OF hexchar_digit] by blast
  have "read_body MAX_BUF (p @ HASH # byte_hex (checksum_of p) @ rest) = Some (p, True, byte_hex (checksum_of p) @ rest)"
    using read_body_frame [OF assms(1,2)] by simp
  then show ?thesis using assms(3)
    by (subst getpacket.simps) (simp add: packet_frame_def byte_hex_def h hex_byte_hexchar Let_def)
qed

lemma read_body_full: "HASH \<notin> set p \<Longrightarrow> read_body (length p) (p @ r) = Some (p, False, r)"
  by (induction p) auto

subsection \<open>Registers\<close>

lemma hex_word_back: "hex_word (word_hex w @ r) = w"
proof -
  have l: "to_le32 w = [ucast w, ucast (drop_bit 8 w), ucast (drop_bit 16 w), ucast (drop_bit 24 w)]"
    by (simp add: to_le32_def)
  have "hex_word (word_hex w @ r) = le32 (to_le32 w)"
    unfolding hex_word_def word_hex_def l
    by (simp add: byte_hex_def hex_byte_hexchar del: le32.simps)
  then show ?thesis by simp
qed

lemma length_word_hex [simp]: "length (word_hex w) = 8"
  by (simp add: word_hex_def to_le32_def)

lemma hex_words_back: "hex_words (words_hex ws @ r) (length ws) = ws"
  by (induction ws) (simp_all add: words_hex_def hex_word_back)

lemma length_words_hex [simp]: "length (words_hex ws) = 8 * length ws"
  by (induction ws) (simp_all add: words_hex_def)

lemma write_read_registers: "regs_ok rs \<Longrightarrow> write_registers (read_registers rs @ r) = rs"
  unfolding write_registers_def Let_def read_registers_def regs_ok_def
  using hex_words_back [of "g_r rs"] hex_words_back [of "g_cp0 rs"] hex_words_back [of "g_fpr rs"]
    hex_words_back [of "g_cp1 rs"] hex_words_back [of "g_frp rs"] hex_words_back [of "g_cp0x rs"]
  by simp

lemma put_bytes_other: "\<forall>i < length bs. x \<noteq> a + of_nat i \<Longrightarrow> put_bytes bs a m x = m x"
proof (induction bs arbitrary: a m)
  case (Cons b bs)
  have p: "x \<noteq> a + of_nat i" if "i < Suc (length bs)" for i using Cons.prems that by simp
  have "x \<noteq> a" using p [of 0] by simp
  moreover have "\<forall>i < length bs. x \<noteq> (a + 1) + of_nat i"
  proof (intro allI impI)
    fix i assume "i < length bs"
    then show "x \<noteq> (a + 1) + of_nat i" using p [of "Suc i"] by (simp add: add.assoc)
  qed
  ultimately show ?case using Cons.IH by simp
qed simp

lemma put_bytes_at:
  "length bs < 2 ^ 32 \<Longrightarrow> i < length bs \<Longrightarrow> put_bytes bs a m (a + of_nat i) = bs ! i"
proof (induction bs arbitrary: a m i)
  case (Cons b bs)
  show ?case
  proof (cases i)
    case 0
    have "a \<noteq> (a + 1) + of_nat k" if "k < length bs" for k
    proof -
      have "unat (1 + of_nat k :: u32) = Suc k"
        using that Cons.prems(1) by (simp add: unat_word_ariths unat_of_nat)
      then have "1 + of_nat k \<noteq> (0 :: u32)" by auto
      then show ?thesis by (simp add: add.assoc)
    qed
    then show ?thesis using 0 by (simp add: put_bytes_other)
  next
    case (Suc k)
    then show ?thesis using Cons.IH [of k "a + 1"] Cons.prems by (simp add: add.assoc)
  qed
qed simp

lemma wait_start_noise:
  "\<forall>b \<in> set noise. b AND 0x7F \<noteq> DOLLAR \<Longrightarrow> wait_start (noise @ s) = wait_start s"
  by (induction noise) auto

lemma getpacket_noise:
  assumes "\<forall>b \<in> set noise. b AND 0x7F \<noteq> DOLLAR"
  shows "getpacket buf (noise @ s) = getpacket buf s"
  by (subst (1 2) getpacket.simps) (simp only: wait_start_noise [OF assms])

section \<open>Properties\<close>

text \<open>
  C2: A packet written by \<open>putpacket\<close> and acknowledged at once is one frame, and \<open>getpacket\<close> accepts such a
  frame after any bytes that start no packet: it stores the packet's bytes and a NUL in the buffer,
  acknowledges with a plus sign and takes nothing of what follows. (No hash sign in the packet, room in
  the buffer, and no colon in third place, which the stub takes for a sequence number.)
\<close>
theorem packet_roundtrip:
  assumes "0 \<notin> set p" and "HASH \<notin> set p" and "length p < MAX_BUF"
    and "byte_at (overwrite (p @ [0]) buf) 2 \<noteq> COLON" and "\<forall>b \<in> set noise. b AND 0x7F \<noteq> DOLLAR"
  shows "putpacket (p @ 0 # stale) (PLUS # inp) = ([packet_frame p], inp, True)
    \<and> getpacket buf (noise @ packet_frame p @ rest) = (Some (overwrite (p @ [0]) buf), [PLUS], rest)
    \<and> cbytes (overwrite (p @ [0]) buf) = p"
proof -
  have c: "cbytes (p @ 0 # t) = p" for t
    unfolding cbytes_def using assms(1) by (subst takeWhile_append2) auto
  have "putpacket (p @ 0 # stale) (PLUS # inp) = ([packet_frame p], inp, True)"
    by (simp add: putpacket_def c)
  then show ?thesis
    using getpacket_frame [OF assms(2,3,4), of rest] c
    by (simp add: getpacket_noise [OF assms(5)] overwrite_def)
qed

theorem packet_roundtrip_witness:
  "getpacket (replicate 2048 0) ([PLUS] @ packet_frame (str ''m08800000,4'') @ [1])
     = (Some (overwrite (str ''m08800000,4'' @ [0]) (replicate 2048 0)), [PLUS], [1])"
  using packet_roundtrip [of "str ''m08800000,4''" "replicate 2048 0" "[PLUS]" "[]" "[]" "[1]"]
  by (simp add: str_def overwrite_def)

text \<open>
  A retried packet is not the packet: after a negative acknowledgement \<open>putpacket\<close> sends the frame
  twice in one block, since it goes on behind the first copy in its buffer.
\<close>
theorem putpacket_retry:
  assumes "ch AND 0x7f \<noteq> PLUS"
  shows "putpacket buffer (ch # PLUS # inp) =
    ([packet_frame (cbytes buffer), packet_frame (cbytes buffer) @ packet_frame (cbytes buffer)], inp, True)"
  using assms by (simp add: putpacket_def Let_def)

theorem putpacket_retry_witness:
  "putpacket [0x4f, 0x4b, 0] [DASH, PLUS] =
    ([packet_frame [0x4f, 0x4b], packet_frame [0x4f, 0x4b] @ packet_frame [0x4f, 0x4b]], [], True)"
  using putpacket_retry [of DASH "[0x4f, 0x4b, 0]" "[]"] by (simp add: cbytes_def)

text \<open>
  An overlong packet can be accepted: 2048 bytes without a hash sign whose sum is 255 modulo 256
  are taken as a packet, without a checksum, without an acknowledgement and without a terminating NUL.
\<close>
theorem getpacket_overlong:
  assumes "HASH \<notin> set p" and "length p = MAX_BUF" and "checksum_of p = 0xff"
  shows "getpacket buf (DOLLAR # p @ rest) = (Some (overwrite p buf), [], rest)"
  using read_body_full [OF assms(1), of rest] assms(2,3) by (subst getpacket.simps) simp

theorem getpacket_overlong_witness:
  "getpacket [] (DOLLAR # (0xff # replicate 2047 0) @ [7]) = (Some (overwrite (0xff # replicate 2047 0) []), [], [7])"
  by (rule getpacket_overlong) (simp_all add: checksum_of_def sum_list_replicate)

text \<open>
  C8: Memory transfers are exact: bytes written by an \<open>M\<close> packet in hexadecimal or by an \<open>X\<close> packet in
  escaped binary are stored at their addresses and nowhere else, and reading the range back gives
  their digits.
\<close>
theorem memory_write_read:
  assumes "range_ok a (length bs)" and "length bs < 2 ^ 32"
  shows "\<exists>m'. hex2mem (concat (map byte_hex bs) @ r) a (length bs) False m = (True, m')
    \<and> hex2mem (concat (map escape bs) @ r) a (length bs) True m = (True, m')
    \<and> mem2hex m' a (length bs) = Some (concat (map byte_hex bs))
    \<and> (\<forall>x. (\<forall>i < length bs. x \<noteq> a + of_nat i) \<longrightarrow> m' x = m x)"
proof -
  have "map (\<lambda>i. put_bytes bs a m (a + of_nat i)) [0..<length bs] = bs"
    using put_bytes_at [OF assms(2)] by (intro nth_equalityI) auto
  then have "mem2hex (put_bytes bs a m) a (length bs) = Some (concat (map byte_hex bs))"
    using assms(1) by (simp only: mem2hex_bytes if_True)
  then show ?thesis
    using hex2mem_bytes [OF assms(1)] hex2mem_escaped [OF assms(1)] put_bytes_other by blast
qed

theorem memory_write_read_witness:
  "\<exists>m'. hex2mem (concat (map escape [HASH, 1])) 0x08800000 2 True (\<lambda>_. 0) = (True, m')
     \<and> mem2hex m' 0x08800000 2 = Some (concat (map byte_hex [HASH, 1]))"
proof -
  have r: "range_ok 0x08800000 (length [HASH, 1])"
    by (auto simp: range_ok_def gdb_accessible_def less_Suc_eq)
  have two: "length [HASH, 1] = 2" by simp
  show ?thesis using memory_write_read [OF r, of "[]" "\<lambda>_. 0"] unfolding two append_Nil2 by fastforce
qed

text \<open>
  C3: Whatever packet the debugger sends, memory outside user memory is not changed by handling it; only
  the step command writes anywhere else, where it plants its breakpoints.
\<close>
theorem gdb_command_confined:
  assumes "gdb_command k sigval input st = (st', out, next)" and "byte_at input 0 \<noteq> of_char (CHR ''s'')"
    and "\<not> gdb_accessible x"
  shows "gmem st' x = gmem st x"
proof -
  have w: "gmem (fst (write_memory b ptr st)) x = gmem st x" for b ptr
    using hex2mem_frame [OF _ assms(3)]
    by (auto simp: write_memory_def split: option.splits prod.splits)
  have q: "gmem (fst (handle_query k ptr st)) = gmem st" for ptr
    by (auto simp: handle_query_def Let_def split: prod.splits)
  have h: "gmem (fst (handle_hwbp ptr b st)) = gmem st" for ptr b
    by (auto simp: handle_hwbp_def hwbp_code_def hwbp_data_def set_env_def Let_def split: prod.splits)
  show ?thesis
    using assms(1,2) w [of True "tl input"] w [of False "tl input"] q [of "tl input"]
      h [of "tl input" True] h [of "tl input" False]
    by (auto simp: gdb_command_def Let_def split: prod.splits if_splits)
qed

definition example_stub :: gdb_state where
  "example_stub = \<lparr>gmem = \<lambda>_. 0, gstep0 = no_bp, gstep1 = no_bp,
     gregs = \<lparr>g_r = replicate 32 0, g_cp0 = replicate 6 0, g_fpr = replicate 32 0, g_cp1 = [0, 0],
              g_frp = [0, 0], g_cp0x = replicate 16 0\<rparr>,
     gthid = 1, gtype_debug = True, gdrcntl = 0, started = True, attached = True, g_elf = False, g_hw = True,
     g_iaddr = 0, g_daddr = 0, g_datatype = 0, g_env = None,
     g_module = \<lparr>gm_text = 0, gm_textsize = 0, gm_datasize = 0, gm_segments = []\<rparr>,
     q_threads = [], q_loc = 0\<rparr>"

definition example_kernel :: gdb_kernel where
  "example_kernel = \<lparr>k_threads = [], k_thread_name = \<lambda>_. Inl 0\<rparr>"

theorem gdb_command_confined_witness:
  "gmem (fst (gdb_command example_kernel 5 (str ''M100,1:ff'' @ [0]) example_stub)) 0x100 = 0"
proof -
  obtain st out nx where e: "gdb_command example_kernel 5 (str ''M100,1:ff'' @ [0]) example_stub = (st, out, nx)"
    by (metis prod_cases3)
  have "gmem st 0x100 = gmem example_stub 0x100"
    by (rule gdb_command_confined [OF e]) (simp_all add: str_def gdb_accessible_def)
  with e show ?thesis by (simp add: example_stub_def)
qed

text \<open>
  Registers travel unchanged: the reply to \<open>g\<close>, sent back in a \<open>G\<close> packet, restores exactly the
  register block it was read from.
\<close>
theorem registers_roundtrip:
  assumes "regs_ok (gregs st)"
  shows "gdb_command k sigval (of_char (CHR ''G'') # read_registers (gregs st) @ r) (st\<lparr>gregs := other\<rparr>)
    = (st, str ''OK'', SendReply)
    \<and> fst (snd (gdb_command k sigval [of_char (CHR ''g'')] st)) = read_registers (gregs st)"
  using write_read_registers [OF assms, of r] by (simp add: gdb_command_def Let_def)

theorem registers_roundtrip_witness:
  "fst (gdb_command example_kernel 5 (of_char (CHR ''G'') # read_registers (gregs example_stub))
     (example_stub\<lparr>gregs := set_epc 8 (gregs example_stub)\<rparr>)) = example_stub"
  using registers_roundtrip [of example_stub example_kernel 5 "[]" "set_epc 8 (gregs example_stub)"]
  by (simp add: regs_ok_def example_stub_def)

text \<open>
  A step of the stub is transparent: recovering its breakpoints, as the next exception does
  first, gives back the memory before the step.
\<close>
theorem gdb_step_recover:
  assumes "\<not> bp_active (gstep0 s)" and "\<not> bp_active (gstep1 s)" and "aligned (reg_epc (gregs s))"
    and "aligned (targetpc (gdb_decode_step (lw (gmem s) (reg_epc (gregs s)))
           \<lparr>epc = reg_epc (gregs s), regs = g_r (gregs s)\<rparr>))"
  shows "gmem (gdb_recover (gdb_step_generic skip s)) = gmem s"
proof -
  have a: "aligned (reg_epc (gregs s) + 8)" using aligned_add [OF assms(3), of 8] by (simp add: aligned_def)
  show ?thesis
    using assms(1,2) plant_two [OF assms(4) a, of "gmem s" SW_BREAK_INST SW_BREAK_INST]
    by (auto simp: gdb_step_generic_def gdb_recover_def Let_def gdb_plant0_def gdb_plant1_def plant_def mem_simps)
qed

theorem gdb_step_recover_witness:
  "gmem (gdb_recover (gdb_step_generic False example_stub)) = (\<lambda>_. 0)"
proof -
  have "aligned (targetpc (gdb_decode_step (lw (gmem example_stub) (reg_epc (gregs example_stub)))
      \<lparr>epc = reg_epc (gregs example_stub), regs = g_r (gregs example_stub)\<rparr>))"
    by (simp add: example_stub_def lw_def reg_epc_def gdb_decode_step_def decode_step_def fall_through_def aligned_def)
  with gdb_step_recover [of example_stub False] show ?thesis
    by (simp add: example_stub_def no_bp_def reg_epc_def aligned_def)
qed

end
