(* ===== verification/HostPath.thy ===== *)
theory HostPath
  imports Prelude
begin

text \<open>
  \<open>usbhostfs_pc/main.c\<close>, the paths of the host file system: \<open>gen_path\<close>, \<open>calc_rating\<close>, \<open>find_nocase\<close>,
  \<open>make_nocase\<close>, \<open>make_path\<close> and \<open>add_drive\<close>. The device names a file by a drive number and a path;
  \<open>make_path\<close> turns that into a path of the PC below the drive's root directory.

  The directory listings (\<open>opendir\<close>, \<open>readdir\<close>) are an argument. A path is a C string without its NUL;
  \<open>PATH_MAX\<close> is 4096 and counts the NUL.
\<close>

section \<open>Tokens\<close>

abbreviation slash :: char where
  "slash \<equiv> CHR ''/''"

definition PATH_MAX :: nat where
  "PATH_MAX = 4096"

definition MAX_TOKENS :: nat where
  "MAX_TOKENS = 256"

definition MAX_HOSTDRIVES :: nat where
  "MAX_HOSTDRIVES = 8"

text \<open>\<open>strtok (s, "/")\<close>: the next token and what the next call goes on with.\<close>

definition strtok :: "string \<Rightarrow> (string \<times> string) option" where
  "strtok s = (let s' = dropWhile (\<lambda>c. c = slash) s
     in if s' = [] then None
        else Some (takeWhile (\<lambda>c. c \<noteq> slash) s', drop 1 (dropWhile (\<lambda>c. c \<noteq> slash) s')))"

text \<open>The tokenising loop of \<open>gen_path\<close> and \<open>make_nocase\<close>: it stops after so many tokens.\<close>

fun tokens :: "nat \<Rightarrow> string \<Rightarrow> string list" where
  "tokens 0 s = []"
| "tokens (Suc n) s = (case strtok s of None \<Rightarrow> [] | Some (t, r) \<Rightarrow> t # tokens n r)"

text \<open>All the components of a path: each takes at least one character.\<close>

definition components :: "string \<Rightarrow> string list" where
  "components s = tokens (length s) s"

definition tok_ok :: "string \<Rightarrow> bool" where
  "tok_ok t \<longleftrightarrow> t \<noteq> [] \<and> slash \<notin> set t"

lemma strtok_length: "strtok s = Some (t, r) \<Longrightarrow> length r < length s"
proof -
  assume s: "strtok s = Some (t, r)"
  let ?s = "dropWhile (\<lambda>c. c = slash) s"
  have n: "?s \<noteq> []" and r: "r = drop 1 (dropWhile (\<lambda>c. c \<noteq> slash) ?s)"
    using s by (auto simp: strtok_def Let_def split: if_splits)
  have "length r \<le> length ?s - 1"
    unfolding r by (simp add: diff_le_mono length_dropWhile_le)
  also have "\<dots> < length ?s" using n by simp
  also have "\<dots> \<le> length s" by (rule length_dropWhile_le)
  finally show ?thesis .
qed

lemma strtok_tok_ok: "strtok s = Some (t, r) \<Longrightarrow> tok_ok t"
  by (auto simp: strtok_def tok_ok_def Let_def takeWhile_eq_Nil_iff split: if_splits
      dest!: set_takeWhileD dest: hd_dropWhile [of "\<lambda>c. c = slash"] simp flip: dropWhile_eq_Nil_conv)

lemma strtok_skip: "strtok (dropWhile (\<lambda>c. c = slash) s) = strtok s"
  by (simp add: strtok_def)

lemma strtok_slash [simp]: "strtok (slash # s) = strtok s"
  by (simp add: strtok_def)

lemma strtok_Nil [simp]: "strtok [] = None"
  by (simp add: strtok_def)

lemma strtok_token:
  assumes "tok_ok t" "s = [] \<or> hd s = slash"
  shows "strtok (t @ s) = Some (t, drop 1 s)"
proof -
  have t: "dropWhile (\<lambda>c. c = slash) (t @ s) = t @ s"
    using assms(1) by (cases t) (auto simp: tok_ok_def)
  have a: "takeWhile (\<lambda>c. c \<noteq> slash) (t @ s) = t @ takeWhile (\<lambda>c. c \<noteq> slash) s"
    "dropWhile (\<lambda>c. c \<noteq> slash) (t @ s) = dropWhile (\<lambda>c. c \<noteq> slash) s"
    using assms(1) by (auto simp: tok_ok_def intro!: takeWhile_append2 dropWhile_append2)
  have b: "takeWhile (\<lambda>c. c \<noteq> slash) s = []" "dropWhile (\<lambda>c. c \<noteq> slash) s = s"
    using assms(2) by (cases s; simp)+
  show ?thesis using assms(1) by (simp add: strtok_def t a b tok_ok_def Let_def)
qed

lemma tokens_Nil [simp]: "tokens n [] = []"
  by (cases n) simp_all

lemma tokens_slash [simp]: "tokens n (slash # s) = tokens n s"
  by (cases n) simp_all

lemma tokens_tok_ok: "t \<in> set (tokens n s) \<Longrightarrow> tok_ok t"
  by (induction n arbitrary: s) (auto split: option.splits intro: strtok_tok_ok [OF sym])

lemma tokens_take: "tokens n s = take n (tokens (n + k) s)"
  by (induction n arbitrary: s) (auto split: option.splits)

lemma tokens_length: "length (tokens n s) \<le> n"
  by (induction n arbitrary: s) (auto split: option.splits)

lemma tokens_more: "length s \<le> n \<Longrightarrow> tokens n s = tokens (length s) s"
proof (induction n arbitrary: s)
  case (Suc n)
  show ?case
  proof (cases "strtok s")
    case None
    then show ?thesis by (cases "length s") simp_all
  next
    case (Some p)
    obtain t r where s: "strtok s = Some (t, r)" using Some by (cases p) simp
    have r: "length r < length s" using s by (rule strtok_length)
    then obtain m where m: "length s = Suc m" by (cases "length s") auto
    have l: "length (tokens (length r) r) \<le> length r" by (rule tokens_length)
    have n: "tokens n r = tokens (length r) r" using Suc.IH r Suc.prems by simp
    have "tokens m r = take m (tokens n r)"
      using tokens_take [of m r "n - m"] Suc.prems m by simp
    also have "\<dots> = tokens (length r) r" using n l r m by simp
    finally show ?thesis using s m n by simp
  qed
qed simp

lemma tokens_components: "tokens n s = take n (components s)"
proof (cases "length s \<le> n")
  case True
  show ?thesis
    using tokens_more [OF True] tokens_length [of "length s" s] True by (simp add: components_def)
next
  case False
  then show ?thesis using tokens_take [of n s "length s - n"] by (simp add: components_def)
qed

lemma components_tok_ok: "t \<in> set (components s) \<Longrightarrow> tok_ok t"
  unfolding components_def by (rule tokens_tok_ok)

lemma components_slash [simp]: "components (slash # s) = components s"
  using tokens_more [of s "Suc (length s)"] by (simp add: components_def del: tokens.simps)

lemma components_Nil [simp]: "components [] = []"
  by (simp add: components_def)

lemma components_strtok:
  "components s = (case strtok s of None \<Rightarrow> [] | Some (t, r) \<Rightarrow> t # components r)"
proof (cases "length s")
  case (Suc n)
  show ?thesis
    using Suc strtok_length [of s] tokens_more [of _ n]
    by (auto simp: components_def split: option.splits)
qed simp

lemma components_token:
  "tok_ok t \<Longrightarrow> s = [] \<or> hd s = slash \<Longrightarrow> components (t @ s) = t # components s"
  using strtok_token [of t s] by (subst components_strtok) (cases s; simp)

lemma components_append_slash: "components (a @ slash # b) = components a @ components b"
proof (induction a rule: measure_induct_rule [of length])
  case (less a)
  show ?case
  proof (cases "strtok a")
    case None
    then have a: "dropWhile (\<lambda>c. c = slash) a = []"
      by (auto simp: strtok_def Let_def split: if_splits)
    then have "strtok (a @ slash # b) = strtok b"
      by (simp add: strtok_def dropWhile_append)
    then have "components (a @ slash # b) = components b"
      by (simp only: components_strtok [of "a @ slash # b"] components_strtok [of b])
    moreover have "components a = []" using None by (subst components_strtok) simp
    ultimately show ?thesis by simp
  next
    case (Some p)
    let ?a = "dropWhile (\<lambda>c. c = slash) a" and ?d = "dropWhile (\<lambda>c. c \<noteq> slash)"
    obtain t r where s: "strtok a = Some (t, r)" using Some by (cases p) simp
    have r: "length r < length a" using s by (rule strtok_length)
    have n: "?a \<noteq> []" and t: "t = takeWhile (\<lambda>c. c \<noteq> slash) ?a" and rr: "r = drop 1 (?d ?a)"
      using s by (auto simp: strtok_def Let_def split: if_splits)
    have ab: "dropWhile (\<lambda>c. c = slash) (a @ slash # b) = ?a @ slash # b"
      using n by (auto simp: dropWhile_append)
    show ?thesis
    proof (cases "?d ?a")
      case Nil
      have "t = ?a"
        unfolding t using takeWhile_dropWhile_id [of "\<lambda>c. c \<noteq> slash" ?a, unfolded Nil]
        by (simp only: append_Nil2)
      moreover have "r = []" using rr Nil by simp
      moreover have "tok_ok t" using s by (rule strtok_tok_ok)
      ultimately have "strtok (a @ slash # b) = Some (t, b)"
        using strtok_token [of t "slash # b"] strtok_skip [of "a @ slash # b"] ab by simp
      then show ?thesis using s \<open>r = []\<close>
        by (simp add: components_strtok [of "a @ slash # b"] components_strtok [of a])
    next
      case (Cons c u)
      have c: "c = slash" using dropWhile_Cons_split [OF Cons] by (simp only: not_not)
      have u: "r = u" using rr Cons by (simp only: drop_Suc_Cons drop_0 One_nat_def)
      have a: "?a = t @ slash # r"
        using takeWhile_dropWhile_id [of "\<lambda>c. c \<noteq> slash" ?a, unfolded Cons c, folded t u] by (rule sym)
      have "strtok (a @ slash # b) = Some (t, r @ slash # b)"
        using strtok_token [OF strtok_tok_ok [OF s], of "slash # r @ slash # b"]
          strtok_skip [of "a @ slash # b"] ab a by simp
      then show ?thesis using s less.IH [OF r]
        by (simp add: components_strtok [of "a @ slash # b"] components_strtok [of a])
    qed
  qed
qed

section \<open>\<open>gen_path\<close>: the normal form of a path\<close>

text \<open>One token: a single dot is dropped, two dots take the last component off again.\<close>

definition path_step :: "string list \<Rightarrow> string \<Rightarrow> string list" where
  "path_step out t = (if t = ''.'' then out
                      else if t = ''..'' then butlast out
                      else out @ [t])"

text \<open>The components, with a slash after each one (after the last one only for a directory).\<close>

fun path_join :: "bool \<Rightarrow> string list \<Rightarrow> string" where
  "path_join dir [] = []"
| "path_join dir (t # ts) = t @ (if dir \<or> ts \<noteq> [] then [slash] else []) @ path_join dir ts"

definition gen_path :: "string \<Rightarrow> bool \<Rightarrow> string" where
  "gen_path path dir = slash # path_join dir (foldl path_step [] (tokens (MAX_TOKENS - 1) path))"

text \<open>A component that names an entry of a directory: not empty, without a slash, not a dot name.\<close>

definition plain_name :: "string \<Rightarrow> bool" where
  "plain_name t \<longleftrightarrow> tok_ok t \<and> t \<noteq> ''.'' \<and> t \<noteq> ''..''"

lemma plain_tok_ok: "list_all plain_name ts \<Longrightarrow> list_all tok_ok ts"
  by (auto simp: list_all_iff plain_name_def)

lemma path_step_plain:
  "list_all plain_name out \<Longrightarrow> tok_ok t \<Longrightarrow> list_all plain_name (path_step out t)"
  by (auto simp: path_step_def plain_name_def list_all_iff dest: in_set_butlastD)

lemma foldl_step_plain:
  "list_all plain_name out \<Longrightarrow> list_all tok_ok ts \<Longrightarrow> list_all plain_name (foldl path_step out ts)"
  by (induction ts arbitrary: out) (simp_all add: path_step_plain)

lemma foldl_step_id: "list_all plain_name ts \<Longrightarrow> foldl path_step out ts = out @ ts"
  by (induction ts arbitrary: out) (simp_all add: path_step_def plain_name_def)

lemma path_step_length: "length (path_step out t) \<le> Suc (length out)"
  by (auto simp: path_step_def)

lemma foldl_step_length: "length (foldl path_step out ts) \<le> length out + length ts"
proof (induction ts arbitrary: out)
  case (Cons t ts)
  show ?case using Cons.IH [of "path_step out t"] path_step_length [of out t] by simp
qed simp

lemma components_join:
  "list_all tok_ok ts \<Longrightarrow> components (path_join dir ts) = ts"
proof (induction ts)
  case (Cons t ts)
  have "components (t @ (if dir \<or> ts \<noteq> [] then [slash] else []) @ path_join dir ts)
      = t # components (path_join dir ts)"
    using Cons.prems components_token [of t "slash # path_join dir ts"] components_token [of t "[]"]
    by (cases ts) auto
  then show ?case using Cons by simp
qed simp

lemma gen_path_components:
  "components (gen_path path dir) = foldl path_step [] (take 255 (components path))"
  "list_all plain_name (components (gen_path path dir))"
proof -
  have t: "list_all tok_ok (take 255 (components path))"
    by (auto simp: list_all_iff dest!: in_set_takeD components_tok_ok)
  have p: "list_all plain_name (foldl path_step [] (take 255 (components path)))"
    using foldl_step_plain [OF _ t] by simp
  then show "components (gen_path path dir) = foldl path_step [] (take 255 (components path))"
    using components_join [OF plain_tok_ok [OF p], of dir]
    by (simp add: gen_path_def MAX_TOKENS_def tokens_components)
  then show "list_all plain_name (components (gen_path path dir))" using p by simp
qed

text \<open>The written path is at most two characters longer than the given one.\<close>

lemma path_join_length: "length (path_join dir ts) \<le> sum_list (map length ts) + length ts"
  by (induction ts) simp_all

lemma tokens_total:
  "sum_list (map length (tokens n s)) + length (tokens n s) \<le> Suc (length s)"
proof (induction n arbitrary: s)
  case (Suc n)
  show ?case
  proof (cases "strtok s")
    case (Some p)
    obtain t r where s: "strtok s = Some (t, r)" using Some by (cases p) simp
    have "length t + length r \<le> length s \<and> (r \<noteq> [] \<longrightarrow> length t + length r < length s)"
    proof -
      let ?s = "dropWhile (\<lambda>c. c = slash) s"
      have "t = takeWhile (\<lambda>c. c \<noteq> slash) ?s" "r = drop 1 (dropWhile (\<lambda>c. c \<noteq> slash) ?s)"
        using s by (auto simp: strtok_def Let_def split: if_splits)
      then have "length t + length (dropWhile (\<lambda>c. c \<noteq> slash) ?s) = length ?s"
        "length r = length (dropWhile (\<lambda>c. c \<noteq> slash) ?s) - 1"
        using takeWhile_dropWhile_length [of "\<lambda>c. c \<noteq> slash" ?s] by simp_all
      moreover have "length ?s \<le> length s" by (rule length_dropWhile_le)
      ultimately show ?thesis by (cases r) auto
    qed
    with Suc.IH [of r] s show ?thesis by (cases "r = []") auto
  qed simp
qed simp

lemma foldl_step_total:
  "sum_list (map length (foldl path_step out ts)) + length (foldl path_step out ts)
     \<le> sum_list (map length out) + length out + (sum_list (map length ts) + length ts)"
proof (induction ts arbitrary: out)
  case (Cons t ts)
  have "sum_list (map length (butlast out)) \<le> sum_list (map length out)"
    by (induction out) auto
  then show ?case using Cons.IH [of "path_step out t"]
    by (auto simp: path_step_def split: if_splits)
qed simp

lemma gen_path_length: "length (gen_path path dir) \<le> length path + 2"
  using path_join_length [of dir "foldl path_step [] (tokens (MAX_TOKENS - 1) path)"]
    foldl_step_total [of "[]" "tokens (MAX_TOKENS - 1) path"] tokens_total [of "MAX_TOKENS - 1" path]
  by (simp add: gen_path_def)

section \<open>Names that differ in case\<close>

text \<open>\<open>tolower\<close> and \<open>strcasecmp (a, b) == 0\<close> in the C locale.\<close>

definition tolower :: "char \<Rightarrow> char" where
  "tolower c = (if ccode (CHR ''A'') \<le> ccode c \<and> ccode c \<le> ccode (CHR ''Z'')
                then char_of (ccode c + 32) else c)"

definition strcaseeq :: "string \<Rightarrow> string \<Rightarrow> bool" where
  "strcaseeq a b \<longleftrightarrow> map tolower a = map tolower b"

text \<open>How many positions of the two names hold the same character.\<close>

fun calc_rating :: "string \<Rightarrow> string \<Rightarrow> nat" where
  "calc_rating (a # as) (b # bs) = (if a = b then 1 else 0) + calc_rating as bs"
| "calc_rating _ _ = 0"

text \<open>The scan of a directory: the best match so far and its rating (-1 when there is none).\<close>

fun nocase_scan :: "string \<Rightarrow> string list \<Rightarrow> string option \<Rightarrow> int \<Rightarrow> string option" where
  "nocase_scan token [] best rating = best"
| "nocase_scan token (e # es) best rating =
     (if strcaseeq e token
      then let tmp = int (calc_rating token e)
           in if rating < tmp then nocase_scan token es (Some e) tmp
              else nocase_scan token es best rating
      else nocase_scan token es best rating)"

type_synonym listing = "string \<Rightarrow> string list option"

definition find_nocase :: "listing \<Rightarrow> string \<Rightarrow> string \<Rightarrow> string \<Rightarrow> string option" where
  "find_nocase ls rootdir relpath token =
     (if PATH_MAX < length (rootdir @ relpath) then None
      else (case ls (take (PATH_MAX - 1) (rootdir @ relpath)) of
              None \<Rightarrow> None
            | Some es \<Rightarrow> nocase_scan token es None (-1)))"

text \<open>
  The loop of \<open>make_nocase\<close> over the components. A component that has no match ends it, unless it is
  the last one (a file or directory about to be created). \<open>None\<close>: the path is left as it was.
\<close>

fun nocase_loop :: "listing \<Rightarrow> string \<Rightarrow> bool \<Rightarrow> string \<Rightarrow> string list \<Rightarrow> string option" where
  "nocase_loop ls rootdir dir retpath [] = Some retpath"
| "nocase_loop ls rootdir dir retpath (t # ts) =
     (let m = find_nocase ls rootdir retpath t;
          t' = (case m of None \<Rightarrow> t | Some e \<Rightarrow> e)
      in if m = None \<and> ts \<noteq> [] then None
         else nocase_loop ls rootdir dir
                (retpath @ t' @ (if dir \<or> ts \<noteq> [] then [slash] else [])) ts)"

text \<open>The directories that \<open>find_nocase\<close> opens in this loop, in order.\<close>

fun nocase_opens :: "listing \<Rightarrow> string \<Rightarrow> bool \<Rightarrow> string \<Rightarrow> string list \<Rightarrow> string list" where
  "nocase_opens ls rootdir dir retpath [] = []"
| "nocase_opens ls rootdir dir retpath (t # ts) =
     (let m = find_nocase ls rootdir retpath t;
          t' = (case m of None \<Rightarrow> t | Some e \<Rightarrow> e)
      in (if PATH_MAX < length (rootdir @ retpath) then [] else [take (PATH_MAX - 1) (rootdir @ retpath)]) @
         (if m = None \<and> ts \<noteq> [] then []
          else nocase_opens ls rootdir dir (retpath @ t' @ (if dir \<or> ts \<noteq> [] then [slash] else [])) ts))"

definition make_nocase :: "listing \<Rightarrow> string \<Rightarrow> string \<Rightarrow> bool \<Rightarrow> string" where
  "make_nocase ls rootdir path dir =
     (case nocase_loop ls rootdir dir [slash] (tokens (MAX_TOKENS - 1) path) of
        None \<Rightarrow> path
      | Some p \<Rightarrow> p)"

section \<open>\<open>make_path\<close>: from a drive and a path to a path of the PC\<close>

record host_drive =
  rootdir :: string
  currdir :: string

record path_flags =
  g_nocase :: bool
  g_msslash :: bool

definition unslash :: "char \<Rightarrow> char" where
  "unslash c = (if c = CHR 0x5C then slash else c)"

definition make_path ::
  "listing \<Rightarrow> path_flags \<Rightarrow> host_drive list \<Rightarrow> u32 \<Rightarrow> string \<Rightarrow> bool \<Rightarrow> string option" where
  "make_path ls fl drives drive path dir =
     (if MAX_HOSTDRIVES \<le> unat drive then None
      else let d = drives ! unat drive;
               hostpath = currdir d @ path
           in if PATH_MAX \<le> length hostpath then None
              else let hostpath = (if g_msslash fl then map unslash hostpath else hostpath);
                       hostpath = gen_path hostpath dir;
                       hostpath = (if g_nocase fl then make_nocase ls (rootdir d) hostpath dir
                                   else hostpath);
                       retpath = rootdir d @ slash # hostpath
                   in if PATH_MAX \<le> length retpath then None
                      else Some (gen_path retpath dir))"

text \<open>The directories opened by the search for names in \<open>make_path\<close>.\<close>

definition path_opens ::
  "listing \<Rightarrow> path_flags \<Rightarrow> host_drive list \<Rightarrow> u32 \<Rightarrow> string \<Rightarrow> bool \<Rightarrow> string list" where
  "path_opens ls fl drives drive path dir =
     (if MAX_HOSTDRIVES \<le> unat drive then []
      else let d = drives ! unat drive;
               hostpath = currdir d @ path
           in if PATH_MAX \<le> length hostpath then []
              else let hostpath = (if g_msslash fl then map unslash hostpath else hostpath);
                       hostpath = gen_path hostpath dir
                   in if g_nocase fl
                      then nocase_opens ls (rootdir d) dir [slash] (tokens (MAX_TOKENS - 1) hostpath) else [])"

text \<open>\<open>add_drive\<close>; \<open>opens\<close> says which directories exist, \<open>cwd\<close> is \<open>g_rootdir\<close>.\<close>

definition add_drive ::
  "(string \<Rightarrow> bool) \<Rightarrow> string \<Rightarrow> host_drive list \<Rightarrow> int \<Rightarrow> string \<Rightarrow> host_drive list \<times> bool" where
  "add_drive opens cwd drives num dir =
     (if num < 0 \<or> int MAX_HOSTDRIVES \<le> num then (drives, False)
      else let path = (if chead dir \<noteq> slash then take (PATH_MAX - 1) (cwd @ slash # dir) else dir);
               path = gen_path path False
           in if opens path
              then (drives[nat num := \<lparr>rootdir = path, currdir = [slash]\<rparr>], True)
              else (drives, False))"

text \<open>The new name of \<open>handle_rename\<close>: next to the old one when only the old one is absolute.\<close>

definition rename_dest :: "string \<Rightarrow> string \<Rightarrow> string" where
  "rename_dest old new =
     (if chead old = slash \<and> chead new \<noteq> slash
      then rev (dropWhile (\<lambda>c. c \<noteq> slash) (rev old)) @ new
      else new)"

section \<open>Names that differ in case: what a match keeps\<close>

lemma ccode_tolower:
  "ccode (tolower c) = (if 65 \<le> ccode c \<and> ccode c \<le> 90 then ccode c + 32 else ccode c)"
  by (auto simp: tolower_def)

lemma tolower_punct:
  assumes "ccode d < 65" "tolower c = tolower d"
  shows "c = d"
proof -
  have "ccode (tolower c) = ccode (tolower d)" using assms(2) by simp
  then have "ccode c = ccode d" using assms(1) by (auto simp: ccode_tolower split: if_splits)
  then show ?thesis by simp
qed

lemma strcaseeq_punct:
  assumes "strcaseeq a b" "\<forall>c \<in> set b. ccode c < 65"
  shows "a = b"
proof -
  have "list_all2 (\<lambda>x y. tolower x = tolower y) a b"
    using assms(1) by (simp add: strcaseeq_def list_all2_map1 list_all2_map2 flip: list.rel_eq)
  then have "list_all2 (=) a b"
    using assms(2) by (induction rule: list_all2_induct) (auto intro: tolower_punct)
  then show ?thesis by (simp add: list.rel_eq)
qed

lemma strcaseeq_sym: "strcaseeq a b \<longleftrightarrow> strcaseeq b a"
  by (auto simp: strcaseeq_def)

lemma strcaseeq_slash: "strcaseeq a b \<Longrightarrow> slash \<in> set a \<Longrightarrow> slash \<in> set b"
proof -
  assume e: "strcaseeq a b" and s: "slash \<in> set a"
  have "tolower slash \<in> set (map tolower b)"
    using e s unfolding strcaseeq_def by (metis image_eqI list.set_map)
  then obtain c where "c \<in> set b" "tolower c = tolower slash" by auto
  then show "slash \<in> set b" using tolower_punct [of slash c] by auto
qed

lemma strcaseeq_plain: "strcaseeq e t \<Longrightarrow> plain_name t \<Longrightarrow> plain_name e"
  using strcaseeq_slash [of e t] strcaseeq_punct [of t "''.''"] strcaseeq_punct [of t "''..''"]
    strcaseeq_sym [of e t]
  by (auto simp: plain_name_def tok_ok_def strcaseeq_def)

lemma nocase_scan_match:
  "nocase_scan token es best r = Some e \<Longrightarrow> best = Some e \<or> e \<in> set es \<and> strcaseeq e token"
  by (induction token es best r rule: nocase_scan.induct) (auto simp: Let_def split: if_splits)

text \<open>A directory with a matching entry has a match, and the match has the best rating.\<close>

lemma nocase_scan_best:
  "nocase_scan token es best r = Some e \<Longrightarrow> (best = Some e \<longrightarrow> r = int (calc_rating token e)) \<Longrightarrow>
   (\<And>b. best = Some b \<Longrightarrow> r = int (calc_rating token b)) \<Longrightarrow>
   r \<le> int (calc_rating token e)
   \<and> (\<forall>x \<in> set es. strcaseeq x token \<longrightarrow> calc_rating token x \<le> calc_rating token e)"
proof (induction token es best r rule: nocase_scan.induct)
  case (2 token x es best rating)
  then show ?case by (force simp: Let_def split: if_splits)
qed auto

lemma find_nocase_match: "find_nocase ls r p t = Some e \<Longrightarrow> strcaseeq e t"
  by (auto simp: find_nocase_def split: if_splits option.splits dest: nocase_scan_match)

lemma nocase_loop_join:
  "nocase_loop ls r dir ret ts = Some p \<Longrightarrow>
   \<exists>ts'. list_all2 strcaseeq ts' ts \<and> p = ret @ path_join dir ts'"
proof (induction ts arbitrary: ret)
  case (Cons t ts)
  let ?t = "case find_nocase ls r ret t of None \<Rightarrow> t | Some e \<Rightarrow> e"
  let ?s = "if dir \<or> ts \<noteq> [] then [slash] else []"
  have "nocase_loop ls r dir (ret @ ?t @ ?s) ts = Some p"
    using Cons.prems by (cases "find_nocase ls r ret t = None \<and> ts \<noteq> []") (simp_all add: Let_def)
  from Cons.IH [OF this] obtain ts' where
    ts': "list_all2 strcaseeq ts' ts" "p = (ret @ ?t @ ?s) @ path_join dir ts'" by blast
  have t: "strcaseeq ?t t"
    by (auto simp: strcaseeq_def split: option.splits dest: find_nocase_match [unfolded strcaseeq_def])
  have "(ts' \<noteq> []) = (ts \<noteq> [])" using ts'(1) by (cases ts; cases ts') auto
  then have "p = ret @ path_join dir (?t # ts')" using ts'(2) by simp
  then show ?case using ts'(1) t by (metis list_all2_Cons)
qed auto

lemma make_nocase_components:
  assumes "list_all plain_name (components path)"
  shows "list_all plain_name (components (make_nocase ls r path dir))"
proof (cases "nocase_loop ls r dir [slash] (tokens (MAX_TOKENS - 1) path)")
  case (Some p)
  let ?ts = "tokens (MAX_TOKENS - 1) path"
  have ts: "list_all plain_name ?ts"
    using assms by (auto simp: tokens_components list_all_iff dest: in_set_takeD)
  obtain ts' where l: "list_all2 strcaseeq ts' ?ts" and p: "p = [slash] @ path_join dir ts'"
    using nocase_loop_join [OF Some] by blast
  have pl: "list_all plain_name ts'" using l ts
    by (induction rule: list_all2_induct) (auto intro: strcaseeq_plain)
  have "components p = ts'" using p components_join [OF plain_tok_ok [OF pl]] by simp
  then show ?thesis using Some pl by (simp add: make_nocase_def)
qed (simp add: make_nocase_def assms)

section \<open>Confinement\<close>

lemma make_path_root:
  assumes "make_path ls fl drives drive path dir = Some p"
    and "length (components (rootdir (drives ! unat drive))) \<le> 255"
  shows "unat drive < MAX_HOSTDRIVES \<and> hd p = slash \<and>
    (\<exists>rel. components p = foldl path_step [] (components (rootdir (drives ! unat drive))) @ rel
           \<and> list_all plain_name rel)"
proof -
  let ?root = "rootdir (drives ! unat drive)"
  obtain h where pl: "list_all plain_name (components h)" and p: "p = gen_path (?root @ slash # h) dir"
    and d: "unat drive < MAX_HOSTDRIVES"
    using assms(1) make_nocase_components [OF gen_path_components(2)] gen_path_components(2)
    by (fastforce simp: make_path_def Let_def split: if_splits)
  let ?rel = "take (255 - length (components ?root)) (components h)"
  have rel: "list_all plain_name ?rel" using pl by (auto simp: list_all_iff dest: in_set_takeD)
  have "components p = foldl path_step [] (components ?root @ ?rel)"
    using assms(2) by (simp add: p gen_path_components components_append_slash)
  then have "components p = foldl path_step [] (components ?root) @ ?rel"
    using rel by (simp add: foldl_step_id)
  moreover have "hd p = slash" using p by (simp add: gen_path_def)
  ultimately show ?thesis using d rel by blast
qed

text \<open>The directories opened on the way lie below the root, too, when the root is in normal form.\<close>

lemma butlast_join: "ts \<noteq> [] \<Longrightarrow> butlast (path_join True ts) = path_join False ts"
proof (induction ts)
  case (Cons t ts)
  show ?case
  proof (cases ts)
    case (Cons u us)
    then have "path_join True ts \<noteq> []" by simp
    then show ?thesis using Cons.IH Cons by (simp add: butlast_append)
  qed (simp add: butlast_append)
qed simp

lemma path_join_snoc: "path_join True (ts @ [t]) = path_join True ts @ t @ [slash]"
  by (induction ts) auto

lemma opened_components:
  assumes "list_all plain_name ts" "length (r @ slash # path_join True ts) \<le> PATH_MAX"
  shows "components (take (PATH_MAX - 1) (r @ slash # path_join True ts)) = components r @ ts"
proof -
  have c: "components (path_join d ts) = ts" for d using components_join [OF plain_tok_ok [OF assms(1)]] .
  let ?p = "r @ slash # path_join True ts"
  show ?thesis
  proof (cases "length ?p \<le> PATH_MAX - 1")
    case True
    then show ?thesis by (simp add: components_append_slash c)
  next
    case False
    then have l: "length ?p = PATH_MAX" using assms(2) by linarith
    have "take (PATH_MAX - 1) ?p = butlast ?p" by (simp only: butlast_conv_take l)
    also have "\<dots> = (if ts = [] then r else r @ slash # path_join False ts)"
    proof (cases ts)
      case (Cons u us)
      then have "path_join True ts \<noteq> []" by simp
      then show ?thesis using butlast_join [of ts] Cons by (simp add: butlast_append)
    qed (simp add: butlast_append)
    finally show ?thesis using c by (simp add: components_append_slash)
  qed
qed

lemma nocase_opens_components:
  assumes "list_all plain_name (ts0 @ ts)" "p \<in> set (nocase_opens ls r dir (slash # path_join True ts0) ts)"
  shows "\<exists>rel. components p = components r @ rel \<and> list_all plain_name rel"
  using assms
proof (induction ts arbitrary: ts0)
  case (Cons t ts)
  let ?ret = "slash # path_join True ts0"
  let ?t = "case find_nocase ls r ?ret t of None \<Rightarrow> t | Some e \<Rightarrow> e"
  have "strcaseeq ?t t"
    by (auto simp: strcaseeq_def split: option.splits dest: find_nocase_match [unfolded strcaseeq_def])
  then have t: "plain_name ?t" using strcaseeq_plain Cons.prems(1) by auto
  consider (here) "length (r @ ?ret) \<le> PATH_MAX" "p = take (PATH_MAX - 1) (r @ ?ret)"
    | (later) "ts \<noteq> []" "p \<in> set (nocase_opens ls r dir (?ret @ ?t @ [slash]) ts)"
    using Cons.prems(2) by (cases "ts = []") (auto simp: Let_def split: if_splits)
  then show ?case
  proof cases
    case here
    then show ?thesis using opened_components [of ts0 r] Cons.prems(1) by auto
  next
    case later
    have "?ret @ ?t @ [slash] = slash # path_join True (ts0 @ [?t])" by (simp add: path_join_snoc)
    with later(2) have "p \<in> set (nocase_opens ls r dir (slash # path_join True (ts0 @ [?t])) ts)" by simp
    from Cons.IH [OF _ this] show ?thesis using Cons.prems(1) t by simp
  qed
qed simp

lemma path_opens_root:
  assumes "p \<in> set (path_opens ls fl drives drive path dir)"
  shows "unat drive < MAX_HOSTDRIVES \<and>
    (\<exists>rel. components p = components (rootdir (drives ! unat drive)) @ rel \<and> list_all plain_name rel)"
proof -
  obtain h where d: "unat drive < MAX_HOSTDRIVES"
    and p: "p \<in> set (nocase_opens ls (rootdir (drives ! unat drive)) dir [slash] (tokens (MAX_TOKENS - 1) (gen_path h dir)))"
    using assms by (auto simp: path_opens_def Let_def split: if_splits)
  have "list_all plain_name (tokens (MAX_TOKENS - 1) (gen_path h dir))"
    using gen_path_components(2) [of h dir] by (auto simp: tokens_components list_all_iff dest: in_set_takeD)
  with nocase_opens_components [of "[]"] p d show ?thesis by simp
qed

text \<open>No other directory is looked at: the path depends on nothing else of the file system.\<close>

lemma nocase_loop_cong:
  "\<forall>p \<in> set (nocase_opens ls r dir ret ts). ls' p = ls p \<Longrightarrow> nocase_loop ls' r dir ret ts = nocase_loop ls r dir ret ts"
proof (induction ts arbitrary: ret)
  case (Cons t ts)
  have "find_nocase ls' r ret t = find_nocase ls r ret t"
    using Cons.prems by (auto simp: find_nocase_def Let_def)
  then show ?case using Cons.prems Cons.IH by (auto simp: Let_def)
qed simp

lemma make_path_cong:
  "\<forall>p \<in> set (path_opens ls fl drives drive path dir). ls' p = ls p \<Longrightarrow>
   make_path ls' fl drives drive path dir = make_path ls fl drives drive path dir"
proof -
  let ?d = "drives ! unat drive"
  let ?h = "if g_msslash fl then map unslash (currdir ?d @ path) else currdir ?d @ path"
  assume a: "\<forall>p \<in> set (path_opens ls fl drives drive path dir). ls' p = ls p"
  show ?thesis
  proof (cases "unat drive < MAX_HOSTDRIVES \<and> length (currdir ?d @ path) < PATH_MAX \<and> g_nocase fl")
    case True
    then have "path_opens ls fl drives drive path dir =
        nocase_opens ls (rootdir ?d) dir [slash] (tokens (MAX_TOKENS - 1) (gen_path ?h dir))"
      by (simp add: path_opens_def Let_def del: map_append)
    then have "make_nocase ls' (rootdir ?d) (gen_path ?h dir) dir = make_nocase ls (rootdir ?d) (gen_path ?h dir) dir"
      using nocase_loop_cong a by (simp add: make_nocase_def del: map_append)
    then show ?thesis by (simp add: make_path_def Let_def del: map_append)
  qed (auto simp: make_path_def Let_def)
qed

text \<open>
  A path that the device names on a drive stays below the root directory of the drive. Whatever
  the path and the current directory of the drive hold (dots, backslashes, names to be matched
  without case in any listing), the components of the path handed to the PC are those of the root
  directory in normal form, followed by plain names; the result starts with a slash. The root
  directory must have at most 255 components, which is what \<open>gen_path\<close> keeps.
\<close>

theorem make_path_confined:
  assumes "make_path ls fl drives drive path dir = Some p"
    and "length (components (rootdir (drives ! unat drive))) \<le> 255"
  shows "unat drive < MAX_HOSTDRIVES \<and> hd p = slash \<and>
    (\<exists>rel. components p = foldl path_step [] (components (rootdir (drives ! unat drive))) @ rel
           \<and> list_all plain_name rel)"
  using assms by (rule make_path_root)

theorem make_path_confined_witness:
  "\<exists>rel. components ''/home/psp/a/b.txt'' = foldl path_step [] (components ''/home/psp'') @ rel
         \<and> list_all plain_name rel"
proof -
  have m: "make_path (\<lambda>_. None) \<lparr>g_nocase = False, g_msslash = True\<rparr>
      [\<lparr>rootdir = ''/home/psp'', currdir = ''/''\<rparr>] 0 (''..'' @ CHR 0x5C # ''a/./b.txt'') False
    = Some ''/home/psp/a/b.txt''"
    by (simp add: make_path_def MAX_HOSTDRIVES_def PATH_MAX_def Let_def gen_path_def unslash_def) code_simp
  have "length (components ''/home/psp'') \<le> 255" by code_simp
  then show ?thesis using make_path_confined [OF m] by simp
qed

text \<open>
  The exact result of \<open>make_path\<close> without case matching, when the root directory and the path have
  at most 255 components together: the error for a path that does not fit, otherwise the root
  directory followed by the normal form of the current directory and the path, in which dots and
  double dots are resolved and never climb above the root directory.
\<close>

theorem make_path_exact:
  assumes "unat drive < MAX_HOSTDRIVES" "\<not> g_nocase fl"
    and "r = rootdir (drives ! unat drive)"
    and "h = currdir (drives ! unat drive) @ path"
    and "h' = (if g_msslash fl then map unslash h else h)"
    and "length (components r) + length (components h') \<le> 255"
  shows "make_path ls fl drives drive path dir =
    (if PATH_MAX \<le> length h \<or> PATH_MAX \<le> length r + 1 + length (gen_path h' dir) then None
     else Some (slash # path_join dir
            (foldl path_step [] (components r) @ foldl path_step [] (components h'))))"
proof -
  let ?n = "foldl path_step [] (components h')"
  have l: "length ?n \<le> length (components h')"
    using foldl_step_length [of "[]" "components h'"] by simp
  have pl: "list_all plain_name ?n"
    by (rule foldl_step_plain) (auto simp: list_all_iff dest: components_tok_ok)
  have "gen_path (r @ slash # gen_path h' dir) dir
      = slash # path_join dir (foldl path_step [] (components r @ ?n))"
    unfolding gen_path_def [of "r @ slash # gen_path h' dir"]
    using assms(6) l by (simp add: MAX_TOKENS_def tokens_components components_append_slash gen_path_components)
  then show ?thesis
    using assms(1,2) pl
    by (cases "g_msslash fl") (simp_all add: make_path_def Let_def foldl_step_id assms(3,4,5))
qed

theorem make_path_exact_witness:
  "make_path (\<lambda>_. None) \<lparr>g_nocase = False, g_msslash = False\<rparr>
     [\<lparr>rootdir = ''/srv'', currdir = ''/game/''\<rparr>] 0 ''../../x'' True = Some ''/srv/x/''"
proof -
  let ?d = "[\<lparr>rootdir = ''/srv'', currdir = ''/game/''\<rparr>]" and ?h = "''/game/../../x''"
  have "length (components ''/srv'') + length (components ?h) \<le> 255" by code_simp
  moreover have "slash # path_join True (foldl path_step [] (components ''/srv'')
      @ foldl path_step [] (components ?h)) = ''/srv/x/''" by code_simp
  moreover have "length (gen_path ?h True) = 3" by code_simp
  ultimately show ?thesis
    using make_path_exact [of 0 "\<lparr>g_nocase = False, g_msslash = False\<rparr>" "''/srv''" ?d ?h "''../../x''"
        ?h "\<lambda>_. None" True]
    by (simp add: MAX_HOSTDRIVES_def PATH_MAX_def)
qed

text \<open>A root directory set by \<open>add_drive\<close> is in normal form and has at most 255 components.\<close>

lemma add_drive_root:
  assumes "add_drive opens cwd drives num dir = (drives', True)"
  shows "\<exists>root. drives' = drives[nat num := \<lparr>rootdir = root, currdir = [slash]\<rparr>]
               \<and> length (components root) \<le> 255 \<and> list_all plain_name (components root)"
proof -
  obtain q where "drives' = drives[nat num := \<lparr>rootdir = gen_path q False, currdir = [slash]\<rparr>]"
    using assms unfolding add_drive_def Let_def by (auto split: if_splits)
  moreover have "length (components (gen_path q False)) \<le> 255"
    using foldl_step_length [of "[]" "take 255 (components q)"] by (simp add: gen_path_components)
  ultimately show ?thesis using gen_path_components(2) by blast
qed

text \<open>
  \<open>gen_path\<close> writes into the buffer it reads: with a directory, a path of 4095 characters that fits its
  buffer of \<open>PATH_MAX\<close> bytes becomes one of 4096, whose NUL does not.
\<close>

lemma gen_path_overflow: "\<exists>path. length path < PATH_MAX \<and> length (gen_path path True) = PATH_MAX"
proof -
  let ?t = "replicate 4094 (CHR ''a'')"
  have "tok_ok ?t" by (simp add: tok_ok_def)
  then have "components (slash # ?t) = [?t]" using components_token [of ?t "[]"] by simp
  moreover have "?t \<noteq> s" if "length s < 4094" for s using that by auto
  then have "?t \<noteq> ''.''" "?t \<noteq> ''..''" by simp_all
  ultimately have "gen_path (slash # ?t) True = slash # ?t @ [slash]"
    by (simp add: gen_path_def MAX_TOKENS_def tokens_components path_step_def)
  then have "length (gen_path (slash # ?t) True) = PATH_MAX" by (simp add: PATH_MAX_def)
  then show ?thesis by (intro exI [of _ "slash # ?t"]) (simp add: PATH_MAX_def)
qed

end
