(* ===== verification/HostFs.thy ===== *)
theory HostFs
  imports HostPath Async
begin

text \<open>
  \<open>usbhostfs_pc/main.c\<close>, the file server on the PC: the tables of open files and directories, the
  nineteen command handlers, bulk writes, the dispatch of packets in \<open>start_hostfs\<close> and what it does
  when a device connects and disconnects.

  What the operating system answers during one packet is a record \<open>host_os\<close>, an argument; the calls
  made on it are recorded in order in the state (\<open>calls\<close>), so that a property can speak of them. The
  USB link is the list of what the coming bulk reads return and the blocks written so far. A handler
  yields its return value, the server and the link; \<open>None\<close> is an end the code does not define (a read
  past the end of a buffer) or a system call that does not return. Messages on the terminal are left
  out, and integers are little endian as on the wire.
\<close>

section \<open>The operating system\<close>

type_synonym u64 = "64 word"
type_synonym errno = u32

definition GETERROR :: "errno \<Rightarrow> u32" where
  "GETERROR x = 0x80010000 OR x"

abbreviation ENOENT :: errno where "ENOENT \<equiv> 2"
abbreviation EINVAL :: errno where "EINVAL \<equiv> 22"
abbreviation EMFILE :: errno where "EMFILE \<equiv> 24"
abbreviation ENAMETOOLONG :: errno where "ENAMETOOLONG \<equiv> 36"

datatype oflag = O_RDONLY | O_WRONLY | O_RDWR | O_APPEND | O_CREAT | O_TRUNC | O_EXCL

text \<open>
  One call of \<open>write\<close>: bytes taken, end of file (the result 0), an interrupt, an error. One call of \<open>read\<close>.
  Taking no byte, or giving none, is the end of file, too.
\<close>

datatype write_answer = Wrote nat | Write_eof | Write_intr | Write_fail errno
datatype read_answer = Got "u8 list" | Read_eof | Read_intr | Read_fail errno

record tm =
  tm_year :: int
  tm_mon :: int
  tm_mday :: int
  tm_hour :: int
  tm_min :: int
  tm_sec :: int

record os_stat =
  stat_mode :: u32
  stat_size :: u64
  stat_ctime :: int
  stat_atime :: int
  stat_mtime :: int

record os_vfs =
  vfs_blocks :: u64
  vfs_bfree :: u64
  vfs_frsize :: u64

record host_os =
  os_flags :: path_flags
  os_ls :: listing
  os_stat :: "string \<Rightarrow> errno + os_stat"
  os_open :: "string \<Rightarrow> oflag list \<Rightarrow> u32 \<Rightarrow> errno + nat"
  os_close :: "nat \<Rightarrow> errno option"
  os_write :: "write_answer list"
  os_read :: "read_answer list"
  os_lseek :: "nat \<Rightarrow> u64 \<Rightarrow> u32 \<Rightarrow> u64"
  os_scandir :: "string \<Rightarrow> errno + string list"
  os_errno :: errno
  os_malloc :: bool
  os_unlink :: "string \<Rightarrow> errno option"
  os_rmdir :: "string \<Rightarrow> errno option"
  os_mkdir :: "string \<Rightarrow> u32 \<Rightarrow> errno option"
  os_rename :: "string \<Rightarrow> string \<Rightarrow> errno option"
  os_chmod :: "string \<Rightarrow> u32 \<Rightarrow> errno option"
  os_utime :: "string \<Rightarrow> int \<Rightarrow> int \<Rightarrow> int"
  os_mktime :: "tm \<Rightarrow> int option"
  os_localtime :: "int \<Rightarrow> tm"
  os_statvfs :: "string \<Rightarrow> os_vfs option"
  os_sockets :: "nat \<Rightarrow> int"
  os_stack :: "u8 list"

text \<open>The calls made, in order; \<open>Call_entry\<close> is \<open>stat\<close> of an entry found in a directory.\<close>

datatype fs_call =
    Call_open string "oflag list" u32 "errno + nat"
  | Call_close nat
  | Call_write nat "u8 list"
  | Call_read nat u32
  | Call_lseek nat u64 u32
  | Call_stat string
  | Call_entry string string
  | Call_scandir string
  | Call_unlink string
  | Call_rmdir string
  | Call_mkdir string u32
  | Call_rename string string
  | Call_chmod string u32
  | Call_utime string int int
  | Call_statvfs nat
  | Call_socket int "u8 list"

section \<open>The server and the link\<close>

abbreviation MAX_FILES :: nat where "MAX_FILES \<equiv> 256"
abbreviation MAX_DIRS :: nat where "MAX_DIRS \<equiv> 256"
abbreviation HOSTFS_PATHMAX :: nat where "HOSTFS_PATHMAX \<equiv> 4096"
abbreviation HOSTFS_MAX_BLOCK :: nat where "HOSTFS_MAX_BLOCK \<equiv> 65536"
abbreviation HOSTFS_BULK_MAXWRITE :: nat where "HOSTFS_BULK_MAXWRITE \<equiv> 1048576"

record io_time =
  io_year :: u16
  io_month :: u16
  io_day :: u16
  io_hour :: u16
  io_minute :: u16
  io_second :: u16

record io_stat =
  io_mode :: u32
  io_attr :: u32
  io_size :: u64
  io_ctime :: io_time
  io_atime :: io_time
  io_mtime :: io_time

record io_dirent =
  d_stat :: io_stat
  d_name :: string

record file_handle =
  f_opened :: bool
  f_mode :: u32
  f_name :: "string option"

record dir_handle =
  d_opened :: bool
  d_count :: nat
  d_pos :: nat
  d_entries :: "io_dirent list"

record drive_info =
  btotal :: u32
  bfree :: u32
  unk :: u32
  ssize :: u32
  sects :: u32

record hostfs =
  open_files :: "file_handle list"
  open_dirs :: "dir_handle list"
  bulkfd :: int
  drives :: "host_drive list"
  calls :: "fs_call list"

datatype bulk_in = Bulk_data "u8 list" | Bulk_err int

datatype payload = P_bytes "u8 list" | P_stat io_stat | P_dirent io_dirent | P_info drive_info

datatype usb_block =
    Magic u32
  | Resp u32 u32 u32 "u32 option" "u64 option"
  | Payload payload

record usb =
  reads :: "bulk_in list"
  wres :: "int option list"
  outs :: "usb_block list"

text \<open>The sizes of the structures on the wire.\<close>

fun payload_size :: "payload \<Rightarrow> nat" where
  "payload_size (P_bytes bs) = length bs"
| "payload_size (P_stat _) = 88"
| "payload_size (P_dirent _) = 352"
| "payload_size (P_info _) = 20"

fun block_size :: "usb_block \<Rightarrow> nat" where
  "block_size (Magic _) = 4"
| "block_size (Resp _ _ _ res ofs) =
     12 + (if res = None then 0 else 4) + (if ofs = None then 0 else 8)"
| "block_size (Payload p) = payload_size p"

text \<open>
  A bulk read returns the number of bytes that arrived, at most those asked for, or a negative error; a
  link without further reads is closed. A bulk write returns the size of the block unless \<open>wres\<close>
  says otherwise.
\<close>

definition bulk_read :: "int \<Rightarrow> usb \<Rightarrow> int \<times> u8 list \<times> usb" where
  "bulk_read n u =
     (case reads u of
        [] \<Rightarrow> (-1, [], u)
      | Bulk_err e # rs \<Rightarrow> (e, [], u\<lparr>reads := rs\<rparr>)
      | Bulk_data d # rs \<Rightarrow> (let d = take (nat n) d in (int (length d), d, u\<lparr>reads := rs\<rparr>)))"

definition bulk_write :: "usb_block \<Rightarrow> usb \<Rightarrow> int \<times> usb" where
  "bulk_write b u =
     (case wres u of
        Some n # ws \<Rightarrow> (n, u\<lparr>wres := ws, outs := outs u @ [b]\<rparr>)
      | None # ws \<Rightarrow> (int (block_size b), u\<lparr>wres := ws, outs := outs u @ [b]\<rparr>)
      | [] \<Rightarrow> (int (block_size b), u\<lparr>outs := outs u @ [b]\<rparr>))"

type_synonym handled = "(int \<times> hostfs \<times> usb) option"

definition log :: "fs_call \<Rightarrow> hostfs \<Rightarrow> hostfs" where
  "log c s = s\<lparr>calls := calls s @ [c]\<rparr>"

lemma log_simps [simp]:
  "calls (log c s) = calls s @ [c]" "open_files (log c s) = open_files s"
  "open_dirs (log c s) = open_dirs s" "drives (log c s) = drives s" "bulkfd (log c s) = bulkfd s"
  by (simp_all add: log_def)

section \<open>Opening files and directories\<close>

definition is_dir :: "host_os \<Rightarrow> string \<Rightarrow> bool" where
  "is_dir os path = (case os_stat os path of Inl _ \<Rightarrow> False | Inr st \<Rightarrow> stat_mode st AND 0xF000 = 0x4000)"

text \<open>The access mode and flags of the PC for those of the PSP; \<open>None\<close> without an access mode.\<close>

definition open_mode :: "u32 \<Rightarrow> oflag list option" where
  "open_mode mode =
     (let acc = (if mode AND 3 = 3 then Some O_RDWR
                 else if mode AND 1 \<noteq> 0 then Some O_RDONLY
                 else if mode AND 2 \<noteq> 0 then Some O_WRONLY else None)
      in case acc of None \<Rightarrow> None
         | Some a \<Rightarrow> Some (a # (if mode AND 0x100 \<noteq> 0 then [O_APPEND] else [])
                            @ (if mode AND 0x200 \<noteq> 0 then [O_CREAT] else [])
                            @ (if mode AND 0x400 \<noteq> 0 then [O_TRUNC] else [])
                            @ (if mode AND 0x800 \<noteq> 0 then [O_EXCL] else [])))"

abbreviation HOSTFS_BULK_OPEN :: u32 where "HOSTFS_BULK_OPEN \<equiv> 0x1000000"

definition host_path :: "host_os \<Rightarrow> hostfs \<Rightarrow> u32 \<Rightarrow> string \<Rightarrow> bool \<Rightarrow> string option" where
  "host_path os s drive path dir = make_path (os_ls os) (os_flags os) (drives s) drive path dir"

definition open_file :: "host_os \<Rightarrow> u32 \<Rightarrow> string \<Rightarrow> u32 \<Rightarrow> u32 \<Rightarrow> hostfs \<Rightarrow> u32 \<times> hostfs" where
  "open_file os drive path mode mk s =
     (case host_path os s drive path False of
        None \<Rightarrow> (GETERROR ENOENT, s)
      | Some full \<Rightarrow>
         (case open_mode mode of
            None \<Rightarrow> (GETERROR EINVAL, s)
          | Some real_mode \<Rightarrow>
             (let s = log (Call_stat full) s
              in if is_dir os full then (GETERROR ENOENT, s)
                 else let r = os_open os full real_mode (mk AND NOT 0x49);
                          s = log (Call_open full real_mode (mk AND NOT 0x49) r) s
                      in case r of
                           Inl e \<Rightarrow> (GETERROR e, s)
                         | Inr fd \<Rightarrow>
                            if fd < MAX_FILES
                            then (of_nat fd, s\<lparr>open_files := (open_files s)[fd := \<lparr>f_opened = True,
                                                 f_mode = mode, f_name = Some full\<rparr>],
                                     bulkfd := (if mode AND HOSTFS_BULK_OPEN \<noteq> 0 then int fd else bulkfd s)\<rparr>)
                            else (GETERROR EMFILE, log (Call_close fd) s))))"

definition fill_time :: "host_os \<Rightarrow> int \<Rightarrow> io_time" where
  "fill_time os t =
     (let ft = os_localtime os t
      in \<lparr>io_year = word_of_int (tm_year ft + 1900), io_month = word_of_int (tm_mon ft + 1),
          io_day = word_of_int (tm_mday ft), io_hour = word_of_int (tm_hour ft),
          io_minute = word_of_int (tm_min ft), io_second = word_of_int (tm_sec ft)\<rparr>)"

text \<open>\<open>fill_stat\<close> without a directory name, and the path it forms with one.\<close>

definition fill_stat :: "host_os \<Rightarrow> string \<Rightarrow> errno + io_stat" where
  "fill_stat os path =
     (case os_stat os path of
        Inl e \<Rightarrow> Inl (GETERROR e)
      | Inr st \<Rightarrow>
         (let kind = (if stat_mode st AND 0xF000 = 0xA000 then (0x4000, 0x0008)
                      else if stat_mode st AND 0xF000 = 0x4000 then (0x1000, 0x0010)
                      else (0x2000, 0x0020))
          in Inr \<lparr>io_mode = fst kind OR (stat_mode st AND 0x1FF), io_attr = snd kind,
                  io_size = stat_size st, io_ctime = fill_time os (stat_ctime st),
                  io_atime = fill_time os (stat_atime st), io_mtime = fill_time os (stat_mtime st)\<rparr>))"

definition entry_path :: "string \<Rightarrow> string \<Rightarrow> string option" where
  "entry_path dirname name =
     (let path = (if last dirname = slash then dirname @ name else dirname @ slash # name)
      in if PATH_MAX < length path then None else Some (take (PATH_MAX - 1) path))"

text \<open>The entries of a directory with their data; it ends at the first that cannot be read.\<close>

fun fill_entries :: "host_os \<Rightarrow> string \<Rightarrow> string list \<Rightarrow> hostfs \<Rightarrow> io_dirent list option \<times> hostfs" where
  "fill_entries os dirname [] s = (Some [], s)"
| "fill_entries os dirname (name # names) s =
     (case entry_path dirname name of
        None \<Rightarrow> (None, s)
      | Some path \<Rightarrow>
         (let s = log (Call_entry dirname name) s
          in case fill_stat os path of
               Inl _ \<Rightarrow> (None, s)
             | Inr st \<Rightarrow>
                (let (r, s) = fill_entries os dirname names s
                 in (map_option (\<lambda>es. \<lparr>d_stat = st, d_name = name\<rparr> # es) r, s))))"

definition closed_dir :: dir_handle where
  "closed_dir = \<lparr>d_opened = False, d_count = 0, d_pos = 0, d_entries = []\<rparr>"

text \<open>The first directory handle that is free.\<close>

fun free_dir :: "dir_handle list \<Rightarrow> nat \<Rightarrow> nat option" where
  "free_dir [] i = None"
| "free_dir (d # ds) i = (if \<not> d_opened d then Some i else free_dir ds (Suc i))"

definition dir_open :: "host_os \<Rightarrow> u32 \<Rightarrow> string \<Rightarrow> hostfs \<Rightarrow> u32 \<times> hostfs" where
  "dir_open os drive dirname s =
     (case free_dir (open_dirs s) 0 of
        None \<Rightarrow> (GETERROR EMFILE, s)
      | Some did \<Rightarrow>
         (case host_path os s drive dirname True of
            None \<Rightarrow> (GETERROR ENOENT, s)
          | Some full \<Rightarrow>
             (let s = log (Call_scandir full) (s\<lparr>open_dirs := (open_dirs s)[did := closed_dir]\<rparr>)
              in case os_scandir os full of
                   Inl e \<Rightarrow> (GETERROR e, s)
                 | Inr names \<Rightarrow>
                    if names = [] then (GETERROR (os_errno os), s)
                    else if \<not> os_malloc os then (-1, s)
                    else (case fill_entries os full names s of
                            (None, s) \<Rightarrow> (-1, s)
                          | (Some es, s) \<Rightarrow>
                             (of_nat did, s\<lparr>open_dirs := (open_dirs s)[did := \<lparr>d_opened = True,
                                d_count = length names, d_pos = 0, d_entries = es\<rparr>]\<rparr>)))))"

definition dir_close :: "int \<Rightarrow> hostfs \<Rightarrow> u32 \<times> hostfs" where
  "dir_close did s =
     (if 0 \<le> did \<and> did < int MAX_DIRS \<and> d_opened (open_dirs s ! nat did)
      then (0, s\<lparr>open_dirs := (open_dirs s)[nat did := closed_dir]\<rparr>)
      else (-1, s))"

section \<open>The command handlers\<close>

abbreviation HOSTFS_MAGIC :: u32 where "HOSTFS_MAGIC \<equiv> 0x782F0812"
abbreviation BULK_MAGIC :: u32 where "BULK_MAGIC \<equiv> 0x782F0814"
abbreviation CMD_HELLO :: u32 where "CMD_HELLO \<equiv> 0x8FFC0000"
abbreviation CMD_OPEN :: u32 where "CMD_OPEN \<equiv> 0x8FFC0002"
abbreviation CMD_CLOSE :: u32 where "CMD_CLOSE \<equiv> 0x8FFC0003"
abbreviation CMD_READ :: u32 where "CMD_READ \<equiv> 0x8FFC0004"
abbreviation CMD_WRITE :: u32 where "CMD_WRITE \<equiv> 0x8FFC0005"
abbreviation CMD_LSEEK :: u32 where "CMD_LSEEK \<equiv> 0x8FFC0006"
abbreviation CMD_REMOVE :: u32 where "CMD_REMOVE \<equiv> 0x8FFC0007"
abbreviation CMD_MKDIR :: u32 where "CMD_MKDIR \<equiv> 0x8FFC0008"
abbreviation CMD_RMDIR :: u32 where "CMD_RMDIR \<equiv> 0x8FFC0009"
abbreviation CMD_DOPEN :: u32 where "CMD_DOPEN \<equiv> 0x8FFC000A"
abbreviation CMD_DREAD :: u32 where "CMD_DREAD \<equiv> 0x8FFC000B"
abbreviation CMD_DCLOSE :: u32 where "CMD_DCLOSE \<equiv> 0x8FFC000C"
abbreviation CMD_GETSTAT :: u32 where "CMD_GETSTAT \<equiv> 0x8FFC000D"
abbreviation CMD_CHSTAT :: u32 where "CMD_CHSTAT \<equiv> 0x8FFC000E"
abbreviation CMD_RENAME :: u32 where "CMD_RENAME \<equiv> 0x8FFC000F"
abbreviation CMD_CHDIR :: u32 where "CMD_CHDIR \<equiv> 0x8FFC0010"
abbreviation CMD_IOCTL :: u32 where "CMD_IOCTL \<equiv> 0x8FFC0011"
abbreviation CMD_DEVCTL :: u32 where "CMD_DEVCTL \<equiv> 0x8FFC0012"

text \<open>A 32-bit or 64-bit field of a packed command, and its length of extra data.\<close>

definition fld :: "u8 list \<Rightarrow> nat \<Rightarrow> u32" where
  "fld cmd i = le32 (drop i cmd)"

definition fld64 :: "u8 list \<Rightarrow> nat \<Rightarrow> u64" where
  "fld64 cmd i = ucast (fld cmd i) OR push_bit 32 (ucast (fld cmd (i + 4)))"

abbreviation extralen :: "u8 list \<Rightarrow> u32" where
  "extralen cmd \<equiv> fld cmd 8"

text \<open>The C string in a buffer of bytes.\<close>

definition c_string :: "u8 list \<Rightarrow> string" where
  "c_string bs = map (\<lambda>b. char_of (unat b)) (takeWhile (\<lambda>b. b \<noteq> 0) bs)"

text \<open>The answer that carries a result and nothing else.\<close>

definition respond :: "u32 \<Rightarrow> u32 \<Rightarrow> usb \<Rightarrow> int \<times> usb" where
  "respond command res u = bulk_write (Resp HOSTFS_MAGIC command 0 (Some res) None) u"

text \<open>An answer, and unless sending it failed the data that it announces.\<close>

definition respond_data :: "u32 \<Rightarrow> u32 \<Rightarrow> payload option \<Rightarrow> usb \<Rightarrow> int \<times> usb" where
  "respond_data command res pl u =
     (let ext = (case pl of None \<Rightarrow> 0 | Some p \<Rightarrow> of_nat (payload_size p));
          (ret, u) = bulk_write (Resp HOSTFS_MAGIC command ext (Some res) None) u
      in if ret < 0 then (ret, u)
         else case pl of Some p \<Rightarrow> if ext \<noteq> 0 then bulk_write (Payload p) u else (ret, u)
            | None \<Rightarrow> (ret, u))"

text \<open>
  The beginning shared by the handlers of commands with a path: the size of the command is checked,
  the path is read into a buffer on the stack that is not cleared (\<open>os_stack\<close> is what it and the
  stack above it hold), and \<open>body\<close> goes on with the string found there. More than \<open>HOSTFS_PATHMAX\<close>
  bytes run over the buffer.
\<close>

definition path_request ::
  "host_os \<Rightarrow> nat \<Rightarrow> u8 list \<Rightarrow> nat \<Rightarrow> hostfs \<Rightarrow> usb \<Rightarrow> (u8 list \<Rightarrow> usb \<Rightarrow> handled) \<Rightarrow> handled" where
  "path_request os n cmd cmdlen s u body =
     (if cmdlen \<noteq> n then Some (-1, s, u)
      else if extralen cmd = 0 then Some (-1, s, u)
      else let (ret, data, u) = bulk_read (sint (extralen cmd)) u
           in if HOSTFS_PATHMAX < length data then None
              else if of_int ret \<noteq> extralen cmd then Some (ret, s, u)
              else body data u)"

definition handle_hello :: "hostfs \<Rightarrow> usb \<Rightarrow> handled" where
  "handle_hello s u =
     (let (ret, u) = bulk_write (Resp HOSTFS_MAGIC CMD_HELLO 0 None None) u in Some (ret, s, u))"

definition handle_open :: "host_os \<Rightarrow> u8 list \<Rightarrow> nat \<Rightarrow> hostfs \<Rightarrow> usb \<Rightarrow> handled" where
  "handle_open os cmd cmdlen s u =
     path_request os 24 cmd cmdlen s u (\<lambda>data u.
       let (res, s) = open_file os (fld cmd 20) (c_string (data @ os_stack os)) (fld cmd 12) (fld cmd 16) s;
           (ret, u) = respond CMD_OPEN res u
       in Some (ret, s, u))"

definition handle_dopen :: "host_os \<Rightarrow> u8 list \<Rightarrow> nat \<Rightarrow> hostfs \<Rightarrow> usb \<Rightarrow> handled" where
  "handle_dopen os cmd cmdlen s u =
     path_request os 16 cmd cmdlen s u (\<lambda>data u.
       let (res, s) = dir_open os (fld cmd 12) (c_string (data @ os_stack os)) s;
           (ret, u) = respond CMD_DOPEN res u
       in Some (ret, s, u))"

text \<open>
  \<open>fixed_write\<close>: writes until everything is written, at the end of the file or at an error; an
  interrupted call is repeated. The result and the bytes that were taken, \<open>n\<close> of them so far.
\<close>

fun fixed_write :: "write_answer list \<Rightarrow> u8 list \<Rightarrow> nat \<Rightarrow> (u32 \<times> u8 list) option" where
  "fixed_write as [] n = Some (of_nat n, [])"
| "fixed_write [] (b # bs) n = None"
| "fixed_write (Write_intr # as) (b # bs) n = fixed_write as (b # bs) n"
| "fixed_write (Write_eof # as) (b # bs) n = Some (of_nat n, [])"
| "fixed_write (Write_fail e # as) (b # bs) n = Some (GETERROR e, [])"
| "fixed_write (Wrote k # as) (b # bs) n =
     (if k = 0 then Some (of_nat n, [])
      else case fixed_write as (drop k (b # bs)) (n + min k (length (b # bs))) of
             None \<Rightarrow> None
           | Some (res, w) \<Rightarrow> Some (res, take k (b # bs) @ w))"

definition handle_write :: "host_os \<Rightarrow> u8 list \<Rightarrow> nat \<Rightarrow> hostfs \<Rightarrow> usb \<Rightarrow> handled" where
  "handle_write os cmd cmdlen s u =
     (if cmdlen \<noteq> 16 then Some (-1, s, u)
      else if extralen cmd = 0 then Some (-1, s, u)
      else let (ret, data, u) = bulk_read (sint (extralen cmd)) u; fid = sint (fld cmd 12)
           in if HOSTFS_MAX_BLOCK < length data then None
              else if of_int ret \<noteq> extralen cmd then Some (ret, s, u)
              else if 0 \<le> fid \<and> fid < int MAX_FILES \<and> f_opened (open_files s ! nat fid)
              then (case fixed_write (os_write os) data 0 of
                      None \<Rightarrow> None
                    | Some (res, w) \<Rightarrow>
                       (let (ret, u) = respond CMD_WRITE res u
                        in Some (ret, log (Call_write (nat fid) w) s, u)))
              else let (ret, u) = respond CMD_WRITE (-1) u in Some (ret, s, u))"

text \<open>\<open>fixed_read\<close>: the result, and the data read so far into the buffer.\<close>

fun fixed_read :: "read_answer list \<Rightarrow> nat \<Rightarrow> u8 list \<Rightarrow> (u32 \<times> u8 list) option" where
  "fixed_read as 0 acc = Some (of_nat (length acc), acc)"
| "fixed_read [] (Suc n) acc = None"
| "fixed_read (Read_intr # as) (Suc n) acc = fixed_read as (Suc n) acc"
| "fixed_read (Read_eof # as) (Suc n) acc = Some (of_nat (length acc), acc)"
| "fixed_read (Read_fail e # as) (Suc n) acc = Some (GETERROR e, acc)"
| "fixed_read (Got d # as) (Suc n) acc =
     (if d = [] then Some (of_nat (length acc), acc) else fixed_read as (Suc n - length d) (acc @ take (Suc n) d))"

definition handle_read :: "host_os \<Rightarrow> u8 list \<Rightarrow> nat \<Rightarrow> hostfs \<Rightarrow> usb \<Rightarrow> handled" where
  "handle_read os cmd cmdlen s u =
     (if cmdlen \<noteq> 20 then Some (-1, s, u)
      else if sint (fld cmd 16) \<le> 0 then Some (-1, s, u)
      else let fid = sint (fld cmd 12)
           in if 0 \<le> fid \<and> fid < int MAX_FILES \<and> f_opened (open_files s ! nat fid)
              then (case fixed_read (os_read os) (unat (fld cmd 16)) [] of
                      None \<Rightarrow> None
                    | Some (res, block) \<Rightarrow>
                       if HOSTFS_MAX_BLOCK < length block then None
                       else let (ret, u) = respond_data CMD_READ res
                                   (if 0 \<le> sint res then Some (P_bytes block) else None) u
                            in Some (ret, log (Call_read (nat fid) (fld cmd 16)) s, u))
              else let (ret, u) = respond_data CMD_READ (-1) None u in Some (ret, s, u))"

definition handle_close :: "host_os \<Rightarrow> u8 list \<Rightarrow> nat \<Rightarrow> hostfs \<Rightarrow> usb \<Rightarrow> handled" where
  "handle_close os cmd cmdlen s u =
     (if cmdlen \<noteq> 16 then Some (-1, s, u)
      else let fid = sint (fld cmd 12)
           in if 2 < fid \<and> fid < int MAX_FILES \<and> f_opened (open_files s ! nat fid)
              then let res = (case os_close os (nat fid) of Some e \<Rightarrow> GETERROR e | None \<Rightarrow> 0);
                       s = log (Call_close (nat fid)) s;
                       s = s\<lparr>open_files := (open_files s)[nat fid :=
                               (open_files s ! nat fid)\<lparr>f_opened := False, f_name := None\<rparr>],
                             bulkfd := (if fid = bulkfd s then -1 else bulkfd s)\<rparr>;
                       (ret, u) = respond CMD_CLOSE res u
                   in Some (ret, s, u)
              else let (ret, u) = respond CMD_CLOSE (-1) u in Some (ret, s, u))"

definition handle_dclose :: "u8 list \<Rightarrow> nat \<Rightarrow> hostfs \<Rightarrow> usb \<Rightarrow> handled" where
  "handle_dclose cmd cmdlen s u =
     (if cmdlen \<noteq> 16 then Some (-1, s, u)
      else let (res, s) = dir_close (sint (fld cmd 12)) s; (ret, u) = respond CMD_DCLOSE res u
           in Some (ret, s, u))"

text \<open>The answer carries the number of the read command, not of the one for directories.\<close>

definition handle_dread :: "u8 list \<Rightarrow> nat \<Rightarrow> hostfs \<Rightarrow> usb \<Rightarrow> handled" where
  "handle_dread cmd cmdlen s u =
     (if cmdlen \<noteq> 16 then Some (-1, s, u)
      else let did = sint (fld cmd 12)
           in if 0 \<le> did \<and> did < int MAX_FILES \<and> d_opened (open_dirs s ! nat did)
              then let d = open_dirs s ! nat did
                   in if d_pos d < d_count d
                      then let s = s\<lparr>open_dirs := (open_dirs s)[nat did := d\<lparr>d_pos := d_pos d + 1\<rparr>]\<rparr>;
                               (ret, u) = respond_data CMD_READ (of_nat (d_count d - d_pos d))
                                            (Some (P_dirent (d_entries d ! d_pos d))) u
                           in Some (ret, s, u)
                      else let (ret, u) = respond_data CMD_READ 0 None u in Some (ret, s, u)
              else let (ret, u) = respond_data CMD_READ (-1) None u in Some (ret, s, u))"

definition handle_lseek :: "host_os \<Rightarrow> u8 list \<Rightarrow> nat \<Rightarrow> hostfs \<Rightarrow> usb \<Rightarrow> handled" where
  "handle_lseek os cmd cmdlen s u =
     (if cmdlen \<noteq> 28 then Some (-1, s, u)
      else let fid = sint (fld cmd 12)
           in if 2 < fid \<and> fid < int MAX_FILES \<and> f_opened (open_files s ! nat fid)
              then let ofs = os_lseek os (nat fid) (fld64 cmd 16) (fld cmd 24);
                       s = log (Call_lseek (nat fid) (fld64 cmd 16) (fld cmd 24)) s;
                       res = (if sint ofs < 0 then -1 else 0);
                       (ret, u) = bulk_write (Resp HOSTFS_MAGIC CMD_LSEEK 0 (Some res) (Some ofs)) u
                   in Some (ret, s, u)
              else let (ret, u) = bulk_write (Resp HOSTFS_MAGIC CMD_LSEEK 0 (Some (-1)) (Some 0)) u
                   in Some (ret, s, u))"

text \<open>The result of a call: zero, or the error.\<close>

definition call_result :: "errno option \<Rightarrow> u32" where
  "call_result r = (case r of Some e \<Rightarrow> GETERROR e | None \<Rightarrow> 0)"

definition handle_remove :: "host_os \<Rightarrow> u8 list \<Rightarrow> nat \<Rightarrow> hostfs \<Rightarrow> usb \<Rightarrow> handled" where
  "handle_remove os cmd cmdlen s u =
     path_request os 16 cmd cmdlen s u (\<lambda>data u.
       let (res, s) =
             (case host_path os s (fld cmd 12) (c_string (data @ os_stack os)) False of
                None \<Rightarrow> (-1, s)
              | Some full \<Rightarrow> (call_result (os_unlink os full), log (Call_unlink full) s));
           (ret, u) = respond CMD_REMOVE res u
       in Some (ret, s, u))"

definition handle_rmdir :: "host_os \<Rightarrow> u8 list \<Rightarrow> nat \<Rightarrow> hostfs \<Rightarrow> usb \<Rightarrow> handled" where
  "handle_rmdir os cmd cmdlen s u =
     path_request os 16 cmd cmdlen s u (\<lambda>data u.
       let (res, s) =
             (case host_path os s (fld cmd 12) (c_string (data @ os_stack os)) False of
                None \<Rightarrow> (-1, s)
              | Some full \<Rightarrow> (call_result (os_rmdir os full), log (Call_rmdir full) s));
           (ret, u) = respond CMD_RMDIR res u
       in Some (ret, s, u))"

definition handle_mkdir :: "host_os \<Rightarrow> u8 list \<Rightarrow> nat \<Rightarrow> hostfs \<Rightarrow> usb \<Rightarrow> handled" where
  "handle_mkdir os cmd cmdlen s u =
     path_request os 20 cmd cmdlen s u (\<lambda>data u.
       let (res, s) =
             (case host_path os s (fld cmd 16) (c_string (data @ os_stack os)) False of
                None \<Rightarrow> (-1, s)
              | Some full \<Rightarrow> (call_result (os_mkdir os full (fld cmd 12)),
                              log (Call_mkdir full (fld cmd 12)) s));
           (ret, u) = respond CMD_MKDIR res u
       in Some (ret, s, u))"

definition handle_getstat :: "host_os \<Rightarrow> u8 list \<Rightarrow> nat \<Rightarrow> hostfs \<Rightarrow> usb \<Rightarrow> handled" where
  "handle_getstat os cmd cmdlen s u =
     path_request os 16 cmd cmdlen s u (\<lambda>data u.
       let (res, pl, s) =
             (case host_path os s (fld cmd 12) (c_string (data @ os_stack os)) False of
                None \<Rightarrow> (-1, None, s)
              | Some full \<Rightarrow>
                 (let s = log (Call_stat full) s
                  in case fill_stat os full of
                       Inl e \<Rightarrow> (e, None, s)
                     | Inr st \<Rightarrow> (0, Some (P_stat st), s)));
           (ret, u) = respond_data CMD_GETSTAT res pl u
       in Some (ret, s, u))"

text \<open>\<open>psp_settime\<close>: one of the two times is changed, the other written back. The fields of a time stamp.\<close>

definition fld16 :: "u8 list \<Rightarrow> nat \<Rightarrow> int" where
  "fld16 cmd i = uint (ucast (fld cmd i) :: u16)"

definition stamp :: "u8 list \<Rightarrow> nat \<Rightarrow> tm" where
  "stamp cmd i = \<lparr>tm_year = fld16 cmd i - 1900, tm_mon = fld16 cmd (i + 2) - 1, tm_mday = fld16 cmd (i + 4),
      tm_hour = fld16 cmd (i + 6), tm_min = fld16 cmd (i + 8), tm_sec = fld16 cmd (i + 10)\<rparr>"

definition PSP_CHSTAT_ATIME :: u32 where "PSP_CHSTAT_ATIME = 0x10"
definition PSP_CHSTAT_MTIME :: u32 where "PSP_CHSTAT_MTIME = 0x20"

definition psp_settime :: "host_os \<Rightarrow> string \<Rightarrow> tm \<Rightarrow> u32 \<Rightarrow> hostfs \<Rightarrow> int \<times> hostfs" where
  "psp_settime os path ts which s =
     (let s = log (Call_stat path) s
      in case os_stat os path of
           Inl _ \<Rightarrow> (-1, s)
         | Inr st \<Rightarrow>
            (case os_mktime os ts of
               None \<Rightarrow> (-1, s)
             | Some t \<Rightarrow>
                if which = PSP_CHSTAT_ATIME
                then (os_utime os path t (stat_mtime st), log (Call_utime path t (stat_mtime st)) s)
                else if which = PSP_CHSTAT_MTIME
                then (os_utime os path (stat_atime st) t, log (Call_utime path (stat_atime st) t) s)
                else (-1, s)))"

definition psp_chstat :: "host_os \<Rightarrow> string \<Rightarrow> u8 list \<Rightarrow> hostfs \<Rightarrow> u32 \<times> hostfs" where
  "psp_chstat os path cmd s =
     (let bits = fld cmd 12;
          mk = fld cmd 16 AND 0x1FF;
          (r, s) = (if bits AND 1 \<noteq> 0 then (os_chmod os path mk, log (Call_chmod path mk) s) else (None, s))
      in case r of
           Some e \<Rightarrow> (GETERROR e, s)
         | None \<Rightarrow>
            (let (a, s) = (if bits AND PSP_CHSTAT_ATIME \<noteq> 0
                           then psp_settime os path (stamp cmd 28) PSP_CHSTAT_ATIME s else (0, s))
             in if a < 0 then (-1, s)
                else let (m, s) = (if bits AND PSP_CHSTAT_MTIME \<noteq> 0
                                   then psp_settime os path (stamp cmd 40) PSP_CHSTAT_MTIME s else (0, s))
                     in if m < 0 then (-1, s) else (0, s)))"

definition handle_chstat :: "host_os \<Rightarrow> u8 list \<Rightarrow> nat \<Rightarrow> hostfs \<Rightarrow> usb \<Rightarrow> handled" where
  "handle_chstat os cmd cmdlen s u =
     path_request os 56 cmd cmdlen s u (\<lambda>data u.
       let (res, s) =
             (case host_path os s (fld cmd 52) (c_string (data @ os_stack os)) False of
                None \<Rightarrow> (-1, s)
              | Some full \<Rightarrow> psp_chstat os full cmd s);
           (ret, u) = respond CMD_CHSTAT res u
       in Some (ret, s, u))"

text \<open>The buffer of a rename is cleared first: two strings one after the other.\<close>

definition handle_rename :: "host_os \<Rightarrow> u8 list \<Rightarrow> nat \<Rightarrow> hostfs \<Rightarrow> usb \<Rightarrow> handled" where
  "handle_rename os cmd cmdlen s u =
     path_request os 16 cmd cmdlen s u (\<lambda>data u.
       let buf = data @ replicate (HOSTFS_PATHMAX - length data) 0 @ os_stack os;
           old = c_string buf;
           dest = rename_dest old (c_string (drop (length old + 1) buf))
       in if PATH_MAX \<le> length dest then None
          else let (res, s) =
                 (case host_path os s (fld cmd 12) old False of
                    None \<Rightarrow> (-1, s)
                  | Some oldpath \<Rightarrow>
                     (case host_path os s (fld cmd 12) dest False of
                        None \<Rightarrow> (-1, s)
                      | Some newpath \<Rightarrow> (call_result (os_rename os oldpath newpath),
                                         log (Call_rename oldpath newpath) s)));
               (ret, u) = respond CMD_RENAME res u
           in Some (ret, s, u))"

text \<open>The current directory is copied as it is, without the lock on the drives.\<close>

definition handle_chdir :: "host_os \<Rightarrow> u8 list \<Rightarrow> nat \<Rightarrow> hostfs \<Rightarrow> usb \<Rightarrow> handled" where
  "handle_chdir os cmd cmdlen s u =
     path_request os 16 cmd cmdlen s u (\<lambda>data u.
       let path = c_string (data @ os_stack os); fsnum = sint (fld cmd 12)
       in if 0 \<le> fsnum \<and> fsnum < int MAX_HOSTDRIVES
          then (if PATH_MAX \<le> length path then None
                else let s = s\<lparr>drives := (drives s)[nat fsnum :=
                               (drives s ! nat fsnum)\<lparr>currdir := path\<rparr>]\<rparr>;
                         (ret, u) = respond CMD_CHDIR 0 u
                     in Some (ret, s, u))
          else let (ret, u) = respond CMD_CHDIR (-1) u in Some (ret, s, u))"

text \<open>The extra data of \<open>ioctl\<close> and \<open>devctl\<close>, if any: it is read into 64 kilobytes and not used.\<close>

definition skip_data :: "u8 list \<Rightarrow> hostfs \<Rightarrow> usb \<Rightarrow> (usb \<Rightarrow> handled) \<Rightarrow> handled" where
  "skip_data cmd s u body =
     (let inlen = sint (extralen cmd)
      in if 0 < inlen
         then let (ret, data, u) = bulk_read inlen u
              in if HOSTFS_MAX_BLOCK < length data then None
                 else if ret \<noteq> inlen then Some (ret, s, u) else body u
         else body u)"

definition handle_ioctl :: "u8 list \<Rightarrow> nat \<Rightarrow> hostfs \<Rightarrow> usb \<Rightarrow> handled" where
  "handle_ioctl cmd cmdlen s u =
     (if cmdlen \<noteq> 24 then Some (-1, s, u)
      else skip_data cmd s u (\<lambda>u.
        let (ret, u) = respond_data CMD_IOCTL (-1) None u in Some (ret, s, u)))"

definition get_drive_info :: "host_os \<Rightarrow> u32 \<Rightarrow> hostfs \<Rightarrow> drive_info option \<times> hostfs" where
  "get_drive_info os drive s =
     (if MAX_HOSTDRIVES \<le> unat drive then (None, s)
      else (case os_statvfs os (rootdir (drives s ! unat drive)) of
              None \<Rightarrow> None
            | Some st \<Rightarrow> Some \<lparr>btotal = ucast (vfs_blocks st), bfree = ucast (vfs_bfree st),
                unk = ucast (vfs_blocks st), ssize = 512, sects = ucast (vfs_frsize st div 512)\<rparr>,
            log (Call_statvfs (unat drive)) s))"

definition handle_devctl :: "host_os \<Rightarrow> u8 list \<Rightarrow> nat \<Rightarrow> hostfs \<Rightarrow> usb \<Rightarrow> handled" where
  "handle_devctl os cmd cmdlen s u =
     (if cmdlen \<noteq> 24 then Some (-1, s, u)
      else skip_data cmd s u (\<lambda>u.
        let (res, pl, s) =
              (if fld cmd 12 = 0x02425818
               then (case get_drive_info os (fld cmd 16) s of
                       (None, s) \<Rightarrow> (-1, None, s)
                     | (Some info, s) \<Rightarrow> (0, Some (P_info info), s))
               else (-1, None, s));
            (ret, u) = respond_data CMD_DEVCTL res pl u
        in Some (ret, s, u)))"

section \<open>Packets and connections\<close>

definition do_hostfs :: "host_os \<Rightarrow> u8 list \<Rightarrow> nat \<Rightarrow> hostfs \<Rightarrow> usb \<Rightarrow> handled" where
  "do_hostfs os cmd readlen s u =
     (let command = fld cmd 4
      in if command = CMD_HELLO then handle_hello s u
         else if command = CMD_OPEN then handle_open os cmd readlen s u
         else if command = CMD_CLOSE then handle_close os cmd readlen s u
         else if command = CMD_WRITE then handle_write os cmd readlen s u
         else if command = CMD_READ then handle_read os cmd readlen s u
         else if command = CMD_LSEEK then handle_lseek os cmd readlen s u
         else if command = CMD_DOPEN then handle_dopen os cmd readlen s u
         else if command = CMD_DCLOSE then handle_dclose cmd readlen s u
         else if command = CMD_DREAD then handle_dread cmd readlen s u
         else if command = CMD_REMOVE then handle_remove os cmd readlen s u
         else if command = CMD_RMDIR then handle_rmdir os cmd readlen s u
         else if command = CMD_MKDIR then handle_mkdir os cmd readlen s u
         else if command = CMD_CHDIR then handle_chdir os cmd readlen s u
         else if command = CMD_RENAME then handle_rename os cmd readlen s u
         else if command = CMD_GETSTAT then handle_getstat os cmd readlen s u
         else if command = CMD_CHSTAT then handle_chstat os cmd readlen s u
         else if command = CMD_IOCTL then handle_ioctl cmd readlen s u
         else if command = CMD_DEVCTL then handle_devctl os cmd readlen s u
         else Some (0, s, u))"

text \<open>
  The reading loop of \<open>do_bulk\<close>: blocks of at most \<open>HOSTFS_MAX_BLOCK\<close> until \<open>len\<close> bytes are there; what
  was read, and whether it is all.
\<close>

function bulk_loop :: "nat \<Rightarrow> u8 list \<Rightarrow> usb \<Rightarrow> bool \<times> u8 list \<times> usb" where
  "bulk_loop left acc u =
     (if left = 0 then (True, acc, u)
      else let readsize = (if HOSTFS_MAX_BLOCK < left then HOSTFS_MAX_BLOCK else left);
               (ret, data, u) = bulk_read (int readsize) u
           in if ret \<noteq> int readsize then (False, acc @ data, u)
              else bulk_loop (left - readsize) (acc @ data) u)"
  by pat_completeness auto
termination
  by (relation "measure (\<lambda>(left, acc, u). left)") (auto split: if_splits)

declare bulk_loop.simps [simp del]

definition do_bulk :: "host_os \<Rightarrow> u8 list \<Rightarrow> hostfs \<Rightarrow> usb \<Rightarrow> (hostfs \<times> usb) option" where
  "do_bulk os cmd s u =
     (case bulk_loop (nat (sint (fld cmd 4))) [] u of (all, data, u) \<Rightarrow>
        if HOSTFS_BULK_MAXWRITE < length data then None
        else if all \<and> 0 \<le> bulkfd s \<and> bulkfd s < int MAX_FILES \<and> f_opened (open_files s ! nat (bulkfd s))
        then (case fixed_write (os_write os) data 0 of
                None \<Rightarrow> None
              | Some (res, w) \<Rightarrow> Some (if data = [] then s else log (Call_write (nat (bulkfd s)) w) s, u))
        else Some (s, u))"

text \<open>
  One turn of the inner loop of \<open>start_hostfs\<close>: whether the loop goes on, the server and the link. A
  bulk read that times out returns -110.
\<close>

definition host_packet :: "host_os \<Rightarrow> hostfs \<Rightarrow> usb \<Rightarrow> (bool \<times> hostfs \<times> usb) option" where
  "host_packet os s u =
     (let (ret, data, u) = bulk_read 512 u; readlen = nat ret
      in if ret = 0 then Some (False, s, u)
         else if ret = -110 then Some (True, s, u)
         else if ret < 0 then Some (False, s, u)
         else if readlen < 4 then Some (False, s, u)
         else if fld data 0 = HOSTFS_MAGIC
         then (if readlen < 12 then Some (False, s, u)
               else map_option (\<lambda>(_, s, u). (True, s, u)) (do_hostfs os data readlen s u))
         else if fld data 0 = ASYNC_MAGIC
         then (if readlen < 8 then Some (False, s, u)
               else (case do_async (os_sockets os) data of
                       None \<Rightarrow> Some (True, s, u)
                     | Some (sock, bytes) \<Rightarrow> Some (True, log (Call_socket sock bytes) s, u)))
         else if fld data 0 = BULK_MAGIC
         then (if readlen < 8 then Some (False, s, u)
               else map_option (\<lambda>(s, u). (True, s, u)) (do_bulk os data s u))
         else Some (True, s, u))"

text \<open>The inner loop, with what the system answers during each turn; \<open>True\<close>: it is still going on.\<close>

fun host_loop :: "host_os list \<Rightarrow> hostfs \<Rightarrow> usb \<Rightarrow> (bool \<times> hostfs \<times> usb) option" where
  "host_loop [] s u = Some (True, s, u)"
| "host_loop (os # oss) s u =
     (case host_packet os s u of
        None \<Rightarrow> None
      | Some (True, s, u) \<Rightarrow> host_loop oss s u
      | Some (False, s, u) \<Rightarrow> Some (False, s, u))"

definition closed_file :: file_handle where
  "closed_file = \<lparr>f_opened = False, f_mode = 0, f_name = None\<rparr>"

definition init_hostfs :: "hostfs \<Rightarrow> hostfs" where
  "init_hostfs s = s\<lparr>open_files := replicate MAX_FILES closed_file,
     open_dirs := replicate MAX_DIRS closed_dir,
     drives := map (\<lambda>d. d\<lparr>currdir := [slash]\<rparr>) (drives s)\<rparr>"

definition close_one :: "hostfs \<Rightarrow> nat \<Rightarrow> hostfs" where
  "close_one s i =
     (if f_opened (open_files s ! i)
      then let s = log (Call_close i) s
           in s\<lparr>open_files := (open_files s)[i := (open_files s ! i)\<lparr>f_opened := False, f_name := None\<rparr>]\<rparr>
      else s)"

definition close_hostfs :: "hostfs \<Rightarrow> hostfs" where
  "close_hostfs s =
     (let s = foldl close_one s [3..<MAX_FILES]
      in s\<lparr>open_dirs := map (\<lambda>d. if d_opened d then closed_dir else d) (open_dirs s)\<rparr>)"

text \<open>One connection: the outer loop of \<open>start_hostfs\<close> from \<open>init_hostfs\<close> to \<open>close_hostfs\<close>.\<close>

definition host_connection :: "host_os list \<Rightarrow> hostfs \<Rightarrow> usb \<Rightarrow> (bool \<times> hostfs \<times> usb) option" where
  "host_connection oss s u =
     (let s = init_hostfs s; (ret, u) = bulk_write (Magic HOSTFS_MAGIC) u
      in if ret = 4
         then (case host_loop oss s u of
                 None \<Rightarrow> None
               | Some (True, s, u) \<Rightarrow> Some (True, s, u)
               | Some (False, s, u) \<Rightarrow> Some (False, close_hostfs s, u))
         else Some (False, close_hostfs s, u))"

text \<open>
  \<open>start_hostfs\<close>: one connection after another, each with the answers of the system and the link. The
  server at the end, and whether the last connection is still going on.
\<close>

fun start_hostfs :: "(host_os list \<times> usb) list \<Rightarrow> hostfs \<Rightarrow> (bool \<times> hostfs) option" where
  "start_hostfs [] s = Some (False, s)"
| "start_hostfs ((oss, u) # cs) s =
     (case host_connection oss s u of
        None \<Rightarrow> None
      | Some (True, s, u) \<Rightarrow> Some (True, s)
      | Some (False, s, u) \<Rightarrow> start_hostfs cs s)"

section \<open>Commands on the wire\<close>

lemma sint_of_length: "int n < 2 ^ 31 \<Longrightarrow> sint (of_nat n :: u32) = int n"
  by (simp add: sint_uint unsigned_of_nat take_bit_nat_eq_self signed_take_bit_int_eq_self
      uint_nat of_nat_take_bit signed_of_nat)

text \<open>A command whose fields are all 32-bit words.\<close>

definition host_cmd :: "u32 list \<Rightarrow> u8 list" where
  "host_cmd ws = concat (map to_le32 ws)"

lemma length_host_cmd [simp]: "length (host_cmd ws) = 4 * length ws"
  by (induction ws) (simp_all add: host_cmd_def)

lemma fld_host_cmd: "k < length ws \<Longrightarrow> fld (host_cmd ws) (4 * k) = ws ! k"
proof (induction ws arbitrary: k)
  case (Cons w ws)
  show ?case
  proof (cases k)
    case 0
    then show ?thesis by (simp add: fld_def host_cmd_def)
  next
    case (Suc j)
    then have "fld (host_cmd (w # ws)) (4 * k) = fld (host_cmd ws) (4 * j)"
      by (simp add: fld_def host_cmd_def)
    then show ?thesis using Cons Suc by simp
  qed
qed simp

lemma fld_cmd:
  "fld (host_cmd (a # ws)) 0 = a"
  "fld (host_cmd (a # b # ws)) 4 = b"
  "fld (host_cmd (a # b # c # ws)) 8 = c"
  "fld (host_cmd (a # b # c # d # ws)) 12 = d"
  "fld (host_cmd (a # b # c # d # e # ws)) 16 = e"
  "fld (host_cmd (a # b # c # d # e # f # ws)) 20 = f"
  using fld_host_cmd [of 0 "a # ws"] fld_host_cmd [of 1 "a # b # ws"] fld_host_cmd [of 2 "a # b # c # ws"]
    fld_host_cmd [of 3 "a # b # c # d # ws"] fld_host_cmd [of 4 "a # b # c # d # e # ws"]
    fld_host_cmd [of 5 "a # b # c # d # e # f # ws"]
  by simp_all

end
