(* ===== verification/HostInv.thy ===== *)
theory HostInv
  imports HostFs
begin

text \<open>
  The invariants of the file server of \<open>HostFs\<close>: every call it makes names a path below a root directory
  of a drive and uses a file descriptor that it holds. One lemma per handler, then the packets, the
  connections and the whole history of \<open>start_hostfs\<close>.
\<close>

section \<open>What the calls may do\<close>

text \<open>A path below one of the root directories, or such a directory: those components, then plain names.\<close>

definition path_under :: "string list \<Rightarrow> string \<Rightarrow> bool" where
  "path_under roots p \<longleftrightarrow>
     (\<exists>r \<in> set roots. \<exists>rel. components p = foldl path_step [] (components r) @ rel \<and> list_all plain_name rel)"

text \<open>
  The data of an entry is read with \<open>stat\<close> of the directory's path and the entry's name. Among the entries that
  \<open>scandir\<close> gives are \<open>.\<close> and \<open>..\<close>: of a root directory, the second one is its parent. For every other name the
  path lies below the root, if it is not so long (4095 characters) that \<open>snprintf\<close> may have cut it.
\<close>

definition entry_under :: "string list \<Rightarrow> string \<Rightarrow> string \<Rightarrow> bool" where
  "entry_under roots dir name \<longleftrightarrow> path_under roots dir \<and>
     (\<forall>p. entry_path dir name = Some p \<longrightarrow> plain_name name \<longrightarrow> length p < PATH_MAX - 1 \<longrightarrow> path_under roots p)"

fun call_under :: "string list \<Rightarrow> fs_call \<Rightarrow> bool" where
  "call_under roots (Call_open p fl mk r) = path_under roots p"
| "call_under roots (Call_stat p) = path_under roots p"
| "call_under roots (Call_entry dir name) = entry_under roots dir name"
| "call_under roots (Call_scandir p) = path_under roots p"
| "call_under roots (Call_unlink p) = path_under roots p"
| "call_under roots (Call_rmdir p) = path_under roots p"
| "call_under roots (Call_mkdir p m) = path_under roots p"
| "call_under roots (Call_rename p q) = (path_under roots p \<and> path_under roots q)"
| "call_under roots (Call_chmod p m) = path_under roots p"
| "call_under roots (Call_utime p a m) = path_under roots p"
| "call_under roots _ = True"

lemma entry_under_dir:
  assumes "path_under roots dir"
  shows "entry_under roots dir name"
  unfolding entry_under_def
proof (intro conjI allI impI assms)
  fix p assume p: "entry_path dir name = Some p" "plain_name name" "length p < PATH_MAX - 1"
  let ?p = "if last dir = slash then dir @ name else dir @ slash # name"
  have n: "components name = [name]" using p(2) components_token [of name "[]"] by (simp add: plain_name_def)
  have "p = ?p" using p(1,3) by (auto simp: entry_path_def Let_def split: if_splits)
  moreover have "components ?p = components dir @ [name]"
  proof (cases dir rule: rev_cases)
    case (snoc d c)
    then show ?thesis using components_append_slash [of d "[]"] components_append_slash [of "d @ [c]" name]
      by (simp add: components_append_slash n)
  qed (simp add: n)
  moreover obtain r rel where "r \<in> set roots" "components dir = foldl path_step [] (components r) @ rel" "list_all plain_name rel"
    using assms by (auto simp: path_under_def)
  ultimately have "components p = foldl path_step [] (components r) @ (rel @ [name]) \<and> list_all plain_name (rel @ [name])"
    using p(2) by simp
  then show "path_under roots p" unfolding path_under_def using \<open>r \<in> set roots\<close> by blast
qed

text \<open>
  The file descriptors the server holds after a list of calls: \<open>open\<close> gives one, \<open>close\<close> takes it back,
  and every other use needs one that is held. \<open>None\<close>: a call used a descriptor that was not held.
\<close>

fun fd_step :: "nat set option \<Rightarrow> fs_call \<Rightarrow> nat set option" where
  "fd_step None c = None"
| "fd_step (Some L) (Call_open p fl mk (Inr fd)) = Some (insert fd L)"
| "fd_step (Some L) (Call_close fd) = (if fd \<in> L then Some (L - {fd}) else None)"
| "fd_step (Some L) (Call_write fd bs) = (if fd \<in> L then Some L else None)"
| "fd_step (Some L) (Call_read fd n) = (if fd \<in> L then Some L else None)"
| "fd_step (Some L) (Call_lseek fd ofs w) = (if fd \<in> L then Some L else None)"
| "fd_step (Some L) _ = Some L"

definition held :: "fs_call list \<Rightarrow> nat set option" where
  "held cs = foldl fd_step (Some {}) cs"

lemma held_Nil [simp]: "held [] = Some {}"
  by (simp add: held_def)

lemma held_snoc [simp]: "held (cs @ [c]) = fd_step (held cs) c"
  by (simp add: held_def)

section \<open>The invariant of the server\<close>

text \<open>Root directories in normal form, as \<open>add_drive\<close> leaves them, of at most 255 components.\<close>

definition roots_ok :: "string list \<Rightarrow> bool" where
  "roots_ok roots \<longleftrightarrow>
     list_all (\<lambda>r. length (components r) \<le> 255 \<and> foldl path_step [] (components r) = components r) roots"

text \<open>The table and the descriptors held: the standard streams alone may be held without being open.\<close>

definition table_ok :: "nat set \<Rightarrow> file_handle list \<Rightarrow> bool" where
  "table_ok L fs \<longleftrightarrow>
     (\<forall>fd < MAX_FILES. f_opened (fs ! fd) \<longrightarrow> fd \<in> L)
     \<and> (\<forall>fd \<in> L. fd < MAX_FILES \<and> (3 \<le> fd \<longrightarrow> f_opened (fs ! fd)))"

definition fds_ok :: "hostfs \<Rightarrow> bool" where
  "fds_ok s \<longleftrightarrow> (\<exists>L. held (calls s) = Some L \<and> table_ok L (open_files s))"

definition dir_ok :: "dir_handle \<Rightarrow> bool" where
  "dir_ok d \<longleftrightarrow> d_pos d \<le> d_count d \<and> (d_opened d \<longrightarrow> length (d_entries d) = d_count d)"

definition host_inv :: "string list \<Rightarrow> hostfs \<Rightarrow> bool" where
  "host_inv roots s \<longleftrightarrow>
     map rootdir (drives s) = roots \<and> length roots = MAX_HOSTDRIVES
     \<and> length (open_files s) = MAX_FILES \<and> length (open_dirs s) = MAX_DIRS
     \<and> list_all dir_ok (open_dirs s) \<and> fds_ok s
     \<and> (roots_ok roots \<longrightarrow> list_all (call_under roots) (calls s))"

text \<open>What holds of the server after a handler, if it comes to an end.\<close>

definition after :: "(hostfs \<Rightarrow> bool) \<Rightarrow> handled \<Rightarrow> bool" where
  "after P r = (case r of None \<Rightarrow> True | Some (ret, s, u) \<Rightarrow> P s)"

lemma after_simps [simp]: "after P None" "after P (Some (ret, s, u)) = P s"
  by (simp_all add: after_def)

named_theorems keeps "operations that keep the invariant of the server"

fun uses_fd :: "fs_call \<Rightarrow> bool" where
  "uses_fd (Call_open p fl mk (Inr fd)) = True"
| "uses_fd (Call_close fd) = True"
| "uses_fd (Call_write fd bs) = True"
| "uses_fd (Call_read fd n) = True"
| "uses_fd (Call_lseek fd ofs w) = True"
| "uses_fd _ = False"

lemma fd_step_other: "\<not> uses_fd c \<Longrightarrow> fd_step (Some L) c = Some L"
  by (cases c rule: uses_fd.cases) simp_all

lemma table_ok_open:
  assumes "table_ok L fs" "length fs = MAX_FILES" "fd < MAX_FILES" "f_opened h"
  shows "table_ok (insert fd L) (fs[fd := h])"
  unfolding table_ok_def
proof (intro conjI allI ballI impI)
  fix x assume "x < MAX_FILES" "f_opened (fs[fd := h] ! x)"
  then show "x \<in> insert fd L" using assms(1,2) by (cases "x = fd") (simp_all add: table_ok_def)
next
  fix x assume x: "x \<in> insert fd L"
  then show "x < MAX_FILES" using assms(1,3) by (auto simp: table_ok_def)
  assume "3 \<le> x"
  then show "f_opened (fs[fd := h] ! x)"
    using assms x by (cases "x = fd") (simp_all add: table_ok_def)
qed

lemma table_ok_close:
  assumes "table_ok L fs" "length fs = MAX_FILES" "\<not> f_opened h"
  shows "table_ok (L - {fd}) (fs[fd := h])"
  unfolding table_ok_def
proof (intro conjI allI ballI impI)
  fix x assume "x < MAX_FILES" "f_opened (fs[fd := h] ! x)"
  then show "x \<in> L - {fd}" using assms by (cases "x = fd") (simp_all add: table_ok_def)
next
  fix x assume x: "x \<in> L - {fd}"
  then show "x < MAX_FILES" using assms(1) by (simp add: table_ok_def)
  assume "3 \<le> x"
  then show "f_opened (fs[fd := h] ! x)" using assms(1) x by (simp add: table_ok_def)
qed

lemma fds_okE:
  assumes "fds_ok s"
  obtains L where "held (calls s) = Some L" "table_ok L (open_files s)"
  using assms by (auto simp: fds_ok_def)

lemma fds_ok_log: "fds_ok s \<Longrightarrow> \<not> uses_fd c \<Longrightarrow> fds_ok (log c s)"
  by (erule fds_okE) (auto simp: fds_ok_def fd_step_other)

lemma fds_ok_use:
  assumes "fds_ok s" "fd < MAX_FILES" "f_opened (open_files s ! fd)"
    and "c = Call_write fd bs \<or> c = Call_read fd n \<or> c = Call_lseek fd ofs w"
  shows "fds_ok (log c s)"
proof -
  obtain L where L: "held (calls s) = Some L" "table_ok L (open_files s)"
    using assms(1) by (rule fds_okE)
  have "fd \<in> L" using L(2) assms(2,3) by (simp add: table_ok_def)
  then have "held (calls (log c s)) = Some L" using L(1) assms(4) by auto
  then show ?thesis unfolding fds_ok_def using L(2) by simp
qed

lemma host_inv_log [keeps]:
  assumes "host_inv roots s" "\<not> uses_fd c" "roots_ok roots \<longrightarrow> call_under roots c"
  shows "host_inv roots (log c s)"
  using assms fds_ok_log [of s c] by (simp add: host_inv_def)

text \<open>A call that uses a descriptor the table has open.\<close>

lemma host_inv_use [keeps]:
  assumes "host_inv roots s" "fd < MAX_FILES" "f_opened (open_files s ! fd)"
    and "c = Call_write fd bs \<or> c = Call_read fd n \<or> c = Call_lseek fd ofs w"
  shows "host_inv roots (log c s)"
proof -
  have "call_under roots c" using assms(4) by auto
  then show ?thesis using assms(1) fds_ok_use [OF _ assms(2,3,4)] by (simp add: host_inv_def)
qed

lemma host_path_under:
  assumes "host_inv roots s" "host_path os s drive path dir = Some full" "roots_ok roots"
  shows "path_under roots full"
proof -
  have r: "rootdir (drives s ! unat drive) \<in> set roots" if "unat drive < MAX_HOSTDRIVES"
    using assms(1) that unfolding host_inv_def by (metis length_map nth_map nth_mem)
  have m: "make_path (os_ls os) (os_flags os) (drives s) drive path dir = Some full"
    using assms(2) by (simp add: host_path_def)
  have d: "unat drive < MAX_HOSTDRIVES"
    using m by (auto simp: make_path_def split: if_splits)
  have "length (components (rootdir (drives s ! unat drive))) \<le> 255"
    using r [OF d] assms(3) by (auto simp: roots_ok_def list_all_iff)
  from make_path_root [OF m this] show ?thesis
    unfolding path_under_def using r [OF d] by blast
qed

lemma host_inv_call [keeps]:
  assumes "host_inv roots s" "host_path os s drive path dir = Some full"
  shows "host_inv roots (log (Call_stat full) s)" "host_inv roots (log (Call_scandir full) s)"
    "host_inv roots (log (Call_unlink full) s)" "host_inv roots (log (Call_rmdir full) s)"
    "host_inv roots (log (Call_mkdir full m) s)"
  using host_path_under [OF assms] by (simp_all add: host_inv_log [OF assms(1)])

lemma host_inv_open:
  assumes "host_inv roots s" "roots_ok roots \<longrightarrow> path_under roots full" "fd < MAX_FILES"
  shows "host_inv roots ((log (Call_open full fl mk (Inr fd)) s)\<lparr>open_files :=
           (open_files s)[fd := \<lparr>f_opened = True, f_mode = mode, f_name = nm\<rparr>], bulkfd := b\<rparr>)"
    (is "host_inv roots ?s")
proof -
  have i: "fds_ok s" "length (open_files s) = MAX_FILES" using assms(1) by (simp_all add: host_inv_def)
  obtain L where L: "held (calls s) = Some L" "table_ok L (open_files s)" using i(1) by (rule fds_okE)
  then have "fds_ok ?s" unfolding fds_ok_def using table_ok_open [OF L(2) i(2) assms(3)] by simp
  then show ?thesis using assms by (simp add: host_inv_def)
qed

lemma host_inv_open_close:
  assumes "host_inv roots s" "roots_ok roots \<longrightarrow> path_under roots full" "\<not> fd < MAX_FILES"
  shows "host_inv roots (log (Call_close fd) (log (Call_open full fl mk (Inr fd)) s))"
    (is "host_inv roots ?s")
proof -
  have "fds_ok s" using assms(1) by (simp add: host_inv_def)
  then obtain L where L: "held (calls s) = Some L" "table_ok L (open_files s)" by (rule fds_okE)
  have "fd \<notin> L" using L(2) assms(3) unfolding table_ok_def by blast
  then have "held (calls ?s) = Some L" using L(1) by (simp add: held_def)
  then have "fds_ok ?s" unfolding fds_ok_def using L(2) by simp
  then show ?thesis using assms by (simp add: host_inv_def)
qed

text \<open>Closing a descriptor that the table has open.\<close>

definition forget :: "nat \<Rightarrow> hostfs \<Rightarrow> hostfs" where
  "forget fd s = s\<lparr>open_files := (open_files s)[fd := (open_files s ! fd)\<lparr>f_opened := False, f_name := None\<rparr>]\<rparr>"

lemma host_inv_close:
  assumes "host_inv roots s" "fd < MAX_FILES" "f_opened (open_files s ! fd)"
  shows "host_inv roots (forget fd (log (Call_close fd) s))" (is "host_inv roots ?s")
proof -
  have i: "fds_ok s" "length (open_files s) = MAX_FILES" using assms(1) by (simp_all add: host_inv_def)
  obtain L where L: "held (calls s) = Some L" "table_ok L (open_files s)" using i(1) by (rule fds_okE)
  have "fd \<in> L" using L(2) assms(2,3) by (simp add: table_ok_def)
  then have "fds_ok ?s"
    unfolding fds_ok_def forget_def using L(1) table_ok_close [OF L(2) i(2)] by simp
  then show ?thesis using assms(1) by (simp add: host_inv_def forget_def)
qed

lemma host_inv_bulkfd [simp]: "host_inv roots (s\<lparr>bulkfd := b\<rparr>) = host_inv roots s"
  by (simp add: host_inv_def fds_ok_def)

lemma host_inv_dir:
  "host_inv roots s \<Longrightarrow> dir_ok d \<Longrightarrow> host_inv roots (s\<lparr>open_dirs := (open_dirs s)[i := d]\<rparr>)"
  by (auto simp: host_inv_def fds_ok_def list_all_iff dest: subsetD [OF set_update_subset_insert])

lemma host_inv_chdir:
  assumes "host_inv roots s"
  shows "host_inv roots (s\<lparr>drives := (drives s)[i := (drives s ! i)\<lparr>currdir := p\<rparr>]\<rparr>)"
proof -
  have "map rootdir ((drives s)[i := (drives s ! i)\<lparr>currdir := p\<rparr>]) = map rootdir (drives s)"
    by (cases "i < length (drives s)") (simp_all add: map_update list_update_same_conv list_update_beyond)
  then show ?thesis using assms by (simp add: host_inv_def fds_ok_def)
qed

lemma dir_ok_closed [simp]: "dir_ok closed_dir"
  by (simp add: dir_ok_def closed_dir_def)

section \<open>Every handler keeps the invariant\<close>

lemma open_file_keeps:
  assumes "host_inv roots s"
  shows "host_inv roots (snd (open_file os drive path mode mk s))"
proof (cases "host_path os s drive path False")
  case (Some full)
  have u: "roots_ok roots \<longrightarrow> path_under roots full" using host_path_under [OF assms Some] by blast
  have i: "host_inv roots (log (Call_stat full) s)" by (rule host_inv_call [OF assms Some])
  show ?thesis
    using Some assms i u host_inv_open [OF i u] host_inv_open_close [OF i u]
    by (auto simp: open_file_def Let_def split: option.splits sum.splits intro!: host_inv_log)
qed (simp add: open_file_def assms)

lemma fill_entries_keeps:
  assumes "host_inv roots s" "roots_ok roots \<longrightarrow> path_under roots full"
  shows "fill_entries os full names s = (r, s') \<Longrightarrow> host_inv roots s'
         \<and> (\<forall>es. r = Some es \<longrightarrow> length es = length names)"
  using assms(1)
proof (induction names arbitrary: s r s')
  case (Cons name names)
  have i: "host_inv roots (log (Call_entry full name) s)"
    using Cons.prems(2) assms(2) entry_under_dir by (intro host_inv_log) simp_all
  show ?case using Cons.prems i
    by (auto simp: Let_def split: option.splits sum.splits prod.splits dest!: Cons.IH [OF _ i])
qed simp

lemma dir_open_keeps:
  assumes "host_inv roots s"
  shows "host_inv roots (snd (dir_open os drive dirname s))"
proof (cases "free_dir (open_dirs s) 0")
  case (Some did)
  note f = Some
  show ?thesis
  proof (cases "host_path os s drive dirname True")
    case (Some full)
    let ?s = "log (Call_scandir full) (s\<lparr>open_dirs := (open_dirs s)[did := closed_dir]\<rparr>)"
    have u: "roots_ok roots \<longrightarrow> path_under roots full" using host_path_under [OF assms Some] by blast
    have i: "host_inv roots ?s"
      using host_inv_dir [OF assms dir_ok_closed] u by (intro host_inv_log) simp_all
    show ?thesis
      using f Some i fill_entries_keeps [OF i u]
      by (auto simp: dir_open_def Let_def dir_ok_def split: option.splits sum.splits prod.splits
          intro!: host_inv_dir)
  qed (simp add: dir_open_def f assms)
qed (simp add: dir_open_def assms)

lemma dir_close_keeps: "host_inv roots s \<Longrightarrow> host_inv roots (snd (dir_close did s))"
  by (simp add: dir_close_def host_inv_dir)

lemma psp_settime_keeps:
  "host_inv roots s \<Longrightarrow> roots_ok roots \<longrightarrow> path_under roots full \<Longrightarrow>
   host_inv roots (snd (psp_settime os full ts which s))"
  by (auto simp: psp_settime_def Let_def split: sum.splits option.splits intro!: host_inv_log)

lemma psp_chstat_keeps:
  assumes "host_inv roots s" "roots_ok roots \<longrightarrow> path_under roots full"
  shows "host_inv roots (snd (psp_chstat os full cmd s))"
proof -
  have c: "host_inv roots (log (Call_chmod full m) s)" for m
    using assms by (intro host_inv_log) simp_all
  have t: "host_inv roots x" if "psp_settime os full ts w y = (r, x)" "host_inv roots y" for ts w y r x
    using psp_settime_keeps [OF that(2) assms(2), of os ts w] that(1) by simp
  show ?thesis
    using assms(1) c by (auto simp: psp_chstat_def Let_def split: prod.splits option.splits if_splits dest: t)
qed

lemma path_request_after:
  assumes "host_inv roots s" "\<And>data u. after (host_inv roots) (body data u)"
  shows "after (host_inv roots) (path_request os n cmd cmdlen s u body)"
  using assms by (auto simp: path_request_def Let_def split: prod.splits)

lemma skip_data_after:
  assumes "host_inv roots s" "\<And>u. after (host_inv roots) (body u)"
  shows "after (host_inv roots) (skip_data cmd s u body)"
  using assms by (auto simp: skip_data_def Let_def split: prod.splits)

lemmas handler_defs = handle_hello_def handle_open_def handle_dopen_def handle_write_def handle_read_def
  handle_close_def handle_dclose_def handle_dread_def handle_lseek_def handle_remove_def handle_rmdir_def
  handle_mkdir_def handle_getstat_def handle_chstat_def handle_rename_def handle_chdir_def
  handle_ioctl_def handle_devctl_def

lemma snd_eqD: "f = (a, b) \<Longrightarrow> P (snd f) \<Longrightarrow> P b"
  by simp

lemma path_handlers_keep:
  assumes i: "host_inv roots s"
  shows "after (host_inv roots) (handle_open os cmd n s u)"
    "after (host_inv roots) (handle_dopen os cmd n s u)"
    "after (host_inv roots) (handle_remove os cmd n s u)"
    "after (host_inv roots) (handle_rmdir os cmd n s u)"
    "after (host_inv roots) (handle_mkdir os cmd n s u)"
    "after (host_inv roots) (handle_getstat os cmd n s u)"
    "after (host_inv roots) (handle_chdir os cmd n s u)"
proof -
  show "after (host_inv roots) (handle_open os cmd n s u)"
    unfolding handle_open_def
    by (rule path_request_after [OF i])
      (auto simp: Let_def split: prod.splits elim: snd_eqD intro: open_file_keeps [OF i])
  show "after (host_inv roots) (handle_dopen os cmd n s u)"
    unfolding handle_dopen_def
    by (rule path_request_after [OF i])
      (auto simp: Let_def split: prod.splits elim: snd_eqD intro: dir_open_keeps [OF i])
  show "after (host_inv roots) (handle_remove os cmd n s u)"
    unfolding handle_remove_def
    by (rule path_request_after [OF i])
      (auto simp: Let_def i host_inv_call [OF i] split: prod.splits option.splits)
  show "after (host_inv roots) (handle_rmdir os cmd n s u)"
    unfolding handle_rmdir_def
    by (rule path_request_after [OF i])
      (auto simp: Let_def i host_inv_call [OF i] split: prod.splits option.splits)
  show "after (host_inv roots) (handle_mkdir os cmd n s u)"
    unfolding handle_mkdir_def
    by (rule path_request_after [OF i])
      (auto simp: Let_def i host_inv_call [OF i] split: prod.splits option.splits)
  show "after (host_inv roots) (handle_getstat os cmd n s u)"
    unfolding handle_getstat_def
    by (rule path_request_after [OF i])
      (auto simp: Let_def i host_inv_call [OF i] split: prod.splits option.splits sum.splits)
  show "after (host_inv roots) (handle_chdir os cmd n s u)"
    unfolding handle_chdir_def
    by (rule path_request_after [OF i])
      (auto simp: Let_def i host_inv_chdir [OF i] split: prod.splits)
qed

lemma handle_chstat_keeps:
  assumes i: "host_inv roots s"
  shows "after (host_inv roots) (handle_chstat os cmd n s u)"
  unfolding handle_chstat_def
proof (rule path_request_after [OF i], goal_cases)
  case (1 data u)
  let ?p = "host_path os s (fld cmd 52) (c_string (data @ os_stack os)) False"
  show ?case
  proof (cases ?p)
    case (Some full)
    have "host_inv roots (snd (psp_chstat os full cmd s))"
      using host_path_under [OF i Some] by (intro psp_chstat_keeps [OF i]) blast
    then show ?thesis using Some by (auto simp: Let_def split: prod.splits)
  qed (simp add: i Let_def split: prod.splits)
qed

lemma handle_rename_keeps:
  assumes i: "host_inv roots s"
  shows "after (host_inv roots) (handle_rename os cmd n s u)"
proof -
  have r: "host_inv roots (log (Call_rename p q) s)"
    if "host_path os s d old False = Some p" "host_path os s d new False = Some q" for d old new p q
    using host_path_under [OF i that(1)] host_path_under [OF i that(2)]
    by (intro host_inv_log [OF i]) simp_all
  show ?thesis
    unfolding handle_rename_def
    by (rule path_request_after [OF i]) (auto simp: Let_def i split: prod.splits option.splits intro: r)
qed

lemma table_handlers_keep:
  assumes i: "host_inv roots s"
  shows "after (host_inv roots) (handle_write os cmd n s u)"
    "after (host_inv roots) (handle_read os cmd n s u)"
    "after (host_inv roots) (handle_lseek os cmd n s u)"
    "after (host_inv roots) (handle_close os cmd n s u)"
proof -
  have fd: "nat f < MAX_FILES" if "f < int MAX_FILES" for f using that by simp
  show "after (host_inv roots) (handle_write os cmd n s u)"
    using i by (auto simp: handle_write_def Let_def split: prod.splits option.splits intro!: host_inv_use)
  show "after (host_inv roots) (handle_read os cmd n s u)"
    using i by (auto simp: handle_read_def Let_def split: prod.splits option.splits intro!: host_inv_use)
  show "after (host_inv roots) (handle_lseek os cmd n s u)"
    using i by (auto simp: handle_lseek_def Let_def split: prod.splits option.splits intro!: host_inv_use)
  show "after (host_inv roots) (handle_close os cmd n s u)"
    using i host_inv_close [OF i, of "nat (sint (fld cmd 12))", unfolded forget_def]
    by (auto simp: handle_close_def Let_def split: prod.splits)
qed

lemma dir_handlers_keep:
  assumes i: "host_inv roots s"
  shows "after (host_inv roots) (handle_dclose cmd n s u)"
    "after (host_inv roots) (handle_dread cmd n s u)"
    "after (host_inv roots) (handle_ioctl cmd n s u)"
    "after (host_inv roots) (handle_devctl os cmd n s u)"
    "after (host_inv roots) (handle_hello s u)"
proof -
  show "after (host_inv roots) (handle_hello s u)"
    using i by (simp add: handle_hello_def split: prod.splits)
  show "after (host_inv roots) (handle_dclose cmd n s u)"
    using i by (auto simp: handle_dclose_def Let_def split: prod.splits elim: snd_eqD intro: dir_close_keeps)
  show "after (host_inv roots) (handle_dread cmd n s u)"
  proof -
    let ?d = "open_dirs s ! nat (sint (fld cmd 12))"
    have "dir_ok (?d\<lparr>d_pos := d_pos ?d + 1\<rparr>)"
      if "d_pos ?d < d_count ?d" "sint (fld cmd 12) < int MAX_FILES"
    proof -
      have "?d \<in> set (open_dirs s)" using i that(2) by (intro nth_mem) (simp add: host_inv_def)
      then have "dir_ok ?d" using i by (auto simp: host_inv_def list_all_iff)
      then show ?thesis using that(1) by (simp add: dir_ok_def)
    qed
    then show ?thesis
      using i by (auto simp: handle_dread_def Let_def split: prod.splits intro!: host_inv_dir)
  qed
  show "after (host_inv roots) (handle_ioctl cmd n s u)"
    using i by (auto simp: handle_ioctl_def Let_def split: prod.splits intro!: skip_data_after)
  have "host_inv roots (snd (get_drive_info os d s))" for d
    using i by (auto simp: get_drive_info_def intro: host_inv_log)
  then have "after (host_inv roots) (skip_data cmd s u (\<lambda>u.
        let (res, pl, s) =
              (if fld cmd 12 = 0x02425818
               then (case get_drive_info os (fld cmd 16) s of
                       (None, s) \<Rightarrow> (-1, None, s)
                     | (Some info, s) \<Rightarrow> (0, Some (P_info info), s))
               else (-1, None, s));
            (ret, u) = respond_data CMD_DEVCTL res pl u
        in Some (ret, s, u)))"
    using i by (intro skip_data_after) (auto simp: Let_def split: prod.splits option.splits elim: snd_eqD)
  then show "after (host_inv roots) (handle_devctl os cmd n s u)"
    using i by (simp add: handle_devctl_def)
qed

lemma do_hostfs_keeps: "host_inv roots s \<Longrightarrow> after (host_inv roots) (do_hostfs os cmd n s u)"
  unfolding do_hostfs_def Let_def
  by (simp add: path_handlers_keep handle_chstat_keeps handle_rename_keeps table_handlers_keep dir_handlers_keep)

section \<open>Connections keep the invariant\<close>

lemma do_bulk_keeps:
  "host_inv roots s \<Longrightarrow> do_bulk os cmd s u = Some (s', u') \<Longrightarrow> host_inv roots s'"
  by (auto simp: do_bulk_def split: prod.splits if_splits option.splits intro!: host_inv_use)

lemma host_packet_keeps:
  assumes i: "host_inv roots s" and p: "host_packet os s u = Some (b, s', u')"
  shows "host_inv roots s'"
proof -
  have h: "host_inv roots y" if "do_hostfs os d n s v = Some (r, y, w)" for d n v r y w
    using do_hostfs_keeps [OF i, of os d n v] that by simp
  show ?thesis
    using p i do_bulk_keeps [OF i]
    by (auto simp: host_packet_def Let_def split: prod.splits if_splits option.splits
        intro: h host_inv_log)
qed

lemma host_loop_keeps:
  "host_inv roots s \<Longrightarrow> host_loop oss s u = Some (b, s', u') \<Longrightarrow> host_inv roots s'"
  by (induction oss s u rule: host_loop.induct)
    (auto split: option.splits prod.splits bool.splits dest: host_packet_keeps)

lemma close_one_keeps:
  assumes "host_inv roots s" "i < MAX_FILES"
  shows "host_inv roots (close_one s i)"
  using assms host_inv_close [OF assms] by (simp add: close_one_def forget_def Let_def)

lemma close_all:
  assumes "host_inv roots s" "set is \<subseteq> {..<MAX_FILES}"
  shows "host_inv roots (foldl close_one s is)
    \<and> (\<forall>i. f_opened (open_files (foldl close_one s is) ! i) \<longrightarrow> f_opened (open_files s ! i) \<and> i \<notin> set is)"
  using assms
proof (induction "is" arbitrary: s)
  case (Cons i "is")
  have n: "i < length (open_files s)" using Cons.prems by (simp add: host_inv_def)
  have "f_opened (open_files (close_one s i) ! j) \<longrightarrow> f_opened (open_files s ! j) \<and> j \<noteq> i" for j
    using n by (cases "j = i") (auto simp: close_one_def Let_def)
  then show ?case
    using Cons.IH [of "close_one s i"] close_one_keeps [of roots s i] Cons.prems by auto
qed simp

text \<open>Between connections: the invariant, no file beyond the standard streams held, no directory open.\<close>

definition host_idle :: "string list \<Rightarrow> hostfs \<Rightarrow> bool" where
  "host_idle roots s \<longleftrightarrow>
     map rootdir (drives s) = roots \<and> length roots = MAX_HOSTDRIVES
     \<and> (\<exists>L. held (calls s) = Some L \<and> L \<subseteq> {..<3}) \<and> \<not> list_ex d_opened (open_dirs s)
     \<and> (roots_ok roots \<longrightarrow> list_all (call_under roots) (calls s))"

lemma init_hostfs_inv:
  assumes "host_idle roots s"
  shows "host_inv roots (init_hostfs s)"
proof -
  obtain L where L: "held (calls s) = Some L" "L \<subseteq> {..<3}" using assms by (auto simp: host_idle_def)
  have "table_ok L (replicate MAX_FILES closed_file)"
    using L(2) by (auto simp: table_ok_def closed_file_def)
  then have "fds_ok (init_hostfs s)" using L(1) by (auto simp: fds_ok_def init_hostfs_def)
  then show ?thesis using assms by (simp add: host_inv_def host_idle_def init_hostfs_def comp_def list_all_iff)
qed

lemma close_hostfs_idle:
  assumes "host_inv roots s"
  shows "host_idle roots (close_hostfs s)"
proof -
  obtain s' where s': "s' = foldl close_one s [3..<MAX_FILES]" by blast
  have "set [3..<MAX_FILES] \<subseteq> {..<MAX_FILES}" unfolding set_upt by auto
  from close_all [OF assms this]
  have c: "host_inv roots s'" "\<forall>i. f_opened (open_files s' ! i) \<longrightarrow> i \<notin> {3..<MAX_FILES}"
    unfolding s' set_upt by blast+
  then have "fds_ok s'" by (simp add: host_inv_def)
  then obtain L where L: "held (calls s') = Some L" "table_ok L (open_files s')" by (rule fds_okE)
  have "L \<subseteq> {..<3}"
  proof
    fix x assume x: "x \<in> L"
    show "x \<in> {..<3}"
    proof (rule ccontr)
      assume "x \<notin> {..<3}"
      then have "3 \<le> x" by simp
      moreover from this have "x < MAX_FILES" "f_opened (open_files s' ! x)"
        using L(2) x unfolding table_ok_def by blast+
      ultimately show False using c(2) by simp
    qed
  qed
  moreover have "close_hostfs s = s'\<lparr>open_dirs := map (\<lambda>d. if d_opened d then closed_dir else d) (open_dirs s')\<rparr>"
    by (simp only: close_hostfs_def Let_def s')
  moreover have "\<not> list_ex d_opened (map (\<lambda>d. if d_opened d then closed_dir else d) ds)" for ds
    by (induction ds) (simp_all add: closed_dir_def)
  ultimately show ?thesis using c(1) L(1) by (simp add: host_idle_def host_inv_def)
qed

lemma host_connection_keeps:
  assumes "host_idle roots s" "host_connection oss s u = Some (b, s', u')"
  shows "if b then host_inv roots s' else host_idle roots s'"
proof -
  have i: "host_inv roots (init_hostfs s)" using assms(1) by (rule init_hostfs_inv)
  show ?thesis
    using assms(2) host_loop_keeps [OF i] close_hostfs_idle i
    by (auto simp: host_connection_def Let_def split: prod.splits if_splits option.splits bool.splits)
qed

lemma start_hostfs_keeps:
  "host_idle roots s \<Longrightarrow> start_hostfs cs s = Some (b, s') \<Longrightarrow>
   (if b then host_inv roots s' else host_idle roots s')"
  by (induction cs s rule: start_hostfs.induct)
    (auto split: option.splits prod.splits bool.splits dest: host_connection_keeps)

text \<open>The server as the program starts it: eight drives, nothing open, no call made.\<close>

definition host_start :: "string list \<Rightarrow> hostfs" where
  "host_start roots = \<lparr>open_files = replicate MAX_FILES closed_file, open_dirs = replicate MAX_DIRS closed_dir,
     bulkfd = -1, drives = map (\<lambda>r. \<lparr>rootdir = r, currdir = []\<rparr>) roots, calls = []\<rparr>"

lemma host_start_idle: "length roots = MAX_HOSTDRIVES \<Longrightarrow> host_idle roots (host_start roots)"
  by (simp add: host_idle_def host_start_def comp_def list_ex_iff closed_dir_def)

section \<open>A session for the witnesses\<close>

text \<open>A device opens a file by a path with dots for writing and writes three bytes in two calls.\<close>

definition sample_os :: host_os where
  "sample_os = \<lparr>os_flags = \<lparr>g_nocase = False, g_msslash = True\<rparr>, os_ls = (\<lambda>_. None),
     os_stat = (\<lambda>_. Inl 2), os_open = (\<lambda>_ _ _. Inr 5), os_close = (\<lambda>_. None),
     os_write = [Wrote 1, Write_intr, Wrote 2], os_read = [], os_lseek = (\<lambda>_ _ _. 0),
     os_scandir = (\<lambda>_. Inl 2), os_errno = 0, os_malloc = True,
     os_unlink = (\<lambda>_. None), os_rmdir = (\<lambda>_. None), os_mkdir = (\<lambda>_ _. None), os_rename = (\<lambda>_ _. None),
     os_chmod = (\<lambda>_ _. None), os_utime = (\<lambda>_ _ _. 0), os_mktime = (\<lambda>_. None),
     os_localtime = (\<lambda>_. \<lparr>tm_year = 0, tm_mon = 0, tm_mday = 0, tm_hour = 0, tm_min = 0, tm_sec = 0\<rparr>),
     os_statvfs = (\<lambda>_. None), os_sockets = (\<lambda>_. -1), os_stack = []\<rparr>"


definition bytes_of :: "string \<Rightarrow> u8 list" where
  "bytes_of s = map (\<lambda>c. of_nat (ccode c)) s"

definition sample_link :: usb where
  "sample_link = \<lparr>reads = [Bulk_data (host_cmd [HOSTFS_MAGIC, CMD_OPEN, 9, 0x202, 0x1FF, 0]),
      Bulk_data (bytes_of ''../a/../x''),
      Bulk_data (host_cmd [HOSTFS_MAGIC, CMD_WRITE, 3, 5]), Bulk_data (bytes_of ''abc'')], wres = [], outs = []\<rparr>"

lemma sample_path:
  "make_path (\<lambda>_. None) \<lparr>g_nocase = False, g_msslash = True\<rparr>
     (replicate 8 \<lparr>rootdir = ''/srv'', currdir = ''/''\<rparr>) 0 ''../a/../x'' False = Some ''/srv/x''"
  by (simp add: make_path_def MAX_HOSTDRIVES_def PATH_MAX_def Let_def gen_path_def unslash_def) code_simp

lemma length_bytes_of [simp]: "length (bytes_of s) = length s"
  by (simp add: bytes_of_def)

lemma sample_strings: "c_string (bytes_of ''../a/../x'') = ''../a/../x''"
  by code_simp

lemma sample_write: "fixed_write (os_write sample_os) (bytes_of ''abc'') 0 = Some (3, bytes_of ''abc'')"
  by code_simp

lemma sample_os_simps:
  "os_flags sample_os = \<lparr>g_nocase = False, g_msslash = True\<rparr>" "os_ls sample_os = (\<lambda>_. None)"
  "os_open sample_os f m k = Inr 5" "is_dir sample_os f = False" "os_stack sample_os = []"
  by (simp_all add: sample_os_def is_dir_def)

lemma sample_open:
  "host_path sample_os s 0 ''../a/../x'' False = Some ''/srv/x'' \<Longrightarrow>
   open_file sample_os 0 ''../a/../x'' 0x202 0x1FF s =
     (5, s\<lparr>calls := calls s @ [Call_stat ''/srv/x'', Call_open ''/srv/x'' [O_WRONLY, O_CREAT] 0x1B6 (Inr 5)],
           open_files := (open_files s)[5 := \<lparr>f_opened = True, f_mode = 0x202, f_name = Some ''/srv/x''\<rparr>]\<rparr>)"
  by (simp add: open_file_def open_mode_def sample_os_simps log_def)

lemmas sample_simps = host_connection_def host_packet_def do_hostfs_def handle_open_def handle_write_def
   path_request_def bulk_read_def bulk_write_def init_hostfs_def host_start_def
   host_path_def sample_os_simps sample_link_def fld_cmd sample_path sample_strings sample_write sample_open
   respond_def log_def

lemma sample_session:
  "\<exists>s. start_hostfs [(replicate 2 sample_os, sample_link)] (host_start (replicate 8 ''/srv'')) = Some (True, s)
     \<and> calls s = [Call_stat ''/srv/x'', Call_open ''/srv/x'' [O_WRONLY, O_CREAT] 0x1B6 (Inr 5),
                  Call_write 5 (bytes_of ''abc'')]"
  by (simp add: numeral_2_eq_2) (simp add: sample_simps Let_def)

section \<open>Properties of the file server\<close>

text \<open>The directories opened to match names without case, for drives with these roots and any current directories.\<close>

lemma path_opens_under:
  assumes "map rootdir ds = roots" "length roots = MAX_HOSTDRIVES" "roots_ok roots"
  shows "list_all (path_under roots) (path_opens ls fl ds drive path dir)"
  unfolding list_all_iff
proof
  fix p assume "p \<in> set (path_opens ls fl ds drive path dir)"
  from path_opens_root [OF this] obtain rel where d: "unat drive < MAX_HOSTDRIVES"
    and c: "components p = components (rootdir (ds ! unat drive)) @ rel" "list_all plain_name rel" by blast
  have r: "rootdir (ds ! unat drive) \<in> set roots"
    using assms(1,2) d by (metis length_map nth_map nth_mem)
  then have "foldl path_step [] (components (rootdir (ds ! unat drive))) = components (rootdir (ds ! unat drive))"
    using assms(3) by (auto simp: roots_ok_def list_all_iff)
  then show "path_under roots p" unfolding path_under_def using r c by metis
qed

text \<open>
  C16: whatever devices connect and whatever packets they send, the file-system calls of the server stay below
  the root directories of the drives. Every call it makes in any history names a path whose components are
  those of a root directory followed by plain names: opening, removing, renaming, creating, listing, reading
  and changing the data of files. So does every directory it opens to match names without case, whatever the
  current directories of the drives. The one exception is made by listing a directory, which also reads the data of the
  entries \<open>.\<close> and \<open>..\<close> (\<open>entry_under\<close>). The drives' root directories stay what they were. They are in normal
  form and have at most 255 components.
\<close>

theorem host_confined:
  assumes "length roots = MAX_HOSTDRIVES" "roots_ok roots"
    and "start_hostfs cs (host_start roots) = Some (b, s)"
  shows "list_all (call_under roots) (calls s) \<and> map rootdir (drives s) = roots \<and>
    (\<forall>os ds drive path dir. map rootdir ds = roots \<longrightarrow>
       list_all (path_under roots) (path_opens (os_ls os) (os_flags os) ds drive path dir))"
  using start_hostfs_keeps [OF host_start_idle [OF assms(1)] assms(3)] assms(1,2) path_opens_under
  by (cases b) (simp_all add: host_inv_def host_idle_def)

theorem host_confined_witness:
  "list_all (call_under (replicate 8 ''/srv''))
     [Call_stat ''/srv/x'', Call_open ''/srv/x'' [O_WRONLY, O_CREAT] 0x1B6 (Inr 5), Call_write 5 (bytes_of ''abc'')]"
proof -
  obtain s where s: "start_hostfs [(replicate 2 sample_os, sample_link)] (host_start (replicate 8 ''/srv'')) = Some (True, s)"
    and c: "calls s = [Call_stat ''/srv/x'', Call_open ''/srv/x'' [O_WRONLY, O_CREAT] 0x1B6 (Inr 5),
                  Call_write 5 (bytes_of ''abc'')]" using sample_session by blast
  have "roots_ok (replicate 8 ''/srv'')" by code_simp
  moreover have "length (replicate 8 ''/srv'') = MAX_HOSTDRIVES" by (simp add: MAX_HOSTDRIVES_def)
  ultimately have "list_all (call_under (replicate 8 ''/srv'')) (calls s)" using host_confined [OF _ _ s] by blast
  then show ?thesis by (simp only: c)
qed

text \<open>
  C17: the descriptor discipline of the server. In any history of connections, each file descriptor
  that is written, read, moved or closed was given by an earlier \<open>open\<close> and not closed since
  (\<open>held\<close> of the calls is defined). When no connection is going on, all of them are closed again
  but the standard streams, should \<open>open\<close> have returned one, and no directory is open.
\<close>

theorem host_descriptors:
  assumes "length roots = MAX_HOSTDRIVES"
    and "start_hostfs cs (host_start roots) = Some (b, s)"
  shows "\<exists>L. held (calls s) = Some L
             \<and> (if b then table_ok L (open_files s)
                else L \<subseteq> {..<3} \<and> \<not> list_ex d_opened (open_dirs s))"
  using start_hostfs_keeps [OF host_start_idle [OF assms(1)] assms(2)]
  by (cases b) (auto simp: host_inv_def host_idle_def fds_ok_def)

theorem host_descriptors_witness:
  "\<exists>s :: hostfs. calls s = [Call_stat ''/srv/x'', Call_open ''/srv/x'' [O_WRONLY, O_CREAT] 0x1B6 (Inr 5),
                 Call_write 5 (bytes_of ''abc'')] \<and> table_ok {5} (open_files s)"
proof -
  obtain s where s: "start_hostfs [(replicate 2 sample_os, sample_link)] (host_start (replicate 8 ''/srv'')) = Some (True, s)"
    and c: "calls s = [Call_stat ''/srv/x'', Call_open ''/srv/x'' [O_WRONLY, O_CREAT] 0x1B6 (Inr 5),
                  Call_write 5 (bytes_of ''abc'')]" using sample_session by blast
  have "length (replicate 8 ''/srv'') = MAX_HOSTDRIVES" by (simp add: MAX_HOSTDRIVES_def)
  from host_descriptors [OF this s] obtain L where "held (calls s) = Some L" "table_ok L (open_files s)"
    by auto
  moreover have "held (calls s) = Some {5}" unfolding c by (simp add: held_def)
  ultimately have "table_ok {5} (open_files s)" by simp
  then show ?thesis using c by blast
qed

end
