(* ===== verification/HostReply.thy ===== *)
theory HostReply
  imports HostFs
begin

text \<open>
  The protocol of the file server of \<open>HostFs\<close> towards the device: which requests are answered, the
  form of the answers, directory listings, the repeated \<open>write\<close> of one block and the bulk transfer.
\<close>

section \<open>Writing a block\<close>

text \<open>How many bytes a list of answers takes; answers that neither fail nor end.\<close>

fun taken :: "write_answer list \<Rightarrow> nat" where
  "taken [] = 0"
| "taken (Wrote k # as) = k + taken as"
| "taken (_ # as) = taken as"

fun plain_write :: "write_answer \<Rightarrow> bool" where
  "plain_write (Wrote k) = (0 < k)"
| "plain_write Write_intr = True"
| "plain_write _ = False"

lemma fixed_write_all_gen:
  "list_all plain_write as \<Longrightarrow> taken as = length data \<Longrightarrow> fixed_write as data n = Some (of_nat (n + length data), data)"
proof (induction as data n rule: fixed_write.induct)
  case (6 k as b bs n)
  let ?d = "b # bs"
  have k: "taken as = length (drop k ?d)" "k \<le> length ?d" "k \<noteq> 0" using "6.prems" by auto
  then have "fixed_write as (drop k ?d) (n + min k (length ?d)) = Some (of_nat (n + k + length (drop k ?d)), drop k ?d)"
    using "6.IH" "6.prems"(1) by simp
  moreover have "n + k + length (drop k ?d) = n + length ?d" using k(2) by simp
  ultimately show ?case using k(3) by (simp del: drop.simps length_Cons add: append_take_drop_id)
qed auto

text \<open>
  C35: \<open>fixed_write\<close> writes the whole block. However the system splits it over calls of \<open>write\<close>, and
  however often a call is interrupted, when the calls take the block between them the loop ends,
  the bytes taken are the block in order, and the result is its length.
\<close>

theorem fixed_write_all:
  assumes "list_all plain_write as" "taken as = length data"
  shows "fixed_write as data 0 = Some (of_nat (length data), data)"
  using fixed_write_all_gen [OF assms, of 0] by simp

theorem fixed_write_all_witness:
  "fixed_write [Write_intr, Wrote 2, Write_intr, Write_intr, Wrote 1] [7, 8, 9] 0 = Some (3, [7, 8, 9])"
  using fixed_write_all [of "[Write_intr, Wrote 2, Write_intr, Write_intr, Wrote 1]" "[7, 8, 9]"] by simp

text \<open>After an error the result is the error, and a prefix of the block was taken.\<close>

lemma fixed_write_prefix: "fixed_write as data n = Some (res, w) \<Longrightarrow> \<exists>rest. data = w @ rest"
proof (induction as data n arbitrary: res w rule: fixed_write.induct)
  case (6 k as b bs n)
  show ?case
  proof (cases "k = 0")
    case False
    obtain w' where f: "fixed_write as (drop k (b # bs)) (n + min k (length (b # bs))) = Some (res, w')"
      and w: "w = take k (b # bs) @ w'"
      using "6.prems" False by (auto simp del: length_Cons split: option.splits)
    obtain rest where "drop k (b # bs) = w' @ rest" using "6.IH" [OF False f] by blast
    then have "b # bs = take k (b # bs) @ w' @ rest" by (metis append_take_drop_id)
    then show ?thesis unfolding w by (metis append_assoc)
  qed (use "6.prems" in auto)
qed auto

section \<open>Answers\<close>

text \<open>The size of each command the server knows.\<close>

definition cmd_sizes :: "(u32 \<times> nat) list" where
  "cmd_sizes = [(CMD_HELLO, 12), (CMD_OPEN, 24), (CMD_CLOSE, 16), (CMD_READ, 20), (CMD_WRITE, 16),
     (CMD_LSEEK, 28), (CMD_REMOVE, 16), (CMD_MKDIR, 20), (CMD_RMDIR, 16), (CMD_DOPEN, 16),
     (CMD_DREAD, 16), (CMD_DCLOSE, 16), (CMD_GETSTAT, 16), (CMD_CHSTAT, 56), (CMD_RENAME, 16),
     (CMD_CHDIR, 16), (CMD_IOCTL, 24), (CMD_DEVCTL, 24)]"

text \<open>
  What must come with a command: the data of the announced length (a path or a block must not be
  empty), a positive length for a read.
\<close>

definition data_there :: "u8 list \<Rightarrow> usb \<Rightarrow> bool" where
  "data_there cmd u \<longleftrightarrow> (case reads u of
     Bulk_data d # rs \<Rightarrow> extralen cmd = of_nat (length d) \<and> int (length d) < 2 ^ 31 | _ \<Rightarrow> False)"

definition complete :: "u8 list \<Rightarrow> usb \<Rightarrow> bool" where
  "complete cmd u \<longleftrightarrow>
     (let c = fld cmd 4
      in if c = CMD_READ then 0 < sint (fld cmd 16)
         else if c = CMD_IOCTL \<or> c = CMD_DEVCTL then sint (extralen cmd) \<le> 0 \<or> data_there cmd u
         else if c = CMD_HELLO \<or> c = CMD_CLOSE \<or> c = CMD_LSEEK \<or> c = CMD_DREAD \<or> c = CMD_DCLOSE then True
         else extralen cmd \<noteq> 0 \<and> data_there cmd u)"

text \<open>Blocks that are one answer with the command's number, and the data it announces.\<close>

definition answers :: "u32 \<Rightarrow> usb_block list \<Rightarrow> bool" where
  "answers c bs \<longleftrightarrow> (\<exists>res ofs pl. bs = Resp HOSTFS_MAGIC c (of_nat (sum_list (map payload_size pl))) res ofs
                                      # map Payload pl \<and> length pl \<le> 1)"

text \<open>A handler's end, on a link whose writes succeed: what was written answers \<open>c\<close>.\<close>

definition answered :: "u32 \<Rightarrow> usb_block list \<Rightarrow> handled \<Rightarrow> bool" where
  "answered c bs r = (case r of None \<Rightarrow> True
     | Some (ret, s, u) \<Rightarrow> wres u = [] \<and> (\<exists>bs'. outs u = bs @ bs' \<and> answers c bs'))"

lemma answered_simps [simp]:
  "answered c bs None"
  "answered c bs (Some (ret, s, u)) \<longleftrightarrow> wres u = [] \<and> (\<exists>bs'. outs u = bs @ bs' \<and> answers c bs')"
  by (simp_all add: answered_def)

lemma answers_resp [simp]: "answers c [Resp HOSTFS_MAGIC c 0 res ofs]"
  unfolding answers_def by (intro exI [of _ res] exI [of _ ofs] exI [of _ "[]"]) simp

lemma bulk_write_ok [simp]:
  "wres u = [] \<Longrightarrow> bulk_write b u = (int (block_size b), u\<lparr>outs := outs u @ [b]\<rparr>)"
  by (simp add: bulk_write_def)

lemma respond_ok [simp]:
  "wres u = [] \<Longrightarrow> respond c res u = (16, u\<lparr>outs := outs u @ [Resp HOSTFS_MAGIC c 0 (Some res) None]\<rparr>)"
  by (simp add: respond_def)

lemma respond_data_ok:
  assumes "wres u = []" "respond_data c res pl u = (ret, u')"
  shows "wres u' = [] \<and> (\<exists>bs. outs u' = outs u @ bs \<and> answers c bs)"
proof (cases pl)
  case None
  then show ?thesis using assms by (auto simp: respond_data_def)
next
  case (Some p)
  let ?e = "of_nat (payload_size p) :: u32"
  show ?thesis
  proof (cases "?e = 0")
    case True
    then show ?thesis using assms Some by (auto simp: respond_data_def)
  next
    case False
    have "answers c [Resp HOSTFS_MAGIC c ?e (Some res) None, Payload p]"
      unfolding answers_def by (intro exI [of _ "Some res"] exI [of _ None] exI [of _ "[p]"]) simp
    then show ?thesis using assms Some False by (auto simp: respond_data_def Let_def)
  qed
qed

lemma path_request_answered:
  assumes "extralen cmd \<noteq> 0" "data_there cmd u" "wres u = []"
    and "\<And>data u'. wres u' = [] \<Longrightarrow> outs u' = outs u \<Longrightarrow> answered c (outs u) (body data u')"
  shows "answered c (outs u) (path_request os n cmd n s u body)"
proof -
  obtain d rs where d: "reads u = Bulk_data d # rs" "extralen cmd = of_nat (length d)" "int (length d) < 2 ^ 31"
    using assms(2) by (auto simp: data_there_def split: list.splits bulk_in.splits)
  then show ?thesis
    using assms(1,3,4) by (auto simp: path_request_def bulk_read_def Let_def sint_of_length)
qed

lemma skip_data_answered:
  assumes "sint (extralen cmd) \<le> 0 \<or> data_there cmd u" "wres u = []"
    and "\<And>u'. wres u' = [] \<Longrightarrow> outs u' = outs u \<Longrightarrow> answered c (outs u) (body u')"
  shows "answered c (outs u) (skip_data cmd s u body)"
proof (cases "sint (extralen cmd) \<le> 0")
  case False
  then obtain d rs where d: "reads u = Bulk_data d # rs" "extralen cmd = of_nat (length d)" "int (length d) < 2 ^ 31"
    using assms(1) by (auto simp: data_there_def split: list.splits bulk_in.splits)
  then show ?thesis
    using False assms(2,3) by (auto simp: skip_data_def bulk_read_def Let_def sint_of_length)
qed (use assms in \<open>simp add: skip_data_def\<close>)

lemma path_handlers_answer:
  assumes "extralen cmd \<noteq> 0" "data_there cmd u" "wres u = []"
  shows "answered CMD_OPEN (outs u) (handle_open os cmd 24 s u)"
    "answered CMD_DOPEN (outs u) (handle_dopen os cmd 16 s u)"
    "answered CMD_REMOVE (outs u) (handle_remove os cmd 16 s u)"
    "answered CMD_RMDIR (outs u) (handle_rmdir os cmd 16 s u)"
    "answered CMD_MKDIR (outs u) (handle_mkdir os cmd 20 s u)"
    "answered CMD_GETSTAT (outs u) (handle_getstat os cmd 16 s u)"
    "answered CMD_CHSTAT (outs u) (handle_chstat os cmd 56 s u)"
    "answered CMD_RENAME (outs u) (handle_rename os cmd 16 s u)"
    "answered CMD_CHDIR (outs u) (handle_chdir os cmd 16 s u)"
proof -
  note p = path_request_answered [OF assms]
  show "answered CMD_OPEN (outs u) (handle_open os cmd 24 s u)"
    unfolding handle_open_def by (rule p) (simp add: Let_def split: prod.splits)
  show "answered CMD_DOPEN (outs u) (handle_dopen os cmd 16 s u)"
    unfolding handle_dopen_def by (rule p) (simp add: Let_def split: prod.splits)
  show "answered CMD_REMOVE (outs u) (handle_remove os cmd 16 s u)"
    unfolding handle_remove_def by (rule p) (simp add: Let_def split: prod.splits)
  show "answered CMD_RMDIR (outs u) (handle_rmdir os cmd 16 s u)"
    unfolding handle_rmdir_def by (rule p) (simp add: Let_def split: prod.splits)
  show "answered CMD_MKDIR (outs u) (handle_mkdir os cmd 20 s u)"
    unfolding handle_mkdir_def by (rule p) (simp add: Let_def split: prod.splits)
  show "answered CMD_GETSTAT (outs u) (handle_getstat os cmd 16 s u)"
    unfolding handle_getstat_def by (rule p) (auto simp: Let_def split: prod.splits dest!: respond_data_ok [rotated])
  show "answered CMD_CHSTAT (outs u) (handle_chstat os cmd 56 s u)"
    unfolding handle_chstat_def by (rule p) (simp add: Let_def split: prod.splits)
  show "answered CMD_RENAME (outs u) (handle_rename os cmd 16 s u)"
    unfolding handle_rename_def by (rule p) (simp add: Let_def split: prod.splits)
  show "answered CMD_CHDIR (outs u) (handle_chdir os cmd 16 s u)"
    unfolding handle_chdir_def by (rule p) (simp add: Let_def split: prod.splits)
qed

lemma table_handlers_answer:
  assumes "wres u = []"
  shows "extralen cmd \<noteq> 0 \<Longrightarrow> data_there cmd u \<Longrightarrow> answered CMD_WRITE (outs u) (handle_write os cmd 16 s u)"
    "0 < sint (fld cmd 16) \<Longrightarrow> answered CMD_READ (outs u) (handle_read os cmd 20 s u)"
    "answered CMD_CLOSE (outs u) (handle_close os cmd 16 s u)"
    "answered CMD_DCLOSE (outs u) (handle_dclose cmd 16 s u)"
    "answered CMD_READ (outs u) (handle_dread cmd 16 s u)"
    "answered CMD_LSEEK (outs u) (handle_lseek os cmd 28 s u)"
    "answered CMD_HELLO (outs u) (handle_hello s u)"
proof -
  assume e: "extralen cmd \<noteq> 0" and "data_there cmd u"
  then obtain d rs where d: "reads u = Bulk_data d # rs" "extralen cmd = of_nat (length d)" "int (length d) < 2 ^ 31"
    by (auto simp: data_there_def split: list.splits bulk_in.splits)
  then show "answered CMD_WRITE (outs u) (handle_write os cmd 16 s u)"
    using assms e by (auto simp: handle_write_def bulk_read_def Let_def sint_of_length split: option.splits)
next
  note r = respond_data_ok [OF assms]
  assume "0 < sint (fld cmd 16)"
  then show "answered CMD_READ (outs u) (handle_read os cmd 20 s u)"
    by (auto simp: handle_read_def Let_def split: option.splits prod.splits if_splits dest: r)
next
  note r = respond_data_ok [OF assms]
  show "answered CMD_READ (outs u) (handle_dread cmd 16 s u)"
    by (auto simp: handle_dread_def Let_def split: prod.splits dest: r)
qed (use assms in \<open>auto simp: handle_close_def handle_dclose_def handle_lseek_def handle_hello_def Let_def
       split: prod.splits\<close>)

lemma control_handlers_answer:
  assumes "sint (extralen cmd) \<le> 0 \<or> data_there cmd u" "wres u = []"
  shows "answered CMD_IOCTL (outs u) (handle_ioctl cmd 24 s u)"
    "answered CMD_DEVCTL (outs u) (handle_devctl os cmd 24 s u)"
proof -
  note k = skip_data_answered [OF assms]
  show "answered CMD_IOCTL (outs u) (handle_ioctl cmd 24 s u)"
    unfolding handle_ioctl_def
    by (simp only: simp_thms if_False, rule k) (auto simp: Let_def split: prod.splits dest!: respond_data_ok [rotated])
  show "answered CMD_DEVCTL (outs u) (handle_devctl os cmd 24 s u)"
    unfolding handle_devctl_def
    by (simp only: simp_thms if_False, rule k) (auto simp: Let_def split: prod.splits dest!: respond_data_ok [rotated])
qed

text \<open>
  C18: every well-formed request is answered, once. A request of a known command with the right size
  whose data arrives is answered with one block that carries the protocol's magic number, the number
  of the command and the length of the data that follows, which is written next, and nothing else is
  written; but the answer to a directory read carries the number of the file read, which is not the one the
  protocol asks for (the driver does not notice: with the right magic number it takes any command). The
  handler answers so whatever the system says, unless it overruns a buffer or a system call does not return.
\<close>

theorem host_reply:
  assumes "(fld cmd 4, n) \<in> set cmd_sizes" "complete cmd u" "wres u = []"
    and "do_hostfs os cmd n s u = Some (ret, s', u')"
  shows "\<exists>bs. outs u' = outs u @ bs \<and>
    (if fld cmd 4 = CMD_DREAD then answers CMD_READ bs \<and> \<not> answers CMD_DREAD bs else answers (fld cmd 4) bs)"
proof -
  have "answered (if fld cmd 4 = CMD_DREAD then CMD_READ else fld cmd 4) (outs u) (do_hostfs os cmd n s u)"
    using assms(1,2,3)
    by (auto simp: cmd_sizes_def complete_def do_hostfs_def Let_def
        path_handlers_answer table_handlers_answer control_handlers_answer)
  then obtain bs where "outs u' = outs u @ bs" "answers (if fld cmd 4 = CMD_DREAD then CMD_READ else fld cmd 4) bs"
    using assms(4) by auto
  moreover have "\<not> answers CMD_DREAD bs" if "answers CMD_READ bs" using that by (auto simp: answers_def)
  ultimately show ?thesis by (auto split: if_splits)
qed

theorem host_reply_witness:
  "\<forall>os s. \<exists>bs. outs (snd (bulk_write (Resp HOSTFS_MAGIC CMD_HELLO 0 None None) \<lparr>reads = [], wres = [], outs = []\<rparr>))
      = [] @ bs \<and> answers CMD_HELLO bs"
proof (intro allI)
  fix os :: host_os and s :: hostfs
  let ?cmd = "host_cmd [HOSTFS_MAGIC, CMD_HELLO, 0]" and ?u = "\<lparr>reads = [], wres = [], outs = []\<rparr>"
  have c: "(fld ?cmd 4, 12) \<in> set cmd_sizes" "complete ?cmd ?u"
    by (simp_all add: fld_cmd cmd_sizes_def complete_def)
  have d: "do_hostfs os ?cmd 12 s ?u
      = Some (12, s, snd (bulk_write (Resp HOSTFS_MAGIC CMD_HELLO 0 None None) ?u))"
    by (simp add: do_hostfs_def fld_cmd handle_hello_def)
  show "\<exists>bs. outs (snd (bulk_write (Resp HOSTFS_MAGIC CMD_HELLO 0 None None) ?u)) = [] @ bs
      \<and> answers CMD_HELLO bs"
    using host_reply [OF c _ d] by (simp add: fld_cmd)
qed

section \<open>Reading a directory\<close>

text \<open>So many reads of one directory, on a link whose writes succeed.\<close>

fun dread_times :: "nat \<Rightarrow> u8 list \<Rightarrow> hostfs \<Rightarrow> usb \<Rightarrow> handled" where
  "dread_times 0 cmd s u = Some (0, s, u)"
| "dread_times (Suc k) cmd s u =
     (case handle_dread cmd 16 s u of
        None \<Rightarrow> None
      | Some (ret, s, u) \<Rightarrow> dread_times k cmd s u)"

text \<open>The answers for the entries of a directory: how many are left, this one included, and the entry.\<close>

fun entry_answers :: "io_dirent list \<Rightarrow> usb_block list" where
  "entry_answers [] = []"
| "entry_answers (e # es) = Resp HOSTFS_MAGIC CMD_READ 352 (Some (of_nat (Suc (length es)))) None
                              # Payload (P_dirent e) # entry_answers es"

lemma dread_entries:
  assumes "0 \<le> did" "did < int MAX_FILES" "sint (fld cmd 12) = did" "wres u = []"
    and "length (open_dirs s) = MAX_DIRS" "open_dirs s ! nat did = d" "d_opened d"
    and "d_pos d + length es = d_count d" "es = drop (d_pos d) (d_entries d)"
  shows "\<exists>ret s' u'. dread_times (Suc (length es)) cmd s u = Some (ret, s', u')
           \<and> outs u' = outs u @ entry_answers es @ [Resp HOSTFS_MAGIC CMD_READ 0 (Some 0) None]"
  using assms(4-)
proof (induction es arbitrary: s u d)
  case Nil
  then show ?case using assms(1-3) by (simp add: handle_dread_def Let_def respond_data_def)
next
  case (Cons e es)
  let ?d = "d\<lparr>d_pos := d_pos d + 1\<rparr>"
  let ?s = "s\<lparr>open_dirs := (open_dirs s)[nat did := ?d]\<rparr>"
  let ?u = "u\<lparr>outs := outs u @ [Resp HOSTFS_MAGIC CMD_READ 352 (Some (of_nat (Suc (length es)))) None,
              Payload (P_dirent e)]\<rparr>"
  have n: "nat did < length (open_dirs s)" using assms(1,2) Cons.prems(2) by simp
  have p: "d_pos d < d_count d" "d_count d - d_pos d = Suc (length es)" using Cons.prems(5) by auto
  have l: "d_pos d < length (d_entries d)"
    using Cons.prems(6) by (metis drop_all leI list.distinct(1))
  have e: "d_entries d ! d_pos d = e" "es = drop (Suc (d_pos d)) (d_entries d)"
    using Cons.prems(6) Cons_nth_drop_Suc [OF l] by (metis list.inject)+
  obtain ret where h: "handle_dread cmd 16 s u = Some (ret, ?s, ?u)"
    using assms(1-3) Cons.prems(1,3,4) p e(1) by (simp add: handle_dread_def Let_def respond_data_def)
  have "\<exists>ret s' u'. dread_times (Suc (length es)) cmd ?s ?u = Some (ret, s', u')
           \<and> outs u' = outs ?u @ entry_answers es @ [Resp HOSTFS_MAGIC CMD_READ 0 (Some 0) None]"
    using n Cons.prems e(2) by (intro Cons.IH [of ?u ?s ?d]) simp_all
  then show ?case using h by (simp del: dread_times.simps(2) add: dread_times.simps(2) [of "Suc (length es)"])
qed

text \<open>
  C34: reading a directory to its end. After \<open>dir_open\<close> a handle holds the entries found. Reading it once
  more often than there are entries sends every entry exactly once, in order, each after an answer
  with the number of entries left, and then the answer zero that ends the listing.
\<close>

theorem dread_listing:
  assumes "unat fid < MAX_DIRS" "length (open_dirs s) = MAX_DIRS" "wres u = []"
    and "open_dirs s ! unat fid = \<lparr>d_opened = True, d_count = length es, d_pos = 0, d_entries = es\<rparr>"
  shows "\<exists>ret s' u'. dread_times (Suc (length es)) (host_cmd [HOSTFS_MAGIC, CMD_DREAD, 0, fid]) s u = Some (ret, s', u')
           \<and> outs u' = outs u @ entry_answers es @ [Resp HOSTFS_MAGIC CMD_READ 0 (Some 0) None]"
proof -
  have "sint fid = int (unat fid)"
  proof -
    have "int (unat fid) < 256" using assms(1) by linarith
    then have "int (unat fid) < 2 ^ 31" by simp
    from sint_of_length [OF this] show ?thesis by simp
  qed
  then have f: "sint (fld (host_cmd [HOSTFS_MAGIC, CMD_DREAD, 0, fid]) 12) = int (unat fid)"
    by (simp add: fld_cmd)
  have m: "int (unat fid) < int MAX_FILES" using assms(1) by linarith
  show ?thesis
    by (rule dread_entries [OF _ m f assms(3,2), where d = "open_dirs s ! unat fid"]) (simp_all add: assms(4))
qed

theorem dread_listing_witness:
  "\<forall>st. \<exists>ret s' u'. dread_times 3 (host_cmd [HOSTFS_MAGIC, CMD_DREAD, 0, 1])
      \<lparr>open_files = [], open_dirs = closed_dir # \<lparr>d_opened = True, d_count = 2, d_pos = 0,
         d_entries = [\<lparr>d_stat = st, d_name = ''a''\<rparr>, \<lparr>d_stat = st, d_name = ''b''\<rparr>]\<rparr> # replicate 254 closed_dir,
        bulkfd = -1, drives = [], calls = []\<rparr>
      \<lparr>reads = [], wres = [], outs = []\<rparr> = Some (ret, s', u')
    \<and> outs u' = [Resp HOSTFS_MAGIC CMD_READ 352 (Some 2) None, Payload (P_dirent \<lparr>d_stat = st, d_name = ''a''\<rparr>),
        Resp HOSTFS_MAGIC CMD_READ 352 (Some 1) None, Payload (P_dirent \<lparr>d_stat = st, d_name = ''b''\<rparr>),
        Resp HOSTFS_MAGIC CMD_READ 0 (Some 0) None]"
proof
  fix st :: io_stat
  let ?es = "[\<lparr>d_stat = st, d_name = ''a''\<rparr>, \<lparr>d_stat = st, d_name = ''b''\<rparr>]"
  let ?s = "\<lparr>open_files = [], open_dirs = closed_dir # \<lparr>d_opened = True, d_count = 2, d_pos = 0,
         d_entries = ?es\<rparr> # replicate 254 closed_dir, bulkfd = -1, drives = [], calls = []\<rparr>"
  show "\<exists>ret s' u'. dread_times 3 (host_cmd [HOSTFS_MAGIC, CMD_DREAD, 0, 1]) ?s
      \<lparr>reads = [], wres = [], outs = []\<rparr> = Some (ret, s', u')
    \<and> outs u' = [Resp HOSTFS_MAGIC CMD_READ 352 (Some 2) None, Payload (P_dirent \<lparr>d_stat = st, d_name = ''a''\<rparr>),
        Resp HOSTFS_MAGIC CMD_READ 352 (Some 1) None, Payload (P_dirent \<lparr>d_stat = st, d_name = ''b''\<rparr>),
        Resp HOSTFS_MAGIC CMD_READ 0 (Some 0) None]"
    using dread_listing [of 1 ?s "\<lparr>reads = [], wres = [], outs = []\<rparr>" ?es] by (simp add: numeral_3_eq_3)
qed

section \<open>Bulk writes\<close>

text \<open>The blocks in which a bulk transfer is read.\<close>

fun bulk_blocks :: "u8 list list \<Rightarrow> bool" where
  "bulk_blocks [] = True"
| "bulk_blocks [b] = (b \<noteq> [] \<and> length b \<le> HOSTFS_MAX_BLOCK)"
| "bulk_blocks (b # bs) = (length b = HOSTFS_MAX_BLOCK \<and> bulk_blocks bs)"

lemma bulk_blocks_nonempty: "bulk_blocks (b # bs) \<Longrightarrow> b \<noteq> [] \<and> length b \<le> HOSTFS_MAX_BLOCK \<and> bulk_blocks bs"
  by (cases bs) auto

lemma bulk_loop_blocks:
  "bulk_blocks bs \<Longrightarrow>
   bulk_loop (length (concat bs)) acc \<lparr>reads = map Bulk_data bs @ rs, wres = ws, outs = os\<rparr>
     = (True, acc @ concat bs, \<lparr>reads = rs, wres = ws, outs = os\<rparr>)"
proof (induction bs arbitrary: acc)
  case Nil
  then show ?case by (simp add: bulk_loop.simps)
next
  case (Cons b bs)
  have b: "b \<noteq> []" "length b \<le> HOSTFS_MAX_BLOCK" "bulk_blocks bs"
    using bulk_blocks_nonempty [OF Cons.prems] by auto
  have r: "(if HOSTFS_MAX_BLOCK < length (concat (b # bs)) then HOSTFS_MAX_BLOCK else length (concat (b # bs)))
      = length b"
    using Cons.prems b bulk_blocks_nonempty by (cases bs) (auto dest: bulk_blocks_nonempty)
  show ?case
    unfolding bulk_loop.simps [of "length (concat (b # bs))"] Let_def r
    using b Cons.IH [OF b(3)] by (simp add: bulk_read_def)
qed

text \<open>
  \<open>close_hostfs\<close> and \<open>init_hostfs\<close> leave \<open>g_bulkfd\<close> as it was: a descriptor of the last connection
  stays the target of bulk writes in the next one.
\<close>

lemma bulkfd_close_one: "bulkfd (foldl close_one s is) = bulkfd s"
  by (induction "is" arbitrary: s) (simp_all add: close_one_def log_def Let_def)

lemma bulkfd_survives: "bulkfd (init_hostfs (close_hostfs s)) = bulkfd s"
  unfolding close_hostfs_def Let_def by (simp add: init_hostfs_def bulkfd_close_one del: upt_rec_numeral)

end
