(* ===== verification/Format.thy ===== *)
theory Format
  imports CLib
begin

text \<open>
  The number formats of \<open>printf\<close> the program prints with (\<open>%d\<close>, \<open>%x\<close>, \<open>%X\<close>, zero and blank padding), and
  what reading a printed number back with \<open>strtoul\<close> gives.
\<close>

section \<open>Digits\<close>

definition digit_lower :: "nat \<Rightarrow> char" where
  "digit_lower d = ''0123456789abcdef'' ! d"

definition digit_upper :: "nat \<Rightarrow> char" where
  "digit_upper d = ''0123456789ABCDEF'' ! d"

fun digits_of :: "nat \<Rightarrow> nat \<Rightarrow> nat list" where
  "digits_of b n = (if b < 2 \<or> n < b then [n] else digits_of b (n div b) @ [n mod b])"

declare digits_of.simps [simp del]

definition dec_nat :: "nat \<Rightarrow> string" where
  "dec_nat n = map digit_lower (digits_of 10 n)"

definition dec_int :: "int \<Rightarrow> string" where
  "dec_int i = (if i < 0 then CHR ''-'' # dec_nat (nat (- i)) else dec_nat (nat i))"

definition hex_lower :: "nat \<Rightarrow> string" where
  "hex_lower n = map digit_lower (digits_of 16 n)"

definition hex_upper :: "nat \<Rightarrow> string" where
  "hex_upper n = map digit_upper (digits_of 16 n)"

definition pad_zero :: "nat \<Rightarrow> string \<Rightarrow> string" where
  "pad_zero w s = replicate (w - length s) CHR ''0'' @ s"

definition pad_right :: "nat \<Rightarrow> string \<Rightarrow> string" where
  "pad_right w s = s @ replicate (w - length s) CHR '' ''"

text \<open>\<open>0x%08X\<close>.\<close>

definition print_word :: "u32 \<Rightarrow> string" where
  "print_word v = ''0x'' @ pad_zero 8 (hex_upper (unat v))"

section \<open>Lengths\<close>

lemma digits_of_not_Nil [simp]: "digits_of b n \<noteq> []"
  by (subst digits_of.simps) simp

lemma length_digits_of: "2 \<le> b \<Longrightarrow> n < b ^ k \<Longrightarrow> 0 < k \<Longrightarrow> length (digits_of b n) \<le> k"
proof (induction b n arbitrary: k rule: digits_of.induct)
  case (1 b n)
  show ?case
  proof (cases "n < b")
    case False
    obtain j where k: "k = Suc j" using "1.prems"(3) gr0_implies_Suc by blast
    have j: "0 < j" using False "1.prems"(2) k by (cases j) auto
    have "n div b < b ^ j" using "1.prems"(1,2) k by (simp add: less_mult_imp_div_less mult.commute)
    from "1.IH" [OF _ "1.prems"(1) this j] show ?thesis
      using False "1.prems"(1) k by (subst digits_of.simps) simp
  qed (use "1.prems" in \<open>subst digits_of.simps, simp\<close>)
qed

lemma digits_of_bound: "2 \<le> b \<Longrightarrow> d \<in> set (digits_of b n) \<Longrightarrow> d < b"
proof (induction b n rule: digits_of.induct)
  case (1 b n)
  show ?case
  proof (cases "n < b")
    case False
    then have "digits_of b n = digits_of b (n div b) @ [n mod b]"
      using "1.prems"(1) by (subst digits_of.simps) simp
    then show ?thesis using "1.IH" False "1.prems" by auto
  qed (use "1.prems" in \<open>simp add: digits_of.simps [of b n]\<close>)
qed

lemma length_hex_upper: "n < 16 ^ k \<Longrightarrow> 0 < k \<Longrightarrow> length (hex_upper n) \<le> k"
  and length_hex_lower: "n < 16 ^ k \<Longrightarrow> 0 < k \<Longrightarrow> length (hex_lower n) \<le> k"
  and length_dec_nat: "n < 10 ^ k \<Longrightarrow> 0 < k \<Longrightarrow> length (dec_nat n) \<le> k"
  using length_digits_of [of 16 n k] length_digits_of [of 10 n k]
  by (auto simp: hex_upper_def hex_lower_def dec_nat_def)

lemma length_dec_int: "\<bar>i\<bar> < 10 ^ k \<Longrightarrow> 0 < k \<Longrightarrow> length (dec_int i) \<le> Suc k"
  using length_dec_nat [of "nat \<bar>i\<bar>" k] by (auto simp: dec_int_def nat_less_iff)

lemma length_pad_zero: "length (pad_zero w s) = max w (length s)"
  and length_pad_right: "length (pad_right w s) = max w (length s)"
  by (auto simp: pad_zero_def pad_right_def)

lemma unat_less_16_8: "unat (v :: u32) < 16 ^ 8"
  using unsigned_less [of v] by simp

lemma length_print_word [simp]: "length (print_word v) = 10"
  using length_hex_upper [OF unat_less_16_8, of v] by (simp add: print_word_def length_pad_zero)

section \<open>Reading back\<close>

lemma hex_digits_table:
  "list_all (\<lambda>d. is_hex (digit_upper d) \<and> hex_to_int (digit_upper d) = d \<and>
     is_hex (digit_lower d) \<and> hex_to_int (digit_lower d) = d) [0..<16]"
  by (simp add: upt_conv_Cons digit_upper_def digit_lower_def is_hex_def hex_to_int_def upcase_def Let_def)

lemma hex_digits:
  assumes "d < 16"
  shows "is_hex (digit_upper d)" "hex_to_int (digit_upper d) = d"
    "is_hex (digit_lower d)" "hex_to_int (digit_lower d) = d"
proof -
  have "d \<in> set [0..<16]" using assms by simp
  with hex_digits_table [unfolded list_all_iff] show "is_hex (digit_upper d)" "hex_to_int (digit_upper d) = d"
    "is_hex (digit_lower d)" "hex_to_int (digit_lower d) = d"
    by blast+
qed

lemma zero_digit: "is_hex CHR ''0''" "hex_to_int CHR ''0'' = 0"
  by code_simp+

lemma digits_value_append: "digits_value b (s @ t) n = digits_value b t (digits_value b s n)"
  by (induction s arbitrary: n) auto

lemma digits_value_zeros: "digits_value b (replicate k CHR ''0'') 0 = 0"
  by (induction k) (auto simp: zero_digit)

lemma digits_value_of:
  assumes "\<And>d. d < b \<Longrightarrow> hex_to_int (f d) = d" "2 \<le> b"
  shows "digits_value (int b) (map f (digits_of b n)) 0 = int n"
proof (induction n rule: less_induct)
  case (less n)
  show ?case
  proof (cases "n < b")
    case True
    then show ?thesis using assms(1) [of n] by (subst digits_of.simps) simp
  next
    case False
    then have "n div b < n" using assms(2) by simp
    from less.IH [OF this] False assms(2) assms(1) [of "n mod b"] show ?thesis
      by (subst digits_of.simps) (simp add: digits_value_append flip: of_nat_mult of_nat_add)
  qed
qed

lemma pad_zero_hex:
  "digits_value 16 (pad_zero w (hex_upper n)) 0 = int n"
  using digits_value_of [of 16 digit_upper n] hex_digits
  by (simp add: pad_zero_def digits_value_append digits_value_zeros hex_upper_def)

lemma pad_zero_hex_chars: "c \<in> set (pad_zero w (hex_upper n)) \<Longrightarrow> digit_in 16 c"
proof -
  assume "c \<in> set (pad_zero w (hex_upper n))"
  then consider "c = CHR ''0''" | d where "d \<in> set (digits_of 16 n)" "c = digit_upper d"
    by (auto simp: pad_zero_def hex_upper_def)
  then show ?thesis
  proof cases
    case 1
    then show ?thesis by (simp add: digit_in_def zero_digit)
  next
    case 2
    with digits_of_bound [of 16 d n] hex_digits [of d] show ?thesis by (simp add: digit_in_def)
  qed
qed

text \<open>A printed address is read back, whatever follows that is no digit.\<close>

lemma strtoul_print_word:
  assumes "rest = [] \<or> \<not> digit_in 16 (hd rest)"
  shows "strtoul (print_word v @ rest) = (v, rest)"
proof -
  let ?ds = "pad_zero 8 (hex_upper (unat v))"
  have h: "\<forall>c \<in> set ?ds. digit_in 16 c" using pad_zero_hex_chars by blast
  have ne: "?ds \<noteq> []" by (simp add: pad_zero_def hex_upper_def)
  then obtain d r where ds: "?ds = d # r" by (cases ?ds) auto
  have hx: "is_hex d" using h ds by (simp add: digit_in_def)
  have "takeWhile (digit_in 16) (?ds @ rest) = ?ds" "dropWhile (digit_in 16) (?ds @ rest) = rest"
    using h assms by (auto simp: takeWhile_append dropWhile_append takeWhile_eq_Nil_iff dropWhile_eq_self_iff
      split: if_splits)
  moreover have "int (unat v) < 4294967296" using unsigned_less [of v] by simp
  ultimately show ?thesis
    using hx ds pad_zero_hex [of 8 "unat v"]
    by (simp add: print_word_def strtoul_def strtoul_by_def number_base_def c_isspace_def Let_def ne)
qed

lemma strtoint_print_word: "strtoint (print_word v) = Some v"
  using strtoul_print_word [of "[]" v] by (simp add: strtoint_def)

end
