(* ===== verification/Symbols.thy ===== *)
theory Symbols
  imports HostFs Format
begin

text \<open>
  \<open>psplink/symbols.c\<close>: symbol files of modules, loaded into a heap of 64 kilobytes, and the lookup of
  symbols by address and by name.

  The doubly linked list of symbol files is a list in its order, each file with the address of its
  node. The bytes of a file are parsed when it is loaded; what follows it in the heap is an argument,
  because neither the number of entries nor the offsets of their names are checked. The kernel's lookup of
  modules is an argument.
\<close>

section \<open>The heap of symbol files\<close>

record sym_entry =
  e_name :: string
  e_addr :: u32
  e_size :: u32

record sym_file =
  sf_at :: u32
  sf_size :: u32
  sf_mod :: string
  sf_entries :: "sym_entry list"

record symbols =
  g_block :: bool
  g_baseaddr :: u32
  g_curraddr :: u32
  g_files :: "sym_file list"

abbreviation HEAP_SIZE :: u32 where "HEAP_SIZE \<equiv> 0x10000"
abbreviation MODNAME_SIZE :: nat where "MODNAME_SIZE \<equiv> 28"
abbreviation node_size :: u32 where "node_size \<equiv> 16"

text \<open>
  \<open>alloc_symbolfile\<close>; \<open>block\<close> is the address of the memory block, should one have to be allocated
  (\<open>None\<close>: the kernel has none). The new node is the last of the list; its contents are read later.
\<close>

definition total_size :: "u32 \<Rightarrow> u32" where
  "total_size n = ((n + 3) AND NOT 3) + node_size"

definition sym_heap :: "u32 option \<Rightarrow> symbols \<Rightarrow> symbols option" where
  "sym_heap block s =
     (if g_block s then Some s
      else case block of
             None \<Rightarrow> None
           | Some b \<Rightarrow> Some (s\<lparr>g_block := True, g_baseaddr := b, g_curraddr := b\<rparr>))"

definition alloc_symbolfile :: "u32 option \<Rightarrow> u32 \<Rightarrow> symbols \<Rightarrow> sym_file option \<times> symbols" where
  "alloc_symbolfile block n s =
     (case sym_heap block s of
        None \<Rightarrow> (None, s)
      | Some s \<Rightarrow>
         if g_curraddr s + n < g_baseaddr s + HEAP_SIZE
         then let f = \<lparr>sf_at = g_curraddr s, sf_size = n, sf_mod = [], sf_entries = []\<rparr>
              in (Some f, s\<lparr>g_files := g_files s @ [f], g_curraddr := g_curraddr s + total_size n\<rparr>)
         else (None, s))"

definition free_symbolfile :: "sym_file \<Rightarrow> symbols \<Rightarrow> symbols" where
  "free_symbolfile f s = s\<lparr>g_files := filter (\<lambda>g. sf_at g \<noteq> sf_at f) (g_files s)\<rparr>"

fun find_file :: "string \<Rightarrow> sym_file list \<Rightarrow> sym_file option" where
  "find_file modname [] = None"
| "find_file modname (f # fs) = (if sf_mod f = modname then Some f else find_file modname fs)"

definition find_symbolfile :: "string \<Rightarrow> symbols \<Rightarrow> sym_file option" where
  "find_symbolfile modname s =
     (if MODNAME_SIZE < length modname then None else find_file modname (g_files s))"

text \<open>\<open>symbolDeleteAll\<close> frees the block and forgets the list.\<close>

definition symbolDeleteAll :: "symbols \<Rightarrow> symbols" where
  "symbolDeleteAll s = s\<lparr>g_block := False, g_files := []\<rparr>"

section \<open>Loading a file\<close>

abbreviation sym_header :: nat where "sym_header \<equiv> 44"
abbreviation sym_entry_size :: nat where "sym_entry_size \<equiv> 12"

definition hdr_symcount :: "u8 list \<Rightarrow> u32" where "hdr_symcount d = fld d 32"
definition hdr_strstart :: "u8 list \<Rightarrow> u32" where "hdr_strstart d = fld d 36"
definition hdr_strsize :: "u8 list \<Rightarrow> u32" where "hdr_strsize d = fld d 40"

text \<open>
  The fix-up of the names and the reading of the entries: \<open>d\<close> is the file and what follows it. Offsets are
  added as 32-bit addresses.
\<close>

definition sym_entry_at :: "u8 list \<Rightarrow> nat \<Rightarrow> sym_entry" where
  "sym_entry_at d i =
     (let o_entry = sym_header + sym_entry_size * i
      in \<lparr>e_name = c_string (drop (unat (hdr_strstart d + fld d o_entry)) d),
          e_addr = fld d (o_entry + 4), e_size = fld d (o_entry + 8)\<rparr>)"

definition sym_entries :: "u8 list \<Rightarrow> sym_entry list" where
  "sym_entries d = map (sym_entry_at d) [0..<unat (hdr_symcount d)]"

definition sym_magic :: "u8 list" where
  "sym_magic = map (\<lambda>c. of_nat (ccode c)) ''SYMS''"

text \<open>
  \<open>symbolLoadSymbols\<close>: \<open>stat\<close> is the size of the file (\<open>None\<close>: it does not exist), \<open>contents\<close> what reading it
  gives (\<open>None\<close>: it cannot be opened), \<open>rest\<close> what follows in the heap.
\<close>

definition symbolLoadSymbols ::
  "u32 option \<Rightarrow> u32 option \<Rightarrow> u8 list option \<Rightarrow> u8 list \<Rightarrow> symbols \<Rightarrow> bool \<times> symbols" where
  "symbolLoadSymbols block stat contents rest s =
     (case stat of
        None \<Rightarrow> (False, s)
      | Some n \<Rightarrow>
         (case alloc_symbolfile block n s of
            (None, s) \<Rightarrow> (False, s)
          | (Some f, s) \<Rightarrow>
             (case contents of
                None \<Rightarrow> (False, free_symbolfile f s)
              | Some data \<Rightarrow>
                  if length data \<noteq> unat n then (False, free_symbolfile f s)
                  else let d = data @ rest
                       in if take 4 d \<noteq> sym_magic then (False, free_symbolfile f s)
                          else if hdr_symcount d * of_nat sym_entry_size + hdr_strsize d + of_nat sym_header \<noteq> n
                          then (False, free_symbolfile f s)
                          else let f' = f\<lparr>sf_mod := c_string (take MODNAME_SIZE (drop 4 d)), sf_entries := sym_entries d\<rparr>
                               in (True, s\<lparr>g_files := map (\<lambda>g. if sf_at g = sf_at f then f' else g) (g_files s)\<rparr>))))"

section \<open>Looking up symbols\<close>

record mod_info =
  mi_name :: string
  mi_text :: u32

text \<open>The range of the \<open>i\<close>-th entry: an entry without size ends where the next one is said to begin.\<close>

definition sym_bottom :: "u32 \<Rightarrow> sym_entry list \<Rightarrow> nat \<Rightarrow> u32" where
  "sym_bottom ba es i =
     (if 0x08000000 \<le> e_addr (es ! i) then e_addr (es ! i) else e_addr (es ! i) + ba)"

definition sym_top :: "u32 \<Rightarrow> sym_entry list \<Rightarrow> nat \<Rightarrow> u32" where
  "sym_top ba es i =
     (if e_size (es ! i) = 0 \<and> i < length es - 1 then e_addr (es ! (i + 1))
      else e_size (es ! i) + sym_bottom ba es i)"

definition sym_covers :: "u32 \<Rightarrow> sym_entry list \<Rightarrow> u32 \<Rightarrow> nat \<Rightarrow> bool" where
  "sym_covers ba es addr i \<longleftrightarrow> sym_bottom ba es i \<le> addr \<and> addr < sym_top ba es i"

text \<open>The loop over the entries, \<open>k\<close> of them left.\<close>

fun sym_scan :: "u32 \<Rightarrow> sym_entry list \<Rightarrow> u32 \<Rightarrow> nat \<Rightarrow> sym_entry option" where
  "sym_scan ba es addr 0 = None"
| "sym_scan ba es addr (Suc k) =
     (let i = length es - Suc k
      in if sym_covers ba es addr i then Some (es ! i) else sym_scan ba es addr k)"

definition symbolFindByAddress :: "(u32 \<Rightarrow> mod_info option) \<Rightarrow> symbols \<Rightarrow> u32 \<Rightarrow> (sym_entry \<times> u32) option" where
  "symbolFindByAddress by_addr s addr =
     (case by_addr addr of
        None \<Rightarrow> None
      | Some info \<Rightarrow>
         (case find_symbolfile (mi_name info) s of
            None \<Rightarrow> None
          | Some f \<Rightarrow>
              map_option (\<lambda>e. (e, mi_text info)) (sym_scan (mi_text info) (sf_entries f) addr (length (sf_entries f)))))"

definition symbolFindNameByAddress :: "(u32 \<Rightarrow> mod_info option) \<Rightarrow> symbols \<Rightarrow> u32 \<Rightarrow> string" where
  "symbolFindNameByAddress by_addr s addr =
     (case symbolFindByAddress by_addr s addr of None \<Rightarrow> ''Unknown'' | Some (e, ba) \<Rightarrow> e_name e)"

text \<open>
  \<open>symbolFindNameByAddressEx\<close>: the name and the distance from the symbol, cut to the caller's buffer;
  \<open>None\<close> when there is nothing to print. The name is formatted in 256 bytes first, which a longer name
  overruns (\<open>symtemp_fits\<close>).
\<close>

definition sym_format :: "sym_entry \<Rightarrow> u32 \<Rightarrow> u32 \<Rightarrow> string" where
  "sym_format e ba addr =
     (let reladdr = (if ba \<le> e_addr e then e_addr e - ba else e_addr e)
      in if ba + reladdr < addr then e_name e @ ''+0x'' @ hex_lower (unat (addr - (ba + reladdr))) else e_name e)"

definition symtemp_fits :: "sym_entry \<Rightarrow> u32 \<Rightarrow> u32 \<Rightarrow> bool" where
  "symtemp_fits e ba addr \<longleftrightarrow> length (sym_format e ba addr) < 256"

definition symbolFindNameByAddressEx :: "(u32 \<Rightarrow> mod_info option) \<Rightarrow> symbols \<Rightarrow> u32 \<Rightarrow> int \<Rightarrow> string option" where
  "symbolFindNameByAddressEx by_addr s addr outsize =
     (if outsize \<le> 0 then None
      else case symbolFindByAddress by_addr s addr of
             None \<Rightarrow> None
           | Some (e, ba) \<Rightarrow> Some (take (nat outsize - 1) (sym_format e ba addr)))"

fun sym_by_name :: "u32 \<Rightarrow> string \<Rightarrow> sym_entry list \<Rightarrow> (u32 \<times> u32) option" where
  "sym_by_name ba symname [] = None"
| "sym_by_name ba symname (e # es) =
     (if symname = e_name e
      then Some (if 0x08000000 \<le> e_addr e then e_addr e else ba + e_addr e, e_size e)
      else sym_by_name ba symname es)"

text \<open>\<open>symbolFindByName\<close>: the address (zero when there is none) and the size of \<open>module:symbol\<close>.\<close>

definition symbolFindByName :: "(string \<Rightarrow> mod_info option) \<Rightarrow> symbols \<Rightarrow> string \<Rightarrow> u32 \<times> u32 option" where
  "symbolFindByName by_name s name =
     (case split_at (\<lambda>c. c = CHR '':'') (strlcpy 127 name) of
        None \<Rightarrow> (0, None)
      | Some (modname, symname) \<Rightarrow>
         (case by_name modname of
            None \<Rightarrow> (0, None)
          | Some info \<Rightarrow>
             (case find_symbolfile modname s of
                None \<Rightarrow> (0, None)
              | Some f \<Rightarrow>
                 (case sym_by_name (mi_text info) symname (sf_entries f) of
                    None \<Rightarrow> (0, None)
                  | Some (addr, n) \<Rightarrow> (addr, Some n)))))"

section \<open>The heap stays in order\<close>

definition sym_start :: symbols where
  "sym_start = \<lparr>g_block = False, g_baseaddr = 0, g_curraddr = 0, g_files = []\<rparr>"

datatype sym_op =
  SymLoad "u32 option" "u32 option" "u8 list option" "u8 list"
| SymDeleteAll

primrec sym_step :: "sym_op \<Rightarrow> symbols \<Rightarrow> symbols" where
  "sym_step (SymLoad block stat contents rest) s = snd (symbolLoadSymbols block stat contents rest s)"
| "sym_step SymDeleteAll s = symbolDeleteAll s"

text \<open>Blocks do not reach the end of the address space; files are below 1792 megabytes.\<close>

definition block_ok :: "u32 \<Rightarrow> bool" where
  "block_ok b \<longleftrightarrow> unat b + 0x20000 \<le> 0x80000000"

primrec op_ok :: "sym_op \<Rightarrow> bool" where
  "op_ok (SymLoad block stat contents rest) \<longleftrightarrow>
     pred_option block_ok block \<and> pred_option (\<lambda>n. unat n \<le> 0x70000000) stat"
| "op_ok SymDeleteAll \<longleftrightarrow> True"

definition sf_end :: "sym_file \<Rightarrow> nat" where
  "sf_end f = unat (sf_at f) + unat (total_size (sf_size f))"

text \<open>
  The files lie in the heap one after the other, none over another. The end of the heap is respected only
  up to 18 bytes: the check of \<open>alloc_symbolfile\<close> counts neither the header nor the rounding.
\<close>

definition sym_ok :: "symbols \<Rightarrow> bool" where
  "sym_ok s \<longleftrightarrow>
     (if g_block s
      then block_ok (g_baseaddr s) \<and> unat (g_baseaddr s) \<le> unat (g_curraddr s) \<and>
           unat (g_curraddr s) \<le> unat (g_baseaddr s) + 65536 + 18 \<and>
           (\<forall>f \<in> set (g_files s). unat (g_baseaddr s) \<le> unat (sf_at f) \<and> unat (sf_at f) < sf_end f \<and>
             sf_end f \<le> unat (g_curraddr s)) \<and>
           sorted_wrt (\<lambda>f g. sf_end f \<le> unat (sf_at g)) (g_files s)
      else g_files s = [])"

lemma word_and_not_eq_diff:
  fixes x m :: "'a::len word"
  shows "x AND NOT m = x - (x AND m)"
proof -
  have "x - (x AND m) = x AND NOT (x AND m)"
    by (rule disjunctive_diff_eq_and_not) (rule bit_word_eqI, simp add: bit_simps)
  also have "\<dots> = x AND NOT m" by (rule bit_word_eqI) (auto simp: bit_simps)
  finally show ?thesis by simp
qed

lemma total_size_unat:
  assumes "unat n \<le> 0x70000000"
  shows "unat n + 16 \<le> unat (total_size n)" "unat (total_size n) \<le> unat n + 19"
proof -
  have "(n + 3) AND NOT 3 = n + 3 - ((n + 3) AND 3)"
    by (rule word_and_not_eq_diff)
  moreover have "(n + 3) AND 3 \<le> (3 :: u32)" by (rule word_and_le1)
  moreover have "unat (n + 3) = unat n + 3" using assms by (simp add: unat_word_ariths)
  ultimately have "unat ((n + 3) AND NOT 3) = unat n + 3 - unat ((n + 3) AND 3)" "unat ((n + 3) AND 3) \<le> 3"
    by (simp_all add: unat_sub word_le_nat_alt)
  then show "unat n + 16 \<le> unat (total_size n)" "unat (total_size n) \<le> unat n + 19"
    using assms by (auto simp: total_size_def unat_word_ariths)
qed

lemma alloc_ok:
  assumes "sym_ok s" "pred_option block_ok block" "unat n \<le> 0x70000000"
    "alloc_symbolfile block n s = (r, s')"
  shows "sym_ok s'" "r = Some f \<Longrightarrow> g_block s'"
proof -
  consider (none) "sym_heap block s = None" | t where "sym_heap block s = Some t" by (cases "sym_heap block s") auto
  then have "sym_ok s' \<and> (r \<noteq> None \<longrightarrow> g_block s')"
  proof cases
    case none
    then show ?thesis using assms(1,4) by (simp add: alloc_symbolfile_def)
  next
    case 2
    note t = 2
    have ok: "sym_ok t" "g_block t"
      using t assms(1,2) by (auto simp: sym_heap_def sym_ok_def split: if_splits option.splits)
    show ?thesis
    proof (cases "g_curraddr t + n < g_baseaddr t + HEAP_SIZE")
      case False
      then show ?thesis using t ok assms(1,4) by (auto simp: alloc_symbolfile_def)
    next
      case True
      let ?b = "unat (g_baseaddr t)" and ?c = "unat (g_curraddr t)"
      have b: "?b + 0x20000 \<le> 0x80000000" "?b \<le> ?c" "?c \<le> ?b + 65536 + 18"
        using ok by (simp_all add: sym_ok_def block_ok_def)
      have "unat (g_curraddr t + n) = ?c + unat n" "unat (g_baseaddr t + HEAP_SIZE) = ?b + 65536"
        using b assms(3) by (simp_all add: unat_word_ariths)
      then have lt: "?c + unat n < ?b + 65536" using True by (simp add: word_less_nat_alt)
      note ts = total_size_unat [OF assms(3)]
      have "unat (g_curraddr t + total_size n) = ?c + unat (total_size n)"
        using b lt ts by (simp add: unat_word_ariths)
      moreover have s': "s' = t\<lparr>g_files := g_files t @ [\<lparr>sf_at = g_curraddr t, sf_size = n, sf_mod = [], sf_entries = []\<rparr>],
          g_curraddr := g_curraddr t + total_size n\<rparr>"
        using t True assms(4) by (simp add: alloc_symbolfile_def Let_def)
      ultimately show ?thesis using ok b lt ts
        by (auto simp: sym_ok_def sf_end_def sorted_wrt_append)
    qed
  qed
  then show "sym_ok s'" "r = Some f \<Longrightarrow> g_block s'" by auto
qed

lemma free_ok: "sym_ok s \<Longrightarrow> sym_ok (free_symbolfile f s)"
  by (auto simp: sym_ok_def free_symbolfile_def intro: sorted_wrt_filter)

lemma sorted_files_inj:
  assumes "sorted_wrt (\<lambda>f g. sf_end f \<le> unat (sf_at g)) fs" "\<forall>f \<in> set fs. unat (sf_at f) < sf_end f"
    "f \<in> set fs" "g \<in> set fs" "sf_at f = sf_at g"
  shows "f = g"
  using assms by (induction fs) fastforce+

lemma fill_ok:
  assumes "sym_ok s" "f \<in> set (g_files s)" "g_block s"
  shows "sym_ok (s\<lparr>g_files := map (\<lambda>g. if sf_at g = sf_at f then f\<lparr>sf_mod := m, sf_entries := es\<rparr> else g) (g_files s)\<rparr>)"
proof -
  let ?u = "\<lambda>g. if sf_at g = sf_at f then f\<lparr>sf_mod := m, sf_entries := es\<rparr> else g"
  have u: "sf_at (?u g) = sf_at g \<and> sf_end (?u g) = sf_end g" if "g \<in> set (g_files s)" for g
    using assms sorted_files_inj [of "g_files s" g f] that by (auto simp: sym_ok_def sf_end_def)
  have "sorted_wrt (\<lambda>f g. sf_end f \<le> unat (sf_at g)) (map ?u (g_files s))"
    unfolding sorted_wrt_map
    by (rule sorted_wrt_mono_rel [of _ "\<lambda>f g. sf_end f \<le> unat (sf_at g)"]) (use u assms in \<open>auto simp: sym_ok_def\<close>)
  moreover have "unat (g_baseaddr s) \<le> unat (sf_at h) \<and> unat (sf_at h) < sf_end h \<and>
      sf_end h \<le> unat (g_curraddr s)" if "h \<in> set (map ?u (g_files s))" for h
  proof -
    from that obtain g where g: "g \<in> set (g_files s)" "h = ?u g" unfolding set_map by blast
    then have "sf_at h = sf_at g" "sf_end h = sf_end g" using u by blast+
    then show ?thesis using assms(1,3) g(1) by (simp add: sym_ok_def)
  qed
  ultimately show ?thesis using assms(1,3) by (simp add: sym_ok_def)
qed

lemma alloc_last: "alloc_symbolfile block n s = (Some f, s') \<Longrightarrow> f \<in> set (g_files s')"
  by (auto simp: alloc_symbolfile_def Let_def split: option.splits if_splits)

lemma load_ok:
  assumes "sym_ok s" "pred_option block_ok block" "pred_option (\<lambda>n. unat n \<le> 0x70000000) stat"
  shows "sym_ok (snd (symbolLoadSymbols block stat contents rest s))"
proof (cases stat)
  case (Some n)
  obtain r t where a: "alloc_symbolfile block n s = (r, t)" by fastforce
  note ok = alloc_ok [OF assms(1,2) _ a]
  show ?thesis
  proof (cases r)
    case None
    then show ?thesis using Some a ok(1) assms(3) by (simp add: symbolLoadSymbols_def)
  next
    case (Some f)
    then have "f \<in> set (g_files t)" using a alloc_last by simp
    with Some \<open>stat = Some n\<close> a ok assms(3) show ?thesis
      by (auto simp: symbolLoadSymbols_def Let_def free_ok fill_ok split: option.split)
  qed
qed (use assms in \<open>simp add: symbolLoadSymbols_def\<close>)

text \<open>
  After any sequence of loads and deletions of symbol files, whatever the files contain and wherever
  loading stops, the loaded files lie in the heap in the order of the list, none overlapping another, and
  none further than 18 bytes past the end of the heap.
\<close>

theorem symbols_disjoint:
  assumes "list_all op_ok ops"
  shows "sym_ok (fold sym_step ops sym_start)"
proof -
  have "sym_ok (fold sym_step ops s)" if "sym_ok s" for s
    using assms that
  proof (induction ops arbitrary: s)
    case (Cons op ops)
    have "sym_ok (sym_step op s)"
    proof (cases op)
      case (SymLoad block stat contents rest)
      with Cons.prems show ?thesis by (simp add: load_ok)
    next
      case SymDeleteAll
      then show ?thesis by (simp add: symbolDeleteAll_def sym_ok_def)
    qed
    then show ?case using Cons by simp
  qed simp
  moreover have "sym_ok sym_start" by (simp add: sym_start_def sym_ok_def)
  ultimately show ?thesis by blast
qed

definition example_symfile :: "u8 list" where
  "example_symfile =
     sym_magic @ map (\<lambda>c. of_nat (ccode c)) ''game'' @ replicate 24 0
       @ to_le32 2 @ to_le32 68 @ to_le32 8
       @ to_le32 0 @ to_le32 0x100 @ to_le32 0x40
       @ to_le32 5 @ to_le32 0x140 @ to_le32 0x20
       @ map (\<lambda>c. of_nat (ccode c)) ''main'' @ [0] @ map (\<lambda>c. of_nat (ccode c)) ''go'' @ [0]"

theorem symbols_disjoint_witness:
  "sym_ok (fold sym_step [SymLoad (Some 0x08400000) (Some 76) (Some example_symfile) [], SymDeleteAll,
     SymLoad (Some 0x08400000) (Some 65535) None []] sym_start)"
  by (rule symbols_disjoint) (simp add: block_ok_def)

text \<open>The 18 bytes are reached: after this allocation the next free address lies past the heap.\<close>

lemma alloc_overrun:
  "g_curraddr (snd (alloc_symbolfile (Some 0x08400000) 65535 sym_start)) = 0x08400000 + HEAP_SIZE + 16"
  by (simp add: alloc_symbolfile_def sym_heap_def sym_start_def total_size_def word_and_not_eq_diff
    Let_def)

section \<open>Names and addresses\<close>

lemma sym_scan_find:
  "k \<le> length es \<Longrightarrow>
    sym_scan ba es addr k = map_option ((!) es) (List.find (sym_covers ba es addr) [length es - k..<length es])"
proof (induction k)
  case (Suc k)
  then have "[length es - Suc k..<length es] = (length es - Suc k) # [length es - k..<length es]"
    using Suc_diff_Suc [of k "length es"] by (simp add: upt_conv_Cons)
  then show ?case using Suc by (simp add: Let_def)
qed simp

lemma sym_scan_Some:
  "sym_scan ba es addr (length es) = Some e \<longleftrightarrow>
    (\<exists>i < length es. e = es ! i \<and> sym_covers ba es addr i \<and> (\<forall>j < i. \<not> sym_covers ba es addr j))"
proof -
  have "List.find P [0..<n] = Some i \<longleftrightarrow> i < n \<and> P i \<and> (\<forall>j < i. \<not> P j)" for P :: "nat \<Rightarrow> bool" and n i
    by (auto simp: find_Some_iff intro!: exI [of _ i])
  then show ?thesis by (auto simp: sym_scan_find)
qed

lemma sym_by_name_Some:
  "sym_by_name ba name es = Some (a, n) \<longleftrightarrow>
    (\<exists>i < length es. e_name (es ! i) = name \<and> a = sym_bottom ba es i \<and> n = e_size (es ! i) \<and>
       (\<forall>j < i. e_name (es ! j) \<noteq> name))"
proof (induction es)
  case (Cons e es)
  show ?case
  proof (cases "name = e_name e")
    case True
    then show ?thesis by (auto simp: Ex_less_Suc2 All_less_Suc2 sym_bottom_def add.commute)
  next
    case False
    then have "sym_by_name ba name (e # es) = Some (a, n) \<longleftrightarrow> sym_by_name ba name es = Some (a, n)" by simp
    also note Cons.IH
    also have "(\<exists>i < length es. e_name (es ! i) = name \<and> a = sym_bottom ba es i \<and> n = e_size (es ! i) \<and>
         (\<forall>j < i. e_name (es ! j) \<noteq> name)) \<longleftrightarrow>
       (\<exists>i < length (e # es). e_name ((e # es) ! i) = name \<and> a = sym_bottom ba (e # es) i \<and>
         n = e_size ((e # es) ! i) \<and> (\<forall>j < i. e_name ((e # es) ! j) \<noteq> name))"
      using False by (simp add: Ex_less_Suc2 All_less_Suc2 sym_bottom_def)
    finally show ?thesis .
  qed
qed simp

text \<open>The symbols of a file are in the order of their addresses, none reaching into a later one.\<close>

definition symtab_ok :: "u32 \<Rightarrow> sym_entry list \<Rightarrow> bool" where
  "symtab_ok ba es \<longleftrightarrow> (\<forall>j < length es. \<forall>i < j. sym_top ba es i \<le> sym_bottom ba es j)"

text \<open>Addresses below \<open>0x08000000\<close> are relative to the module, others lie in it.\<close>

definition sym_addr_ok :: "u32 \<Rightarrow> sym_entry \<Rightarrow> bool" where
  "sym_addr_ok ba e \<longleftrightarrow> e_addr e < 0x08000000 \<or> ba \<le> e_addr e"

lemma word_range:
  fixes a d n :: u32
  assumes "d < n" "unat a + unat n < 2 ^ 32"
  shows "a \<le> a + d" "a + d < n + a" "a < a + d \<longleftrightarrow> d \<noteq> 0"
proof -
  have "unat (a + d) = unat a + unat d" "unat (n + a) = unat n + unat a" "unat d < unat n"
    using assms by (auto simp: word_less_nat_alt unat_word_ariths)
  then show "a \<le> a + d" "a + d < n + a" "a < a + d \<longleftrightarrow> d \<noteq> 0"
    using unat_0_iff [of d] by (auto simp: word_less_nat_alt word_le_nat_alt)
qed

lemma sym_format_offset:
  assumes "i < length es" "0x08000000 \<le> ba" "sym_addr_ok ba (es ! i)"
    "d < n" "unat (sym_bottom ba es i) + unat n < 2 ^ 32"
  shows "sym_format (es ! i) ba (sym_bottom ba es i + d) =
    (if d = 0 then e_name (es ! i) else e_name (es ! i) @ ''+0x'' @ hex_lower (unat d))"
proof -
  let ?e = "es ! i"
  have "ba + (if ba \<le> e_addr ?e then e_addr ?e - ba else e_addr ?e) = sym_bottom ba es i"
  proof (cases "0x08000000 \<le> e_addr ?e")
    case True
    then have "ba \<le> e_addr ?e" using assms(3) by (auto simp: sym_addr_ok_def)
    then show ?thesis using True by (simp add: sym_bottom_def)
  next
    case False
    then have "\<not> ba \<le> e_addr ?e" using assms(2) by simp
    then show ?thesis using False by (simp add: sym_bottom_def add.commute)
  qed
  then show ?thesis using word_range [OF assms(4,5)] by (auto simp: sym_format_def Let_def)
qed

lemma sym_scan_covered:
  assumes "symtab_ok ba es" "i < length es" "sym_covers ba es addr i"
  shows "sym_scan ba es addr (length es) = Some (es ! i)"
proof -
  have "\<not> sym_covers ba es addr j" if "j < i" for j
  proof -
    have "sym_top ba es j \<le> sym_bottom ba es i" using assms(1,2) that by (simp add: symtab_ok_def)
    then show ?thesis using assms(3) by (auto simp: sym_covers_def)
  qed
  then show ?thesis using assms(2,3) sym_scan_Some by blast
qed

lemma symbolFindByName_entry:
  assumes "symbolFindByName by_name s (modname @ '':'' @ symname) = (a, Some n)"
    "CHR '':'' \<notin> set modname" "length modname + length symname < 127"
    "by_name modname = Some info" "find_symbolfile modname s = Some f"
  obtains i where "i < length (sf_entries f)" "e_name (sf_entries f ! i) = symname"
    "a = sym_bottom (mi_text info) (sf_entries f) i" "n = e_size (sf_entries f ! i)"
proof -
  have "split_at (\<lambda>c. c = CHR '':'') (modname @ '':'' @ symname) = Some (modname, symname)"
    using assms(2) by (auto intro!: split_at_append)
  then have "sym_by_name (mi_text info) symname (sf_entries f) = Some (a, n)"
    using assms(1,3,4,5) by (auto simp: symbolFindByName_def strlcpy_def split: option.splits)
  with that show thesis by (auto simp: sym_by_name_Some)
qed

text \<open>
  C37: Symbols resolve back. If the table of a loaded module is in order, the address found for
  \<open>module:symbol\<close>, and every address within the symbol's size after it, is named by
  \<open>symbolFindNameByAddressEx\<close> as that symbol with the distance in hexadecimal, cut to the buffer.
\<close>

theorem symbol_name_offset:
  assumes "symbolFindByName by_name s (modname @ '':'' @ symname) = (a, Some n)"
    "CHR '':'' \<notin> set modname" "length modname + length symname < 127"
    "by_name modname = Some info" "find_symbolfile modname s = Some f"
    "symtab_ok (mi_text info) (sf_entries f)" "list_all (sym_addr_ok (mi_text info)) (sf_entries f)"
    "0x08000000 \<le> mi_text info" "d < n" "unat a + unat n < 2 ^ 32"
    "by_addr (a + d) = Some info" "mi_name info = modname" "0 < outsize"
  shows "symbolFindNameByAddressEx by_addr s (a + d) outsize =
    Some (take (nat outsize - 1) (if d = 0 then symname else symname @ ''+0x'' @ hex_lower (unat d)))"
proof -
  let ?es = "sf_entries f" and ?ba = "mi_text info"
  obtain i where i: "i < length ?es" "e_name (?es ! i) = symname" "a = sym_bottom ?ba ?es i" "n = e_size (?es ! i)"
    using symbolFindByName_entry [OF assms(1-5)] .
  have "e_size (?es ! i) \<noteq> 0" using assms(9) i(4) by auto
  then have "sym_covers ?ba ?es (a + d) i"
    using word_range [OF assms(9,10)] i(3,4) by (simp add: sym_covers_def sym_top_def)
  then have "symbolFindByAddress by_addr s (a + d) = Some (?es ! i, ?ba)"
    using sym_scan_covered assms(5,6,11,12) i(1) by (simp add: symbolFindByAddress_def)
  moreover have "sym_addr_ok ?ba (?es ! i)" using assms(7) i(1) by (simp add: list_all_length)
  ultimately show ?thesis
    using sym_format_offset [OF i(1) assms(8) _ assms(9), folded i(3)] assms(10,13) i(2)
    by (simp add: symbolFindNameByAddressEx_def)
qed

definition example_symbols :: symbols where
  "example_symbols =
     \<lparr>g_block = True, g_baseaddr = 0x08400000, g_curraddr = 0x0840005C,
      g_files = [\<lparr>sf_at = 0x08400000, sf_size = 76, sf_mod = ''game'',
        sf_entries = [\<lparr>e_name = ''main'', e_addr = 0x100, e_size = 0x40\<rparr>, \<lparr>e_name = ''go'', e_addr = 0x140, e_size = 0x20\<rparr>]\<rparr>]\<rparr>"

lemma example_load:
  "symbolLoadSymbols (Some 0x08400000) (Some 76) (Some example_symfile) [] sym_start = (True, example_symbols)"
  by code_simp

definition example_info :: mod_info where
  "example_info = \<lparr>mi_name = ''game'', mi_text = 0x08804000\<rparr>"

theorem symbol_name_offset_witness:
  "symbolFindNameByAddressEx (\<lambda>a. if 0x08804000 \<le> a then Some example_info else None) example_symbols (0x08804140 + 0x1A) 64
    = Some ''go+0x1a''"
proof -
  let ?f = "hd (g_files example_symbols)"
  have h1: "symbolFindByName (\<lambda>n. if n = ''game'' then Some example_info else None) example_symbols (''game'' @ '':'' @ ''go'')
      = (0x08804140, Some 0x20)"
    by code_simp
  have h2: "symtab_ok (mi_text example_info) (sf_entries ?f)"
    by (simp add: symtab_ok_def example_info_def example_symbols_def All_less_Suc sym_top_def sym_bottom_def)
  have h3: "find_symbolfile ''game'' example_symbols = Some ?f" by code_simp
  have h4: "list_all (sym_addr_ok (mi_text example_info)) (sf_entries ?f)" by code_simp
  have "symbolFindNameByAddressEx (\<lambda>a. if 0x08804000 \<le> a then Some example_info else None) example_symbols
      (0x08804140 + 0x1A) 64 = Some (take (nat 64 - 1) (if (0x1A :: u32) = 0 then ''go'' else ''go'' @ ''+0x'' @ hex_lower (unat (0x1A :: u32))))"
    by (rule symbol_name_offset [OF h1 _ _ _ h3 h2 h4]) (simp_all add: example_info_def)
  moreover have "hex_lower 26 = ''1a''" by code_simp
  ultimately show ?thesis by simp
qed

text \<open>
  A symbol without size that is followed by another relative one is never found in a loaded module: its end
  is the offset of the next symbol, not its address.
\<close>

lemma sym_zero_size_missed:
  assumes "e_size (es ! i) = 0" "i < length es - 1" "e_addr (es ! (i + 1)) < 0x08000000"
    "0x08000000 \<le> sym_bottom ba es i"
  shows "\<not> sym_covers ba es addr i"
  using assms by (auto simp: sym_covers_def sym_top_def)

end
