(* ===== verification/Disasm.thy ===== *)
theory Disasm
  imports Symbols Debug
begin

text \<open>
  \<open>psplink/disasm.c\<close>: the disassembler. Its two instruction tables, the choice of an entry, the printing of
  operands, and the line it gives for an instruction.

  The output buffers are the texts themselves; that they are long enough is a theorem. \<open>int\<close> operands are
  32-bit words. The flags are those set by \<open>disasmSetOpts\<close>; the symbol resolver and the registers of the
  stopped program are optional, as their pointers are.
\<close>

section \<open>The instruction tables\<close>

datatype Instruction = Instruction (i_name: string) (i_opcode: u32) (i_mask: u32) (i_fmt: string)

definition macro :: "Instruction list" where
  "macro = [
   Instruction ''nop'' 0x00000000 0xFFFFFFFF [],
   Instruction ''li'' 0x24000000 0xFFE00000 ''%t, %i'',
   Instruction ''li'' 0x34000000 0xFFE00000 ''%t, %I'',
   Instruction ''move'' 0x00000021 0xFC1F07FF ''%d, %s'',
   Instruction ''move'' 0x00000025 0xFC1F07FF ''%d, %s'',
   Instruction ''b'' 0x10000000 0xFFFF0000 ''%O'',
   Instruction ''b'' 0x04010000 0xFFFF0000 ''%O'',
   Instruction ''bal'' 0x04110000 0xFFFF0000 ''%O'',
   Instruction ''bnez'' 0x14000000 0xFC1F0000 ''%s, %O'',
   Instruction ''bnezl'' 0x54000000 0xFC1F0000 ''%s, %O'',
   Instruction ''neg'' 0x00000022 0xFFE007FF ''%d, %t'',
   Instruction ''negu'' 0x00000023 0xFFE007FF ''%d, %t'',
   Instruction ''not'' 0x00000027 0xFC1F07FF ''%d, %s'',
   Instruction ''jalr'' 0x0000F809 0xFC1FFFFF ''%J'']"

definition inst_mips :: "Instruction list" where
  "inst_mips = [
   Instruction ''add'' 0x00000020 0xFC0007FF ''%d, %s, %t'',
   Instruction ''addi'' 0x20000000 0xFC000000 ''%t, %s, %i'',
   Instruction ''addiu'' 0x24000000 0xFC000000 ''%t, %s, %i'',
   Instruction ''addu'' 0x00000021 0xFC0007FF ''%d, %s, %t'',
   Instruction ''and'' 0x00000024 0xFC0007FF ''%d, %s, %t'',
   Instruction ''andi'' 0x30000000 0xFC000000 ''%t, %s, %I'',
   Instruction ''beq'' 0x10000000 0xFC000000 ''%s, %t, %O'',
   Instruction ''beql'' 0x50000000 0xFC000000 ''%s, %t, %O'',
   Instruction ''bgez'' 0x04010000 0xFC1F0000 ''%s, %O'',
   Instruction ''bgezal'' 0x04110000 0xFC1F0000 ''%s, %0'',
   Instruction ''bgezl'' 0x04030000 0xFC1F0000 ''%s, %O'',
   Instruction ''bgtz'' 0x1C000000 0xFC1F0000 ''%s, %O'',
   Instruction ''bgtzl'' 0x5C000000 0xFC1F0000 ''%s, %O'',
   Instruction ''bitrev'' 0x7C000520 0xFFE007FF ''%d, %t'',
   Instruction ''blez'' 0x18000000 0xFC1F0000 ''%s, %O'',
   Instruction ''blezl'' 0x58000000 0xFC1F0000 ''%s, %O'',
   Instruction ''bltz'' 0x04000000 0xFC1F0000 ''%s, %O'',
   Instruction ''bltzl'' 0x04020000 0xFC1F0000 ''%s, %O'',
   Instruction ''bltzal'' 0x04100000 0xFC1F0000 ''%s, %O'',
   Instruction ''bltzall'' 0x04120000 0xFC1F0000 ''%s, %O'',
   Instruction ''bne'' 0x14000000 0xFC000000 ''%s, %t, %O'',
   Instruction ''bnel'' 0x54000000 0xFC000000 ''%s, %t, %O'',
   Instruction ''break'' 0x0000000D 0xFC00003F ''%c'',
   Instruction ''cache'' 0xBC000000 0xFC000000 ''%k, %o'',
   Instruction ''cfc0'' 0x40400000 0xFFE007FF ''%t, %p'',
   Instruction ''clo'' 0x00000017 0xFC1F07FF ''%d, %s'',
   Instruction ''clz'' 0x00000016 0xFC1F07FF ''%d, %s'',
   Instruction ''ctc0'' 0x40C00000 0xFFE007FF ''%t, %p'',
   Instruction ''max'' 0x0000002C 0xFC0007FF ''%d, %s, %t'',
   Instruction ''min'' 0x0000002D 0xFC0007FF ''%d, %s, %t'',
   Instruction ''dbreak'' 0x7000003F 0xFFFFFFFF [],
   Instruction ''div'' 0x0000001A 0xFC00FFFF ''%s, %t'',
   Instruction ''divu'' 0x0000001B 0xFC00FFFF ''%s, %t'',
   Instruction ''dret'' 0x7000003E 0xFFFFFFFF [],
   Instruction ''eret'' 0x42000018 0xFFFFFFFF [],
   Instruction ''ext'' 0x7C000000 0xFC00003F ''%t, %s, %a, %n'',
   Instruction ''ins'' 0x7C000004 0xFC00003F ''%t, %s, %a, %n'',
   Instruction ''j'' 0x08000000 0xFC000000 ''%j'',
   Instruction ''jr'' 0x00000008 0xFC1FFFFF ''%J'',
   Instruction ''jalr'' 0x00000009 0xFC1F07FF ''%J, %d'',
   Instruction ''jal'' 0x0C000000 0xFC000000 ''%j'',
   Instruction ''lb'' 0x80000000 0xFC000000 ''%t, %o'',
   Instruction ''lbu'' 0x90000000 0xFC000000 ''%t, %o'',
   Instruction ''lh'' 0x84000000 0xFC000000 ''%t, %o'',
   Instruction ''lhu'' 0x94000000 0xFC000000 ''%t, %o'',
   Instruction ''ll'' 0xC0000000 0xFC000000 ''%t, %O'',
   Instruction ''lui'' 0x3C000000 0xFFE00000 ''%t, %I'',
   Instruction ''lw'' 0x8C000000 0xFC000000 ''%t, %o'',
   Instruction ''lwl'' 0x88000000 0xFC000000 ''%t, %o'',
   Instruction ''lwr'' 0x98000000 0xFC000000 ''%t, %o'',
   Instruction ''madd'' 0x0000001C 0xFC00FFFF ''%s, %t'',
   Instruction ''maddu'' 0x0000001D 0xFC00FFFF ''%s, %t'',
   Instruction ''mfc0'' 0x40000000 0xFFE007FF ''%t, %0'',
   Instruction ''mfdr'' 0x7000003D 0xFFE007FF ''%t, %r'',
   Instruction ''mfhi'' 0x00000010 0xFFFF07FF ''%d'',
   Instruction ''mfic'' 0x70000024 0xFFE007FF ''%t, %p'',
   Instruction ''mflo'' 0x00000012 0xFFFF07FF ''%d'',
   Instruction ''movn'' 0x0000000B 0xFC0007FF ''%d, %s, %t'',
   Instruction ''movz'' 0x0000000A 0xFC0007FF ''%d, %s, %t'',
   Instruction ''msub'' 0x0000002E 0xFC00FFFF ''%d, %t'',
   Instruction ''msubu'' 0x0000002F 0xFC00FFFF ''%d, %t'',
   Instruction ''mtc0'' 0x40800000 0xFFE007FF ''%t, %0'',
   Instruction ''mtdr'' 0x7080003D 0xFFE007FF ''%t, %r'',
   Instruction ''mtic'' 0x70000026 0xFFE007FF ''%t, %p'',
   Instruction ''halt'' 0x70000000 0xFFFFFFFF [],
   Instruction ''mthi'' 0x00000011 0xFC1FFFFF ''%s'',
   Instruction ''mtlo'' 0x00000013 0xFC1FFFFF ''%s'',
   Instruction ''mult'' 0x00000018 0xFC00FFFF ''%s, %t'',
   Instruction ''multu'' 0x00000019 0xFC0007FF ''%s, %t'',
   Instruction ''nor'' 0x00000027 0xFC0007FF ''%d, %s, %t'',
   Instruction ''or'' 0x00000025 0xFC0007FF ''%d, %s, %t'',
   Instruction ''ori'' 0x34000000 0xFC000000 ''%t, %s, %I'',
   Instruction ''rotr'' 0x00200002 0xFFE0003F ''%d, %t, %a'',
   Instruction ''rotv'' 0x00000046 0xFC0007FF ''%d, %t, %s'',
   Instruction ''seb'' 0x7C000420 0xFFE007FF ''%d, %t'',
   Instruction ''seh'' 0x7C000620 0xFFE007FF ''%d, %t'',
   Instruction ''sb'' 0xA0000000 0xFC000000 ''%t, %o'',
   Instruction ''sh'' 0xA4000000 0xFC000000 ''%t, %o'',
   Instruction ''sllv'' 0x00000004 0xFC0007FF ''%d, %t, %s'',
   Instruction ''sll'' 0x00000000 0xFFE0003F ''%d, %t, %a'',
   Instruction ''slt'' 0x0000002A 0xFC0007FF ''%d, %s, %t'',
   Instruction ''slti'' 0x28000000 0xFC000000 ''%t, %s, %i'',
   Instruction ''sltiu'' 0x2C000000 0xFC000000 ''%t, %s, %i'',
   Instruction ''sltu'' 0x0000002B 0xFC0007FF ''%d, %s, %t'',
   Instruction ''sra'' 0x00000003 0xFFE0003F ''%d, %t, %a'',
   Instruction ''srav'' 0x00000007 0xFC0007FF ''%d, %t, %s'',
   Instruction ''srlv'' 0x00000006 0xFC0007FF ''%d, %t, %s'',
   Instruction ''srl'' 0x00000002 0xFFE0003F ''%d, %t, %a'',
   Instruction ''sw'' 0xAC000000 0xFC000000 ''%t, %o'',
   Instruction ''swl'' 0xA8000000 0xFC000000 ''%t, %o'',
   Instruction ''swr'' 0xB8000000 0xFC000000 ''%t, %o'',
   Instruction ''sub'' 0x00000022 0xFC0007FF ''%d, %s, %t'',
   Instruction ''subu'' 0x00000023 0xFC0007FF ''%d, %s, %t'',
   Instruction ''sync'' 0x0000000F 0xFFFFFFFF [],
   Instruction ''syscall'' 0x0000000C 0xFC00003F ''%C'',
   Instruction ''xor'' 0x00000026 0xFC0007FF ''%d, %s, %t'',
   Instruction ''xori'' 0x38000000 0xFC000000 ''%t, %s, %I'',
   Instruction ''wsbh'' 0x7C0000A0 0xFFE007FF ''%d, %t'',
   Instruction ''wsbw'' 0x7C0000E0 0xFFE007FF ''%d, %t'']"

definition inst_fpu :: "Instruction list" where
  "inst_fpu = [
   Instruction ''abs.s'' 0x46000005 0xFFFF003F ''%D, %S'',
   Instruction ''add.s'' 0x46000000 0xFFE0003F ''%D, %S, %T'',
   Instruction ''bc1f'' 0x45000000 0xFFFF0000 ''%O'',
   Instruction ''bc1fl'' 0x45020000 0xFFFF0000 ''%O'',
   Instruction ''bc1t'' 0x45010000 0xFFFF0000 ''%O'',
   Instruction ''bc1tl'' 0x45030000 0xFFFF0000 ''%O'',
   Instruction ''c.f.s'' 0x46000030 0xFFE007FF ''%S, %T'',
   Instruction ''c.un.s'' 0x46000031 0xFFE007FF ''%S, %T'',
   Instruction ''c.eq.s'' 0x46000032 0xFFE007FF ''%S, %T'',
   Instruction ''c.ueq.s'' 0x46000033 0xFFE007FF ''%S, %T'',
   Instruction ''c.olt.s'' 0x46000034 0xFFE007FF ''%S, %T'',
   Instruction ''c.ult.s'' 0x46000035 0xFFE007FF ''%S, %T'',
   Instruction ''c.ole.s'' 0x46000036 0xFFE007FF ''%S, %T'',
   Instruction ''c.ule.s'' 0x46000037 0xFFE007FF ''%S, %T'',
   Instruction ''c.sf.s'' 0x46000038 0xFFE007FF ''%S, %T'',
   Instruction ''c.ngle.s'' 0x46000039 0xFFE007FF ''%S, %T'',
   Instruction ''c.seq.s'' 0x4600003A 0xFFE007FF ''%S, %T'',
   Instruction ''c.ngl.s'' 0x4600003B 0xFFE007FF ''%S, %T'',
   Instruction ''c.lt.s'' 0x4600003C 0xFFE007FF ''%S, %T'',
   Instruction ''c.nge.s'' 0x4600003D 0xFFE007FF ''%S, %T'',
   Instruction ''c.le.s'' 0x4600003E 0xFFE007FF ''%S, %T'',
   Instruction ''c.ngt.s'' 0x4600003F 0xFFE007FF ''%S, %T'',
   Instruction ''ceil.w.s'' 0x4600000E 0xFFFF003F ''%D, %S'',
   Instruction ''cfc1'' 0x44400000 0xFFE007FF ''%t, %p'',
   Instruction ''ctc1'' 0x44C00000 0xFFE007FF ''%t, %p'',
   Instruction ''cvt.s.w'' 0x46800020 0xFFFF003F ''%D, %S'',
   Instruction ''cvt.w.s'' 0x46000024 0xFFFF003F ''%D, %S'',
   Instruction ''div.s'' 0x46000003 0xFFE0003F ''%D, %S, %T'',
   Instruction ''floor.w.s'' 0x4600000F 0xFFFF003F ''%D, %S'',
   Instruction ''lwc1'' 0xC4000000 0xFC000000 ''%T, %o'',
   Instruction ''mfc1'' 0x44000000 0xFFE007FF ''%t, %1'',
   Instruction ''mov.s'' 0x46000006 0xFFFF003F ''%D, %S'',
   Instruction ''mtc1'' 0x44800000 0xFFE007FF ''%t, %1'',
   Instruction ''mul.s'' 0x46000002 0xFFE0003F ''%D, %S, %T'',
   Instruction ''neg.s'' 0x46000007 0xFFFF003F ''%D, %S'',
   Instruction ''round.w.s'' 0x4600000C 0xFFFF003F ''%D, %S'',
   Instruction ''sqrt.s'' 0x46000004 0xFFFF003F ''%D, %S'',
   Instruction ''sub.s'' 0x46000001 0xFFE0003F ''%D, %S, %T'',
   Instruction ''swc1'' 0xE4000000 0xFC000000 ''%T, %o'',
   Instruction ''trunc.w.s'' 0x4600000D 0xFFFF003F ''%D, %S'']"

definition inst_vpu1 :: "Instruction list" where
  "inst_vpu1 = [
   Instruction ''bvf'' 0x49000000 0xFFE30000 ''%Z, %O'',
   Instruction ''bvfl'' 0x49020000 0xFFE30000 ''%Z, %O'',
   Instruction ''bvt'' 0x49010000 0xFFE30000 ''%Z, %O'',
   Instruction ''bvtl'' 0x49030000 0xFFE30000 ''%Z, %O'',
   Instruction ''lv.q'' 0xD8000000 0xFC000002 ''%Xq, %Y'',
   Instruction ''lv.s'' 0xC8000000 0xFC000000 ''%Xs, %Y'',
   Instruction ''lvl.q'' 0xD4000000 0xFC000002 ''%Xq, %Y'',
   Instruction ''lvr.q'' 0xD4000002 0xFC000002 ''%Xq, %Y'',
   Instruction ''mfv'' 0x48600000 0xFFE0FF80 [],
   Instruction ''mfvc'' 0x48600000 0xFFE0FF00 [],
   Instruction ''mtv'' 0x48E00000 0xFFE0FF80 [],
   Instruction ''mtvc'' 0x48E00000 0xFFE0FF00 [],
   Instruction ''sv.q'' 0xF8000000 0xFC000002 ''%Xq, %Y'',
   Instruction ''sv.s'' 0xE8000000 0xFC000000 ''%Xs, %Y'',
   Instruction ''svl.q'' 0xF4000000 0xFC000002 ''%Xq, %Y'',
   Instruction ''svr.q'' 0xF4000002 0xFC000002 ''%Xq, %Y'',
   Instruction ''vabs.p'' 0xD0010080 0xFFFF8080 ''%zp, %yp'',
   Instruction ''vabs.q'' 0xD0018080 0xFFFF8080 ''%zq, %yq'',
   Instruction ''vabs.s'' 0xD0010000 0xFFFF8080 ''%zs, %ys'',
   Instruction ''vabs.t'' 0xD0018000 0xFFFF8080 ''%zt, %yt'',
   Instruction ''vadd.p'' 0x60000080 0xFF808080 ''%zp, %yp, %xp'',
   Instruction ''vadd.q'' 0x60008080 0xFF808080 ''%zq, %yq, %xq'',
   Instruction ''vadd.s'' 0x60000000 0xFF808080 ''%zs, %yz, %xs'',
   Instruction ''vadd.t'' 0x60008000 0xFF808080 ''%zt, %yt, %xt'',
   Instruction ''vasin.p'' 0xD0170080 0xFFFF8080 ''%zp, %yp'',
   Instruction ''vasin.q'' 0xD0178080 0xFFFF8080 ''%zq, %yq'',
   Instruction ''vasin.s'' 0xD0170000 0xFFFF8080 ''%zs, %ys'',
   Instruction ''vasin.t'' 0xD0178000 0xFFFF8080 ''%zt, %yt'',
   Instruction ''vavg.p'' 0xD0470080 0xFFFF8080 ''%zp, %yp'',
   Instruction ''vavg.q'' 0xD0478080 0xFFFF8080 ''%zq, %yq'',
   Instruction ''vavg.t'' 0xD0478000 0xFFFF8080 ''%zt, %yt'',
   Instruction ''vbfy1.p'' 0xD0420080 0xFFFF8080 ''%zp, %yp'',
   Instruction ''vbfy1.q'' 0xD0428080 0xFFFF8080 ''%zq, %yq'',
   Instruction ''vbfy2.q'' 0xD0438080 0xFFFF8080 ''%zq, %yq'',
   Instruction ''vcmovf.p'' 0xD2A80080 0xFFF88080 [],
   Instruction ''vcmovf.q'' 0xD2A88080 0xFFF88080 [],
   Instruction ''vcmovf.s'' 0xD2A80000 0xFFF88080 [],
   Instruction ''vcmovf.t'' 0xD2A88000 0xFFF88080 [],
   Instruction ''vcmovt.p'' 0xD2A00080 0xFFF88080 [],
   Instruction ''vcmovt.q'' 0xD2A08080 0xFFF88080 [],
   Instruction ''vcmovt.s'' 0xD2A00000 0xFFF88080 [],
   Instruction ''vcmovt.t'' 0xD2A08000 0xFFF88080 [],
   Instruction ''vcmp.p'' 0x6C000080 0xFF8080F0 [],
   Instruction ''vcmp.p'' 0x6C000080 0xFFFF80F0 [],
   Instruction ''vcmp.p'' 0x6C000080 0xFFFFFFF0 [],
   Instruction ''vcmp.q'' 0x6C008080 0xFF8080F0 [],
   Instruction ''vcmp.q'' 0x6C008080 0xFFFF80F0 [],
   Instruction ''vcmp.q'' 0x6C008080 0xFFFFFFF0 [],
   Instruction ''vcmp.s'' 0x6C000000 0xFF8080F0 [],
   Instruction ''vcmp.s'' 0x6C000000 0xFFFF80F0 [],
   Instruction ''vcmp.s'' 0x6C000000 0xFFFFFFF0 [],
   Instruction ''vcmp.t'' 0x6C008000 0xFF8080F0 [],
   Instruction ''vcmp.t'' 0x6C008000 0xFFFF80F0 [],
   Instruction ''vcmp.t'' 0x6C008000 0xFFFFFFF0 [],
   Instruction ''vcos.p'' 0xD0130080 0xFFFF8080 ''%zp, %yp'',
   Instruction ''vcos.q'' 0xD0138080 0xFFFF8080 ''%zq, %yq'',
   Instruction ''vcos.s'' 0xD0130000 0xFFFF8080 ''%zs, %ys'',
   Instruction ''vcos.t'' 0xD0138000 0xFFFF8080 ''%zt, %yt'',
   Instruction ''vcrs.t'' 0x66808000 0xFF808080 ''%zt, %yt, %xt'',
   Instruction ''vcrsp.t'' 0xF2808000 0xFF808080 ''%zt, %yt, %xt'',
   Instruction ''vcst.p'' 0xD0600080 0xFFE0FF80 ''%zp, %yp, %xp'',
   Instruction ''vcst.q'' 0xD0608080 0xFFE0FF80 ''%zq, %yq, %xq'',
   Instruction ''vcst.s'' 0xD0600000 0xFFE0FF80 ''%zs, %ys, %xs'',
   Instruction ''vcst.t'' 0xD0608000 0xFFE0FF80 ''%zt, %yt, %xt'',
   Instruction ''vdet.p'' 0x67000080 0xFF808080 ''%zs, %yp, %xp'',
   Instruction ''vdiv.p'' 0x63800080 0xFF808080 ''%zp, %yp, %xp'',
   Instruction ''vdiv.q'' 0x63808080 0xFF808080 ''%zq, %yq, %xq'',
   Instruction ''vdiv.s'' 0x63800000 0xFF808080 ''%zs, %yz, %xs'',
   Instruction ''vdiv.t'' 0x63808000 0xFF808080 ''%zt, %yt, %xt'',
   Instruction ''vdot.p'' 0x64800080 0xFF808080 ''%zs, %yp, %xp'',
   Instruction ''vdot.q'' 0x64808080 0xFF808080 ''%zs, %yq, %xq'',
   Instruction ''vdot.t'' 0x64808000 0xFF808080 ''%zs, %yt, %xt'',
   Instruction ''vexp2.p'' 0xD0140080 0xFFFF8080 ''%zp, %yp'',
   Instruction ''vexp2.q'' 0xD0148080 0xFFFF8080 ''%zq, %yq'',
   Instruction ''vexp2.s'' 0xD0140000 0xFFFF8080 ''%zs, %ys'',
   Instruction ''vexp2.t'' 0xD0148000 0xFFFF8080 ''%zt, %yt'',
   Instruction ''vf2h.p'' 0xD0320080 0xFFFF8080 ''%zp, %yp'',
   Instruction ''vf2h.q'' 0xD0328080 0xFFFF8080 ''%zq, %yq'',
   Instruction ''vf2id.p'' 0xD2600080 0xFFE08080 [],
   Instruction ''vf2id.q'' 0xD2608080 0xFFE08080 [],
   Instruction ''vf2id.s'' 0xD2600000 0xFFE08080 [],
   Instruction ''vf2id.t'' 0xD2608000 0xFFE08080 [],
   Instruction ''vf2in.p'' 0xD2000080 0xFFE08080 [],
   Instruction ''vf2in.q'' 0xD2008080 0xFFE08080 [],
   Instruction ''vf2in.s'' 0xD2000000 0xFFE08080 [],
   Instruction ''vf2in.t'' 0xD2008000 0xFFE08080 [],
   Instruction ''vf2iu.p'' 0xD2400080 0xFFE08080 [],
   Instruction ''vf2iu.q'' 0xD2408080 0xFFE08080 [],
   Instruction ''vf2iu.s'' 0xD2400000 0xFFE08080 [],
   Instruction ''vf2iu.t'' 0xD2408000 0xFFE08080 [],
   Instruction ''vf2iz.p'' 0xD2200080 0xFFE08080 [],
   Instruction ''vf2iz.q'' 0xD2208080 0xFFE08080 [],
   Instruction ''vf2iz.s'' 0xD2200000 0xFFE08080 [],
   Instruction ''vf2iz.t'' 0xD2208000 0xFFE08080 [],
   Instruction ''vfad.p'' 0xD0460080 0xFFFF8080 ''%zp, %yp'',
   Instruction ''vfad.q'' 0xD0468080 0xFFFF8080 ''%zq, %yq'',
   Instruction ''vfad.t'' 0xD0468000 0xFFFF8080 ''%zt, %yt'',
   Instruction ''vfim.s'' 0xDF800000 0xFF800000 [],
   Instruction ''vflush'' 0xFFFF040D 0xFFFFFFFF [],
   Instruction ''vh2f.p'' 0xD0330080 0xFFFF8080 ''%zp, %yp'',
   Instruction ''vh2f.s'' 0xD0330000 0xFFFF8080 ''%zs, %ys'',
   Instruction ''vhdp.p'' 0x66000080 0xFF808080 [],
   Instruction ''vhdp.q'' 0x66008080 0xFF808080 [],
   Instruction ''vhdp.t'' 0x66008000 0xFF808080 [],
   Instruction ''vhtfm2.p'' 0xF0800000 0xFF808080 [],
   Instruction ''vhtfm3.t'' 0xF1000080 0xFF808080 [],
   Instruction ''vhtfm4.q'' 0xF1808000 0xFF808080 [],
   Instruction ''vi2c.q'' 0xD03D8080 0xFFFF8080 [],
   Instruction ''vi2f.p'' 0xD2800080 0xFFE08080 [],
   Instruction ''vi2f.q'' 0xD2808080 0xFFE08080 [],
   Instruction ''vi2f.s'' 0xD2800000 0xFFE08080 [],
   Instruction ''vi2f.t'' 0xD2808000 0xFFE08080 [],
   Instruction ''vi2s.p'' 0xD03F0080 0xFFFF8080 [],
   Instruction ''vi2s.q'' 0xD03F8080 0xFFFF8080 [],
   Instruction ''vi2uc.q'' 0xD03C8080 0xFFFF8080 ''%zq, %yq'',
   Instruction ''vi2us.p'' 0xD03E0080 0xFFFF8080 ''%zq, %yq'',
   Instruction ''vi2us.q'' 0xD03E8080 0xFFFF8080 ''%zq, %yq'',
   Instruction ''vidt.p'' 0xD0030080 0xFFFFFF80 ''%zp'',
   Instruction ''vidt.q'' 0xD0038080 0xFFFFFF80 ''%zq'',
   Instruction ''viim.s'' 0xDF000000 0xFF800000 [],
   Instruction ''vlgb.s'' 0xD0370000 0xFFFF8080 ''%zs, %ys'',
   Instruction ''vlog2.p'' 0xD0150080 0xFFFF8080 ''%zp, %yp'',
   Instruction ''vlog2.q'' 0xD0158080 0xFFFF8080 ''%zq, %yq'',
   Instruction ''vlog2.s'' 0xD0150000 0xFFFF8080 ''%zs, %ys'',
   Instruction ''vlog2.t'' 0xD0158000 0xFFFF8080 ''%zt, %yt'',
   Instruction ''vmax.p'' 0x6D800080 0xFF808080 ''%zp, %yp, %xp'',
   Instruction ''vmax.q'' 0x6D808080 0xFF808080 ''%zq, %yq, %xq'',
   Instruction ''vmax.s'' 0x6D800000 0xFF808080 ''%zs, %ys, %xs'',
   Instruction ''vmax.t'' 0x6D808000 0xFF808080 ''%zt, %yt, %xt'',
   Instruction ''vmfvc'' 0xD0500000 0xFFFF0080 [],
   Instruction ''vmidt.p'' 0xF3830080 0xFFFFFF80 ''%zp'',
   Instruction ''vmidt.q'' 0xF3838080 0xFFFFFF80 ''%zq'',
   Instruction ''vmidt.t'' 0xF3838000 0xFFFFFF80 ''%zt'',
   Instruction ''vmin.p'' 0x6D000080 0xFF808080 ''%zp, %yp, %xp'',
   Instruction ''vmin.q'' 0x6D008080 0xFF808080 ''%zq, %yq, %xq'',
   Instruction ''vmin.s'' 0x6D000000 0xFF808080 ''%zs, %ys, %xs'',
   Instruction ''vmin.t'' 0x6D008000 0xFF808080 ''%zt, %yt, %xt'',
   Instruction ''vmmov.p'' 0xF3800080 0xFFFF8080 [],
   Instruction ''vmmov.q'' 0xF3808080 0xFFFF8080 ''%zo, %yo'']"

definition inst_vpu2 :: "Instruction list" where
  "inst_vpu2 = [
   Instruction ''vmmov.t'' 0xF3808000 0xFFFF8080 [],
   Instruction ''vmmul.p'' 0xF0000080 0xFF808080 [],
   Instruction ''vmmul.q'' 0xF0008080 0xFF808080 ''%?%zo, %yo, %xo'',
   Instruction ''vmmul.t'' 0xF0008000 0xFF808080 [],
   Instruction ''vmone.p'' 0xF3870080 0xFFFFFF80 ''%zp'',
   Instruction ''vmone.q'' 0xF3878080 0xFFFFFF80 ''%zq'',
   Instruction ''vmone.t'' 0xF3878000 0xFFFFFF80 ''%zt'',
   Instruction ''vmov.p'' 0xD0000080 0xFFFF8080 ''%zp, %yp'',
   Instruction ''vmov.q'' 0xD0008080 0xFFFF8080 ''%zq, %yq'',
   Instruction ''vmov.s'' 0xD0000000 0xFFFF8080 ''%zs, %ys'',
   Instruction ''vmov.t'' 0xD0008000 0xFFFF8080 ''%zt, %yt'',
   Instruction ''vmscl.p'' 0xF2000080 0xFF808080 ''%zp, %yp, %xp'',
   Instruction ''vmscl.q'' 0xF2008080 0xFF808080 ''%zq, %yq, %xq'',
   Instruction ''vmscl.t'' 0xF2008000 0xFF808080 ''%zt, %yt, %xt'',
   Instruction ''vmtvc'' 0xD0510000 0xFFFF8000 [],
   Instruction ''vmul.p'' 0x64000080 0xFF808080 ''%zp, %yp, %xp'',
   Instruction ''vmul.q'' 0x64008080 0xFF808080 ''%zq, %yq, %xq'',
   Instruction ''vmul.s'' 0x64000000 0xFF808080 ''%zs, %ys, %xs'',
   Instruction ''vmul.t'' 0x64008000 0xFF808080 ''%zt, %yt, %xt'',
   Instruction ''vmzero.p'' 0xF3860080 0xFFFFFF80 ''%zp'',
   Instruction ''vmzero.q'' 0xF3868080 0xFFFFFF80 ''%zq'',
   Instruction ''vmzero.t'' 0xF3868000 0xFFFFFF80 ''%zt'',
   Instruction ''vneg.p'' 0xD0020080 0xFFFF8080 ''%zp, %yp'',
   Instruction ''vneg.q'' 0xD0028080 0xFFFF8080 ''%zq, %yq'',
   Instruction ''vneg.s'' 0xD0020000 0xFFFF8080 ''%zs, %ys'',
   Instruction ''vneg.t'' 0xD0028000 0xFFFF8080 ''%zt, %yt'',
   Instruction ''vnop'' 0xFFFF0000 0xFFFFFFFF [],
   Instruction ''vnrcp.p'' 0xD0180080 0xFFFF8080 ''%zp, %yp'',
   Instruction ''vnrcp.q'' 0xD0188080 0xFFFF8080 ''%zq, %yq'',
   Instruction ''vnrcp.s'' 0xD0180000 0xFFFF8080 ''%zs, %ys'',
   Instruction ''vnrcp.t'' 0xD0188000 0xFFFF8080 ''%zt, %yt'',
   Instruction ''vnsin.p'' 0xD01A0080 0xFFFF8080 ''%zp, %yp'',
   Instruction ''vnsin.q'' 0xD01A8080 0xFFFF8080 ''%zq, %yq'',
   Instruction ''vnsin.s'' 0xD01A0000 0xFFFF8080 ''%zs, %ys'',
   Instruction ''vnsin.t'' 0xD01A8000 0xFFFF8080 ''%zt, %yt'',
   Instruction ''vocp.p'' 0xD0440080 0xFFFF8080 ''%zp, %yp'',
   Instruction ''vocp.q'' 0xD0448080 0xFFFF8080 ''%zq, %yq'',
   Instruction ''vocp.s'' 0xD0440000 0xFFFF8080 ''%zs, %ys'',
   Instruction ''vocp.t'' 0xD0448000 0xFFFF8080 ''%zt, %yt'',
   Instruction ''vone.p'' 0xD0070080 0xFFFFFF80 ''%zp'',
   Instruction ''vone.q'' 0xD0078080 0xFFFFFF80 ''%zq'',
   Instruction ''vone.s'' 0xD0070000 0xFFFFFF80 ''%zs'',
   Instruction ''vone.t'' 0xD0078000 0xFFFFFF80 ''%zt'',
   Instruction ''vpfxd'' 0xDE000000 0xFF000000 [],
   Instruction ''vpfxs'' 0xDC000000 0xFF000000 [],
   Instruction ''vpfxt'' 0xDD000000 0xFF000000 [],
   Instruction ''vqmul.q'' 0xF2808080 0xFF808080 [],
   Instruction ''vrcp.p'' 0xD0100080 0xFFFF8080 ''%zp, %yp'',
   Instruction ''vrcp.q'' 0xD0108080 0xFFFF8080 ''%zq, %yq'',
   Instruction ''vrcp.s'' 0xD0100000 0xFFFF8080 ''%zs, %ys'',
   Instruction ''vrcp.t'' 0xD0108000 0xFFFF8080 ''%zt, %yt'',
   Instruction ''vrexp2.p'' 0xD01C0080 0xFFFF8080 ''%zp, %yp'',
   Instruction ''vrexp2.q'' 0xD01C8080 0xFFFF8080 ''%zq, %yq'',
   Instruction ''vrexp2.s'' 0xD01C0000 0xFFFF8080 ''%zs, %ys'',
   Instruction ''vrexp2.t'' 0xD01C8000 0xFFFF8080 ''%zt, %yt'',
   Instruction ''vrndf1.p'' 0xD0220080 0xFFFFFF80 ''%zp'',
   Instruction ''vrndf1.q'' 0xD0228080 0xFFFFFF80 ''%zq'',
   Instruction ''vrndf1.s'' 0xD0220000 0xFFFFFF80 ''%zs'',
   Instruction ''vrndf1.t'' 0xD0228000 0xFFFFFF80 ''%zt'',
   Instruction ''vrndf2.p'' 0xD0230080 0xFFFFFF80 ''%zp'',
   Instruction ''vrndf2.q'' 0xD0238080 0xFFFFFF80 ''%zq'',
   Instruction ''vrndf2.s'' 0xD0230000 0xFFFFFF80 ''%zs'',
   Instruction ''vrndf2.t'' 0xD0238000 0xFFFFFF80 ''%zt'',
   Instruction ''vrndi.p'' 0xD0210080 0xFFFFFF80 ''%zp'',
   Instruction ''vrndi.q'' 0xD0218080 0xFFFFFF80 ''%zq'',
   Instruction ''vrndi.s'' 0xD0210000 0xFFFFFF80 ''%zs'',
   Instruction ''vrndi.t'' 0xD0218000 0xFFFFFF80 ''%zt'',
   Instruction ''vrnds.s'' 0xD0200000 0xFFFF80FF ''%ys'',
   Instruction ''vrot.p'' 0xF3A00080 0xFFE08080 [],
   Instruction ''vrot.q'' 0xF3A08080 0xFFE08080 [],
   Instruction ''vrot.t'' 0xF3A08000 0xFFE08080 [],
   Instruction ''vrsq.p'' 0xD0110080 0xFFFF8080 ''%zp, %yp'',
   Instruction ''vrsq.q'' 0xD0118080 0xFFFF8080 ''%zq, %yq'',
   Instruction ''vrsq.s'' 0xD0110000 0xFFFF8080 ''%zs, %ys'',
   Instruction ''vrsq.t'' 0xD0118000 0xFFFF8080 ''%zt, %yt'',
   Instruction ''vs2i.p'' 0xD03B0080 0xFFFF8080 ''%zp, %yp'',
   Instruction ''vs2i.s'' 0xD03B0000 0xFFFF8080 ''%zs, %ys'',
   Instruction ''vsat0.p'' 0xD0040080 0xFFFF8080 ''%zp, %yp'',
   Instruction ''vsat0.q'' 0xD0048080 0xFFFF8080 ''%zq, %yq'',
   Instruction ''vsat0.s'' 0xD0040000 0xFFFF8080 ''%zs, %ys'',
   Instruction ''vsat0.t'' 0xD0048000 0xFFFF8080 ''%zt, %yt'',
   Instruction ''vsat1.p'' 0xD0050080 0xFFFF8080 ''%zp, %yp'',
   Instruction ''vsat1.q'' 0xD0058080 0xFFFF8080 ''%zq, %yq'',
   Instruction ''vsat1.s'' 0xD0050000 0xFFFF8080 ''%zs, %ys'',
   Instruction ''vsat1.t'' 0xD0058000 0xFFFF8080 ''%zt, %yt'',
   Instruction ''vsbn.s'' 0x61000000 0xFF808080 ''%zs, %ys, %xs'',
   Instruction ''vsbz.s'' 0xD0360000 0xFFFF8080 ''%zs, %ys'',
   Instruction ''vscl.p'' 0x65000080 0xFF808080 ''%zp, %yp, %xp'',
   Instruction ''vscl.q'' 0x65008080 0xFF808080 ''%zq, %yq, %xq'',
   Instruction ''vscl.t'' 0x65008000 0xFF808080 ''%zt, %yt, %xt'',
   Instruction ''vscmp.p'' 0x6E800080 0xFF808080 ''%zp, %yp, %xp'',
   Instruction ''vscmp.q'' 0x6E808080 0xFF808080 ''%zq, %yq, %xq'',
   Instruction ''vscmp.s'' 0x6E800000 0xFF808080 ''%zs, %ys, %xs'',
   Instruction ''vscmp.t'' 0x6E808000 0xFF808080 ''%zt, %yt, %xt'',
   Instruction ''vsge.p'' 0x6F000080 0xFF808080 ''%zp, %yp, %xp'',
   Instruction ''vsge.q'' 0x6F008080 0xFF808080 ''%zq, %yq, %xq'',
   Instruction ''vsge.s'' 0x6F000000 0xFF808080 ''%zs, %ys, %xs'',
   Instruction ''vsge.t'' 0x6F008000 0xFF808080 ''%zt, %yt, %xt'',
   Instruction ''vsgn.p'' 0xD04A0080 0xFFFF8080 ''%zp, %yp'',
   Instruction ''vsgn.q'' 0xD04A8080 0xFFFF8080 ''%zq, %yq'',
   Instruction ''vsgn.s'' 0xD04A0000 0xFFFF8080 ''%zs, %ys'',
   Instruction ''vsgn.t'' 0xD04A8000 0xFFFF8080 ''%zt, %yt'',
   Instruction ''vsin.p'' 0xD0120080 0xFFFF8080 ''%zp, %yp'',
   Instruction ''vsin.q'' 0xD0128080 0xFFFF8080 ''%zq, %yq'',
   Instruction ''vsin.s'' 0xD0120000 0xFFFF8080 ''%zs, %ys'',
   Instruction ''vsin.t'' 0xD0128000 0xFFFF8080 ''%zt, %yt'',
   Instruction ''vslt.p'' 0x6F800080 0xFF808080 ''%zp, %yp, %xp'',
   Instruction ''vslt.q'' 0x6F808080 0xFF808080 ''%zq, %yq, %xq'',
   Instruction ''vslt.s'' 0x6F800000 0xFF808080 ''%zs, %ys, %xs'',
   Instruction ''vslt.t'' 0x6F808000 0xFF808080 ''%zt, %yt, %xt'',
   Instruction ''vsocp.p'' 0xD0450080 0xFFFF8080 ''%zp, %yp'',
   Instruction ''vsocp.s'' 0xD0450000 0xFFFF8080 ''%zs, %ys'',
   Instruction ''vsqrt.p'' 0xD0160080 0xFFFF8080 ''%zp, %yp'',
   Instruction ''vsqrt.q'' 0xD0168080 0xFFFF8080 ''%zq, %yq'',
   Instruction ''vsqrt.s'' 0xD0160000 0xFFFF8080 ''%zs, %ys'',
   Instruction ''vsqrt.t'' 0xD0168000 0xFFFF8080 ''%zt, %yt'',
   Instruction ''vsrt1.q'' 0xD0408080 0xFFFF8080 ''%zq, %yq'',
   Instruction ''vsrt2.q'' 0xD0418080 0xFFFF8080 ''%zq, %yq'',
   Instruction ''vsrt3.q'' 0xD0488080 0xFFFF8080 ''%zq, %yq'',
   Instruction ''vsrt4.q'' 0xD0498080 0xFFFF8080 ''%zq, %yq'',
   Instruction ''vsub.p'' 0x60800080 0xFF808080 ''%zp, %yp, %xp'',
   Instruction ''vsub.q'' 0x60808080 0xFF808080 ''%zq, %yq, %xq'',
   Instruction ''vsub.s'' 0x60800000 0xFF808080 ''%zs, %ys, %xs'',
   Instruction ''vsub.t'' 0x60808000 0xFF808080 ''%zt, %yt, %xt'',
   Instruction ''vsync'' 0xFFFF0000 0xFFFF0000 ''%I'',
   Instruction ''vsync'' 0xFFFF0320 0xFFFFFFFF [],
   Instruction ''vt4444.q'' 0xD0598080 0xFFFF8080 ''%zq, %yq'',
   Instruction ''vt5551.q'' 0xD05A8080 0xFFFF8080 ''%zq, %yq'',
   Instruction ''vt5650.q'' 0xD05B8080 0xFFFF8080 ''%zq, %yq'',
   Instruction ''vtfm2.p'' 0xF0800080 0xFF808080 [],
   Instruction ''vtfm3.t'' 0xF1008000 0xFF808080 [],
   Instruction ''vtfm4.q'' 0xF1808080 0xFF808080 [],
   Instruction ''vus2i.p'' 0xD03A0080 0xFFFF8080 [],
   Instruction ''vus2i.s'' 0xD03A0000 0xFFFF8080 [],
   Instruction ''vwb.q'' 0xF8000002 0xFC000002 [],
   Instruction ''vwbn.s'' 0xD3000000 0xFF008080 [],
   Instruction ''vzero.p'' 0xD0060080 0xFFFFFF80 ''%zp'',
   Instruction ''vzero.q'' 0xD0068080 0xFFFFFF80 ''%zq'',
   Instruction ''vzero.s'' 0xD0060000 0xFFFFFF80 ''%zs'',
   Instruction ''vzero.t'' 0xD0068000 0xFFFFFF80 ''%zt'']"

definition inst :: "Instruction list" where
  "inst = inst_mips @ inst_fpu @ inst_vpu1 @ inst_vpu2"

text \<open>The mnemonic names of the registers, \<open>regName\<close> of \<open>psplink/exception.c\<close>.\<close>

definition regName :: "string list" where
  "regName =
    [''zr'', ''at'', ''v0'', ''v1'', ''a0'', ''a1'', ''a2'', ''a3'',
     ''t0'', ''t1'', ''t2'', ''t3'', ''t4'', ''t5'', ''t6'', ''t7'',
     ''s0'', ''s1'', ''s2'', ''s3'', ''s4'', ''s5'', ''s6'', ''s7'',
     ''t8'', ''t9'', ''k0'', ''k1'', ''gp'', ''sp'', ''fp'', ''ra'']"

definition cop0_regs :: "string option list" where
  "cop0_regs =
    [None, None, None, None, None, None, None, None,
     Some ''BadVaddr'', Some ''Count'', None, Some ''Compare'', Some ''Status'', Some ''Cause'', Some ''EPC'', Some ''PrID'',
     Some ''Config'', None, None, None, None, None, None, None,
     None, Some ''EBase'', None, None, Some ''TagLo'', Some ''TagHi'', Some ''ErrorPC'', None]"

definition dr_regs :: "string option list" where
  "dr_regs =
    [Some ''DRCNTL'', Some ''DEPC'', Some ''DDATA0'', Some ''DDATA1'', Some ''IBC'', Some ''DBC'', None, None,
     Some ''IBA'', Some ''IBAM'', None, None, Some ''DBA'', Some ''DBAM'', Some ''DBD'', Some ''DBDM'']"

section \<open>Options\<close>

record disasm =
  g_hexints :: bool
  g_mregs :: bool
  g_symaddr :: bool
  g_macro :: bool
  g_printreal :: bool
  g_printregs :: bool
  g_symresolver :: "(u32 \<Rightarrow> string option) option"

definition disasm_start :: disasm where
  "disasm_start = \<lparr>g_hexints = False, g_mregs = False, g_symaddr = False, g_macro = False,
     g_printreal = False, g_printregs = False, g_symresolver = None\<rparr>"

definition disasmSetHexInts :: "bool \<Rightarrow> disasm \<Rightarrow> disasm" where
  "disasmSetHexInts v d = d\<lparr>g_hexints := v\<rparr>"

definition disasmSetMRegs :: "bool \<Rightarrow> disasm \<Rightarrow> disasm" where
  "disasmSetMRegs v d = d\<lparr>g_mregs := v\<rparr>"

definition disasmSetSymAddr :: "bool \<Rightarrow> disasm \<Rightarrow> disasm" where
  "disasmSetSymAddr v d = d\<lparr>g_symaddr := v\<rparr>"

definition disasmSetMacro :: "bool \<Rightarrow> disasm \<Rightarrow> disasm" where
  "disasmSetMacro v d = d\<lparr>g_macro := v\<rparr>"

definition disasmSetPrintReal :: "bool \<Rightarrow> disasm \<Rightarrow> disasm" where
  "disasmSetPrintReal v d = d\<lparr>g_printreal := v\<rparr>"

definition disasmSetSymResolver :: "(u32 \<Rightarrow> string option) option \<Rightarrow> disasm \<Rightarrow> disasm" where
  "disasmSetSymResolver r d = d\<lparr>g_symresolver := r\<rparr>"

text \<open>The table \<open>g_disopts\<close>: a letter, the flag it stands for and its name.\<close>

definition g_disopts :: "(char \<times> (bool \<Rightarrow> disasm \<Rightarrow> disasm) \<times> (disasm \<Rightarrow> bool) \<times> string) list" where
  "g_disopts =
    [(CHR ''x'', \<lambda>v. g_hexints_update (\<lambda>_. v), g_hexints, ''Hex Integers''),
     (CHR ''r'', \<lambda>v. g_mregs_update (\<lambda>_. v), g_mregs, ''Mnemonic Registers''),
     (CHR ''s'', \<lambda>v. g_symaddr_update (\<lambda>_. v), g_symaddr, ''Symbol Address''),
     (CHR ''m'', \<lambda>v. g_macro_update (\<lambda>_. v), g_macro, ''Macros''),
     (CHR ''p'', \<lambda>v. g_printreal_update (\<lambda>_. v), g_printreal, ''Print Real Address''),
     (CHR ''g'', \<lambda>v. g_printregs_update (\<lambda>_. v), g_printregs, ''Print Regs'')]"

definition disasmSetOpts :: "string \<Rightarrow> bool \<Rightarrow> disasm \<Rightarrow> disasm" where
  "disasmSetOpts opts v d =
     fold (\<lambda>ch d. case map_of g_disopts ch of None \<Rightarrow> d | Some (set_to, _) \<Rightarrow> set_to v d) opts d"

definition disasmPrintOpts :: "disasm \<Rightarrow> string list" where
  "disasmPrintOpts d =
     map (\<lambda>(ch, _, value_of, name). ch # '' : '' @ pad_right 3 (if value_of d then ''on'' else ''off'') @ '' - '' @ name @ '' '')
       g_disopts"

section \<open>Fields of an instruction\<close>

definition op_rt :: "u32 \<Rightarrow> nat" where "op_rt opcode = unat (drop_bit 16 opcode AND 0x1F)"
definition op_rs :: "u32 \<Rightarrow> nat" where "op_rs opcode = unat (drop_bit 21 opcode AND 0x1F)"
definition op_rd :: "u32 \<Rightarrow> nat" where "op_rd opcode = unat (drop_bit 11 opcode AND 0x1F)"
definition op_ft :: "u32 \<Rightarrow> nat" where "op_ft opcode = unat (drop_bit 16 opcode AND 0x1F)"
definition op_fs :: "u32 \<Rightarrow> nat" where "op_fs opcode = unat (drop_bit 11 opcode AND 0x1F)"
definition op_fd :: "u32 \<Rightarrow> nat" where "op_fd opcode = unat (drop_bit 6 opcode AND 0x1F)"
definition op_sa :: "u32 \<Rightarrow> nat" where "op_sa opcode = unat (drop_bit 6 opcode AND 0x1F)"
definition op_imm :: "u32 \<Rightarrow> u32" where "op_imm opcode = scast (ucast opcode :: 16 word)"
definition op_immu :: "u32 \<Rightarrow> u32" where "op_immu opcode = opcode AND 0xFFFF"
definition op_jump :: "u32 \<Rightarrow> u32 \<Rightarrow> u32" where
  "op_jump opcode pc = (pc AND 0xF0000000) OR push_bit 2 (opcode AND 0x3FFFFFF)"
definition op_code :: "u32 \<Rightarrow> u32" where "op_code opcode = drop_bit 6 opcode AND 0xFFFFF"
definition op_vo :: "u32 \<Rightarrow> u32" where
  "op_vo opcode = push_bit 5 (opcode AND 3) OR (drop_bit 16 opcode AND 0x1F)"
definition op_vcc :: "u32 \<Rightarrow> u32" where "op_vcc opcode = drop_bit 18 opcode AND 7"
definition op_vd :: "u32 \<Rightarrow> u32" where "op_vd opcode = opcode AND 0x7F"
definition op_vs :: "u32 \<Rightarrow> u32" where "op_vs opcode = drop_bit 8 opcode AND 0x7F"
definition op_vt :: "u32 \<Rightarrow> u32" where "op_vt opcode = drop_bit 16 opcode AND 0x7F"

section \<open>Printing operands\<close>

text \<open>What is printed, and the registers it names for \<open>g_regmask\<close>.\<close>

type_synonym out = "string \<times> u32"

definition text_out :: "string \<Rightarrow> out" where "text_out s = (s, 0)"

definition emit :: "out \<Rightarrow> out \<Rightarrow> out" where
  "emit a b = (fst a @ fst b, snd a OR snd b)"

definition print_cpureg :: "disasm \<Rightarrow> nat \<Rightarrow> out" where
  "print_cpureg d reg =
     (CHR ''$'' # (if \<not> g_mregs d then regName ! reg else pad_zero 2 (dec_nat reg)),
      if g_printregs d then push_bit reg 1 else 0)"

definition print_int :: "nat \<Rightarrow> string" where
  "print_int i = dec_nat i"

definition print_hex :: "u32 \<Rightarrow> string" where
  "print_hex i = ''0x'' @ hex_upper (unat i)"

definition hex4 :: "u32 \<Rightarrow> string" where
  "hex4 ofs = ''0x'' @ pad_zero 4 (hex_upper (unat (ofs AND 0xFFFF)))"

definition print_imm :: "disasm \<Rightarrow> u32 \<Rightarrow> string" where
  "print_imm d ofs = (if g_hexints d then hex4 ofs else dec_int (sint ofs))"

definition print_jump :: "disasm \<Rightarrow> u32 \<Rightarrow> string" where
  "print_jump d addr =
     (case g_symresolver d of
        None \<Rightarrow> print_word addr
      | Some r \<Rightarrow> (case r addr of None \<Rightarrow> print_word addr | Some symbol \<Rightarrow> symbol))"

definition print_ofs :: "disasm \<Rightarrow> u32 list option \<Rightarrow> u32 \<Rightarrow> nat \<Rightarrow> out" where
  "print_ofs d realregs ofs reg =
     (case (g_printreal d, realregs) of
        (True, Some rs) \<Rightarrow> text_out (print_jump d (rs ! reg + ofs))
      | _ \<Rightarrow> emit (text_out ((if g_hexints d then hex4 ofs else dec_int (sint ofs)) @ ''(''))
               (emit (print_cpureg d reg) (text_out '')'')))"

definition print_pcofs :: "disasm \<Rightarrow> u32 \<Rightarrow> u32 \<Rightarrow> string" where
  "print_pcofs d ofs PC = print_jump d (PC + (ofs + 1) * 4)"

definition print_jumpr :: "disasm \<Rightarrow> u32 list option \<Rightarrow> nat \<Rightarrow> out" where
  "print_jumpr d realregs reg =
     (case (g_printreal d, realregs) of
        (True, Some rs) \<Rightarrow> text_out (print_jump d (rs ! reg))
      | _ \<Rightarrow> print_cpureg d reg)"

definition print_syscall :: "u32 \<Rightarrow> string" where
  "print_syscall n = ''0x'' @ hex_upper (unat n)"

definition print_cop0 :: "nat \<Rightarrow> string" where
  "print_cop0 reg = (case cop0_regs ! reg of Some n \<Rightarrow> n | None \<Rightarrow> CHR ''$'' # dec_nat reg)"

definition print_cop1 :: "nat \<Rightarrow> string" where
  "print_cop1 reg = ''$fcr'' @ dec_nat reg"

definition print_fpureg :: "nat \<Rightarrow> string" where
  "print_fpureg reg = ''$fpr'' @ pad_zero 2 (dec_nat reg)"

definition print_debugreg :: "nat \<Rightarrow> string" where
  "print_debugreg reg =
     (case (if reg < 16 then dr_regs ! reg else None) of
        Some n \<Rightarrow> n
      | None \<Rightarrow> CHR ''$'' # pad_zero 2 (dec_nat reg) @ [CHR 0x0A])"

definition print_vfpusingle :: "u32 \<Rightarrow> string" where
  "print_vfpusingle reg =
     CHR ''S'' # dec_nat (unat (drop_bit 2 reg AND 7)) @ dec_nat (unat (reg AND 3)) @ dec_nat (unat (drop_bit 5 reg AND 3))"

definition print_vfpu_reg :: "u32 \<Rightarrow> nat \<Rightarrow> char \<Rightarrow> char \<Rightarrow> string" where
  "print_vfpu_reg reg offset one two =
     (let m = dec_nat (unat (drop_bit 2 reg AND 7)); n = dec_nat (unat (reg AND 3))
      in if drop_bit 5 reg AND 1 \<noteq> 0 then two # m @ dec_nat offset @ n else one # m @ n @ dec_nat offset)"

definition print_vfpuquad :: "u32 \<Rightarrow> string" where
  "print_vfpuquad reg = print_vfpu_reg reg 0 CHR ''C'' CHR ''R''"

definition print_vfpupair :: "u32 \<Rightarrow> string" where
  "print_vfpupair reg = print_vfpu_reg reg (if drop_bit 6 reg AND 1 \<noteq> 0 then 2 else 0) CHR ''C'' CHR ''R''"

definition print_vfputriple :: "u32 \<Rightarrow> string" where
  "print_vfputriple reg = print_vfpu_reg reg (if drop_bit 6 reg AND 1 \<noteq> 0 then 1 else 0) CHR ''C'' CHR ''R''"

definition print_vfpumpair :: "u32 \<Rightarrow> string" where
  "print_vfpumpair reg = print_vfpu_reg reg (if drop_bit 6 reg AND 1 \<noteq> 0 then 2 else 0) CHR ''M'' CHR ''E''"

definition print_vfpumtriple :: "u32 \<Rightarrow> string" where
  "print_vfpumtriple reg = print_vfpu_reg reg (if drop_bit 6 reg AND 1 \<noteq> 0 then 1 else 0) CHR ''M'' CHR ''E''"

definition print_vfpumatrix :: "u32 \<Rightarrow> string" where
  "print_vfpumatrix reg = print_vfpu_reg reg 0 CHR ''M'' CHR ''E''"

definition print_vfpureg :: "u32 \<Rightarrow> char \<Rightarrow> string" where
  "print_vfpureg reg t =
     (if t = CHR ''s'' then print_vfpusingle reg
      else if t = CHR ''q'' then print_vfpuquad reg
      else if t = CHR ''p'' then print_vfpupair reg
      else if t = CHR ''t'' then print_vfputriple reg
      else if t = CHR ''m'' then print_vfpumpair reg
      else if t = CHR ''n'' then print_vfpumtriple reg
      else if t = CHR ''o'' then print_vfpumatrix reg
      else [])"

section \<open>Decoding the format of an entry\<close>

text \<open>The formats of one letter.\<close>

definition print_arg :: "disasm \<Rightarrow> u32 list option \<Rightarrow> u32 \<Rightarrow> u32 \<Rightarrow> char \<Rightarrow> out" where
  "print_arg d realregs opcode PC f =
     (if f = CHR ''d'' then print_cpureg d (op_rd opcode)
      else if f = CHR ''t'' then print_cpureg d (op_rt opcode)
      else if f = CHR ''s'' then print_cpureg d (op_rs opcode)
      else if f = CHR ''i'' then text_out (print_imm d (op_imm opcode))
      else if f = CHR ''I'' then text_out (print_hex (op_immu opcode))
      else if f = CHR ''o'' then print_ofs d realregs (op_imm opcode) (op_rs opcode)
      else if f = CHR ''O'' then text_out (print_pcofs d (op_imm opcode) PC)
      else if f = CHR ''V'' then print_ofs d realregs (op_imm opcode) (op_rs opcode)
      else if f = CHR ''j'' then text_out (print_jump d (op_jump opcode PC))
      else if f = CHR ''J'' then print_jumpr d realregs (op_rs opcode)
      else if f = CHR ''a'' then text_out (print_int (op_sa opcode))
      else if f = CHR ''0'' then text_out (print_cop0 (op_rd opcode))
      else if f = CHR ''1'' then text_out (print_cop1 (op_rd opcode))
      else if f = CHR ''p'' then text_out (CHR ''$'' # print_int (op_rd opcode))
      else if f = CHR ''k'' then text_out (print_hex (of_nat (op_rt opcode)))
      else if f = CHR ''D'' then text_out (print_fpureg (op_fd opcode))
      else if f = CHR ''T'' then text_out (print_fpureg (op_ft opcode))
      else if f = CHR ''S'' then text_out (print_fpureg (op_fs opcode))
      else if f = CHR ''r'' then text_out (print_debugreg (op_rd opcode))
      else if f = CHR ''n'' then text_out (print_int (op_rd opcode + 1))
      else if f = CHR ''Z'' then text_out (print_imm d (op_vcc opcode))
      else if f = CHR ''c'' then text_out (print_hex (op_code opcode))
      else if f = CHR ''C'' then text_out (print_syscall (op_code opcode))
      else if f = CHR ''Y'' then print_ofs d realregs (op_imm opcode AND NOT 3) (op_rs opcode)
      else text_out [])"

text \<open>The vector registers, whose format has a second letter; \<open>vmmul\<close> flips the transposition of the source.\<close>

definition vector_reg :: "u32 \<Rightarrow> bool \<Rightarrow> char \<Rightarrow> u32 option" where
  "vector_reg opcode vmmul f =
     (if f = CHR ''x'' then Some (op_vt opcode)
      else if f = CHR ''y'' then
        (let reg = op_vs opcode
         in Some (if vmmul then (if reg AND 0x20 \<noteq> 0 then reg AND 0x5F else reg OR 0x20) else reg))
      else if f = CHR ''z'' then Some (op_vd opcode)
      else if f = CHR ''X'' then Some (op_vo opcode)
      else None)"

fun decode_args :: "disasm \<Rightarrow> u32 list option \<Rightarrow> u32 \<Rightarrow> u32 \<Rightarrow> bool \<Rightarrow> string \<Rightarrow> out" where
  "decode_args d realregs opcode PC vmmul [] = text_out []"
| "decode_args d realregs opcode PC vmmul (c # fmt) =
     (if c \<noteq> CHR ''%'' then emit (text_out [c]) (decode_args d realregs opcode PC vmmul fmt)
      else case fmt of
             [] \<Rightarrow> text_out []
           | f # fmt' \<Rightarrow>
              (case vector_reg opcode vmmul f of
                 Some reg \<Rightarrow>
                   (case fmt' of
                      [] \<Rightarrow> text_out []
                    | t # fmt'' \<Rightarrow> emit (text_out (print_vfpureg reg t)) (decode_args d realregs opcode PC vmmul fmt''))
               | None \<Rightarrow>
                   emit (print_arg d realregs opcode PC f)
                     (decode_args d realregs opcode PC (vmmul \<or> f = CHR ''?'') fmt')))"

section \<open>The line of an instruction\<close>

text \<open>The loops over the tables do not stop at a match: the last one counts.\<close>

definition matches :: "u32 \<Rightarrow> Instruction \<Rightarrow> bool" where
  "matches opcode i \<longleftrightarrow> opcode AND i_mask i = i_opcode i"

definition find_inst :: "u32 \<Rightarrow> Instruction list \<Rightarrow> Instruction option" where
  "find_inst opcode tbl = fold (\<lambda>i ix. if matches opcode i then Some i else ix) tbl None"

definition select_inst :: "disasm \<Rightarrow> u32 \<Rightarrow> Instruction option" where
  "select_inst d opcode =
     (case (if g_macro d then None else find_inst opcode macro) of
        Some i \<Rightarrow> Some i
      | None \<Rightarrow> find_inst opcode inst)"

definition line_addr :: "disasm \<Rightarrow> u32 \<Rightarrow> string" where
  "line_addr d PC =
     (case g_symresolver d of
        Some r \<Rightarrow> (if g_symaddr d then case r PC of Some t \<Rightarrow> pad_right 20 t | None \<Rightarrow> print_word PC else print_word PC)
      | None \<Rightarrow> print_word PC)"

text \<open>The line, and the mask of registers when an entry was found.\<close>

definition disasmInstruction :: "disasm \<Rightarrow> u32 \<Rightarrow> u32 \<Rightarrow> u32 list option \<Rightarrow> string \<times> u32 option" where
  "disasmInstruction d opcode PC realregs =
     (let start = line_addr d PC @ '': '' @ pad_zero 8 (hex_upper (unat opcode)) @ '' - ''
      in case select_inst d opcode of
           None \<Rightarrow> (start @ ''Unknown'', None)
         | Some i \<Rightarrow>
             (let (args, regmask) = decode_args d realregs opcode PC False (i_fmt i)
              in (start @ pad_right 10 (i_name i) @ '' '' @ args, Some regmask)))"

text \<open>The resolver installed by \<open>psplink/main.c\<close>; names come in buffers of 128 bytes.\<close>

definition sym_resolver :: "(u32 \<Rightarrow> mod_info option) \<Rightarrow> symbols \<Rightarrow> u32 \<Rightarrow> string option" where
  "sym_resolver by_addr s addr = symbolFindNameByAddressEx by_addr s addr 128"

section \<open>The buffers are long enough\<close>

text \<open>Names of symbols are of at most 110 characters here; the longest operand that is none has 13.\<close>

abbreviation SYM_MAX :: nat where "SYM_MAX \<equiv> 110"

definition names_short :: "disasm \<Rightarrow> bool" where
  "names_short d \<longleftrightarrow> (\<forall>r addr t. g_symresolver d = Some r \<longrightarrow> r addr = Some t \<longrightarrow> length t \<le> SYM_MAX)"

definition arg_bound :: "char \<Rightarrow> nat" where
  "arg_bound f =
     (if f \<in> set ''dtspna'' then 3
      else if f \<in> set ''oOVjJY'' then SYM_MAX
      else if f \<in> set ''iI1kDTSrZcC0'' then 8
      else 0)"

fun fmt_bound :: "string \<Rightarrow> nat" where
  "fmt_bound [] = 0"
| "fmt_bound (c # fmt) =
     (if c \<noteq> CHR ''%'' then fmt_bound fmt + 1
      else case fmt of
             [] \<Rightarrow> 0
           | f # fmt' \<Rightarrow>
              (if f \<in> set ''xyzX''
               then case fmt' of [] \<Rightarrow> 0 | t # fmt'' \<Rightarrow> fmt_bound fmt'' + 4
               else fmt_bound fmt' + arg_bound f))"

lemma unat_and_le: "unat (x AND y :: u32) \<le> unat y"
  using word_and_le1 [of x y] by (simp add: word_le_nat_alt)

lemma op_field_bounds [simp]:
  "op_rt opcode < 32" "op_rs opcode < 32" "op_rd opcode < 32" "op_ft opcode < 32" "op_fs opcode < 32"
  "op_fd opcode < 32" "op_sa opcode < 32" "op_rd opcode < 100" "op_rt opcode < 100" "op_rs opcode < 100"
  using unat_and_le [of "drop_bit 16 opcode" "0x1F"] unat_and_le [of "drop_bit 21 opcode" "0x1F"]
    unat_and_le [of "drop_bit 11 opcode" "0x1F"] unat_and_le [of "drop_bit 6 opcode" "0x1F"]
  by (simp_all add: op_rt_def op_rs_def op_rd_def op_ft_def op_fs_def op_fd_def op_sa_def)

lemma length_regName: "reg < 32 \<Longrightarrow> length (regName ! reg) = 2"
proof -
  have "list_all (\<lambda>s. length s = 2) regName" "length regName = 32" by (simp_all add: regName_def)
  then show "reg < 32 \<Longrightarrow> length (regName ! reg) = 2" by (simp add: list_all_length)
qed

lemma length_cop0: "reg < 32 \<Longrightarrow> pred_option (\<lambda>s. length s \<le> 8) (cop0_regs ! reg)"
proof -
  have "list_all (pred_option (\<lambda>s. length s \<le> 8)) cop0_regs" "length cop0_regs = 32" by (simp_all add: cop0_regs_def)
  then show "reg < 32 \<Longrightarrow> pred_option (\<lambda>s. length s \<le> 8) (cop0_regs ! reg)" by (simp add: list_all_length)
qed

lemma length_dr: "reg < 16 \<Longrightarrow> pred_option (\<lambda>s. length s \<le> 8) (dr_regs ! reg)"
proof -
  have "list_all (pred_option (\<lambda>s. length s \<le> 8)) dr_regs" "length dr_regs = 16" by (simp_all add: dr_regs_def)
  then show "reg < 16 \<Longrightarrow> pred_option (\<lambda>s. length s \<le> 8) (dr_regs ! reg)" by (simp add: list_all_length)
qed

lemma length_dec_small: "n < 100 \<Longrightarrow> length (dec_nat n) \<le> 2" "n < 10 \<Longrightarrow> length (dec_nat n) \<le> 1"
  using length_dec_nat [of n 2] length_dec_nat [of n 1] by simp_all

lemma length_fst_emit [simp]: "length (fst (emit a b)) = length (fst a) + length (fst b)"
  by (simp add: emit_def)

lemma fst_text_out [simp]: "fst (text_out s) = s"
  by (simp add: text_out_def)

lemma length_print_cpureg: "reg < 32 \<Longrightarrow> length (fst (print_cpureg d reg)) = 3"
  using length_dec_small(1) [of reg] by (simp add: print_cpureg_def length_regName length_pad_zero)

lemma length_print_jump: "names_short d \<Longrightarrow> length (print_jump d addr) \<le> SYM_MAX"
  by (auto simp: print_jump_def names_short_def split: option.split)

lemma sint_scast_16: "\<bar>sint (scast (x :: 16 word) :: u32)\<bar> \<le> 32768"
proof -
  have "sint (scast x :: u32) = sint x" by (simp add: sint_up_scast is_up)
  moreover have "- 32768 \<le> sint x" "sint x < 32768"
    using sint_ge [of x] sint_lt [of x] by simp_all
  ultimately show ?thesis by linarith
qed

lemma length_hex4: "length (hex4 ofs) = 6"
proof -
  have "unat (ofs AND 0xFFFF) < 16 ^ 4" using unat_and_le [of ofs "0xFFFF"] by simp
  from length_hex_upper [OF this] show ?thesis by (simp add: hex4_def length_pad_zero)
qed

lemma length_dec_offset: "\<bar>sint ofs\<bar> \<le> 32771 \<Longrightarrow> length (dec_int (sint ofs)) \<le> 6"
  using length_dec_int [of "sint ofs" 5] by simp

lemma length_print_ofs:
  assumes "names_short d" "\<bar>sint ofs\<bar> \<le> 32771" "reg < 32"
  shows "length (fst (print_ofs d realregs ofs reg)) \<le> SYM_MAX"
proof -
  have a: "length (if g_hexints d then hex4 ofs else dec_int (sint ofs)) \<le> 6"
    using length_hex4 [of ofs] length_dec_offset [OF assms(2)] by simp
  then show ?thesis
    using length_print_jump [OF assms(1)] length_print_cpureg [OF assms(3)]
    by (auto simp: print_ofs_def split: bool.split option.split if_splits)
qed

lemma sint_op_imm: "\<bar>sint (op_imm opcode)\<bar> \<le> 32771" "\<bar>sint (op_imm opcode AND NOT 3)\<bar> \<le> 32771"
proof -
  show "\<bar>sint (op_imm opcode)\<bar> \<le> 32771" using sint_scast_16 [of "ucast opcode"] by (simp add: op_imm_def)
  have masks: "(3 :: u32) = Bit_Operations.mask 2" "(3 :: 16 word) = Bit_Operations.mask 2"
    by (simp_all add: mask_eq_exp_minus_1)
  have "op_imm opcode AND NOT 3 = scast ((ucast opcode :: 16 word) AND NOT 3)"
    unfolding op_imm_def masks by (rule bit_word_eqI) (auto simp: bit_simps)
  then show "\<bar>sint (op_imm opcode AND NOT 3)\<bar> \<le> 32771"
    using sint_scast_16 [of "ucast opcode AND NOT 3"] by simp
qed

lemma length_print_imm: "\<bar>sint ofs\<bar> \<le> 32771 \<Longrightarrow> length (print_imm d ofs) \<le> 8"
  using length_hex4 [of ofs] length_dec_offset [of ofs] by (simp add: print_imm_def)

lemma length_print_hex: "unat v < 16 ^ 6 \<Longrightarrow> length (print_hex v) \<le> 8"
  using length_hex_upper [of "unat v" 6] by (simp add: print_hex_def)

lemma small_fields:
  "unat (op_immu opcode) < 16 ^ 6" "unat (op_code opcode) < 16 ^ 6" "\<bar>sint (op_vcc opcode)\<bar> \<le> 32771"
proof -
  show "unat (op_immu opcode) < 16 ^ 6" "unat (op_code opcode) < 16 ^ 6"
    using unat_and_le [of opcode "0xFFFF"] unat_and_le [of "drop_bit 6 opcode" "0xFFFFF"]
    by (simp_all add: op_immu_def op_code_def)
  have "op_vcc opcode \<le> 7" unfolding op_vcc_def by (rule word_and_le1)
  then have "uint (op_vcc opcode) \<le> 7" by (simp add: word_le_def)
  moreover from this have "sint (op_vcc opcode) = uint (op_vcc opcode)"
    using sint_of_length [of "unat (op_vcc opcode)"] by simp
  ultimately show "\<bar>sint (op_vcc opcode)\<bar> \<le> 32771" by simp
qed

lemma length_vfpureg: "length (print_vfpureg reg t) \<le> 4"
proof -
  have d: "length (dec_nat n) = 1" if "n < 10" for n
    using length_dec_small(2) [OF that] by (cases "dec_nat n") (auto simp: dec_nat_def)
  have "unat (drop_bit 2 reg AND 7) < 10" "unat (reg AND 3) < 10" "unat (drop_bit 5 reg AND 3) < 10"
    using unat_and_le [of "drop_bit 2 reg" 7] unat_and_le [of reg 3] unat_and_le [of "drop_bit 5 reg" 3] by simp_all
  note ds = this [THEN d]
  have "length (print_vfpu_reg reg k a b) = 4" if "k < 10" for k a b
    using ds d [OF that] by (simp add: print_vfpu_reg_def Let_def)
  then show ?thesis using ds
    by (simp add: print_vfpureg_def print_vfpusingle_def print_vfpuquad_def print_vfpupair_def print_vfputriple_def
        print_vfpumpair_def print_vfpumtriple_def print_vfpumatrix_def)
qed

lemma length_names:
  assumes "reg < 32"
  shows "length (print_cop0 reg) \<le> 8" "length (print_cop1 reg) \<le> 8" "length (print_fpureg reg) \<le> 8"
    "length (print_debugreg reg) \<le> 8" "length (print_int reg) \<le> 2" "length (print_int (Suc reg)) \<le> 2"
    "length (print_int reg) \<le> 3" "length (print_int (Suc reg)) \<le> 3"
  using assms length_cop0 [OF assms] length_dr [of reg] length_dec_small(1) [of reg] length_dec_small(1) [of "Suc reg"]
  by (auto simp: print_cop0_def print_cop1_def print_fpureg_def print_debugreg_def print_int_def length_pad_zero
      split: option.split)

lemma length_print_arg:
  assumes "names_short d"
  shows "length (fst (print_arg d realregs opcode PC f)) \<le> arg_bound f"
proof -
  have jr: "length (fst (print_jumpr d realregs (op_rs opcode))) \<le> SYM_MAX"
    using length_print_jump [OF assms] length_print_cpureg [of "op_rs opcode" d]
    by (auto simp: print_jumpr_def split: bool.split option.split)
  have k: "unat (of_nat (op_rt opcode) :: u32) < 16 ^ 6"
  proof -
    have "op_rt opcode < 2 ^ 32" by (rule less_trans [OF op_field_bounds(1)]) simp
    then have "take_bit 32 (op_rt opcode) = op_rt opcode" by (rule take_bit_nat_eq_self)
    moreover have "op_rt opcode < 16 ^ 6" by (rule less_trans [OF op_field_bounds(1)]) simp
    ultimately show ?thesis by (simp add: unsigned_of_nat)
  qed
  have p: "length (print_pcofs d (op_imm opcode) PC) \<le> SYM_MAX"
    using length_print_jump [OF assms] by (simp add: print_pcofs_def)
  have c: "length (print_syscall (op_code opcode)) \<le> 8"
    using length_print_hex [OF small_fields(2)] by (simp add: print_syscall_def print_hex_def)
  note facts = jr p c length_print_hex [OF k] length_print_hex [OF small_fields(1)] length_print_hex [OF small_fields(2)]
    length_print_imm [OF small_fields(3)] length_print_imm [OF sint_op_imm(1)] length_print_jump [OF assms]
    length_print_ofs [OF assms sint_op_imm(1)] length_print_ofs [OF assms sint_op_imm(2), simplified] length_print_cpureg
    length_names [OF op_field_bounds(3)] length_names [OF op_field_bounds(7)] length_names [OF op_field_bounds(4)]
    length_names [OF op_field_bounds(5)] length_names [OF op_field_bounds(6)]
  show ?thesis
  proof (cases "f \<in> set ''dtsiIoOVjJa01pkDTSrnZcCY''")
    case True
    then show ?thesis
      by (simp only: list.set insert_iff empty_iff simp_thms, elim disjE)
        (simp_all add: print_arg_def arg_bound_def facts)
  next
    case False
    then show ?thesis by (simp add: print_arg_def)
  qed
qed

lemma vector_reg_None: "vector_reg opcode vmmul f = None \<longleftrightarrow> f \<notin> set ''xyzX''"
  by (simp add: vector_reg_def Let_def)

lemma length_decode_args:
  "names_short d \<Longrightarrow> length (fst (decode_args d realregs opcode PC vmmul fmt)) \<le> fmt_bound fmt"
proof (induction d realregs opcode PC vmmul fmt rule: decode_args.induct)
  case (2 d realregs opcode PC vmmul c fmt)
  show ?case
  proof (cases "c = CHR ''%''")
    case False
    then show ?thesis using "2.IH"(1) "2.prems" by simp
  next
    case True
    show ?thesis
    proof (cases fmt)
      case (Cons f fmt')
      show ?thesis
      proof (cases "vector_reg opcode vmmul f")
        case None
        then have v: "f \<notin> set ''xyzX''" by (simp only: vector_reg_None not_False_eq_True)
        have "decode_args d realregs opcode PC vmmul (c # fmt) = emit (print_arg d realregs opcode PC f)
            (decode_args d realregs opcode PC (vmmul \<or> f = CHR ''?'') fmt')"
          using True Cons None by simp
        then show ?thesis
          using True Cons v None "2.IH"(2) [of f fmt'] "2.prems" length_print_arg [of d realregs opcode PC f]
          by (simp del: decode_args.simps)
      next
        case (Some reg)
        then have v: "f \<in> set ''xyzX''" using vector_reg_None [of opcode vmmul f] by auto
        show ?thesis
        proof (cases fmt')
          case (Cons t fmt'')
          with True \<open>fmt = f # fmt'\<close> Some v "2.IH"(3) [of f fmt' reg t fmt''] "2.prems" length_vfpureg [of reg t]
          show ?thesis by simp
        qed (use True Cons Some v in simp)
      qed
    qed (use True in simp)
  qed
qed simp

text \<open>Every entry of the tables prints at most 120 characters of operands; its name has at most 10.\<close>

definition entry_fits_line :: "Instruction \<Rightarrow> bool" where
  "entry_fits_line i \<longleftrightarrow> fmt_bound (i_fmt i) \<le> 120 \<and> length (i_name i) \<le> 10"

lemma fmt_bounds:
  "list_all entry_fits_line macro" "list_all entry_fits_line inst_mips"
  "list_all entry_fits_line inst_fpu" "list_all entry_fits_line inst_vpu1" "list_all entry_fits_line inst_vpu2"
  unfolding macro_def inst_mips_def inst_fpu_def inst_vpu1_def inst_vpu2_def
  by (simp_all add: entry_fits_line_def arg_bound_def)

lemma find_inst_find: "find_inst opcode tbl = List.find (matches opcode) (rev tbl)"
  by (induction tbl rule: rev_induct) (simp_all add: find_inst_def)

lemma select_inst_Some:
  assumes "select_inst d opcode = Some i"
  shows "i \<in> set (macro @ inst)" "matches opcode i"
proof -
  have "i \<in> set tbl \<and> matches opcode i" if "find_inst opcode tbl = Some i" for tbl
    using that by (auto simp: find_inst_find find_Some_iff in_set_conv_nth rev_nth)
      (metis diff_less length_greater_0_conv list.size(3) not_less_zero zero_less_Suc)
  then show "i \<in> set (macro @ inst)" "matches opcode i"
    using assms by (auto simp: select_inst_def split: option.splits if_splits)
qed

lemma select_inst_fits: "select_inst d opcode = Some i \<Longrightarrow> entry_fits_line i"
  using select_inst_Some(1) [of d opcode i] fmt_bounds by (auto simp: inst_def list_all_iff)

text \<open>
  The disassembler stays in its buffers. If the resolver's names have at most 110 characters, the
  operands of any instruction, at any address, with any options and registers, fit in \<open>args[128]\<close>, and
  the whole line fits in \<open>code[256]\<close>, with their terminating NUL.
\<close>

theorem disasm_fits:
  assumes "names_short d"
  shows "pred_option (\<lambda>i. length (fst (decode_args d realregs opcode PC False (i_fmt i))) < 128) (select_inst d opcode) \<and>
    length (fst (disasmInstruction d opcode PC realregs)) < 256"
proof -
  have a: "length (line_addr d PC) \<le> SYM_MAX"
    using assms by (auto simp: line_addr_def names_short_def length_pad_right split: option.split)
  have o: "length (pad_zero 8 (hex_upper (unat opcode))) = 8"
    using length_hex_upper [OF unat_less_16_8] by (simp add: length_pad_zero)
  show ?thesis
  proof (cases "select_inst d opcode")
    case None
    then show ?thesis using a o by (simp add: disasmInstruction_def Let_def)
  next
    case (Some i)
    have "length (fst (decode_args d realregs opcode PC False (i_fmt i))) \<le> 120" "length (i_name i) \<le> 10"
      using select_inst_fits [OF Some] length_decode_args [OF assms, of realregs opcode PC False "i_fmt i"]
      by (auto simp: entry_fits_line_def)
    then show ?thesis using Some a o
      by (auto simp: disasmInstruction_def Let_def length_pad_right split: prod.split)
  qed
qed

theorem disasm_fits_witness:
  "pred_option (\<lambda>i. length (fst (decode_args disasm_start None 0x27BDFFF0 0x08804000 False (i_fmt i))) < 128)
      (select_inst disasm_start 0x27BDFFF0) \<and>
    length (fst (disasmInstruction disasm_start 0x27BDFFF0 0x08804000 None)) < 256"
  by (rule disasm_fits) (simp add: names_short_def disasm_start_def)

text \<open>
  The names that \<open>sym_resolver\<close> gives have up to 127 characters, so the bound is not met by all of them:
  the operands of a branch to such a name do not fit.
\<close>

lemma disasm_overrun:
  "128 \<le> length (fst (decode_args (disasm_start\<lparr>g_symresolver := Some (\<lambda>a. Some (replicate 127 CHR ''f''))\<rparr>) None
     0x14210000 0x08804000 False ''%s, %t, %O''))"
  by (simp add: emit_def text_out_def print_arg_def print_pcofs_def print_jump_def disasm_start_def vector_reg_def)

section \<open>The disassembler and the debugger agree\<close>

definition branch_fmts :: "string list" where
  "branch_fmts = [''%O'', ''%s, %O'', ''%s, %t, %O'', ''%Z, %O'']"

text \<open>An entry of the tables that \<open>step_generic\<close> takes for a branch, for condition code 0 of the vector unit.\<close>

definition steps_as_branch :: "Instruction \<Rightarrow> bool" where
  "steps_as_branch i \<longleftrightarrow>
     (let m = i_mask i; b = i_opcode i in
      drop_bit 26 m = 0x3F \<and>
      (drop_bit 26 b \<in> {0x4, 0x14, 0x7, 0x17, 0x6, 0x16, 0x5, 0x15} \<or>
       drop_bit 26 b = 1 \<and> drop_bit 16 m AND 0x1F = 0x1F \<and>
         drop_bit 16 b AND 0x1F \<in> {0x1, 0x11, 0x13, 0x3, 0, 0x10, 0x12, 0x2} \<or>
       drop_bit 26 b \<in> {0x10, 0x11, 0x12} \<and> drop_bit 16 (if drop_bit 26 b = 0x12 then m OR 0x1C0000 else m) AND 0x3FF = 0x3FF \<and>
         drop_bit 16 b AND 0x3FF \<in> {0x100, 0x102, 0x101, 0x103}))"

definition branch_checked :: "Instruction \<Rightarrow> bool" where
  "branch_checked i \<longleftrightarrow> (i_fmt i \<in> set branch_fmts \<longrightarrow> steps_as_branch i)"

lemma branch_tables:
  "list_all branch_checked macro" "list_all branch_checked inst_mips" "list_all branch_checked inst_fpu"
  "list_all branch_checked inst_vpu1" "list_all branch_checked inst_vpu2"
  unfolding macro_def inst_mips_def inst_fpu_def inst_vpu1_def inst_vpu2_def
  by (simp_all add: branch_checked_def branch_fmts_def steps_as_branch_def Let_def)

lemma field_of_match:
  fixes x m b f :: u32
  assumes "x AND m = b" "drop_bit k m AND f = f"
  shows "drop_bit k x AND f = drop_bit k b AND f"
proof -
  have "drop_bit k b AND f = drop_bit k x AND (drop_bit k m AND f)"
    by (simp add: drop_bit_and and.assoc flip: assms(1))
  then show ?thesis using assms(2) by simp
qed

lemma primary_opcode: "drop_bit 26 (x :: u32) AND 0x3F = drop_bit 26 x"
proof -
  have m: "(0x3F :: u32) = Bit_Operations.mask 6" by (simp add: mask_eq_exp_minus_1)
  show ?thesis unfolding m by (rule bit_word_eqI) (auto simp: bit_simps dest: bit_imp_le_length)
qed

lemma decode_cop:
  assumes "drop_bit 26 opcode \<in> {0x10, 0x11, 0x12}" "drop_bit 16 opcode AND 0x3FF \<in> {0x100, 0x102, 0x101, 0x103}"
  shows "decode_step opcode rb = conditional opcode (epc rb + 4)"
proof -
  have "drop_bit 26 opcode \<notin> {0x4, 0x14, 0x7, 0x17, 0x6, 0x16, 0x5, 0x15}" "drop_bit 26 opcode \<notin> {0, 1, 2, 3}"
    using assms(1) by auto
  then show ?thesis using assms by (simp only: decode_step_def Let_def) (simp del: insert_iff, simp)
qed

lemma vcc_zero: "op_vcc opcode = 0 \<Longrightarrow> opcode AND 0x1C0000 = 0"
proof -
  have m: "(7 :: u32) = Bit_Operations.mask 3" "(0x1C0000 :: u32) = push_bit 18 (Bit_Operations.mask 3)"
    by (simp_all add: mask_eq_exp_minus_1)
  have "opcode AND 0x1C0000 = push_bit 18 (op_vcc opcode)"
    unfolding op_vcc_def m by (rule bit_word_eqI) (auto simp: bit_simps)
  then show "op_vcc opcode = 0 \<Longrightarrow> opcode AND 0x1C0000 = 0" by simp
qed

lemma steps_as_branch_step:
  assumes "steps_as_branch i" "matches opcode i" "drop_bit 26 opcode = 0x12 \<Longrightarrow> op_vcc opcode = 0"
  shows "decode_step opcode rb = conditional opcode (epc rb + 4)"
proof -
  let ?m = "i_mask i" and ?b = "i_opcode i"
  have x: "opcode AND ?m = ?b" using assms(2) by (simp add: matches_def)
  have p: "drop_bit 26 opcode = drop_bit 26 ?b"
    using field_of_match [OF x, of 26 "0x3F"] assms(1) by (simp add: steps_as_branch_def Let_def primary_opcode)
  from assms(1) consider
      "drop_bit 26 ?b \<in> {0x4, 0x14, 0x7, 0x17, 0x6, 0x16, 0x5, 0x15}"
    | "drop_bit 26 ?b = 1" "drop_bit 16 ?m AND 0x1F = 0x1F" "drop_bit 16 ?b AND 0x1F \<in> {0x1, 0x11, 0x13, 0x3, 0, 0x10, 0x12, 0x2}"
    | "drop_bit 26 ?b \<in> {0x10, 0x11, 0x12}"
        "drop_bit 16 (if drop_bit 26 ?b = 0x12 then ?m OR 0x1C0000 else ?m) AND 0x3FF = 0x3FF"
        "drop_bit 16 ?b AND 0x3FF \<in> {0x100, 0x102, 0x101, 0x103}"
    unfolding steps_as_branch_def Let_def by blast
  then show ?thesis
  proof cases
    case 1
    then show ?thesis by (simp add: decode_step_def Let_def p)
  next
    case 2
    with field_of_match [OF x 2(2)] show ?thesis by (simp add: decode_step_def Let_def p)
  next
    case 3
    have "opcode AND (if drop_bit 26 ?b = 0x12 then ?m OR 0x1C0000 else ?m) = ?b"
      using x vcc_zero [of opcode] assms(3) p by (simp add: bit.conj_disj_distrib)
    from field_of_match [OF this 3(2)] 3(1,3) p have
      "drop_bit 26 opcode \<in> {0x10, 0x11, 0x12}" "drop_bit 16 opcode AND 0x3FF \<in> {0x100, 0x102, 0x101, 0x103}"
      by simp_all
    then show ?thesis by (rule decode_cop)
  qed
qed

lemma select_branch:
  assumes "select_inst d opcode = Some i" "i_fmt i \<in> set branch_fmts"
  shows "steps_as_branch i" "matches opcode i"
  using select_inst_Some [OF assms(1)] branch_tables assms(2)
  by (auto simp: inst_def list_all_iff branch_checked_def)

lemma decode_branch:
  assumes "fmt \<in> set branch_fmts"
  shows "\<exists>pre. fst (decode_args d realregs opcode PC False fmt) = pre @ print_pcofs d (op_imm opcode) PC"
  using assms by (auto simp: branch_fmts_def emit_def text_out_def print_arg_def vector_reg_def)

lemma vcc_none:
  assumes "op_vcc opcode \<noteq> 0" "drop_bit 26 opcode = 0x12"
  shows "decode_step opcode rb = fall_through (epc rb + 4)"
proof -
  have "drop_bit 16 opcode AND 0x3FF \<notin> {0x100, 0x102, 0x101, 0x103}"
  proof
    assume a: "drop_bit 16 opcode AND 0x3FF \<in> {0x100, 0x102, 0x101, 0x103}"
    have m: "(7 :: u32) = Bit_Operations.mask 3" "(0x3FF :: u32) = Bit_Operations.mask 10"
      by (simp_all add: mask_eq_exp_minus_1)
    define y where "y = drop_bit 16 opcode AND 0x3FF"
    have "op_vcc opcode = drop_bit 2 y AND 7"
      unfolding op_vcc_def y_def m by (rule bit_word_eqI) (auto simp: bit_simps)
    moreover have "y \<in> {0x100, 0x102, 0x101, 0x103}" using a by (simp add: y_def)
    then have "drop_bit 2 y AND 7 = 0" by auto
    ultimately show False using assms(1) by simp
  qed
  then show ?thesis using assms(2) by (simp add: decode_step_def Let_def)
qed

text \<open>
  C38: The disassembler and the debugger agree on branches. Wherever an instruction is shown with a target
  relative to the program counter (\<open>ll\<close> excepted, whose format is another), stepping it takes it for a
  conditional branch, and the target shown is the one that gets the step breakpoint: its address, or the name that
  the symbol resolver gives for just this address. The branches of the vector unit on a condition code other than 0
  are the exception: for them no branch is seen by the debugger, which steps them as plain instructions.
\<close>

theorem disasm_branch_target:
  assumes "select_inst d opcode = Some i" "i_fmt i \<in> set branch_fmts"
  shows "if drop_bit 26 opcode = 0x12 \<and> op_vcc opcode \<noteq> 0 then decode_step opcode rb = fall_through (epc rb + 4)
    else branch (decode_step opcode rb) \<and> cond (decode_step opcode rb) \<and>
      (\<exists>pre. fst (decode_args d realregs opcode (epc rb) False (i_fmt i)) = pre @
         (let target = targetpc (decode_step opcode rb)
          in case g_symresolver d of
               None \<Rightarrow> print_word target
             | Some r \<Rightarrow> (case r target of None \<Rightarrow> print_word target | Some name \<Rightarrow> name)))"
proof (cases "drop_bit 26 opcode = 0x12 \<and> op_vcc opcode \<noteq> 0")
  case True
  then show ?thesis using vcc_none by simp
next
  case False
  have s: "decode_step opcode rb = conditional opcode (epc rb + 4)"
    using steps_as_branch_step [OF select_branch [OF assms]] False by blast
  have "print_pcofs d (op_imm opcode) (epc rb) = print_jump d (epc rb + 4 + branch_offset opcode)"
    by (simp add: print_pcofs_def branch_offset_def op_imm_def algebra_simps)
  then have "\<exists>pre. fst (decode_args d realregs opcode (epc rb) False (i_fmt i)) = pre @ print_jump d (epc rb + 4 + branch_offset opcode)"
    using decode_branch [OF assms(2), of d realregs opcode "epc rb"] by simp
  then show ?thesis unfolding if_not_P [OF False] by (simp add: s conditional_def print_jump_def Let_def)
qed

definition example_block :: RegBlock where
  "example_block = \<lparr>epc = 0x08804000, regs = replicate 32 0\<rparr>"

theorem disasm_branch_target_witness:
  "branch (decode_step 0x14220003 example_block) \<and> cond (decode_step 0x14220003 example_block) \<and>
    (\<exists>pre. fst (decode_args (disasm_start\<lparr>g_symresolver := Some (\<lambda>a. Some ''loop'')\<rparr>) None 0x14220003 (epc example_block) False
       ''%s, %t, %O'') = pre @ ''loop'')"
proof -
  let ?d = "disasm_start\<lparr>g_symresolver := Some (\<lambda>a. Some ''loop'')\<rparr>"
  have "select_inst ?d 0x14220003 = Some (Instruction ''bne'' 0x14000000 0xFC000000 ''%s, %t, %O'')"
    by code_simp
  from disasm_branch_target [OF this, of example_block None]
  have "if drop_bit 26 (0x14220003 :: u32) = 0x12 \<and> op_vcc 0x14220003 \<noteq> 0
    then decode_step 0x14220003 example_block = fall_through (epc example_block + 4)
    else branch (decode_step 0x14220003 example_block) \<and> cond (decode_step 0x14220003 example_block) \<and>
      (\<exists>pre. fst (decode_args ?d None 0x14220003 (epc example_block) False ''%s, %t, %O'') = pre @ ''loop'')"
    by (simp add: branch_fmts_def disasm_start_def del: decode_args.simps)
  moreover have "drop_bit 26 (0x14220003 :: u32) \<noteq> 0x12" by simp
  ultimately show ?thesis by (simp only: if_False simp_thms)
qed

text \<open>Entries that are never chosen, because one from position \<open>n\<close> on takes all their instructions.\<close>

definition shadowed :: "Instruction list \<Rightarrow> nat \<Rightarrow> Instruction \<Rightarrow> Instruction \<Rightarrow> bool" where
  "shadowed tbl n i j \<longleftrightarrow> j \<in> set (drop n tbl) \<and> i \<notin> set (drop n tbl) \<and>
     i_mask i AND i_mask j = i_mask j \<and> i_opcode i AND i_mask j = i_opcode j"

lemma find_append:
  "List.find P (xs @ ys) = (case List.find P xs of None \<Rightarrow> List.find P ys | Some x \<Rightarrow> Some x)"
  by (induction xs) simp_all

lemma shadowed_never:
  assumes "shadowed tbl n i j"
  shows "find_inst opcode tbl \<noteq> Some i"
proof
  assume f: "find_inst opcode tbl = Some i"
  then have "matches opcode i" by (auto simp: find_inst_find find_Some_iff)
  then have "opcode AND i_mask j = i_opcode j"
    using assms by (metis and.assoc matches_def shadowed_def)
  moreover have "j \<in> set (rev (drop n tbl))" using assms by (simp add: shadowed_def)
  ultimately have "List.find (matches opcode) (rev (drop n tbl)) \<noteq> None" by (auto simp: find_None_iff matches_def)
  then obtain k where k: "List.find (matches opcode) (rev (drop n tbl)) = Some k" by auto
  then have "k \<in> set (drop n tbl)" by (metis find_Some_iff nth_mem set_rev)
  moreover have "find_inst opcode (take n tbl @ drop n tbl) = Some k"
    unfolding find_inst_find rev_append find_append k by simp
  ultimately show False using f assms by (simp add: shadowed_def)
qed

lemma vpu_dead_entries:
  "shadowed inst_vpu1 9 (Instruction ''mfv'' 0x48600000 0xFFE0FF80 []) (Instruction ''mfvc'' 0x48600000 0xFFE0FF00 [])"
  "shadowed inst_vpu2 27 (Instruction ''vnop'' 0xFFFF0000 0xFFFFFFFF []) (Instruction ''vsync'' 0xFFFF0000 0xFFFF0000 ''%I'')"
  unfolding shadowed_def inst_vpu1_def inst_vpu2_def by simp_all

end
