(* ===== verification/ShellMem.thy ===== *)
theory ShellMem
  imports MemMap Format Disasm Script
begin

text \<open>
  \<open>psplink/shell.c\<close>: the commands that dump, poke, peek, fill, copy, search, save and load memory, and
  those of the disassembler. Each command is a function of its arguments and of the state that address
  expressions see (\<open>lookups\<close> of \<open>MemMap\<close>, which holds the memory). The table of commands makes sure that
  a command gets the arguments it needs (\<open>min_args\<close>), so \<open>argv ! i\<close> exists where it is used.

  A command that changes memory gives its result and the new state; one that prints gives its result and
  the lines printed. Messages about errors are left out. The files of \<open>savemem\<close> and \<open>loadmem\<close> are given
  by what opening them, and each read or write, returns.
\<close>

section \<open>Results, and the parts of memory\<close>


definition size_left :: "'m lookups_scheme \<Rightarrow> u32 \<Rightarrow> u32 \<Rightarrow> nat" where
  "size_left env addr attrib = memValidate (isv1 env) (protoff env) addr attrib"

definition sb :: "mem \<Rightarrow> u32 \<Rightarrow> u32 \<Rightarrow> mem" where
  "sb m a v = m(a := ucast v)"

definition sh :: "mem \<Rightarrow> u32 \<Rightarrow> u32 \<Rightarrow> mem" where
  "sh m a v = m(a := ucast v, a + 1 := ucast (drop_bit 8 v))"

definition lh :: "mem \<Rightarrow> u32 \<Rightarrow> u32" where
  "lh m a = ucast (m a) OR push_bit 8 (ucast (m (a + 1)))"

definition bytes_at :: "mem \<Rightarrow> u32 \<Rightarrow> nat \<Rightarrow> u8 list" where
  "bytes_at m a n = map (\<lambda>i. m (a + of_nat i)) [0..<n]"

definition put_list :: "u8 list \<Rightarrow> u32 \<Rightarrow> mem \<Rightarrow> mem" where
  "put_list bs a m = fold (\<lambda>(i, b) m. m(a + of_nat i := b)) (zip [0..<length bs] bs) m"

section \<open>Dumping\<close>

abbreviation MAX_MEMDUMP_SIZE :: nat where "MAX_MEMDUMP_SIZE \<equiv> 256"

datatype memdump_type = MEMDUMP_TYPE_BYTE | MEMDUMP_TYPE_HALF | MEMDUMP_TYPE_WORD

definition hex2 :: "u8 \<Rightarrow> string" where
  "hex2 b = pad_zero 2 (hex_upper (unat b))"

definition row_cell :: "memdump_type \<Rightarrow> u8 list \<Rightarrow> nat \<Rightarrow> string" where
  "row_cell type row i =
     (case type of
        MEMDUMP_TYPE_WORD \<Rightarrow>
          (if i < length row then hex2 (row ! (i + 3)) @ hex2 (row ! (i + 2)) @ hex2 (row ! (i + 1)) @ hex2 (row ! i) @ '' ''
           else ''-------- '')
      | MEMDUMP_TYPE_HALF \<Rightarrow> (if i < length row then hex2 (row ! (i + 1)) @ hex2 (row ! i) @ '' '' else ''---- '')
      | MEMDUMP_TYPE_BYTE \<Rightarrow> (if i < length row then hex2 (row ! i) @ '' '' else ''-- ''))"

definition row_steps :: "memdump_type \<Rightarrow> nat list" where
  "row_steps type =
     (case type of
        MEMDUMP_TYPE_WORD \<Rightarrow> [0, 4, 8, 12]
      | MEMDUMP_TYPE_HALF \<Rightarrow> [0, 2, 4, 6, 8, 10, 12, 14]
      | MEMDUMP_TYPE_BYTE \<Rightarrow> [0, 1, 2, 3, 4, 5, 6, 7, 8, 9, 10, 11, 12, 13, 14, 15])"

definition row_char :: "u8 list \<Rightarrow> nat \<Rightarrow> char" where
  "row_char row i = (if i < length row \<and> 32 \<le> row ! i \<and> row ! i < 127 then char_of (unat (row ! i)) else CHR ''.'')"

definition print_row :: "u8 list \<Rightarrow> u32 \<Rightarrow> memdump_type \<Rightarrow> string" where
  "print_row row addr type =
     pad_zero 8 (hex_lower (unat addr)) @ '' - '' @ concat (map (row_cell type row) (row_steps type)) @ ''- ''
     @ map (row_char row) [0, 1, 2, 3, 4, 5, 6, 7, 8, 9, 10, 11, 12, 13, 14, 15]"

definition dump_head :: "memdump_type \<Rightarrow> string list" where
  "dump_head type =
     (case type of
        MEMDUMP_TYPE_WORD \<Rightarrow>
          [''         - 00       04       08       0c       - 0123456789abcdef'',
           ''-----------------------------------------------------------------'']
      | MEMDUMP_TYPE_HALF \<Rightarrow>
          [''         - 00   02   04   06   08   0a   0c   0e   - 0123456789abcdef'',
           ''---------------------------------------------------------------------'']
      | MEMDUMP_TYPE_BYTE \<Rightarrow>
          [''         - 00 01 02 03 04 05 06 07 08 09 0a 0b 0c 0d 0e 0f - 0123456789abcdef'',
           ''-----------------------------------------------------------------------------''])"

text \<open>The loop of \<open>print_memdump\<close>: one byte a turn, a line when the row is full.\<close>

fun dump_loop :: "mem \<Rightarrow> memdump_type \<Rightarrow> u32 \<Rightarrow> u8 list \<Rightarrow> nat \<Rightarrow> string list" where
  "dump_loop m type p row 0 = []"
| "dump_loop m type p row (Suc left) =
     (let row = row @ [m (p + of_nat (length row))]
      in if length row = 16 then print_row row p type # dump_loop m type (p + 16) [] left
         else dump_loop m type p row left)"

definition print_memdump :: "mem \<Rightarrow> u32 \<Rightarrow> nat \<Rightarrow> memdump_type \<Rightarrow> string list" where
  "print_memdump m addr n type =
     dump_head type @ dump_loop m type addr [] (if MAX_MEMDUMP_SIZE < n then MAX_MEMDUMP_SIZE else n)"

text \<open>
  The static variables of \<open>memdump_cmd\<close>. \<open>junk\<close> is what an expression that cannot be evaluated leaves in
  \<open>addr\<close>.
\<close>

record dump_state =
  dump_addr :: u32
  dump_type :: memdump_type

definition dump_start :: dump_state where
  "dump_start = \<lparr>dump_addr = 0, dump_type = MEMDUMP_TYPE_BYTE\<rparr>"

definition type_arg :: "string list \<Rightarrow> memdump_type \<Rightarrow> memdump_type" where
  "type_arg argv type =
     (if 1 < length argv
      then (if chead (argv ! 1) = CHR ''w'' then MEMDUMP_TYPE_WORD
            else if chead (argv ! 1) = CHR ''h'' then MEMDUMP_TYPE_HALF
            else if chead (argv ! 1) = CHR ''b'' then MEMDUMP_TYPE_BYTE
            else type)
      else type)"

definition dump_at :: "'m lookups_scheme \<Rightarrow> dump_state \<Rightarrow> int \<times> string list \<times> dump_state" where
  "dump_at env st =
     (let left = size_left env (dump_addr st) (MEM_ATTRIB_READ OR MEM_ATTRIB_BYTE)
      in (CMD_OK, if 0 < left then print_memdump (memory env) (dump_addr st) left (dump_type st) else [], st))"

definition memdump_cmd :: "u32 \<Rightarrow> 'm lookups_scheme \<Rightarrow> string list \<Rightarrow> dump_state \<Rightarrow> int \<times> string list \<times> dump_state" where
  "memdump_cmd junk env argv st =
     (if 0 < length argv then
        (if chead (argv ! 0) = CHR ''-''
         then dump_at env (st\<lparr>dump_addr := dump_addr st - of_nat MAX_MEMDUMP_SIZE, dump_type := type_arg argv (dump_type st)\<rparr>)
         else case memDecode env (argv ! 0) of
                None \<Rightarrow> (CMD_ERROR, [], st\<lparr>dump_addr := junk\<rparr>)
              | Some addr \<Rightarrow> dump_at env (st\<lparr>dump_addr := addr, dump_type := type_arg argv (dump_type st)\<rparr>))
      else if dump_addr st = 0 then (CMD_ERROR, [], st)
      else dump_at env (st\<lparr>dump_addr := dump_addr st + of_nat MAX_MEMDUMP_SIZE\<rparr>))"

section \<open>Poking, peeking and filling\<close>

text \<open>
  The loop of the three poke commands: a value that is no number is skipped. \<open>k\<close> is the width, \<open>st\<close> the
  store, \<open>left\<close> what \<open>memValidate\<close> left.
\<close>

fun poke_loop :: "nat \<Rightarrow> (mem \<Rightarrow> u32 \<Rightarrow> u32 \<Rightarrow> mem) \<Rightarrow> string list \<Rightarrow> u32 \<Rightarrow> int \<Rightarrow> mem \<Rightarrow> mem" where
  "poke_loop k st [] addr left m = m"
| "poke_loop k st (v # vs) addr left m =
     (let m = (if snd (strtoul v) = [] then st m addr (fst (strtoul v)) else m)
      in if left - int k \<le> 0 then m else poke_loop k st vs (addr + of_nat k) (left - int k) m)"

definition poke_at ::
  "nat \<Rightarrow> (mem \<Rightarrow> u32 \<Rightarrow> u32 \<Rightarrow> mem) \<Rightarrow> u32 \<Rightarrow> 'm lookups_scheme \<Rightarrow> string list \<Rightarrow> u32 \<Rightarrow> int \<times> 'm lookups_scheme" where
  "poke_at k st attrib env argv addr =
     (let left = size_left env addr (MEM_ATTRIB_WRITE OR attrib)
      in if k \<le> left then (CMD_OK, env\<lparr>memory := poke_loop k st (tl argv) addr (int left) (memory env)\<rparr>)
         else (CMD_ERROR, env))"

definition pokew_cmd :: "'m lookups_scheme \<Rightarrow> string list \<Rightarrow> int \<times> 'm lookups_scheme" where
  "pokew_cmd env argv =
     (case memDecode env (argv ! 0) of
        None \<Rightarrow> (CMD_OK, env) | Some addr \<Rightarrow> poke_at 4 sw MEM_ATTRIB_WORD env argv (addr AND NOT 3))"

definition pokeh_cmd :: "'m lookups_scheme \<Rightarrow> string list \<Rightarrow> int \<times> 'm lookups_scheme" where
  "pokeh_cmd env argv =
     (case memDecode env (argv ! 0) of
        None \<Rightarrow> (CMD_OK, env) | Some addr \<Rightarrow> poke_at 2 sh MEM_ATTRIB_HALF env argv (addr AND NOT 1))"

definition pokeb_cmd :: "'m lookups_scheme \<Rightarrow> string list \<Rightarrow> int \<times> 'm lookups_scheme" where
  "pokeb_cmd env argv =
     (case memDecode env (argv ! 0) of
        None \<Rightarrow> (CMD_OK, env) | Some addr \<Rightarrow> poke_at 1 sb MEM_ATTRIB_BYTE env argv addr)"

definition oct_string :: "nat \<Rightarrow> string" where
  "oct_string n = map digit_lower (digits_of 8 n)"

text \<open>
  The line of a peek: \<open>v\<close> is the value as \<open>%d\<close> takes it, \<open>w\<close> the width of the hexadecimal form. The float
  format of \<open>peekw\<close> is \<open>fcvt\<close>, the conversion of the C library.
\<close>

definition peek_line :: "(u32 \<Rightarrow> string) option \<Rightarrow> nat \<Rightarrow> string list \<Rightarrow> u32 \<Rightarrow> u32 \<Rightarrow> string" where
  "peek_line fcvt w argv addr v =
     (let fmt = (if 1 < length argv then chead (argv ! 1) else CHR ''x'')
      in print_word addr @ '': '' @
         (case fcvt of
            Some f \<Rightarrow> if fmt = CHR ''f'' then f v
                      else if fmt = CHR ''d'' then dec_int (sint v)
                      else if fmt = CHR ''o'' then oct_string (unat v)
                      else ''0x'' @ pad_zero w (hex_upper (unat v))
          | None \<Rightarrow> if fmt = CHR ''d'' then dec_int (sint v)
                    else if fmt = CHR ''o'' then oct_string (unat v)
                    else ''0x'' @ pad_zero w (hex_upper (unat v))))"

definition peekw_cmd :: "(u32 \<Rightarrow> string) \<Rightarrow> 'm lookups_scheme \<Rightarrow> string list \<Rightarrow> int \<times> string list" where
  "peekw_cmd fcvt env argv =
     (case memDecode env (argv ! 0) of
        None \<Rightarrow> (CMD_OK, [])
      | Some addr \<Rightarrow>
          (let addr = addr AND NOT 3
           in if 4 \<le> size_left env addr (MEM_ATTRIB_READ OR MEM_ATTRIB_WORD)
              then (CMD_OK, [peek_line (Some fcvt) 8 argv addr (lw (memory env) addr)]) else (CMD_ERROR, [])))"

definition peekh_cmd :: "'m lookups_scheme \<Rightarrow> string list \<Rightarrow> int \<times> string list" where
  "peekh_cmd env argv =
     (case memDecode env (argv ! 0) of
        None \<Rightarrow> (CMD_OK, [])
      | Some addr \<Rightarrow>
          (let addr = addr AND NOT 1
           in if 2 \<le> size_left env addr (MEM_ATTRIB_READ OR MEM_ATTRIB_HALF)
              then (CMD_OK, [peek_line None 4 argv addr (lh (memory env) addr)]) else (CMD_ERROR, [])))"

definition peekb_cmd :: "'m lookups_scheme \<Rightarrow> string list \<Rightarrow> int \<times> string list" where
  "peekb_cmd env argv =
     (case memDecode env (argv ! 0) of
        None \<Rightarrow> (CMD_OK, [])
      | Some addr \<Rightarrow>
          (if 0 < size_left env addr (MEM_ATTRIB_READ OR MEM_ATTRIB_BYTE)
           then (CMD_OK, [peek_line None 2 argv addr (ucast (memory env addr))]) else (CMD_ERROR, [])))"

text \<open>The loop that stores \<open>n\<close> times.\<close>

fun fill_loop :: "nat \<Rightarrow> (mem \<Rightarrow> u32 \<Rightarrow> u32 \<Rightarrow> mem) \<Rightarrow> u32 \<Rightarrow> nat \<Rightarrow> u32 \<Rightarrow> mem \<Rightarrow> mem" where
  "fill_loop k st val 0 addr m = m"
| "fill_loop k st val (Suc n) addr m = fill_loop k st val n (addr + of_nat k) (st m addr val)"

definition fill_at ::
  "nat \<Rightarrow> (mem \<Rightarrow> u32 \<Rightarrow> u32 \<Rightarrow> mem) \<Rightarrow> u32 \<Rightarrow> 'm lookups_scheme \<Rightarrow> string list \<Rightarrow> u32 \<Rightarrow> u32 \<Rightarrow> int \<times> 'm lookups_scheme" where
  "fill_at k st attrib env argv addr n =
     (let left = size_left env addr (MEM_ATTRIB_WRITE OR attrib);
          n = (if left < unat n then left else unat n)
      in case strtoint (argv ! 2) of
           None \<Rightarrow> (CMD_ERROR, env)
         | Some val \<Rightarrow> (CMD_OK, env\<lparr>memory := fill_loop k st val (n div k) addr (memory env)\<rparr>))"

text \<open>Two expressions joined by \<open>&&\<close>: the second is evaluated when the first succeeds.\<close>

definition decode2 :: "'m lookups_scheme \<Rightarrow> string list \<Rightarrow> (u32 \<times> u32) option" where
  "decode2 env argv =
     (case memDecode env (argv ! 0) of
        None \<Rightarrow> None
      | Some a \<Rightarrow> (case memDecode env (argv ! 1) of None \<Rightarrow> None | Some b \<Rightarrow> Some (a, b)))"

definition fillb_cmd :: "'m lookups_scheme \<Rightarrow> string list \<Rightarrow> int \<times> 'm lookups_scheme" where
  "fillb_cmd env argv =
     (case decode2 env argv of
        None \<Rightarrow> (CMD_OK, env) | Some (addr, n) \<Rightarrow> fill_at 1 sb MEM_ATTRIB_BYTE env argv addr n)"

definition fillh_cmd :: "'m lookups_scheme \<Rightarrow> string list \<Rightarrow> int \<times> 'm lookups_scheme" where
  "fillh_cmd env argv =
     (case decode2 env argv of
        None \<Rightarrow> (CMD_OK, env) | Some (addr, n) \<Rightarrow> fill_at 2 sh MEM_ATTRIB_HALF env argv (addr AND NOT 1) n)"

definition fillw_cmd :: "'m lookups_scheme \<Rightarrow> string list \<Rightarrow> int \<times> 'm lookups_scheme" where
  "fillw_cmd env argv =
     (case decode2 env argv of
        None \<Rightarrow> (CMD_OK, env) | Some (addr, n) \<Rightarrow> fill_at 4 sw MEM_ATTRIB_WORD env argv (addr AND NOT 3) n)"

text \<open>\<open>memmove\<close>: the bytes are taken before any is stored.\<close>

definition c_memmove :: "u32 \<Rightarrow> u32 \<Rightarrow> nat \<Rightarrow> mem \<Rightarrow> mem" where
  "c_memmove dest src n m = put_list (bytes_at m src n) dest m"

definition copymem_cmd :: "'m lookups_scheme \<Rightarrow> string list \<Rightarrow> int \<times> 'm lookups_scheme" where
  "copymem_cmd env argv =
     (case decode2 env argv of
        None \<Rightarrow> (CMD_OK, env)
      | Some (src, dest) \<Rightarrow>
         (case memDecode env (argv ! 2) of
            None \<Rightarrow> (CMD_OK, env)
          | Some n \<Rightarrow>
             (let srcsize = size_left env src (MEM_ATTRIB_WRITE OR MEM_ATTRIB_BYTE);
                  destsize = size_left env dest (MEM_ATTRIB_WRITE OR MEM_ATTRIB_BYTE);
                  left = (if destsize < srcsize then destsize else srcsize);
                  n = (if left < unat n then left else unat n)
              in (CMD_OK, env\<lparr>memory := c_memmove dest src n (memory env)\<rparr>))))"

section \<open>Searching\<close>

text \<open>
  The loop shared by the four search commands: the addresses of the matches. After the last one the size
  may have become negative, which \<open>memmem_mask\<close> refuses.
\<close>

function find_loop :: "mem \<Rightarrow> u8 list option \<Rightarrow> u8 list \<Rightarrow> u32 \<Rightarrow> int \<Rightarrow> u32 list" where
  "find_loop m msk search p n =
     (case memmem_mask (bytes_at m p (nat n)) msk n search (int (length search)) of
        None \<Rightarrow> []
      | Some k \<Rightarrow>
         (let n' = n - (int k + 1)
          in (p + of_nat k) # (if n' = 0 then [] else find_loop m msk search (p + of_nat k + 1) n')))"
  by pat_completeness auto
termination
  by (relation "measure (\<lambda>(m, msk, search, p, n). nat (n + 1))") (auto simp: memmem_mask_def split: if_splits)

declare find_loop.simps [simp del]

definition find_at ::
  "'m lookups_scheme \<Rightarrow> u8 list option \<Rightarrow> u8 list \<Rightarrow> u32 \<Rightarrow> u32 \<Rightarrow> int \<times> u32 list" where
  "find_at env msk search addr n =
     (let left = size_left env addr (MEM_ATTRIB_READ OR MEM_ATTRIB_BYTE);
          n = (if unat n < left then unat n else left)
      in (CMD_OK, find_loop (memory env) msk search addr (int n)))"

definition findstr_cmd :: "'m lookups_scheme \<Rightarrow> string list \<Rightarrow> int \<times> u32 list" where
  "findstr_cmd env argv =
     (case decode2 env argv of
        None \<Rightarrow> (CMD_OK, [])
      | Some (addr, n) \<Rightarrow> find_at env None (map (\<lambda>c. of_nat (ccode c)) (argv ! 2)) addr n)"

text \<open>The values to search, \<open>k\<close> bytes of each; \<open>None\<close>: one is no number.\<close>

fun search_values :: "nat \<Rightarrow> string list \<Rightarrow> u8 list option" where
  "search_values k [] = Some []"
| "search_values k (v # vs) =
     (case strtoint v of
        None \<Rightarrow> None
      | Some val \<Rightarrow> map_option ((@) (take k (to_le32 val))) (search_values k vs))"

definition find_values :: "nat \<Rightarrow> 'm lookups_scheme \<Rightarrow> string list \<Rightarrow> int \<times> u32 list" where
  "find_values k env argv =
     (case decode2 env argv of
        None \<Rightarrow> (CMD_OK, [])
      | Some (addr, n) \<Rightarrow>
         (case search_values k (drop 2 argv) of
            None \<Rightarrow> (CMD_ERROR, [])
          | Some search \<Rightarrow> find_at env None search addr n))"

definition findw_cmd :: "'m lookups_scheme \<Rightarrow> string list \<Rightarrow> int \<times> u32 list" where
  "findw_cmd = find_values 4"

definition findh_cmd :: "'m lookups_scheme \<Rightarrow> string list \<Rightarrow> int \<times> u32 list" where
  "findh_cmd = find_values 2"

text \<open>\<open>findhex_cmd\<close>: an empty string has the size 0, which is an error.\<close>

definition hex_arg :: "string \<Rightarrow> u8 list option" where
  "hex_arg str = (case decode_hexstr str 128 of Some (b # bs) \<Rightarrow> Some (b # bs) | _ \<Rightarrow> None)"

definition findhex_cmd :: "'m lookups_scheme \<Rightarrow> string list \<Rightarrow> int \<times> u32 list" where
  "findhex_cmd env argv =
     (case decode2 env argv of
        None \<Rightarrow> (CMD_OK, [])
      | Some (addr, n) \<Rightarrow>
         (case hex_arg (argv ! 2) of
            None \<Rightarrow> (CMD_ERROR, [])
          | Some search \<Rightarrow>
             (if 3 < length argv
              then case hex_arg (argv ! 3) of
                     None \<Rightarrow> (CMD_ERROR, [])
                   | Some msk \<Rightarrow>
                       if length msk \<noteq> length search then (CMD_ERROR, []) else find_at env (Some msk) search addr n
              else find_at env None search addr n)))"

section \<open>Files\<close>

text \<open>
  What the kernel answers: \<open>io_opens\<close> says which files open, \<open>io_writes k n\<close> is the result of the
  \<open>k\<close>-th write, of \<open>n\<close> bytes, \<open>io_reads k p n\<close> the bytes of the \<open>k\<close>-th read, of \<open>n\<close> bytes at the position
  \<open>p\<close> of the file (\<open>None\<close>: an error).
\<close>

record io_answers =
  io_stat :: "string \<Rightarrow> u32 option"
  io_opens :: "string \<Rightarrow> bool"
  io_writes :: "nat \<Rightarrow> nat \<Rightarrow> int"
  io_reads :: "nat \<Rightarrow> nat \<Rightarrow> nat \<Rightarrow> u8 list option"

text \<open>The bytes that reach the file.\<close>

function save_loop :: "(nat \<Rightarrow> nat \<Rightarrow> int) \<Rightarrow> mem \<Rightarrow> u32 \<Rightarrow> nat \<Rightarrow> int \<Rightarrow> int \<Rightarrow> u8 list" where
  "save_loop wr m addr k written n =
     (if written < n
      then let ret = wr k (nat (n - written))
           in if ret \<le> 0 then []
              else bytes_at m (addr + word_of_int written) (nat ret) @ save_loop wr m addr (k + 1) (written + ret) n
      else [])"
  by pat_completeness auto
termination
  by (relation "measure (\<lambda>(wr, m, addr, k, written, n). nat (n - written))") auto

declare save_loop.simps [simp del]

definition savemem_cmd ::
  "io_answers \<Rightarrow> string \<Rightarrow> 'm lookups_scheme \<Rightarrow> string list \<Rightarrow> int \<times> (string \<times> u8 list) option" where
  "savemem_cmd io cwd env argv =
     (case handlepath (io_stat io) (io_opens io) cwd (argv ! 2) TYPE_FILE False of
        None \<Rightarrow> (CMD_ERROR, None)
      | Some path \<Rightarrow>
         (let (n, endp) = strtoul (argv ! 1)
          in if endp \<noteq> [] then (CMD_ERROR, None)
             else case memDecode env (argv ! 0) of
                    None \<Rightarrow> (CMD_ERROR, None)
                  | Some addr \<Rightarrow>
                     (let left = int (size_left env addr (MEM_ATTRIB_READ OR MEM_ATTRIB_BYTE));
                          n = (if left < sint n then left else sint n)
                      in (CMD_OK, if io_opens io path then Some (path, save_loop (io_writes io) (memory env) addr 0 0 n)
                                  else None))))"

text \<open>The memory after the reads, and their number of bytes.\<close>

function load_loop :: "(nat \<Rightarrow> nat \<Rightarrow> nat \<Rightarrow> u8 list option) \<Rightarrow> u32 \<Rightarrow> nat \<Rightarrow> nat \<Rightarrow> nat \<Rightarrow> mem \<Rightarrow> mem \<times> nat" where
  "load_loop rd addr k readbytes n m =
     (if readbytes < n
      then case rd k readbytes (n - readbytes) of
             None \<Rightarrow> (m, readbytes)
           | Some bs \<Rightarrow>
               (if bs = [] then (m, readbytes)
                else load_loop rd addr (k + 1) (readbytes + length bs) n (put_list bs (addr + of_nat readbytes) m))
      else (m, readbytes))"
  by pat_completeness auto
termination
  by (relation "measure (\<lambda>(rd, addr, k, readbytes, n, m). n - readbytes)") (auto, metis diff_less_mono2 length_greater_0_conv less_add_same_cancel1)

declare load_loop.simps [simp del]

text \<open>The limit: a negative one (as an \<open>int\<close>) stands for none.\<close>

definition load_limit :: "int \<Rightarrow> nat \<Rightarrow> nat" where
  "load_limit maxsize left = (if 0 \<le> maxsize then (if int left < maxsize then left else nat maxsize) else left)"

definition loadmem_cmd ::
  "io_answers \<Rightarrow> string \<Rightarrow> 'm lookups_scheme \<Rightarrow> string list \<Rightarrow> int \<times> 'm lookups_scheme" where
  "loadmem_cmd io cwd env argv =
     (case handlepath (io_stat io) (io_opens io) cwd (argv ! 1) TYPE_FILE True of
        None \<Rightarrow> (CMD_ERROR, env)
      | Some path \<Rightarrow>
         (let (n, endp) = (if 2 < length argv then strtoul (argv ! 2) else (- 1, []))
          in if endp \<noteq> [] then (CMD_ERROR, env)
             else case memDecode env (argv ! 0) of
                    None \<Rightarrow> (CMD_ERROR, env)
                  | Some addr \<Rightarrow>
                     (let left = size_left env addr (MEM_ATTRIB_READ OR MEM_ATTRIB_BYTE)
                      in if io_opens io path
                         then (CMD_OK, env\<lparr>memory := fst (load_loop (io_reads io) addr 0 0 (load_limit (sint n) left) (memory env))\<rparr>)
                         else (CMD_OK, env))))"

section \<open>The disassembler, the calculator, protection and caches\<close>

definition disasm_cmd :: "disasm \<Rightarrow> 'm lookups_scheme \<Rightarrow> string list \<Rightarrow> int \<times> string list" where
  "disasm_cmd d env argv =
     (case (if 1 < length argv then memDecode env (argv ! 1) else Some 1) of
        None \<Rightarrow> (CMD_ERROR, [])
      | Some count \<Rightarrow>
          (if count = 0 then (CMD_ERROR, [])
           else case memDecode env (argv ! 0) of
                  None \<Rightarrow> (CMD_OK, [])
                | Some addr \<Rightarrow>
                   (let addr = addr AND NOT 3;
                        left = size_left env addr (MEM_ATTRIB_READ OR MEM_ATTRIB_WORD OR MEM_ATTRIB_EXEC) div 4;
                        n = (if left < unat count then left else unat count)
                    in (CMD_OK, map (\<lambda>i. fst (disasmInstruction d (lw (memory env) (addr + of_nat (4 * i))) (addr + of_nat (4 * i)) None))
                                  [0..<n]))))"

definition disset_cmd :: "string list \<Rightarrow> disasm \<Rightarrow> int \<times> disasm" where
  "disset_cmd argv d = (CMD_OK, disasmSetOpts (argv ! 0) True d)"

definition disclear_cmd :: "string list \<Rightarrow> disasm \<Rightarrow> int \<times> disasm" where
  "disclear_cmd argv d = (CMD_OK, disasmSetOpts (argv ! 0) False d)"

definition disopts_cmd :: "disasm \<Rightarrow> int \<times> string list" where
  "disopts_cmd d = (CMD_OK, disasmPrintOpts d)"

definition calc_cmd :: "'m lookups_scheme \<Rightarrow> string list \<Rightarrow> int \<times> string list" where
  "calc_cmd env argv =
     (CMD_OK,
      case memDecode env (argv ! 0) of
        None \<Rightarrow> [''Error could not calculate address'']
      | Some v \<Rightarrow>
          (let disp = (if 1 < length argv then upcase (chead (argv ! 1)) else CHR ''X'')
           in [''Result = '' @ (if disp = CHR ''D'' then dec_int (sint v)
                                else if disp = CHR ''O'' then oct_string (unat v)
                                else print_word v)]))"

definition memprot_cmd :: "'m lookups_scheme \<Rightarrow> string list \<Rightarrow> int \<times> 'm lookups_scheme" where
  "memprot_cmd env argv =
     (if argv ! 0 = ''on'' then (CMD_OK, env\<lparr>protoff := memSetProtoff (protoff env) False\<rparr>)
      else if argv ! 0 = ''off'' then (CMD_OK, env\<lparr>protoff := memSetProtoff (protoff env) True\<rparr>)
      else (CMD_ERROR, env))"

datatype cache_kind = Writeback | Invalidate | WritebackInvalidate

datatype cache_op =
  DcacheAll cache_kind
| DcacheRange cache_kind u32 u32
| IcacheInvalidateAll
| IcacheInvalidateRange u32 u32

definition cache_kind_of :: "string \<Rightarrow> cache_kind option" where
  "cache_kind_of s =
     (if s = ''w'' then Some Writeback else if s = ''i'' then Some Invalidate
      else if s = ''wi'' then Some WritebackInvalidate else None)"

definition dcache_cmd :: "'m lookups_scheme \<Rightarrow> string list \<Rightarrow> int \<times> cache_op option" where
  "dcache_cmd env argv =
     (if length argv = 2 then (CMD_ERROR, None)
      else case cache_kind_of (argv ! 0) of
             None \<Rightarrow> (CMD_ERROR, None)
           | Some kind \<Rightarrow>
               (if 1 < length argv
                then case memDecode env (argv ! 1) of
                       None \<Rightarrow> (CMD_ERROR, None)
                     | Some addr \<Rightarrow>
                        (case strtoint (argv ! 2) of
                           None \<Rightarrow> (CMD_ERROR, None)
                         | Some n \<Rightarrow> (CMD_OK, Some (DcacheRange kind addr n)))
                else (CMD_OK, Some (DcacheAll kind))))"

definition icache_cmd :: "'m lookups_scheme \<Rightarrow> string list \<Rightarrow> int \<times> cache_op option" where
  "icache_cmd env argv =
     (if length argv = 1 then (CMD_ERROR, None)
      else if 0 < length argv
           then case memDecode env (argv ! 0) of
                  None \<Rightarrow> (CMD_ERROR, None)
                | Some addr \<Rightarrow>
                   (case strtoint (argv ! 1) of
                      None \<Rightarrow> (CMD_ERROR, None)
                    | Some n \<Rightarrow> (CMD_OK, Some (IcacheInvalidateRange addr n)))
           else (CMD_OK, Some IcacheInvalidateAll))"

section \<open>What a command changes\<close>

text \<open>Nothing but the \<open>n\<close> bytes from \<open>a\<close> on differs.\<close>

definition frame :: "u32 \<Rightarrow> nat \<Rightarrow> mem \<Rightarrow> mem \<Rightarrow> bool" where
  "frame a n m m' \<longleftrightarrow> (\<forall>x. n \<le> unat (x - a) \<longrightarrow> m' x = m x)"

lemma frame_refl [simp]: "frame a n m m"
  by (simp add: frame_def)

lemma frame_trans: "frame a n m m' \<Longrightarrow> frame a n m' m'' \<Longrightarrow> frame a n m m''"
  by (simp add: frame_def)

lemma unat_diff_of_nat:
  assumes "j \<le> unat (y :: u32)"
  shows "unat (y - of_nat j) = unat y - j"
proof -
  have j: "unat (of_nat j :: u32) = j"
    using le_less_trans [OF assms unsigned_less [of y]] by (simp add: unat_of_nat)
  then have "of_nat j \<le> y" using assms by (simp add: word_le_nat_alt)
  then show ?thesis by (simp add: unat_sub j)
qed

lemma frame_inside:
  assumes "frame (a + of_nat j) k m m'" "j + k \<le> n"
  shows "frame a n m m'"
  unfolding frame_def
proof (intro allI impI)
  fix x assume "n \<le> unat (x - a)"
  then have "unat (x - a - of_nat j) = unat (x - a) - j" "k \<le> unat (x - a) - j"
    using assms(2) by (auto intro: unat_diff_of_nat)
  then have "k \<le> unat (x - (a + of_nat j))" by (simp add: algebra_simps)
  then show "m' x = m x" using assms(1) by (simp add: frame_def)
qed

lemma frame_zero_inside: "frame a k m m' \<Longrightarrow> k \<le> n \<Longrightarrow> frame a n m m'"
  using frame_inside [of a 0 k m m' n] by simp

definition store_ok :: "nat \<Rightarrow> (mem \<Rightarrow> u32 \<Rightarrow> u32 \<Rightarrow> mem) \<Rightarrow> bool" where
  "store_ok k st \<longleftrightarrow> 0 < k \<and> (\<forall>m a v. frame a k m (st m a v))"

lemma stores_ok: "store_ok 1 sb" "store_ok 2 sh" "store_ok 4 sw"
proof -
  have n: "x \<noteq> a + i" if "unat i < k" "k \<le> unat (x - a)" for x a i :: u32 and k
    using that by auto
  show "store_ok 1 sb" "store_ok 2 sh" "store_ok 4 sw"
    using n [of 0] n [of 1] n [of 2] n [of 3] by (auto simp: store_ok_def frame_def sb_def sh_def sw_def)
qed

lemma poke_loop_frame:
  assumes "store_ok k st" "int k \<le> left" "int k dvd left"
  shows "frame addr (nat left) m (poke_loop k st vs addr left m)"
  using assms(2,3)
proof (induction vs arbitrary: addr left m)
  case (Cons v vs)
  let ?m = "if snd (strtoul v) = [] then st m addr (fst (strtoul v)) else m"
  have k: "0 < k" using assms(1) by (simp add: store_ok_def)
  have s: "frame addr (nat left) m ?m"
    using assms(1) Cons.prems(1) frame_zero_inside [of addr k m "st m addr (fst (strtoul v))" "nat left"]
    by (auto simp: store_ok_def)
  show ?case
  proof (cases "left - int k \<le> 0")
    case True
    then show ?thesis using s by (simp add: Let_def)
  next
    case False
    then have l: "int k \<le> left - int k" "int k dvd left - int k"
      using Cons.prems by (auto simp: zdvd_imp_le)
    have "frame addr (nat left) ?m (poke_loop k st vs (addr + of_nat k) (left - int k) ?m)"
      by (rule frame_inside [OF Cons.IH [OF l]]) (use l in linarith)
    then show ?thesis using s False by (auto simp: Let_def intro: frame_trans)
  qed
qed simp

lemma fill_loop_frame:
  "store_ok k st \<Longrightarrow> frame addr (n * k) m (fill_loop k st val n addr m)"
proof (induction n arbitrary: addr m)
  case (Suc n)
  have "frame addr (Suc n * k) m (st m addr val)"
    using Suc.prems frame_zero_inside [of addr k m "st m addr val" "Suc n * k"] by (auto simp: store_ok_def)
  moreover have "frame addr (Suc n * k) (st m addr val) (fill_loop k st val n (addr + of_nat k) (st m addr val))"
    by (rule frame_inside [OF Suc.IH [OF Suc.prems]]) simp
  ultimately show ?case by (auto intro: frame_trans)
qed simp

lemma put_list_snoc: "put_list (bs @ [b]) a m = (put_list bs a m)(a + of_nat (length bs) := b)"
  by (simp add: put_list_def zip_append)

lemma put_list_frame: "frame a (length bs) m (put_list bs a m)"
proof (induction bs rule: rev_induct)
  case (snoc b bs)
  have b: "frame a (length (bs @ [b])) (put_list bs a m) ((put_list bs a m)(a + of_nat (length bs) := b))"
    by (rule frame_inside [of _ "length bs" 1]) (auto simp: frame_def)
  show ?case
    unfolding put_list_snoc by (rule frame_trans [OF frame_zero_inside [OF snoc] b]) simp
qed (simp add: put_list_def)

definition reads_ok :: "(nat \<Rightarrow> nat \<Rightarrow> nat \<Rightarrow> u8 list option) \<Rightarrow> bool" where
  "reads_ok rd \<longleftrightarrow> (\<forall>k p n bs. rd k p n = Some bs \<longrightarrow> length bs \<le> n)"

lemma load_loop_frame:
  "reads_ok rd \<Longrightarrow> readbytes \<le> n \<Longrightarrow> frame addr n m (fst (load_loop rd addr k readbytes n m))"
proof (induction rd addr k readbytes n m rule: load_loop.induct)
  case (1 rd addr k readbytes n m)
  show ?case
  proof (cases "readbytes < n \<and> (\<exists>bs. rd k readbytes (n - readbytes) = Some bs \<and> bs \<noteq> [])")
    case False
    then show ?thesis by (subst load_loop.simps) (auto split: option.split)
  next
    case True
    then obtain bs where bs: "readbytes < n" "rd k readbytes (n - readbytes) = Some bs" "bs \<noteq> []" by auto
    let ?m = "put_list bs (addr + of_nat readbytes) m"
    have "length bs \<le> n - readbytes" using bs(2) "1.prems"(1) unfolding reads_ok_def by blast
    then have l: "readbytes + length bs \<le> n" using bs(1) by simp
    have "frame addr n m ?m" using put_list_frame l by (rule frame_inside)
    then show ?thesis
      using "1.IH" [OF bs "1.prems"(1) l] bs
      by (subst load_loop.simps) (auto intro: frame_trans)
  qed
qed

section \<open>Memory commands stay in valid memory\<close>

definition valid_byte :: "bool \<Rightarrow> u32 \<Rightarrow> bool" where
  "valid_byte v1 x \<longleftrightarrow> (\<exists>e \<in> set g_memareas. in_entry e x \<and> (\<not> m_v1only e \<or> v1))"

lemma size_left_valid:
  assumes "\<not> protoff env" "unat (x - a) < size_left env a attrib"
  shows "valid_byte (isv1 env) x"
proof -
  let ?n = "size_left env a attrib"
  have n: "memValidate (isv1 env) False a attrib = ?n" "0 < ?n" using assms by (simp_all add: size_left_def)
  then obtain e where e: "e \<in> set g_memareas" "in_entry e a" "?n = hi e - unat a" "\<not> m_v1only e \<or> isv1 env"
    using memValidate_cases by blast
  have f: "entry_fits e" using e(1) memareas_fit by blast
  have "unat a + unat (x - a) < 2 ^ 32" using f e(3) assms(2) by (simp add: entry_fits_def)
  then have "unat (a + (x - a)) = unat a + unat (x - a)" by (simp only: unat_word_ariths) simp
  then have "in_entry e x" using e(2,3) assms(2) by (simp add: in_entry_unat [OF f])
  then show ?thesis using e by (auto simp: valid_byte_def)
qed

lemma frame_valid:
  assumes "frame a n m m'" "\<not> protoff env" "n \<le> size_left env a attrib" "m' x \<noteq> m x"
  shows "valid_byte (isv1 env) x"
proof (rule size_left_valid [OF assms(2), of x a attrib])
  have "unat (x - a) < n" using assms(1,4) unfolding frame_def by (meson not_le)
  then show "unat (x - a) < size_left env a attrib" using assms(3) by simp
qed

lemma memareas_multiple: "\<forall>e \<in> set g_memareas. hi e mod 4 = 0"
  by (simp add: g_memareas_def entry_def hi_def)

lemma unat_and_not_mask: "unat (a AND NOT (Bit_Operations.mask n) :: u32) = unat a - unat a mod 2 ^ n"
proof -
  have "a AND Bit_Operations.mask n \<le> a" by (rule word_and_le2)
  moreover have "unat (a AND Bit_Operations.mask n) = unat a mod 2 ^ n"
    by (metis take_bit_eq_mask take_bit_eq_mod unsigned_take_bit_eq)
  ultimately show ?thesis by (simp add: word_and_not_eq_diff unat_sub)
qed

lemma aligned_masks: "unat (a AND NOT 3 :: u32) mod 4 = 0" "unat (a AND NOT 1 :: u32) mod 2 = 0"
proof -
  have "(3 :: u32) = Bit_Operations.mask 2" "(1 :: u32) = Bit_Operations.mask 1" by (simp_all add: mask_eq_exp_minus_1)
  then have "unat (a AND NOT 3) = unat a - unat a mod 4" "unat (a AND NOT 1) = unat a - unat a mod 2"
    using unat_and_not_mask [of a 2] unat_and_not_mask [of a 1] by simp_all
  then show "unat (a AND NOT 3 :: u32) mod 4 = 0" "unat (a AND NOT 1 :: u32) mod 2 = 0"
    by (simp_all add: minus_mod_eq_mult_div)
qed

lemma size_left_dvd:
  assumes "k dvd 4" "unat a mod k = 0"
  shows "k dvd size_left env a attrib"
proof (cases "validate_scan (isv1 env) g_memareas a attrib = 0")
  case True
  then show ?thesis using assms(1) by (auto simp: size_left_def memValidate_def memValidate_in_def Let_def)
next
  case False
  then have n: "memValidate (isv1 env) False a attrib = size_left env a attrib" "0 < size_left env a attrib"
    by (simp_all add: size_left_def memValidate_def memValidate_in_def Let_def)
  then obtain e where e: "e \<in> set g_memareas" "size_left env a attrib = hi e - unat a"
    using memValidate_cases by blast
  have "k dvd hi e" using memareas_multiple e(1) assms(1) by (meson dvd_trans mod_eq_0_iff_dvd)
  moreover have "k dvd unat a" using assms(2) by (simp add: mod_eq_0_iff_dvd)
  ultimately show ?thesis using e(2) by (simp add: dvd_diff_nat)
qed

lemma poke_at_frame:
  assumes "store_ok k st" "k dvd 4" "unat addr mod k = 0"
  shows "\<exists>m. snd (poke_at k st attrib env argv addr) = env\<lparr>memory := m\<rparr> \<and>
    frame addr (size_left env addr (MEM_ATTRIB_WRITE OR attrib)) (memory env) m"
proof -
  let ?l = "size_left env addr (MEM_ATTRIB_WRITE OR attrib)"
  show ?thesis
  proof (cases "k \<le> ?l")
    case True
    have "int k dvd int ?l" using size_left_dvd [OF assms(2,3)] by simp
    then show ?thesis
      using True poke_loop_frame [OF assms(1), of "int ?l" addr "memory env" "tl argv"]
      by (auto simp: poke_at_def Let_def)
  next
    case False
    then show ?thesis by (intro exI [of _ "memory env"]) (simp add: poke_at_def Let_def)
  qed
qed

lemma fill_at_frame:
  assumes "store_ok k st"
  shows "\<exists>m. snd (fill_at k st attrib env argv addr n) = env\<lparr>memory := m\<rparr> \<and>
    frame addr (size_left env addr (MEM_ATTRIB_WRITE OR attrib)) (memory env) m"
proof (cases "strtoint (argv ! 2)")
  case None
  then show ?thesis by (intro exI [of _ "memory env"]) (simp add: fill_at_def Let_def)
next
  case (Some val)
  let ?l = "size_left env addr (MEM_ATTRIB_WRITE OR attrib)"
  let ?n = "if ?l < unat n then ?l else unat n"
  have "?n div k * k \<le> ?l" by (rule order_trans [OF div_times_less_eq_dividend]) simp
  then have "frame addr ?l (memory env) (fill_loop k st val (?n div k) addr (memory env))"
    by (rule frame_zero_inside [OF fill_loop_frame [OF assms]])
  then show ?thesis using Some by (auto simp: fill_at_def Let_def)
qed

text \<open>The commands that write memory, by their names in the table.\<close>

definition write_commands ::
  "io_answers \<Rightarrow> string \<Rightarrow> (string \<times> ('m lookups_scheme \<Rightarrow> string list \<Rightarrow> int \<times> 'm lookups_scheme)) list" where
  "write_commands io cwd =
     [(''pokew'', pokew_cmd), (''pokeh'', pokeh_cmd), (''pokeb'', pokeb_cmd),
      (''fillw'', fillw_cmd), (''fillh'', fillh_cmd), (''fillb'', fillb_cmd),
      (''copymem'', copymem_cmd), (''loadmem'', loadmem_cmd io cwd)]"

lemma length_bytes_at [simp]: "length (bytes_at m a n) = n"
  by (simp add: bytes_at_def)

text \<open>Only the memory differs, and only in a range that \<open>memValidate\<close> has approved.\<close>

definition confined :: "'m lookups_scheme \<Rightarrow> 'm lookups_scheme \<Rightarrow> bool" where
  "confined env env' \<longleftrightarrow>
     (\<exists>m a n attrib. env' = env\<lparr>memory := m\<rparr> \<and> frame a n (memory env) m \<and> n \<le> size_left env a attrib)"

lemma confined_refl [simp]: "confined env env"
  unfolding confined_def by (intro exI [of _ "memory env"] exI [of _ 0]) simp

lemma confinedI: "frame a n (memory env) m \<Longrightarrow> n \<le> size_left env a attrib \<Longrightarrow> confined env (env\<lparr>memory := m\<rparr>)"
  unfolding confined_def by blast

lemma poke_at_confined:
  assumes "store_ok k st" "k dvd 4" "unat addr mod k = 0"
  shows "confined env (snd (poke_at k st attrib env argv addr))"
proof -
  obtain m where "snd (poke_at k st attrib env argv addr) = env\<lparr>memory := m\<rparr>"
    "frame addr (size_left env addr (MEM_ATTRIB_WRITE OR attrib)) (memory env) m"
    using poke_at_frame [OF assms, of attrib env argv] by blast
  then show ?thesis using confinedI [OF _ order_refl] by simp
qed

lemma fill_at_confined:
  assumes "store_ok k st"
  shows "confined env (snd (fill_at k st attrib env argv addr n))"
proof -
  obtain m where "snd (fill_at k st attrib env argv addr n) = env\<lparr>memory := m\<rparr>"
    "frame addr (size_left env addr (MEM_ATTRIB_WRITE OR attrib)) (memory env) m"
    using fill_at_frame [OF assms, of attrib env argv addr n] by blast
  then show ?thesis using confinedI [OF _ order_refl] by simp
qed

lemma confined_case:
  "(\<And>a. x = Some a \<Longrightarrow> confined env (snd (f a))) \<Longrightarrow> confined env (snd (case x of None \<Rightarrow> (r, env) | Some a \<Rightarrow> f a))"
  by (cases x) simp_all

lemma poke_confined:
  "confined env (snd (pokew_cmd env argv))" "confined env (snd (pokeh_cmd env argv))" "confined env (snd (pokeb_cmd env argv))"
  unfolding pokew_cmd_def pokeh_cmd_def pokeb_cmd_def
  by (rule confined_case, rule poke_at_confined, rule stores_ok, simp, simp add: aligned_masks [simplified])+

lemma fill_confined:
  "confined env (snd (fillw_cmd env argv))" "confined env (snd (fillh_cmd env argv))" "confined env (snd (fillb_cmd env argv))"
  unfolding fillw_cmd_def fillh_cmd_def fillb_cmd_def split_beta
  by (rule confined_case, rule fill_at_confined, rule stores_ok)+

lemma copymem_confined: "confined env (snd (copymem_cmd env argv))"
proof (cases "decode2 env argv")
  case (Some p)
  obtain src dest where p: "p = (src, dest)" by fastforce
  show ?thesis
  proof (cases "memDecode env (argv ! 2)")
    case (Some n)
    let ?l = "size_left env dest (MEM_ATTRIB_WRITE OR MEM_ATTRIB_BYTE)"
    have "confined env (env\<lparr>memory := c_memmove dest src c (memory env)\<rparr>)" if "c \<le> ?l" for c
      using put_list_frame [of dest "bytes_at (memory env) src c" "memory env"] that
      by (intro confinedI [of dest c _ _ "MEM_ATTRIB_WRITE OR MEM_ATTRIB_BYTE"]) (simp_all add: c_memmove_def)
    then show ?thesis using \<open>decode2 env argv = Some p\<close> p Some by (simp add: copymem_cmd_def Let_def)
  qed (use Some p in \<open>simp add: copymem_cmd_def\<close>)
qed (simp add: copymem_cmd_def)

lemma loadmem_confined:
  assumes "reads_ok (io_reads io)"
  shows "confined env (snd (loadmem_cmd io cwd env argv))"
proof -
  have "confined env (env\<lparr>memory := fst (load_loop (io_reads io) addr 0 0
      (load_limit mx (size_left env addr (MEM_ATTRIB_READ OR MEM_ATTRIB_BYTE))) (memory env))\<rparr>)" for addr mx
    using load_loop_frame [OF assms, of 0] 
    by (rule confinedI [where attrib = "MEM_ATTRIB_READ OR MEM_ATTRIB_BYTE"]) (auto simp: load_limit_def nat_le_iff)
  then show ?thesis by (simp add: loadmem_cmd_def Let_def split: option.split prod.split)
qed

lemma write_commands_confined:
  assumes "(name, cmd) \<in> set (write_commands io cwd)" "reads_ok (io_reads io)"
  shows "confined env (snd (cmd env argv))"
  using assms poke_confined fill_confined copymem_confined loadmem_confined [OF assms(2)]
  by (auto simp: write_commands_def)

text \<open>
  C12: With memory protection on, no command of the shell that writes memory, whatever its arguments and
  whatever a file contains, changes a byte outside the regions of the memory map that exist on the
  firmware, or anything but memory.
\<close>

theorem memory_commands_confined:
  assumes "(name, cmd) \<in> set (write_commands io cwd)" "reads_ok (io_reads io)" "\<not> protoff env"
  shows "snd (cmd env argv) = env\<lparr>memory := memory (snd (cmd env argv))\<rparr> \<and>
    (\<forall>x. memory (snd (cmd env argv)) x \<noteq> memory env x \<longrightarrow> valid_byte (isv1 env) x)"
proof -
  obtain m a n attrib where m: "snd (cmd env argv) = env\<lparr>memory := m\<rparr>" "frame a n (memory env) m"
    "n \<le> size_left env a attrib"
    using write_commands_confined [OF assms(1,2)] unfolding confined_def by blast
  then show ?thesis using frame_valid [OF m(2) assms(3) m(3)] by simp
qed

text \<open>A state in which no name is known.\<close>

definition plain_env :: "mem \<Rightarrow> lookups" where
  "plain_env m =
     \<lparr>wide_shl = \<lambda>_ _. 0, wide_shr = \<lambda>_ _. 0, find_module = \<lambda>_. None,
      refer_module = \<lambda>_. \<lparr>text_addr = 0, text_size = 0, data_size = 0, bss_size = 0, segments = []\<rparr>,
      export_by_nid = \<lambda>_ _ _. 0, export_by_name = \<lambda>_ _ _. 0, thread_by_name = \<lambda>_. None, refer_thread = \<lambda>_. None,
      symbol = \<lambda>_. (0, 0), get_reg = \<lambda>_. None, memory = m, isv1 = False, protoff = False\<rparr>"

definition full_io :: "u8 list \<Rightarrow> io_answers" where
  "full_io cs = \<lparr>io_stat = \<lambda>_. None, io_opens = \<lambda>_. True, io_writes = \<lambda>_ n. int n,
     io_reads = \<lambda>_ p n. Some (take n (drop p cs))\<rparr>"

theorem memory_commands_confined_witness:
  "(''loadmem'', loadmem_cmd (full_io [1, 2, 3]) ''ms0:/'') \<in> set (write_commands (full_io [1, 2, 3]) ''ms0:/'') \<and>
    (\<forall>x. memory (snd (loadmem_cmd (full_io [1, 2, 3]) ''ms0:/'' (plain_env (\<lambda>_. 0)) [''0x8800000'', ''a.bin''])) x = 0
      \<or> valid_byte False x)"
proof -
  have w: "(''loadmem'', loadmem_cmd (full_io [1, 2, 3]) ''ms0:/'') \<in> set (write_commands (full_io [1, 2, 3]) ''ms0:/'')"
    by (simp add: write_commands_def)
  have r: "reads_ok (io_reads (full_io [1, 2, 3]))" and p: "\<not> protoff (plain_env m)"
    and v: "isv1 (plain_env m) = False" "memory (plain_env m) = m" for m
    by (simp_all add: plain_env_def full_io_def reads_ok_def)
  from memory_commands_confined [OF w r p, of "\<lambda>_. 0" "[''0x8800000'', ''a.bin'']"] show ?thesis
    using w unfolding v by blast
qed

section \<open>Poking and peeking\<close>

lemma numeral_print_word: "numeral_of (print_word a) a"
  unfolding numeral_of_def
proof (intro conjI allI impI)
  fix rest assume "rest = [] \<or> hd rest = CHR '' ''"
  moreover have "\<not> digit_in 16 CHR '' ''" by (simp add: digit_in_def is_hex_def upcase_def Let_def)
  ultimately show "strtoul (print_word a @ rest) = (a, rest)" by (intro strtoul_print_word) auto
qed (simp_all add: print_word_def zero_digit)

lemma memDecode_print_word [simp]: "memDecode env (print_word a) = Some a"
proof -
  have "parse_loop env (print_word a @ []) OP_START 0 0 0 = parse_loop env [] OP_NONE 0 0 (do_op env OP_START 0 0 a)"
    using numeral_print_word by (rule parse_loop_number) simp_all
  then show ?thesis
    by (simp add: memDecode_def parse_line_def do_op_def Let_def parse_loop.simps [of env "[]"])
qed

lemma strtoul_print_word_Nil [simp]: "strtoul (print_word v) = (v, [])"
  using strtoul_print_word [of "[]" v] by simp

text \<open>Every region has every attribute, so the answers do not depend on those asked for.\<close>

lemma size_left_attrib: "size_left env a attrib = size_left env a attrib'"
proof -
  have all: "MEM_ATTRIB_ALL = - 1" by simp
  have "validate_scan v1 es a attrib = validate_scan v1 es a attrib'" if "\<forall>e \<in> set es. m_attrib e = MEM_ATTRIB_ALL" for es v1
    using that unfolding all by (induction es) auto
  moreover have "\<forall>e \<in> set g_memareas. m_attrib e = MEM_ATTRIB_ALL" by (simp add: g_memareas_def entry_def)
  ultimately show ?thesis by (simp add: size_left_def memValidate_def memValidate_in_def)
qed

lemma size_left_step:
  assumes "\<not> protoff env" "k < size_left env a attrib"
  shows "size_left env (a + of_nat k) attrib = size_left env a attrib - k"
  using memValidate_inside [of "isv1 env" a attrib "size_left env a attrib" k] assms by (simp add: size_left_def)

lemma lw_frame:
  assumes "frame (a + 4) n m m'" "n + 4 \<le> 2 ^ 32"
  shows "lw m' a = lw m a"
proof -
  have d: "a - (a + 4) = - 4" "a + 1 - (a + 4) = - 3" "a + 2 - (a + 4) = - 2" "a + 3 - (a + 4) = - 1" by simp_all
  have "m' x = m x" if "n \<le> unat (x - (a + 4))" for x using assms(1) that by (simp add: frame_def)
  from this [of a] this [of "a + 1"] this [of "a + 2"] this [of "a + 3"] show ?thesis
    using assms(2) unfolding d by (simp add: lw_def unsigned_minus_1_eq_mask mask_eq_exp_minus_1)
qed

lemma poke_loop_lw:
  assumes "i < length vs" "4 * int i < left" "4 dvd left" "left \<le> 2 ^ 32" "list_all (\<lambda>v. snd (strtoul v) = []) vs"
  shows "lw (poke_loop 4 sw vs addr left m) (addr + of_nat (4 * i)) = fst (strtoul (vs ! i))"
  using assms
proof (induction vs arbitrary: i addr left m)
  case (Cons v vs)
  let ?m = "sw m addr (fst (strtoul v))"
  have st: "snd (strtoul v) = []" using Cons.prems(5) by simp
  show ?case
  proof (cases "left - 4 \<le> 0")
    case True
    then have "i = 0" using Cons.prems(2) by simp
    then show ?thesis using True st by (simp add: lw_sw_same)
  next
    case False
    then have l: "4 \<le> left - 4" "4 dvd left - 4" using Cons.prems(3) by (auto simp: zdvd_imp_le)
    have p: "poke_loop 4 sw (v # vs) addr left m = poke_loop 4 sw vs (addr + 4) (left - 4) ?m"
      using False st by (simp add: Let_def)
    show ?thesis
    proof (cases i)
      case 0
      have "frame (addr + 4) (nat (left - 4)) ?m (poke_loop 4 sw vs (addr + 4) (left - 4) ?m)"
        using poke_loop_frame [OF stores_ok(3), of "left - 4" "addr + 4" ?m vs] l by simp
      then show ?thesis using 0 p lw_frame Cons.prems(4) l by (simp add: lw_sw_same)
    next
      case (Suc j)
      have "addr + of_nat (4 * i) = addr + 4 + of_nat (4 * j)" using Suc by simp
      then show ?thesis using Cons.IH [of j "left - 4" "addr + 4" ?m] Cons.prems Suc l p by (simp add: add.assoc)
    qed
  qed
qed simp

lemma peek_line_hex: "peek_line (Some fcvt) 8 [x] a v = print_word a @ '': '' @ print_word v"
  by (simp add: peek_line_def print_word_def Let_def)

text \<open>
  What is poked is peeked. If \<open>pokew\<close> gets an expression for an address and words that fit in the
  region, then \<open>peekw\<close> at any of the words shows it, both written as the program prints them.
\<close>

theorem poke_peek_roundtrip:
  assumes "memDecode env expr = Some addr" "a = addr AND NOT 3" "\<not> protoff env"
    "i < length vs" "4 * i < size_left env a (MEM_ATTRIB_WRITE OR MEM_ATTRIB_WORD)"
  shows "peekw_cmd fcvt (snd (pokew_cmd env (expr # map print_word vs))) [print_word (a + of_nat (4 * i))] =
    (CMD_OK, [print_word (a + of_nat (4 * i)) @ '': '' @ print_word (vs ! i)])"
proof -
  let ?w = "MEM_ATTRIB_WRITE OR MEM_ATTRIB_WORD" and ?b = "a + of_nat (4 * i)"
  let ?l = "size_left env a ?w"
  let ?env = "env\<lparr>memory := poke_loop 4 sw (map print_word vs) a (int ?l) (memory env)\<rparr>"
  have a: "unat a mod 4 = 0" using assms(2) aligned_masks(1) by simp
  have d: "4 dvd ?l" using size_left_dvd [OF _ a] by simp
  have l: "4 \<le> ?l" using d assms(5) by (auto simp: dvd_imp_le)
  have "?l \<le> 2 ^ 32"
    using memValidate_inside [of "isv1 env" a ?w ?l 0] assms(3) l by (simp add: size_left_def)
  then have v: "lw (memory ?env) ?b = vs ! i"
    using poke_loop_lw [of i "map print_word vs" "int ?l" a "memory env"] assms(4,5) d
      int_dvd_int_iff [of 4 ?l]
    by (simp add: list_all_length)
  have poke: "snd (pokew_cmd env (expr # map print_word vs)) = ?env"
    using assms(1,2) l by (simp add: pokew_cmd_def poke_at_def Let_def)
  have "size_left env ?b ?w = ?l - 4 * i" by (rule size_left_step [OF assms(3,5)])
  then have "4 dvd size_left env ?b ?w" "0 < size_left env ?b ?w" using d assms(5) by (auto simp: dvd_diff_nat)
  then have "4 \<le> size_left ?env ?b (MEM_ATTRIB_READ OR MEM_ATTRIB_WORD)"
    using size_left_attrib [of env ?b ?w "MEM_ATTRIB_READ OR MEM_ATTRIB_WORD"] by (auto simp: size_left_def dvd_imp_le)
  moreover have "?b AND NOT 3 = ?b"
  proof -
    have "4 * i mod 2 ^ 32 mod 4 = 0" by (simp add: mod_mod_cancel)
    then have "aligned (of_nat (4 * i))" unfolding aligned_unat unat_of_nat by simp
    moreover have "aligned a" using a by (simp add: aligned_unat)
    ultimately have "?b AND 3 = 0" using aligned_add [of a "of_nat (4 * i)"] by (simp only: aligned_def)
    then show ?thesis unfolding word_and_not_eq_diff by simp
  qed
  ultimately show ?thesis
    using v by (simp add: peekw_cmd_def poke peek_line_hex Let_def)
qed

theorem poke_peek_roundtrip_witness:
  "peekw_cmd (\<lambda>_. []) (snd (pokew_cmd (plain_env (\<lambda>_. 0)) (print_word 0x08800001 # map print_word [7, 0xCAFE])))
      [print_word 0x08800004] = (CMD_OK, [print_word 0x08800004 @ '': '' @ print_word 0xCAFE])"
proof -
  have s: "size_left (plain_env (\<lambda>_. 0)) 0x08800000 (MEM_ATTRIB_WRITE OR MEM_ATTRIB_WORD) = 0x1800000"
    by (simp add: size_left_def plain_env_def memValidate_def memValidate_in_def g_memareas_def entry_def in_entry_def)
  have "(0x08800000 :: u32) = 0x08800001 AND NOT 3" by (simp add: word_and_not_eq_diff)
  from poke_peek_roundtrip [OF memDecode_print_word this, of "plain_env (\<lambda>_. 0)" 1 "[7, 0xCAFE]" "\<lambda>_. []"] s
  show ?thesis by (simp add: plain_env_def)
qed

section \<open>Searching\<close>

definition match_at :: "mem \<Rightarrow> u8 list option \<Rightarrow> u8 list \<Rightarrow> u32 \<Rightarrow> bool" where
  "match_at m msk search a \<longleftrightarrow> masked msk (bytes_at m a (length search)) = search"

lemma bytes_at_drop: "k + n \<le> l \<Longrightarrow> take n (drop k (bytes_at m a l)) = bytes_at m (a + of_nat k) n"
  by (auto simp: bytes_at_def list_eq_iff_nth_eq add.assoc)

lemma memmem_bytes:
  assumes "pred_option (\<lambda>ms. length ms = length search) msk"
  shows "memmem_mask (bytes_at m a n) msk (int n) search (int (length search)) = Some j \<longleftrightarrow>
    j + length search \<le> n \<and> match_at m msk search (a + of_nat j) \<and>
    (\<forall>k < j. \<not> match_at m msk search (a + of_nat k))"
proof -
  have "\<forall>ms. msk = Some ms \<longrightarrow> length ms = length search" using assms by auto
  note M = memmem_mask_Some [OF _ refl this, of "int n" "bytes_at m a n" j]
  have "masked msk (take (length search) (drop k (bytes_at m a n))) = search \<longleftrightarrow> match_at m msk search (a + of_nat k)"
    if "k \<le> j" "j + length search \<le> n" for k
    using that by (simp add: bytes_at_drop match_at_def)
  then show ?thesis using M by auto
qed

lemma find_loop_all:
  assumes "pred_option (\<lambda>ms. length ms = length search) msk" "search \<noteq> []"
  shows "find_loop m msk search a (int n) =
    map (\<lambda>k. a + of_nat k) (filter (\<lambda>k. match_at m msk search (a + of_nat k)) [0..<n + 1 - length search])"
proof (induction n arbitrary: a rule: less_induct)
  case (less n)
  let ?l = "length search"
  show ?case
  proof (cases "memmem_mask (bytes_at m a n) msk (int n) search (int ?l)")
    case None
    have "\<not> match_at m msk search (a + of_nat k)" if "k < n + 1 - ?l" for k
    proof
      assume "match_at m msk search (a + of_nat k)"
      define j where "j = (LEAST j. match_at m msk search (a + of_nat j))"
      have "match_at m msk search (a + of_nat j)" "\<forall>i < j. \<not> match_at m msk search (a + of_nat i)" "j \<le> k"
        using \<open>match_at m msk search (a + of_nat k)\<close> unfolding j_def
        by (auto intro: LeastI Least_le dest: not_less_Least)
      then show False using memmem_bytes [OF assms(1), of m a n j] None that by auto
    qed
    then show ?thesis using None by (subst find_loop.simps) (simp add: filter_empty_conv)
  next
    case (Some j)
    then have j: "j + ?l \<le> n" "match_at m msk search (a + of_nat j)" "\<forall>k < j. \<not> match_at m msk search (a + of_nat k)"
      using memmem_bytes [OF assms(1)] by auto
    let ?n = "n - (j + 1)" and ?P = "\<lambda>a k. match_at m msk search (a + of_nat k)"
    let ?q = "?n + 1 - ?l"
    have l: "0 < ?l" using assms(2) by simp
    have arith: "j + q \<le> n \<Longrightarrow> 0 < q \<Longrightarrow> n + 1 - q = j + 1 + (n - (j + 1) + 1 - q) \<and> n - (j + 1) < n" for q :: nat
      by arith
    then have n: "n + 1 - ?l = j + 1 + ?q" "?n < n" using j(1) l by blast+
    have U: "[0..<j + 1 + q] = [0..<j] @ [j] @ map (\<lambda>i. i + (j + 1)) [0..<q]" for q
      by (induction q) simp_all
    have "filter (?P a) [0..<j] = []" using j(3) by (simp add: filter_empty_conv)
    then have F: "filter (?P a) [0..<j + 1 + q] = j # map (\<lambda>i. i + (j + 1)) (filter (?P (a + of_nat j + 1)) [0..<q])" for q
      unfolding U using j(2) by (simp add: filter_map comp_def add_ac)
    note f = F [of ?q, folded n(1)]
    have n'_eq: "int n - (int j + 1) = int ?n"
    proof -
      have "j + 1 \<le> n" using j(1) l by linarith
      then show ?thesis by simp
    qed
    have "find_loop m msk search a (int n) = (a + of_nat j) # (if ?n = 0 then [] else find_loop m msk search (a + of_nat j + 1) (int ?n))"
      by (subst find_loop.simps) (simp only: nat_int Some option.case Let_def n'_eq of_nat_eq_0_iff)
    also have "\<dots> = (a + of_nat j) # map (\<lambda>k. a + of_nat j + 1 + of_nat k) (filter (?P (a + of_nat j + 1)) [0..<?q])"
    proof (cases "?n = 0")
      case True
      then have "?q = 0" using l by linarith
      then show ?thesis using True by (simp only: if_True upt_0 filter.simps list.map refl)
    next
      case False
      then show ?thesis by (simp only: less.IH [OF n(2)] if_False)
    qed
    finally show ?thesis unfolding f by (simp add: add_ac)
  qed
qed

lemma find_at_all:
  assumes "pred_option (\<lambda>ms. length ms = length search) msk" "search \<noteq> []"
  shows "find_at env msk search addr n = (CMD_OK,
    map (\<lambda>k. addr + of_nat k) (filter (\<lambda>k. match_at (memory env) msk search (addr + of_nat k))
      [0..<min (unat n) (size_left env addr (MEM_ATTRIB_READ OR MEM_ATTRIB_BYTE)) + 1 - length search]))"
  by (simp add: find_at_def find_loop_all [OF assms] Let_def min_def)

text \<open>
  The search commands find every match. \<open>findhex\<close> with a mask prints exactly the addresses of the
  region asked for, within its valid part, at which the masked memory equals the search string, each
  once and in increasing order.
\<close>

theorem findhex_complete:
  assumes "memDecode env ea = Some addr" "memDecode env en = Some n"
    "decode_hexstr hs 128 = Some search" "decode_hexstr ms 128 = Some msk" "length msk = length search" "search \<noteq> []"
  shows "findhex_cmd env [ea, en, hs, ms] = (CMD_OK,
    map (\<lambda>k. addr + of_nat k) (filter (\<lambda>k. map2 (AND) (bytes_at (memory env) (addr + of_nat k) (length search)) msk = search)
      [0..<min (unat n) (size_left env addr (MEM_ATTRIB_READ OR MEM_ATTRIB_BYTE)) + 1 - length search]))"
proof -
  have "hex_arg hs = Some search" "hex_arg ms = Some msk"
    using assms(3-6) by (cases search; cases msk; simp add: hex_arg_def)+
  moreover have "match_at (memory env) (Some msk) search = (\<lambda>a. map2 (AND) (bytes_at (memory env) a (length search)) msk = search)"
    by (simp add: match_at_def masked_def fun_eq_iff)
  ultimately show ?thesis
    using find_at_all [of search "Some msk" env addr n] assms(1,2,5,6) by (simp add: findhex_cmd_def decode2_def)
qed

theorem findhex_complete_witness:
  "findhex_cmd (plain_env (\<lambda>a. ucast a)) [print_word 0x08800000, print_word 8, ''05'', ''0f''] =
    (CMD_OK, [0x08800005])"
proof -
  let ?env = "plain_env (\<lambda>a. ucast a)"
  have h: "decode_hexstr ''05'' 128 = Some [5]" "decode_hexstr ''0f'' 128 = Some [0x0F]"
    by (simp_all add: decode_hexstr_def is_hex_def hex_to_int_def upcase_def Let_def)
  have mem: "memory ?env = ucast" by (simp add: plain_env_def)
  have s: "size_left ?env 0x08800000 (MEM_ATTRIB_READ OR MEM_ATTRIB_BYTE) = 0x1800000"
    by (simp add: size_left_def plain_env_def memValidate_def memValidate_in_def g_memareas_def entry_def in_entry_def)
  from findhex_complete [OF memDecode_print_word [where env = "?env" and a = "0x08800000"] memDecode_print_word [where a = "8"] h]
  show ?thesis
    by (simp add: s [simplified] bytes_at_def mem upt_conv_Cons)
qed

section \<open>Saving and loading\<close>

lemma bytes_at_add: "bytes_at m a (i + j) = bytes_at m a i @ bytes_at m (a + of_nat i) j"
  by (auto simp: bytes_at_def list_eq_iff_nth_eq nth_append add.assoc simp flip: of_nat_add)

definition writes_ok :: "(nat \<Rightarrow> nat \<Rightarrow> int) \<Rightarrow> bool" where
  "writes_ok wr \<longleftrightarrow> (\<forall>k n. 0 < n \<longrightarrow> 0 < wr k n \<and> wr k n \<le> int n)"

lemma save_loop_all:
  "writes_ok wr \<Longrightarrow> 0 \<le> written \<Longrightarrow>
    save_loop wr m addr k written n = bytes_at m (addr + word_of_int written) (nat (n - written))"
proof (induction wr m addr k written n rule: save_loop.induct)
  case (1 wr m addr k written n)
  show ?case
  proof (cases "written < n")
    case True
    let ?r = "wr k (nat (n - written))"
    have r: "0 < ?r" "?r \<le> n - written" 
      using "1.prems"(1) [unfolded writes_ok_def, rule_format, of "nat (n - written)" k] True by simp_all
    have "nat (n - written) = nat ?r + nat (n - (written + ?r))" using r by simp
    then have "bytes_at m b (nat (n - written)) = bytes_at m b (nat ?r) @ bytes_at m (b + of_nat (nat ?r)) (nat (n - (written + ?r)))" for b
      using bytes_at_add [of m b "nat ?r" "nat (n - (written + ?r))"] by metis
    then show ?thesis
      using True r "1.IH" [OF True refl] "1.prems"
      by (subst save_loop.simps) (simp add: Let_def add.assoc)
  qed (subst save_loop.simps, simp add: bytes_at_def)
qed

definition delivers :: "(nat \<Rightarrow> nat \<Rightarrow> nat \<Rightarrow> u8 list option) \<Rightarrow> u8 list \<Rightarrow> bool" where
  "delivers rd cs \<longleftrightarrow> (\<forall>k p n. 0 < n \<longrightarrow> (\<exists>c > 0. rd k p n = Some (take (min c n) (drop p cs))))"

lemma put_list_append: "put_list (bs @ cs) a m = put_list cs (a + of_nat (length bs)) (put_list bs a m)"
proof (induction cs rule: rev_induct)
  case (snoc c cs)
  show ?case
    by (simp add: put_list_snoc snoc add.assoc flip: append_assoc)
qed (simp add: put_list_def)

lemma load_loop_all:
  "delivers rd cs \<Longrightarrow> readbytes \<le> length cs \<Longrightarrow> length cs \<le> n \<Longrightarrow>
    fst (load_loop rd addr k readbytes n m) = put_list (drop readbytes cs) (addr + of_nat readbytes) m"
proof (induction rd addr k readbytes n m rule: load_loop.induct)
  case (1 rd addr k readbytes n m)
  show ?case
  proof (cases "readbytes < n")
    case False
    then show ?thesis using "1.prems" by (subst load_loop.simps) (simp add: put_list_def)
  next
    case True
    then obtain c where c: "0 < c" "rd k readbytes (n - readbytes) = Some (take (min c (n - readbytes)) (drop readbytes cs))"
      using "1.prems"(1) unfolding delivers_def by (meson zero_less_diff)
    define bs where "bs = take (min c (n - readbytes)) (drop readbytes cs)"
    note rd = c(2) [folded bs_def]
    show ?thesis
    proof (cases "bs = []")
      case True
      then have "drop readbytes cs = []" using c(1) \<open>readbytes < n\<close> by (auto simp: bs_def)
      then show ?thesis using \<open>readbytes < n\<close> rd True by (subst load_loop.simps) (simp add: put_list_def)
    next
      case False
      let ?r = "readbytes + length bs"
      have tk: "xs = take k xs @ drop (length (take k xs)) xs" for k and xs :: "u8 list"
        by (cases "k \<le> length xs") simp_all
      have "drop readbytes cs = bs @ drop (length bs) (drop readbytes cs)"
        unfolding bs_def using tk by blast
      then have d: "drop readbytes cs = bs @ drop ?r cs" by (simp add: add.commute)
      have "put_list (drop readbytes cs) (addr + of_nat readbytes) m =
          put_list (drop ?r cs) (addr + of_nat ?r) (put_list bs (addr + of_nat readbytes) m)"
        by (subst d) (simp add: put_list_append add.assoc)
      moreover have "?r \<le> length cs" using "1.prems"(2) by (simp add: bs_def)
      ultimately show ?thesis
        using "1.IH" [OF \<open>readbytes < n\<close> rd False "1.prems"(1) _ "1.prems"(3)] \<open>readbytes < n\<close> rd False
        by (subst load_loop.simps) simp
    qed
  qed
qed

lemma put_list_same: "length bs \<le> 2 ^ 32 \<Longrightarrow> bytes_at (put_list bs a m) a (length bs) = bs"
proof (induction bs rule: rev_induct)
  case (snoc b bs)
  have "a + of_nat i \<noteq> a + of_nat (length bs)" if "i < length bs" for i
  proof
    assume "a + of_nat i = a + of_nat (length bs)"
    then have "unat (of_nat i :: u32) = unat (of_nat (length bs) :: u32)" by simp
    moreover have "i < 2 ^ 32" "length bs < 2 ^ 32" using that snoc.prems by simp_all
    ultimately show False using that by (simp add: unat_of_nat)
  qed
  then have "bytes_at ((put_list bs a m)(a + of_nat (length bs) := b)) a (length bs) = bytes_at (put_list bs a m) a (length bs)"
    by (auto simp: bytes_at_def)
  then show ?case
    using snoc by (simp add: put_list_snoc bytes_at_add [of _ _ "length bs" 1, simplified]) (simp add: bytes_at_def)
qed (simp add: bytes_at_def)

text \<open>
  C13: Memory that was saved loads back. The file written by \<open>savemem\<close>, however the kernel splits the
  writes, holds the bytes from the address up to the size asked for or the end of the region; loading
  such a file, however the reads are split, puts the same bytes there and changes nothing else.
\<close>

theorem savemem_loadmem:
  assumes "savemem_cmd io cwd env [ea, en, ef] = (CMD_OK, Some (path, cs))" "memDecode env ea = Some addr"
    "strtoul en = (n, [])" "writes_ok (io_writes io)"
    "handlepath (io_stat io') (io_opens io') cwd' ef' TYPE_FILE True = Some path'" "io_opens io' path'"
    "memDecode env' ea' = Some addr" "delivers (io_reads io') cs"
    "\<not> protoff env'" "length cs \<le> size_left env' addr (MEM_ATTRIB_READ OR MEM_ATTRIB_BYTE)"
  shows "cs = bytes_at (memory env) addr (nat (min (sint n) (int (size_left env addr (MEM_ATTRIB_READ OR MEM_ATTRIB_BYTE))))) \<and>
    bytes_at (memory (snd (loadmem_cmd io' cwd' env' [ea', ef']))) addr (length cs) = cs \<and>
    frame addr (length cs) (memory env') (memory (snd (loadmem_cmd io' cwd' env' [ea', ef'])))"
proof -
  let ?l = "size_left env addr (MEM_ATTRIB_READ OR MEM_ATTRIB_BYTE)"
  let ?l' = "size_left env' addr (MEM_ATTRIB_READ OR MEM_ATTRIB_BYTE)"
  have "cs = save_loop (io_writes io) (memory env) addr 0 0 (if int ?l < sint n then int ?l else sint n)"
    using assms(1-3) by (auto simp: savemem_cmd_def Let_def split: option.splits if_splits)
  then have cs: "cs = bytes_at (memory env) addr (nat (min (sint n) (int ?l)))"
    by (simp add: save_loop_all [OF assms(4)] min_def)
  have "load_limit (sint (- 1 :: u32)) ?l' = ?l'" by (simp add: load_limit_def)
  then have m: "memory (snd (loadmem_cmd io' cwd' env' [ea', ef'])) = put_list cs addr (memory env')"
    using assms(5-7) load_loop_all [OF assms(8), of 0 ?l' addr 0 "memory env'"] assms(10)
    by (simp add: loadmem_cmd_def Let_def)
  have "length cs \<le> 2 ^ 32"
  proof (cases "cs = []")
    case False
    then have "0 < length cs" by simp
    then have "0 < ?l'" using assms(10) by linarith
    then show ?thesis
      using memValidate_inside [of "isv1 env'" addr "MEM_ATTRIB_READ OR MEM_ATTRIB_BYTE" ?l' 0] assms(9,10)
      unfolding size_left_def by simp
  qed simp
  then show ?thesis unfolding m by (intro conjI cs put_list_same put_list_frame)
qed

theorem savemem_loadmem_witness:
  "\<exists>cs. savemem_cmd (full_io []) ''ms0:/'' (plain_env (\<lambda>a. ucast a)) [print_word 0x08800003, ''4'', ''a.bin'']
       = (CMD_OK, Some (''ms0:/a.bin'', cs)) \<and>
     bytes_at (memory (snd (loadmem_cmd (full_io cs) ''ms0:/'' (plain_env (\<lambda>_. 0)) [print_word 0x08800003, ''a.bin''])))
       0x08800003 4 = [3, 4, 5, 6]"
proof -
  let ?env = "plain_env (\<lambda>a. ucast a)" and ?env' = "plain_env (\<lambda>_. 0)"
  let ?cs = "[3, 4, 5, 6] :: u8 list"
  have l: "size_left (plain_env m) 0x08800003 (MEM_ATTRIB_READ OR MEM_ATTRIB_BYTE) = 0x1800000 - 3" for m
    by (simp add: size_left_def plain_env_def memValidate_def memValidate_in_def g_memareas_def entry_def in_entry_def)
  have n: "strtoul ''4'' = (4, [])" by code_simp
  have p: "handlepath (io_stat (full_io c)) (io_opens (full_io c)) ''ms0:/'' ''a.bin'' TYPE_FILE b = Some ''ms0:/a.bin''" for b c
  proof (cases b)
    case True
    have "handlepath (\<lambda>_. None) (\<lambda>_. True) ''ms0:/'' ''a.bin'' TYPE_FILE True = Some ''ms0:/a.bin''" by code_simp
    then show ?thesis using True by (simp add: full_io_def)
  next
    case False
    have "handlepath (\<lambda>_. None) (\<lambda>_. True) ''ms0:/'' ''a.bin'' TYPE_FILE False = Some ''ms0:/a.bin''" by code_simp
    then show ?thesis using False by (simp add: full_io_def)
  qed
  have o: "io_opens (full_io c) x" and m: "memory (plain_env f) = f" for c x f
    by (simp_all add: full_io_def plain_env_def)
  have w: "writes_ok (io_writes (full_io c))" "delivers (io_reads (full_io ?cs)) ?cs" for c
    by (auto simp: writes_ok_def full_io_def delivers_def)
  have s: "savemem_cmd (full_io []) ''ms0:/'' ?env [print_word 0x08800003, ''4'', ''a.bin''] = (CMD_OK, Some (''ms0:/a.bin'', ?cs))"
    using l [of "\<lambda>a. ucast a"]
    by (simp add: savemem_cmd_def p [simplified] n o m save_loop_all [OF w(1)] bytes_at_def upt_conv_Cons)
  have "length ?cs \<le> size_left ?env' 0x08800003 (MEM_ATTRIB_READ OR MEM_ATTRIB_BYTE)" unfolding l by simp
  moreover have "\<not> protoff ?env'" by (simp add: plain_env_def)
  ultimately have "bytes_at (memory (snd (loadmem_cmd (full_io ?cs) ''ms0:/'' ?env' [print_word 0x08800003, ''a.bin'']))) 0x08800003 (length ?cs) = ?cs"
    using savemem_loadmem [OF s memDecode_print_word n w(1) p o memDecode_print_word w(2)] by blast
  then show ?thesis using s by (intro exI [of _ ?cs] conjI) (simp_all add: eval_nat_numeral)
qed

end
