(* ===== verification/Shell.thy ===== *)
theory Shell
  imports ShellMem Conf Args Tty
begin

text \<open>
  \<open>psplink/shell.c\<close>: the shell's variables and prompt, the table of commands, \<open>shellParse\<close>, which sends a
  line to standard input, to a script, to the loader or to a command, and the commands that call it
  again. The functions of \<open>ShellMem\<close> are called as the table says; the other functions of the table are
  an argument (\<open>w_other\<close>), and every call is recorded (\<open>calls\<close>).

  \<open>shellParse\<close> and \<open>scriptRun\<close> call each other without a bound, so the model has a depth: the result is
  \<open>None\<close> when calls are nested deeper.
\<close>

section \<open>The state\<close>

abbreviation MAX_SHELL_VAR :: nat where "MAX_SHELL_VAR \<equiv> 128"

datatype said = Line string | Found u32

text \<open>
  \<open>g_currdir\<close> and \<open>g_config\<close> are the parts of \<open>g_context\<close> in use here; \<open>g_env\<close> is what address
  expressions see, with the memory; \<open>rest\<close> is what only the other functions use.
\<close>

record 'x shell =
  g_shellvars :: "(string \<times> string) list"
  g_ttymode :: bool
  g_lastmod :: string
  g_currdir :: string
  g_config :: ConfigContext
  stdin_data :: stdin_ring
  stdin_waitth :: int
  g_env :: lookups
  g_dump :: dump_state
  g_disasm :: disasm
  out :: "said list"
  saved :: "(string \<times> u8 list) list"
  cache_ops :: "cache_op list"
  calls :: "(string \<times> string list) list"
  rest :: 'x

definition shellvars_start :: "(string \<times> string) list" where
  "shellvars_start = [(''prompt'', ''psplink %d>''), (''path'', [])]"

section \<open>Variables\<close>

fun find_shell_var :: "string \<Rightarrow> (string \<times> string) list \<Rightarrow> string option" where
  "find_shell_var name [] = None"
| "find_shell_var name ((n, data) # vars) = (if name = n then Some data else find_shell_var name vars)"

text \<open>\<open>strncpy\<close> into the variable's array, which is then closed.\<close>

fun update_var :: "string \<Rightarrow> string \<Rightarrow> (string \<times> string) list \<Rightarrow> (string \<times> string) list" where
  "update_var name data [] = []"
| "update_var name data ((n, d) # vars) =
     (if name = n then (n, take (MAX_SHELL_VAR - 1) data) # vars else (n, d) # update_var name data vars)"

definition set_shell_var :: "string \<Rightarrow> string \<Rightarrow> (string \<times> string) list \<Rightarrow> bool \<times> (string \<times> string) list" where
  "set_shell_var name data vars =
     (case find_shell_var name vars of
        None \<Rightarrow> (False, vars) | Some vardata \<Rightarrow> (True, update_var name data vars))"

definition set_cmd :: "string list \<Rightarrow> 'x shell \<Rightarrow> int \<times> 'x shell" where
  "set_cmd argv st =
     (CMD_OK,
      if argv = []
      then st\<lparr>out := out st @ map (\<lambda>(n, d). Line (n @ ''='' @ d)) (g_shellvars st)\<rparr>
      else case split_at (\<lambda>c. c = CHR ''='') (argv ! 0) of
             None \<Rightarrow> st\<lparr>out := out st @ [Line ''Error, must be of the form var=value'']\<rparr>
           | Some (name, equals) \<Rightarrow>
               (let (ok, vars) = set_shell_var name equals (g_shellvars st)
                in if ok then st\<lparr>g_shellvars := vars\<rparr>
                   else st\<lparr>out := out st @ [Line (''Error, couldn't find shell variable '' @ [CHR 0x27] @ name @ [CHR 0x27])]\<rparr>))"

section \<open>The prompt\<close>

definition PASSPROMPT_VAL :: char where
  "PASSPROMPT_VAL = CHR 0xFF"

text \<open>The loop of \<open>print_prompt\<close>: \<open>tmp\<close> is what has been put into the array.\<close>

function prompt_loop :: "string \<Rightarrow> string \<Rightarrow> string \<Rightarrow> string" where
  "prompt_loop cwd fmt tmp =
     (if fmt \<noteq> [] \<and> length tmp < MAX_SHELL_VAR - 2
      then if hd fmt = CHR ''%''
           then (if chead (tl fmt) = CHR ''%'' then prompt_loop cwd (drop 2 fmt) (tmp @ ''%'')
                 else if chead (tl fmt) = CHR ''d''
                 then prompt_loop cwd (drop 2 fmt) (tmp @ take (MAX_SHELL_VAR - length tmp - 1) cwd)
                 else prompt_loop cwd (tl fmt) tmp)
           else prompt_loop cwd (tl fmt) (tmp @ [hd fmt])
      else tmp)"
  by pat_completeness auto
termination
  by (relation "measure (\<lambda>(cwd, fmt, tmp). length fmt)") auto

declare prompt_loop.simps [simp del]

text \<open>The contents of \<open>tmp\<close>, without its NUL.\<close>

definition prompt_text :: "bool \<Rightarrow> string \<Rightarrow> string \<Rightarrow> string" where
  "prompt_text pc cwd fmt =
     (let tmp = prompt_loop cwd fmt (if pc then [PASSPROMPT_VAL] else [])
      in if pc then tmp @ [PASSPROMPT_VAL] else tmp)"

definition print_prompt :: "'x shell \<Rightarrow> string" where
  "print_prompt st =
     (if g_ttymode st then []
      else case find_shell_var ''prompt'' (g_shellvars st) of
             None \<Rightarrow> ''ERROR> ''
           | Some fmt \<Rightarrow> prompt_text (pcterm (g_config st) \<noteq> 0) (g_currdir st) fmt @ '' '')"

section \<open>The table of commands\<close>

record sh_command =
  c_name :: string
  c_syn :: "string option"
  c_func :: "string option"
  c_min_args :: nat
  c_desc :: "string option"
  c_help :: "string option"

definition cmd_entry ::
  "string \<Rightarrow> string option \<Rightarrow> string option \<Rightarrow> nat \<Rightarrow> string option \<Rightarrow> string option \<Rightarrow> sh_command" where
  "cmd_entry n s f k d h = \<lparr>c_name = n, c_syn = s, c_func = f, c_min_args = k, c_desc = d, c_help = h\<rparr>"

text \<open>A function is given by its name in the source.\<close>

definition commands :: "sh_command list" where
  "commands =
  [cmd_entry ''thread'' None None 0 (Some ''Commands to manipulate threads'') None,
   cmd_entry ''thlist'' (Some ''tl'') (Some ''thlist_cmd'') 0 (Some ''List the threads in the system'') (Some ''[v]''),
   cmd_entry ''thsllist'' None (Some ''thsllist_cmd'') 0 (Some ''List the sleeping threads in the system'') (Some ''[v]''),
   cmd_entry ''thdelist'' None (Some ''thdelist_cmd'') 0 (Some ''List the delayed threads in the system'') (Some ''[v]''),
   cmd_entry ''thsulist'' None (Some ''thsulist_cmd'') 0 (Some ''List the suspended threads in the system'') (Some ''[v]''),
   cmd_entry ''thdolist'' None (Some ''thdolist_cmd'') 0 (Some ''List the dormant threads in the system'') (Some ''[v]''),
   cmd_entry ''thinfo'' (Some ''ti'') (Some ''thinfo_cmd'') 1 (Some ''Print info about a thread'') (Some ''uid|@name''),
   cmd_entry ''thsusp'' (Some ''ts'') (Some ''thsusp_cmd'') 1 (Some ''Suspend a thread'') (Some ''uid|@name''),
   cmd_entry ''thspuser'' None (Some ''thspuser_cmd'') 0 (Some ''Suspend all user threads'') (Some ''''),
   cmd_entry ''thresm'' (Some ''tr'') (Some ''thresm_cmd'') 1 (Some ''Resume a thread'') (Some ''uid|@name''),
   cmd_entry ''thwake'' (Some ''tw'') (Some ''thwake_cmd'') 1 (Some ''Wakeup a thread'') (Some ''uid|@name''),
   cmd_entry ''thterm'' (Some ''tt'') (Some ''thterm_cmd'') 1 (Some ''Terminate a thread'') (Some ''uid|@name''),
   cmd_entry ''thdel'' (Some ''td'') (Some ''thdel_cmd'') 1 (Some ''Delete a thread'') (Some ''uid|@name''),
   cmd_entry ''thtdel'' (Some ''tx'') (Some ''thtdel_cmd'') 1 (Some ''Terminate and delete a thread'') (Some ''uid|@name''),
   cmd_entry ''thctx'' (Some ''tt'') (Some ''thctx_cmd'') 1 (Some ''Find and print the full thread context'') (Some ''uid|@name''),
   cmd_entry ''thpri'' (Some ''tp'') (Some ''thpri_cmd'') 2 (Some ''Change a threads current priority'') (Some ''uid|@name pri''),
   cmd_entry ''evlist'' (Some ''el'') (Some ''evlist_cmd'') 0 (Some ''List the event flags in the system'') (Some ''[v]''),
   cmd_entry ''evinfo'' (Some ''ei'') (Some ''evinfo_cmd'') 1 (Some ''Print info about an event flag'') (Some ''uid|@name''),
   cmd_entry ''smlist'' (Some ''sl'') (Some ''smlist_cmd'') 0 (Some ''List the semaphores in the system'') (Some ''[v]''),
   cmd_entry ''sminfo'' (Some ''si'') (Some ''sminfo_cmd'') 1 (Some ''Print info about a semaphore'') (Some ''uid|@name''),
   cmd_entry ''mxlist'' (Some ''xl'') (Some ''mxlist_cmd'') 0 (Some ''List the message boxes in the system'') (Some ''[v]''),
   cmd_entry ''mxinfo'' (Some ''xi'') (Some ''mxinfo_cmd'') 1 (Some ''Print info about a message box'') (Some ''uid|@name''),
   cmd_entry ''cblist'' (Some ''cl'') (Some ''cblist_cmd'') 0 (Some ''List the callbacks in the system'') (Some ''[v]''),
   cmd_entry ''cbinfo'' (Some ''ci'') (Some ''cbinfo_cmd'') 1 (Some ''Print info about a callback'') (Some ''uid|@name''),
   cmd_entry ''vtlist'' (Some ''zl'') (Some ''vtlist_cmd'') 0 (Some ''List the virtual timers in the system'') (Some ''[v]''),
   cmd_entry ''vtinfo'' (Some ''zi'') (Some ''vtinfo_cmd'') 1 (Some ''Print info about a virtual timer'') (Some ''uid|@name''),
   cmd_entry ''vpllist'' (Some ''vl'') (Some ''vpllist_cmd'') 0 (Some ''List the variable pools in the system'') (Some ''[v]''),
   cmd_entry ''vplinfo'' (Some ''vi'') (Some ''vplinfo_cmd'') 1 (Some ''Print info about a variable pool'') (Some ''uid|@name''),
   cmd_entry ''fpllist'' (Some ''fl'') (Some ''fpllist_cmd'') 0 (Some ''List the fixed pools in the system'') (Some ''[v]''),
   cmd_entry ''fplinfo'' (Some ''fi'') (Some ''fplinfo_cmd'') 1 (Some ''Print info about a fixed pool'') (Some ''uid|@name''),
   cmd_entry ''mpplist'' (Some ''pl'') (Some ''mpplist_cmd'') 0 (Some ''List the message pipes in the system'') (Some ''[v]''),
   cmd_entry ''mppinfo'' (Some ''pi'') (Some ''mppinfo_cmd'') 1 (Some ''Print info about a message pipe'') (Some ''uid|@name''),
   cmd_entry ''thevlist'' (Some ''tel'') (Some ''thevlist_cmd'') 0 (Some ''List the thread event handlers in the system'') (Some ''[v]''),
   cmd_entry ''thevinfo'' (Some ''tei'') (Some ''thevinfo_cmd'') 1 (Some ''Print info about a thread event handler'') (Some ''uid|@name''),
   cmd_entry ''thmon'' (Some ''tm'') (Some ''thmon_cmd'') 1 (Some ''Monitor thread events'') (Some ''u|k|a [csed]''),
   cmd_entry ''thmonoff'' None (Some ''thmonoff_cmd'') 0 (Some ''Disable the thread monitor'') (Some ''''),
   cmd_entry ''sysstat'' None (Some ''sysstat_cmd'') 0 (Some ''Print the system status'') (Some ''''),
   cmd_entry ''module'' None None 0 (Some ''Commands to handle modules'') None,
   cmd_entry ''modlist'' (Some ''ml'') (Some ''modlist_cmd'') 0 (Some ''List the currently loaded modules'') (Some ''[v]''),
   cmd_entry ''modinfo'' (Some ''mi'') (Some ''modinfo_cmd'') 1 (Some ''Print info about a module'') (Some ''uid|@name''),
   cmd_entry ''modstop'' (Some ''ms'') (Some ''modstop_cmd'') 1 (Some ''Stop a running module'') (Some ''uid|@name''),
   cmd_entry ''modunld'' (Some ''mu'') (Some ''modunld_cmd'') 1 (Some ''Unload a module (must be stopped)'') (Some ''uid|@name''),
   cmd_entry ''modstun'' (Some ''mn'') (Some ''modstun_cmd'') 1 (Some ''Stop and unload a module'') (Some ''uid|@name''),
   cmd_entry ''modload'' (Some ''md'') (Some ''modload_cmd'') 1 (Some ''Load a module'') (Some ''path''),
   cmd_entry ''modstart'' (Some ''mt'') (Some ''modstart_cmd'') 1 (Some ''Start a module'') (Some ''uid|@name [args]''),
   cmd_entry ''modexec'' (Some ''me'') (Some ''modexec_cmd'') 1 (Some ''LoadExec a module'') (Some ''[@key] path [args]''),
   cmd_entry ''modaddr'' (Some ''ma'') (Some ''modaddr_cmd'') 1 (Some ''Display info about the module at a specified address'') (Some ''addr''),
   cmd_entry ''exec'' (Some ''e'') (Some ''exec_cmd'') 0 (Some ''Execute a new program (under psplink)'') (Some ''[path] [args]''),
   cmd_entry ''ldstart'' (Some ''ld'') (Some ''ldstart_cmd'') 1 (Some ''Load and start a module'') (Some ''path [args]''),
   cmd_entry ''kill'' (Some ''k'') (Some ''kill_cmd'') 1 (Some ''Kill a module and all it's threads'') (Some ''uid|@name''),
   cmd_entry ''debug'' (Some ''d'') (Some ''debug_cmd'') 1 (Some ''Start a module under GDB'') (Some ''program.elf [args]''),
   cmd_entry ''modexp'' (Some ''mp'') (Some ''modexp_cmd'') 1 (Some ''List the exports from a module'') (Some ''uid|@name''),
   cmd_entry ''modimp'' None (Some ''modimp_cmd'') 1 (Some ''List the imports in a module'') (Some ''uid|@name''),
   cmd_entry ''modfindx'' (Some ''mfx'') (Some ''modfindx_cmd'') 3 (Some ''Find a module's export address'') (Some ''uid|@name library nid|@name''),
   cmd_entry ''apihook'' None (Some ''apihook_cmd'') 4 (Some ''Hook a user mode API call'') (Some ''uid|@name library nid|@name ret [param]''),
   cmd_entry ''apihooks'' None (Some ''apihooks_cmd'') 4 (Some ''Hook a user mode API call with sleep'') (Some ''uid|@name library nid|@name ret [param]''),
   cmd_entry ''apihp'' None (Some ''apihp_cmd'') 0 (Some ''Print the user mode API hooks'') (Some ''''),
   cmd_entry ''apihd'' None (Some ''apihd_cmd'') 1 (Some ''Delete an user mode API hook'') (Some ''id''),
   cmd_entry ''memory'' None None 0 (Some ''Commands to manipulate memory'') None,
   cmd_entry ''meminfo'' (Some ''mf'') (Some ''meminfo_cmd'') 0 (Some ''Print free memory info'') (Some ''[partitionid]''),
   cmd_entry ''memreg'' (Some ''mr'') (Some ''memreg_cmd'') 0 (Some ''Print available memory regions (for other commands)'') (Some ''''),
   cmd_entry ''memdump'' (Some ''dm'') (Some ''memdump_cmd'') 0 (Some ''Dump memory to screen'') (Some ''[addr|-] [b|h|w]''),
   cmd_entry ''memblocks'' (Some ''mk'') (Some ''memblocks_cmd'') 0 (Some ''Dump the sysmem block table'') (Some ''[f|t]''),
   cmd_entry ''savemem'' (Some ''sm'') (Some ''savemem_cmd'') 3 (Some ''Save memory to a file'') (Some ''addr size path''),
   cmd_entry ''loadmem'' (Some ''lm'') (Some ''loadmem_cmd'') 2 (Some ''Load memory from a file'') (Some ''addr path [maxsize]''),
   cmd_entry ''pokew'' (Some ''pw'') (Some ''pokew_cmd'') 2 (Some ''Poke words into memory'') (Some ''addr val1 [val2..valN]''),
   cmd_entry ''pokeh'' (Some ''pw'') (Some ''pokeh_cmd'') 2 (Some ''Poke half words into memory'') (Some ''addr val1 [val2..valN]''),
   cmd_entry ''pokeb'' (Some ''pw'') (Some ''pokeb_cmd'') 2 (Some ''Poke bytes into memory'') (Some ''addr val1 [val2..valN]''),
   cmd_entry ''peekw'' (Some ''kw'') (Some ''peekw_cmd'') 1 (Some ''Peek the word at address'') (Some ''addr [o|b|x|f]''),
   cmd_entry ''peekh'' (Some ''kh'') (Some ''peekh_cmd'') 1 (Some ''Peek the half word at address'') (Some ''addr [o|b|x]''),
   cmd_entry ''peekb'' (Some ''kb'') (Some ''peekb_cmd'') 1 (Some ''Peek the byte at address'') (Some ''addr [o|b|x]''),
   cmd_entry ''fillw'' (Some ''fw'') (Some ''fillw_cmd'') 3 (Some ''Fill a block of memory with a word value'') (Some ''addr size val''),
   cmd_entry ''fillh'' (Some ''fh'') (Some ''fillh_cmd'') 3 (Some ''Fill a block of memory with a half value'') (Some ''addr size val''),
   cmd_entry ''fillb'' (Some ''fb'') (Some ''fillb_cmd'') 3 (Some ''Fill a block of memory with a byte value'') (Some ''addr size val''),
   cmd_entry ''copymem'' (Some ''cm'') (Some ''copymem_cmd'') 3 (Some ''Copy a block of memory'') (Some ''srcaddr destaddr size''),
   cmd_entry ''findstr'' (Some ''ns'') (Some ''findstr_cmd'') 3 (Some ''Find an ASCII string'') (Some ''addr size str''),
   cmd_entry ''findhex'' (Some ''nx'') (Some ''findhex_cmd'') 3 (Some ''Find an hexstring string'') (Some ''addr size hexstr [mask]''),
   cmd_entry ''findw'' (Some ''nw'') (Some ''findw_cmd'') 3 (Some ''Find a list of words'') (Some ''addr size val1 [val2..valN]''),
   cmd_entry ''findh'' (Some ''nh'') (Some ''findh_cmd'') 3 (Some ''Find a list of half words'') (Some ''addr size val1 [val2..valN]''),
   cmd_entry ''dcache'' (Some ''dc'') (Some ''dcache_cmd'') 1 (Some ''Perform a data cache operation'') (Some ''w|i|wi [addr size]''),
   cmd_entry ''icache'' (Some ''ic'') (Some ''icache_cmd'') 0 (Some ''Perform an instruction cache operation'') (Some ''[addr size]''),
   cmd_entry ''disasm'' (Some ''di'') (Some ''disasm_cmd'') 1 (Some ''Disassemble instructions'') (Some ''address [count]''),
   cmd_entry ''disopts'' None (Some ''disopts_cmd'') 0 (Some ''Print the current disassembler options'') (Some ''''),
   cmd_entry ''disset'' None (Some ''disset_cmd'') 1 (Some ''Set some disassembler options'') (Some ''options''),
   cmd_entry ''disclear'' None (Some ''disclear_cmd'') 1 (Some ''Clear some disassembler options'') (Some ''options''),
   cmd_entry ''memprot'' None (Some ''memprot_cmd'') 1 (Some ''Set memory protection on or off'') (Some ''on|off''),
   cmd_entry ''fileio'' None None 0 (Some ''Commands to handle file io'') None,
   cmd_entry ''ls'' (Some ''dir'') (Some ''ls_cmd'') 0 (Some ''List the files in a directory'') (Some ''[path1..pathN]''),
   cmd_entry ''chdir'' (Some ''cd'') (Some ''chdir_cmd'') 1 (Some ''Change the current directory'') (Some ''path''),
   cmd_entry ''cp'' (Some ''copy'') (Some ''cp_cmd'') 2 (Some ''Copy a file'') (Some ''source destination''),
   cmd_entry ''mkdir'' None (Some ''mkdir_cmd'') 1 (Some ''Make a Directory'') (Some ''dir''),
   cmd_entry ''rm'' (Some ''del'') (Some ''rm_cmd'') 1 (Some ''Removes a File'') (Some ''file''),
   cmd_entry ''rmdir'' (Some ''rd'') (Some ''rmdir_cmd'') 1 (Some ''Removes a Directory'') (Some ''dir''),
   cmd_entry ''rename'' (Some ''ren'') (Some ''rename_cmd'') 2 (Some ''Renames a File'') (Some ''src dst''),
   cmd_entry ''remap'' None (Some ''remap_cmd'') 2 (Some ''Remaps a device to another'') (Some ''devfrom: devto:''),
   cmd_entry ''pwd'' None (Some ''pwd_cmd'') 0 (Some ''Print the current working directory'') (Some ''''),
   cmd_entry ''debugger'' None None 0 (Some ''Debug commands'') None,
   cmd_entry ''exprint'' (Some ''ep'') (Some ''exprint_cmd'') 0 (Some ''Print the current exception info'') (Some ''[ex]''),
   cmd_entry ''exlist'' (Some ''el'') (Some ''exlist_cmd'') 0 (Some ''List the exception contexts'') (Some ''''),
   cmd_entry ''exctx'' (Some ''ec'') (Some ''exctx_cmd'') 1 (Some ''Set the current exception context'') (Some ''ex''),
   cmd_entry ''exresume'' (Some ''c'') (Some ''exresume_cmd'') 0 (Some ''Resume from the exception'') (Some ''[addr]''),
   cmd_entry ''exprfpu'' (Some ''ef'') (Some ''exprfpu_cmd'') 0 (Some ''Print the current FPU registers'') (Some ''[ex]''),
   cmd_entry ''exprvfpu'' (Some ''ev'') (Some ''exprvfpu_cmd'') 0 (Some ''Print the current VFPU registers'') (Some ''[s|c|r|m|e] [ex]''),
   cmd_entry ''setreg'' (Some ''str'') (Some ''setreg_cmd'') 2 (Some ''Set the value of an exception register'') (Some ''$reg value''),
   cmd_entry ''hwena'' None (Some ''hwena_cmd'') 0 (Some ''Enable or disable the HW debugger'') (Some ''[on|off]''),
   cmd_entry ''hwregs'' None (Some ''hwregs_cmd'') 0 (Some ''Print or change the current HW breakpoint setup (v1.5 only)'') (Some ''[reg=val]...''),
   cmd_entry ''hwbp'' None (Some ''hwbp_cmd'') 1 (Some ''Set a hardware instruction breakpoint'') (Some ''addr [mask]''),
   cmd_entry ''bpset'' (Some ''bp'') (Some ''bpset_cmd'') 1 (Some ''Set a break point'') (Some ''addr''),
   cmd_entry ''bpprint'' (Some ''bt'') (Some ''bpprint_cmd'') 0 (Some ''Print the current breakpoints'') (Some ''''),
   cmd_entry ''step'' (Some ''s'') (Some ''step_cmd'') 0 (Some ''Step the next instruction'') (Some ''''),
   cmd_entry ''skip'' (Some ''k'') (Some ''skip_cmd'') 0 (Some ''Skip the next instruction (i.e. jump over jals)'') (Some ''''),
   cmd_entry ''symload'' (Some ''syl'') (Some ''symload_cmd'') 1 (Some ''Load a symbol file'') (Some ''file.sym''),
   cmd_entry ''symlist'' (Some ''syt'') (Some ''symlist_cmd'') 0 (Some ''List the loaded symbols'') (Some ''''),
   cmd_entry ''symprint'' (Some ''syp'') (Some ''symprint_cmd'') 1 (Some ''Print the symbols for a module'') (Some ''modname''),
   cmd_entry ''symbyaddr'' (Some ''sya'') (Some ''symbyaddr_cmd'') 1 (Some ''Print the symbol at the specified address'') (Some ''addr''),
   cmd_entry ''symbyname'' (Some ''syn'') (Some ''symbyname_cmd'') 1 (Some ''Print the specified symbol address'') (Some ''module:symname''),
   cmd_entry ''misc'' None None 0 (Some ''Miscellaneous commands (e.g. USB, exit)'') None,
   cmd_entry ''usbmon'' (Some ''umn'') (Some ''usbmasson_cmd'') 0 (Some ''Enable USB mass storage device'') (Some ''''),
   cmd_entry ''usbmoff'' (Some ''umf'') (Some ''usbmassoff_cmd'') 0 (Some ''Disable USB mass storage device'') (Some ''''),
   cmd_entry ''usbhon'' (Some ''uhn'') (Some ''usbhoston_cmd'') 0 (Some ''Enable USB hostfs device'') (Some ''''),
   cmd_entry ''usbhoff'' (Some ''uhf'') (Some ''usbhostoff_cmd'') 0 (Some ''Disable USB hostfs device'') (Some ''''),
   cmd_entry ''usbstat'' (Some ''us'') (Some ''usbstat_cmd'') 0 (Some ''Display the status of the USB connection'') (Some ''''),
   cmd_entry ''uidlist'' (Some ''ul'') (Some ''uidlist_cmd'') 0 (Some ''List the system UIDS'') (Some ''[root]''),
   cmd_entry ''uidinfo'' (Some ''ui'') (Some ''uidinfo_cmd'') 1 (Some ''Print info about a UID'') (Some ''uid|@name [parent]''),
   cmd_entry ''cop0'' (Some ''c0'') (Some ''cop0_cmd'') 0 (Some ''Print the cop0 registers'') (Some ''''),
   cmd_entry ''exit'' (Some ''quit'') (Some ''exit_cmd'') 0 (Some ''Exit the shell'') (Some ''''),
   cmd_entry ''set'' None (Some ''set_cmd'') 0 (Some ''Set a shell variable'') (Some ''[var=value]''),
   cmd_entry ''scrshot'' (Some ''ss'') (Some ''scrshot_cmd'') 1 (Some ''Take a screen shot'') (Some ''file [pri]''),
   cmd_entry ''run'' None (Some ''run_cmd'') 1 (Some ''Run a shell script'') (Some ''file [args]''),
   cmd_entry ''calc'' None (Some ''calc_cmd'') 1 (Some ''Do a simple address calculation'') (Some ''addr [d|o|x]''),
   cmd_entry ''reset'' (Some ''r'') (Some ''reset_cmd'') 0 (Some ''Reset'') (Some ''[key]''),
   cmd_entry ''wifi'' None (Some ''wifi_cmd'') 0 (Some ''Enable WIFI with a specified AP config'') (Some ''[ap]''),
   cmd_entry ''wifishell'' None (Some ''wifishell_cmd'') 0 (Some ''Enable WIFI Shell with a specified AP config'') (Some ''[ap]''),
   cmd_entry ''ver'' (Some ''v'') (Some ''version_cmd'') 0 (Some ''Print version of psplink'') (Some ''''),
   cmd_entry ''pspver'' None (Some ''pspver_cmd'') 0 (Some ''Print the version of PSP'') (Some ''''),
   cmd_entry ''config'' None (Some ''config_cmd'') 0 (Some ''Print the configuration file settings'') (Some ''''),
   cmd_entry ''confset'' None (Some ''confset_cmd'') 1 (Some ''Set a configuration value'') (Some ''name [value]''),
   cmd_entry ''confdel'' None (Some ''confdel_cmd'') 1 (Some ''Delete a configuration value'') (Some ''name''),
   cmd_entry ''power'' None (Some ''power_cmd'') 0 (Some ''Print power information'') (Some ''''),
   cmd_entry ''poweroff'' None (Some ''poweroff_cmd'') 0 (Some ''Power off the PSP'') (Some ''''),
   cmd_entry ''clock'' None (Some ''clock_cmd'') 3 (Some ''Set the clock frequencies'') (Some ''cpu ram bus''),
   cmd_entry ''tty'' None (Some ''tty_cmd'') 0 (Some ''Enter TTY mode. All input goes to stdin'') (Some ''''),
   cmd_entry ''tonid'' None (Some ''tonid_cmd'') 1 (Some ''Calculate the NID from a name'') (Some ''name''),
   cmd_entry ''profmode'' None (Some ''profmode_cmd'') 0 (Some ''Set or display the current profiler mode'') (Some ''[t|g|o]''),
   cmd_entry ''debugreg'' None (Some ''debugreg_cmd'') 0 (Some ''Set or display the current debug register'') (Some ''[val]''),
   cmd_entry ''help'' (Some ''?'') (Some ''help_cmd'') 0 (Some ''Help (Obviously)'') (Some ''[command|category]''),
   cmd_entry ''custom'' (Some ''cst'') (Some ''custom_cmd'') 1 None None]"

fun find_in :: "string \<Rightarrow> sh_command list \<Rightarrow> sh_command option" where
  "find_in cmd [] = None"
| "find_in cmd (c # cs) =
     (if cmd = c_name c then Some c
      else if c_syn c = Some cmd then Some c
      else find_in cmd cs)"

definition find_command :: "string \<Rightarrow> sh_command option" where
  "find_command cmd = find_in cmd commands"

text \<open>\<open>help_cmd\<close>: the commands under a category are those up to the next one.\<close>

fun help_under :: "sh_command list \<Rightarrow> string list" where
  "help_under [] = []"
| "help_under (c # cs) =
     (if c_func c = None then []
      else (case c_desc c of None \<Rightarrow> [] | Some d \<Rightarrow> [c_name c @ '' - '' @ d]) @ help_under cs)"

definition help_lines :: "sh_command \<Rightarrow> string list" where
  "help_lines c =
     (case c_desc c of
        None \<Rightarrow> [''Unknown command'']
      | Some d \<Rightarrow>
          (if c_func c = None
           then help_under (tl (dropWhile (\<lambda>e. c_name e \<noteq> c_name c) commands))
           else [c_name c @ '' - '' @ d]
             @ (case c_syn c of None \<Rightarrow> [] | Some s \<Rightarrow> [''Synonym: '' @ s])
             @ [''Usage: '' @ c_name c @ '' '' @ (case c_help c of None \<Rightarrow> ''(null)'' | Some h \<Rightarrow> h)]))"

definition help_cmd :: "string list \<Rightarrow> 'x shell \<Rightarrow> int \<times> 'x shell" where
  "help_cmd argv st =
     (CMD_OK,
      st\<lparr>out := out st @ map Line
        (if argv = []
         then map (\<lambda>c. c_name c @ '' - '' @ (case c_desc c of None \<Rightarrow> ''(null)'' | Some d \<Rightarrow> d))
                (filter (\<lambda>c. c_func c = None) commands)
         else case find_command (argv ! 0) of
                None \<Rightarrow> [''Unknown command'']
              | Some c \<Rightarrow> help_lines c)\<rparr>)"

section \<open>Commands\<close>

definition say :: "string \<Rightarrow> 'x shell \<Rightarrow> 'x shell" where
  "say s st = st\<lparr>out := out st @ [Line s]\<rparr>"

text \<open>
  What the program finds outside: the answers of the kernel about files (\<open>w_io\<close>, and \<open>w_file\<close> the
  contents of a file that opens), the conversion of floats, what an expression that fails leaves
  behind, what the line buffer of a script holds behind its lines, and the functions that are not
  modelled.
\<close>

record 'x world =
  w_io :: io_answers
  w_file :: "string \<Rightarrow> PspFile option"
  w_fcvt :: "u32 \<Rightarrow> string"
  w_junk :: "'x shell \<Rightarrow> u32"
  w_stale :: "'x shell \<Rightarrow> nat \<Rightarrow> string"
  w_other :: "string \<Rightarrow> string list \<Rightarrow> 'x shell \<Rightarrow> int \<times> 'x shell"

type_synonym 'x command = "string list \<Rightarrow> 'x shell \<Rightarrow> int \<times> 'x shell"

text \<open>The forms of the functions of \<open>ShellMem\<close>.\<close>

definition on_env :: "(lookups \<Rightarrow> string list \<Rightarrow> int \<times> lookups) \<Rightarrow> 'x command" where
  "on_env f argv st = (let (r, e) = f (g_env st) argv in (r, st\<lparr>g_env := e\<rparr>))"

definition on_lines :: "(lookups \<Rightarrow> string list \<Rightarrow> int \<times> string list) \<Rightarrow> 'x command" where
  "on_lines f argv st = (let (r, ls) = f (g_env st) argv in (r, st\<lparr>out := out st @ map Line ls\<rparr>))"

definition on_found :: "(lookups \<Rightarrow> string list \<Rightarrow> int \<times> u32 list) \<Rightarrow> 'x command" where
  "on_found f argv st = (let (r, as) = f (g_env st) argv in (r, st\<lparr>out := out st @ map Found as\<rparr>))"

definition on_disasm :: "(string list \<Rightarrow> disasm \<Rightarrow> int \<times> disasm) \<Rightarrow> 'x command" where
  "on_disasm f argv st = (let (r, d) = f argv (g_disasm st) in (r, st\<lparr>g_disasm := d\<rparr>))"

definition on_cache :: "(lookups \<Rightarrow> string list \<Rightarrow> int \<times> cache_op option) \<Rightarrow> 'x command" where
  "on_cache f argv st =
     (let (r, c) = f (g_env st) argv
      in (r, case c of None \<Rightarrow> st | Some c \<Rightarrow> st\<lparr>cache_ops := cache_ops st @ [c]\<rparr>))"

definition on_save :: "'x world \<Rightarrow> 'x command" where
  "on_save w argv st =
     (let (r, f) = savemem_cmd (w_io w) (g_currdir st) (g_env st) argv
      in (r, case f of None \<Rightarrow> st | Some f \<Rightarrow> st\<lparr>saved := saved st @ [f]\<rparr>))"

definition on_dump :: "'x world \<Rightarrow> 'x command" where
  "on_dump w argv st =
     (let (r, ls, d) = memdump_cmd (w_junk w st) (g_env st) argv (g_dump st)
      in (r, st\<lparr>out := out st @ map Line ls, g_dump := d\<rparr>))"

definition tty_cmd :: "'x command" where
  "tty_cmd argv st = (CMD_OK, st\<lparr>g_ttymode := True\<rparr>)"

definition exit_cmd :: "'x command" where
  "exit_cmd argv st = (CMD_EXITSHELL, st)"

text \<open>The functions of the table that are modelled, apart from those that call \<open>shellParse\<close>.\<close>

definition modelled :: "'x world \<Rightarrow> (string \<times> 'x command) list" where
  "modelled w =
     [(''memdump_cmd'', on_dump w), (''savemem_cmd'', on_save w),
      (''loadmem_cmd'', \<lambda>argv st. on_env (loadmem_cmd (w_io w) (g_currdir st)) argv st),
      (''pokew_cmd'', on_env pokew_cmd), (''pokeh_cmd'', on_env pokeh_cmd), (''pokeb_cmd'', on_env pokeb_cmd),
      (''peekw_cmd'', on_lines (peekw_cmd (w_fcvt w))), (''peekh_cmd'', on_lines peekh_cmd),
      (''peekb_cmd'', on_lines peekb_cmd),
      (''fillw_cmd'', on_env fillw_cmd), (''fillh_cmd'', on_env fillh_cmd), (''fillb_cmd'', on_env fillb_cmd),
      (''copymem_cmd'', on_env copymem_cmd),
      (''findstr_cmd'', on_found findstr_cmd), (''findhex_cmd'', on_found findhex_cmd),
      (''findw_cmd'', on_found findw_cmd), (''findh_cmd'', on_found findh_cmd),
      (''dcache_cmd'', on_cache dcache_cmd), (''icache_cmd'', on_cache icache_cmd),
      (''disasm_cmd'', \<lambda>argv st. on_lines (disasm_cmd (g_disasm st)) argv st),
      (''disset_cmd'', on_disasm disset_cmd), (''disclear_cmd'', on_disasm disclear_cmd),
      (''disopts_cmd'', \<lambda>argv st. on_lines (\<lambda>_ _. disopts_cmd (g_disasm st)) argv st),
      (''memprot_cmd'', on_env memprot_cmd), (''calc_cmd'', on_lines calc_cmd),
      (''set_cmd'', set_cmd), (''tty_cmd'', tty_cmd), (''exit_cmd'', exit_cmd), (''help_cmd'', help_cmd)]"

text \<open>The shell as a script and \<open>custom_cmd\<close> call it: \<open>None\<close>, nested too deep.\<close>

type_synonym 'x interp = "string \<Rightarrow> 'x shell option \<Rightarrow> int \<times> 'x shell option"

definition run_cmd :: "'x world \<Rightarrow> 'x interp \<Rightarrow> string list \<Rightarrow> 'x shell \<Rightarrow> int \<times> 'x shell option" where
  "run_cmd w parse argv st =
     (case handlepath (io_stat (w_io w)) (io_opens (w_io w)) (g_currdir st) (argv ! 0) TYPE_FILE True of
        None \<Rightarrow> (CMD_ERROR, Some (say ''Invalid file'' st))
      | Some file \<Rightarrow>
         (let (r, echo, s) = scriptRun parse (w_file w file) (Some argv) (Some (g_lastmod st)) (w_stale w st) False (Some st)
          in (r, s)))"

text \<open>\<open>custom_cmd\<close>: \<open>atoi\<close> takes leading digits and may get a sign.\<close>

definition c_atoi_str :: "string \<Rightarrow> int" where
  "c_atoi_str s =
     (let s = strip_start s;
          neg = (chead s = CHR ''-'');
          s = (if chead s = CHR ''-'' \<or> chead s = CHR ''+'' then tl s else s);
          n = c_atoi (takeWhile is_num s)
      in if neg then - n else n)"

definition custom_line :: "ConfigContext \<Rightarrow> int \<Rightarrow> string" where
  "custom_line ctx cmdnum =
     (if cmdnum = 0 then conscrosscmd ctx else if cmdnum = 1 then conssquarecmd ctx
      else if cmdnum = 2 then constrianglecmd ctx else if cmdnum = 3 then conscirclecmd ctx
      else if cmdnum = 4 then consselectcmd ctx else if cmdnum = 5 then consstartcmd ctx
      else if cmdnum = 6 then consdowncmd ctx else if cmdnum = 7 then consleftcmd ctx
      else if cmdnum = 8 then consupcmd ctx else if cmdnum = 9 then consrightcmd ctx else [])"

definition custom_cmd :: "'x interp \<Rightarrow> string list \<Rightarrow> 'x shell \<Rightarrow> int \<times> 'x shell option" where
  "custom_cmd parse argv st =
     (let cmdnum = c_atoi_str (argv ! 0); cmd = custom_line (g_config st) cmdnum
      in if cmd \<noteq> []
         then let (r, s) = parse cmd (Some (say cmd st))
              in (r, map_option (\<lambda>st. say (print_prompt st) st) s)
         else (CMD_OK, Some (if 0 \<le> cmdnum \<and> cmdnum \<le> 9 then st else say ''Error: Illegal custom command'' st)))"

text \<open>A call through the table.\<close>

definition call_cmd :: "'x world \<Rightarrow> 'x interp \<Rightarrow> string \<Rightarrow> string list \<Rightarrow> 'x shell \<Rightarrow> int \<times> 'x shell option" where
  "call_cmd w parse fn argv st =
     (let st = st\<lparr>calls := calls st @ [(fn, argv)]\<rparr>
      in if fn = ''run_cmd'' then run_cmd w parse argv st
         else if fn = ''custom_cmd'' then custom_cmd parse argv st
         else case map_of (modelled w) fn of
                Some f \<Rightarrow> (let (r, st') = f argv st in (r, Some st'))
              | None \<Rightarrow> (let (r, st') = w_other w fn argv st in (r, Some (st'\<lparr>calls := calls st\<rparr>))))"

section \<open>\<open>shellParse\<close>\<close>

definition strrchr :: "char \<Rightarrow> string \<Rightarrow> string option" where
  "strrchr c s = (if c \<in> set s then Some (drop (length s - 1 - length (takeWhile (\<lambda>d. d \<noteq> c) (rev s))) s) else None)"

definition help_text :: "sh_command \<Rightarrow> string" where
  "help_text c = (case c_help c of None \<Rightarrow> ''(null)'' | Some h \<Rightarrow> h)"

text \<open>A file to run: a script, or a module to load.\<close>

definition run_file :: "'x world \<Rightarrow> 'x interp \<Rightarrow> string list \<Rightarrow> string \<Rightarrow> 'x shell \<Rightarrow> int \<times> 'x shell option" where
  "run_file w parse argv ext st =
     (let go = (\<lambda>argv. if ext = ''.sh'' \<or> ext = ''.SH'' then call_cmd w parse ''run_cmd'' argv st
                       else call_cmd w parse ''ldstart_cmd'' argv st)
      in if CHR ''/'' \<notin> set (argv ! 0)
         then case findinpath (io_opens (w_io w)) (argv ! 0) (find_shell_var ''path'' (g_shellvars st)) of
                None \<Rightarrow> (CMD_ERROR, Some (say (''Could not find '' @ argv ! 0 @ '' in the path'') st))
              | Some file \<Rightarrow> go (file # tl argv)
         else go argv)"

definition run_command :: "'x world \<Rightarrow> 'x interp \<Rightarrow> string list \<Rightarrow> 'x shell \<Rightarrow> int \<times> 'x shell option" where
  "run_command w parse argv st =
     (case find_command (argv ! 0) of
        None \<Rightarrow> (CMD_ERROR, Some (say (''Unknown command '' @ argv ! 0) st))
      | Some c \<Rightarrow>
         (case c_func c of
            None \<Rightarrow> (CMD_ERROR, Some (say (''Unknown command '' @ argv ! 0) st))
          | Some fn \<Rightarrow>
             (if length argv - 1 < c_min_args c then (CMD_OK, Some (say (''Usage: '' @ help_text c) st))
              else let (r, s) = call_cmd w parse fn (tl argv) st
                   in (r, if r = CMD_ERROR then map_option (say (''Usage: '' @ help_text c)) s else s))))"

definition tty_line :: "string \<Rightarrow> 'x shell \<Rightarrow> 'x shell" where
  "tty_line command st =
     (if chead command = CHR 0x7E \<and> chead (tl command) = CHR ''.'' then st\<lparr>g_ttymode := False\<rparr>
      else let (r, wt, woken) = ttyAddInputData command (stdin_data st) (stdin_waitth st)
           in st\<lparr>stdin_data := r, stdin_waitth := wt\<rparr>)"

definition shell_line :: "'x world \<Rightarrow> 'x interp \<Rightarrow> string \<Rightarrow> 'x shell \<Rightarrow> int \<times> 'x shell option" where
  "shell_line w parse command st =
     (if g_ttymode st then (CMD_OK, Some (tty_line command st))
      else case parse_args 16 command of
             None \<Rightarrow> (CMD_ERROR, Some (say ''Error parsing command'' st))
           | Some r \<Rightarrow>
              (let argv = argv_strings r
               in if argv \<noteq> [] \<and> chead (argv ! 0) \<noteq> CHR ''#''
                  then case strrchr CHR ''.'' (argv ! 0) of
                         Some ext \<Rightarrow> run_file w parse argv ext st
                       | None \<Rightarrow> run_command w parse argv st
                  else (CMD_OK, Some st)))"

fun shellParse :: "'x world \<Rightarrow> nat \<Rightarrow> 'x interp" where
  "shellParse w 0 command s = (CMD_ERROR, None)"
| "shellParse w (Suc d) command s =
     (case s of None \<Rightarrow> (CMD_ERROR, None) | Some st \<Rightarrow> shell_line w (shellParse w d) command st)"

section \<open>The table\<close>

text \<open>The search looks at the names and synonyms only. To compare them quickly, a string is read as a number.\<close>

fun find_key :: "'k \<Rightarrow> ('k \<times> 'k option) list \<Rightarrow> 'k option" where
  "find_key cmd [] = None"
| "find_key cmd ((n, s) # ks) = (if cmd = n then Some n else if s = Some cmd then Some n else find_key cmd ks)"

definition hidden_names :: "('k \<times> 'k option) list \<Rightarrow> 'k list" where
  "hidden_names ks = map fst (filter (\<lambda>(n, s). find_key n ks \<noteq> Some n) ks)"

definition hidden_syns :: "('k \<times> 'k option) list \<Rightarrow> 'k list" where
  "hidden_syns ks = map fst (filter (\<lambda>(n, s). case s of None \<Rightarrow> False | Some s \<Rightarrow> find_key s ks \<noteq> Some n) ks)"

definition bit_of :: "bool \<Rightarrow> num \<Rightarrow> num" where
  "bit_of b n = (if b then num.Bit1 n else num.Bit0 n)"

fun enc :: "string \<Rightarrow> num" where
  "enc [] = num.One"
| "enc (Char b0 b1 b2 b3 b4 b5 b6 b7 # s) =
     bit_of b0 (bit_of b1 (bit_of b2 (bit_of b3 (bit_of b4 (bit_of b5 (bit_of b6 (bit_of b7 (enc s))))))))"

lemma bit_of_eq [simp]: "bit_of b m = bit_of c n \<longleftrightarrow> b = c \<and> m = n" "bit_of b m \<noteq> num.One" "num.One \<noteq> bit_of b m"
  by (auto simp: bit_of_def)

lemma enc_eq [simp]: "enc s = enc t \<longleftrightarrow> s = t"
proof (induction s arbitrary: t)
  case Nil
  show ?case by (cases t rule: enc.cases) simp_all
next
  case (Cons c s)
  then show ?case by (cases c; cases t rule: enc.cases) auto
qed

abbreviation encs :: "(string \<times> string option) list \<Rightarrow> (num \<times> num option) list" where
  "encs ks \<equiv> map (map_prod enc (map_option enc)) ks"

lemma map_option_eq_Some_enc [simp]: "map_option enc x = Some (enc n) \<longleftrightarrow> x = Some n"
  by (cases x) auto

lemma find_key_encs: "find_key (enc cmd) (encs ks) = map_option enc (find_key cmd ks)"
  by (induction cmd ks rule: find_key.induct) auto

lemma hidden_encs: "hidden_names (encs ks) = map enc (hidden_names ks)" "hidden_syns (encs ks) = map enc (hidden_syns ks)"
proof -
  have p: "map fst (filter P (encs ks)) = map enc (map fst (filter Q ks))"
    if "\<And>k. P (map_prod enc (map_option enc) k) \<longleftrightarrow> Q k" for P Q
    using that by (simp add: filter_map comp_def)
  show "hidden_names (encs ks) = map enc (hidden_names ks)"
    unfolding hidden_names_def by (rule p) (simp add: split_beta find_key_encs)
  show "hidden_syns (encs ks) = map enc (hidden_syns ks)"
    unfolding hidden_syns_def by (rule p) (simp add: split_beta find_key_encs split: option.split)
qed

abbreviation keys_of :: "sh_command list \<Rightarrow> (string \<times> string option) list" where
  "keys_of cs \<equiv> map (\<lambda>c. (c_name c, c_syn c)) cs"

lemma find_in_key: "map_option c_name (find_in cmd cs) = find_key cmd (keys_of cs)"
  by (induction cs) auto

text \<open>The same, with rules that keep the simplifier from going through the whole table at every step.\<close>

fun hidden_n :: "(num \<times> num option) list \<Rightarrow> (num \<times> num option) list \<Rightarrow> num list" where
  "hidden_n all [] = []"
| "hidden_n all ((n, s) # ks) = (if find_key n all = Some n then hidden_n all ks else n # hidden_n all ks)"

fun hidden_s :: "(num \<times> num option) list \<Rightarrow> (num \<times> num option) list \<Rightarrow> num list" where
  "hidden_s all [] = []"
| "hidden_s all ((n, None) # ks) = hidden_s all ks"
| "hidden_s all ((n, Some s) # ks) = (if find_key s all = Some n then hidden_s all ks else n # hidden_s all ks)"

lemma hidden_ns: "hidden_names ks = hidden_n ks ks" "hidden_syns ks = hidden_s ks ks"
proof -
  have "hidden_n all ks = map fst (filter (\<lambda>(n, s). find_key n all \<noteq> Some n) ks)" for all ks
    by (induction ks) auto
  then show "hidden_names ks = hidden_n ks ks" by (simp add: hidden_names_def)
  have "hidden_s all ks = map fst (filter (\<lambda>(n, s). case s of None \<Rightarrow> False | Some s \<Rightarrow> find_key s all \<noteq> Some n) ks)" for all ks
  proof (induction ks)
    case (Cons k ks)
    then show ?case by (cases k; cases "snd k") auto
  qed simp
  then show "hidden_syns ks = hidden_s ks ks" by (simp add: hidden_syns_def)
qed

lemma find_key_step:
  "find_key cmd ((n, None) # ks) = (if cmd = n then Some n else find_key cmd ks)"
  "find_key cmd ((n, Some s) # ks) = (if cmd = n then Some n else if cmd = s then Some n else find_key cmd ks)"
  by auto

lemma table_cong:
  "n = n' \<Longrightarrow> find_key n ks = find_key n' ks" "hidden_n all ks = hidden_n all ks" "hidden_s all ks = hidden_s all ks"
  by simp_all

lemma option_eq_if: "((if b then Some (x :: num) else y) = Some z) = (if b then x = z else y = Some z)"
  by simp

lemmas table_eval = find_key_step option_eq_if num.inject num.distinct if_True if_False hidden_n.simps hidden_s.simps
  option.inject option.distinct find_key.simps(1) simp_thms

lemmas table_unfold = hidden_ns commands_def cmd_entry_def list.map sh_command.simps map_prod_simp option.map
  enc.simps bit_of_def if_True if_False

lemma names_in_table: "hidden_names (encs (keys_of commands)) = []"
  unfolding table_unfold by (simp only: table_eval cong: table_cong if_weak_cong)

lemma syns_in_table: "hidden_syns (encs (keys_of commands)) = map enc [''thctx'', ''pokeh'', ''pokeb'', ''exlist'', ''skip'']"
  unfolding table_unfold by (simp only: table_eval cong: table_cong if_weak_cong)

fun is_in :: "num \<Rightarrow> num list \<Rightarrow> bool" where
  "is_in n [] = False"
| "is_in n (m # ms) = (if n = m then True else is_in n ms)"

fun all_new :: "num list \<Rightarrow> bool" where
  "all_new [] = True"
| "all_new (n # ns) = (if is_in n ns then False else all_new ns)"

lemma all_new: "all_new ns \<Longrightarrow> distinct ns"
proof (induction ns)
  case (Cons n ns)
  have "is_in n ns \<longleftrightarrow> n \<in> set ns" for ns by (induction ns) auto
  then show ?case using Cons by (simp split: if_splits)
qed simp

lemma new_cong: "n = n' \<Longrightarrow> is_in n ns = is_in n' ns" "all_new ns = all_new ns"
  by simp_all

lemma names_distinct: "distinct (map c_name commands)"
proof -
  have "all_new (map enc (map c_name commands))"
    unfolding table_unfold
    by (simp only: all_new.simps is_in.simps num.inject num.distinct simp_thms if_True if_False cong: new_cong if_weak_cong)
  then have "distinct (map enc (map c_name commands))" by (rule all_new)
  then show ?thesis using distinct_map by blast
qed

lemma hidden_commands:
  "hidden_names (keys_of commands) = []"
  "hidden_syns (keys_of commands) = [''thctx'', ''pokeh'', ''pokeb'', ''exlist'', ''skip'']"
proof -
  have inj: "xs = ys" if "map enc xs = map enc ys" for xs ys
    using that by (simp add: map_inj_on [OF that] inj_on_def)
  show "hidden_names (keys_of commands) = []" using names_in_table unfolding hidden_encs by simp
  show "hidden_syns (keys_of commands) = [''thctx'', ''pokeh'', ''pokeb'', ''exlist'', ''skip'']"
    using syns_in_table unfolding hidden_encs by (rule inj)
qed

lemma find_in_set: "find_in cmd cs = Some c \<Longrightarrow> c \<in> set cs"
  by (induction cs) (auto split: if_splits)

lemma command_by_name:
  assumes "c \<in> set commands" "map_option c_name (find_command cmd) = Some (c_name c)"
  shows "find_command cmd = Some c"
proof -
  obtain d where d: "find_command cmd = Some d" "c_name d = c_name c" using assms(2) by auto
  then have "d \<in> set commands" using find_in_set by (auto simp: find_command_def)
  then show ?thesis using d names_distinct assms(1) by (simp add: distinct_map inj_on_def)
qed

lemma find_command_name: "c \<in> set commands \<Longrightarrow> find_command (c_name c) = Some c"
proof (rule command_by_name)
  assume "c \<in> set commands"
  then have "find_key (c_name c) (keys_of commands) = Some (c_name c)"
    using hidden_commands(1) by (auto simp: hidden_names_def filter_empty_conv)
  then show "map_option c_name (find_command (c_name c)) = Some (c_name c)"
    by (simp add: find_command_def find_in_key)
qed

lemma find_command_syn:
  assumes "c \<in> set commands" "c_syn c = Some s"
  shows "find_command s = Some c \<longleftrightarrow> find_key s (keys_of commands) = Some (c_name c)"
  using command_by_name [OF assms(1), of s] find_in_key [of s commands] by (auto simp: find_command_def)

text \<open>
  Every command of the table is found by its name, so no name or synonym hides another command. A
  synonym finds its command too, except those of \<open>thctx\<close>, \<open>pokeh\<close>, \<open>pokeb\<close>, \<open>exlist\<close> and \<open>skip\<close>, which an
  earlier command of the table has as well.
\<close>

theorem commands_found:
  "filter (\<lambda>c. find_command (c_name c) \<noteq> Some c) commands = [] \<and>
   map c_name (filter (\<lambda>c. case c_syn c of None \<Rightarrow> False | Some s \<Rightarrow> find_command s \<noteq> Some c) commands) =
     [''thctx'', ''pokeh'', ''pokeb'', ''exlist'', ''skip'']"
proof
  show "filter (\<lambda>c. find_command (c_name c) \<noteq> Some c) commands = []"
    by (simp add: filter_empty_conv find_command_name)
  have "filter (\<lambda>c. case c_syn c of None \<Rightarrow> False | Some s \<Rightarrow> find_command s \<noteq> Some c) commands =
      filter (\<lambda>c. case c_syn c of None \<Rightarrow> False | Some s \<Rightarrow> find_key s (keys_of commands) \<noteq> Some (c_name c)) commands"
    by (rule filter_cong) (auto simp: find_command_syn split: option.split)
  then show "map c_name (filter (\<lambda>c. case c_syn c of None \<Rightarrow> False | Some s \<Rightarrow> find_command s \<noteq> Some c) commands) =
     [''thctx'', ''pokeh'', ''pokeb'', ''exlist'', ''skip'']"
    using hidden_commands(2) by (simp add: hidden_syns_def filter_map comp_def)
qed

section \<open>Variables and the prompt\<close>

definition c_string :: "string \<Rightarrow> bool" where
  "c_string s \<longleftrightarrow> CHR 0x00 \<notin> set s"

lemma find_update_var:
  "find_shell_var m (update_var n data vars) =
    (if m = n then map_option (\<lambda>_. take (MAX_SHELL_VAR - 1) data) (find_shell_var n vars) else find_shell_var m vars)"
  by (induction vars rule: update_var.induct [of _ n data]) auto

lemma update_var_names [simp]: "map fst (update_var n data vars) = map fst vars"
  by (induction vars rule: update_var.induct [of _ n data]) auto

lemma split_at_first: "(\<forall>x \<in> set xs. \<not> P x) \<Longrightarrow> P y \<Longrightarrow> split_at P (xs @ y # ys) = Some (xs, ys)"
  by (induction xs) auto

text \<open>
  Setting a shell variable. \<open>set name=value\<close> for a variable that exists gives it the first 127
  characters of the value, and leaves every other variable and the rest of the shell as they were; for
  a name that does not exist no variable changes.
\<close>

theorem set_cmd_readback:
  assumes "CHR ''='' \<notin> set name"
  shows "fst (set_cmd [name @ ''='' @ data] st) = CMD_OK \<and>
    map fst (g_shellvars (snd (set_cmd [name @ ''='' @ data] st))) = map fst (g_shellvars st) \<and>
    find_shell_var m (g_shellvars (snd (set_cmd [name @ ''='' @ data] st))) =
      (if m = name then map_option (\<lambda>_. take 127 data) (find_shell_var name (g_shellvars st))
       else find_shell_var m (g_shellvars st))"
proof -
  have "split_at (\<lambda>c. c = CHR ''='') (name @ ''='' @ data) = Some (name, data)"
    using split_at_first [of name "\<lambda>c. c = CHR ''=''" "CHR ''=''" data] assms by auto
  then show ?thesis
    by (cases "find_shell_var name (g_shellvars st)") (simp_all add: set_cmd_def set_shell_var_def find_update_var Let_def)
qed

theorem set_cmd_readback_witness:
  "find_shell_var ''path'' (g_shellvars (snd (set_cmd [''path=ms0:/bin''] (st\<lparr>g_shellvars := shellvars_start\<rparr>)))) = Some ''ms0:/bin''"
  using set_cmd_readback [of "''path''" "''ms0:/bin''" "st\<lparr>g_shellvars := shellvars_start\<rparr>" "''path''"]
  by (simp add: shellvars_start_def)

lemma prompt_loop_length:
  "length tmp \<le> MAX_SHELL_VAR - 1 \<Longrightarrow> length (prompt_loop cwd fmt tmp) \<le> MAX_SHELL_VAR - 1"
proof (induction cwd fmt tmp rule: prompt_loop.induct)
  case (1 cwd fmt tmp)
  have "length (tmp @ take (MAX_SHELL_VAR - length tmp - 1) cwd) \<le> MAX_SHELL_VAR - 1" using 1(5) by simp
  then show ?case
    using 1 by (subst prompt_loop.simps) (simp only: split: if_splits, simp)
qed

text \<open>A format whose directory fits is expanded as a whole.\<close>

function expand_prompt :: "string \<Rightarrow> string \<Rightarrow> string" where
  "expand_prompt cwd fmt =
     (if fmt = [] then []
      else if hd fmt = CHR ''%''
           then (if chead (tl fmt) = CHR ''%'' then ''%'' @ expand_prompt cwd (drop 2 fmt)
                 else if chead (tl fmt) = CHR ''d'' then cwd @ expand_prompt cwd (drop 2 fmt)
                 else expand_prompt cwd (tl fmt))
           else hd fmt # expand_prompt cwd (tl fmt))"
  by pat_completeness auto
termination
  by (relation "measure (\<lambda>(cwd, fmt). length fmt)") auto

declare expand_prompt.simps [simp del]

lemma prompt_loop_expand:
  "length tmp + length (expand_prompt cwd fmt) \<le> MAX_SHELL_VAR - 2 \<Longrightarrow>
    prompt_loop cwd fmt tmp = tmp @ expand_prompt cwd fmt"
proof (induction cwd fmt tmp rule: prompt_loop.induct)
  case (1 cwd fmt tmp)
  show ?case
  proof (cases "fmt \<noteq> [] \<and> length tmp < MAX_SHELL_VAR - 2")
    case True
    then have e: "expand_prompt cwd fmt = (if hd fmt = CHR ''%''
           then (if chead (tl fmt) = CHR ''%'' then ''%'' @ expand_prompt cwd (drop 2 fmt)
                 else if chead (tl fmt) = CHR ''d'' then cwd @ expand_prompt cwd (drop 2 fmt)
                 else expand_prompt cwd (tl fmt))
           else hd fmt # expand_prompt cwd (tl fmt))"
      by (subst expand_prompt.simps) simp
    show ?thesis
      using 1 True by (subst prompt_loop.simps) (simp add: e split: if_splits)
  next
    case False
    have "expand_prompt cwd fmt = []"
    proof (cases "fmt = []")
      case no: False
      then have "MAX_SHELL_VAR - 2 \<le> length tmp" using False by simp
      then have "length (expand_prompt cwd fmt) = 0" using "1.prems" by linarith
      then show ?thesis by simp
    qed (simp add: expand_prompt.simps)
    then show ?thesis using False by (subst prompt_loop.simps) auto
  qed
qed

text \<open>
  The prompt and its buffer. Without a PC terminal the text of the prompt and its NUL always fit the
  128 bytes of \<open>tmp\<close>; with one, at most one byte falls behind the buffer. When the directory fits, so that
  the prompt has at most 125 characters, none does and the prompt is the variable's text with each
  \<open>%d\<close> replaced by the directory and each \<open>%%\<close> by a percent sign, marked at both ends for the terminal.
\<close>

theorem prompt_bounds:
  "length (prompt_text pc cwd fmt) + 1 \<le> MAX_SHELL_VAR + (if pc then 1 else 0) \<and>
   (length (expand_prompt cwd fmt) \<le> 125 \<longrightarrow>
     prompt_text pc cwd fmt = (if pc then [PASSPROMPT_VAL] @ expand_prompt cwd fmt @ [PASSPROMPT_VAL] else expand_prompt cwd fmt))"
  using prompt_loop_length [of "[]" cwd fmt] prompt_loop_length [of "[PASSPROMPT_VAL]" cwd fmt]
    prompt_loop_expand [of "[]" cwd fmt] prompt_loop_expand [of "[PASSPROMPT_VAL]" cwd fmt]
  by (simp add: prompt_text_def Let_def)

theorem prompt_bounds_witness:
  "length (expand_prompt ''host0:/'' ''psplink %d>'') \<le> 125 \<and> prompt_text False ''host0:/'' ''psplink %d>'' = ''psplink host0:/>''"
  using prompt_bounds [of False "''host0:/''" "''psplink %d>''"] by (simp add: expand_prompt.simps)

text \<open>The byte behind the buffer: a directory of 127 characters under the default prompt.\<close>

lemma prompt_overflow: "length (prompt_text True (replicate 127 CHR ''a'') ''psplink %d>'') + 1 = MAX_SHELL_VAR + 1"
  by (simp add: prompt_text_def prompt_loop.simps)

section \<open>What every line keeps\<close>

text \<open>
  The interface of an interpreter: a relation between the states before and after that every step of
  the shell respects. It then holds of every line, through scripts and custom commands at any depth.
\<close>

lemma script_loop_induct:
  assumes refl: "\<And>s. P s s" and trans: "\<And>s t u. P s t \<Longrightarrow> P t u \<Longrightarrow> P s u"
    and parse: "\<And>line s. P s (snd (parse line s))"
  shows "P s (snd (snd (script_loop parse argv lastmod stale f i pr ret s)))"
proof (induction f arbitrary: i pr ret s rule: measure_induct_rule [of file_left])
  case (less f)
  obtain l n g where l: "fdgets f 1024 = (l, n, g)" using prod_cases3 by blast
  let ?line = "process_arguments (strip_whitesp (cstr l) @ CHR 0x00 # stale (i + 1)) argv lastmod"
  obtain r t where p: "parse ?line s = (r, t)" by fastforce
  have st: "P s t" using parse [of s ?line] p by simp
  show ?case
  proof (cases "n = 0")
    case False
    then have ih: "P u (snd (snd (script_loop parse argv lastmod stale g j q x u)))" for j q x u
      using less.IH fdgets_left [OF l] by simp
    show ?thesis
      using False l p st ih [of t] trans [OF st ih] ih [of s]
      by (subst script_loop.simps) (simp add: Let_def split_beta)
  qed (use l refl in \<open>subst script_loop.simps, simp add: Let_def\<close>)
qed

locale shell_relation =
  fixes w :: "'x world" and R :: "'x shell \<Rightarrow> 'x shell \<Rightarrow> bool"
  assumes refl: "R s s"
    and trans: "R s t \<Longrightarrow> R t u \<Longrightarrow> R s u"
    and says: "R s (say m s)"
    and ttys: "R s (tty_line command s)"
    and logs: "fn = ''run_cmd'' \<or> fn = ''custom_cmd'' \<Longrightarrow> R s (s\<lparr>calls := calls s @ [(fn, argv)]\<rparr>)"
    and runs: "map_of (modelled w) fn = Some f \<Longrightarrow> R s (snd (f argv (s\<lparr>calls := calls s @ [(fn, argv)]\<rparr>)))"
    and others: "fn \<noteq> ''run_cmd'' \<Longrightarrow> fn \<noteq> ''custom_cmd'' \<Longrightarrow> map_of (modelled w) fn = None \<Longrightarrow>
      R s ((snd (w_other w fn argv (s\<lparr>calls := calls s @ [(fn, argv)]\<rparr>)))\<lparr>calls := calls s @ [(fn, argv)]\<rparr>)"
begin

definition leads :: "'x shell option \<Rightarrow> 'x shell option \<Rightarrow> bool" where
  "leads s s' \<longleftrightarrow> (\<forall>t. s' = Some t \<longrightarrow> (\<exists>u. s = Some u \<and> R u t))"

lemma leads_refl: "leads s s"
  by (auto simp: leads_def refl)

lemma leads_trans: "leads s t \<Longrightarrow> leads t u \<Longrightarrow> leads s u"
  unfolding leads_def by (metis trans)

lemma leads_None [simp]: "leads s None"
  by (simp add: leads_def)

lemma leads_Some [simp]: "leads (Some s) (Some t) \<longleftrightarrow> R s t"
  by (simp add: leads_def)

lemma script_leads:
  assumes "\<And>line s. leads s (snd (parse line s))"
  shows "leads s (snd (snd (scriptRun parse file argv lastmod stale pr s)))"
  using script_loop_induct [where P = leads, OF leads_refl leads_trans assms]
  by (auto simp: scriptRun_def leads_refl split: option.split)

lemma run_leads:
  assumes "\<And>line s. leads s (snd (parse line s))"
  shows "leads (Some st) (snd (run_cmd w parse argv st))"
  using script_leads [of parse "Some st", OF assms] says [of st] by (simp add: run_cmd_def split_beta split: option.split)

lemma custom_leads:
  assumes parse: "\<And>line s. leads s (snd (parse line s))"
  shows "leads (Some st) (snd (custom_cmd parse argv st))"
proof -
  let ?cmd = "custom_line (g_config st) (c_atoi_str (argv ! 0))"
  obtain r s where p: "parse ?cmd (Some (say ?cmd st)) = (r, s)" by fastforce
  have "leads (Some (say ?cmd st)) s" using parse [of "Some (say ?cmd st)" ?cmd] p by simp
  then have "leads (Some st) s" using leads_trans [of "Some st" "Some (say ?cmd st)"] says by simp
  moreover have "leads s (map_option (\<lambda>st. say (print_prompt st) st) s)" by (cases s) (simp_all add: says)
  ultimately have "leads (Some st) (map_option (\<lambda>st. say (print_prompt st) st) s)" by (rule leads_trans)
  then show ?thesis using p by (simp add: custom_cmd_def Let_def refl says)
qed

lemma call_leads:
  assumes parse: "\<And>line s. leads s (snd (parse line s))"
  shows "leads (Some st) (snd (call_cmd w parse fn argv st))"
proof -
  let ?st = "st\<lparr>calls := calls st @ [(fn, argv)]\<rparr>"
  show ?thesis
  proof (cases "fn = ''run_cmd'' \<or> fn = ''custom_cmd''")
    case True
    then have "leads (Some st) (Some ?st)" using logs by simp
    from leads_trans [OF this] show ?thesis
      using True run_leads [of parse ?st argv, OF parse] custom_leads [of parse ?st argv, OF parse]
      by (auto simp: call_cmd_def)
  next
    case False
    then show ?thesis
      using runs [of fn _ st argv] others [of fn st argv]
      by (simp add: call_cmd_def Let_def split_beta split: option.split)
  qed
qed

lemma shell_line_leads:
  assumes "\<And>line s. leads s (snd (parse line s))"
  shows "leads (Some st) (snd (shell_line w parse command st))"
proof -
  note c = call_leads [of parse, OF assms]
  have f: "leads (Some st) (snd (run_file w parse argv ext st))" for argv ext
    using c says by (simp add: run_file_def Let_def split: option.split)
  have g: "leads (Some st) (snd (run_command w parse argv st))" for argv
  proof -
    have "leads (Some st) (snd (let (r, s) = call_cmd w parse fn as st
        in (r, if r = CMD_ERROR then map_option (say m) s else s)))" for fn as m
    proof -
      obtain r s where p: "call_cmd w parse fn as st = (r, s)" by fastforce
      then have "leads (Some st) s" using c [of st fn as] by simp
      moreover have "leads s (map_option (say m) s)" by (cases s) (simp_all add: says)
      ultimately show ?thesis using p leads_trans by auto
    qed
    then show ?thesis using says by (simp add: run_command_def split: option.split)
  qed
  show ?thesis
    using f g says ttys refl by (simp add: shell_line_def Let_def split: option.split)
qed

lemma shellParse_leads: "leads s (snd (shellParse w d command s))"
proof (induction d arbitrary: command s)
  case (Suc d)
  have "leads (Some st) (snd (shell_line w (shellParse w d) command st))" for st
    by (rule shell_line_leads) (rule Suc.IH)
  then show ?case by (simp split: option.split)
qed simp

lemma shellParse_keeps: "shellParse w d command (Some s) = (r, Some t) \<Longrightarrow> R s t"
  using shellParse_leads [of "Some s" d command] by simp

end

lemma forms_calls [simp]:
  "calls (snd (on_env e argv st)) = calls st" "calls (snd (on_lines l argv st)) = calls st"
  "calls (snd (on_found m argv st)) = calls st" "calls (snd (on_disasm d argv st)) = calls st"
  "calls (snd (on_cache c argv st)) = calls st" "calls (snd (on_save w argv st)) = calls st"
  "calls (snd (on_dump w argv st)) = calls st" "calls (snd (set_cmd argv st)) = calls st"
  "calls (snd (tty_cmd argv st)) = calls st" "calls (snd (exit_cmd argv st)) = calls st"
  "calls (snd (help_cmd argv st)) = calls st"
  by (simp_all add: on_env_def on_lines_def on_found_def on_disasm_def on_cache_def on_save_def on_dump_def
      set_cmd_def tty_cmd_def exit_cmd_def help_cmd_def split_beta Let_def split: option.split)

lemma forms_env [simp]:
  "g_env (snd (on_env e argv st)) = snd (e (g_env st) argv)" "g_env (snd (on_lines l argv st)) = g_env st"
  "g_env (snd (on_found m argv st)) = g_env st" "g_env (snd (on_disasm d argv st)) = g_env st"
  "g_env (snd (on_cache c argv st)) = g_env st" "g_env (snd (on_save w argv st)) = g_env st"
  "g_env (snd (on_dump w argv st)) = g_env st" "g_env (snd (set_cmd argv st)) = g_env st"
  "g_env (snd (tty_cmd argv st)) = g_env st" "g_env (snd (exit_cmd argv st)) = g_env st"
  "g_env (snd (help_cmd argv st)) = g_env st"
  by (simp_all add: on_env_def on_lines_def on_found_def on_disasm_def on_cache_def on_save_def on_dump_def
      set_cmd_def tty_cmd_def exit_cmd_def help_cmd_def split_beta Let_def split: option.split)

lemma modelled_keep:
  assumes "map_of (modelled w) fn = Some f"
  shows "calls (snd (f argv st)) = calls st"
proof -
  have "list_all (\<lambda>(fn, f). calls (snd (f argv st)) = calls st) (modelled w)" by (simp add: modelled_def)
  then show ?thesis using map_of_SomeD [OF assms] by (auto simp: list_all_iff)
qed

definition logged :: "'x shell \<Rightarrow> 'x shell \<Rightarrow> bool" where
  "logged s t \<longleftrightarrow> (\<exists>ext. calls t = calls s @ ext)"

interpretation log: shell_relation w logged
proof
  show "logged s u" if "logged s t" "logged t u" for s t u :: "'a shell"
    using that unfolding logged_def by (metis append.assoc)
qed (auto simp: logged_def say_def tty_line_def split_beta modelled_keep)

text \<open>The memory of the shell: only bytes of the memory map change, as long as protection is on.\<close>

definition mem_kept :: "lookups \<Rightarrow> lookups \<Rightarrow> bool" where
  "mem_kept e e' \<longleftrightarrow> (\<not> protoff e \<longrightarrow> e' = e\<lparr>memory := memory e'\<rparr> \<and>
     (\<forall>x. memory e' x \<noteq> memory e x \<longrightarrow> valid_byte (isv1 e) x))"

lemma mem_kept_refl [simp]: "mem_kept e e"
  by (simp add: mem_kept_def)

lemma mem_kept_trans:
  assumes "mem_kept e f" "mem_kept f g"
  shows "mem_kept e g"
proof (cases "protoff e")
  case False
  then have f: "f = e\<lparr>memory := memory f\<rparr>" "\<forall>x. memory f x \<noteq> memory e x \<longrightarrow> valid_byte (isv1 e) x"
    using assms(1) by (simp_all add: mem_kept_def)
  have same: "isv1 f = isv1 e" "protoff f = protoff e" by (subst f(1), simp)+
  then have g: "g = f\<lparr>memory := memory g\<rparr>" "\<forall>x. memory g x \<noteq> memory f x \<longrightarrow> valid_byte (isv1 e) x"
    using assms(2) False by (simp_all add: mem_kept_def)
  have "g = e\<lparr>memory := memory g\<rparr>" by (subst g(1), subst f(1)) simp
  then show ?thesis using f(2) g(2) unfolding mem_kept_def by metis
qed (simp add: mem_kept_def)

lemma confined_mem_kept: "confined e e' \<Longrightarrow> mem_kept e e'"
  unfolding confined_def mem_kept_def using frame_valid by fastforce

definition safe_fn :: "'x world \<Rightarrow> string \<Rightarrow> bool" where
  "safe_fn w fn \<longleftrightarrow> fn \<noteq> ''memprot_cmd'' \<and> (fn = ''run_cmd'' \<or> fn = ''custom_cmd'' \<or> map_of (modelled w) fn \<noteq> None)"

lemma modelled_mem_kept:
  assumes "map_of (modelled w) fn = Some f" "fn \<noteq> ''memprot_cmd''" "reads_ok (io_reads (w_io w))"
  shows "mem_kept (g_env st) (g_env (snd (f argv st)))"
proof -
  have "list_all (\<lambda>(fn, f). fn \<noteq> ''memprot_cmd'' \<longrightarrow> confined (g_env st) (g_env (snd (f argv st)))) (modelled w)"
    by (simp add: modelled_def poke_confined fill_confined copymem_confined loadmem_confined [OF assms(3)])
  then show ?thesis
    using map_of_SomeD [OF assms(1)] assms(2) by (auto simp: list_all_iff intro!: confined_mem_kept)
qed

definition mem_logged :: "'x world \<Rightarrow> 'x shell \<Rightarrow> 'x shell \<Rightarrow> bool" where
  "mem_logged w s t \<longleftrightarrow> (\<exists>ext. calls t = calls s @ ext \<and>
     (reads_ok (io_reads (w_io w)) \<and> list_all (\<lambda>(fn, argv). safe_fn w fn) ext \<longrightarrow> mem_kept (g_env s) (g_env t)))"

interpretation mem: shell_relation w "mem_logged w"
proof
  show "mem_logged w s u" if st: "mem_logged w s t" and tu: "mem_logged w t u" for s t u :: "'a shell"
  proof -
    obtain x where x: "calls t = calls s @ x"
      "reads_ok (io_reads (w_io w)) \<Longrightarrow> list_all (\<lambda>(fn, argv). safe_fn w fn) x \<Longrightarrow> mem_kept (g_env s) (g_env t)"
      using st unfolding mem_logged_def by auto
    obtain y where y: "calls u = calls t @ y"
      "reads_ok (io_reads (w_io w)) \<Longrightarrow> list_all (\<lambda>(fn, argv). safe_fn w fn) y \<Longrightarrow> mem_kept (g_env t) (g_env u)"
      using tu unfolding mem_logged_def by auto
    show ?thesis
      unfolding mem_logged_def using x y by (intro exI [of _ "x @ y"]) (auto intro: mem_kept_trans)
  qed
  show "mem_logged w s (snd (f argv (s\<lparr>calls := calls s @ [(fn, argv)]\<rparr>)))"
    if "map_of (modelled w) fn = Some f" for fn f argv and s :: "'a shell"
    unfolding mem_logged_def
    using modelled_keep [OF that, of argv "s\<lparr>calls := calls s @ [(fn, argv)]\<rparr>"]
      modelled_mem_kept [OF that, of "s\<lparr>calls := calls s @ [(fn, argv)]\<rparr>" argv]
    by (intro exI [of _ "[(fn, argv)]"]) (auto simp: safe_fn_def)
next
  show "mem_logged w s ((snd (w_other w fn argv (s\<lparr>calls := calls s @ [(fn, argv)]\<rparr>)))\<lparr>calls := calls s @ [(fn, argv)]\<rparr>)"
    if "fn \<noteq> ''run_cmd''" "fn \<noteq> ''custom_cmd''" "map_of (modelled w) fn = None" for fn argv and s :: "'a shell"
    unfolding mem_logged_def using that by (intro exI [of _ "[(fn, argv)]"]) (simp add: safe_fn_def)
qed (simp_all add: mem_logged_def say_def tty_line_def split_beta)

text \<open>
  C11: A line of the shell and the memory. Whatever the line, and whatever scripts and custom commands it
  runs at any depth, if every function it ends up calling is one of those modelled here and none is
  \<open>memprot\<close>, then with protection on only bytes of the memory map of the firmware change, and nothing
  else of what address expressions see.
\<close>

theorem shell_memory_confined:
  assumes "shellParse w d command (Some st) = (r, Some st')" "calls st' = calls st @ ext"
    "list_all (\<lambda>(fn, argv). safe_fn w fn) ext" "reads_ok (io_reads (w_io w))" "\<not> protoff (g_env st)"
  shows "g_env st' = (g_env st)\<lparr>memory := memory (g_env st')\<rparr> \<and>
    (\<forall>x. memory (g_env st') x \<noteq> memory (g_env st) x \<longrightarrow> valid_byte (isv1 (g_env st)) x)"
proof -
  have "mem_logged w st st'" using assms(1) by (rule mem.shellParse_keeps)
  then have "mem_kept (g_env st) (g_env st')" using assms(2-4) by (auto simp: mem_logged_def)
  then show ?thesis using assms(5) by (simp add: mem_kept_def)
qed

section \<open>Lines that call\<close>

text \<open>Of arguments typed in quotes, the ones that arrive: \<open>parse_args\<close> drops an empty last one.\<close>

definition heard :: "string list \<Rightarrow> string list" where
  "heard args = (if args \<noteq> [] \<and> last args = [] then butlast args else args)"

lemma shell_line_quoted:
  assumes "\<not> g_ttymode st" "\<forall>a \<in> set (name # args). no_nul a" "length args < 15" "name \<noteq> []"
    "find_command name = Some c" "c_func c = Some fn" "CHR ''.'' \<notin> set name" "chead name \<noteq> CHR ''#''"
    "c_min_args c \<le> length (heard args)"
  shows "shell_line w parse (command_line (name # args)) st =
    (let (r, s) = call_cmd w parse fn (heard args) st
     in (r, if r = CMD_ERROR then map_option (say (''Usage: '' @ help_text c)) s else s))"
proof -
  have "(if last (name # args) = [] then butlast (name # args) else name # args) = name # heard args"
    using assms(4) by (auto simp: heard_def)
  then have "map_option argv_strings (parse_args 16 (command_line (name # args))) = Some (name # heard args)"
    using parse_args_command_line [OF assms(2), of 16] assms(3) by simp
  then obtain p where "parse_args 16 (command_line (name # args)) = Some p" "argv_strings p = name # heard args" by auto
  then show ?thesis
    using assms(1,5-9) by (simp add: shell_line_def strrchr_def run_command_def)
qed

text \<open>
  C21: A command reaches its function. If the name of a command, or a synonym that finds it, and at most
  14 arguments are typed in quotes, the shell calls the command's function with exactly these
  arguments, whatever characters (no NUL) they contain; only an empty last argument does not arrive. The result
  of the function is the line's, and the usage is printed when the function reports an error. The shell must not be in
  its terminal mode, in which lines go to the program; the name must hold no dot, which makes it a file to run,
  and not begin with \<open>#\<close>; and the arguments that arrive must be as many as the command asks for at least.
\<close>

theorem shellParse_calls:
  assumes "\<not> g_ttymode st" "\<forall>a \<in> set (name # args). no_nul a" "length args < 15" "name \<noteq> []"
    "find_command name = Some c" "c_func c = Some fn" "CHR ''.'' \<notin> set name" "chead name \<noteq> CHR ''#''"
    "c_min_args c \<le> length (heard args)"
  shows "shellParse w (Suc d) (command_line (name # args)) (Some st) =
    (let (r, s) = call_cmd w (shellParse w d) fn (heard args) st
     in (r, if r = CMD_ERROR then map_option (say (''Usage: '' @ help_text c)) s else s))"
  using shell_line_quoted [OF assms] by simp

definition plain_world :: "unit world" where
  "plain_world = \<lparr>w_io = full_io [], w_file = \<lambda>_. None, w_fcvt = \<lambda>_. [], w_junk = \<lambda>_. 0, w_stale = \<lambda>_ _. [],
     w_other = \<lambda>_ _ st. (CMD_OK, st)\<rparr>"

definition plain_shell :: "unit shell" where
  "plain_shell = \<lparr>g_shellvars = shellvars_start, g_ttymode = False, g_lastmod = [], g_currdir = ''host0:/'',
     g_config = config_zero, stdin_data = stdin_init, stdin_waitth = -1, g_env = plain_env (\<lambda>_. 0),
     g_dump = dump_start, g_disasm = disasm_start, out = [], saved = [], cache_ops = [], calls = [], rest = ()\<rparr>"

lemma cmd_entry_simps [simp]:
  "c_name (cmd_entry n s f k d h) = n" "c_syn (cmd_entry n s f k d h) = s" "c_func (cmd_entry n s f k d h) = f"
  "c_min_args (cmd_entry n s f k d h) = k" "c_desc (cmd_entry n s f k d h) = d" "c_help (cmd_entry n s f k d h) = h"
  by (simp_all add: cmd_entry_def)

lemma find_in_cong: "find_in cmd cs = find_in cmd cs"
  by simp

lemma find_peekw:
  "find_command ''kw'' = Some (cmd_entry ''peekw'' (Some ''kw'') (Some ''peekw_cmd'') 1
     (Some ''Peek the word at address'') (Some ''addr [o|b|x|f]''))"
  unfolding find_command_def commands_def
  by (simp only: find_in.simps cmd_entry_simps option.inject option.distinct list.inject list.distinct char.inject
      simp_thms if_True if_False cong: find_in_cong if_weak_cong)

lemma print_word_example: "print_word 0x08800000 = ''0x08800000''" "print_word 0 = ''0x00000000''"
proof -
  have "replicate 7 CHR ''0'' = ''0000000''" by (simp add: numeral_eq_Suc)
  then show "print_word 0x08800000 = ''0x08800000''" "print_word 0 = ''0x00000000''"
    by (simp_all add: print_word_def hex_upper_def digits_of.simps pad_zero_def digit_upper_def)
qed

lemma call_peekw:
  "call_cmd plain_world parse ''peekw_cmd'' [''0x08800000''] plain_shell =
     (CMD_OK, Some (plain_shell\<lparr>calls := [(''peekw_cmd'', [''0x08800000''])], out := [Line ''0x08800000: 0x00000000'']\<rparr>))"
proof -
  have s: "size_left (plain_env (\<lambda>_. 0)) 0x08800000 (MEM_ATTRIB_READ OR MEM_ATTRIB_WORD) = 0x1800000"
    by (simp add: size_left_def plain_env_def memValidate_def memValidate_in_def g_memareas_def entry_def in_entry_def)
  have z: "(0x08800000 :: u32) AND NOT 3 = 0x08800000" by (simp add: word_and_not_eq_diff)
  have d: "memDecode (plain_env (\<lambda>_. 0)) ''0x08800000'' = Some 0x08800000"
    using memDecode_print_word [of "plain_env (\<lambda>_. 0)" "0x08800000"] unfolding print_word_example .
  have "lw (memory (plain_env (\<lambda>_. 0))) 0x08800000 = 0" by (simp add: plain_env_def lw_def)
  then have p: "peekw_cmd (\<lambda>_. []) (plain_env (\<lambda>_. 0)) [''0x08800000''] = (CMD_OK, [''0x08800000: 0x00000000''])"
    using s z by (simp add: peekw_cmd_def d peek_line_hex print_word_example Let_def)
  have "map_of (modelled plain_world) ''peekw_cmd'' = Some (on_lines (peekw_cmd (\<lambda>_. [])))"
    by (simp add: modelled_def plain_world_def)
  then show ?thesis
    using p by (simp add: call_cmd_def on_lines_def plain_shell_def)
qed

lemmas plain_quoted = shell_line_quoted [OF _ _ _ _ find_peekw, of plain_shell "[''0x08800000'']" "''peekw_cmd''" plain_world]

lemma plain_line:
  "shellParse plain_world (Suc 0) (command_line [''kw'', ''0x08800000'']) (Some plain_shell) =
     (CMD_OK, Some (plain_shell\<lparr>calls := [(''peekw_cmd'', [''0x08800000''])], out := [Line ''0x08800000: 0x00000000'']\<rparr>))"
  using plain_quoted call_peekw by (simp add: plain_shell_def heard_def)

theorem shellParse_calls_witness:
  "shellParse plain_world 1 (command_line [''kw'', ''0x08800000'']) (Some plain_shell) =
     (CMD_OK, Some (plain_shell\<lparr>calls := [(''peekw_cmd'', [''0x08800000''])], out := [Line ''0x08800000: 0x00000000'']\<rparr>))"
  using shellParse_calls [OF _ _ _ _ find_peekw, of plain_shell "[''0x08800000'']" "''peekw_cmd''" plain_world 0] call_peekw
  by (simp add: plain_shell_def heard_def)

section \<open>Lines that do not call\<close>

lemma call_logs:
  assumes "call_cmd w (shellParse w d) fn argv st = (r, Some t)"
  shows "\<exists>ext. calls t = calls st @ (fn, argv) # ext"
proof -
  let ?st = "st\<lparr>calls := calls st @ [(fn, argv)]\<rparr>"
  note p = log.shellParse_leads [where w = w and d = d]
  show ?thesis
  proof (cases "fn = ''run_cmd'' \<or> fn = ''custom_cmd''")
    case True
    then have "log.leads (Some ?st) (Some t)"
      using assms log.run_leads [where parse = "shellParse w d" and w = w and st = ?st and argv = argv, OF p]
        log.custom_leads [where parse = "shellParse w d" and st = ?st and argv = argv, OF p]
      by (auto simp: call_cmd_def)
    then show ?thesis by (auto simp: logged_def)
  next
    case False
    then show ?thesis
      using assms modelled_keep [of w fn _ argv ?st]
      by (auto simp: call_cmd_def Let_def split_beta split: option.splits)
  qed
qed

text \<open>A result that calls something, or leaves all but the messages alone.\<close>

definition quiet :: "'x shell \<Rightarrow> int \<times> 'x shell option \<Rightarrow> bool" where
  "quiet st p \<longleftrightarrow> (\<forall>r st'. p = (r, Some st') \<longrightarrow> calls st' = calls st \<longrightarrow>
     (\<exists>msgs. st' = st\<lparr>out := out st @ map Line msgs\<rparr> \<and> (r = CMD_ERROR \<and> msgs \<noteq> [] \<or> r = CMD_OK)))"

lemma quiet_messages [simp]:
  "quiet st (CMD_ERROR, Some (say m st))" "quiet st (CMD_OK, Some (say m st))" "quiet st (CMD_OK, Some st)"
proof -
  show "quiet st (CMD_ERROR, Some (say m st))" "quiet st (CMD_OK, Some (say m st))"
    by (auto simp: quiet_def say_def intro!: exI [of _ "[m]"])
  show "quiet st (CMD_OK, Some st)" by (auto simp: quiet_def intro!: exI [of _ "[]"])
qed

lemma quiet_call [simp]: "quiet st (call_cmd w (shellParse w d) fn argv st)"
proof -
  have "calls t \<noteq> calls st" if "call_cmd w (shellParse w d) fn argv st = (r, Some t)" for r t
    using call_logs [OF that] by auto
  then show ?thesis by (simp add: quiet_def)
qed

lemma quiet_call_usage [simp]:
  "quiet st (let (r, s) = call_cmd w (shellParse w d) fn argv st in (r, if r = CMD_ERROR then map_option (say m) s else s))"
proof -
  obtain r s where p: "call_cmd w (shellParse w d) fn argv st = (r, s)" by fastforce
  have "calls t \<noteq> calls st" if "s = Some t" for t
    using call_logs [of w d fn argv st r t] p that by auto
  then have "quiet st (r, if r = CMD_ERROR then map_option (say m) s else s)"
    by (cases s) (simp_all add: quiet_def say_def)
  then show ?thesis using p by simp
qed

lemma quiet_line: "\<not> g_ttymode st \<Longrightarrow> quiet st (shell_line w (shellParse w d) command st)"
proof -
  have "quiet st (run_file w (shellParse w d) argv ext st)" for argv ext
    unfolding run_file_def Let_def by (simp split: option.split)
  moreover have "quiet st (run_command w (shellParse w d) argv st)" for argv
    unfolding run_command_def by (simp only: quiet_messages quiet_call_usage split: option.split if_split) simp
  ultimately show "\<not> g_ttymode st \<Longrightarrow> quiet st (shell_line w (shellParse w d) command st)"
    unfolding shell_line_def Let_def by (simp split: option.split)
qed

text \<open>
  C25: A line that is turned down changes nothing. If a line outside the terminal mode calls no function
  (it cannot be parsed, its file is not in the path, its command is unknown or gets too few arguments,
  or it is empty or a comment), the shell's state is as before but for the messages, of which there is
  one at least when the result is an error; the result is never that of leaving the shell.
\<close>

theorem shellParse_rejects:
  assumes "shellParse w d command (Some st) = (r, Some st')" "\<not> g_ttymode st" "calls st' = calls st"
  shows "\<exists>msgs. st' = st\<lparr>out := out st @ map Line msgs\<rparr> \<and> (r = CMD_ERROR \<and> msgs \<noteq> [] \<or> r = CMD_OK)"
proof -
  obtain n where "d = Suc n" using assms(1) by (cases d) auto
  then have "quiet st (r, Some st')" using quiet_line [OF assms(2), of w n command] assms(1) by simp
  then show ?thesis using assms(3) by (simp add: quiet_def)
qed

theorem shellParse_rejects_witness:
  "\<exists>msgs. snd (shellParse plain_world 1 ''nosuch'' (Some plain_shell)) = Some (plain_shell\<lparr>out := map Line msgs\<rparr>) \<and> msgs \<noteq> []"
proof -
  have parse: "map_option argv_strings (parse_args 16 ''nosuch'') = Some [''nosuch'']" by code_simp
  have "find_command ''nosuch'' = None"
    unfolding find_command_def commands_def
    by (simp only: find_in.simps cmd_entry_simps option.inject option.distinct list.inject list.distinct char.inject
        simp_thms if_True if_False cong: find_in_cong if_weak_cong)
  then have l: "shellParse plain_world 1 ''nosuch'' (Some plain_shell) = (CMD_ERROR, Some (say ''Unknown command nosuch'' plain_shell))"
    using parse by (auto simp: shell_line_def strrchr_def run_command_def plain_shell_def)
  have "calls (say ''Unknown command nosuch'' plain_shell) = calls plain_shell" "\<not> g_ttymode plain_shell"
    by (simp_all add: say_def plain_shell_def)
  from shellParse_rejects [OF l this(2,1)] show ?thesis
    unfolding l snd_conv by (auto simp: plain_shell_def)
qed

theorem shell_memory_confined_witness:
  "\<exists>st'. shellParse plain_world 1 (command_line [''kw'', ''0x08800000'']) (Some plain_shell) = (CMD_OK, Some st') \<and>
     g_env st' = (g_env plain_shell)\<lparr>memory := memory (g_env st')\<rparr>"
proof -
  let ?st = "plain_shell\<lparr>calls := [(''peekw_cmd'', [''0x08800000''])], out := [Line ''0x08800000: 0x00000000'']\<rparr>"
  have s: "safe_fn plain_world ''peekw_cmd''" by (simp add: safe_fn_def modelled_def)
  have r: "reads_ok (io_reads (w_io plain_world))" by (simp add: plain_world_def full_io_def reads_ok_def)
  note l = plain_line
  have "g_env ?st = (g_env plain_shell)\<lparr>memory := memory (g_env ?st)\<rparr>"
    using shell_memory_confined [OF l, of "[(''peekw_cmd'', [''0x08800000''])]"] s r
    by (simp add: plain_shell_def plain_env_def)
  then show ?thesis using l by (intro exI [of _ ?st]) simp
qed

section \<open>Depth\<close>

text \<open>A deeper model agrees with a shallower one where that has a result.\<close>

definition agrees :: "'x interp \<Rightarrow> 'x interp \<Rightarrow> bool" where
  "agrees p q \<longleftrightarrow> (\<forall>line s r t. p line s = (r, Some t) \<longrightarrow> q line s = (r, Some t)) \<and>
     (\<forall>line. snd (p line None) = None)"

lemma script_loop_None:
  assumes "\<And>line. snd (p line None) = None"
  shows "snd (snd (script_loop p argv lastmod stale f i pr ret None)) = None"
proof -
  define P where "P s t \<longleftrightarrow> (s = None \<longrightarrow> t = None)" for s t :: "'a option"
  have "P None (snd (snd (script_loop p argv lastmod stale f i pr ret None)))"
    by (rule script_loop_induct) (auto simp: P_def assms)
  then show ?thesis by (simp add: P_def)
qed

lemma script_loop_line:
  assumes "fdgets f 1024 = (l, n, g)" "n \<noteq> 0" "strip_whitesp (cstr l) \<noteq> ''echo on''" "strip_whitesp (cstr l) \<noteq> ''echo off''"
    "p (process_arguments (strip_whitesp (cstr l) @ CHR 0x00 # stale (i + 1)) argv lastmod) s = (r', s')"
    "script_loop p argv lastmod stale g (i + 1) pr r' s' = (r'', es, s'')"
  shows "\<exists>echo. script_loop p argv lastmod stale f i pr ret s =
    (if r' \<noteq> CMD_OK then (r', echo, s') else (r'', echo @ es, s''))"
  using assms
  by (intro exI [of _ "if pr then [(i + 1, process_arguments (strip_whitesp (cstr l) @ CHR 0x00 # stale (i + 1)) argv lastmod)] else []"],
      subst script_loop.simps) (auto simp: Let_def)

lemma script_loop_echo:
  assumes "fdgets f 1024 = (l, n, g)" "n \<noteq> 0" "strip_whitesp (cstr l) = ''echo on'' \<or> strip_whitesp (cstr l) = ''echo off''"
  shows "script_loop p argv lastmod stale f i pr ret s =
    script_loop p argv lastmod stale g (i + 1) (strip_whitesp (cstr l) = ''echo on'') ret s"
  using assms by (subst script_loop.simps) (auto simp: Let_def)

lemma script_loop_agrees:
  assumes "agrees p q"
  shows "script_loop p argv lastmod stale f i pr ret s = (r, e, Some t) \<Longrightarrow>
    \<exists>e'. script_loop q argv lastmod stale f i pr ret s = (r, e', Some t)"
proof (induction f arbitrary: i pr ret s r e rule: measure_induct_rule [of file_left])
  case (less f)
  obtain l n g where l: "fdgets f 1024 = (l, n, g)" using prod_cases3 by blast
  let ?c = "strip_whitesp (cstr l)"
  let ?line = "process_arguments (?c @ CHR 0x00 # stale (i + 1)) argv lastmod"
  show ?case
  proof (cases "n = 0")
    case True
    then show ?thesis using less.prems l by (subst script_loop.simps, subst (asm) script_loop.simps) simp
  next
    case n: False
    then have ih: "\<exists>e'. script_loop q argv lastmod stale g j k x u = (y, e', Some t)"
      if "script_loop p argv lastmod stale g j k x u = (y, z, Some t)" for j k x u y z
      using less.IH [OF _ that] fdgets_left [OF l] by simp
    show ?thesis
    proof (cases "?c = ''echo on'' \<or> ?c = ''echo off''")
      case True
      show ?thesis using less.prems ih unfolding script_loop_echo [OF l n True] by blast
    next
      case False
      then have c: "?c \<noteq> ''echo on''" "?c \<noteq> ''echo off''" by simp_all
      obtain r' s' where p: "p ?line s = (r', s')" by fastforce
      obtain r2 e2 s2 where p2: "script_loop p argv lastmod stale g (i + 1) pr r' s' = (r2, e2, s2)" using prod_cases3 by blast
      have "s' = None \<Longrightarrow> s2 = None"
        using script_loop_None [of p argv lastmod stale g "i + 1" pr r'] p2 assms by (simp add: agrees_def)
      moreover obtain ec where "script_loop p argv lastmod stale f i pr ret s = (if r' \<noteq> CMD_OK then (r', ec, s') else (r2, ec @ e2, s2))"
        using script_loop_line [where p = p and ret = ret, OF l n c p p2] by blast
      then have res: "r' \<noteq> CMD_OK \<and> r = r' \<and> s' = Some t \<or> r' = CMD_OK \<and> r = r2 \<and> s2 = Some t"
        using less.prems by (auto split: if_splits)
      ultimately obtain u where u: "s' = Some u" "q ?line s = (r', Some u)"
        using p assms by (cases s') (auto simp: agrees_def)
      obtain r3 e3 s3 where q: "script_loop q argv lastmod stale g (i + 1) pr r' (Some u) = (r3, e3, s3)" using prod_cases3 by blast
      obtain eq where "script_loop q argv lastmod stale f i pr ret s = (if r' \<noteq> CMD_OK then (r', eq, Some u) else (r3, eq @ e3, s3))"
        using script_loop_line [where p = q and ret = ret, OF l n c u(2) q] by blast
      moreover have "r' = CMD_OK \<Longrightarrow> r3 = r \<and> s3 = Some t"
        using ih [of "i + 1" pr r' s' r e2] p2 q u(1) res by auto
      ultimately show ?thesis using res u(1) by (cases "r' = CMD_OK") auto
    qed
  qed
qed

lemma scriptRun_agrees:
  assumes "agrees p q" "scriptRun p f argv lastmod stale pr s = (r, e, Some t)"
  shows "\<exists>e'. scriptRun q f argv lastmod stale pr s = (r, e', Some t)"
  using assms script_loop_agrees [OF assms(1)] by (cases f) (auto simp: scriptRun_def)

definition more_defined :: "int \<times> 'x shell option \<Rightarrow> int \<times> 'x shell option \<Rightarrow> bool" where
  "more_defined p q \<longleftrightarrow> (snd p \<noteq> None \<longrightarrow> q = p)"

lemma more_defined_refl [simp]: "more_defined p p"
  by (simp add: more_defined_def)

lemma agrees_more: "agrees p q \<Longrightarrow> more_defined (p line s) (q line s)"
  by (cases "p line s") (auto simp: agrees_def more_defined_def)

lemma more_defined_map:
  "more_defined p q \<Longrightarrow> more_defined (let (r, s) = p in (r, if b r then map_option f s else s)) (let (r, s) = q in (r, if b r then map_option f s else s))"
  by (auto simp: more_defined_def split_beta split: if_splits)

lemma call_cmd_more:
  assumes "agrees p q"
  shows "more_defined (call_cmd w p fn argv st) (call_cmd w q fn argv st)"
proof -
  have "more_defined (run_cmd w p argv st) (run_cmd w q argv st)" for st
  proof (cases "handlepath (io_stat (w_io w)) (io_opens (w_io w)) (g_currdir st) (argv ! 0) TYPE_FILE True")
    case (Some f)
    obtain r e s where p: "scriptRun p (w_file w f) (Some argv) (Some (g_lastmod st)) (w_stale w st) False (Some st) = (r, e, s)"
      using prod_cases3 by blast
    show ?thesis
    proof (cases s)
      case (Some t)
      then show ?thesis
        using \<open>handlepath _ _ _ _ _ _ = _\<close> p scriptRun_agrees [OF assms, of "w_file w f" "Some argv" _ _ _ _ r e t]
        by (fastforce simp: run_cmd_def more_defined_def)
    qed (use Some p in \<open>simp add: run_cmd_def more_defined_def\<close>)
  qed (simp add: run_cmd_def)
  moreover have "more_defined (custom_cmd p argv st) (custom_cmd q argv st)" for st
    using more_defined_map [OF agrees_more [OF assms], where b = "\<lambda>_. True"] by (simp add: custom_cmd_def Let_def)
  ultimately show ?thesis by (simp add: call_cmd_def Let_def)
qed

lemma shell_line_more:
  assumes "agrees p q"
  shows "more_defined (shell_line w p command st) (shell_line w q command st)"
proof -
  note c = call_cmd_more [OF assms]
  have "more_defined (run_file w p argv ext st) (run_file w q argv ext st)" for argv ext
    using c by (simp add: run_file_def Let_def split: option.split)
  moreover have "more_defined (run_command w p argv st) (run_command w q argv st)" for argv
    using c more_defined_map [OF c, where b = "\<lambda>r. r = CMD_ERROR"] by (simp add: run_command_def split: option.split)
  ultimately show ?thesis by (simp add: shell_line_def Let_def split: option.split)
qed

lemma shellParse_agrees: "agrees (shellParse w d) (shellParse w (Suc d))"
proof (induction d)
  case 0
  show ?case by (simp add: agrees_def)
next
  case (Suc d)
  have "shellParse w (Suc (Suc d)) line s = (r, Some t)" if "shellParse w (Suc d) line s = (r, Some t)" for line s r t
  proof (cases s)
    case (Some st)
    have a: "shellParse w (Suc d) line s = shell_line w (shellParse w d) line st"
      and b: "shellParse w (Suc (Suc d)) line s = shell_line w (shellParse w (Suc d)) line st"
      unfolding Some by (simp_all only: shellParse.simps option.case)
    from that a have x: "shell_line w (shellParse w d) line st = (r, Some t)" by (simp only:)
    from shell_line_more [OF Suc, of w line st] x have y: "shell_line w (shellParse w (Suc d)) line st = (r, Some t)"
      unfolding more_defined_def by (metis option.distinct(1) snd_conv)
    from b y show ?thesis by (simp only:)
  qed (use that in simp)
  then show ?case by (simp add: agrees_def)
qed

text \<open>
  The depth of the model does not matter where it is enough: a line that has a result with calls
  nested at most \<open>d\<close> deep has the same result and leaves the same state with any greater depth.
\<close>

theorem shellParse_deeper:
  assumes "shellParse w d command s = (r, Some st)" "d \<le> d'"
  shows "shellParse w d' command s = (r, Some st)"
  using assms(2,1)
proof (induction d' rule: dec_induct)
  case (step n)
  then show ?case using shellParse_agrees [of w n] unfolding agrees_def by blast
qed

theorem shellParse_deeper_witness:
  "shellParse plain_world 7 (command_line [''kw'', ''0x08800000'']) (Some plain_shell) =
     shellParse plain_world 1 (command_line [''kw'', ''0x08800000'']) (Some plain_shell)"
  using shellParse_deeper [OF plain_line, of 7] plain_line by simp

text \<open>A custom command that is bound to itself never comes back.\<close>

lemma custom_loops:
  assumes "\<not> g_ttymode st" "conscrosscmd (g_config st) = ''custom 0''"
  shows "shellParse w d ''custom 0'' (Some st) = (CMD_ERROR, None)"
  using assms
proof (induction d arbitrary: st)
  case (Suc d)
  have "map_option argv_strings (parse_args 16 ''custom 0'') = Some [''custom'', ''0'']" by code_simp
  then obtain p where p: "parse_args 16 ''custom 0'' = Some p" "argv_strings p = [''custom'', ''0'']" by auto
  have f: "find_command ''custom'' = Some (cmd_entry ''custom'' (Some ''cst'') (Some ''custom_cmd'') 1 None None)"
    unfolding find_command_def commands_def
    by (simp only: find_in.simps cmd_entry_simps option.inject option.distinct list.inject list.distinct char.inject
        simp_thms if_True if_False cong: find_in_cong if_weak_cong)
  have a: "c_atoi_str ''0'' = 0" by code_simp
  let ?st = "say ''custom 0'' (st\<lparr>calls := calls st @ [(''custom_cmd'', [''0''])]\<rparr>)"
  have "shellParse w d ''custom 0'' (Some ?st) = (CMD_ERROR, None)" using Suc by (simp add: say_def)
  then show ?case
    using Suc.prems p f a by (simp add: shell_line_def strrchr_def run_command_def call_cmd_def custom_cmd_def custom_line_def)
qed simp

end
