(* ===== verification/HostShell.thy ===== *)
theory HostShell
  imports HostFs Async Shell
begin

text \<open>
  \<open>usbhostfs_pc/main.c\<close>, the PC program around the file server: its command line, the shell that mounts
  directories as drives and keeps the mounts in a map file, the search for the USB device, and the thread
  that serves the sockets of the asynchronous channels.

  Answers of the operating system are arguments (\<open>pc_os\<close>, \<open>usb_dev\<close>, \<open>wakeup\<close>); what the program prints,
  writes and closes is recorded in order. \<open>getopt\<close> is the list of options it finds.
\<close>

section \<open>Byte order\<close>

text \<open>On a big-endian PC \<open>LE16\<close>, \<open>LE32\<close> and \<open>LE64\<close> are these; byte 0 is the most significant one.\<close>

definition be_byte :: "nat \<Rightarrow> 'a::len word \<Rightarrow> nat \<Rightarrow> 'b::len word" where
  "be_byte n i k = ucast (ucast (drop_bit (8 * (n - 1 - k)) i) :: u8)"

definition swap16 :: "u16 \<Rightarrow> u16" where
  "swap16 i = push_bit 8 (be_byte 2 i 1) OR be_byte 2 i 0"

definition swap32 :: "u32 \<Rightarrow> u32" where
  "swap32 i = push_bit 24 (be_byte 4 i 3) OR push_bit 16 (be_byte 4 i 2) OR push_bit 8 (be_byte 4 i 1) OR be_byte 4 i 0"

definition swap64 :: "u64 \<Rightarrow> u64" where
  "swap64 i = be_byte 8 i 0 OR push_bit 8 (be_byte 8 i 1) OR push_bit 16 (be_byte 8 i 2) OR push_bit 24 (be_byte 8 i 3)
     OR push_bit 32 (be_byte 8 i 4) OR push_bit 40 (be_byte 8 i 5) OR push_bit 48 (be_byte 8 i 6) OR push_bit 56 (be_byte 8 i 7)"

section \<open>The program's state\<close>

text \<open>\<open>roots\<close> is \<open>g_drives\<close>, \<open>workdir\<close> is \<open>g_rootdir\<close>.\<close>

record host_pc =
  roots :: "host_drive list"
  workdir :: string
  pflags :: path_flags
  g_gdbdebug :: bool
  g_verbose :: int
  g_mapfile :: "string option"
  g_pid :: u32
  g_baseport :: int
  g_timeout :: int
  g_globalbind :: bool
  g_daemon :: bool

text \<open>
  The operating system: which directories open, the contents of files, which files may be written, the
  directory one comes to (or an error text). \<open>ulong_bits\<close> is the width of \<open>unsigned long\<close>.
\<close>

record pc_os =
  opendir_ok :: "string \<Rightarrow> bool"
  file_text :: "string \<Rightarrow> string option"
  writable :: "string \<Rightarrow> bool"
  chdir_to :: "string \<Rightarrow> string + string"
  ulong_bits :: nat

datatype pc_effect = Say string | System string | Wrote string string | Exit_app

section \<open>C library\<close>

definition blank :: "char \<Rightarrow> bool" where
  "blank c \<longleftrightarrow> c = CHR '' '' \<or> c = CHR 0x09"

text \<open>\<open>strtok (s, " \t")\<close> with what the next call goes on with, and \<open>strtok (NULL, "")\<close>.\<close>

definition strtok_blank :: "string \<Rightarrow> string option \<times> string" where
  "strtok_blank s =
     (let s = dropWhile blank s
      in if s = [] then (None, []) else (Some (takeWhile (\<lambda>c. \<not> blank c) s), drop 1 (dropWhile (\<lambda>c. \<not> blank c) s)))"

definition strtok_rest :: "string \<Rightarrow> string option" where
  "strtok_rest s = (if s = [] then None else Some s)"

definition int_of_u32 :: "u32 \<Rightarrow> int" where
  "int_of_u32 v = sint v"

text \<open>\<open>strtoul (s, &endp, 10)\<close> stored in an \<open>int\<close>, and \<open>endp\<close>.\<close>

definition strtoul10 :: "nat \<Rightarrow> string \<Rightarrow> int \<times> string" where
  "strtoul10 bits str =
     (let s = dropWhile c_isspace str;
          neg = (chead s = CHR ''-'');
          s = (if chead s = CHR ''-'' \<or> chead s = CHR ''+'' then tl s else s);
          ds = takeWhile is_num s;
          n = c_atoi ds
      in if ds = [] then (0, str)
         else (int_of_u32 (if 2 ^ bits \<le> n then - 1 else word_of_int (if neg then - n else n)), dropWhile is_num s))"

text \<open>\<open>fgets\<close> with room for so many characters: the line and the rest of the file.\<close>

fun fgets_line :: "nat \<Rightarrow> string \<Rightarrow> string \<times> string" where
  "fgets_line 0 s = ([], s)"
| "fgets_line (Suc n) [] = ([], [])"
| "fgets_line (Suc n) (c # s) = (if c = CHR 0x0A then ([c], s) else let (l, r) = fgets_line n s in (c # l, r))"

lemma fgets_line_append: "fgets_line n s = (l, r) \<Longrightarrow> s = l @ r"
  by (induction n s arbitrary: l r rule: fgets_line.induct) (auto split: prod.splits if_splits)

lemma fgets_line_less: "fgets_line (Suc n) s = (l, r) \<Longrightarrow> s \<noteq> [] \<Longrightarrow> length r < length s"
  by (frule fgets_line_append) (cases s; auto split: prod.splits if_splits)

text \<open>The lines a loop of \<open>fgets\<close> reads into a buffer of so many bytes.\<close>

function fgets_lines :: "nat \<Rightarrow> string \<Rightarrow> string list" where
  "fgets_lines room s =
     (if s = [] \<or> room < 2 then [] else let (l, r) = fgets_line (room - 1) s in l # fgets_lines room r)"
  by pat_completeness auto
termination
proof (relation "measure (\<lambda>(room, s). length s)")
  fix room :: nat and s :: string and p l r
  assume a: "\<not> (s = [] \<or> room < 2)" "p = fgets_line (room - 1) s" "(l, r) = p"
  then obtain k where "room - 1 = Suc k" by (cases "room - 1") auto
  then show "((room, r), room, s) \<in> measure (\<lambda>(room, s). length s)"
    using fgets_line_less [of k s l r] a by simp
qed simp

declare fgets_lines.simps [simp del]

text \<open>The white space taken off at the end, then at the start.\<close>

definition trim :: "string \<Rightarrow> string" where
  "trim s = dropWhile c_isspace (rev (dropWhile c_isspace (rev s)))"

section \<open>Drives\<close>

definition drive_path :: "string \<Rightarrow> string \<Rightarrow> string" where
  "drive_path cwd dir = gen_path (if chead dir \<noteq> slash then take (PATH_MAX - 1) (cwd @ slash # dir) else dir) False"

text \<open>\<open>add_drive\<close> with the line it prints when it fails.\<close>

definition mount :: "pc_os \<Rightarrow> int \<Rightarrow> string \<Rightarrow> host_pc \<Rightarrow> bool \<times> pc_effect list \<times> host_pc" where
  "mount os num dir pc =
     (let (ds, ok) = add_drive (opendir_ok os) (workdir pc) (roots pc) num dir
      in (ok,
          if ok then []
          else if num < 0 \<or> int MAX_HOSTDRIVES \<le> num then [Say (''Invalid host driver number '' @ [CHR 0x27] @ dec_int num @ [CHR 0x27])]
          else [Say (''Invalid directory '' @ [CHR 0x27] @ drive_path (workdir pc) dir @ [CHR 0x27])],
          pc\<lparr>roots := ds\<rparr>))"

definition map_line :: "pc_os \<Rightarrow> nat \<Rightarrow> string \<Rightarrow> host_pc \<Rightarrow> pc_effect list \<times> host_pc" where
  "map_line os line text pc =
     (let buf = trim (cstr text); (num, endp) = strtoul10 (ulong_bits os) buf
      in if \<not> is_num (chead buf)
         then ([Say (''Line '' @ dec_nat line @ '': Entry does not start with the host number'')], pc)
         else if chead endp \<noteq> CHR ''='' \<or> tl endp = [] \<or> c_isspace (chead (tl endp))
         then ([Say (''Line '' @ dec_nat line @ '': Entry is not of the form '' @ [CHR 0x27] @ ''num=path'' @ [CHR 0x27])], pc)
         else let (_, effs, pc) = mount os num (tl endp) pc in (effs, pc))"

fun map_lines :: "pc_os \<Rightarrow> nat \<Rightarrow> string list \<Rightarrow> host_pc \<Rightarrow> pc_effect list \<times> host_pc" where
  "map_lines os line [] pc = ([], pc)"
| "map_lines os line (t # ts) pc =
     (let (effs, pc) = map_line os (Suc line) t pc; (effs', pc) = map_lines os (Suc line) ts pc in (effs @ effs', pc))"

text \<open>The message names \<open>g_mapfile\<close>, the file of the command line; a null pointer prints as \<open>(null)\<close>.\<close>

definition load_mapfile :: "pc_os \<Rightarrow> string \<Rightarrow> host_pc \<Rightarrow> pc_effect list \<times> host_pc" where
  "load_mapfile os mapfile pc =
     (case file_text os mapfile of
        None \<Rightarrow> ([Say (''Couldn'' @ [CHR 0x27] @ ''t open mapfile '' @ [CHR 0x27] @
                   (case g_mapfile pc of None \<Rightarrow> ''(null)'' | Some f \<Rightarrow> f) @ [CHR 0x27])], pc)
      | Some content \<Rightarrow> map_lines os 0 (fgets_lines PATH_MAX content) pc)"

definition mapfile_text :: "host_drive list \<Rightarrow> string" where
  "mapfile_text ds = concat (map (\<lambda>i. dec_nat i @ ''='' @ rootdir (ds ! i) @ [CHR 0x0A]) [0..<MAX_HOSTDRIVES])"

section \<open>The shell\<close>

abbreviation COMMAND_OK :: int where "COMMAND_OK \<equiv> 0"
abbreviation COMMAND_ERR :: int where "COMMAND_ERR \<equiv> 1"
abbreviation COMMAND_HELP :: int where "COMMAND_HELP \<equiv> 2"

text \<open>A command reads its arguments from what \<open>strtok\<close> has left of the line.\<close>

type_synonym pc_command = "pc_os \<Rightarrow> string \<Rightarrow> host_pc \<Rightarrow> int \<times> pc_effect list \<times> host_pc"

definition on_off :: "bool \<Rightarrow> string" where
  "on_off b = (if b then ''on'' else ''off'')"

text \<open>The three settings: the name in the error message, the name printed, the value and its update.\<close>

definition switch_set :: "string \<Rightarrow> string \<Rightarrow> bool \<Rightarrow> (bool \<Rightarrow> host_pc) \<Rightarrow> string \<Rightarrow> host_pc \<Rightarrow> int \<times> pc_effect list \<times> host_pc" where
  "switch_set err nm val upd tail pc =
     (case fst (strtok_blank tail) of
        None \<Rightarrow> (COMMAND_OK, [Say (nm @ '': '' @ on_off val)], pc)
      | Some t \<Rightarrow>
          if t = ''on'' then (COMMAND_OK, [], upd True)
          else if t = ''off'' then (COMMAND_OK, [], upd False)
          else (COMMAND_OK, [Say (''Error setting '' @ err @ '', invalid option '' @ [CHR 0x27] @ t @ [CHR 0x27])], pc))"

definition nocase_set :: pc_command where
  "nocase_set os tail pc =
     switch_set ''nocase'' ''nocase'' (g_nocase (pflags pc)) (\<lambda>b. pc\<lparr>pflags := (pflags pc)\<lparr>g_nocase := b\<rparr>\<rparr>) tail pc"

definition msslash_set :: pc_command where
  "msslash_set os tail pc =
     switch_set ''msslash'' ''msslash'' (g_msslash (pflags pc)) (\<lambda>b. pc\<lparr>pflags := (pflags pc)\<lparr>g_msslash := b\<rparr>\<rparr>) tail pc"

definition gdbdebug_set :: pc_command where
  "gdbdebug_set os tail pc = switch_set ''nocase'' ''gdbdebug'' (g_gdbdebug pc) (\<lambda>b. pc\<lparr>g_gdbdebug := b\<rparr>) tail pc"

definition verbose_set :: pc_command where
  "verbose_set os tail pc =
     (case fst (strtok_blank tail) of
        None \<Rightarrow> (COMMAND_OK, [Say (''verbose: '' @ dec_int (g_verbose pc))], pc)
      | Some t \<Rightarrow> (COMMAND_OK, [], pc\<lparr>g_verbose := c_atoi_str t\<rparr>))"

definition list_drives :: pc_command where
  "list_drives os tail pc =
     (COMMAND_OK, map (\<lambda>i. Say (''host'' @ dec_nat i @ '': '' @ rootdir (roots pc ! i))) [0..<MAX_HOSTDRIVES], pc)"

definition mount_drive :: pc_command where
  "mount_drive os tail pc =
     (case strtok_blank tail of
        (Some num, tail) \<Rightarrow>
          (case strtok_rest tail of
             None \<Rightarrow> (COMMAND_ERR, [Say ''Must specify a drive number and a directory''], pc)
           | Some dir \<Rightarrow>
               (let (val, endp) = strtoul10 (ulong_bits os) num
                in if endp \<noteq> [] then (COMMAND_ERR, [Say (''Invalid host driver number '' @ [CHR 0x27] @ num @ [CHR 0x27])], pc)
                   else let (ok, effs, pc) = mount os val dir pc in (if ok then COMMAND_OK else COMMAND_ERR, effs, pc)))
      | (None, _) \<Rightarrow> (COMMAND_ERR, [Say ''Must specify a drive number and a directory''], pc))"

definition load_drives :: pc_command where
  "load_drives os tail pc =
     (case strtok_rest tail of
        None \<Rightarrow> (COMMAND_ERR, [Say ''Must specify a filename''], pc)
      | Some mapfile \<Rightarrow> (COMMAND_OK, load_mapfile os mapfile pc))"

definition save_drives :: pc_command where
  "save_drives os tail pc =
     (case strtok_rest tail of
        None \<Rightarrow> (COMMAND_ERR, [Say ''Must specify a filename''], pc)
      | Some mapfile \<Rightarrow>
          if \<not> writable os mapfile
          then (COMMAND_ERR, [Say (''Couldn'' @ [CHR 0x27] @ ''t open file '' @ [CHR 0x27] @ mapfile @ [CHR 0x27])], pc)
          else (COMMAND_OK, [Wrote mapfile (mapfile_text (roots pc))], pc))"

definition print_wd :: pc_command where
  "print_wd os tail pc = (COMMAND_OK, [Say (workdir pc)], pc)"

definition ch_dir :: pc_command where
  "ch_dir os tail pc =
     (case strtok_rest tail of
        None \<Rightarrow> (COMMAND_ERR, [Say ''Must specify a directory''], pc)
      | Some dir \<Rightarrow>
          (case chdir_to os dir of
             Inl err \<Rightarrow> (COMMAND_OK, [Say (''chdir: '' @ err)], pc)
           | Inr cwd \<Rightarrow> (COMMAND_OK, [], pc\<lparr>workdir := cwd\<rparr>)))"

definition pc_help_cmd :: pc_command where
  "pc_help_cmd os tail pc = (COMMAND_HELP, [], pc)"

definition exit_app :: pc_command where
  "exit_app os tail pc = (COMMAND_OK, [Say ''Exiting'', Exit_app], pc)"

definition g_commands :: "(string \<times> string \<times> pc_command) list" where
  "g_commands =
     [(''drives'', ''Print the current drives'', list_drives),
      (''mount'', ''Mount a directory (mount num dir)'', mount_drive),
      (''save'', ''Save the list of mounts to a file (save filename)'', save_drives),
      (''load'', ''Load a list of mounts from a file (load filename)'', load_drives),
      (''nocase'', ''Set case sensitivity (nocase on|off)'', nocase_set),
      (''msslash'', ''Convert backslash to forward slash in filename'', msslash_set),
      (''gdbdebug'', ''Set the GDB debug option (gdbdebug on|off)'', gdbdebug_set),
      (''verbose'', ''Set the verbose level (verbose 0|1|2)'', verbose_set),
      (''pwd'', ''Print the current directory'', print_wd),
      (''cd'', ''Change the current local directory'', ch_dir),
      (''help'', ''Print this help'', pc_help_cmd),
      (''exit'', ''Exit the application'', exit_app)]"

definition pc_help :: "pc_effect list" where
  "pc_help = Say ''-= Help =-'' # map (\<lambda>(nm, help, _). Say (pad_right 10 nm @ '': '' @ help)) g_commands"

definition parse_shell :: "pc_os \<Rightarrow> string \<Rightarrow> host_pc \<Rightarrow> pc_effect list \<times> host_pc" where
  "parse_shell os line pc =
     (let buf = trim line
      in if buf = [] then ([], pc)
         else if hd buf = CHR ''!'' then ([System (tl buf)], pc)
         else let (cmd, tail) = strtok_blank buf;
                  (ret, effs, pc) =
                    (case map_of g_commands (the cmd) of
                       None \<Rightarrow> (COMMAND_HELP, [], pc)
                     | Some (_, fn) \<Rightarrow> fn os tail pc)
              in (effs @ (if ret = COMMAND_HELP then pc_help else []), pc))"

section \<open>The command line\<close>

text \<open>An option \<open>getopt\<close> finds, with its argument; \<open>None\<close> when the help is to be printed.\<close>

definition pc_option :: "char \<times> string \<Rightarrow> host_pc \<Rightarrow> host_pc option" where
  "pc_option opt pc =
     (let (ch, optarg) = opt
      in if ch = CHR ''v'' then Some (pc\<lparr>g_verbose := g_verbose pc + 1\<rparr>)
         else if ch = CHR ''b'' then Some (pc\<lparr>g_baseport := c_atoi_str optarg mod 65536\<rparr>)
         else if ch = CHR ''g'' then Some (pc\<lparr>g_globalbind := True\<rparr>)
         else if ch = CHR ''p'' then Some (pc\<lparr>g_pid := fst (strtoul optarg)\<rparr>)
         else if ch = CHR ''d'' then Some (pc\<lparr>g_gdbdebug := True\<rparr>)
         else if ch = CHR ''c'' then Some (pc\<lparr>pflags := (pflags pc)\<lparr>g_nocase := True\<rparr>\<rparr>)
         else if ch = CHR ''m'' then Some (pc\<lparr>pflags := (pflags pc)\<lparr>g_msslash := True\<rparr>\<rparr>)
         else if ch = CHR ''f'' then Some (pc\<lparr>g_mapfile := Some optarg\<rparr>)
         else if ch = CHR ''t'' then Some (pc\<lparr>g_timeout := c_atoi_str optarg\<rparr>)
         else if ch = CHR ''n'' then Some (pc\<lparr>g_daemon := True\<rparr>)
         else None)"

fun pc_options :: "(char \<times> string) list \<Rightarrow> host_pc \<Rightarrow> host_pc option" where
  "pc_options [] pc = Some pc"
| "pc_options (opt # opts) pc = (case pc_option opt pc of None \<Rightarrow> None | Some pc \<Rightarrow> pc_options opts pc)"

abbreviation BASE_PORT :: int where "BASE_PORT \<equiv> 10000"
abbreviation HOST_PID :: u32 where "HOST_PID \<equiv> 0x1C9"

text \<open>Before \<open>parse_args\<close>: the initial values of the globals.\<close>

definition pc_start :: host_pc where
  "pc_start = \<lparr>roots = replicate MAX_HOSTDRIVES \<lparr>rootdir = [], currdir = []\<rparr>, workdir = [],
     pflags = \<lparr>g_nocase = False, g_msslash = False\<rparr>, g_gdbdebug = False, g_verbose = 0, g_mapfile = None,
     g_pid = HOST_PID, g_baseport = BASE_PORT, g_timeout = 0, g_globalbind = False, g_daemon = False\<rparr>"

text \<open>\<open>cwd\<close> is what \<open>getcwd\<close> gives: the test of its result never finds an error, the old value is kept then.\<close>

definition parse_args_pc :: "string option \<Rightarrow> (char \<times> string) list \<Rightarrow> string list \<Rightarrow> host_pc \<Rightarrow> host_pc option" where
  "parse_args_pc cwd opts operands pc =
     (let cwd = (case cwd of Some d \<Rightarrow> d | None \<Rightarrow> workdir pc)
      in case pc_options opts (pc\<lparr>workdir := cwd, roots := map (\<lambda>d. d\<lparr>rootdir := cwd\<rparr>) (roots pc)\<rparr>) of
           None \<Rightarrow> None
         | Some pc \<Rightarrow>
             (let dirs = take MAX_HOSTDRIVES operands
              in Some (pc\<lparr>roots := map (\<lambda>i. if i < length dirs then (roots pc ! i)\<lparr>rootdir := drive_path (workdir pc) (dirs ! i)\<rparr>
                                          else roots pc ! i) [0..<MAX_HOSTDRIVES]\<rparr>)))"

section \<open>Debugger traffic\<close>

definition print_gdbdebug :: "bool \<Rightarrow> u8 list \<Rightarrow> string" where
  "print_gdbdebug dir data =
     (if dir then ''HOST->GDB ('' else ''GDB->HOST ('') @
     concat (map (\<lambda>b. if 32 \<le> b then [char_of (unat b)] else [CHR 0x5C] @ pad_zero 2 (hex_lower (unat b))) data) @ '')''"

section \<open>Sockets\<close>

datatype sock_call = Socket | Bind int | Listen int | Close int

text \<open>The answers of \<open>socket\<close>, \<open>bind\<close> and \<open>listen\<close>; the address is that of the port.\<close>

definition make_socket :: "int \<Rightarrow> int \<Rightarrow> int \<Rightarrow> int \<times> sock_call list" where
  "make_socket sock bound listening =
     (if sock < 0 then (-1, [Socket])
      else if bound < 0 then (-1, [Socket, Bind sock, Close sock])
      else if listening < 0 then (-1, [Socket, Bind sock, Listen sock, Close sock])
      else (sock, [Socket, Bind sock, Listen sock]))"

record pc_sockets =
  servsocks :: "int list"
  clientsocks :: "int list"
  read_save :: "int set"
  max_fd :: int
  stdout_of :: int

text \<open>\<open>stdout_of\<close> is the descriptor standard output was last duplicated from.\<close>

datatype sock_effect =
    Closed int | Read_from int | To_psp "u8 list" | Shell_effect pc_effect

definition shutdown_socket :: "pc_sockets \<Rightarrow> sock_effect list \<times> pc_sockets" where
  "shutdown_socket s =
     (concat (map (\<lambda>i. (if 0 \<le> clientsocks s ! i then [Closed (clientsocks s ! i)] else []) @
                       (if 0 \<le> servsocks s ! i then [Closed (servsocks s ! i)] else [])) [0..<MAX_ASYNC_CHANNELS]),
      s\<lparr>clientsocks := map (\<lambda>c. if 0 \<le> c then - 1 else c) (clientsocks s),
        servsocks := map (\<lambda>c. if 0 \<le> c then - 1 else c) (servsocks s)\<rparr>)"

definition watch :: "int \<Rightarrow> pc_sockets \<Rightarrow> pc_sockets" where
  "watch fd s = (if 0 \<le> fd then s\<lparr>read_save := insert fd (read_save s), max_fd := max (max_fd s) fd\<rparr> else s)"

text \<open>The start of \<open>async_thread\<close>: the sockets \<open>main\<close> has made are watched, and the keyboard unless in daemon mode.\<close>

definition async_start :: "bool \<Rightarrow> int list \<Rightarrow> pc_sockets" where
  "async_start daemon servs =
     (let s = \<lparr>servsocks = servs, clientsocks = replicate MAX_ASYNC_CHANNELS (- 1),
               read_save = (if daemon then {} else {0}), max_fd = 0, stdout_of = 1\<rparr>
      in fold watch servs s)"

text \<open>
  What one return of \<open>select\<close> brings: the descriptors that are ready, the line typed, what \<open>accept\<close>
  answers per channel, what \<open>read\<close> gives per channel (nothing at the end or on an error), and whether a
  device is connected.
\<close>

record wakeup =
  ready :: "int set"
  typed :: "string option"
  accepts :: "nat \<Rightarrow> int"
  gives :: "nat \<Rightarrow> u8 list"
  attached :: bool

abbreviation ASYNC_SHELL :: nat where "ASYNC_SHELL \<equiv> 0"
abbreviation ASYNC_GDB :: nat where "ASYNC_GDB \<equiv> 1"

definition accept_channel :: "bool \<Rightarrow> wakeup \<Rightarrow> nat \<Rightarrow> pc_sockets \<Rightarrow> sock_effect list \<times> pc_sockets" where
  "accept_channel daemon w i s =
     (if 0 \<le> servsocks s ! i \<and> servsocks s ! i \<in> ready w then
        let old = clientsocks s ! i;
            s = (if 0 \<le> old then s\<lparr>read_save := read_save s - {old}\<rparr> else s);
            new = accepts w i;
            s = s\<lparr>clientsocks := (clientsocks s)[i := new]\<rparr>;
            s = (if 0 \<le> new
                 then s\<lparr>read_save := insert new (read_save s), max_fd := max (max_fd s) new,
                        stdout_of := (if daemon \<and> i = ASYNC_SHELL then new else stdout_of s)\<rparr>
                 else s)
        in (if 0 \<le> old then [Closed old] else [], s)
      else ([], s))"

text \<open>A line for the PC's own shell: after the \<open>@\<close>, as a C string, the last byte of a full buffer overwritten.\<close>

abbreviation async_room :: nat where "async_room \<equiv> async_buffer - async_header"

definition local_line :: "u8 list \<Rightarrow> string" where
  "local_line data = cstr (map (\<lambda>b. char_of (unat b)) (drop 1 (if length data < async_room then data else take (async_room - 1) data)))"

definition client_channel ::
  "pc_os \<Rightarrow> wakeup \<Rightarrow> nat \<Rightarrow> pc_sockets \<times> host_pc \<Rightarrow> sock_effect list \<times> pc_sockets \<times> host_pc" where
  "client_channel os w i st =
     (let (s, pc) = st; fd = clientsocks s ! i; data = take async_room (gives w i)
      in if 0 \<le> fd \<and> fd \<in> ready w then
           if data \<noteq> [] then
             let log = (if i = ASYNC_GDB \<and> g_gdbdebug pc then [Shell_effect (Say (print_gdbdebug True data))] else [])
             in if g_daemon pc \<and> i = ASYNC_SHELL \<and> hd data = 0x40
                then (let (effs, pc) = parse_shell os (local_line data) pc in (Read_from fd # log @ map Shell_effect effs, s, pc))
                else (Read_from fd # log @ (if attached w then [To_psp (async_client_frame i data)] else []), s, pc)
           else (Read_from fd # [Closed fd],
                 s\<lparr>read_save := read_save s - {fd}, clientsocks := (clientsocks s)[i := - 1],
                   stdout_of := (if g_daemon pc \<and> i = ASYNC_SHELL then 2 else stdout_of s)\<rparr>, pc)
         else ([], s, pc))"

fun accept_all :: "bool \<Rightarrow> wakeup \<Rightarrow> nat list \<Rightarrow> pc_sockets \<Rightarrow> sock_effect list \<times> pc_sockets" where
  "accept_all daemon w [] s = ([], s)"
| "accept_all daemon w (i # is) s =
     (let (e, s) = accept_channel daemon w i s; (es, s) = accept_all daemon w is s in (e @ es, s))"

text \<open>\<open>exit\<close> ends the program at once.\<close>

definition exits :: "sock_effect list \<Rightarrow> bool" where
  "exits es = list_ex (\<lambda>e. case e of Shell_effect x \<Rightarrow> x = Exit_app | _ \<Rightarrow> False) es"

fun client_all :: "pc_os \<Rightarrow> wakeup \<Rightarrow> nat list \<Rightarrow> pc_sockets \<times> host_pc \<Rightarrow> sock_effect list \<times> pc_sockets \<times> host_pc" where
  "client_all os w [] st = ([], st)"
| "client_all os w (i # is) st =
     (let (e, st) = client_channel os w i st
      in if exits e then (e, st) else let (es, st) = client_all os w is st in (e @ es, st))"

text \<open>One turn of the loop of \<open>async_thread\<close>, up to the end of the program when the user asks for it.\<close>

definition async_turn :: "pc_os \<Rightarrow> wakeup \<Rightarrow> pc_sockets \<times> host_pc \<Rightarrow> sock_effect list \<times> pc_sockets \<times> host_pc" where
  "async_turn os w st =
     (let (s, pc) = st;
          (effs, pc) = (if \<not> g_daemon pc \<and> 0 \<in> ready w
                        then case typed w of None \<Rightarrow> ([], pc) | Some line \<Rightarrow> parse_shell os line pc
                        else ([], pc));
          effs = map Shell_effect effs
      in if exits effs then (effs @ fst (shutdown_socket s), snd (shutdown_socket s), pc)
         else let (effs', s) = accept_all (g_daemon pc) w [0..<MAX_ASYNC_CHANNELS] s;
                  (effs'', s, pc) = client_all os w [0..<MAX_ASYNC_CHANNELS] (s, pc);
                  done = effs @ effs' @ effs''
              in if exits effs'' then (done @ fst (shutdown_socket s), snd (shutdown_socket s), pc) else (done, s, pc))"

section \<open>The USB device\<close>

text \<open>A device of the bus: its numbers, and the answers of opening, configuring and claiming it.\<close>

record usb_dev =
  id_vendor :: u16
  id_product :: u16
  opens_as :: "nat option"
  configured :: int
  claimed :: int

datatype usb_op = Usb_open nat | Usb_close nat | Usb_release nat | Usb_reset nat

abbreviation SONY_VID :: u16 where "SONY_VID \<equiv> 0x54C"

fun find_device :: "u32 \<Rightarrow> usb_dev list \<Rightarrow> nat option \<times> usb_op list" where
  "find_device p [] = (None, [])"
| "find_device p (d # ds) =
     (case (if id_vendor d = SONY_VID \<and> ucast (id_product d) = p then opens_as d else None) of
        None \<Rightarrow> find_device p ds
      | Some h \<Rightarrow>
          if configured d = 0 \<and> claimed d = 0 then (Some h, [Usb_open h])
          else let (r, ops) = find_device p ds in (r, Usb_open h # Usb_close h # ops))"

text \<open>The devices of all busses in order. (A handle is never left over at the end.)\<close>

definition open_device :: "u32 \<Rightarrow> usb_dev list list \<Rightarrow> nat option \<times> usb_op list" where
  "open_device p busses = find_device p (concat busses)"

text \<open>The busses as they are found every second; \<open>None\<close> while no device has come.\<close>

fun wait_for_device :: "u32 \<Rightarrow> usb_dev list list list \<Rightarrow> nat option \<times> usb_op list" where
  "wait_for_device p [] = (None, [])"
| "wait_for_device p (bs # bss) =
     (let (h, ops) = open_device p bs
      in if h \<noteq> None then (h, ops) else let (h, ops') = wait_for_device p bss in (h, ops @ ops'))"

definition close_device :: "nat option \<Rightarrow> usb_op list" where
  "close_device hDev = (case hDev of None \<Rightarrow> [] | Some h \<Rightarrow> [Usb_release h, Usb_reset h, Usb_close h])"

section \<open>The start of the program\<close>

definition make_sockets :: "int \<Rightarrow> (int \<Rightarrow> int \<times> int \<times> int) \<Rightarrow> int list" where
  "make_sockets port sock =
     map (\<lambda>i. let (s, b, l) = sock ((port + int i) mod 65536) in fst (make_socket s b l)) [0..<MAX_ASYNC_CHANNELS]"

text \<open>
  \<open>main\<close>, for a user who is root, in the process that goes on after \<open>fork\<close>: the arguments, the map file and
  the sockets, one port per channel. \<open>sock\<close> answers \<open>socket\<close>, \<open>bind\<close> and \<open>listen\<close> of a port.
\<close>

definition host_main ::
  "pc_os \<Rightarrow> string option \<Rightarrow> (char \<times> string) list \<Rightarrow> string list \<Rightarrow> (int \<Rightarrow> int \<times> int \<times> int) \<Rightarrow>
   (pc_effect list \<times> pc_sockets \<times> host_pc) option" where
  "host_main os cwd opts operands sock =
     (case parse_args_pc cwd opts operands pc_start of
        None \<Rightarrow> None
      | Some pc \<Rightarrow>
         (let (effs, pc) = (case g_mapfile pc of None \<Rightarrow> ([], pc) | Some f \<Rightarrow> load_mapfile os f pc)
          in Some (effs, async_start (g_daemon pc) (make_sockets (g_baseport pc) sock), pc)))"

section \<open>Lemmas on the map file\<close>

lemma fgets_line_line: "CHR 0x0A \<notin> set l \<Longrightarrow> length l < n \<Longrightarrow> fgets_line n (l @ CHR 0x0A # r) = (l @ [CHR 0x0A], r)"
proof (induction l arbitrary: n)
  case Nil
  then show ?case by (cases n) simp_all
next
  case (Cons c l)
  then show ?case by (cases n) auto
qed

lemma fgets_lines_line:
  assumes "CHR 0x0A \<notin> set l" "length l < room - 1"
  shows "fgets_lines room (l @ CHR 0x0A # r) = (l @ [CHR 0x0A]) # fgets_lines room r"
  using fgets_line_line [OF assms, of r] assms(2) by (simp add: fgets_lines.simps [of room "l @ CHR 0x0A # r"])

lemma fgets_lines_Nil [simp]: "fgets_lines room [] = []"
  by (simp add: fgets_lines.simps)

lemma fgets_lines_concat:
  assumes "\<forall>l \<in> set ls. CHR 0x0A \<notin> set l \<and> length l < room - 1"
  shows "fgets_lines room (concat (map (\<lambda>l. l @ [CHR 0x0A]) ls)) = map (\<lambda>l. l @ [CHR 0x0A]) ls"
  using assms by (induction ls) (simp_all add: fgets_lines_line)

lemma trim_end: "\<not> c_isspace (last s) \<Longrightarrow> s \<noteq> [] \<Longrightarrow> trim (s @ [c]) = trim (if c_isspace c then s else s @ [c])"
  by (simp add: trim_def)

lemma trim_id: "s \<noteq> [] \<Longrightarrow> \<not> c_isspace (hd s) \<Longrightarrow> \<not> c_isspace (last s) \<Longrightarrow> trim s = s"
  by (cases s rule: rev_cases) (auto simp: trim_def dropWhile_eq_self_iff)

lemma digit_cases:
  assumes "i < MAX_HOSTDRIVES"
  obtains c where "dec_nat i = [c]" "is_num c" "\<not> c_isspace c" "c \<noteq> CHR ''-''" "c \<noteq> CHR ''+''" "c_atoi [c] = int i"
    "c \<noteq> CHR 0x0A" "c \<noteq> CHR 0x00"
proof -
  have "i = 0 \<or> i = 1 \<or> i = 2 \<or> i = 3 \<or> i = 4 \<or> i = 5 \<or> i = 6 \<or> i = 7"
    using assms by (auto simp: MAX_HOSTDRIVES_def)
  then have "(\<exists>c. dec_nat i = [c] \<and> is_num c \<and> \<not> c_isspace c \<and> c \<noteq> CHR ''-'' \<and> c \<noteq> CHR ''+'' \<and> c_atoi [c] = int i \<and>
      c \<noteq> CHR 0x0A \<and> c \<noteq> CHR 0x00)"
    by (elim disjE) (simp_all add: dec_nat_def digits_of.simps digit_lower_def is_num_def c_isspace_def c_atoi_def)
  then show ?thesis using that by blast
qed

lemma strtoul10_digit:
  assumes "i < MAX_HOSTDRIVES" "32 \<le> bits"
  shows "strtoul10 bits (dec_nat i @ CHR ''='' # r) = (int i, CHR ''='' # r)"
proof -
  obtain c where c: "dec_nat i = [c]" "is_num c" "\<not> c_isspace c" "c \<noteq> CHR ''-''" "c \<noteq> CHR ''+''" "c_atoi [c] = int i"
    using digit_cases [OF assms(1)] by metis
  have "int i < 8" using assms(1) by (simp add: MAX_HOSTDRIVES_def)
  moreover have "(8 :: int) \<le> 2 ^ bits" using power_increasing [of 3 bits "2 :: int"] assms(2) by simp
  ultimately have "\<not> (2 :: int) ^ bits \<le> int i" by linarith
  moreover have "int_of_u32 (word_of_int (int i)) = int i"
    using assms(1) sint_of_length [of i] by (simp add: int_of_u32_def MAX_HOSTDRIVES_def)
  ultimately show ?thesis using c by (simp add: strtoul10_def Let_def is_num_def)
qed

definition root_ok :: "pc_os \<Rightarrow> string \<Rightarrow> bool" where
  "root_ok os r \<longleftrightarrow> gen_path r False = r \<and> opendir_ok os r \<and> length r \<le> PATH_MAX - 4 \<and>
     CHR 0x0A \<notin> set r \<and> no_nul r \<and> \<not> c_isspace (last r)"

lemma gen_path_head: "\<exists>s. gen_path p d = slash # s"
  by (simp add: gen_path_def)

lemma mount_root:
  assumes "root_ok os r" "i < MAX_HOSTDRIVES"
  shows "mount os (int i) r pc = (True, [], pc\<lparr>roots := (roots pc)[i := \<lparr>rootdir = r, currdir = [slash]\<rparr>]\<rparr>)"
proof -
  obtain s where "r = slash # s" using assms(1) gen_path_head [of r False] by (auto simp: root_ok_def)
  then show ?thesis using assms by (simp add: mount_def add_drive_def root_ok_def Let_def)
qed

lemma map_line_root:
  assumes "root_ok os r" "i < MAX_HOSTDRIVES" "32 \<le> ulong_bits os"
  shows "map_line os k (dec_nat i @ ''='' @ r @ [CHR 0x0A]) pc =
    ([], pc\<lparr>roots := (roots pc)[i := \<lparr>rootdir = r, currdir = [slash]\<rparr>]\<rparr>)"
proof -
  obtain c where c: "dec_nat i = [c]" "is_num c" "\<not> c_isspace c" "c \<noteq> CHR 0x0A" "c \<noteq> CHR 0x00"
    using digit_cases [OF assms(2)] by metis
  obtain s where r: "r = slash # s" using assms(1) gen_path_head [of r False] by (auto simp: root_ok_def)
  let ?l = "dec_nat i @ CHR ''='' # r"
  have "no_nul (?l @ [CHR 0x0A])" using assms(1) c by (simp add: root_ok_def)
  then have "cstr (?l @ [CHR 0x0A]) = ?l @ [CHR 0x0A]" by (rule cstr_no_nul)
  moreover have "trim (?l @ [CHR 0x0A]) = ?l"
  proof -
    have n: "c_isspace (CHR 0x0A)" by (simp add: c_isspace_def)
    have l: "\<not> c_isspace (last ?l)" using assms(1) r by (simp add: root_ok_def)
    have "trim (?l @ [CHR 0x0A]) = trim ?l" using trim_end [OF l, of "CHR 0x0A"] n by simp
    also have "\<dots> = ?l" using trim_id [of ?l] l c by simp
    finally show ?thesis .
  qed
  moreover have "strtoul10 (ulong_bits os) ?l = (int i, CHR ''='' # r)" by (rule strtoul10_digit [OF assms(2,3)])
  moreover have "is_num (chead ?l)" using c by simp
  moreover have "\<not> c_isspace slash" by (simp add: c_isspace_def)
  ultimately show ?thesis using mount_root [OF assms(1,2), of pc] r by (simp add: map_line_def)
qed

lemma map_lines_roots:
  assumes "\<forall>i \<in> set is. i < MAX_HOSTDRIVES \<and> root_ok os (f i)" "32 \<le> ulong_bits os"
  shows "map_lines os k (map (\<lambda>i. dec_nat i @ ''='' @ f i @ [CHR 0x0A]) is) pc =
    ([], pc\<lparr>roots := fold (\<lambda>i ds. ds[i := \<lparr>rootdir = f i, currdir = [slash]\<rparr>]) is (roots pc)\<rparr>)"
  using assms(1)
proof (induction "is" arbitrary: k pc)
  case (Cons i "is")
  have "map_line os (Suc k) (dec_nat i @ ''='' @ f i @ [CHR 0x0A]) pc =
      ([], pc\<lparr>roots := (roots pc)[i := \<lparr>rootdir = f i, currdir = [slash]\<rparr>]\<rparr>)"
    using Cons.prems assms(2) by (intro map_line_root) auto
  then show ?case using Cons.IH [of "Suc k" "pc\<lparr>roots := (roots pc)[i := \<lparr>rootdir = f i, currdir = [slash]\<rparr>]\<rparr>"] Cons.prems
    by simp
qed simp

lemma fold_update_all: "length ds = n \<Longrightarrow> fold (\<lambda>i ds. ds[i := g i]) [0..<n] ds = map g [0..<n]"
proof -
  have "length (fold (\<lambda>i ds. ds[i := g i]) is ds) = length ds" for "is" and ds :: "'a list"
    by (induction "is" arbitrary: ds) simp_all
  moreover have "i < n \<Longrightarrow> n \<le> length ds \<Longrightarrow> fold (\<lambda>i ds. ds[i := g i]) [0..<n] ds ! i = g i" for i ds
    by (induction n) (auto simp: calculation nth_list_update less_Suc_eq)
  ultimately show "length ds = n \<Longrightarrow> fold (\<lambda>i ds. ds[i := g i]) [0..<n] ds = map g [0..<n]"
    by (intro nth_equalityI) simp_all
qed

lemma load_saved:
  assumes "length (roots pc) = MAX_HOSTDRIVES" "length ds = MAX_HOSTDRIVES" "\<forall>d \<in> set ds. root_ok os (rootdir d)"
    "32 \<le> ulong_bits os" "file_text os f = Some (mapfile_text ds)"
  shows "load_mapfile os f pc = ([], pc\<lparr>roots := map (\<lambda>d. d\<lparr>currdir := [slash]\<rparr>) ds\<rparr>)"
proof -
  let ?r = "\<lambda>i. rootdir (ds ! i)"
  have r: "\<forall>i \<in> set [0..<MAX_HOSTDRIVES]. i < MAX_HOSTDRIVES \<and> root_ok os (?r i)" using assms(2,3) by simp
  have len: "length (dec_nat i @ ''='' @ ?r i) < PATH_MAX - 1 \<and> CHR 0x0A \<notin> set (dec_nat i @ ''='' @ ?r i)" if i: "i < MAX_HOSTDRIVES" for i
  proof -
    obtain c where "dec_nat i = [c]" "c \<noteq> CHR 0x0A" using digit_cases [OF i] by metis
    moreover have "root_ok os (?r i)" using r i by simp
    ultimately show ?thesis by (auto simp: root_ok_def PATH_MAX_def)
  qed
  have "fgets_lines PATH_MAX (mapfile_text ds) = map (\<lambda>i. dec_nat i @ ''='' @ ?r i @ [CHR 0x0A]) [0..<MAX_HOSTDRIVES]"
    using fgets_lines_concat [of "map (\<lambda>i. dec_nat i @ ''='' @ ?r i) [0..<MAX_HOSTDRIVES]" PATH_MAX] len
    by (simp add: mapfile_text_def comp_def)
  moreover have "map (\<lambda>i. \<lparr>rootdir = ?r i, currdir = [slash]\<rparr>) [0..<MAX_HOSTDRIVES] = map (\<lambda>d. d\<lparr>currdir := [slash]\<rparr>) ds"
    using assms(2) by (intro nth_equalityI) simp_all
  ultimately show ?thesis
    using map_lines_roots [OF r assms(4), of 0 pc] assms(1,5) by (simp add: load_mapfile_def fold_update_all)
qed

section \<open>Normal drives\<close>

lemma gen_path_idem: "gen_path (gen_path p False) False = gen_path p False"
proof -
  let ?q = "gen_path p False"
  have "length (components ?q) \<le> 255"
    using foldl_step_length [of "[]" "take 255 (components p)"] by (simp add: gen_path_components)
  then have "foldl path_step [] (tokens (MAX_TOKENS - 1) ?q) = components ?q"
    using foldl_step_id [OF gen_path_components(2), of "[]"] by (simp add: MAX_TOKENS_def tokens_components)
  then have "gen_path ?q False = slash # path_join False (components ?q)" by (simp add: gen_path_def)
  also have "\<dots> = ?q" by (simp only: gen_path_components(1)) (simp add: gen_path_def MAX_TOKENS_def tokens_components)
  finally show ?thesis .
qed

definition pc_ok :: "host_pc \<Rightarrow> bool" where
  "pc_ok pc \<longleftrightarrow> length (roots pc) = MAX_HOSTDRIVES \<and> (\<forall>d \<in> set (roots pc). gen_path (rootdir d) False = rootdir d)"

lemma mount_ok: "pc_ok pc \<Longrightarrow> mount os num dir pc = (ok, effs, pc') \<Longrightarrow> pc_ok pc'"
  by (auto simp: mount_def add_drive_def pc_ok_def Let_def gen_path_idem split: if_splits
      dest!: set_update_subset_insert [THEN subsetD])

lemma map_line_ok: "pc_ok pc \<Longrightarrow> pc_ok (snd (map_line os k t pc))"
  by (auto simp: map_line_def Let_def split: if_splits prod.splits intro: mount_ok)

lemma map_lines_ok: "pc_ok pc \<Longrightarrow> pc_ok (snd (map_lines os k ts pc))"
  by (induction ts arbitrary: k pc) (simp_all add: split_beta Let_def map_line_ok)

lemma load_mapfile_ok: "pc_ok pc \<Longrightarrow> pc_ok (snd (load_mapfile os f pc))"
  by (simp add: load_mapfile_def map_lines_ok split: option.splits)

lemma pc_ok_other [simp]:
  "pc_ok (pc\<lparr>pflags := x1\<rparr>) = pc_ok pc" "pc_ok (pc\<lparr>g_gdbdebug := x2\<rparr>) = pc_ok pc" "pc_ok (pc\<lparr>g_verbose := x3\<rparr>) = pc_ok pc"
  "pc_ok (pc\<lparr>workdir := x4\<rparr>) = pc_ok pc" "pc_ok (pc\<lparr>g_mapfile := x5\<rparr>) = pc_ok pc" "pc_ok (pc\<lparr>g_pid := x6\<rparr>) = pc_ok pc"
  "pc_ok (pc\<lparr>g_baseport := x7\<rparr>) = pc_ok pc" "pc_ok (pc\<lparr>g_timeout := x8\<rparr>) = pc_ok pc"
  "pc_ok (pc\<lparr>g_globalbind := x9\<rparr>) = pc_ok pc" "pc_ok (pc\<lparr>g_daemon := x10\<rparr>) = pc_ok pc"
  by (simp_all add: pc_ok_def)

lemma mount_drive_ok: "pc_ok pc \<Longrightarrow> pc_ok (snd (snd (mount_drive os tail pc)))"
  by (auto simp: mount_drive_def Let_def split: option.splits prod.splits intro: mount_ok)

lemma load_drives_ok: "pc_ok pc \<Longrightarrow> pc_ok (snd (snd (load_drives os tail pc)))"
  by (simp add: load_drives_def load_mapfile_ok split: option.splits)

lemma switch_set_ok: "pc_ok pc \<Longrightarrow> (\<And>b. pc_ok (upd b)) \<Longrightarrow> pc_ok (snd (snd (switch_set err nm val upd tail pc)))"
  by (simp add: switch_set_def split: option.splits)

lemma command_ok: "map_of g_commands nm = Some (h, fn) \<Longrightarrow> pc_ok pc \<Longrightarrow> pc_ok (snd (snd (fn os tail pc)))"
  by (auto simp: g_commands_def mount_drive_ok load_drives_ok nocase_set_def msslash_set_def gdbdebug_set_def
      verbose_set_def list_drives_def save_drives_def print_wd_def ch_dir_def pc_help_cmd_def exit_app_def
      intro!: switch_set_ok split: if_splits option.splits sum.splits)

lemma parse_shell_ok: "pc_ok pc \<Longrightarrow> pc_ok (snd (parse_shell os line pc))"
  using command_ok [of "the (fst (strtok_blank (trim line)))" _ _ pc os "snd (strtok_blank (trim line))"]
  by (auto simp: parse_shell_def Let_def split_beta split: option.split)

lemma parse_args_pc_ok:
  assumes "parse_args_pc (Some cwd) opts operands pc_start = Some pc" "gen_path cwd False = cwd"
  shows "pc_ok pc"
proof -
  have s: "roots q = roots p \<and> workdir q = workdir p" if "pc_option opt p = Some q" for opt p q
    using that by (auto simp: pc_option_def split: prod.splits if_splits)
  have "roots q = roots p \<and> workdir q = workdir p" if "pc_options opts p = Some q" for p q
    using that by (induction opts arbitrary: p) (auto split: option.splits dest: s)
  from this [of "pc_start\<lparr>workdir := cwd, roots := map (\<lambda>d. d\<lparr>rootdir := cwd\<rparr>) (roots pc_start)\<rparr>"]
  show ?thesis using assms
    by (auto simp: parse_args_pc_def Let_def pc_ok_def pc_start_def drive_path_def gen_path_idem split: option.splits)
qed

section \<open>Saving and loading the mounts\<close>

lemma strtok_word: "list_all (\<lambda>c. \<not> blank c) w \<Longrightarrow> w \<noteq> [] \<Longrightarrow> strtok_blank (w @ CHR '' '' # r) = (Some w, r)"
proof -
  assume w: "list_all (\<lambda>c. \<not> blank c) w" "w \<noteq> []"
  have "dropWhile blank (w @ CHR '' '' # r) = w @ CHR '' '' # r" using w by (cases w) auto
  moreover have "blank (CHR '' '')" by (simp add: blank_def)
  ultimately show ?thesis using w
    by (simp add: strtok_blank_def takeWhile_append2 dropWhile_append2 list_all_iff)
qed

lemma parse_shell_command:
  assumes "f \<noteq> []" "\<not> c_isspace (last f)" "nm \<in> {''save'', ''load'', ''cd'', ''mount''}"
  shows "parse_shell os (nm @ '' '' @ f) pc =
    (case map_of g_commands nm of Some (_, fn) \<Rightarrow> (let (ret, effs, pc) = fn os f pc in (effs @ (if ret = COMMAND_HELP then pc_help else []), pc)))"
proof -
  have w: "list_all (\<lambda>c. \<not> blank c) nm" "nm \<noteq> []" "\<not> c_isspace (hd nm)" "hd nm \<noteq> CHR ''!''" "map_of g_commands nm \<noteq> None"
    using assms(3) by (auto simp: blank_def c_isspace_def g_commands_def)
  have t: "trim (nm @ '' '' @ f) = nm @ '' '' @ f" using w assms(1,2) by (intro trim_id) auto
  have "strtok_blank (nm @ '' '' @ f) = (Some nm, f)" using strtok_word [OF w(1,2), of f] by simp
  then show ?thesis using w t by (auto simp: parse_shell_def Let_def split: option.splits)
qed

text \<open>
  C39: \<open>save\<close> and \<open>load\<close> of the PC's shell are inverse: whatever the drives are that a later program or the
  same one starts from, loading the file mounts the saved directories again, each under its number and at
  its top, with no message. (Directories must exist then; a root has at most 4092 characters, and no line
  break in it or white space at its end.)
\<close>

theorem save_load_drives:
  assumes "pc_ok pc" "pc_ok pc'" "\<forall>d \<in> set (roots pc). opendir_ok os' (rootdir d) \<and> length (rootdir d) \<le> PATH_MAX - 4 \<and>
      CHR 0x0A \<notin> set (rootdir d) \<and> no_nul (rootdir d) \<and> \<not> c_isspace (last (rootdir d))"
    "f \<noteq> []" "\<not> c_isspace (last f)" "writable os f" "32 \<le> ulong_bits os'"
  shows "\<exists>content. parse_shell os (''save '' @ f) pc = ([Wrote f content], pc) \<and>
    (file_text os' f = Some content \<longrightarrow>
       parse_shell os' (''load '' @ f) pc' = ([], pc'\<lparr>roots := map (\<lambda>d. d\<lparr>currdir := [slash]\<rparr>) (roots pc)\<rparr>))"
proof -
  have "parse_shell os (''save '' @ f) pc = ([Wrote f (mapfile_text (roots pc))], pc)"
    using parse_shell_command [OF assms(4,5), of "''save''" os pc] assms(4,6)
    by (simp add: g_commands_def save_drives_def strtok_rest_def)
  moreover have "parse_shell os' (''load '' @ f) pc' = ([], pc'\<lparr>roots := map (\<lambda>d. d\<lparr>currdir := [slash]\<rparr>) (roots pc)\<rparr>)"
    if "file_text os' f = Some (mapfile_text (roots pc))"
  proof -
    have "\<forall>d \<in> set (roots pc). root_ok os' (rootdir d)" using assms(1,3) by (auto simp: root_ok_def pc_ok_def)
    with load_saved [OF _ _ _ assms(7) that, of pc'] assms(1,2) have
      "load_mapfile os' f pc' = ([], pc'\<lparr>roots := map (\<lambda>d. d\<lparr>currdir := [slash]\<rparr>) (roots pc)\<rparr>)"
      by (simp add: pc_ok_def)
    then show ?thesis using parse_shell_command [OF assms(4,5), of "''load''" os' pc'] assms(4)
      by (simp add: g_commands_def load_drives_def strtok_rest_def)
  qed
  ultimately show ?thesis by blast
qed

text \<open>Eight drives mounted on two directories.\<close>

definition example_pc :: host_pc where
  "example_pc = pc_start\<lparr>roots := replicate 4 \<lparr>rootdir = ''/home/psp'', currdir = ''/GAME''\<rparr> @ replicate 4 \<lparr>rootdir = ''/tmp'', currdir = ''/''\<rparr>\<rparr>"

definition example_os :: pc_os where
  "example_os = \<lparr>opendir_ok = (\<lambda>_. True), file_text = (\<lambda>_. Some (mapfile_text (roots example_pc))), writable = (\<lambda>_. True),
     chdir_to = Inr, ulong_bits = 64\<rparr>"

lemma example_roots: "gen_path ''/home/psp'' False = ''/home/psp''" "gen_path ''/tmp'' False = ''/tmp''" "gen_path ''/'' False = ''/''"
  by (simp_all add: gen_path_def MAX_TOKENS_def tokens_components components_strtok strtok_def path_step_def)

theorem save_load_drives_witness:
  "parse_shell example_os ''load drives.map'' (pc_start\<lparr>roots := replicate 8 \<lparr>rootdir = ''/'', currdir = ''/''\<rparr>\<rparr>) =
    ([], example_pc\<lparr>roots := map (\<lambda>d. d\<lparr>currdir := [slash]\<rparr>) (roots example_pc)\<rparr>)"
proof -
  let ?b = "pc_start\<lparr>roots := replicate 8 \<lparr>rootdir = ''/'', currdir = ''/''\<rparr>\<rparr>"
  have a: "pc_ok example_pc" "pc_ok ?b" by (auto simp: pc_ok_def example_pc_def MAX_HOSTDRIVES_def example_roots)
  have "\<exists>content. parse_shell example_os (''save '' @ ''drives.map'') example_pc = ([Wrote ''drives.map'' content], example_pc) \<and>
    (file_text example_os ''drives.map'' = Some content \<longrightarrow>
       parse_shell example_os (''load '' @ ''drives.map'') ?b = ([], ?b\<lparr>roots := map (\<lambda>d. d\<lparr>currdir := [slash]\<rparr>) (roots example_pc)\<rparr>))"
    by (rule save_load_drives [OF a]) (auto simp: example_pc_def example_os_def PATH_MAX_def c_isspace_def)
  moreover have "parse_shell example_os (''save '' @ ''drives.map'') example_pc = ([Wrote ''drives.map'' (mapfile_text (roots example_pc))], example_pc)"
    using parse_shell_command [of "''drives.map''" "''save''" example_os example_pc]
    by (simp add: g_commands_def save_drives_def strtok_rest_def example_os_def c_isspace_def)
  moreover have "?b\<lparr>roots := x\<rparr> = example_pc\<lparr>roots := x\<rparr>" for x by (simp add: example_pc_def)
  ultimately show ?thesis by (simp add: example_os_def)
qed

section \<open>The sockets\<close>

text \<open>
  The invariant of the thread: what is watched is the keyboard (unless in daemon mode), the listening sockets
  and the connected clients, no descriptor is used twice, and \<open>max_fd\<close> bounds them.
\<close>

definition live :: "int list \<Rightarrow> int list" where
  "live fds = filter (\<lambda>fd. 0 \<le> fd) fds"

definition sockets_ok :: "bool \<Rightarrow> pc_sockets \<Rightarrow> bool" where
  "sockets_ok daemon s \<longleftrightarrow>
     length (servsocks s) = MAX_ASYNC_CHANNELS \<and> length (clientsocks s) = MAX_ASYNC_CHANNELS \<and>
     distinct (0 # live (servsocks s @ clientsocks s)) \<and>
     read_save s = (if daemon then {} else {0}) \<union> set (live (servsocks s @ clientsocks s)) \<and>
     (\<forall>fd \<in> read_save s. fd \<le> max_fd s)"

text \<open>\<open>accept\<close> answers a descriptor that is not in use.\<close>

fun accepts_fresh :: "bool \<Rightarrow> wakeup \<Rightarrow> nat list \<Rightarrow> pc_sockets \<Rightarrow> bool" where
  "accepts_fresh daemon w [] s = True"
| "accepts_fresh daemon w (i # is) s =
     ((accepts w i < 0 \<or> accepts w i \<notin> insert 0 (read_save s - {clientsocks s ! i})) \<and>
      accepts_fresh daemon w is (snd (accept_channel daemon w i s)))"

lemma live_update:
  assumes "distinct (live cs)" "i < length cs"
  shows "set (live (cs[i := c])) = (set (live cs) - {cs ! i}) \<union> (if 0 \<le> c then {c} else {})"
    "c \<notin> set (live cs) - {cs ! i} \<Longrightarrow> distinct (live (cs[i := c]))"
proof -
  have e: "cs = take i cs @ cs ! i # drop (Suc i) cs" "cs[i := c] = take i cs @ c # drop (Suc i) cs"
    using assms(2) by (simp_all add: id_take_nth_drop [symmetric] upd_conv_take_nth_drop)
  have l: "live (a @ x # b) = live a @ (if 0 \<le> x then [x] else []) @ live b" for a b x by (simp add: live_def)
  have n: "cs ! i \<notin> set (live (take i cs)) \<union> set (live (drop (Suc i) cs))"
    using assms(1) by (subst (asm) e(1)) (auto simp: l live_def split: if_splits)
  have c: "set (live cs) = set (live (take i cs)) \<union> (if 0 \<le> cs ! i then {cs ! i} else {}) \<union> set (live (drop (Suc i) cs))"
    by (subst e(1)) (auto simp: l)
  show "set (live (cs[i := c])) = (set (live cs) - {cs ! i}) \<union> (if 0 \<le> c then {c} else {})"
    using n by (simp add: e(2) l c)
  have d: "distinct (live (take i cs) @ live (drop (Suc i) cs))"
    using assms(1) by (subst (asm) e(1)) (auto simp: l split: if_splits)
  show "distinct (live (cs[i := c]))" if "c \<notin> set (live cs) - {cs ! i}"
    using that n d by (auto simp: e(2) l c split: if_splits)
qed

lemma live_append [simp]: "live (a @ b) = live a @ live b"
  by (simp add: live_def)

lemma sockets_stdout [simp]: "sockets_ok daemon (s\<lparr>stdout_of := x\<rparr>) = sockets_ok daemon s"
  by (simp add: sockets_ok_def)

lemma accept_channel_ok:
  assumes "sockets_ok daemon s" "i < MAX_ASYNC_CHANNELS" "accepts w i < 0 \<or> accepts w i \<notin> insert 0 (read_save s - {clientsocks s ! i})"
  shows "sockets_ok daemon (snd (accept_channel daemon w i s))"
proof (cases "0 \<le> servsocks s ! i \<and> servsocks s ! i \<in> ready w")
  case True
  let ?c = "accepts w i" and ?o = "clientsocks s ! i" and ?V = "set (live (servsocks s))" and ?C = "set (live (clientsocks s))"
  have i: "i < length (clientsocks s)" and d: "distinct (live (clientsocks s))"
    and z: "0 \<notin> ?V" "0 \<notin> ?C" "?V \<inter> ?C = {}" "distinct (live (servsocks s))"
    using assms(1,2) by (auto simp: sockets_ok_def)
  note L = live_update [OF d i, of ?c]
  have r: "read_save s = (if daemon then {} else {0}) \<union> ?V \<union> ?C" using assms(1) by (auto simp: sockets_ok_def)
  have o: "?o \<notin> ?V" using z(3) i by (cases "0 \<le> ?o") (auto simp: live_def)
  have f: "0 \<le> ?c \<Longrightarrow> ?c \<noteq> 0 \<and> ?c \<notin> ?V \<and> ?c \<notin> ?C - {?o}" using assms(3) r o by auto
  have n: "?c < 0 \<Longrightarrow> ?c \<notin> ?C" by (auto simp: live_def)
  have dd: "distinct (live ((clientsocks s)[i := ?c]))" using f n by (intro L(2)) (cases "0 \<le> ?c"; auto)
  have oz: "0 \<le> ?o \<Longrightarrow> ?o \<in> ?C" using i by (auto simp: live_def)
  have on: "?o < 0 \<Longrightarrow> ?o \<notin> ?C" by (auto simp: live_def)
  let ?s = "snd (accept_channel daemon w i s)"
  have s: "servsocks ?s = servsocks s" "clientsocks ?s = (clientsocks s)[i := ?c]"
    "read_save ?s = (read_save s - (if 0 \<le> ?o then {?o} else {})) \<union> (if 0 \<le> ?c then {?c} else {})"
    "max_fd ?s = (if 0 \<le> ?c then max (max_fd s) ?c else max_fd s)"
    using True by (simp_all add: accept_channel_def Let_def)
  have C: "set (live ((clientsocks s)[i := ?c])) = ?C - {?o} \<union> (if 0 \<le> ?c then {?c} else {})" by (rule L(1))
  have "distinct (0 # live (servsocks ?s @ clientsocks ?s))" using dd z f by (auto simp: s C split: if_splits)
  moreover have "read_save ?s = (if daemon then {} else {0}) \<union> set (live (servsocks ?s @ clientsocks ?s))"
  proof (cases "0 \<le> ?o")
    case True
    then have "?o \<noteq> 0" using oz z(2) by metis
    with True o show ?thesis by (auto simp: s(1,2,3) C r)
  next
    case False
    then show ?thesis using on by (auto simp: s(1,2,3) C r)
  qed
  moreover have "\<forall>fd \<in> read_save ?s. fd \<le> max_fd ?s"
    using assms(1) by (auto simp: s(3,4) sockets_ok_def le_max_iff_disj split: if_splits)
  moreover have "length (servsocks ?s) = MAX_ASYNC_CHANNELS" "length (clientsocks ?s) = MAX_ASYNC_CHANNELS"
    using assms(1) by (simp_all add: s sockets_ok_def)
  ultimately show ?thesis unfolding sockets_ok_def by blast
next
  case False
  then have "accept_channel daemon w i s = ([], s)" by (auto simp: accept_channel_def)
  then show ?thesis using assms(1) by simp
qed

lemma accept_all_ok:
  "sockets_ok daemon s \<Longrightarrow> \<forall>i \<in> set is. i < MAX_ASYNC_CHANNELS \<Longrightarrow> accepts_fresh daemon w is s \<Longrightarrow>
   accept_all daemon w is s = (effs, s') \<Longrightarrow> sockets_ok daemon s'"
proof (induction "is" arbitrary: s effs s')
  case (Cons i "is")
  then have "sockets_ok daemon (snd (accept_channel daemon w i s))" by (intro accept_channel_ok) auto
  with Cons show ?case by (auto split: prod.splits)
qed simp

lemma client_channel_ok:
  assumes "sockets_ok (g_daemon pc) s" "i < MAX_ASYNC_CHANNELS" "client_channel os w i (s, pc) = (effs, s', pc')"
  shows "sockets_ok (g_daemon pc) s'"
proof -
  let ?o = "clientsocks s ! i" and ?V = "set (live (servsocks s))" and ?C = "set (live (clientsocks s))"
  have i: "i < length (clientsocks s)" and d: "distinct (live (clientsocks s))"
    and z: "0 \<notin> ?C" "?V \<inter> ?C = {}" using assms(1,2) by (auto simp: sockets_ok_def)
  note L = live_update [OF d i, of "- 1"]
  have "sockets_ok (g_daemon pc) (s\<lparr>read_save := read_save s - {?o}, clientsocks := (clientsocks s)[i := - 1]\<rparr>)"
    if "0 \<le> ?o"
  proof -
    have "?o \<in> ?C" using that i by (auto simp: live_def)
    moreover have "- 1 \<notin> ?C" by (auto simp: live_def)
    ultimately show ?thesis using assms(1) z L by (auto simp: sockets_ok_def)
  qed
  then show ?thesis using assms(1,3) by (auto simp: client_channel_def Let_def split: if_splits prod.splits)
qed

lemma mount_daemon: "mount os num dir pc = (ok, effs, pc') \<Longrightarrow> g_daemon pc' = g_daemon pc"
  by (auto simp: mount_def Let_def split: prod.splits)

lemma map_line_daemon: "g_daemon (snd (map_line os k t pc)) = g_daemon pc"
  by (auto simp: map_line_def Let_def split: if_splits prod.splits dest: mount_daemon)

lemma map_lines_daemon: "g_daemon (snd (map_lines os k ts pc)) = g_daemon pc"
  by (induction ts arbitrary: k pc) (simp_all add: split_beta Let_def map_line_daemon)

lemma load_mapfile_daemon: "g_daemon (snd (load_mapfile os f pc)) = g_daemon pc"
  by (simp add: load_mapfile_def map_lines_daemon split: option.splits)

lemma switch_daemon: "(\<And>b. g_daemon (upd b) = g_daemon pc) \<Longrightarrow> g_daemon (snd (snd (switch_set err nm val upd tail pc))) = g_daemon pc"
  by (simp add: switch_set_def split: option.splits)

lemma command_daemon: "map_of g_commands nm = Some (h, fn) \<Longrightarrow> g_daemon (snd (snd (fn os tail pc))) = g_daemon pc"
  by (auto simp: g_commands_def mount_drive_def load_drives_def load_mapfile_daemon nocase_set_def msslash_set_def gdbdebug_set_def
      verbose_set_def list_drives_def save_drives_def print_wd_def ch_dir_def pc_help_cmd_def exit_app_def Let_def
      intro!: switch_daemon dest: mount_daemon split: if_splits option.splits sum.splits prod.splits)

lemma parse_shell_daemon: "parse_shell os line pc = (effs, pc') \<Longrightarrow> g_daemon pc' = g_daemon pc"
  using command_daemon [of "the (fst (strtok_blank (trim line)))" _ _ os "snd (strtok_blank (trim line))" pc]
  by (auto simp: parse_shell_def Let_def split_beta split: option.splits if_splits)

lemma client_daemon: "client_channel os w i (s, pc) = (effs, s', pc') \<Longrightarrow> g_daemon pc' = g_daemon pc"
  by (auto simp: client_channel_def Let_def split: if_splits prod.splits dest: parse_shell_daemon)

lemma client_all_ok:
  "sockets_ok (g_daemon pc) s \<Longrightarrow> \<forall>i \<in> set is. i < MAX_ASYNC_CHANNELS \<Longrightarrow> client_all os w is (s, pc) = (effs, s', pc') \<Longrightarrow>
   sockets_ok (g_daemon pc') s' \<and> g_daemon pc' = g_daemon pc"
proof (induction "is" arbitrary: s pc effs)
  case (Cons i "is")
  obtain e s1 pc1 where c: "client_channel os w i (s, pc) = (e, s1, pc1)" by (cases "client_channel os w i (s, pc)") auto
  have d: "g_daemon pc1 = g_daemon pc" by (rule client_daemon [OF c])
  have k: "sockets_ok (g_daemon pc1) s1" using client_channel_ok [OF _ _ c] Cons.prems(1,2) d by simp
  show ?case
  proof (cases "exits e")
    case True
    then show ?thesis using Cons.prems(3) c k d by simp
  next
    case False
    obtain e' where "client_all os w is (s1, pc1) = (e', s', pc')"
      using Cons.prems(3) c False by (auto split: prod.splits)
    with Cons.IH [OF k _ this] Cons.prems(2) d show ?thesis by auto
  qed
qed simp

text \<open>
  The thread keeps its tables: after any turn the watched descriptors are the keyboard, the listening sockets and
  the clients, none twice. The drives stay normal.
\<close>

lemma async_turn_ok:
  assumes "sockets_ok (g_daemon pc) s" "accepts_fresh (g_daemon pc) w [0..<MAX_ASYNC_CHANNELS] s"
    "async_turn os w (s, pc) = (effs, s', pc')" "\<not> exits effs"
  shows "sockets_ok (g_daemon pc') s' \<and> g_daemon pc' = g_daemon pc"
proof -
  obtain e0 pc0 where e: "(if \<not> g_daemon pc \<and> 0 \<in> ready w then case typed w of None \<Rightarrow> ([], pc) | Some line \<Rightarrow> parse_shell os line pc else ([], pc)) = (e0, pc0)"
    by fastforce
  then have d: "g_daemon pc0 = g_daemon pc" by (auto split: if_splits option.splits dest: parse_shell_daemon)
  obtain e1 s1 where a: "accept_all (g_daemon pc0) w [0..<MAX_ASYNC_CHANNELS] s = (e1, s1)" by fastforce
  obtain e2 s2 pc2 where c: "client_all os w [0..<MAX_ASYNC_CHANNELS] (s1, pc0) = (e2, s2, pc2)"
    by (cases "client_all os w [0..<MAX_ASYNC_CHANNELS] (s1, pc0)") auto
  have "sockets_ok (g_daemon pc0) s1" using accept_all_ok [OF _ _ _ a] assms(1,2) d by simp
  from client_all_ok [OF this _ c] have k: "sockets_ok (g_daemon pc2) s2 \<and> g_daemon pc2 = g_daemon pc0" by auto
  have x: "\<not> exits (map Shell_effect e0)" "\<not> exits e2"
    using assms(3,4) a c unfolding async_turn_def Let_def split_conv e by (auto simp: exits_def split: if_splits)
  then have "(s', pc') = (s2, pc2)" using assms(3) a c unfolding async_turn_def Let_def split_conv e by simp
  then show ?thesis using k d by auto
qed

lemma async_start_ok:
  assumes "length servs = MAX_ASYNC_CHANNELS" "distinct (0 # live servs)"
  shows "sockets_ok daemon (async_start daemon servs)"
proof -
  have a: "servsocks (fold watch fds s) = servsocks s" "clientsocks (fold watch fds s) = clientsocks s"
    "read_save (fold watch fds s) = read_save s \<union> set (live fds)" for fds s
    by (induction fds arbitrary: s) (auto simp: live_def watch_def)
  have m: "\<forall>x \<in> read_save s. x \<le> max_fd s \<Longrightarrow> \<forall>x \<in> read_save (fold watch fds s). x \<le> max_fd (fold watch fds s)" for fds s
  proof (induction fds arbitrary: s)
    case (Cons fd fds)
    have "\<forall>x \<in> read_save (watch fd s). x \<le> max_fd (watch fd s)" using Cons.prems by (auto simp: watch_def)
    from Cons.IH [OF this] show ?case by simp
  qed simp
  have l: "live (replicate n (- 1)) = []" for n by (simp add: live_def)
  show ?thesis using assms a by (auto simp: async_start_def sockets_ok_def l intro!: bspec [OF m])
qed

text \<open>
  The set of ready descriptors is the one of before \<open>accept\<close>: when a client comes back on a channel whose old
  connection is ready too (it has ended), and gets the old number, the thread reads from the new connection,
  which may have nothing to read, and waits there.
\<close>

lemma stale_ready:
  assumes "i < length (clientsocks s)" "0 \<le> servsocks s ! i" "servsocks s ! i \<in> ready w" "0 \<le> clientsocks s ! i"
    "clientsocks s ! i \<in> ready w" "accepts w i = clientsocks s ! i"
  shows "fst (accept_channel daemon w i s) = [Closed (accepts w i)] \<and>
    Read_from (accepts w i) \<in> set (fst (client_channel os w i (snd (accept_channel daemon w i s), pc)))"
  using assms by (auto simp: accept_channel_def client_channel_def Let_def split: prod.splits)

text \<open>The program starts with drives in normal form and its sockets watched.\<close>

lemma host_main_ok:
  assumes "host_main os (Some cwd) opts operands sock = Some (effs, s, pc)" "gen_path cwd False = cwd"
    "distinct (0 # live (servsocks s))"
  shows "pc_ok pc \<and> sockets_ok (g_daemon pc) s"
proof -
  obtain pc0 where p: "parse_args_pc (Some cwd) opts operands pc_start = Some pc0"
    and m: "(case g_mapfile pc0 of None \<Rightarrow> ([], pc0) | Some f \<Rightarrow> load_mapfile os f pc0) = (effs, pc)"
    and s: "s = async_start (g_daemon pc) (make_sockets (g_baseport pc) sock)"
    using assms(1) by (auto simp: host_main_def Let_def split: option.splits prod.splits)
  have "pc_ok pc0" by (rule parse_args_pc_ok [OF p assms(2)])
  then have "pc_ok pc" using m load_mapfile_ok [of pc0 os] by (auto split: option.splits) (metis snd_conv)
  moreover define servs where "servs = make_sockets (g_baseport pc) sock"
  have v: "length servs = MAX_ASYNC_CHANNELS" "s = async_start (g_daemon pc) servs"
    using s by (simp_all add: servs_def make_sockets_def)
  have "servsocks (fold watch fds t) = servsocks t" for fds t by (induction fds arbitrary: t) (auto simp: watch_def)
  then have "servsocks s = servs" by (simp add: v(2) async_start_def)
  then have "sockets_ok (g_daemon pc) s" using async_start_ok [OF v(1)] v(2) assms(3) by metis
  ultimately show ?thesis by blast
qed

section \<open>The device\<close>

text \<open>Handles that are opened and not returned are closed: the operations before the last one are pairs.\<close>

lemma find_device_closes:
  "find_device p ds = (r, ops) \<Longrightarrow>
   \<exists>hs. ops = concat (map (\<lambda>h. [Usb_open h, Usb_close h]) hs) @ (case r of None \<Rightarrow> [] | Some h \<Rightarrow> [Usb_open h])"
proof (induction ds arbitrary: r ops)
  case (Cons d ds)
  let ?o = "if id_vendor d = SONY_VID \<and> ucast (id_product d) = p then opens_as d else None"
  show ?case
  proof (cases ?o)
    case (Some h)
    then have o: "id_vendor d = SONY_VID \<and> ucast (id_product d) = p" "opens_as d = Some h" by (auto split: if_splits)
    show ?thesis
    proof (cases "configured d = 0 \<and> claimed d = 0")
      case True
      with o Cons.prems have "r = Some h" "ops = [Usb_open h]" by auto
      then show ?thesis by (intro exI [of _ "[]"]) simp
    next
      case False
      obtain r' ops' where f: "find_device p ds = (r', ops')" by fastforce
      then obtain hs where "ops' = concat (map (\<lambda>h. [Usb_open h, Usb_close h]) hs) @ (case r' of None \<Rightarrow> [] | Some h \<Rightarrow> [Usb_open h])"
        using Cons.IH by blast
      with o False Cons.prems f show ?thesis by (auto intro!: exI [of _ "h # hs"])
    qed
  qed (use Cons in auto)
qed (auto intro: exI [of _ "[]"])

section \<open>Byte order\<close>

lemma swap32_swap32 [simp]: "swap32 (swap32 i) = i"
proof (rule bit_word_eqI)
  fix n assume "n < LENGTH(32)"
  then have n: "n < 32" by simp
  have "n < 8 \<or> (\<exists>k. n = 8 + k \<and> k < 8) \<or> (\<exists>k. n = 16 + k \<and> k < 8) \<or> (\<exists>k. n = 24 + k \<and> k < 8)"
    using n by presburger
  then show "bit (swap32 (swap32 i)) n = bit i n"
    by (elim disjE exE conjE) (simp_all add: swap32_def be_byte_def bit_simps)
qed
end
