(* ===== verification/Transport.thy ===== *)
theory Transport
  imports HostReply
begin

text \<open>
  \<open>usbhostfs/main.c\<close>, the PSP's side of the USB link: reading and writing a block in requests of at most
  64 kilobytes, the exchange of a command with the PC, asynchronous and bulk writes, and the thread
  that handles attaching and detaching.

  What becomes of each request is an argument: the result of starting it and of waiting for it, its
  return code, and the bytes moved. The requests sent are returned in order. \<open>None\<close> stands for a call that
  waits for ever (there is no timeout) or writes past the end of the caller's buffer.
\<close>

section \<open>Blocks\<close>

text \<open>The end of a write request: the wait, the return code, the number of bytes moved.\<close>

type_synonym in_done = "int \<times> int \<times> int"

text \<open>The end of a read request: its start, the wait, the return code, the bytes received.\<close>

type_synonym out_done = "int \<times> int \<times> int \<times> u8 list"

abbreviation tx_size :: nat where
  "tx_size \<equiv> 65536"

text \<open>
  The loop of \<open>write_data\<close> (the same for data that is aligned and data that is copied to \<open>tx_buf\<close>
  first): the result, the blocks moved, and the request ends left over.
\<close>

fun write_loop :: "in_done list \<Rightarrow> u8 list \<Rightarrow> int \<Rightarrow> (int \<times> u8 list list \<times> in_done list) option" where
  "write_loop ds [] n = Some (n, [], ds)"
| "write_loop [] (b # bs) n = None"
| "write_loop ((wait, rc, sz) # ds) (b # bs) n =
     (if wait = 0 then
        if rc = 0 \<and> 0 < sz then
          (case write_loop ds (drop (nat sz) (b # bs)) (n + sz) of
             None \<Rightarrow> None
           | Some (ret, out, rest) \<Rightarrow> Some (ret, take (nat sz) (take tx_size (b # bs)) # out, rest))
        else Some (-1, [], ds)
      else Some (-1, [], ds))"

definition write_data :: "in_done list \<Rightarrow> u8 list \<Rightarrow> (int \<times> u8 list list \<times> in_done list) option" where
  "write_data ds data = write_loop ds data 0"

text \<open>\<open>read_data\<close>: the result, what arrived, and the request ends left over.\<close>

fun read_loop :: "out_done list \<Rightarrow> int \<Rightarrow> u8 list \<Rightarrow> (int \<times> u8 list \<times> out_done list) option" where
  "read_loop [] n acc = (if int (length acc) < n then None else Some (int (length acc), acc, []))"
| "read_loop ((start, wait, rc, d) # ds) n acc =
     (if int (length acc) < n then
        let left = n - int (length acc);
            nextsize = (if int tx_size < left then int tx_size else left);
            d = take (nat nextsize) d
        in if start < 0 then Some (-1, acc, ds)
           else if wait = 0 then
             if rc = 0 \<and> d \<noteq> [] then read_loop ds n (acc @ d) else Some (-1, acc, ds)
           else Some (-1, acc, ds)
      else Some (int (length acc), acc, (start, wait, rc, d) # ds))"

definition read_data :: "out_done list \<Rightarrow> int \<Rightarrow> (int \<times> u8 list \<times> out_done list) option" where
  "read_data ds n = read_loop ds n []"

section \<open>The exchange of a command\<close>

record psp_link =
  p_sema :: int
  p_in :: "in_done list"
  p_out :: "out_done list"
  p_sent :: "u8 list list"

text \<open>One write with the link, and the test that all of it was written (nothing to write is fine).\<close>

definition link_write :: "u8 list \<Rightarrow> psp_link \<Rightarrow> (bool \<times> psp_link) option" where
  "link_write data l =
     (if data = [] then Some (True, l)
      else case write_data (p_in l) data of
             None \<Rightarrow> None
           | Some (err, out, rest) \<Rightarrow>
               Some (err = int (length data), l\<lparr>p_in := rest, p_sent := p_sent l @ out\<rparr>))"

text \<open>
  \<open>command_xchg\<close>: the result, the answer and the data that came with it. \<open>resplen\<close> is the size of the
  answer's structure, \<open>inlen\<close> that of the caller's buffer; more data than the buffer holds is read
  into it all the same. The answer is refused only when both its magic number and its command are
  wrong.
\<close>

definition command_xchg :: "psp_link \<Rightarrow> u8 list \<Rightarrow> nat \<Rightarrow> u8 list \<Rightarrow> nat
    \<Rightarrow> (int \<times> u8 list \<times> u8 list \<times> psp_link) option" where
  "command_xchg l cmd resplen outdata inlen =
     (if p_sema l < 0 then Some (0, [], [], l)
      else case link_write cmd l of
        None \<Rightarrow> None
      | Some (ok, l) \<Rightarrow>
          if \<not> ok then Some (0, [], [], l)
          else (case link_write outdata l of
            None \<Rightarrow> None
          | Some (ok, l) \<Rightarrow>
              if \<not> ok then Some (0, [], [], l)
              else if resplen = 0 then Some (1, [], [], l)
              else (case read_data (p_out l) (int resplen) of
                None \<Rightarrow> None
              | Some (err, resp, rest) \<Rightarrow>
                  let l = l\<lparr>p_out := rest\<rparr>
                  in if err \<noteq> int resplen then Some (0, resp, [], l)
                     else if fld resp 0 \<noteq> HOSTFS_MAGIC \<and> fld resp 4 \<noteq> fld cmd 4 then Some (0, resp, [], l)
                     else if fld resp 8 \<noteq> 0 \<and> 0 < inlen then
                       (case read_data (p_out l) (sint (fld resp 8)) of
                          None \<Rightarrow> None
                        | Some (err, data, rest) \<Rightarrow>
                            if inlen < length data then None
                            else let l = l\<lparr>p_out := rest\<rparr>
                                 in if of_int err \<noteq> fld resp 8 then Some (0, resp, data, l)
                                    else Some (1, resp, data, l))
                     else Some (1, resp, [], l))))"

definition send_async :: "psp_link \<Rightarrow> u8 list \<Rightarrow> (int \<times> psp_link) option" where
  "send_async l data =
     (if p_sema l < 0 then Some (0, l)
      else case link_write data l of
             None \<Rightarrow> None
           | Some (ok, l) \<Rightarrow> Some (if ok then 1 else 0, l))"

definition send_hello_cmd :: "psp_link \<Rightarrow> (int \<times> psp_link) option" where
  "send_hello_cmd l =
     map_option (\<lambda>(ret, resp, data, l). (ret, l))
       (command_xchg l (host_cmd [HOSTFS_MAGIC, CMD_HELLO, 0]) 12 [] 0)"

text \<open>\<open>usbWriteBulkData\<close>; \<open>k1\<close> is put back on every path.\<close>

definition usbWriteBulkData :: "psp_link \<Rightarrow> bool \<Rightarrow> u8 list \<Rightarrow> int \<Rightarrow> (int \<times> psp_link) option" where
  "usbWriteBulkData l connected data len =
     (if \<not> connected then Some (-1, l)
      else if len \<le> 0 \<or> int HOSTFS_BULK_MAXWRITE < len then Some (-1, l)
      else if p_sema l < 0 then Some (-1, l)
      else case link_write (host_cmd [BULK_MAGIC, of_int len]) l of
        None \<Rightarrow> None
      | Some (ok, l) \<Rightarrow>
          if \<not> ok then Some (-1, l)
          else (case link_write (take (nat len) data) l of
                  None \<Rightarrow> None
                | Some (ok, l) \<Rightarrow> Some (if ok then len else -1, l)))"

section \<open>Attaching and detaching\<close>

abbreviation USB_EVENT_ATTACH :: u32 where "USB_EVENT_ATTACH \<equiv> 1"
abbreviation USB_EVENT_DETACH :: u32 where "USB_EVENT_DETACH \<equiv> 2"
abbreviation USB_EVENT_ASYNC :: u32 where "USB_EVENT_ASYNC \<equiv> 4"
abbreviation USB_EVENT_CONNECT :: u32 where "USB_EVENT_CONNECT \<equiv> 8"

text \<open>
  The state of \<open>usb_thread\<close>: \<open>g_connected\<close>, the bit \<open>USB_EVENT_CONNECT\<close> of the main event flag, whether
  a request for an asynchronous frame is under way, and the channels. One turn of its loop, with
  the events that woke it and the end of the asynchronous request.
\<close>

record usb_device =
  g_connected :: bool
  connect_event :: bool
  async_armed :: bool
  dev_link :: psp_link
  dev_async :: async_state

definition thread_async :: "int \<Rightarrow> u8 list \<Rightarrow> usb_device \<Rightarrow> usb_device" where
  "thread_async rc frame d =
     (if rc = 0 \<and> frame \<noteq> [] then d\<lparr>dev_async := fill_async frame (dev_async d), async_armed := True\<rparr>
      else d\<lparr>async_armed := False\<rparr>)"

definition thread_detach :: "usb_device \<Rightarrow> usb_device" where
  "thread_detach d = d\<lparr>g_connected := False, connect_event := False\<rparr>"

definition thread_attach :: "usb_device \<Rightarrow> usb_device option" where
  "thread_attach d =
     (let d = d\<lparr>g_connected := False, connect_event := False\<rparr>
      in case read_data (p_out (dev_link d)) 4 of
           None \<Rightarrow> None
         | Some (err, magic, rest) \<Rightarrow>
             let d = d\<lparr>dev_link := (dev_link d)\<lparr>p_out := rest\<rparr>\<rparr>
             in if err \<noteq> 4 \<or> le32 magic \<noteq> HOSTFS_MAGIC then Some d
                else (case send_hello_cmd (dev_link d) of
                        None \<Rightarrow> None
                      | Some (ret, l) \<Rightarrow>
                          Some (if ret \<noteq> 0
                                then d\<lparr>dev_link := l, async_armed := True, g_connected := True, connect_event := True\<rparr>
                                else d\<lparr>dev_link := l\<rparr>)))"

definition usb_thread_turn :: "u32 \<Rightarrow> int \<Rightarrow> u8 list \<Rightarrow> usb_device \<Rightarrow> usb_device option" where
  "usb_thread_turn result rc frame d =
     (let d = (if result AND USB_EVENT_ASYNC \<noteq> 0 then thread_async rc frame d else d);
          d = (if result AND USB_EVENT_DETACH \<noteq> 0 then thread_detach d else d)
      in if result AND USB_EVENT_ATTACH \<noteq> 0 then thread_attach d else Some d)"

fun usb_thread :: "(u32 \<times> int \<times> u8 list) list \<Rightarrow> usb_device \<Rightarrow> usb_device option" where
  "usb_thread [] d = Some d"
| "usb_thread ((result, rc, frame) # evs) d =
     (case usb_thread_turn result rc frame d of None \<Rightarrow> None | Some d \<Rightarrow> usb_thread evs d)"

section \<open>Requests that move their bytes\<close>

text \<open>
  A controller moves at most the bytes asked for in one request. Ends of requests that move \<open>n\<close> bytes
  in all without an error, and ends that deliver some bytes.
\<close>

definition in_bounded :: "in_done list \<Rightarrow> bool" where
  "in_bounded ds \<longleftrightarrow> list_all (\<lambda>(wait, rc, sz). sz \<le> int tx_size) ds"

fun moves :: "in_done list \<Rightarrow> nat \<Rightarrow> bool" where
  "moves [] n \<longleftrightarrow> n = 0"
| "moves ((wait, rc, sz) # ds) n \<longleftrightarrow> wait = 0 \<and> rc = 0 \<and> 0 < sz \<and> sz \<le> int tx_size \<and> nat sz \<le> n \<and> moves ds (n - nat sz)"

fun delivers :: "out_done list \<Rightarrow> u8 list \<Rightarrow> bool" where
  "delivers [] bs \<longleftrightarrow> bs = []"
| "delivers ((start, wait, rc, d) # ds) bs \<longleftrightarrow>
     0 \<le> start \<and> wait = 0 \<and> rc = 0 \<and> d \<noteq> [] \<and> length d \<le> tx_size \<and> (\<exists>bs'. bs = d @ bs' \<and> delivers ds bs')"

lemma write_loop_moves:
  "moves ds (length data) \<Longrightarrow>
   \<exists>out. write_loop (ds @ rest) data n = Some (n + int (length data), out, rest) \<and> concat out = data"
proof (induction ds arbitrary: data n)
  case (Cons e ds)
  obtain wait rc sz where e: "e = (wait, rc, sz)" by (cases e) auto
  have m: "wait = 0" "rc = 0" "0 < sz" "sz \<le> int tx_size" "nat sz \<le> length data" "moves ds (length (drop (nat sz) data))"
    using Cons.prems e by auto
  then obtain b bs where d: "data = b # bs" by (cases data) auto
  obtain out where o: "write_loop (ds @ rest) (drop (nat sz) data) (n + sz) =
      Some (n + sz + int (length (drop (nat sz) data)), out, rest)" "concat out = drop (nat sz) data"
    using Cons.IH [OF m(6)] by blast
  have "n + sz + int (length (drop (nat sz) data)) = n + int (length data)" using m(3,5) by simp
  moreover have "concat (take (nat sz) (take tx_size data) # out) = data"
    using o(2) m(4) by simp
  ultimately show ?case using o(1) m(1-3) e d by simp
qed simp

lemma link_write_moves:
  assumes "moves ds (length data)" "p_in l = ds @ rest"
  shows "\<exists>out. link_write data l = Some (True, l\<lparr>p_in := rest, p_sent := p_sent l @ out\<rparr>) \<and> concat out = data"
proof (cases "data = []")
  case True
  then have "ds = []" using assms(1) by (cases ds) auto
  then show ?thesis using True assms(2) by (intro exI [of _ "[]"]) (simp add: link_write_def)
next
  case False
  then show ?thesis
    using write_loop_moves [OF assms(1), of rest 0] assms(2) by (auto simp: link_write_def write_data_def)
qed

lemma read_loop_delivers:
  "delivers ds bs \<Longrightarrow> int (length acc + length bs) = n \<Longrightarrow>
   read_loop (ds @ rest) n acc = Some (n, acc @ bs, rest)"
proof (induction ds arbitrary: acc bs)
  case Nil
  then show ?case by (cases rest) auto
next
  case (Cons e ds)
  obtain start wait rc d where e: "e = (start, wait, rc, d)" by (cases e) auto
  obtain bs' where b: "bs = d @ bs'" "delivers ds bs'" "d \<noteq> []" "length d \<le> tx_size"
    using Cons.prems(1) e by auto
  have "d = take (nat (if int tx_size < n - int (length acc) then int tx_size else n - int (length acc))) d"
    using b Cons.prems(2) by auto
  moreover have "int (length acc) < n" using Cons.prems(2) b(1,3) by (cases d) auto
  ultimately show ?case
    using Cons.IH [OF b(2), of "acc @ d"] Cons.prems(1,2) b(1) e
    by (simp add: Let_def b(3) del: take_all_iff)
qed

lemma read_data_delivers:
  "delivers ds bs \<Longrightarrow> read_data (ds @ rest) (int (length bs)) = Some (int (length bs), bs, rest)"
  using read_loop_delivers [of ds bs "[]" "int (length bs)" rest] by (simp add: read_data_def)

lemma command_xchg_delivers:
  assumes "0 \<le> p_sema l" "p_in l = ds1 @ ds2 @ dr" "moves ds1 (length cmd)" "moves ds2 (length outdata)"
    and "p_out l = rs1 @ rs2 @ rr" "delivers rs1 resp" "delivers rs2 data" "resp \<noteq> []"
    and "fld resp 0 = HOSTFS_MAGIC \<or> fld resp 4 = fld cmd 4"
    and "fld resp 8 = of_nat (length data)" "length data \<le> inlen" "int (length data) < 2 ^ 31"
  shows "\<exists>out. command_xchg l cmd (length resp) outdata inlen
           = Some (1, resp, data, l\<lparr>p_in := dr, p_out := rr, p_sent := p_sent l @ out\<rparr>)
         \<and> concat out = cmd @ outdata"
proof -
  obtain o1 where o1: "link_write cmd l = Some (True, l\<lparr>p_in := ds2 @ dr, p_sent := p_sent l @ o1\<rparr>)"
    "concat o1 = cmd" using link_write_moves [OF assms(3,2)] by blast
  let ?l = "l\<lparr>p_in := ds2 @ dr, p_sent := p_sent l @ o1\<rparr>"
  obtain o2 where o2: "link_write outdata ?l = Some (True, ?l\<lparr>p_in := dr, p_sent := p_sent ?l @ o2\<rparr>)"
    "concat o2 = outdata" using link_write_moves [OF assms(4), of ?l dr] by auto
  have r1: "read_data (p_out l) (int (length resp)) = Some (int (length resp), resp, rs2 @ rr)"
    unfolding assms(5) by (rule read_data_delivers [OF assms(6)])
  have n: "sint (fld resp 8) = int (length data)" using assms(10,12) sint_of_length by simp
  have r2: "read_data (rs2 @ rr) (sint (fld resp 8)) = Some (int (length data), data, rr)"
    unfolding n by (rule read_data_delivers [OF assms(7)])
  have e: "fld resp 8 = 0 \<longleftrightarrow> data = []"
    using n assms(10) by (cases "data = []") auto
  show ?thesis
  proof (cases "data = []")
    case True
    then have rs2: "rs2 = []" using assms(7) by (cases rs2) auto
    have z: "fld resp 8 = 0" using e True by simp
    show ?thesis
      using assms(1,8,9) o1 o2 r1 True rs2 z
      by (intro exI [of _ "o1 @ o2"]) (auto simp: command_xchg_def Let_def)
  next
    case False
    then have "0 < inlen" "fld resp 8 \<noteq> 0" using assms(11) e by (cases data; simp)+
    then show ?thesis
      using assms(1,8,9,10,11) o1 o2 r1 r2
      by (intro exI [of _ "o1 @ o2"]) (auto simp: command_xchg_def Let_def)
  qed
qed

text \<open>
  The exchange of a command. However the USB controller splits the transfers, when the requests
  move the command and its data and deliver the bytes of an answer and of the data it announces
  (and the caller's buffer holds them), \<open>command_xchg\<close> returns 1, exactly the answer and exactly the
  data; what was sent is the command followed by its data, and the link is left where the next
  exchange begins.
\<close>

theorem command_xchg_exact:
  assumes "0 \<le> p_sema l" "p_in l = ds1 @ ds2 @ dr" "moves ds1 (length cmd)" "moves ds2 (length outdata)"
    and "p_out l = rs1 @ rs2 @ rr" "delivers rs1 resp" "delivers rs2 data" "resp \<noteq> []"
    and "fld resp 0 = HOSTFS_MAGIC \<or> fld resp 4 = fld cmd 4"
    and "fld resp 8 = of_nat (length data)" "length data \<le> inlen" "int (length data) < 2 ^ 31"
  shows "\<exists>out. command_xchg l cmd (length resp) outdata inlen
           = Some (1, resp, data, l\<lparr>p_in := dr, p_out := rr, p_sent := p_sent l @ out\<rparr>)
         \<and> concat out = cmd @ outdata"
  using assms by (rule command_xchg_delivers)

theorem command_xchg_exact_witness:
  "\<exists>out. command_xchg \<lparr>p_sema = 0, p_in = [(0, 0, 4), (0, 0, 8)],
      p_out = [(0, 0, 0, take 3 (host_cmd [HOSTFS_MAGIC, CMD_HELLO, 2])),
               (0, 0, 0, drop 3 (host_cmd [HOSTFS_MAGIC, CMD_HELLO, 2])), (0, 0, 0, [7, 8])], p_sent = []\<rparr>
      (host_cmd [HOSTFS_MAGIC, CMD_HELLO, 0]) 12 [] 2
    = Some (1, host_cmd [HOSTFS_MAGIC, CMD_HELLO, 2], [7, 8], \<lparr>p_sema = 0, p_in = [], p_out = [], p_sent = out\<rparr>)
    \<and> concat out = host_cmd [HOSTFS_MAGIC, CMD_HELLO, 0]"
proof -
  let ?r = "host_cmd [HOSTFS_MAGIC, CMD_HELLO, 2]" and ?c = "host_cmd [HOSTFS_MAGIC, CMD_HELLO, 0]"
  let ?l = "\<lparr>p_sema = 0, p_in = [(0, 0, 4), (0, 0, 8)],
      p_out = [(0, 0, 0, take 3 ?r), (0, 0, 0, drop 3 ?r), (0, 0, 0, [7, 8])], p_sent = []\<rparr>"
  have n: "length ?r = 12" "length ?c = 12" by simp_all
  have d: "delivers [(0, 0, 0, take 3 ?r), (0, 0, 0, drop 3 ?r)] ?r"
    using n by (auto simp del: length_host_cmd)
  show ?thesis
    using command_xchg_exact [of ?l "[(0, 0, 4), (0, 0, 8)]" "[]" "[]" ?c "[]"
        "[(0, 0, 0, take 3 ?r), (0, 0, 0, drop 3 ?r)]" "[(0, 0, 0, [7, 8])]" "[]" ?r "[7, 8]" 2] d
    by (simp add: fld_cmd n del: delivers.simps(2) flip: length_greater_0_conv) simp
qed

section \<open>A bulk write reaches the file\<close>

text \<open>A block in the requests of \<open>write_data\<close>, and requests that are moved whole.\<close>

function chunks :: "u8 list \<Rightarrow> u8 list list" where
  "chunks data = (if data = [] then [] else take tx_size data # chunks (drop tx_size data))"
  by pat_completeness auto
termination
  by (relation "measure length") auto

declare chunks.simps [simp del]

lemma chunks_simps [simp]:
  "chunks [] = []" "data \<noteq> [] \<Longrightarrow> chunks data = take tx_size data # chunks (drop tx_size data)"
  by (simp_all add: chunks.simps)

definition whole :: "u8 list \<Rightarrow> in_done list" where
  "whole data = map (\<lambda>c. (0, 0, int (length c))) (chunks data)"

lemma concat_chunks [simp]: "concat (chunks data) = data"
proof (induction data rule: chunks.induct)
  case (1 data)
  then show ?case by (cases "data = []") simp_all
qed

lemma write_loop_step:
  "data \<noteq> [] \<Longrightarrow> write_loop ((0, 0, sz) # ds) data n =
     (if 0 < sz then map_option (\<lambda>(ret, out, rest). (ret, take (nat sz) (take tx_size data) # out, rest))
                       (write_loop ds (drop (nat sz) data) (n + sz))
      else Some (-1, [], ds))"
  by (cases data) (auto split: option.splits)

lemma write_loop_whole:
  "write_loop (whole data @ rest) data n = Some (n + int (length data), chunks data, rest)"
proof (induction data arbitrary: n rule: chunks.induct)
  case (1 data)
  show ?case
  proof (cases "data = []")
    case False
    let ?k = "min (length data) tx_size"
    have k: "0 < ?k" using False by simp
    have w: "whole data = (0, 0, int ?k) # whole (drop tx_size data)"
      using False by (simp add: whole_def)
    have t: "drop ?k data = drop tx_size data" "take ?k (take tx_size data) = take tx_size data"
      by (auto simp: min_def)
    have "n + int ?k + int (length (drop tx_size data)) = n + int (length data)" by simp
    then show ?thesis
      using "1.IH" [OF False, of "n + int ?k"] k t chunks_simps(2) [OF False]
      by (simp only: w append_Cons write_loop_step [OF False]) simp
  qed (simp add: whole_def)
qed

lemma link_write_whole:
  "data \<noteq> [] \<Longrightarrow> p_in l = whole data @ rest \<Longrightarrow>
   link_write data l = Some (True, l\<lparr>p_in := rest, p_sent := p_sent l @ chunks data\<rparr>)"
  by (simp add: link_write_def write_data_def write_loop_whole)

lemma bulk_blocks_chunks: "bulk_blocks (chunks data)"
proof (induction data rule: chunks.induct)
  case (1 data)
  show ?case
  proof (cases "length data \<le> tx_size")
    case True
    then show ?thesis by (cases "data = []") simp_all
  next
    case False
    then have d: "data \<noteq> []" "drop tx_size data \<noteq> []" by auto
    obtain c cs where c: "chunks (drop tx_size data) = c # cs" using d(2) by simp
    show ?thesis using "1.IH" [OF d(1)] False d(1) c by simp
  qed
qed

text \<open>
  C33: a bulk write arrives. When the requests of \<open>usbWriteBulkData\<close> are moved whole, it returns the
  length; and when the PC reads one block for each request it sent, the server writes exactly those
  bytes, in order and all of them, to the file opened for bulk writes, and goes on with its loop.
\<close>

theorem usb_bulk_roundtrip:
  assumes "0 \<le> p_sema l" "p_in l = (0, 0, 8) # whole data @ rest"
    and "data \<noteq> []" "length data \<le> HOSTFS_BULK_MAXWRITE"
    and "bulkfd s = int fd" "fd < MAX_FILES" "f_opened (open_files s ! fd)"
    and "fixed_write (os_write os) data 0 = Some (of_nat (length data), data)"
  shows "\<exists>blocks. usbWriteBulkData l True data (int (length data))
            = Some (int (length data), l\<lparr>p_in := rest, p_sent := p_sent l @ blocks\<rparr>)
          \<and> host_packet os s \<lparr>reads = map Bulk_data blocks @ rs, wres = ws, outs = out\<rparr>
            = Some (True, log (Call_write fd data) s, \<lparr>reads = rs, wres = ws, outs = out\<rparr>)"
proof -
  let ?h = "host_cmd [BULK_MAGIC, of_nat (length data)]"
  have l8: "length ?h = 8" by simp
  then have h1: "?h \<noteq> []" by (metis length_0_conv zero_neq_numeral)
  have h: "?h \<noteq> []" "chunks ?h = [?h]" using h1 chunks_simps(2) [OF h1] l8 by simp_all
  let ?l = "l\<lparr>p_in := whole data @ rest, p_sent := p_sent l @ [?h]\<rparr>"
  have "p_in l = whole ?h @ (whole data @ rest)"
    using assms(2) by (simp add: whole_def h(2))
  then have w1: "link_write ?h l = Some (True, ?l)"
    using link_write_whole [OF h(1)] h(2) by simp
  have w2: "link_write data ?l = Some (True, ?l\<lparr>p_in := rest, p_sent := p_sent ?l @ chunks data\<rparr>)"
    by (rule link_write_whole [OF assms(3)]) simp
  have a: "usbWriteBulkData l True data (int (length data))
      = Some (int (length data), l\<lparr>p_in := rest, p_sent := p_sent l @ ?h # chunks data\<rparr>)"
    using assms(1,3,4) w1 w2 by (simp add: usbWriteBulkData_def)
  have n: "sint (fld ?h 4) = int (length data)"
    using sint_of_length [of "length data"] assms(4) by (simp add: fld_cmd)
  have b: "bulk_loop (length data) [] \<lparr>reads = map Bulk_data (chunks data) @ rs, wres = ws, outs = out\<rparr>
      = (True, data, \<lparr>reads = rs, wres = ws, outs = out\<rparr>)"
    using bulk_loop_blocks [OF bulk_blocks_chunks, of data "[]" rs ws out] by simp
  have "do_bulk os ?h s \<lparr>reads = map Bulk_data (chunks data) @ rs, wres = ws, outs = out\<rparr>
      = Some (log (Call_write fd data) s, \<lparr>reads = rs, wres = ws, outs = out\<rparr>)"
    unfolding do_bulk_def n using b assms(3-8) by simp
  then have "host_packet os s \<lparr>reads = map Bulk_data (?h # chunks data) @ rs, wres = ws, outs = out\<rparr>
      = Some (True, log (Call_write fd data) s, \<lparr>reads = rs, wres = ws, outs = out\<rparr>)"
    by (simp add: host_packet_def bulk_read_def fld_cmd l8)
  then show ?thesis using a by blast
qed

theorem usb_bulk_roundtrip_witness:
  "\<forall>os. \<exists>blocks. usbWriteBulkData \<lparr>p_sema = 0, p_in = [(0, 0, 8), (0, 0, 3)], p_out = [], p_sent = []\<rparr> True [7, 8, 9] 3
      = Some (3, \<lparr>p_sema = 0, p_in = [], p_out = [], p_sent = blocks\<rparr>)
    \<and> host_packet (os\<lparr>os_write := [Wrote 1, Wrote 2]\<rparr>)
        \<lparr>open_files = [\<lparr>f_opened = True, f_mode = 0, f_name = None\<rparr>], open_dirs = [], bulkfd = 0, drives = [], calls = []\<rparr>
        \<lparr>reads = map Bulk_data blocks, wres = [], outs = []\<rparr>
      = Some (True, \<lparr>open_files = [\<lparr>f_opened = True, f_mode = 0, f_name = None\<rparr>], open_dirs = [], bulkfd = 0,
                      drives = [], calls = [Call_write 0 [7, 8, 9]]\<rparr>,
              \<lparr>reads = [], wres = [], outs = []\<rparr>)"
proof
  fix os :: host_os
  let ?s = "\<lparr>open_files = [\<lparr>f_opened = True, f_mode = 0, f_name = None\<rparr>], open_dirs = [], bulkfd = 0, drives = [], calls = []\<rparr>"
  let ?l = "\<lparr>p_sema = 0, p_in = [(0, 0, 8), (0, 0, 3)], p_out = [], p_sent = []\<rparr>"
  let ?os = "os\<lparr>os_write := [Wrote 1, Wrote 2]\<rparr>"
  have w: "whole [7, 8, 9] = [(0, 0, 3)]" by (simp add: whole_def)
  show "\<exists>blocks. usbWriteBulkData ?l True [7, 8, 9] 3 = Some (3, \<lparr>p_sema = 0, p_in = [], p_out = [], p_sent = blocks\<rparr>)
    \<and> host_packet ?os ?s \<lparr>reads = map Bulk_data blocks, wres = [], outs = []\<rparr>
      = Some (True, \<lparr>open_files = [\<lparr>f_opened = True, f_mode = 0, f_name = None\<rparr>], open_dirs = [], bulkfd = 0,
                      drives = [], calls = [Call_write 0 [7, 8, 9]]\<rparr>,
              \<lparr>reads = [], wres = [], outs = []\<rparr>)"
    using usb_bulk_roundtrip [of ?l "[7, 8, 9]" "[]" ?s 0 ?os "[]" "[]" "[]"] w by (simp add: log_def)
qed

section \<open>Being connected\<close>

lemma usb_thread_turn_keeps:
  assumes "g_connected d = connect_event d" "usb_thread_turn result rc frame d = Some d'"
  shows "g_connected d' = connect_event d'
    \<and> ((g_connected d \<longrightarrow> async_armed d) \<and> rc = 0 \<and> frame \<noteq> [] \<longrightarrow> g_connected d' \<longrightarrow> async_armed d')"
proof -
  have a: "g_connected d' = connect_event d' \<and> (g_connected d' \<longrightarrow> async_armed d')"
    if "thread_attach d = Some d'" for d
    using that by (auto simp: thread_attach_def Let_def split: option.splits prod.splits if_splits)
  show ?thesis
    using assms a
    by (cases "result AND USB_EVENT_ATTACH \<noteq> 0"; cases "result AND USB_EVENT_DETACH \<noteq> 0";
        cases "result AND USB_EVENT_ASYNC \<noteq> 0")
      (auto simp: usb_thread_turn_def Let_def thread_detach_def thread_async_def split: if_splits)
qed

text \<open>
  \<open>g_connected\<close> and the event that \<open>usbWaitForConnect\<close> waits for agree after any sequence of
  events of the USB thread, whatever the link delivers.
\<close>

theorem usb_thread_connected:
  assumes "usb_thread evs d = Some d'" "g_connected d = connect_event d"
  shows "g_connected d' = connect_event d'"
  using assms
proof (induction evs d rule: usb_thread.induct)
  case (2 result rc frame evs d)
  obtain e where e: "usb_thread_turn result rc frame d = Some e" "usb_thread evs e = Some d'"
    using "2.prems"(1) by (auto split: option.splits)
  then show ?case using "2.IH" usb_thread_turn_keeps [OF "2.prems"(2) e(1)] by blast
qed simp

theorem usb_thread_connected_witness:
  "\<forall>a. \<exists>d'. usb_thread [(USB_EVENT_ATTACH, 0, [])]
     \<lparr>g_connected = False, connect_event = False, async_armed = False,
      dev_link = \<lparr>p_sema = 0, p_in = [(0, 0, 12)],
        p_out = [(0, 0, 0, to_le32 HOSTFS_MAGIC), (0, 0, 0, host_cmd [HOSTFS_MAGIC, CMD_HELLO, 0])], p_sent = []\<rparr>,
      dev_async = a\<rparr> = Some d'
    \<and> g_connected d' \<and> connect_event d'"
proof
  fix a
  let ?c = "host_cmd [HOSTFS_MAGIC, CMD_HELLO, 0]"
  let ?o = "[(0, 0, 0, ?c)] :: out_done list"
  let ?l = "\<lparr>p_sema = 0, p_in = [(0, 0, 12)], p_out = ?o, p_sent = []\<rparr>"
  let ?d = "\<lparr>g_connected = False, connect_event = False, async_armed = False,
      dev_link = ?l\<lparr>p_out := (0, 0, 0, to_le32 HOSTFS_MAGIC) # ?o\<rparr>, dev_async = a\<rparr>"
  have c: "length ?c = 12" "?c \<noteq> []" by (simp, metis length_host_cmd length_0_conv mult_eq_0_iff
        zero_neq_numeral list.distinct(1))
  have m: "read_data ((0, 0, 0, to_le32 HOSTFS_MAGIC) # ?o) 4 = Some (4, to_le32 HOSTFS_MAGIC, ?o)"
    using read_data_delivers [of "[(0, 0, 0, to_le32 HOSTFS_MAGIC)]" "to_le32 HOSTFS_MAGIC" ?o]
    by (simp add: to_le32_def)
  have "\<exists>out. command_xchg ?l ?c 12 [] 0 = Some (1, ?c, [], ?l\<lparr>p_in := [], p_out := [], p_sent := out\<rparr>)"
    using command_xchg_delivers [of ?l "[(0, 0, 12)]" "[]" "[]" ?c "[]" ?o "[]" "[]" ?c "[]" 0] c
    by (auto simp: fld_cmd)
  then obtain out where h: "send_hello_cmd ?l = Some (1, ?l\<lparr>p_in := [], p_out := [], p_sent := out\<rparr>)"
    by (auto simp: send_hello_cmd_def)
  let ?d' = "?d\<lparr>dev_link := ?l\<lparr>p_in := [], p_out := [], p_sent := out\<rparr>, async_armed := True,
      g_connected := True, connect_event := True\<rparr>"
  have t: "usb_thread [(USB_EVENT_ATTACH, 0, [])] ?d = Some ?d'"
    using m h by (simp add: usb_thread_turn_def thread_attach_def Let_def)
  have "g_connected ?d' = connect_event ?d'" by (rule usb_thread_connected [OF t]) simp
  then show "\<exists>d'. usb_thread [(USB_EVENT_ATTACH, 0, [])]
     \<lparr>g_connected = False, connect_event = False, async_armed = False,
      dev_link = \<lparr>p_sema = 0, p_in = [(0, 0, 12)],
        p_out = [(0, 0, 0, to_le32 HOSTFS_MAGIC), (0, 0, 0, ?c)], p_sent = []\<rparr>,
      dev_async = a\<rparr> = Some d'
    \<and> g_connected d' \<and> connect_event d'"
    using t by (intro exI [of _ ?d']) simp
qed

end
