(* ===== verification/HostDriver.thy ===== *)
theory HostDriver
  imports HostFs
begin

text \<open>
  \<open>usbhostfs/host_driver.c\<close>: the driver that gives PSP programs the device \<open>host\<close>. Each operation builds
  a command, has it exchanged with the PC and interprets the answer; reading and writing go in blocks
  of 64 kilobytes.

  The exchange is an argument of every operation: it takes the command, the size of the answer, the
  data to send and the size of the caller's buffer, and yields the answer and the data received, or
  nothing when it failed; \<open>None\<close> when it does not return. \<open>conn\<close> is \<open>usb_connected\<close>. The theory
  \<open>Transport\<close> models the exchange over USB, \<open>HostLink\<close> the exchange with the server of \<open>HostFs\<close>.
\<close>

section \<open>Exchanges\<close>

type_synonym 'w xchg = "u8 list \<Rightarrow> nat \<Rightarrow> u8 list \<Rightarrow> nat \<Rightarrow> 'w \<Rightarrow> ((u8 list \<times> u8 list) option \<times> 'w) option"

definition host_call :: "('w \<Rightarrow> bool) \<Rightarrow> 'w xchg \<Rightarrow> u8 list \<Rightarrow> nat \<Rightarrow> u8 list \<Rightarrow> nat \<Rightarrow> 'w
    \<Rightarrow> ((u8 list \<times> u8 list) option \<times> 'w) option" where
  "host_call conn x cmd resplen out inlen w = (if conn w then x cmd resplen out inlen w else Some (None, w))"

definition resp_res :: "u8 list \<Rightarrow> int" where
  "resp_res resp = sint (fld resp 12)"

text \<open>An operation whose result is that of the answer, -1 when there is none.\<close>

definition result_call :: "('w \<Rightarrow> bool) \<Rightarrow> 'w xchg \<Rightarrow> u8 list \<Rightarrow> u8 list \<Rightarrow> nat \<Rightarrow> 'w
    \<Rightarrow> (int \<times> u8 list \<times> 'w) option" where
  "result_call conn x cmd out inlen w =
     (case host_call conn x cmd 16 out inlen w of
        None \<Rightarrow> None
      | Some (None, w) \<Rightarrow> Some (-1, [], w)
      | Some (Some (resp, data), w) \<Rightarrow> Some (resp_res resp, data, w))"

text \<open>A C string with its NUL.\<close>

definition name_bytes :: "string \<Rightarrow> u8 list" where
  "name_bytes s = map (\<lambda>c. of_nat (ccode c)) s @ [0]"

lemma length_name_bytes [simp]: "length (name_bytes s) = length s + 1"
  by (simp add: name_bytes_def)

section \<open>Opening and closing\<close>

text \<open>A handle returned by \<open>io_open_host\<close> or \<open>io_dopen\<close> goes into \<open>arg->arg\<close>; the name may be a null pointer.\<close>

definition open_result :: "int \<times> u8 list \<times> 'w \<Rightarrow> int \<times> int option \<times> 'w" where
  "open_result r = (case r of (res, data, w) \<Rightarrow> if 0 \<le> res then (0, Some res, w) else (res, None, w))"

definition io_open_host :: "('w \<Rightarrow> bool) \<Rightarrow> 'w xchg \<Rightarrow> u32 \<Rightarrow> string option \<Rightarrow> u32 \<Rightarrow> u32 \<Rightarrow> 'w
    \<Rightarrow> (int \<times> int option \<times> 'w) option" where
  "io_open_host conn x fs_num file mode mk w =
     (case file of
        None \<Rightarrow> Some (-1, None, w)
      | Some f \<Rightarrow> map_option open_result
          (result_call conn x (host_cmd [HOSTFS_MAGIC, CMD_OPEN, of_nat (length f + 1), mode, mk, fs_num])
             (name_bytes f) 0 w))"

definition io_close :: "('w \<Rightarrow> bool) \<Rightarrow> 'w xchg \<Rightarrow> u32 \<Rightarrow> 'w \<Rightarrow> (int \<times> u8 list \<times> 'w) option" where
  "io_close conn x fid w = result_call conn x (host_cmd [HOSTFS_MAGIC, CMD_CLOSE, 0, fid]) [] 0 w"

definition io_dopen :: "('w \<Rightarrow> bool) \<Rightarrow> 'w xchg \<Rightarrow> u32 \<Rightarrow> string option \<Rightarrow> 'w \<Rightarrow> (int \<times> int option \<times> 'w) option" where
  "io_dopen conn x fs_num dir w =
     (case dir of
        None \<Rightarrow> Some (-1, None, w)
      | Some f \<Rightarrow> map_option open_result
          (result_call conn x (host_cmd [HOSTFS_MAGIC, CMD_DOPEN, of_nat (length f + 1), fs_num]) (name_bytes f) 0 w))"

definition io_dclose :: "('w \<Rightarrow> bool) \<Rightarrow> 'w xchg \<Rightarrow> u32 \<Rightarrow> 'w \<Rightarrow> (int \<times> u8 list \<times> 'w) option" where
  "io_dclose conn x did w = result_call conn x (host_cmd [HOSTFS_MAGIC, CMD_DCLOSE, 0, did]) [] 0 w"

text \<open>\<open>have\<close>: the pointer to the entry is not null.\<close>

definition io_dread :: "('w \<Rightarrow> bool) \<Rightarrow> 'w xchg \<Rightarrow> u32 \<Rightarrow> bool \<Rightarrow> 'w \<Rightarrow> (int \<times> u8 list \<times> 'w) option" where
  "io_dread conn x did have w =
     (if \<not> have then Some (-1, [], w)
      else result_call conn x (host_cmd [HOSTFS_MAGIC, CMD_DREAD, 0, did]) [] 352 w)"

section \<open>Reading and writing\<close>

text \<open>Bytes stored at an offset of a buffer.\<close>

definition store :: "u8 list \<Rightarrow> nat \<Rightarrow> u8 list \<Rightarrow> u8 list" where
  "store buf off bs = take off buf @ bs @ drop (off + length bs) buf"

text \<open>
  One block of \<open>usb_read_data\<close>: whether the loop goes on, the result so far, the buffer and the
  offset of \<open>data\<close> in it.
\<close>

definition read_block :: "('w \<Rightarrow> bool) \<Rightarrow> 'w xchg \<Rightarrow> u32 \<Rightarrow> nat \<Rightarrow> int \<times> u8 list \<times> nat \<Rightarrow> 'w
    \<Rightarrow> (bool \<times> (int \<times> u8 list \<times> nat) \<times> 'w) option" where
  "read_block conn x fd len st w =
     (case st of (ret, buf, off) \<Rightarrow>
      case host_call conn x (host_cmd [HOSTFS_MAGIC, CMD_READ, 0, fd, of_nat len]) 16 [] len w of
        None \<Rightarrow> None
      | Some (None, w) \<Rightarrow> Some (False, (-1, buf, off), w)
      | Some (Some (resp, data), w) \<Rightarrow>
          (let res = resp_res resp; buf = store buf off data
           in if 0 < res then Some (True, (ret + res, buf, off + nat res), w)
              else Some (False, (if res < 0 \<and> ret = 0 then res else ret, buf, off), w)))"

fun read_blocks :: "('w \<Rightarrow> bool) \<Rightarrow> 'w xchg \<Rightarrow> u32 \<Rightarrow> nat \<Rightarrow> int \<times> u8 list \<times> nat \<Rightarrow> 'w
    \<Rightarrow> (bool \<times> (int \<times> u8 list \<times> nat) \<times> 'w) option" where
  "read_blocks conn x fd 0 st w = Some (True, st, w)"
| "read_blocks conn x fd (Suc blocks) st w =
     (case read_block conn x fd HOSTFS_MAX_BLOCK st w of
        None \<Rightarrow> None
      | Some (True, st, w) \<Rightarrow> read_blocks conn x fd blocks st w
      | Some (False, st, w) \<Rightarrow> Some (False, st, w))"

text \<open>\<open>buf\<close> is the caller's buffer, \<open>None\<close> the null pointer.\<close>

definition usb_read_data :: "('w \<Rightarrow> bool) \<Rightarrow> 'w xchg \<Rightarrow> u32 \<Rightarrow> u8 list option \<Rightarrow> int \<Rightarrow> 'w
    \<Rightarrow> (int \<times> u8 list \<times> 'w) option" where
  "usb_read_data conn x fd data len w =
     (if len < 0 then Some (-1, case_option [] id data, w)
      else if len = 0 then Some (0, case_option [] id data, w)
      else case data of
             None \<Rightarrow> Some (-1, [], w)
           | Some buf \<Rightarrow>
              (let blocks = nat len div HOSTFS_MAX_BLOCK; residual = nat len mod HOSTFS_MAX_BLOCK
               in case read_blocks conn x fd blocks (0, buf, 0) w of
                    None \<Rightarrow> None
                  | Some (going, st, w) \<Rightarrow>
                     if going \<and> 0 < residual
                     then (case read_block conn x fd residual st w of
                             None \<Rightarrow> None
                           | Some (_, (ret, buf, off), w) \<Rightarrow> Some (ret, buf, w))
                     else (case st of (ret, buf, off) \<Rightarrow> Some (ret, buf, w))))"

text \<open>One block of \<open>usb_write_data\<close>; \<open>data\<close> is the rest of the caller's data.\<close>

definition write_block :: "('w \<Rightarrow> bool) \<Rightarrow> 'w xchg \<Rightarrow> u32 \<Rightarrow> nat \<Rightarrow> int \<times> u8 list \<Rightarrow> 'w
    \<Rightarrow> (bool \<times> (int \<times> u8 list) \<times> 'w) option" where
  "write_block conn x fd len st w =
     (case st of (ret, data) \<Rightarrow>
      case host_call conn x (host_cmd [HOSTFS_MAGIC, CMD_WRITE, of_nat len, fd]) 16 (take len data) 0 w of
        None \<Rightarrow> None
      | Some (None, w) \<Rightarrow> Some (False, (-1, data), w)
      | Some (Some (resp, _), w) \<Rightarrow>
          (let res = resp_res resp
           in if 0 < res then Some (True, (ret + res, drop (nat res) data), w)
              else Some (False, (if res < 0 \<and> ret = 0 then res else ret, data), w)))"

fun write_blocks :: "('w \<Rightarrow> bool) \<Rightarrow> 'w xchg \<Rightarrow> u32 \<Rightarrow> nat \<Rightarrow> int \<times> u8 list \<Rightarrow> 'w
    \<Rightarrow> (bool \<times> (int \<times> u8 list) \<times> 'w) option" where
  "write_blocks conn x fd 0 st w = Some (True, st, w)"
| "write_blocks conn x fd (Suc blocks) st w =
     (case write_block conn x fd HOSTFS_MAX_BLOCK st w of
        None \<Rightarrow> None
      | Some (True, st, w) \<Rightarrow> write_blocks conn x fd blocks st w
      | Some (False, st, w) \<Rightarrow> Some (False, st, w))"

definition usb_write_data :: "('w \<Rightarrow> bool) \<Rightarrow> 'w xchg \<Rightarrow> u32 \<Rightarrow> u8 list option \<Rightarrow> int \<Rightarrow> 'w \<Rightarrow> (int \<times> 'w) option" where
  "usb_write_data conn x fd data len w =
     (if len < 0 then Some (-1, w)
      else if len = 0 then Some (0, w)
      else case data of
             None \<Rightarrow> Some (-1, w)
           | Some bs \<Rightarrow>
              (let blocks = nat len div HOSTFS_MAX_BLOCK; residual = nat len mod HOSTFS_MAX_BLOCK
               in case write_blocks conn x fd blocks (0, bs) w of
                    None \<Rightarrow> None
                  | Some (going, st, w) \<Rightarrow>
                     if going \<and> 0 < residual
                     then (case write_block conn x fd residual st w of
                             None \<Rightarrow> None
                           | Some (_, (ret, _), w) \<Rightarrow> Some (ret, w))
                     else Some (fst st, w)))"

definition io_lseek :: "('w \<Rightarrow> bool) \<Rightarrow> 'w xchg \<Rightarrow> u32 \<Rightarrow> u64 \<Rightarrow> u32 \<Rightarrow> 'w \<Rightarrow> (u64 \<times> 'w) option" where
  "io_lseek conn x fid ofs whence w =
     (case host_call conn x (host_cmd [HOSTFS_MAGIC, CMD_LSEEK, 0, fid, ucast ofs, ucast (drop_bit 32 ofs), whence])
             24 [] 0 w of
        None \<Rightarrow> None
      | Some (None, w) \<Rightarrow> Some (-1, w)
      | Some (Some (resp, _), w) \<Rightarrow> Some (if 0 \<le> resp_res resp then fld64 resp 16 else -1, w))"

section \<open>Operations on names\<close>

definition io_remove :: "('w \<Rightarrow> bool) \<Rightarrow> 'w xchg \<Rightarrow> u32 \<Rightarrow> string option \<Rightarrow> 'w \<Rightarrow> (int \<times> u8 list \<times> 'w) option" where
  "io_remove conn x fs_num name w =
     (case name of
        None \<Rightarrow> Some (-1, [], w)
      | Some f \<Rightarrow> result_call conn x (host_cmd [HOSTFS_MAGIC, CMD_REMOVE, of_nat (length f + 1), fs_num]) (name_bytes f) 0 w)"

definition io_mkdir :: "('w \<Rightarrow> bool) \<Rightarrow> 'w xchg \<Rightarrow> u32 \<Rightarrow> string option \<Rightarrow> u32 \<Rightarrow> 'w \<Rightarrow> (int \<times> u8 list \<times> 'w) option" where
  "io_mkdir conn x fs_num name mode w =
     (case name of
        None \<Rightarrow> Some (-1, [], w)
      | Some f \<Rightarrow> result_call conn x (host_cmd [HOSTFS_MAGIC, CMD_MKDIR, of_nat (length f + 1), mode, fs_num]) (name_bytes f) 0 w)"

definition io_rmdir :: "('w \<Rightarrow> bool) \<Rightarrow> 'w xchg \<Rightarrow> u32 \<Rightarrow> string option \<Rightarrow> 'w \<Rightarrow> (int \<times> u8 list \<times> 'w) option" where
  "io_rmdir conn x fs_num name w =
     (case name of
        None \<Rightarrow> Some (-1, [], w)
      | Some f \<Rightarrow> result_call conn x (host_cmd [HOSTFS_MAGIC, CMD_RMDIR, of_nat (length f + 1), fs_num]) (name_bytes f) 0 w)"

definition io_chdir :: "('w \<Rightarrow> bool) \<Rightarrow> 'w xchg \<Rightarrow> u32 \<Rightarrow> string option \<Rightarrow> 'w \<Rightarrow> (int \<times> u8 list \<times> 'w) option" where
  "io_chdir conn x fs_num name w =
     (case name of
        None \<Rightarrow> Some (-1, [], w)
      | Some f \<Rightarrow> result_call conn x (host_cmd [HOSTFS_MAGIC, CMD_CHDIR, of_nat (length f + 1), fs_num]) (name_bytes f) 0 w)"

definition io_getstat :: "('w \<Rightarrow> bool) \<Rightarrow> 'w xchg \<Rightarrow> u32 \<Rightarrow> string option \<Rightarrow> bool \<Rightarrow> 'w \<Rightarrow> (int \<times> u8 list \<times> 'w) option" where
  "io_getstat conn x fs_num file have w =
     (case file of
        None \<Rightarrow> Some (-1, [], w)
      | Some f \<Rightarrow>
         if \<not> have then Some (-1, [], w)
         else result_call conn x (host_cmd [HOSTFS_MAGIC, CMD_GETSTAT, of_nat (length f + 1), fs_num]) (name_bytes f) 88 w)"

text \<open>
  \<open>io_chstat\<close> takes the minutes and seconds of the access time from the modification time. Two
  16-bit fields make a word of the command.
\<close>

definition pair16 :: "u16 \<Rightarrow> u16 \<Rightarrow> u32" where
  "pair16 a b = ucast a OR push_bit 16 (ucast b)"

definition chstat_cmd :: "u32 \<Rightarrow> nat \<Rightarrow> io_stat \<Rightarrow> u32 \<Rightarrow> u8 list" where
  "chstat_cmd fs_num n st bits =
     (let a = io_atime st; m = io_mtime st
      in host_cmd [HOSTFS_MAGIC, CMD_CHSTAT, of_nat n, bits, io_mode st, ucast (io_size st),
           ucast (drop_bit 32 (io_size st)),
           pair16 (io_year a) (io_month a), pair16 (io_day a) (io_hour a), pair16 (io_minute m) (io_second m),
           pair16 (io_year m) (io_month m), pair16 (io_day m) (io_hour m), pair16 (io_minute m) (io_second m),
           fs_num])"

definition io_chstat :: "('w \<Rightarrow> bool) \<Rightarrow> 'w xchg \<Rightarrow> u32 \<Rightarrow> string option \<Rightarrow> io_stat option \<Rightarrow> u32 \<Rightarrow> 'w
    \<Rightarrow> (int \<times> u8 list \<times> 'w) option" where
  "io_chstat conn x fs_num file stat bits w =
     (case (file, stat) of
        (Some f, Some st) \<Rightarrow> result_call conn x (chstat_cmd fs_num (length f + 1) st bits) (name_bytes f) 0 w
      | _ \<Rightarrow> Some (-1, [], w))"

abbreviation HOSTFS_RENAME_BUFSIZE :: nat where "HOSTFS_RENAME_BUFSIZE \<equiv> 1024"

definition io_rename :: "('w \<Rightarrow> bool) \<Rightarrow> 'w xchg \<Rightarrow> u32 \<Rightarrow> string option \<Rightarrow> string option \<Rightarrow> 'w
    \<Rightarrow> (int \<times> u8 list \<times> 'w) option" where
  "io_rename conn x fs_num oldname newname w =
     (case (oldname, newname) of
        (Some f, Some g) \<Rightarrow>
          (let n = length f + length g + 2
           in if HOSTFS_RENAME_BUFSIZE < n then Some (-1, [], w)
              else result_call conn x (host_cmd [HOSTFS_MAGIC, CMD_RENAME, of_nat n, fs_num]) (name_bytes f @ name_bytes g) 0 w)
      | _ \<Rightarrow> Some (-1, [], w))"

text \<open>
  \<open>ioctl\<close> and \<open>devctl\<close>: the data to send and the size of the buffer for the answer. For the information
  about the drive, \<open>indata\<close> holds the address of the buffer (\<open>target\<close>: it is not null).
\<close>

definition io_ioctl :: "('w \<Rightarrow> bool) \<Rightarrow> 'w xchg \<Rightarrow> u32 \<Rightarrow> u32 \<Rightarrow> u8 list option \<Rightarrow> nat option \<Rightarrow> 'w
    \<Rightarrow> (int \<times> u8 list \<times> 'w) option" where
  "io_ioctl conn x fid cmdno indata outlen w =
     (let ind = case_option [] id indata; outlen = case_option 0 id outlen
      in result_call conn x (host_cmd [HOSTFS_MAGIC, CMD_IOCTL, of_nat (length ind), fid, cmdno, of_nat outlen]) ind outlen w)"

definition io_devctl :: "('w \<Rightarrow> bool) \<Rightarrow> 'w xchg \<Rightarrow> u32 \<Rightarrow> string option \<Rightarrow> u32 \<Rightarrow> u8 list option \<Rightarrow> bool \<Rightarrow> nat option \<Rightarrow> 'w
    \<Rightarrow> (int \<times> u8 list \<times> 'w) option" where
  "io_devctl conn x fs_num name cmdno indata target outlen w =
     (if name = None then Some (-1, [], w)
      else if cmdno = 0x02425818 \<and> \<not> (indata \<noteq> None \<and> target) then Some (-1, [], w)
      else let get = (cmdno = 0x02425818);
               ind = (if get then [] else case_option [] id indata);
               outlen = (if get then 20 else case_option 0 id outlen)
           in result_call conn x (host_cmd [HOSTFS_MAGIC, CMD_DEVCTL, of_nat (length ind), cmdno, fs_num, of_nat outlen])
                ind outlen w)"

section \<open>What the driver relies on\<close>

text \<open>
  A file that takes every block written to it and gives every block read from it: \<open>takes fd ns w\<close>, the
  PC will take blocks of these lengths; \<open>gives fd bs w\<close>, it will give these blocks; \<open>written fd w\<close>, what
  was written so far.
\<close>

locale host_file =
  fixes conn :: "'w \<Rightarrow> bool" and x :: "'w xchg"
    and takes :: "u32 \<Rightarrow> nat list \<Rightarrow> 'w \<Rightarrow> bool" and written :: "u32 \<Rightarrow> 'w \<Rightarrow> u8 list"
    and gives :: "u32 \<Rightarrow> u8 list list \<Rightarrow> 'w \<Rightarrow> bool"
  assumes write_law: "takes fd (length bs # ns) w \<Longrightarrow> bs \<noteq> [] \<Longrightarrow> length bs \<le> HOSTFS_MAX_BLOCK \<Longrightarrow>
      \<exists>resp w'. conn w \<and> x (host_cmd [HOSTFS_MAGIC, CMD_WRITE, of_nat (length bs), fd]) 16 bs 0 w = Some (Some (resp, []), w')
        \<and> resp_res resp = int (length bs) \<and> written fd w' = written fd w @ bs \<and> takes fd ns w'"
    and read_law: "gives fd (bs # bss) w \<Longrightarrow> bs \<noteq> [] \<Longrightarrow> length bs \<le> HOSTFS_MAX_BLOCK \<Longrightarrow>
      \<exists>resp w'. conn w \<and> x (host_cmd [HOSTFS_MAGIC, CMD_READ, 0, fd, of_nat (length bs)]) 16 [] (length bs) w = Some (Some (resp, bs), w')
        \<and> resp_res resp = int (length bs) \<and> gives fd bss w'"
begin

lemma write_block_ok:
  assumes "takes fd (n # ns) w" "0 < n" "n \<le> HOSTFS_MAX_BLOCK" "n \<le> length data"
  shows "\<exists>w'. write_block conn x fd n (ret, data) w = Some (True, (ret + int n, drop n data), w')
          \<and> written fd w' = written fd w @ take n data \<and> takes fd ns w'"
proof -
  have l: "length (take n data) = n" using assms(4) by simp
  then have n: "take n data \<noteq> []" using assms(2) by (metis length_0_conv less_numeral_extra(3))
  obtain resp w' where r: "conn w"
    "x (host_cmd [HOSTFS_MAGIC, CMD_WRITE, of_nat n, fd]) 16 (take n data) 0 w = Some (Some (resp, []), w')"
    "resp_res resp = int n" "written fd w' = written fd w @ take n data" "takes fd ns w'"
    using write_law [of fd "take n data" ns w] assms l n by auto
  then show ?thesis using assms(2) by (simp add: write_block_def host_call_def)
qed

lemma write_blocks_ok:
  assumes "takes fd (replicate k HOSTFS_MAX_BLOCK @ ns) w" "k * HOSTFS_MAX_BLOCK \<le> length data"
  shows "\<exists>w'. write_blocks conn x fd k (ret, data) w
            = Some (True, (ret + int (k * HOSTFS_MAX_BLOCK), drop (k * HOSTFS_MAX_BLOCK) data), w')
          \<and> written fd w' = written fd w @ take (k * HOSTFS_MAX_BLOCK) data \<and> takes fd ns w'"
  using assms
proof (induction k arbitrary: ret data w)
  case (Suc k)
  let ?n = HOSTFS_MAX_BLOCK
  have t: "takes fd (?n # replicate k ?n @ ns) w" "?n \<le> length data" using Suc.prems by simp_all
  have k: "k * ?n \<le> length (drop ?n data)" using Suc.prems(2) by simp
  obtain w1 where w1: "write_block conn x fd ?n (ret, data) w = Some (True, (ret + int ?n, drop ?n data), w1)"
    "written fd w1 = written fd w @ take ?n data" "takes fd (replicate k ?n @ ns) w1"
    using write_block_ok [OF t(1) _ _ t(2), of ret] by auto
  obtain w2 where w2: "write_blocks conn x fd k (ret + int ?n, drop ?n data) w1
      = Some (True, (ret + int ?n + int (k * ?n), drop (k * ?n) (drop ?n data)), w2)"
    "written fd w2 = written fd w1 @ take (k * ?n) (drop ?n data)" "takes fd ns w2"
    using Suc.IH [OF w1(3) k, of "ret + int ?n"] by blast
  have "take ?n data @ take (k * ?n) (drop ?n data) = take (Suc k * ?n) data"
    by (simp add: take_add)
  then show ?case using w1 w2 by (auto simp: algebra_simps)
qed simp

definition pieces :: "nat \<Rightarrow> nat list" where
  "pieces n = replicate (n div HOSTFS_MAX_BLOCK) HOSTFS_MAX_BLOCK
     @ (if n mod HOSTFS_MAX_BLOCK = 0 then [] else [n mod HOSTFS_MAX_BLOCK])"

lemma usb_write_all:
  assumes "takes fd (pieces (length data)) w"
  shows "\<exists>w'. usb_write_data conn x fd (Some data) (int (length data)) w = Some (int (length data), w')
          \<and> written fd w' = written fd w @ data"
proof (cases "data = []")
  case False
  let ?n = HOSTFS_MAX_BLOCK and ?l = "length data"
  let ?k = "?l div ?n" and ?r = "?l mod ?n"
  have kr: "?k * ?n + ?r = ?l" by simp
  then have "?k * ?n \<le> ?l" by linarith
  then obtain w1 where w1: "write_blocks conn x fd ?k (0, data) w
      = Some (True, (int (?k * ?n), drop (?k * ?n) data), w1)"
    "written fd w1 = written fd w @ take (?k * ?n) data" "takes fd (if ?r = 0 then [] else [?r]) w1"
    using write_blocks_ok [of fd ?k "if ?r = 0 then [] else [?r]" w data 0] assms
    by (auto simp: pieces_def)
  show ?thesis
  proof (cases "?r = 0")
    case True
    then have "?k * ?n = ?l" using kr by simp
    then show ?thesis using w1 False True by (simp add: usb_write_data_def Let_def)
  next
    case r: False
    have d: "length (drop (?k * ?n) data) = ?r" by (simp add: minus_div_mult_eq_mod)
    have t: "takes fd [?r] w1" using w1(3) r by simp
    obtain w2 where w2: "write_block conn x fd ?r (int (?k * ?n), drop (?k * ?n) data) w1
        = Some (True, (int (?k * ?n) + int ?r, drop ?r (drop (?k * ?n) data)), w2)"
      "written fd w2 = written fd w1 @ take ?r (drop (?k * ?n) data)"
      using write_block_ok [OF t, of "drop (?k * ?n) data" "int (?k * ?n)"] r d by auto
    have "take (?k * ?n) data @ take ?r (drop (?k * ?n) data) = data" using d by simp
    moreover have "int (?k * ?n) + int ?r = int ?l" using kr by linarith
    ultimately show ?thesis
      using w1 w2 False r by (simp add: usb_write_data_def Let_def del: of_nat_mult)
  qed
qed (auto simp: usb_write_data_def)

lemma store_next:
  "length a + length b \<le> length buf \<Longrightarrow>
   store (a @ drop (length a) buf) (length a) b = (a @ b) @ drop (length (a @ b)) buf"
  by (simp add: store_def add.commute)

lemma read_block_ok:
  assumes "gives fd (b # bs) w" "b \<noteq> []" "length b \<le> HOSTFS_MAX_BLOCK" "length a + length b \<le> length buf"
  shows "\<exists>w'. read_block conn x fd (length b) (ret, a @ drop (length a) buf, length a) w
            = Some (True, (ret + int (length b), (a @ b) @ drop (length (a @ b)) buf, length (a @ b)), w')
          \<and> gives fd bs w'"
proof -
  obtain resp w' where r: "conn w"
    "x (host_cmd [HOSTFS_MAGIC, CMD_READ, 0, fd, of_nat (length b)]) 16 [] (length b) w = Some (Some (resp, b), w')"
    "resp_res resp = int (length b)" "gives fd bs w'"
    using read_law [OF assms(1-3)] by blast
  then show ?thesis
    using assms(2) store_next [OF assms(4)] by (simp add: read_block_def host_call_def Let_def)
qed

lemma read_blocks_ok:
  assumes "gives fd (bss @ rest) w" "\<forall>b \<in> set bss. length b = HOSTFS_MAX_BLOCK"
    and "length a + length (concat bss) \<le> length buf"
  shows "\<exists>w'. read_blocks conn x fd (length bss) (ret, a @ drop (length a) buf, length a) w
            = Some (True, (ret + int (length (concat bss)), (a @ concat bss) @ drop (length (a @ concat bss)) buf,
                           length (a @ concat bss)), w')
          \<and> gives fd rest w'"
  using assms
proof (induction bss arbitrary: ret a w)
  case (Cons b bss)
  have b: "length b = HOSTFS_MAX_BLOCK" "b \<noteq> []" using Cons.prems(2) by auto
  have g: "gives fd (b # bss @ rest) w" using Cons.prems(1) by simp
  obtain w1 where w1: "read_block conn x fd (length b) (ret, a @ drop (length a) buf, length a) w
      = Some (True, (ret + int (length b), (a @ b) @ drop (length (a @ b)) buf, length (a @ b)), w1)"
    "gives fd (bss @ rest) w1"
    using read_block_ok [OF g b(2), of a buf ret] b(1) Cons.prems(3) by auto
  obtain w2 where w2: "read_blocks conn x fd (length bss) (ret + int (length b), (a @ b) @ drop (length (a @ b)) buf, length (a @ b)) w1
      = Some (True, (ret + int (length b) + int (length (concat bss)), ((a @ b) @ concat bss) @ drop (length ((a @ b) @ concat bss)) buf,
           length ((a @ b) @ concat bss)), w2)" "gives fd rest w2"
    using Cons.IH [OF w1(2), of "a @ b" "ret + int (length b)"] Cons.prems(2,3) by auto
  have "read_blocks conn x fd (length (b # bss)) (ret, a @ drop (length a) buf, length a) w
      = Some (True, (ret + int (length b) + int (length (concat bss)), ((a @ b) @ concat bss) @ drop (length ((a @ b) @ concat bss)) buf,
           length ((a @ b) @ concat bss)), w2)"
    using w1(1) w2(1) unfolding b(1) by (simp only: list.size read_blocks.simps option.case prod.case bool.case add_Suc_right add_0_right)
  then show ?case using w2(2) by (intro exI [of _ w2]) (simp add: add.assoc)
qed simp

lemma usb_read_all:
  assumes "gives fd (bss @ (if lst = [] then [] else [lst])) w" "\<forall>b \<in> set bss. length b = HOSTFS_MAX_BLOCK"
    and "length lst < HOSTFS_MAX_BLOCK" "data = concat bss @ lst" "length data \<le> length buf"
  shows "\<exists>w'. usb_read_data conn x fd (Some buf) (int (length data)) w
            = Some (int (length data), data @ drop (length data) buf, w')"
proof (cases "data = []")
  case False
  have c: "length (concat bss) = length bss * HOSTFS_MAX_BLOCK"
    using assms(2) by (induction bss) auto
  have k: "length data div HOSTFS_MAX_BLOCK = length bss" "length data mod HOSTFS_MAX_BLOCK = length lst"
    using assms(3,4) c by simp_all
  obtain w1 where w1: "read_blocks conn x fd (length bss) (0, buf, 0) w
      = Some (True, (int (length (concat bss)), concat bss @ drop (length (concat bss)) buf, length (concat bss)), w1)"
    "gives fd (if lst = [] then [] else [lst]) w1"
    using read_blocks_ok [OF assms(1,2), of "[]" buf 0] assms(4,5) by auto
  show ?thesis
  proof (cases "lst = []")
    case True
    then show ?thesis using w1(1) False k assms(4) by (auto simp: usb_read_data_def Let_def)
  next
    case l: False
    have g: "gives fd [lst] w1" using w1(2) l by simp
    obtain w2 where w2: "read_block conn x fd (length lst) (int (length (concat bss)),
          concat bss @ drop (length (concat bss)) buf, length (concat bss)) w1
        = Some (True, (int (length data), data @ drop (length data) buf, length data), w2)"
      using read_block_ok [OF g l, of "concat bss" buf "int (length (concat bss))"] assms(3,4,5) by auto
    have "length lst \<noteq> 0" using l by simp
    then show ?thesis
      using w1(1) w2 False k by (simp add: usb_read_data_def Let_def)
  qed
qed (auto simp: usb_read_data_def)

end

end
