(* ===== verification/HostLink.thy ===== *)
theory HostLink
  imports Transport HostDriver
begin

text \<open>
  The driver of \<open>HostDriver\<close>, the USB exchange of \<open>Transport\<close> and the server of \<open>HostFs\<close> together: the
  exchange of a command with the server, why the USB exchange gives the same, and what the operations of
  the PSP then do on the PC.
\<close>

section \<open>The answers as bytes\<close>

definition le16 :: "u16 \<Rightarrow> u8 list" where
  "le16 v = [ucast v, ucast (drop_bit 8 v)]"

definition time_bytes :: "io_time \<Rightarrow> u8 list" where
  "time_bytes t = le16 (io_year t) @ le16 (io_month t) @ le16 (io_day t) @ le16 (io_hour t)
                    @ le16 (io_minute t) @ le16 (io_second t) @ to_le32 0"

definition stat_bytes :: "io_stat \<Rightarrow> u8 list" where
  "stat_bytes st = to_le32 (io_mode st) @ to_le32 (io_attr st)
     @ to_le32 (ucast (io_size st)) @ to_le32 (ucast (drop_bit 32 (io_size st)))
     @ time_bytes (io_ctime st) @ time_bytes (io_atime st) @ time_bytes (io_mtime st) @ replicate 24 0"

definition dirent_bytes :: "io_dirent \<Rightarrow> u8 list" where
  "dirent_bytes d = stat_bytes (d_stat d)
     @ take 256 (map (\<lambda>c. of_nat (ccode c)) (d_name d) @ replicate 256 0) @ replicate 8 0"

fun payload_bytes :: "payload \<Rightarrow> u8 list" where
  "payload_bytes (P_bytes bs) = bs"
| "payload_bytes (P_stat st) = stat_bytes st"
| "payload_bytes (P_dirent d) = dirent_bytes d"
| "payload_bytes (P_info i) = host_cmd [btotal i, bfree i, unk i, ssize i, sects i]"

fun block_bytes :: "usb_block \<Rightarrow> u8 list" where
  "block_bytes (Magic m) = to_le32 m"
| "block_bytes (Resp m c ext res ofs) = host_cmd ([m, c, ext] @ case_option [] (\<lambda>r. [r]) res
     @ case_option [] (\<lambda>v. [ucast v, ucast (drop_bit 32 v)]) ofs)"
| "block_bytes (Payload p) = payload_bytes p"

lemma length_payload_bytes: "length (payload_bytes p) = payload_size p"
  by (cases p) (simp_all add: stat_bytes_def dirent_bytes_def time_bytes_def le16_def)

lemma length_block_bytes: "length (block_bytes b) = block_size b"
  by (cases b) (auto simp: length_payload_bytes split: option.splits)

section \<open>An exchange with the server\<close>

text \<open>
  The world is the server and what the system answers during the coming commands. The server handles
  the command with the data sent along; the exchange takes the answer from the bytes it wrote, as
  \<open>command_xchg\<close> does. It does not return when the server does not answer, or leaves the data unread.
\<close>

definition host_xchg :: "(host_os list \<times> hostfs) xchg" where
  "host_xchg cmd resplen out inlen w =
     (case w of (oss, s) \<Rightarrow> case oss of
        [] \<Rightarrow> None
      | os # oss \<Rightarrow>
         (case do_hostfs os cmd (length cmd) s
                 \<lparr>reads = (if out = [] then [] else [Bulk_data out]), wres = [], outs = []\<rparr> of
            None \<Rightarrow> None
          | Some (ret, s, u) \<Rightarrow>
             (let bs = concat (map block_bytes (outs u)); resp = take resplen bs; rest = drop resplen bs;
                  ext = unat (fld resp 8)
              in if reads u \<noteq> [] \<or> length bs < resplen then None
                 else if fld resp 0 \<noteq> HOSTFS_MAGIC \<and> fld resp 4 \<noteq> fld cmd 4 then Some (None, (oss, s))
                 else if 0 < ext \<and> 0 < inlen
                 then (if length rest < ext \<or> inlen < ext then None
                       else Some (Some (resp, take ext rest), (oss, s)))
                 else Some (Some (resp, []), (oss, s)))))"

lemma host_xchg_data:
  assumes "host_xchg cmd n out inlen w = Some (Some (resp, data), w')"
  shows "length resp = n" "fld resp 0 = HOSTFS_MAGIC \<or> fld resp 4 = fld cmd 4" "length data \<le> inlen"
    "0 < inlen \<or> fld resp 8 = 0 \<Longrightarrow> fld resp 8 = of_nat (length data)"
  using assms
  by (auto simp: host_xchg_def Let_def unat_eq_0 split: prod.splits list.splits option.splits if_splits)

text \<open>
  C7: the USB link refines the exchange with the server. When the exchange with the server returns an
  answer and data, \<open>command_xchg\<close> returns 1 with the same answer and data on every link that moves the
  command and its data and delivers those bytes, however it splits them into requests.
\<close>

theorem xchg_refines:
  assumes "host_xchg cmd n out inlen w = Some (Some (resp, data), w')" "0 < n"
    and "0 < inlen \<or> fld resp 8 = 0" "int inlen < 2 ^ 31"
    and "0 \<le> p_sema l" "p_in l = ds1 @ ds2 @ dr" "moves ds1 (length cmd)" "moves ds2 (length out)"
    and "p_out l = rs1 @ rs2 @ rr" "delivers rs1 resp" "delivers rs2 data"
  shows "\<exists>sent. command_xchg l cmd n out inlen
           = Some (1, resp, data, l\<lparr>p_in := dr, p_out := rr, p_sent := p_sent l @ sent\<rparr>)
         \<and> concat sent = cmd @ out"
proof -
  note d = host_xchg_data [OF assms(1)]
  have "resp \<noteq> []" using d(1) assms(2) by auto
  moreover have "int (length data) < 2 ^ 31" using d(3) assms(4) by linarith
  ultimately show ?thesis
    using command_xchg_delivers [OF assms(5-11) _ d(2) d(4) [OF assms(3)] d(3)] d(1) by blast
qed

theorem xchg_refines_witness:
  "\<exists>sent. command_xchg \<lparr>p_sema = 0, p_in = [(0, 0, 5), (0, 0, 7)],
       p_out = [(0, 0, 0, host_cmd [HOSTFS_MAGIC, CMD_HELLO, 0])], p_sent = []\<rparr>
       (host_cmd [HOSTFS_MAGIC, CMD_HELLO, 0]) 12 [] 0
     = Some (1, host_cmd [HOSTFS_MAGIC, CMD_HELLO, 0], [], \<lparr>p_sema = 0, p_in = [], p_out = [], p_sent = sent\<rparr>)
   \<and> concat sent = host_cmd [HOSTFS_MAGIC, CMD_HELLO, 0]"
proof -
  let ?c = "host_cmd [HOSTFS_MAGIC, CMD_HELLO, 0]" and ?i = "[(0, 0, 5), (0, 0, 7)] :: in_done list"
    and ?o = "[(0, 0, 0, host_cmd [HOSTFS_MAGIC, CMD_HELLO, 0])] :: out_done list"
  have x: "host_xchg ?c 12 [] 0 ([os], s) = Some (Some (?c, []), ([], s))" for os s
    by (simp add: host_xchg_def do_hostfs_def fld_cmd handle_hello_def Let_def)
  have "?c \<noteq> []" using length_host_cmd [of "[HOSTFS_MAGIC, CMD_HELLO, 0]"] by (intro notI) simp
  then have d: "delivers ?o ?c" by simp
  show ?thesis
    using xchg_refines [OF x, where l = "\<lparr>p_sema = 0, p_in = ?i, p_out = ?o, p_sent = []\<rparr>"
        and ?ds1.0 = ?i and ?ds2.0 = "[]" and dr = "[]" and ?rs1.0 = ?o and ?rs2.0 = "[]" and rr = "[]"] d
    by (simp add: fld_cmd)
qed

section \<open>Calls of the server by name\<close>

lemma ccode_less: "ccode c < 256"
  by (metis mod_less_divisor of_char_mod_256 zero_less_numeral)

lemma c_string_name_bytes: "no_nul f \<Longrightarrow> c_string (name_bytes f @ stack) = f"
proof -
  assume f: "no_nul f"
  have u: "unat (of_nat (ccode c) :: u8) = ccode c" for c
    using ccode_less [of c] by (simp add: unsigned_of_nat take_bit_nat_eq_self)
  have nz: "of_nat (ccode c) \<noteq> (0 :: u8)" if "c \<in> set f" for c
  proof
    assume "of_nat (ccode c) = (0 :: u8)"
    then have "ccode c = 0" using u [of c] by simp
    then have "ccode c = ccode (CHR 0x00)" by simp
    then have "c = CHR 0x00" by (rule of_char_eqI)
    then show False using f that by (simp add: no_nul_def)
  qed
  have t: "takeWhile (\<lambda>b. b \<noteq> 0) (name_bytes f @ stack) = map (\<lambda>c. of_nat (ccode c)) f"
    using nz unfolding name_bytes_def append_assoc by (subst takeWhile_append2) auto
  show ?thesis unfolding c_string_def t by (simp add: comp_def u)
qed

text \<open>The answer of a command with a path whose handler computes a result and a new server with \<open>g\<close>.\<close>

lemma fld_host_cmd_len: "fld (host_cmd (a # b # c # ws)) 8 = c"
  by (rule fld_cmd)

lemma path_request_rpc:
  assumes "\<And>u. do_hostfs os cmd (length cmd) s u = path_request os (length cmd) cmd (length cmd) s u
      (\<lambda>data u. let (res, s) = g data; (ret, u) = respond c res u in Some (ret, s, u))"
    and "extralen cmd = of_nat (length out)" "out \<noteq> []" "length out \<le> HOSTFS_PATHMAX"
  shows "result_call (\<lambda>_. True) host_xchg cmd out 0 (os # oss, s)
           = Some (sint (fst (g out)), [], (oss, snd (g out)))"
proof -
  obtain res s' where g: "g out = (res, s')" by (cases "g out")
  have l: "sint (extralen cmd) = int (length out)" "extralen cmd \<noteq> 0"
  proof -
    show n: "sint (extralen cmd) = int (length out)"
      unfolding assms(2) using assms(4) by (intro sint_of_length) simp
    show "extralen cmd \<noteq> 0" using n assms(3) by (cases out) auto
  qed
  let ?u = "\<lparr>reads = [Bulk_data out], wres = [], outs = []\<rparr>"
  let ?r = "Resp HOSTFS_MAGIC c 0 (Some res) None"
  have h: "do_hostfs os cmd (length cmd) s ?u = Some (16, s', \<lparr>reads = [], wres = [], outs = [?r]\<rparr>)"
    unfolding assms(1) using l assms(2,4) g by (simp add: path_request_def bulk_read_def respond_ok)
  have b: "concat (map block_bytes [?r]) = host_cmd [HOSTFS_MAGIC, c, 0, res]" by simp
  show ?thesis
    using h assms(3) g
    by (simp add: result_call_def host_call_def host_xchg_def Let_def fld_cmd resp_res_def)
qed

text \<open>What \<open>handle_remove\<close> and \<open>handle_mkdir\<close> do with a name.\<close>

definition serve_path :: "host_os \<Rightarrow> hostfs \<Rightarrow> u32 \<Rightarrow> string \<Rightarrow> (string \<Rightarrow> errno option) \<Rightarrow> (string \<Rightarrow> fs_call) \<Rightarrow> u32 \<times> hostfs" where
  "serve_path os s drive f call lg =
     (case host_path os s drive f False of
        None \<Rightarrow> (-1, s)
      | Some full \<Rightarrow> (call_result (call full), log (lg full) s))"

lemma io_remove_rpc:
  assumes "no_nul f" "length f < HOSTFS_PATHMAX"
  shows "io_remove (\<lambda>_. True) host_xchg fs (Some f) (os # oss, s)
    = (case serve_path os s fs f (os_unlink os) Call_unlink of (res, s') \<Rightarrow> Some (sint res, [], (oss, s')))"
proof -
  let ?cmd = "host_cmd [HOSTFS_MAGIC, CMD_REMOVE, of_nat (length f + 1), fs]"
  let ?g = "\<lambda>data. serve_path os s fs (c_string (data @ os_stack os)) (os_unlink os) Call_unlink"
  have "do_hostfs os ?cmd (length ?cmd) s u = path_request os (length ?cmd) ?cmd (length ?cmd) s u
      (\<lambda>data u. let (res, s) = ?g data; (ret, u) = respond CMD_REMOVE res u in Some (ret, s, u))" for u
    by (simp add: do_hostfs_def handle_remove_def fld_cmd serve_path_def)
  from path_request_rpc [OF this, of "name_bytes f"] show ?thesis
    using assms by (simp add: io_remove_def fld_cmd c_string_name_bytes split: prod.splits) (simp add: name_bytes_def)
qed

lemma io_mkdir_rpc:
  assumes "no_nul f" "length f < HOSTFS_PATHMAX"
  shows "io_mkdir (\<lambda>_. True) host_xchg fs (Some f) mode (os # oss, s)
    = (case serve_path os s fs f (\<lambda>p. os_mkdir os p mode) (\<lambda>p. Call_mkdir p mode) of (res, s') \<Rightarrow> Some (sint res, [], (oss, s')))"
proof -
  let ?cmd = "host_cmd [HOSTFS_MAGIC, CMD_MKDIR, of_nat (length f + 1), mode, fs]"
  let ?g = "\<lambda>data. serve_path os s fs (c_string (data @ os_stack os)) (\<lambda>p. os_mkdir os p mode) (\<lambda>p. Call_mkdir p mode)"
  have "do_hostfs os ?cmd (length ?cmd) s u = path_request os (length ?cmd) ?cmd (length ?cmd) s u
      (\<lambda>data u. let (res, s) = ?g data; (ret, u) = respond CMD_MKDIR res u in Some (ret, s, u))" for u
    by (simp add: do_hostfs_def fld_cmd) (simp only: handle_mkdir_def fld_cmd serve_path_def Let_def)
  from path_request_rpc [OF this, of "name_bytes f"] show ?thesis
    using assms by (simp add: io_mkdir_def fld_cmd c_string_name_bytes split: prod.splits) (simp add: name_bytes_def)
qed

lemma io_open_rpc:
  assumes "no_nul f" "length f < HOSTFS_PATHMAX"
  shows "io_open_host (\<lambda>_. True) host_xchg fs (Some f) mode mk (os # oss, s)
    = (case open_file os fs f mode mk s of (res, s') \<Rightarrow> Some (open_result (sint res, [], (oss, s'))))"
proof -
  let ?cmd = "host_cmd [HOSTFS_MAGIC, CMD_OPEN, of_nat (length f + 1), mode, mk, fs]"
  let ?g = "\<lambda>data. open_file os fs (c_string (data @ os_stack os)) mode mk s"
  have "do_hostfs os ?cmd (length ?cmd) s u = path_request os (length ?cmd) ?cmd (length ?cmd) s u
      (\<lambda>data u. let (res, s) = ?g data; (ret, u) = respond CMD_OPEN res u in Some (ret, s, u))" for u
    by (simp add: do_hostfs_def handle_open_def fld_cmd)
  from path_request_rpc [OF this, of "name_bytes f"] show ?thesis
    using assms by (simp add: io_open_host_def fld_cmd c_string_name_bytes split: prod.splits) (simp add: name_bytes_def)
qed

lemma c_string_two:
  assumes "no_nul f" "no_nul g"
  shows "c_string (drop (length f + 1) ((name_bytes f @ name_bytes g) @ rest)) = g"
proof -
  have "drop (length f + 1) ((name_bytes f @ name_bytes g) @ rest) = name_bytes g @ rest"
    by (simp add: name_bytes_def)
  then show ?thesis using c_string_name_bytes [OF assms(2)] by simp
qed

definition serve_rename :: "host_os \<Rightarrow> hostfs \<Rightarrow> u32 \<Rightarrow> string \<Rightarrow> string \<Rightarrow> u32 \<times> hostfs" where
  "serve_rename os s drive f g =
     (case host_path os s drive f False of
        None \<Rightarrow> (-1, s)
      | Some p \<Rightarrow>
         (case host_path os s drive (rename_dest f g) False of
            None \<Rightarrow> (-1, s)
          | Some q \<Rightarrow> (call_result (os_rename os p q), log (Call_rename p q) s)))"

lemma rename_dest_length: "length (rename_dest f g) \<le> length f + length g"
  unfolding rename_dest_def by (auto intro: order_trans [OF length_dropWhile_le])

lemma io_rename_rpc:
  assumes "no_nul f" "no_nul g" "length f + length g + 2 \<le> HOSTFS_RENAME_BUFSIZE"
  shows "io_rename (\<lambda>_. True) host_xchg fs (Some f) (Some g) (os # oss, s)
    = (case serve_rename os s fs f g of (res, s') \<Rightarrow> Some (sint res, [], (oss, s')))"
proof -
  let ?n = "length f + length g + 2" and ?out = "name_bytes f @ name_bytes g"
  let ?cmd = "host_cmd [HOSTFS_MAGIC, CMD_RENAME, of_nat ?n, fs]"
  have l: "length ?out = ?n" by simp
  have e: "sint (of_nat ?n :: u32) = int ?n" "(of_nat ?n :: u32) \<noteq> 0"
  proof -
    show n: "sint (of_nat ?n :: u32) = int ?n" using assms(3) by (intro sint_of_length) simp
    show "(of_nat ?n :: u32) \<noteq> 0" 
    proof
      assume "(of_nat ?n :: u32) = 0"
      then have "int ?n = 0" using n by (simp only: sint_0)
      then show False by simp
    qed
  qed
  obtain res s' where r: "serve_rename os s fs f g = (res, s')" by (cases "serve_rename os s fs f g")
  let ?u = "\<lparr>reads = [Bulk_data ?out], wres = [], outs = []\<rparr>"
  let ?b = "?out @ replicate (HOSTFS_PATHMAX - length ?out) 0 @ os_stack os"
  have c: "c_string ?b = f" "c_string (drop (length f + 1) ?b) = g"
    using c_string_name_bytes [OF assms(1)] c_string_two [OF assms(1,2)] by (simp_all only: append_assoc)
  have d: "length (rename_dest f g) < PATH_MAX"
    using rename_dest_length [of f g] assms(3) by (simp add: PATH_MAX_def)
  have b: "bulk_read (int ?n) ?u = (int ?n, ?out, \<lparr>reads = [], wres = [], outs = []\<rparr>)"
    by (simp add: bulk_read_def)
  have p: "path_request os 16 ?cmd 16 s ?u body = body ?out \<lparr>reads = [], wres = [], outs = []\<rparr>" for body
    unfolding path_request_def fld_cmd e(1) b using e(2) assms(3) by simp
  have dh: "do_hostfs os ?cmd 16 s ?u = handle_rename os ?cmd 16 s ?u"
    by (simp add: do_hostfs_def fld_cmd)
  have h: "do_hostfs os ?cmd 16 s ?u
      = Some (16, s', \<lparr>reads = [], wres = [], outs = [Resp HOSTFS_MAGIC CMD_RENAME 0 (Some res) None]\<rparr>)"
    unfolding dh handle_rename_def p Let_def c fld_cmd
    using r d by (simp add: respond_ok serve_rename_def)
  show ?thesis
    using h r assms(3)
    by (simp add: io_rename_def result_call_def host_call_def host_xchg_def Let_def fld_cmd resp_res_def)
      (simp add: name_bytes_def)
qed

text \<open>
  C6: the file operations of the PSP are calls of the server's functions. Over an exchange with the
  server, opening, creating a directory, removing and renaming do on the PC exactly what \<open>open_file\<close>,
  \<open>mkdir\<close>, \<open>unlink\<close> and \<open>rename\<close> do there for the same names, and return that result: the names arrive as
  they were given, in the command and the fields in which the server looks for them.
\<close>

theorem host_operations_rpc:
  assumes "no_nul f" "no_nul g" "length f + length g + 2 \<le> HOSTFS_RENAME_BUFSIZE"
  shows "io_open_host (\<lambda>_. True) host_xchg fs (Some f) mode mk (os # oss, s)
      = (case open_file os fs f mode mk s of (res, s') \<Rightarrow> Some (open_result (sint res, [], (oss, s'))))
    \<and> io_mkdir (\<lambda>_. True) host_xchg fs (Some f) mode (os # oss, s)
      = (case serve_path os s fs f (\<lambda>p. os_mkdir os p mode) (\<lambda>p. Call_mkdir p mode) of
           (res, s') \<Rightarrow> Some (sint res, [], (oss, s')))
    \<and> io_remove (\<lambda>_. True) host_xchg fs (Some f) (os # oss, s)
      = (case serve_path os s fs f (os_unlink os) Call_unlink of (res, s') \<Rightarrow> Some (sint res, [], (oss, s')))
    \<and> io_rename (\<lambda>_. True) host_xchg fs (Some f) (Some g) (os # oss, s)
      = (case serve_rename os s fs f g of (res, s') \<Rightarrow> Some (sint res, [], (oss, s')))"
  using assms by (intro conjI io_open_rpc io_mkdir_rpc io_remove_rpc io_rename_rpc) simp_all

theorem host_operations_rpc_witness:
  "\<forall>os. io_remove (\<lambda>_. True) host_xchg 0 (Some ''x'')
       ([os\<lparr>os_flags := \<lparr>g_nocase = False, g_msslash = False\<rparr>, os_unlink := (\<lambda>_. None)\<rparr>],
        \<lparr>open_files = [], open_dirs = [], bulkfd = -1, drives = [\<lparr>rootdir = ''/r'', currdir = ''/d''\<rparr>], calls = []\<rparr>)
     = Some (0, [], ([], \<lparr>open_files = [], open_dirs = [], bulkfd = -1,
         drives = [\<lparr>rootdir = ''/r'', currdir = ''/d''\<rparr>], calls = [Call_unlink ''/r/dx'']\<rparr>))"
proof
  fix os :: host_os
  let ?os = "os\<lparr>os_flags := \<lparr>g_nocase = False, g_msslash = False\<rparr>, os_unlink := (\<lambda>_. None)\<rparr>"
  let ?s = "\<lparr>open_files = [], open_dirs = [], bulkfd = -1, drives = [\<lparr>rootdir = ''/r'', currdir = ''/d''\<rparr>], calls = []\<rparr>"
  have m: "make_path ls \<lparr>g_nocase = False, g_msslash = False\<rparr> [\<lparr>rootdir = ''/r'', currdir = ''/d''\<rparr>] 0 ''x'' False
      = Some ''/r/dx''" for ls
    by (simp add: make_path_def MAX_HOSTDRIVES_def PATH_MAX_def Let_def gen_path_def) code_simp
  have "serve_path ?os ?s 0 ''x'' (os_unlink ?os) Call_unlink = (0, ?s\<lparr>calls := [Call_unlink ''/r/dx'']\<rparr>)"
    by (simp add: serve_path_def host_path_def m call_result_def log_def)
  then show "io_remove (\<lambda>_. True) host_xchg 0 (Some ''x'') ([?os], ?s)
     = Some (0, [], ([], \<lparr>open_files = [], open_dirs = [], bulkfd = -1,
         drives = [\<lparr>rootdir = ''/r'', currdir = ''/d''\<rparr>], calls = [Call_unlink ''/r/dx'']\<rparr>))"
    using host_operations_rpc [of "''x''" "''y''" 0 0 0 ?os "[]" ?s] by simp
qed

section \<open>The server as a file of the driver\<close>

text \<open>Systems whose answers take blocks of the given lengths, and ones that give the given blocks.\<close>

fun taking :: "host_os list \<Rightarrow> nat list \<Rightarrow> bool" where
  "taking oss [] = True"
| "taking [] (n # ns) = False"
| "taking (os # oss) (n # ns) = (list_all plain_write (os_write os) \<and> taken (os_write os) = n \<and> taking oss ns)"

fun giving :: "host_os list \<Rightarrow> u8 list list \<Rightarrow> bool" where
  "giving oss [] = True"
| "giving [] (b # bs) = False"
| "giving (os # oss) (b # bs) = (fixed_read (os_read os) (length b) [] = Some (of_nat (length b), b) \<and> giving oss bs)"

definition fd_open :: "u32 \<Rightarrow> hostfs \<Rightarrow> bool" where
  "fd_open fd s \<longleftrightarrow> unat fd < MAX_FILES \<and> f_opened (open_files s ! unat fd)"

definition host_takes :: "u32 \<Rightarrow> nat list \<Rightarrow> host_os list \<times> hostfs \<Rightarrow> bool" where
  "host_takes fd ns w \<longleftrightarrow> fd_open fd (snd w) \<and> taking (fst w) ns"

definition host_gives :: "u32 \<Rightarrow> u8 list list \<Rightarrow> host_os list \<times> hostfs \<Rightarrow> bool" where
  "host_gives fd bs w \<longleftrightarrow> fd_open fd (snd w) \<and> giving (fst w) bs"

text \<open>All that was written to a descriptor.\<close>

fun writes_to :: "nat \<Rightarrow> fs_call list \<Rightarrow> u8 list" where
  "writes_to fd [] = []"
| "writes_to fd (Call_write f bs # cs) = (if f = fd then bs else []) @ writes_to fd cs"
| "writes_to fd (c # cs) = writes_to fd cs"

lemma writes_to_append [simp]: "writes_to fd (cs @ ds) = writes_to fd cs @ writes_to fd ds"
  by (induction fd cs rule: writes_to.induct) simp_all

definition host_written :: "u32 \<Rightarrow> host_os list \<times> hostfs \<Rightarrow> u8 list" where
  "host_written fd w = writes_to (unat fd) (calls (snd w))"

lemma fd_open_sint:
  assumes "fd_open fd s"
  shows "sint fd = uint fd" "uint fd < 256" "f_opened (open_files s ! unat fd)"
proof -
  have u: "unat fd < 256" using assms by (simp add: fd_open_def)
  then have "int (unat fd) < 256" by linarith
  then show b: "uint fd < 256" by simp
  then have "int (unat fd) < 2 ^ 31" by simp
  from sint_of_length [OF this] show "sint fd = uint fd" by simp
  show "f_opened (open_files s ! unat fd)" using assms by (simp add: fd_open_def)
qed

lemma sint_block: "n \<le> HOSTFS_MAX_BLOCK \<Longrightarrow> sint (of_nat n :: u32) = int n"
  by (rule sint_of_length) simp

lemma of_nat_block: "0 < n \<Longrightarrow> n \<le> HOSTFS_MAX_BLOCK \<Longrightarrow> (of_nat n :: u32) \<noteq> 0 \<and> unat (of_nat n :: u32) = n"
  by (simp add: unsigned_of_nat take_bit_nat_eq_self word_of_nat_eq_0_iff dvd_imp_le) (auto dest: dvd_imp_le)

interpretation host_server: host_file "\<lambda>_. True" host_xchg host_takes host_written host_gives
proof (unfold_locales, goal_cases)
  case (1 fd bs ns w)
  obtain oss s where w: "w = (oss, s)" by (cases w)
  obtain os oss' where o: "oss = os # oss'" "list_all plain_write (os_write os)" "taken (os_write os) = length bs"
    "taking oss' ns" using 1(1) w by (cases oss) (auto simp: host_takes_def)
  have fd: "fd_open fd s" using 1(1) w by (simp add: host_takes_def)
  let ?cmd = "host_cmd [HOSTFS_MAGIC, CMD_WRITE, of_nat (length bs), fd]"
  have n: "0 < length bs" using 1(2) by simp
  note b = of_nat_block [OF n 1(3)]
  let ?r = "Resp HOSTFS_MAGIC CMD_WRITE 0 (Some (of_nat (length bs))) None"
  have r: "bulk_read (int (length bs)) \<lparr>reads = [Bulk_data bs], wres = [], outs = []\<rparr>
      = (int (length bs), bs, \<lparr>reads = [], wres = [], outs = []\<rparr>)" by (simp add: bulk_read_def)
  have h: "do_hostfs os ?cmd (length ?cmd) s \<lparr>reads = [Bulk_data bs], wres = [], outs = []\<rparr>
      = Some (16, log (Call_write (unat fd) bs) s, \<lparr>reads = [], wres = [], outs = [?r]\<rparr>)"
    using b 1(3) fixed_write_all_gen [OF o(2,3), of 0]
    by (simp add: do_hostfs_def fld_cmd handle_write_def Let_def sint_block r fd_open_sint [OF fd] respond_ok)
  show ?case
    using h 1(2,3) fd o(1,4) w
    by (simp add: host_xchg_def Let_def fld_cmd resp_res_def sint_block host_written_def host_takes_def fd_open_def)
next
  case (2 fd bs bss w)
  obtain oss s where w: "w = (oss, s)" by (cases w)
  obtain os oss' where o: "oss = os # oss'" "fixed_read (os_read os) (length bs) [] = Some (of_nat (length bs), bs)"
    "giving oss' bss" using 2(1) w by (cases oss) (auto simp: host_gives_def)
  have fd: "fd_open fd s" using 2(1) w by (simp add: host_gives_def)
  let ?cmd = "host_cmd [HOSTFS_MAGIC, CMD_READ, 0, fd, of_nat (length bs)]"
  have n: "0 < length bs" using 2(2) by simp
  note b = of_nat_block [OF n 2(3)]
  let ?r = "Resp HOSTFS_MAGIC CMD_READ (of_nat (length bs)) (Some (of_nat (length bs))) None"
  have h: "\<exists>ret. do_hostfs os ?cmd (length ?cmd) s \<lparr>reads = [], wres = [], outs = []\<rparr>
      = Some (ret, log (Call_read (unat fd) (of_nat (length bs))) s,
              \<lparr>reads = [], wres = [], outs = [?r, Payload (P_bytes bs)]\<rparr>)"
    using b 2(3) o(2) n
    by (simp add: do_hostfs_def fld_cmd handle_read_def Let_def sint_block fd_open_sint [OF fd] respond_data_def)
  show ?case
    using h 2(2,3) fd o(1,3) w b n
    by (auto simp: host_xchg_def Let_def fld_cmd resp_res_def sint_block host_gives_def fd_open_def)
qed

lemma pieces_eq: "host_server.pieces n = replicate (n div HOSTFS_MAX_BLOCK) HOSTFS_MAX_BLOCK
     @ (if n mod HOSTFS_MAX_BLOCK = 0 then [] else [n mod HOSTFS_MAX_BLOCK])"
  by (rule host_server.pieces_def)

text \<open>
  C4: writing a file of the PC. A write of any length by a PSP program to a descriptor that the server
  has open, with a system that takes each block (in as many calls and with as many interruptions as
  it likes), returns the length, and what the server has written to the descriptor grows by exactly
  the data, in order.
\<close>

theorem host_write_all:
  assumes "unat fd < MAX_FILES" "f_opened (open_files s ! unat fd)"
    and "taking oss (replicate (length data div HOSTFS_MAX_BLOCK) HOSTFS_MAX_BLOCK
           @ (if length data mod HOSTFS_MAX_BLOCK = 0 then [] else [length data mod HOSTFS_MAX_BLOCK]))"
  shows "\<exists>oss' s'. usb_write_data (\<lambda>_. True) host_xchg fd (Some data) (int (length data)) (oss, s)
              = Some (int (length data), (oss', s'))
            \<and> writes_to (unat fd) (calls s') = writes_to (unat fd) (calls s) @ data"
proof -
  have "host_takes fd (host_server.pieces (length data)) (oss, s)"
    using assms by (simp add: host_takes_def fd_open_def pieces_eq)
  from host_server.usb_write_all [OF this] show ?thesis
    by (auto simp: host_written_def)
qed

theorem host_write_all_witness:
  "\<forall>os. \<exists>oss' s'. usb_write_data (\<lambda>_. True) host_xchg 3 (Some [1, 2, 3]) 3
       ([os\<lparr>os_write := [Wrote 1, Write_intr, Wrote 2]\<rparr>],
        \<lparr>open_files = replicate 4 \<lparr>f_opened = True, f_mode = 0, f_name = None\<rparr>, open_dirs = [], bulkfd = -1, drives = [], calls = []\<rparr>)
      = Some (3, (oss', s')) \<and> writes_to 3 (calls s') = [1, 2, 3]"
proof
  fix os :: host_os
  let ?s = "\<lparr>open_files = replicate 4 \<lparr>f_opened = True, f_mode = 0, f_name = None\<rparr>, open_dirs = [], bulkfd = -1, drives = [], calls = []\<rparr>"
  show "\<exists>oss' s'. usb_write_data (\<lambda>_. True) host_xchg 3 (Some [1, 2, 3]) 3
       ([os\<lparr>os_write := [Wrote 1, Write_intr, Wrote 2]\<rparr>], ?s)
      = Some (3, (oss', s')) \<and> writes_to 3 (calls s') = [1, 2, 3]"
    using host_write_all [of 3 ?s "[os\<lparr>os_write := [Wrote 1, Write_intr, Wrote 2]\<rparr>]" "[1, 2, 3]"] by simp
qed

text \<open>
  C5: reading a file of the PC. A read into a buffer of a PSP program from a descriptor that the server
  has open, with a system that gives the blocks asked for (in as many calls and with as many
  interruptions as it likes), returns the length and stores exactly those bytes at the beginning of the
  buffer, the rest of which is unchanged.
\<close>

theorem host_read_all:
  assumes "unat fd < MAX_FILES" "f_opened (open_files s ! unat fd)"
    and "giving oss (bss @ (if lst = [] then [] else [lst]))"
    and "\<forall>b \<in> set bss. length b = HOSTFS_MAX_BLOCK" "length lst < HOSTFS_MAX_BLOCK"
    and "data = concat bss @ lst" "length data \<le> length buf"
  shows "\<exists>w'. usb_read_data (\<lambda>_. True) host_xchg fd (Some buf) (int (length data)) (oss, s)
              = Some (int (length data), data @ drop (length data) buf, w')"
proof -
  have "host_gives fd (bss @ (if lst = [] then [] else [lst])) (oss, s)"
    using assms(1-3) by (simp add: host_gives_def fd_open_def)
  from host_server.usb_read_all [OF this assms(4-7)] show ?thesis .
qed

theorem host_read_all_witness:
  "\<forall>os. \<exists>w'. usb_read_data (\<lambda>_. True) host_xchg 3 (Some [0, 0, 0, 0]) 3
       ([os\<lparr>os_read := [Got [7], Read_intr, Got [8, 9]]\<rparr>],
        \<lparr>open_files = replicate 4 \<lparr>f_opened = True, f_mode = 0, f_name = None\<rparr>, open_dirs = [], bulkfd = -1, drives = [], calls = []\<rparr>)
      = Some (3, [7, 8, 9, 0], w')"
proof
  fix os :: host_os
  let ?s = "\<lparr>open_files = replicate 4 \<lparr>f_opened = True, f_mode = 0, f_name = None\<rparr>, open_dirs = [], bulkfd = -1, drives = [], calls = []\<rparr>"
  have "fixed_read [Got [7], Read_intr, Got [8, 9]] 3 [] = Some (3, [7, 8, 9])" by code_simp
  then show "\<exists>w'. usb_read_data (\<lambda>_. True) host_xchg 3 (Some [0, 0, 0, 0]) 3
       ([os\<lparr>os_read := [Got [7], Read_intr, Got [8, 9]]\<rparr>], ?s) = Some (3, [7, 8, 9, 0], w')"
    using host_read_all [of 3 ?s "[os\<lparr>os_read := [Got [7], Read_intr, Got [8, 9]]\<rparr>]" "[]" "[7, 8, 9]" _ "[0, 0, 0, 0]"]
    by simp
qed

end
