(* ===== verification/ShellCli.thy ===== *)
theory ShellCli
  imports Shell
begin

text \<open>
  \<open>psplink/shell.c\<close>: the editor of the command line with its history, the loop that feeds it characters, the
  start of the shell and the thread that takes the lines. The characters that \<open>g_readchar\<close> and
  \<open>g_readcharwithtimeout\<close> return are one list of integers (\<open>-1\<close>: no character in time); \<open>send\<close> gives the
  result of \<open>psplinkParseCommand\<close> for a line.

  A message holds a pointer to the line, not a copy. The model takes the line as it is when it is sent.
\<close>

section \<open>The editor\<close>

abbreviation CLI_MAX :: nat where "CLI_MAX \<equiv> 128"
abbreviation CLI_HISTSIZE :: nat where "CLI_HISTSIZE \<equiv> 8"

record cli =
  g_lastcli :: "string list"
  g_cli :: string
  g_cli_pos :: nat
  g_cli_size :: nat
  g_lastcli_pos :: nat
  g_currcli_pos :: nat

datatype cli_event =
  Echo string
| Sent string
| Prompt
| DebugStep bool
| PsplinkReset

definition cli_start :: cli where
  "cli_start = \<lparr>g_lastcli = replicate CLI_HISTSIZE (replicate CLI_MAX CHR 0x00), g_cli = replicate CLI_MAX CHR 0x00,
     g_cli_pos = 0, g_cli_size = 0, g_lastcli_pos = 0, g_currcli_pos = 0\<rparr>"

definition process_cli :: "(string \<Rightarrow> int) \<Rightarrow> cli \<Rightarrow> int \<times> cli \<times> cli_event list" where
  "process_cli send s =
     (let line = (g_cli s)[g_cli_pos s := CHR 0x00];
          last_pos = (g_lastcli_pos s + 1) mod CLI_HISTSIZE;
          s = s\<lparr>g_cli := line, g_cli_pos := 0, g_lastcli := (g_lastcli s)[g_lastcli_pos s := line],
                g_lastcli_pos := last_pos, g_currcli_pos := last_pos\<rparr>;
          ret = send (cstr line)
      in (ret, s, [Echo [CHR 0x0D, CHR 0x0A], Sent (cstr line)] @ (if ret \<noteq> CMD_EXITSHELL then [Prompt] else [])))"

text \<open>The next character, as the \<open>char\<close> it is stored in.\<close>

definition as_char :: "int \<Rightarrow> int" where
  "as_char ch = (if 127 < ch then ch - 256 else ch)"

fun next_char :: "int list \<Rightarrow> int \<times> int list" where
  "next_char [] = (-1, [])"
| "next_char (c # cs) = (as_char c, cs)"

text \<open>A line of the history becomes the current one.\<close>

definition recall :: "nat \<Rightarrow> cli \<Rightarrow> cli \<times> cli_event list" where
  "recall pos s =
     (let src = cstr (g_lastcli s ! pos)
      in if src \<noteq> []
         then (s\<lparr>g_currcli_pos := pos, g_cli_pos := length src, g_cli_size := length src,
                 g_cli := src @ CHR 0x00 # drop (length src + 1) (g_cli s)\<rparr>,
               [Echo [CHR 0x0A], Prompt, Echo src])
         else (s, []))"

definition pos_up :: "nat \<Rightarrow> nat" where
  "pos_up pos = nat (let p = int pos - 1 in if p < 0 then p + int CLI_HISTSIZE else p)"

definition pos_down :: "nat \<Rightarrow> nat" where
  "pos_down pos = (pos + 1) mod CLI_HISTSIZE"

definition unknown_char :: "int \<Rightarrow> cli_event" where
  "unknown_char ch = Echo (''Unknown character '' @ dec_int ch)"

definition cli_handle_escape :: "int list \<Rightarrow> cli \<Rightarrow> int list \<times> cli \<times> cli_event list" where
  "cli_handle_escape cs s =
     (let (ch, cs) = next_char cs
      in if ch \<noteq> -1
         then if ch = 91
              then let (ch, cs) = next_char cs
                   in (cs, if ch = 65 then recall (pos_up (g_currcli_pos s)) s
                              else if ch = 66 then recall (pos_down (g_currcli_pos s)) s
                              else (s, [unknown_char ch]))
              else (cs, s, [unknown_char ch])
         else (cs, s, []))"

text \<open>The cases of \<open>shellProcessChar\<close> that change the line.\<close>

definition back_char :: "cli \<Rightarrow> cli" where
  "back_char s = s\<lparr>g_cli_pos := g_cli_pos s - 1, g_cli := (g_cli s)[g_cli_pos s - 1 := CHR 0x00]\<rparr>"

definition add_char :: "char \<Rightarrow> cli \<Rightarrow> cli" where
  "add_char c s =
     s\<lparr>g_cli := (g_cli s)[g_cli_pos s := c, g_cli_pos s + 1 := CHR 0x00], g_cli_pos := g_cli_pos s + 1\<rparr>"

definition shellProcessChar :: "(string \<Rightarrow> int) \<Rightarrow> int \<Rightarrow> int list \<Rightarrow> cli \<Rightarrow> bool \<times> int list \<times> cli \<times> cli_event list" where
  "shellProcessChar send ch cs s =
     (if ch = -1 then (False, cs, s, [])
      else if ch = 4 then (True, cs, s, [Echo ''Exiting Shell''])
      else if ch = 8 \<or> ch = 127 then
        (if 0 < g_cli_pos s
         then (False, cs, back_char s, [Echo [CHR 0x08, CHR '' '', CHR 0x08]])
         else (False, cs, s, []))
      else if ch = 9 then (False, cs, s, [])
      else if ch = 13 \<or> ch = 10 then
        (let (ret, s, ev) = process_cli send s in (ret = CMD_EXITSHELL, cs, s, ev))
      else if ch = 11 then (False, cs, s, [DebugStep True])
      else if ch = 18 then (False, cs, s, [PsplinkReset])
      else if ch = 19 then (False, cs, s, [DebugStep False])
      else if ch = 27 then (let (cs, s, ev) = cli_handle_escape cs s in (False, cs, s, ev))
      else if g_cli_pos s < CLI_MAX - 1 \<and> 32 \<le> ch
      then (False, cs, add_char (char_of (nat ch)) s, [Echo [char_of (nat ch)]])
      else (False, cs, s, []))"

text \<open>The loop of \<open>shellStart\<close> without a terminal, up to the end of what there is to read.\<close>

lemma next_char_length: "length (snd (next_char cs)) \<le> length cs"
  by (cases cs) simp_all

lemma escape_length: "length (fst (cli_handle_escape cs s)) \<le> length cs"
  using next_char_length [of cs] next_char_length [of "snd (next_char cs)"]
  by (auto simp: cli_handle_escape_def Let_def split_beta)

lemma process_length: "length (fst (snd (shellProcessChar send ch cs s))) \<le> length cs"
  using escape_length [of cs s] by (simp add: shellProcessChar_def Let_def split_beta)

function shell_loop :: "(string \<Rightarrow> int) \<Rightarrow> int list \<Rightarrow> cli \<Rightarrow> bool \<times> cli \<times> cli_event list" where
  "shell_loop send [] s = (False, s, [])"
| "shell_loop send (ch # cs) s =
     (let (exit_shell, cs', s, ev) = shellProcessChar send ch cs s
      in if exit_shell then (True, s, ev)
         else let (x, s, evs) = shell_loop send cs' s in (x, s, ev @ evs))"
  by pat_completeness auto
termination
proof (relation "measure (\<lambda>(send, cs, s). length cs)", goal_cases)
  case (2 send ch cs s x exit_shell y cs' z s' ev)
  then show ?case using process_length [of send ch cs s] by (metis fst_conv in_measure le_imp_less_Suc length_Cons prod.case snd_conv)
qed simp

definition shellStart_cli :: "(string \<Rightarrow> int) \<Rightarrow> int list \<Rightarrow> cli \<Rightarrow> bool \<times> cli \<times> cli_event list" where
  "shellStart_cli send cs s =
     (let (x, s, ev) = shell_loop send cs (s\<lparr>g_cli_pos := 0, g_cli_size := 0, g_cli := replicate CLI_MAX CHR 0x00\<rparr>)
      in (x, s, Prompt # ev))"

text \<open>With a terminal the line comes edited: a buffer of 1024 bytes of its own, \<open>line\<close> is what it holds.\<close>

fun pcterm_loop :: "(string \<Rightarrow> int) \<Rightarrow> int list \<Rightarrow> string \<Rightarrow> bool \<times> string \<times> cli_event list" where
  "pcterm_loop send [] line = (False, line, [])"
| "pcterm_loop send (ch # cs) line =
     (if ch = 10 \<or> ch = 13 then
        (let ret = send line
         in if ret \<noteq> CMD_EXITSHELL
            then let (x, l, ev) = pcterm_loop send cs [] in (x, l, [Sent line, Prompt] @ ev)
            else (True, line, [Sent line]))
      else let (line, e) = (if ch = 11 then (line, [DebugStep True])
                            else if ch = 18 then (line, [PsplinkReset])
                            else if ch = 19 then (line, [DebugStep False])
                            else if 32 \<le> ch \<and> length line < 1024 - 1 then (line @ [char_of (nat ch)], [])
                            else (line, []));
               (x, l, ev) = pcterm_loop send cs line
           in (x, l, e @ ev))"

definition shellStart :: "bool \<Rightarrow> (string \<Rightarrow> int) \<Rightarrow> int list \<Rightarrow> cli \<Rightarrow> bool \<times> cli \<times> cli_event list" where
  "shellStart pc send cs s =
     (if pc then let (x, line, ev) = pcterm_loop send cs [] in (x, s, Prompt # ev)
      else shellStart_cli send cs s)"

section \<open>The thread that takes the lines\<close>

text \<open>
  \<open>psplinkParseCommand\<close> puts the line into the message box; its result is that of the kernel
  (\<open>sceKernelSendMbx\<close>).
\<close>

definition psplinkParseCommand :: "int \<Rightarrow> string \<Rightarrow> string list \<Rightarrow> int \<times> string list" where
  "psplinkParseCommand ret command box = (ret, if 0 \<le> ret then box @ [command] else box)"

text \<open>
  One message. \<open>jump\<close> is the state in which an exception in the command came back to \<open>setjmp\<close>, if
  one did. The result is \<open>msg->res\<close>.
\<close>

definition handle_msg :: "'x world \<Rightarrow> nat \<Rightarrow> 'x shell option \<Rightarrow> string \<Rightarrow> 'x shell \<Rightarrow> int \<times> 'x shell option" where
  "handle_msg w d jump command st =
     (let (res, s) = (case jump of None \<Rightarrow> shellParse w d command (Some st) | Some st' \<Rightarrow> (CMD_ERROR, Some st'))
      in (res, map_option (\<lambda>st. say (print_prompt st) st) s))"

text \<open>The thread: the start script, then the messages of the box in order.\<close>

fun handle_msgs :: "'x world \<Rightarrow> nat \<Rightarrow> (nat \<Rightarrow> 'x shell option) \<Rightarrow> nat \<Rightarrow> string list \<Rightarrow> 'x shell option \<Rightarrow> 'x shell option" where
  "handle_msgs w d jumps k [] s = s"
| "handle_msgs w d jumps k (m # box) s =
     (case s of None \<Rightarrow> None | Some st \<Rightarrow> handle_msgs w d jumps (k + 1) box (snd (handle_msg w d (jumps k) m st)))"

definition shellParseThread ::
  "'x world \<Rightarrow> nat \<Rightarrow> (nat \<Rightarrow> 'x shell option) \<Rightarrow> string \<Rightarrow> string list \<Rightarrow> 'x shell \<Rightarrow> 'x shell option" where
  "shellParseThread w d jumps script box st =
     handle_msgs w d jumps 0 box
       (if script \<noteq> []
        then snd (snd (scriptRun (shellParse w d) (w_file w script) None None (w_stale w st) False (Some st)))
        else Some st)"

text \<open>\<open>shellInit\<close>: \<open>thid\<close>, \<open>mbx\<close> and \<open>started\<close> are what the kernel returns.\<close>

definition shellInit ::
  "int \<Rightarrow> int \<Rightarrow> int \<Rightarrow> string \<Rightarrow> string \<Rightarrow> string \<Rightarrow> 'x shell \<Rightarrow> int \<times> 'x shell" where
  "shellInit thid mbx started prompt pathvar init_dir st =
     (let vars = (if prompt \<noteq> [] then snd (set_shell_var ''prompt'' prompt (g_shellvars st)) else g_shellvars st);
          vars = snd (set_shell_var ''path'' pathvar vars);
          st = st\<lparr>g_shellvars := vars, g_currdir := init_dir\<rparr>
      in if thid < 0 \<or> mbx < 0 \<or> started < 0 then (-1, st) else (0, st))"
section \<open>The state stays well formed\<close>

definition cli_ok :: "cli \<Rightarrow> bool" where
  "cli_ok s \<longleftrightarrow> length (g_cli s) = CLI_MAX \<and> g_cli_pos s < CLI_MAX \<and> no_nul (take (g_cli_pos s) (g_cli s)) \<and>
     length (g_lastcli s) = CLI_HISTSIZE \<and> g_lastcli_pos s < CLI_HISTSIZE \<and> g_currcli_pos s < CLI_HISTSIZE \<and>
     (\<forall>h \<in> set (g_lastcli s). length h = CLI_MAX \<and> CHR 0x00 \<in> set h)"

lemma cstr_length: "CHR 0x00 \<in> set h \<Longrightarrow> length (cstr h) < length h"
  by (induction h) (auto simp: cstr_def)

lemma cstr_cut: "no_nul (take n s) \<Longrightarrow> n < length s \<Longrightarrow> cstr (s[n := CHR 0x00]) = take n s"
  by (simp add: upd_conv_take_nth_drop cstr_def no_nul_def takeWhile_append)

lemma process_cli_ok:
  assumes "cli_ok s"
  shows "cli_ok (fst (snd (process_cli send s)))"
proof -
  let ?line = "(g_cli s)[g_cli_pos s := CHR 0x00]"
  have "length ?line = CLI_MAX" "CHR 0x00 \<in> set ?line" using assms by (simp_all add: cli_ok_def set_update_memI)
  then have "\<forall>h \<in> set ((g_lastcli s)[g_lastcli_pos s := ?line]). length h = CLI_MAX \<and> CHR 0x00 \<in> set h"
    using assms set_update_subset_insert [of "g_lastcli s" "g_lastcli_pos s" ?line] by (auto simp: cli_ok_def)
  then show ?thesis using assms by (simp add: cli_ok_def process_cli_def Let_def no_nul_def)
qed

lemma recall_ok:
  assumes "cli_ok s" "pos < CLI_HISTSIZE"
  shows "cli_ok (fst (recall pos s))"
proof -
  let ?h = "g_lastcli s ! pos"
  have "?h \<in> set (g_lastcli s)" using assms by (simp add: cli_ok_def)
  then have "length (cstr ?h) < CLI_MAX" using assms(1) cstr_length [of ?h] by (auto simp: cli_ok_def)
  then show ?thesis using assms no_nul_cstr [of ?h] by (auto simp: recall_def cli_ok_def Let_def)
qed

lemma pos_range: "p < CLI_HISTSIZE \<Longrightarrow> pos_up p < CLI_HISTSIZE" "pos_down p < CLI_HISTSIZE"
  by (auto simp: pos_up_def pos_down_def Let_def)

lemma escape_ok: "cli_ok s \<Longrightarrow> cli_ok (fst (snd (cli_handle_escape cs s)))"
proof -
  assume s: "cli_ok s"
  then have "g_currcli_pos s < CLI_HISTSIZE" by (simp add: cli_ok_def)
  then show "cli_ok (fst (snd (cli_handle_escape cs s)))"
    using s recall_ok [OF s] pos_range by (simp add: cli_handle_escape_def Let_def split_beta)
qed

lemma add_char_ok:
  assumes "cli_ok s" "g_cli_pos s < CLI_MAX - 1" "c \<noteq> CHR 0x00"
  shows "cli_ok (add_char c s)"
  using assms by (simp add: cli_ok_def add_char_def take_Suc_conv_app_nth no_nul_def)

lemma char_of_printable: "32 \<le> ch \<Longrightarrow> ch \<le> 255 \<Longrightarrow> char_of (nat ch) \<noteq> CHR 0x00"
proof
  assume ch: "32 \<le> ch" "ch \<le> 255" "char_of (nat ch) = CHR 0x00"
  have "nat ch < 256" "nat ch \<noteq> 0" using ch by simp_all
  then have "of_char (char_of (nat ch) :: char) = nat ch" by simp
  then show False using ch(3) \<open>nat ch \<noteq> 0\<close> by simp
qed

lemma back_char_ok:
  assumes "cli_ok s" "0 < g_cli_pos s"
  shows "cli_ok (back_char s)"
proof -
  have "no_nul (take (g_cli_pos s - 1) (g_cli s))"
    using assms(1) set_take_subset_set_take [of "g_cli_pos s - 1" "g_cli_pos s" "g_cli s"]
    unfolding cli_ok_def no_nul_def by auto
  moreover have "g_cli_pos s - 1 < CLI_MAX" using assms(1) by (simp add: cli_ok_def less_imp_diff_less)
  ultimately show ?thesis using assms by (simp add: cli_ok_def back_char_def)
qed

text \<open>What \<open>g_readchar\<close> returns.\<close>

definition chars_ok :: "int list \<Rightarrow> bool" where
  "chars_ok cs \<longleftrightarrow> (\<forall>c \<in> set cs. -1 \<le> c \<and> c \<le> 255)"

lemma process_char_ok:
  assumes "cli_ok s" "-1 \<le> ch" "ch \<le> 255"
  shows "cli_ok (fst (snd (snd (shellProcessChar send ch cs s))))"
  using assms process_cli_ok [OF assms(1)] escape_ok [OF assms(1)] back_char_ok [OF assms(1)]
    add_char_ok [OF assms(1)] char_of_printable [of ch]
  by (simp add: shellProcessChar_def Let_def split_beta)

lemma next_char_subset: "set (snd (next_char cs)) \<subseteq> set cs"
  by (cases cs) auto

lemma process_char_rest: "set (fst (snd (shellProcessChar send ch cs s))) \<subseteq> set cs"
  using next_char_subset [of cs] next_char_subset [of "snd (next_char cs)"]
  by (auto simp: shellProcessChar_def cli_handle_escape_def Let_def split_beta)

lemma cli_start_ok: "cli_ok cli_start"
  by (simp add: cli_ok_def cli_start_def no_nul_def)

lemma shell_loop_ok:
  "cli_ok s \<Longrightarrow> chars_ok cs \<Longrightarrow> cli_ok (fst (snd (shell_loop send cs s)))"
proof (induction send cs s rule: shell_loop.induct)
  case (2 send ch cs s)
  obtain x cs' s' ev where p: "shellProcessChar send ch cs s = (x, cs', s', ev)" using prod_cases4 by blast
  have "cli_ok s'" using process_char_ok [of s ch send cs] 2(2,3) p by (simp add: chars_ok_def)
  moreover have "chars_ok cs'" using process_char_rest [of send ch cs s] 2(3) p by (auto simp: chars_ok_def)
  ultimately show ?case using 2(1) [OF p [symmetric] refl refl refl] p by (cases x) (simp_all add: split_beta)
qed simp

text \<open>
  C22: The state of the editor is well formed, whatever is typed. From the start of the program, after any
  characters, escape sequences included, the cursor and the positions in the history lie inside their
  arrays, the text before the cursor holds no NUL, and every line of the history holds one, so that
  recalling a line copies at most 127 characters.
\<close>

theorem cli_well_formed:
  assumes "chars_ok cs"
  shows "cli_ok (fst (snd (shellStart_cli send cs cli_start)))"
proof -
  have "cli_ok (cli_start\<lparr>g_cli_pos := 0, g_cli_size := 0, g_cli := replicate CLI_MAX CHR 0x00\<rparr>)"
    using cli_start_ok by (simp add: cli_start_def)
  from shell_loop_ok [OF this assms] show ?thesis by (simp add: shellStart_cli_def split_beta)
qed

theorem cli_well_formed_witness:
  "chars_ok [108, 115, 13, 27, 91, 65, 8] \<and>
   cli_ok (fst (snd (shellStart_cli (\<lambda>_. 0) [108, 115, 13, 27, 91, 65, 8] cli_start)))"
  using cli_well_formed [of "[108, 115, 13, 27, 91, 65, 8]" "\<lambda>_. 0"] by (simp add: chars_ok_def)
section \<open>What the editor does\<close>

text \<open>The reference: a line, a ring of lines, and keys.\<close>

record editor =
  e_line :: string
  e_hist :: "string list"
  e_last :: nat
  e_curr :: nat

datatype key = Key_char char | Key_back | Key_enter | Key_up | Key_down | Key_exit | Key_other

definition pick :: "nat \<Rightarrow> editor \<Rightarrow> editor" where
  "pick p ed = (if e_hist ed ! p \<noteq> [] then ed\<lparr>e_line := e_hist ed ! p, e_curr := p\<rparr> else ed)"

fun ed_step :: "key \<Rightarrow> editor \<Rightarrow> editor" where
  "ed_step (Key_char c) ed = (if length (e_line ed) < 127 then ed\<lparr>e_line := e_line ed @ [c]\<rparr> else ed)"
| "ed_step Key_back ed = ed\<lparr>e_line := butlast (e_line ed)\<rparr>"
| "ed_step Key_enter ed =
     ed\<lparr>e_line := [], e_hist := (e_hist ed)[e_last ed := e_line ed], e_last := (e_last ed + 1) mod 8,
        e_curr := (e_last ed + 1) mod 8\<rparr>"
| "ed_step Key_up ed = pick ((e_curr ed + 7) mod 8) ed"
| "ed_step Key_down ed = pick ((e_curr ed + 1) mod 8) ed"
| "ed_step Key_exit ed = ed"
| "ed_step Key_other ed = ed"

text \<open>The editor after some keys, and the lines it sent.\<close>

fun ed_run :: "key list \<Rightarrow> editor \<Rightarrow> editor \<times> string list" where
  "ed_run [] ed = (ed, [])"
| "ed_run (k # ks) ed =
     (if k = Key_exit then (ed, [])
      else let (ed', ls) = ed_run ks (ed_step k ed) in (ed', if k = Key_enter then e_line ed # ls else ls))"

definition key_of :: "int \<Rightarrow> int list \<Rightarrow> key \<times> int list" where
  "key_of ch cs =
     (if ch = 4 then (Key_exit, cs)
      else if ch = 8 \<or> ch = 127 then (Key_back, cs)
      else if ch = 13 \<or> ch = 10 then (Key_enter, cs)
      else if ch = 27 then
        (if fst (next_char cs) = 91
         then let (c, cs) = next_char (snd (next_char cs))
              in (if c = 65 then Key_up else if c = 66 then Key_down else Key_other, cs)
         else (Key_other, snd (next_char cs)))
      else if 32 \<le> ch then (Key_char (char_of (nat ch)), cs)
      else (Key_other, cs))"

lemma key_of_length: "length (snd (key_of ch cs)) \<le> length cs"
  using next_char_length [of cs] next_char_length [of "snd (next_char cs)"]
  by (auto simp: key_of_def split_beta Let_def)

function stream_keys :: "int list \<Rightarrow> key list" where
  "stream_keys [] = []"
| "stream_keys (ch # cs) = (let (k, cs') = key_of ch cs in k # stream_keys cs')"
  by pat_completeness auto
termination
proof (relation "measure length", goal_cases)
  case (2 ch cs x k cs')
  then show ?case using key_of_length [of ch cs] by (metis in_measure le_imp_less_Suc length_Cons snd_conv)
qed simp

definition abs_cli :: "cli \<Rightarrow> editor" where
  "abs_cli s = \<lparr>e_line = take (g_cli_pos s) (g_cli s), e_hist = map cstr (g_lastcli s), e_last = g_lastcli_pos s,
     e_curr = g_currcli_pos s\<rparr>"

fun sent_lines :: "cli_event list \<Rightarrow> string list" where
  "sent_lines [] = []"
| "sent_lines (Sent l # ev) = l # sent_lines ev"
| "sent_lines (_ # ev) = sent_lines ev"

lemma sent_lines_append [simp]: "sent_lines (a @ b) = sent_lines a @ sent_lines b"
  by (induction a rule: sent_lines.induct) simp_all

lemma take_line: "cli_ok s \<Longrightarrow> length (take (g_cli_pos s) (g_cli s)) = g_cli_pos s"
  by (simp add: cli_ok_def)

lemma abs_add: "cli_ok s \<Longrightarrow> g_cli_pos s < CLI_MAX - 1 \<Longrightarrow> abs_cli (add_char c s) = ed_step (Key_char c) (abs_cli s)"
  by (simp add: abs_cli_def add_char_def cli_ok_def take_Suc_conv_app_nth)

lemma abs_full: "cli_ok s \<Longrightarrow> \<not> g_cli_pos s < CLI_MAX - 1 \<Longrightarrow> ed_step (Key_char c) (abs_cli s) = abs_cli s"
  by (simp add: abs_cli_def cli_ok_def)

lemma abs_back: "cli_ok s \<Longrightarrow> 0 < g_cli_pos s \<Longrightarrow> abs_cli (back_char s) = ed_step Key_back (abs_cli s)"
  by (simp add: abs_cli_def back_char_def cli_ok_def butlast_take)

lemma abs_back_0: "cli_ok s \<Longrightarrow> \<not> 0 < g_cli_pos s \<Longrightarrow> ed_step Key_back (abs_cli s) = abs_cli s"
  by (simp add: abs_cli_def)

lemma abs_enter:
  assumes "cli_ok s"
  shows "abs_cli (fst (snd (process_cli send s))) = ed_step Key_enter (abs_cli s)"
    and "sent_lines (snd (snd (process_cli send s))) = [e_line (abs_cli s)]"
    and "fst (process_cli send s) = send (e_line (abs_cli s))"
proof -
  have "cstr ((g_cli s)[g_cli_pos s := CHR 0x00]) = take (g_cli_pos s) (g_cli s)"
    using assms by (intro cstr_cut) (simp_all add: cli_ok_def)
  then show "abs_cli (fst (snd (process_cli send s))) = ed_step Key_enter (abs_cli s)"
    "sent_lines (snd (snd (process_cli send s))) = [e_line (abs_cli s)]"
    "fst (process_cli send s) = send (e_line (abs_cli s))"
    by (simp_all add: abs_cli_def process_cli_def Let_def map_update)
qed

lemma abs_recall:
  assumes "cli_ok s" "p < CLI_HISTSIZE"
  shows "abs_cli (fst (recall p s)) = pick p (abs_cli s)" and "sent_lines (snd (recall p s)) = []"
  using assms by (auto simp: recall_def pick_def abs_cli_def cli_ok_def Let_def)

lemma pos_mod: "p < CLI_HISTSIZE \<Longrightarrow> pos_up p = (p + 7) mod 8" "pos_down p = Suc p mod 8"
  by (auto simp: pos_up_def pos_down_def Let_def mod_if)

lemma abs_escape:
  assumes "cli_ok s"
  shows "let (cs', s', ev) = cli_handle_escape cs s; (k, cs'') = key_of 27 cs
    in cs' = cs'' \<and> abs_cli s' = ed_step k (abs_cli s) \<and> sent_lines ev = [] \<and> k \<noteq> Key_exit \<and> k \<noteq> Key_enter"
proof -
  have c: "g_currcli_pos s < CLI_HISTSIZE" using assms by (simp add: cli_ok_def)
  note r = abs_recall [OF assms pos_range(1) [OF c]] abs_recall [OF assms pos_range(2) [of "g_currcli_pos s"]]
  have e: "e_curr (abs_cli s) = g_currcli_pos s" by (simp add: abs_cli_def)
  show ?thesis
    using r by (auto simp: cli_handle_escape_def key_of_def Let_def split_beta pos_mod(1) [OF c] pos_mod(2) e unknown_char_def)
qed

lemma abs_char:
  assumes "cli_ok s" "\<forall>l. send l \<noteq> CMD_EXITSHELL" "shellProcessChar send ch cs s = (x, cs', s', ev)" "key_of ch cs = (k, cs'')"
  shows "cs' = cs'' \<and> abs_cli s' = ed_step k (abs_cli s) \<and> x = (k = Key_exit) \<and>
    sent_lines ev = (if k = Key_enter then [e_line (abs_cli s)] else [])"
proof -
  consider "ch = 27" | "ch = 13 \<or> ch = 10" | "ch = 8 \<or> ch = 127" | "ch = 4"
    | "ch \<notin> {27, 13, 10, 8, 127, 4}" by blast
  then show ?thesis
  proof cases
    case 1
    then show ?thesis
      using abs_escape [OF assms(1), of cs] assms(3,4) by (auto simp: shellProcessChar_def split: prod.splits)
  next
    case 2
    then show ?thesis
      using abs_enter [OF assms(1), of send] assms(2-4) by (auto simp: shellProcessChar_def key_of_def split_beta Let_def)
  next
    case 3
    then show ?thesis
      using abs_back [OF assms(1)] abs_back_0 [OF assms(1)] assms(3,4)
      by (cases "0 < g_cli_pos s") (auto simp: shellProcessChar_def key_of_def)
  next
    case 4
    then show ?thesis using assms(3,4) by (auto simp: shellProcessChar_def key_of_def)
  next
    case 5
    then show ?thesis
      using abs_add [OF assms(1)] abs_full [OF assms(1)] assms(3,4)
      by (cases "32 \<le> ch"; cases "g_cli_pos s < CLI_MAX - 1")
        (auto simp: shellProcessChar_def key_of_def split: if_splits)
  qed
qed

lemma loop_refines_editor:
  assumes "cli_ok s" "chars_ok cs" "\<forall>l. send l \<noteq> CMD_EXITSHELL" "shell_loop send cs s = (x, s', ev)"
  shows "ed_run (stream_keys cs) (abs_cli s) = (abs_cli s', sent_lines ev) \<and> x = (Key_exit \<in> set (stream_keys cs))"
  using assms
proof (induction send cs s arbitrary: x s' ev rule: shell_loop.induct)
  case (2 send ch cs s)
  obtain y cs' t ev' where p: "shellProcessChar send ch cs s = (y, cs', t, ev')" using prod_cases4 by blast
  obtain k cs'' where k: "key_of ch cs = (k, cs'')" by fastforce
  note step = abs_char [OF 2(2,4) p k]
  have ok: "cli_ok t" using process_char_ok [of s ch send cs] 2(2,3) p by (simp add: chars_ok_def)
  have ok': "chars_ok cs'" using process_char_rest [of send ch cs s] 2(3) p by (auto simp: chars_ok_def)
  obtain x2 t2 ev2 where r: "shell_loop send cs' t = (x2, t2, ev2)" using prod_cases3 by blast
  show ?case
  proof (cases y)
    case True
    then show ?thesis using 2(5) p k step by auto
  next
    case False
    then show ?thesis using 2(1) [OF p [symmetric] refl refl refl _ ok ok' 2(4) r] 2(5) p k r step by auto
  qed
qed simp

text \<open>
  C20: The editor does what it is meant to. Whatever is typed until \<open>^D\<close>, the line, the history and the
  lines sent are those of the reference editor under the keys that the characters stand for: a line of
  at most 127 characters, the end of it deleted by backspace, sent and put into a ring of eight lines by
  the enter key, and replaced by the line before or behind the one last recalled by the arrows, when
  that one is not empty. The result of sending a line is never that of leaving the shell.
\<close>

theorem cli_refines_editor:
  assumes "cli_ok s" "chars_ok cs" "\<forall>l. send l \<noteq> CMD_EXITSHELL" "shell_loop send cs s = (x, s', ev)"
  shows "ed_run (stream_keys cs) (abs_cli s) = (abs_cli s', sent_lines ev) \<and> x = (Key_exit \<in> set (stream_keys cs))"
  using assms by (rule loop_refines_editor)
theorem cli_refines_editor_witness:
  "\<exists>s' ev. shell_loop (\<lambda>_. 0) [104, 105, 8, 13] cli_start = (False, s', ev) \<and> sent_lines ev = [''h'']"
proof -
  obtain x s' ev where r: "shell_loop (\<lambda>_. 0) [104, 105, 8, 13] cli_start = (x, s', ev)" using prod_cases3 by blast
  have k: "stream_keys [104, 105, 8, 13] = [Key_char CHR ''h'', Key_char CHR ''i'', Key_back, Key_enter]"
    by (simp add: key_of_def) (simp add: char_of_def bit_numeral_rec bit_Suc_0_iff)
  have "ed_run (stream_keys [104, 105, 8, 13]) (abs_cli cli_start) = (abs_cli s', sent_lines ev) \<and> x = (Key_exit \<in> set (stream_keys [104, 105, 8, 13]))"
    using cli_refines_editor [OF cli_start_ok _ _ r] by (simp add: chars_ok_def)
  then have "sent_lines ev = [''h''] \<and> \<not> x"
    unfolding k by (simp add: abs_cli_def cli_start_def)
  then show ?thesis using r by simp
qed

section \<open>The history\<close>

definition printable :: "string \<Rightarrow> bool" where
  "printable l \<longleftrightarrow> (\<forall>c \<in> set l. 32 \<le> (of_char c :: nat) \<and> (of_char c :: nat) \<noteq> 127)"

definition codes :: "string \<Rightarrow> int list" where
  "codes l = map of_char l"

lemma stream_keys_codes: "printable l \<Longrightarrow> stream_keys (codes l @ cs) = map Key_char l @ stream_keys cs"
proof (induction l)
  case (Cons c l)
  have "32 \<le> (of_char c :: nat)" "(of_char c :: nat) \<noteq> 127" using Cons.prems by (simp_all add: printable_def)
  then have c: "32 \<le> (of_char c :: int)" "(of_char c :: int) \<noteq> 127"
    by (metis of_nat_le_iff of_nat_numeral of_nat_of_char, metis of_nat_eq_iff of_nat_numeral of_nat_of_char)
  have "char_of (nat (of_char c)) = c" by (metis char_of_char nat_int of_nat_of_char)
  then have "key_of (of_char c) (codes l @ cs) = (Key_char c, codes l @ cs)" using c by (auto simp: key_of_def)
  then show ?case using Cons by (simp add: codes_def printable_def)
qed (simp add: codes_def)

lemma ed_run_append:
  "Key_exit \<notin> set ks \<Longrightarrow> ed_run (ks @ ks') ed =
    (fst (ed_run ks' (fst (ed_run ks ed))), snd (ed_run ks ed) @ snd (ed_run ks' (fst (ed_run ks ed))))"
  by (induction ks arbitrary: ed) (auto simp: split_beta)

lemma ed_run_chars:
  "length (e_line ed) + length l \<le> 127 \<Longrightarrow> ed_run (map Key_char l) ed = (ed\<lparr>e_line := e_line ed @ l\<rparr>, [])"
  by (induction l arbitrary: ed) simp_all

text \<open>The editor after the lines \<open>ls\<close> were sent.\<close>

definition ed_sent :: "string list \<Rightarrow> editor \<Rightarrow> bool" where
  "ed_sent ls ed \<longleftrightarrow> e_line ed = [] \<and> length (e_hist ed) = 8 \<and> e_last ed = length ls mod 8 \<and> e_curr ed = length ls mod 8 \<and>
     (\<forall>i < length ls. length ls \<le> i + 8 \<longrightarrow> e_hist ed ! (i mod 8) = ls ! i)"

lemma mod8_neq: "i < n \<Longrightarrow> n < i + 8 \<Longrightarrow> i mod 8 \<noteq> n mod (8 :: nat)"
proof
  assume i: "i < n" "n < i + 8" "i mod 8 = n mod 8"
  then have "8 dvd n - i" by (metis less_imp_le_nat mod_eq_dvd_iff_nat)
  then have "8 \<le> n - i" using i(1) by (intro dvd_imp_le) simp_all
  then show False using i(2) by simp
qed

lemma ed_sent_enter:
  assumes "ed_sent ls ed" "length l \<le> 127"
  shows "ed_sent (ls @ [l]) (fst (ed_run (map Key_char l @ [Key_enter]) ed))"
    "snd (ed_run (map Key_char l @ [Key_enter]) ed) = [l]"
proof -
  have r: "ed_run (map Key_char l @ [Key_enter]) ed = (ed_step Key_enter (ed\<lparr>e_line := l\<rparr>), [l])"
    using assms ed_run_append [of "map Key_char l" "[Key_enter]" ed] ed_run_chars [of ed l] by (auto simp: ed_sent_def)
  have H: "(if length ls mod 8 = i mod 8 then l else e_hist ed ! (i mod 8)) = (ls @ [l]) ! i"
    if "i < length ls + 1" "length ls + 1 \<le> i + 8" for i
  proof (cases "i = length ls")
    case False
    then have "i < length ls" "length ls < i + 8" using that by simp_all
    then have "i mod 8 \<noteq> length ls mod 8" by (rule mod8_neq)
    then show ?thesis using assms(1) \<open>i < length ls\<close> \<open>length ls < i + 8\<close> by (simp add: ed_sent_def nth_append)
  qed simp
  have ed: "length (e_hist ed) = 8" "e_last ed = length ls mod 8" using assms(1) by (simp_all add: ed_sent_def)
  have "(e_hist ed)[length ls mod 8 := l] ! (i mod 8) = (ls @ [l]) ! i" if "i < length ls + 1" "length ls + 1 \<le> i + 8" for i
    using H [OF that] ed(1) by (simp only: nth_list_update)
  then show "ed_sent (ls @ [l]) (fst (ed_run (map Key_char l @ [Key_enter]) ed))"
    using ed unfolding r by (simp add: ed_sent_def mod_Suc_eq)
  show "snd (ed_run (map Key_char l @ [Key_enter]) ed) = [l]" unfolding r by simp
qed

lemma ed_sent_lines:
  assumes "\<forall>l \<in> set ls. length l \<le> 127" "ed_sent [] ed"
  shows "ed_sent ls (fst (ed_run (concat (map (\<lambda>l. map Key_char l @ [Key_enter]) ls)) ed)) \<and>
    snd (ed_run (concat (map (\<lambda>l. map Key_char l @ [Key_enter]) ls)) ed) = ls"
  using assms(1)
proof (induction ls rule: rev_induct)
  case (snoc l ls)
  have "Key_exit \<notin> set (concat (map (\<lambda>l. map Key_char l @ [Key_enter]) ls))" by auto
  note a = ed_run_append [OF this, of "map Key_char l @ [Key_enter]" ed]
  have "ed_sent ls (fst (ed_run (concat (map (\<lambda>l. map Key_char l @ [Key_enter]) ls)) ed))" using snoc by simp
  from ed_sent_enter [OF this, of l] show ?case using a snoc by simp
qed (use assms(2) in simp)

lemma ed_ups:
  assumes "ed_sent ls ed" "j \<le> length ls" "j \<le> 8" "\<forall>l \<in> set ls. l \<noteq> []" "0 < j"
  shows "\<exists>ed'. ed_run (replicate j Key_up) ed = (ed', []) \<and> e_line ed' = ls ! (length ls - j) \<and>
    e_curr ed' = (length ls + 8 - j) mod 8 \<and> e_hist ed' = e_hist ed"
  using assms(2,3,5)
proof (induction j)
  case (Suc j)
  have "\<exists>ed'. ed_run (replicate j Key_up) ed = (ed', []) \<and> e_curr ed' = (length ls + 8 - j) mod 8 \<and> e_hist ed' = e_hist ed"
    using Suc assms(1) by (cases "j = 0") (auto simp: ed_sent_def)
  then obtain ed' where e: "ed_run (replicate j Key_up) ed = (ed', [])" "e_curr ed' = (length ls + 8 - j) mod 8"
    "e_hist ed' = e_hist ed" by blast
  have m: "(e_curr ed' + 7) mod 8 = (length ls - Suc j) mod 8" "(length ls - Suc j) mod 8 = (length ls + 8 - Suc j) mod 8"
  proof -
    have "length ls + 8 - j + 7 = length ls - Suc j + 8 * 2" "length ls + 8 - Suc j = length ls - Suc j + 8"
      using Suc.prems by simp_all
    then show "(e_curr ed' + 7) mod 8 = (length ls - Suc j) mod 8" "(length ls - Suc j) mod 8 = (length ls + 8 - Suc j) mod 8"
      unfolding e(2) by (simp_all only: mod_add_left_eq mod_mult_self2 mod_add_self2)
  qed
  have h: "e_hist ed ! ((length ls - Suc j) mod 8) = ls ! (length ls - Suc j)"
    using assms(1) Suc.prems by (simp add: ed_sent_def)
  have "ls ! (length ls - Suc j) \<noteq> []" using assms(4) Suc.prems by simp
  then have p: "ed_step Key_up ed' = ed'\<lparr>e_line := ls ! (length ls - Suc j), e_curr := (length ls - Suc j) mod 8\<rparr>"
    using m(1) h e(3) by (simp add: pick_def)
  have "replicate (Suc j) Key_up = replicate j Key_up @ [Key_up]" by (simp add: replicate_append_same)
  then have "ed_run (replicate (Suc j) Key_up) ed = (ed_step Key_up ed', [])"
    using ed_run_append [of "replicate j Key_up" "[Key_up]" ed] e(1) by (simp del: replicate.simps)
  then show ?case using p m(2) e(3) by simp
qed simp

lemma stream_keys_lines:
  "\<forall>l \<in> set ls. printable l \<Longrightarrow> stream_keys (concat (map (\<lambda>l. codes l @ [13]) ls) @ cs) =
    concat (map (\<lambda>l. map Key_char l @ [Key_enter]) ls) @ stream_keys cs"
proof (induction ls)
  case (Cons l ls)
  have "stream_keys (13 # cs) = Key_enter # stream_keys cs" for cs by (simp add: key_of_def)
  then show ?case using Cons stream_keys_codes [of l] by simp
qed simp

lemma stream_keys_ups: "stream_keys (concat (replicate j [27, 91, 65]) @ cs) = replicate j Key_up @ stream_keys cs"
  by (induction j) (simp_all add: key_of_def as_char_def)

text \<open>
  The history brings lines back. After any number of lines of printable characters, none empty or
  longer than 127 characters, have been typed and sent, pressing the up arrow \<open>j\<close> times, at most eight,
  and the enter key sends the \<open>j\<close>-th line from the end once more.
\<close>

theorem history_recall:
  assumes "\<forall>l \<in> set ls. l \<noteq> [] \<and> length l \<le> 127 \<and> printable l" "0 < j" "j \<le> length ls" "j \<le> 8"
    "\<forall>l. send l \<noteq> CMD_EXITSHELL"
  shows "sent_lines (snd (snd (shellStart_cli send
      (concat (map (\<lambda>l. codes l @ [13]) ls) @ concat (replicate j [27, 91, 65]) @ [13]) cli_start))) =
    ls @ [ls ! (length ls - j)]"
proof -
  let ?cs = "concat (map (\<lambda>l. codes l @ [13]) ls) @ concat (replicate j [27, 91, 65]) @ [13]"
  let ?s = "cli_start\<lparr>g_cli_pos := 0, g_cli_size := 0, g_cli := replicate CLI_MAX CHR 0x00\<rparr>"
  let ?ks = "concat (map (\<lambda>l. map Key_char l @ [Key_enter]) ls)"
  have "(of_char c :: int) \<le> 255" "-1 \<le> (of_char c :: int)" for c :: char
    using nat_of_char_less_256 [of c] of_nat_of_char [of c, where ?'a = int, symmetric] by linarith+
  then have cs: "chars_ok ?cs" by (auto simp: chars_ok_def codes_def)
  have ok: "cli_ok ?s" using cli_start_ok by (simp add: cli_start_def)
  have abs0: "ed_sent [] (abs_cli ?s)" by (simp add: ed_sent_def abs_cli_def cli_start_def)
  obtain x s' ev where r: "shell_loop send ?cs ?s = (x, s', ev)" using prod_cases3 by blast
  have keys: "stream_keys ?cs = ?ks @ replicate j Key_up @ [Key_enter]"
    using stream_keys_lines [of ls] stream_keys_ups [of j "[13]"] assms(1) by (simp add: key_of_def)
  have lines: "ed_sent ls (fst (ed_run ?ks (abs_cli ?s)))" "snd (ed_run ?ks (abs_cli ?s)) = ls"
    using ed_sent_lines [OF _ abs0, of ls] assms(1) by auto
  obtain ed' where ups: "ed_run (replicate j Key_up) (fst (ed_run ?ks (abs_cli ?s))) = (ed', [])" "e_line ed' = ls ! (length ls - j)"
    using ed_ups [OF lines(1) assms(3,4) _ assms(2)] assms(1) by blast
  let ?e = "fst (ed_run ?ks (abs_cli ?s))"
  have k: "Key_exit \<notin> set ?ks" by auto
  have "snd (ed_run (stream_keys ?cs) (abs_cli ?s)) = ls @ snd (ed_run (replicate j Key_up @ [Key_enter]) ?e)"
    unfolding keys ed_run_append [OF k] snd_conv lines(2) ..
  also have "snd (ed_run (replicate j Key_up @ [Key_enter]) ?e) = [ls ! (length ls - j)]"
    using ed_run_append [of "replicate j Key_up" "[Key_enter]" ?e] ups by simp
  finally have "snd (ed_run (stream_keys ?cs) (abs_cli ?s)) = ls @ [ls ! (length ls - j)]" .
  moreover have "ed_run (stream_keys ?cs) (abs_cli ?s) = (abs_cli s', sent_lines ev)"
    using loop_refines_editor [OF ok cs assms(5) r] by simp
  ultimately show ?thesis using r by (simp add: shellStart_cli_def)
qed

theorem history_recall_witness:
  "sent_lines (snd (snd (shellStart_cli (\<lambda>_. 0)
      (concat (map (\<lambda>l. codes l @ [13]) [''ls'', ''pwd'']) @ concat (replicate 2 [27, 91, 65]) @ [13]) cli_start))) =
    [''ls'', ''pwd'', ''ls'']"
  using history_recall [of "[''ls'', ''pwd'']" 2 "\<lambda>_. 0"] by (simp add: printable_def)

end
