(* ===== verification/ShellFile.thy ===== *)
theory ShellFile
  imports Shell
begin

text \<open>
  \<open>psplink/shell.c\<close>: the file commands \<open>ls\<close>, \<open>chdir\<close>, \<open>pwd\<close>, \<open>rename\<close>, \<open>rm\<close>, \<open>mkdir\<close>, \<open>rmdir\<close>, \<open>cp\<close> and \<open>remap\<close>.
  The kernel's file system is an argument: what it answers may depend on the calls that changed it so
  far, which the model keeps in a list.
\<close>

section \<open>The kernel's files\<close>

datatype fcall =
  IoRename string string
| IoRemove string
| IoMkdir string
| IoRmdir string
| IoCreate string
| IoWrite "u8 list"
| IoUnassign string
| IoAssign string string

record dirent =
  st_attr :: u32
  st_mode :: u32
  st_size :: u32
  mtime :: "nat list"
  d_name :: string

text \<open>\<open>f_result\<close>: what a call returns; \<open>f_read k p n\<close>: the \<open>k\<close>-th read, of \<open>n\<close> bytes at position \<open>p\<close>.\<close>

record fs_answers =
  f_stat :: "fcall list \<Rightarrow> string \<Rightarrow> u32 option"
  f_open :: "fcall list \<Rightarrow> string \<Rightarrow> bool"
  f_result :: "fcall list \<Rightarrow> fcall \<Rightarrow> int"
  f_read :: "nat \<Rightarrow> nat \<Rightarrow> nat \<Rightarrow> u8 list option"
  f_dir :: "fcall list \<Rightarrow> string \<Rightarrow> dirent list option"

definition full_path :: "fs_answers \<Rightarrow> fcall list \<Rightarrow> string \<Rightarrow> string \<Rightarrow> nat \<Rightarrow> bool \<Rightarrow> string option" where
  "full_path fs h cwd file type valid = handlepath (f_stat fs h) (f_open fs h) cwd file type valid"

section \<open>Listing\<close>

definition pad_left :: "nat \<Rightarrow> string \<Rightarrow> string" where
  "pad_left w s = replicate (w - length s) CHR '' '' @ s"

text \<open>The three bits of a class of users.\<close>

definition mode_bits :: "u32 \<Rightarrow> nat \<Rightarrow> string" where
  "mode_bits mode ploop =
     (let bits = drop_bit (ploop * 3) mode AND 7
      in [if bits AND 4 \<noteq> 0 then CHR ''r'' else CHR ''-'', if bits AND 2 \<noteq> 0 then CHR ''w'' else CHR ''-'',
          if bits AND 1 \<noteq> 0 then CHR ''x'' else CHR ''-''])"

text \<open>\<open>mtime\<close>: day, month, year, hour, minute.\<close>

definition dir_line :: "dirent \<Rightarrow> string" where
  "dir_line dir =
     (if st_attr dir AND FIO_SO_IFDIR \<noteq> 0 then CHR ''d'' else CHR ''-'') #
     mode_bits (st_mode dir) 2 @ mode_bits (st_mode dir) 1 @ mode_bits (st_mode dir) 0
     @ '' '' @ pad_left 8 (dec_int (sint (st_size dir))) @ '' ''
     @ pad_zero 2 (dec_nat (mtime dir ! 0)) @ ''-'' @ pad_zero 2 (dec_nat (mtime dir ! 1)) @ ''-''
     @ pad_zero 4 (dec_nat (mtime dir ! 2)) @ '' '' @ pad_zero 2 (dec_nat (mtime dir ! 3)) @ '':''
     @ pad_zero 2 (dec_nat (mtime dir ! 4)) @ '' '' @ d_name dir"

definition list_dir :: "fs_answers \<Rightarrow> fcall list \<Rightarrow> string \<Rightarrow> int \<times> string list" where
  "list_dir fs h name =
     (case f_dir fs h name of
        None \<Rightarrow> (CMD_ERROR, [''Could not open directory '' @ name])
      | Some es \<Rightarrow> (CMD_OK, map dir_line es))"

definition list_one :: "fs_answers \<Rightarrow> fcall list \<Rightarrow> string \<Rightarrow> string list" where
  "list_one fs h name = (''Listing directory '' @ name) # snd (list_dir fs h name)"

definition ls_cmd :: "fs_answers \<Rightarrow> fcall list \<Rightarrow> string \<Rightarrow> string list \<Rightarrow> int \<times> string list" where
  "ls_cmd fs h cwd argv =
     (CMD_OK,
      if argv = [] then list_one fs h cwd
      else concat (map (\<lambda>a. case full_path fs h cwd a TYPE_DIR True of None \<Rightarrow> [] | Some p \<Rightarrow> list_one fs h p) argv))"

definition pwd_cmd :: "string \<Rightarrow> int \<times> string list" where
  "pwd_cmd cwd = (CMD_OK, [cwd])"

definition chdir_cmd :: "fs_answers \<Rightarrow> fcall list \<Rightarrow> string list \<Rightarrow> string \<Rightarrow> int \<times> string" where
  "chdir_cmd fs h argv cwd =
     (case full_path fs h cwd (argv ! 0) TYPE_DIR True of
        None \<Rightarrow> (CMD_ERROR, cwd) | Some p \<Rightarrow> (CMD_OK, p))"

section \<open>Changing the file system\<close>

definition rename_cmd :: "fs_answers \<Rightarrow> string \<Rightarrow> string list \<Rightarrow> fcall list \<Rightarrow> int \<times> fcall list" where
  "rename_cmd fs cwd argv h =
     (case full_path fs h cwd (argv ! 0) TYPE_FILE True of
        None \<Rightarrow> (CMD_ERROR, h)
      | Some asrc \<Rightarrow>
         (case full_path fs h cwd (argv ! 1) TYPE_FILE False of
            None \<Rightarrow> (CMD_ERROR, h)
          | Some adst \<Rightarrow>
             (if f_result fs h (IoRename asrc adst) < 0 then (CMD_ERROR, h @ [IoRename asrc adst])
              else (CMD_OK, h @ [IoRename asrc adst]))))"

text \<open>One turn for each argument, all with the first one.\<close>

fun rm_loop :: "fs_answers \<Rightarrow> string \<Rightarrow> string list \<Rightarrow> nat \<Rightarrow> fcall list \<Rightarrow> string list \<times> fcall list" where
  "rm_loop fs cwd argv 0 h = ([], h)"
| "rm_loop fs cwd argv (Suc i) h =
     (case full_path fs h cwd (argv ! 0) TYPE_FILE True of
        None \<Rightarrow> rm_loop fs cwd argv i h
      | Some afile \<Rightarrow>
         (if f_result fs h (IoRemove afile) < 0 then rm_loop fs cwd argv i (h @ [IoRemove afile])
          else let (out, h') = rm_loop fs cwd argv i (h @ [IoRemove afile]) in ((''rm '' @ afile) # out, h')))"

definition rm_cmd :: "fs_answers \<Rightarrow> string \<Rightarrow> string list \<Rightarrow> fcall list \<Rightarrow> int \<times> string list \<times> fcall list" where
  "rm_cmd fs cwd argv h = (CMD_OK, rm_loop fs cwd argv (length argv) h)"

definition dir_cmd :: "(string \<Rightarrow> fcall) \<Rightarrow> fs_answers \<Rightarrow> string \<Rightarrow> string list \<Rightarrow> fcall list \<Rightarrow> int \<times> fcall list" where
  "dir_cmd call fs cwd argv h =
     (case full_path fs h cwd (argv ! 0) TYPE_FILE False of
        None \<Rightarrow> (CMD_ERROR, h)
      | Some afile \<Rightarrow> (if f_result fs h (call afile) < 0 then (CMD_ERROR, h @ [call afile]) else (CMD_OK, h @ [call afile])))"

definition mkdir_cmd :: "fs_answers \<Rightarrow> string \<Rightarrow> string list \<Rightarrow> fcall list \<Rightarrow> int \<times> fcall list" where
  "mkdir_cmd = dir_cmd IoMkdir"

definition rmdir_cmd :: "fs_answers \<Rightarrow> string \<Rightarrow> string list \<Rightarrow> fcall list \<Rightarrow> int \<times> fcall list" where
  "rmdir_cmd = dir_cmd IoRmdir"

definition remap_cmd :: "fs_answers \<Rightarrow> string list \<Rightarrow> fcall list \<Rightarrow> int \<times> string list \<times> fcall list" where
  "remap_cmd fs argv h =
     (let h1 = h @ [IoUnassign (argv ! 1)];
          ret = f_result fs h1 (IoAssign (argv ! 1) (argv ! 0))
      in (CMD_OK, if ret < 0 then [''Error remapping''] else [], h1 @ [IoAssign (argv ! 1) (argv ! 0)]))"

section \<open>Copying\<close>

text \<open>
  The destination when it is a directory: the file's name behind it. \<open>None\<close>: the source has no slash,
  and \<open>slash + 1\<close> is no address.
\<close>

definition cp_dest :: "fs_answers \<Rightarrow> fcall list \<Rightarrow> string \<Rightarrow> string \<Rightarrow> string option" where
  "cp_dest fs h fsrc fdst =
     (if isdir (f_stat fs h) fdst
      then let d = (if 0 < length fdst \<and> fdst ! (length fdst - 1) \<noteq> CHR ''/'' then fdst @ ''/'' else fdst)
           in map_option (\<lambda>slash. d @ tl slash) (strrchr CHR ''/'' fsrc)
      else Some fdst)"

text \<open>The loop ends when a read returns nothing or fails; the results of the writes are not looked at.\<close>

partial_function (option) copy_loop :: "(nat \<Rightarrow> nat \<Rightarrow> nat \<Rightarrow> u8 list option) \<Rightarrow> nat \<Rightarrow> nat \<Rightarrow> fcall list \<Rightarrow> fcall list option" where
  "copy_loop rd k p h =
     (case rd k p 2048 of
        None \<Rightarrow> Some h
      | Some buff \<Rightarrow> (if buff = [] then Some h else copy_loop rd (k + 1) (p + length buff) (h @ [IoWrite buff])))"

text \<open>The result of \<open>cp\<close> and the calls; \<open>None\<close>: it does not come back.\<close>

definition cp_cmd :: "fs_answers \<Rightarrow> string \<Rightarrow> string list \<Rightarrow> fcall list \<Rightarrow> (int \<times> fcall list) option" where
  "cp_cmd fs cwd argv h =
     (case full_path fs h cwd (argv ! 0) TYPE_FILE True of
        None \<Rightarrow> Some (CMD_ERROR, h)
      | Some fsrc \<Rightarrow>
         (case full_path fs h cwd (argv ! 1) TYPE_ETHER False of
            None \<Rightarrow> Some (CMD_ERROR, h)
          | Some fdst \<Rightarrow>
             (case cp_dest fs h fsrc fdst of
                None \<Rightarrow> None
              | Some fdst \<Rightarrow>
                 (if \<not> f_open fs h fsrc then Some (CMD_ERROR, h)
                  else if f_result fs h (IoCreate fdst) < 0 then Some (CMD_ERROR, h @ [IoCreate fdst])
                  else map_option (\<lambda>h. (CMD_OK, h)) (copy_loop (f_read fs) 0 0 (h @ [IoCreate fdst]))))))"

section \<open>Properties\<close>

text \<open>What the current directory always is: a normalised path of a directory, with a final slash.\<close>

definition cwd_ok :: "string \<Rightarrow> bool" where
  "cwd_ok cwd \<longleftrightarrow> normalized cwd \<and> chead cwd \<noteq> CHR ''/'' \<and> cwd \<noteq> [] \<and> last cwd = CHR ''/''"

lemma copy_loop_all:
  assumes "delivers rd cs" "p \<le> length cs"
  shows "\<exists>bs. copy_loop rd k p h = Some (h @ map IoWrite bs) \<and> concat bs = drop p cs \<and> (\<forall>b \<in> set bs. b \<noteq> [] \<and> length b \<le> 2048)"
  using assms(2)
proof (induction "length cs - p" arbitrary: k p h rule: less_induct)
  case less
  obtain c where c: "0 < c" "rd k p 2048 = Some (take (min c 2048) (drop p cs))"
    using assms(1) unfolding delivers_def by (metis zero_less_numeral)
  define b where "b = take (min c 2048) (drop p cs)"
  show ?case
  proof (cases "b = []")
    case True
    then have "drop p cs = []" using c(1) by (auto simp: b_def)
    then show ?thesis using c(2) True by (subst copy_loop.simps) (simp add: b_def [symmetric] exI [of _ "[]"])
  next
    case False
    then have l: "length cs - (p + length b) < length cs - p" "p + length b \<le> length cs"
      using less.prems by (auto simp: b_def)
    from less.hyps [OF l, of "k + 1" "h @ [IoWrite b]"] obtain bs where
      bs: "copy_loop rd (k + 1) (p + length b) (h @ [IoWrite b]) = Some ((h @ [IoWrite b]) @ map IoWrite bs)"
        "concat bs = drop (p + length b) cs" "\<forall>b \<in> set bs. b \<noteq> [] \<and> length b \<le> 2048" by blast
    have d: "drop p cs = b @ drop (p + length b) cs"
    proof -
      have tk: "xs = take k xs @ drop (length (take k xs)) xs" for k and xs :: "u8 list"
        by (cases "k \<le> length xs") simp_all
      have "drop p cs = b @ drop (length b) (drop p cs)" unfolding b_def by (rule tk)
      then show ?thesis by (simp add: add.commute)
    qed
    have "copy_loop rd k p h = Some (h @ map IoWrite (b # bs))"
      using c(2) False bs(1) by (subst copy_loop.simps) (simp add: b_def [symmetric])
    moreover have "length b \<le> 2048" by (simp add: b_def)
    ultimately show ?thesis using bs(2,3) d False by (intro exI [of _ "b # bs"]) simp
  qed
qed

text \<open>
  C30: \<open>cp\<close> copies the file and comes back. If the source opens and is read to its end, however the reads
  are split, and the destination can be created, the command succeeds after creating the destination
  once and writing blocks of at most 2048 bytes that make up exactly the contents of the source.
\<close>

theorem cp_copies:
  assumes "full_path fs h cwd src TYPE_FILE True = Some fsrc" "full_path fs h cwd dst TYPE_ETHER False = Some fdst"
    "cp_dest fs h fsrc fdst = Some to" "f_open fs h fsrc" "0 \<le> f_result fs h (IoCreate to)" "delivers (f_read fs) cs"
  shows "\<exists>bs. cp_cmd fs cwd [src, dst] h = Some (CMD_OK, h @ IoCreate to # map IoWrite bs) \<and>
    concat bs = cs \<and> (\<forall>b \<in> set bs. b \<noteq> [] \<and> length b \<le> 2048)"
proof -
  obtain bs where "copy_loop (f_read fs) 0 0 (h @ [IoCreate to]) = Some ((h @ [IoCreate to]) @ map IoWrite bs)"
    "concat bs = cs" "\<forall>b \<in> set bs. b \<noteq> [] \<and> length b \<le> 2048"
    using copy_loop_all [OF assms(6), of 0 0 "h @ [IoCreate to]"] by auto
  then show ?thesis using assms(1-5) by (intro exI [of _ bs]) (simp add: cp_cmd_def)
qed

definition plain_fs :: "u8 list \<Rightarrow> fs_answers" where
  "plain_fs cs = \<lparr>f_stat = \<lambda>_ _. None, f_open = \<lambda>_ _. True, f_result = \<lambda>_ _. 0,
     f_read = \<lambda>_ p n. Some (take (min 2 n) (drop p cs)), f_dir = \<lambda>_ _. None\<rparr>"

theorem cp_copies_witness:
  "\<exists>bs. cp_cmd (plain_fs [1, 2, 3]) ''ms0:/'' [''a'', ''b''] [] = Some (CMD_OK, IoCreate ''ms0:/b'' # map IoWrite bs) \<and> concat bs = [1, 2, 3]"
proof -
  let ?fs = "plain_fs [1, 2, 3]"
  have p: "handlepath (\<lambda>_. None) (\<lambda>_. True) ''ms0:/'' ''a'' TYPE_FILE True = Some ''ms0:/a''"
    "handlepath (\<lambda>_. None) (\<lambda>_. True) ''ms0:/'' ''b'' TYPE_ETHER False = Some ''ms0:/b''" by code_simp+
  have s: "full_path ?fs [] ''ms0:/'' ''a'' TYPE_FILE True = Some ''ms0:/a''"
    "full_path ?fs [] ''ms0:/'' ''b'' TYPE_ETHER False = Some ''ms0:/b''"
    using p by (simp_all add: full_path_def plain_fs_def)
  have d: "cp_dest ?fs [] ''ms0:/a'' ''ms0:/b'' = Some ''ms0:/b''" by (simp add: cp_dest_def plain_fs_def isdir_def)
  have "delivers (f_read ?fs) [1, 2, 3]"
    unfolding delivers_def by (auto simp: plain_fs_def intro!: exI [of _ 2])
  from cp_copies [OF s d _ _ this] show ?thesis by (auto simp: plain_fs_def)
qed

text \<open>\<open>rm\<close> looks at its first argument only, as often as it has arguments.\<close>

lemma rm_first_only:
  "\<exists>ps. snd (rm_loop fs cwd argv i h) = h @ map IoRemove ps \<and>
    (\<forall>p \<in> set ps. \<exists>h'. full_path fs h' cwd (argv ! 0) TYPE_FILE True = Some p)"
proof (induction i arbitrary: h)
  case (Suc i)
  show ?case
  proof (cases "full_path fs h cwd (argv ! 0) TYPE_FILE True")
    case (Some afile)
    obtain ps where "snd (rm_loop fs cwd argv i (h @ [IoRemove afile])) = (h @ [IoRemove afile]) @ map IoRemove ps"
      "\<forall>p \<in> set ps. \<exists>h'. full_path fs h' cwd (argv ! 0) TYPE_FILE True = Some p"
      using Suc by blast
    then show ?thesis using Some by (intro exI [of _ "afile # ps"]) (auto simp: split_beta)
  qed (use Suc [of h] in simp)
qed (simp add: exI [of _ "[]"])

text \<open>
  The current directory. Whatever sequence of \<open>chdir\<close> commands is given, from a directory that is a
  normalised path with a final slash the current directory stays one; a command that fails leaves it, and
  one that succeeds leads to a directory that exists.
\<close>

theorem chdir_keeps:
  assumes "cwd_ok cwd"
  shows "cwd_ok (fold (\<lambda>argv cwd. snd (chdir_cmd fs h argv cwd)) argvs cwd) \<and>
    (fst (chdir_cmd fs h argv cwd) = CMD_OK \<and> isdir (f_stat fs h) (snd (chdir_cmd fs h argv cwd)) \<or>
     fst (chdir_cmd fs h argv cwd) = CMD_ERROR \<and> snd (chdir_cmd fs h argv cwd) = cwd)"
proof -
  have dir: "cwd_ok p \<and> isdir (f_stat fs h) p" if "full_path fs h cwd a TYPE_DIR True = Some p" for cwd a p
    using handlepath_dir_ok [of "f_stat fs h" "f_open fs h" cwd a True p] that by (simp add: full_path_def cwd_ok_def)
  then have step: "cwd_ok (snd (chdir_cmd fs h argv cwd))" if "cwd_ok cwd" for argv cwd
    using that by (simp add: chdir_cmd_def split: option.split)
  have "cwd_ok (fold (\<lambda>argv cwd. snd (chdir_cmd fs h argv cwd)) argvs cwd)"
    using assms by (induction argvs arbitrary: cwd) (simp_all add: step)
  then show ?thesis using dir by (simp add: chdir_cmd_def split: option.split)
qed

theorem chdir_keeps_witness:
  "cwd_ok ''ms0:/'' \<and> snd (chdir_cmd (plain_fs []) [] [''x''] ''ms0:/'') = ''ms0:/''"
proof -
  have "handlepath (\<lambda>_. None) (\<lambda>_. True) ''ms0:/'' ''.'' TYPE_DIR True = Some ''ms0:/''" by code_simp
  then have n: "normalized ''ms0:/''" using handlepath_dir_ok by blast
  have "handlepath (\<lambda>_. None) (\<lambda>_. True) ''ms0:/'' ''x'' TYPE_DIR True = None" by code_simp
  then have "fst (chdir_cmd (plain_fs []) [] [''x''] ''ms0:/'') = CMD_ERROR"
    by (simp add: chdir_cmd_def full_path_def plain_fs_def)
  moreover have "cwd_ok ''ms0:/''" using n by (simp add: cwd_ok_def)
  ultimately show ?thesis using chdir_keeps [of "''ms0:/''" "plain_fs []" "[]" "[]" "[''x'']"] by auto
qed

end
