(* ===== verification/ApiHook.thy ===== *)
theory ApiHook
  imports ShellMem Args
begin

text \<open>
  The library tables of a module (\<open>psplink/libs.c\<close>) and the hooks on system calls (\<open>psplink/apihook.c\<close>):
  finding an export by its identifier, patching a function, the table of sixteen hooks, what a hooked
  call prints, and putting the original entries of the system-call table back.

  Memory is that of \<open>Prelude\<close>. The entries of a module's table, whose layout the SDK gives, are records;
  \<open>entry_at i\<close> is the entry at the offset \<open>i\<close>. The control register that holds the address of the
  system-call table, the digest of the kernel and the addresses of the hook entries (\<open>_apiHook0\<close> \dots) are
  arguments.
\<close>

section \<open>Libraries\<close>

record lib_entry =
  libname :: "string option"
  attribute :: u16
  ent_len :: nat
  vstubcount :: nat
  stubcount :: nat
  entrytable :: u32

record lib_import =
  imp_name :: "string option"
  imp_attribute :: u16
  imp_len :: nat
  varCount :: nat
  funcCount :: nat
  fnids :: u32
  funcs :: u32
  vnids :: u32
  imp_vars :: u32

record lib_module =
  ent_top :: u32
  ent_size :: int
  entry_at :: "int \<Rightarrow> lib_entry"
  stub_top :: u32
  stub_size :: int
  import_at :: "int \<Rightarrow> lib_import"

text \<open>
  \<open>None\<close>: the search does not come back, because an entry of length 0 is met; \<open>Some None\<close>: no such
  library.
\<close>

partial_function (option) find_library :: "lib_module \<Rightarrow> string option \<Rightarrow> int \<Rightarrow> lib_entry option option" where
  "find_library md library i =
     (if i < ent_size md
      then (if libname (entry_at md i) = library then Some (Some (entry_at md i))
            else find_library md library (i + int (ent_len (entry_at md i)) * 4))
      else Some None)"

text \<open>The first of \<open>n\<close> words at \<open>vars\<close> that is \<open>v\<close>.\<close>

fun find_word :: "mem \<Rightarrow> u32 \<Rightarrow> u32 \<Rightarrow> nat \<Rightarrow> nat \<Rightarrow> nat option" where
  "find_word m vars v k 0 = None"
| "find_word m vars v k (Suc n) = (if lw m (vars + of_nat (4 * k)) = v then Some k else find_word m vars v (k + 1) n)"

text \<open>The address of the entry for an identifier; 0 when there is none.\<close>

definition libsFindExportAddrByNid :: "mem \<Rightarrow> lib_module option \<Rightarrow> string option \<Rightarrow> u32 \<Rightarrow> u32 option" where
  "libsFindExportAddrByNid m md library nid =
     (case md of
        None \<Rightarrow> Some 0
      | Some md \<Rightarrow>
         (case find_library md library 0 of
            None \<Rightarrow> None
          | Some None \<Rightarrow> Some 0
          | Some (Some e) \<Rightarrow>
              Some (case find_word m (entrytable e) nid 0 (stubcount e) of
                      None \<Rightarrow> 0
                    | Some count \<Rightarrow> entrytable e + of_nat (4 * (count + (stubcount e + vstubcount e))))))"

text \<open>\<open>sha1\<close>: the digest of the kernel, \<open>None\<close> when it fails.\<close>

definition libsNameToNid :: "(string \<Rightarrow> u8 list option) \<Rightarrow> string \<Rightarrow> u32" where
  "libsNameToNid sha1 name = (case sha1 name of None \<Rightarrow> 0 | Some digest \<Rightarrow> le32 digest)"

definition libsFindExportAddrByName ::
  "(string \<Rightarrow> u8 list option) \<Rightarrow> mem \<Rightarrow> lib_module option \<Rightarrow> string option \<Rightarrow> string \<Rightarrow> u32 option" where
  "libsFindExportAddrByName sha1 m md library name = libsFindExportAddrByNid m md library (libsNameToNid sha1 name)"

definition libsFindExportByNid :: "mem \<Rightarrow> lib_module option \<Rightarrow> string option \<Rightarrow> u32 \<Rightarrow> u32 option" where
  "libsFindExportByNid m md library nid =
     map_option (\<lambda>addr. if addr = 0 then 0 else lw m addr) (libsFindExportAddrByNid m md library nid)"

definition libsFindExportByName ::
  "(string \<Rightarrow> u8 list option) \<Rightarrow> mem \<Rightarrow> lib_module option \<Rightarrow> string option \<Rightarrow> string \<Rightarrow> u32 option" where
  "libsFindExportByName sha1 m md library name =
     map_option (\<lambda>addr. if addr = 0 then 0 else lw m addr) (libsFindExportAddrByName sha1 m md library name)"

text \<open>\<open>libsPatchFunction\<close> with the address found: the function now only returns \<open>retval\<close>.\<close>

definition patch_function :: "u32 \<Rightarrow> u16 \<Rightarrow> mem \<Rightarrow> bool \<times> mem" where
  "patch_function addr retval m =
     (if addr \<noteq> 0 then (True, sw (sw m addr 0x03E00008) (addr + 4) (0x24020000 OR ucast retval)) else (False, m))"

definition libsPatchFunction :: "lib_module option \<Rightarrow> string option \<Rightarrow> u32 \<Rightarrow> u16 \<Rightarrow> mem \<Rightarrow> (bool \<times> mem) option" where
  "libsPatchFunction md library nid retval m =
     map_option (\<lambda>addr. patch_function addr retval m) (libsFindExportByNid m md library nid)"

subsection \<open>The listings\<close>

text \<open>The lines that are printed, with the numbers in them.\<close>

datatype lib_line =
  Table_line u32 int
| Library_line "string option" u16
| Functions_line
| Function_line nat u32 u32
| Variables_line
| Variable_line nat u32 u32
| Blank_line

definition import_lines :: "mem \<Rightarrow> lib_import \<Rightarrow> lib_line list" where
  "import_lines m p =
     Library_line (imp_name p) (imp_attribute p) #
     (if 0 < funcCount p
      then Functions_line # map (\<lambda>c. Function_line (c + 1) (lw m (fnids p + of_nat (4 * c))) (funcs p + of_nat (8 * c))) [0..<funcCount p]
      else []) @
     (if 0 < funcCount p
      then Variables_line # map (\<lambda>c. Variable_line (c + 1) (lw m (vnids p + of_nat (4 * c))) (imp_vars p + of_nat (8 * c))) [0..<varCount p]
      else []) @
     [Blank_line]"

partial_function (option) print_imports :: "mem \<Rightarrow> lib_module \<Rightarrow> int \<Rightarrow> lib_line list \<Rightarrow> lib_line list option" where
  "print_imports m md i out =
     (if i < stub_size md
      then print_imports m md (i + int (imp_len (import_at md i)) * 4) (out @ import_lines m (import_at md i))
      else Some out)"

definition libsPrintImports :: "mem \<Rightarrow> lib_module option \<Rightarrow> (bool \<times> lib_line list) option" where
  "libsPrintImports m md =
     (case md of
        None \<Rightarrow> Some (False, [])
      | Some md \<Rightarrow> map_option (\<lambda>out. (True, out)) (print_imports m md 0 [Table_line (stub_top md) (stub_size md)]))"

definition entry_lines :: "mem \<Rightarrow> lib_entry \<Rightarrow> lib_line list" where
  "entry_lines m e =
     (let total = stubcount e + vstubcount e; word = (\<lambda>k. lw m (entrytable e + of_nat (4 * k)))
      in Library_line (libname e) (attribute e) #
         (if 0 < stubcount e
          then Functions_line # map (\<lambda>c. Function_line (c + 1) (word c) (word (c + total))) [0..<stubcount e]
          else []) @
         (if 0 < vstubcount e
          then Variables_line #
            map (\<lambda>c. Variable_line (c + 1) (word (c + stubcount e)) (word (c + stubcount e + total))) [0..<vstubcount e]
          else []) @
         [Blank_line])"

partial_function (option) print_entries :: "mem \<Rightarrow> lib_module \<Rightarrow> int \<Rightarrow> lib_line list \<Rightarrow> lib_line list option" where
  "print_entries m md i out =
     (if i < ent_size md
      then print_entries m md (i + int (ent_len (entry_at md i)) * 4) (out @ entry_lines m (entry_at md i))
      else Some out)"

definition libsPrintEntries :: "mem \<Rightarrow> lib_module option \<Rightarrow> (bool \<times> lib_line list) option" where
  "libsPrintEntries m md =
     (case md of
        None \<Rightarrow> Some (False, [])
      | Some md \<Rightarrow> map_option (\<lambda>out. (True, out)) (print_entries m md 0 [Table_line (ent_top md) (ent_size md)]))"

section \<open>The hooks\<close>

abbreviation APIHOOK_MAXNAME :: nat where "APIHOOK_MAXNAME \<equiv> 32"
abbreviation APIHOOK_MAXPARAM :: nat where "APIHOOK_MAXPARAM \<equiv> 6"
abbreviation APIHOOK_MAXIDS :: nat where "APIHOOK_MAXIDS \<equiv> 16"

text \<open>\<open>h_func\<close> is 0 in a free entry.\<close>

record hook =
  h_name :: string
  h_param :: string
  h_ret :: char
  h_func :: u32
  h_syscall :: u32
  h_hookfunc :: u32
  h_sleep :: bool

definition g_apihooks :: "u32 list \<Rightarrow> hook list" where
  "g_apihooks stubs =
     map (\<lambda>f. \<lparr>h_name = [], h_param = [], h_ret = CHR ''v'', h_func = 0, h_syscall = 0, h_hookfunc = f, h_sleep = False\<rparr>) stubs"

record hook_state =
  hooks :: "hook list"
  hmem :: mem

text \<open>\<open>ctrl\<close>: what \<open>cfc0\<close> gives.\<close>

definition syscall_base :: "u32 \<Rightarrow> mem \<Rightarrow> u32" where
  "syscall_base ctrl m = lw m ctrl + 0x10"

definition syscall_count :: "u32 \<Rightarrow> mem \<Rightarrow> nat" where
  "syscall_count ctrl m = unat ((lw m (lw m ctrl + 12) - 0x10) div 4)"

definition find_syscall_addr :: "u32 \<Rightarrow> mem \<Rightarrow> u32 \<Rightarrow> u32 option" where
  "find_syscall_addr ctrl m addr =
     (if ctrl = 0 then None
      else map_option (\<lambda>i. syscall_base ctrl m + of_nat (4 * i))
             (find_word m (syscall_base ctrl m) addr 0 (syscall_count ctrl m)))"

fun first_free :: "nat \<Rightarrow> hook list \<Rightarrow> nat option" where
  "first_free i [] = None"
| "first_free i (h # hs) = (if h_func h = 0 then Some i else first_free (i + 1) hs)"

definition find_free_hook :: "hook_state \<Rightarrow> nat option" where
  "find_free_hook s = first_free 0 (hooks s)"

text \<open>\<open>apiHookAddr\<close>\<close>

definition apiHookAddr :: "u32 option \<Rightarrow> u32 \<Rightarrow> mem \<Rightarrow> bool \<times> mem" where
  "apiHookAddr addr func m = (case addr of None \<Rightarrow> (False, m) | Some a \<Rightarrow> (True, sw m a func))"

text \<open>
  What the two functions that set a hook share: \<open>addr\<close> is the export found (0: none), \<open>name\<close> what goes
  into the entry.
\<close>

definition hook_generic ::
  "u32 \<Rightarrow> u32 \<Rightarrow> string \<Rightarrow> char \<Rightarrow> string \<Rightarrow> bool \<Rightarrow> hook_state \<Rightarrow> bool \<times> hook_state" where
  "hook_generic ctrl addr name ret format sleep s =
     (case find_free_hook s of
        None \<Rightarrow> (False, s)
      | Some hid \<Rightarrow>
         (if addr = 0 then (False, s)
          else case find_syscall_addr ctrl (hmem s) addr of
                 None \<Rightarrow> (False, s)
               | Some syscall \<Rightarrow>
                  (let h = (hooks s ! hid)\<lparr>h_syscall := syscall, h_func := addr, h_ret := ret, h_sleep := sleep,
                              h_param := take APIHOOK_MAXPARAM format, h_name := name\<rparr>
                   in (True, s\<lparr>hooks := (hooks s)[hid := h],
                               hmem := snd (apiHookAddr (Some syscall) (h_hookfunc h) (hmem s))\<rparr>))))"

definition apiHookGenericByName ::
  "u32 \<Rightarrow> u32 \<Rightarrow> string \<Rightarrow> char \<Rightarrow> string \<Rightarrow> bool \<Rightarrow> hook_state \<Rightarrow> bool \<times> hook_state" where
  "apiHookGenericByName ctrl addr name ret format sleep s =
     hook_generic ctrl addr (take (APIHOOK_MAXNAME - 1) name) ret format sleep s"

definition apiHookGenericByNid ::
  "u32 \<Rightarrow> u32 \<Rightarrow> u32 \<Rightarrow> char \<Rightarrow> string \<Rightarrow> bool \<Rightarrow> hook_state \<Rightarrow> bool \<times> hook_state" where
  "apiHookGenericByNid ctrl addr nid ret format sleep s =
     hook_generic ctrl addr (''Nid:'' @ print_word nid) ret format sleep s"

definition apiHookGenericDelete :: "int \<Rightarrow> hook_state \<Rightarrow> hook_state" where
  "apiHookGenericDelete hid s =
     (if hid < 0 \<or> int APIHOOK_MAXIDS \<le> hid then s
      else let h = hooks s ! nat hid
           in if h_func h \<noteq> 0
              then s\<lparr>hooks := (hooks s)[nat hid := h\<lparr>h_func := 0\<rparr>], hmem := sw (hmem s) (h_syscall h) (h_func h)\<rparr>
              else s)"

text \<open>\<open>apiHookByName\<close> and \<open>apiHookByNid\<close>, for other modules: the export replaced, or 0.\<close>

definition api_hook :: "u32 \<Rightarrow> u32 \<Rightarrow> u32 \<Rightarrow> mem \<Rightarrow> u32 \<times> mem" where
  "api_hook ctrl addr func m =
     (if addr \<noteq> 0
      then let (ok, m') = apiHookAddr (find_syscall_addr ctrl m addr) func m in (if ok then addr else 0, m')
      else (0, m))"

section \<open>A hooked call\<close>

text \<open>The text at a pointer argument: at most 127 characters of valid memory.\<close>

definition str_at :: "'m lookups_scheme \<Rightarrow> u32 \<Rightarrow> string option" where
  "str_at env p =
     (let strleft = size_left env p (MEM_ATTRIB_READ OR MEM_ATTRIB_BYTE);
          n = (if strleft > 127 then 127 else strleft)
      in if strleft = 0 then None else Some (cstr (map byte_char (bytes_at (memory env) p n))))"

definition arg_text :: "'m lookups_scheme \<Rightarrow> char \<Rightarrow> u32 \<Rightarrow> string" where
  "arg_text env type arg =
     (if type = CHR ''i'' then dec_int (sint arg)
      else if type = CHR ''x'' then print_word arg
      else if type = CHR ''o'' then CHR ''0'' # oct_string (unat arg)
      else if type = CHR ''s''
      then (case str_at env arg of None \<Rightarrow> ''Invalid pointer '' @ print_word arg | Some str \<Rightarrow> [CHR 0x22] @ str @ [CHR 0x22])
      else ''Unknown parameter type '' @ [CHR 0x27, type, CHR 0x27])"

fun arg_lines :: "'m lookups_scheme \<Rightarrow> nat \<Rightarrow> string \<Rightarrow> u32 list \<Rightarrow> string list" where
  "arg_lines env i (p # ps) (a # args) = (''Arg '' @ dec_nat i @ '': '' @ arg_text env p a) # arg_lines env (i + 1) ps args"
| "arg_lines env i ps args = []"

text \<open>
  \<open>_apiHookHandle\<close>: the function to call (0: none), what is printed, and whether the thread is put to
  sleep. \<open>args\<close> are the six words that the entry code saved.
\<close>

definition apiHookHandle :: "'m lookups_scheme \<Rightarrow> int \<Rightarrow> u32 list \<Rightarrow> u32 \<Rightarrow> u32 \<Rightarrow> hook_state \<Rightarrow> u32 \<times> string list \<times> bool" where
  "apiHookHandle env hid args thread ra s =
     (if 0 \<le> hid \<and> hid < int APIHOOK_MAXIDS \<and> h_func (hooks s ! nat hid) \<noteq> 0
      then let h = hooks s ! nat hid
           in (h_func h,
               (''Function '' @ h_name h @ '' called from thread '' @ print_word thread @ '' (RA:'' @ print_word ra @ '')'')
                 # arg_lines env 0 (h_param h) args
                 @ (if h_sleep h then [''Sleeping thread '' @ print_word thread] else []),
               h_sleep h)
      else (0, [], False))"

definition apiHookReturn :: "int \<Rightarrow> u32 \<Rightarrow> u32 \<Rightarrow> u32 \<Rightarrow> hook_state \<Rightarrow> string list \<times> bool" where
  "apiHookReturn hid v0 v1 thread s =
     (if 0 \<le> hid \<and> hid < int APIHOOK_MAXIDS \<and> h_func (hooks s ! nat hid) \<noteq> 0
      then let h = hooks s ! nat hid;
               v = (if h_ret h = CHR ''i'' then dec_int (sint v0)
                    else if h_ret h = CHR ''x'' then print_word v0
                    else if h_ret h = CHR ''X'' then print_word v1 @ pad_zero 8 (hex_upper (unat v0))
                    else ''void'')
           in ((''Function '' @ h_name h @ '' returned '' @ v)
                 # (if h_sleep h then [''Sleeping thread '' @ print_word thread] else []), h_sleep h)
      else ([], False))"

definition apiHookGenericPrint :: "hook_state \<Rightarrow> (nat \<times> string \<times> string \<times> bool \<times> u32) list" where
  "apiHookGenericPrint s =
     map (\<lambda>(i, h). (i, h_name h, h_param h, h_sleep h, h_syscall h))
       (filter (\<lambda>(i, h). h_func h \<noteq> 0) (zip [0..<length (hooks s)] (hooks s)))"
section \<open>Finding exports\<close>

lemma find_word_Some:
  "find_word m vars v k n = Some j \<longleftrightarrow> k \<le> j \<and> j < k + n \<and> lw m (vars + of_nat (4 * j)) = v \<and>
    (\<forall>i. k \<le> i \<and> i < j \<longrightarrow> lw m (vars + of_nat (4 * i)) \<noteq> v)"
proof (induction n arbitrary: k)
  case (Suc n)
  show ?case
  proof (cases "lw m (vars + of_nat (4 * k)) = v")
    case True
    then show ?thesis by (auto simp: le_less_Suc_eq)
  next
    case False
    have "(k \<le> j \<and> j < k + Suc n \<and> lw m (vars + of_nat (4 * j)) = v) \<longleftrightarrow>
        (k + 1 \<le> j \<and> j < k + 1 + n \<and> lw m (vars + of_nat (4 * j)) = v)"
      using False by (metis add_Suc_right add_Suc_shift Suc_eq_plus1 Suc_le_eq le_neq_implies_less less_imp_le_nat)
    moreover have "(\<forall>i. k \<le> i \<and> i < j \<longrightarrow> lw m (vars + of_nat (4 * i)) \<noteq> v) \<longleftrightarrow>
        (\<forall>i. k + 1 \<le> i \<and> i < j \<longrightarrow> lw m (vars + of_nat (4 * i)) \<noteq> v)"
      using False by (metis Suc_eq_plus1 Suc_le_eq le_neq_implies_less less_imp_le_nat)
    ultimately show ?thesis using Suc [of "k + 1"] False by auto
  qed
qed simp

text \<open>What is found is listed.\<close>

lemma entries_kept:
  assumes "print_entries m md i out = Some lines"
  shows "set out \<subseteq> set lines"
proof (rule print_entries.raw_induct [where P = "\<lambda>m md i out lines. set out \<subseteq> set lines", OF _ assms])
  fix f :: "mem \<Rightarrow> lib_module \<Rightarrow> int \<Rightarrow> lib_line list \<Rightarrow> lib_line list option" and m md i out lines
  assume ih: "\<And>m md i out lines. f m md i out = Some lines \<Longrightarrow> set out \<subseteq> set lines"
    and body: "(if i < ent_size md
      then f m md (i + int (ent_len (entry_at md i)) * 4) (out @ entry_lines m (entry_at md i)) else Some out) = Some lines"
  show "set out \<subseteq> set lines"
  proof (cases "i < ent_size md")
    case True
    then have "set (out @ entry_lines m (entry_at md i)) \<subseteq> set lines" using body by (intro ih) simp
    then show ?thesis by simp
  qed (use body in simp)
qed

lemma entries_listed:
  assumes "find_library md lib i = Some (Some e)"
  shows "print_entries m md i out = Some lines \<Longrightarrow> set (entry_lines m e) \<subseteq> set lines"
proof -
  have "\<forall>out. r = Some e \<longrightarrow> print_entries m md i out = Some lines \<longrightarrow> set (entry_lines m e) \<subseteq> set lines"
    if "find_library md lib i = Some r" for r
  proof (rule find_library.raw_induct [where P = "\<lambda>md lib i r. \<forall>out. r = Some e \<longrightarrow>
      print_entries m md i out = Some lines \<longrightarrow> set (entry_lines m e) \<subseteq> set lines", OF _ that], intro allI impI)
    fix f :: "lib_module \<Rightarrow> string option \<Rightarrow> int \<Rightarrow> lib_entry option option" and md lib i r out
    assume ih: "\<And>md lib i r. f md lib i = Some r \<Longrightarrow> \<forall>out. r = Some e \<longrightarrow>
        print_entries m md i out = Some lines \<longrightarrow> set (entry_lines m e) \<subseteq> set lines"
      and body: "(if i < ent_size md
        then (if libname (entry_at md i) = lib then Some (Some (entry_at md i))
              else f md lib (i + int (ent_len (entry_at md i)) * 4))
        else Some None) = Some r"
      and r: "r = Some e" and listing: "print_entries m md i out = Some lines"
    have more: "i < ent_size md" using body r by (auto split: if_splits)
    have rest: "print_entries m md (i + int (ent_len (entry_at md i)) * 4) (out @ entry_lines m (entry_at md i)) = Some lines"
      using listing more by (subst (asm) print_entries.simps) simp
    show "set (entry_lines m e) \<subseteq> set lines"
    proof (cases "libname (entry_at md i) = lib")
      case True
      then show ?thesis using body r more entries_kept [OF rest] by simp
    next
      case False
      then have "f md lib (i + int (ent_len (entry_at md i)) * 4) = Some r" using body more by simp
      from ih [OF this] show ?thesis using r rest by blast
    qed
  qed
  then show "print_entries m md i out = Some lines \<Longrightarrow> set (entry_lines m e) \<subseteq> set lines" using assms by blast
qed

lemma export_line_of_find:
  assumes "libsFindExportAddrByNid m (Some md) lib nid = Some a" "a \<noteq> 0"
  shows "\<exists>e j. find_library md lib 0 = Some (Some e) \<and> j < stubcount e \<and> lw m (entrytable e + of_nat (4 * j)) = nid \<and>
    a = entrytable e + of_nat (4 * (j + (stubcount e + vstubcount e)))"
  using assms by (auto simp: libsFindExportAddrByNid_def find_word_Some split: option.splits)

text \<open>
  An export that \<open>libsFindExportByNid\<close> finds for an identifier stands in the
  listing of the module's exports with that identifier and with the address found.
\<close>

lemma found_exports_listed:
  assumes "libsFindExportAddrByNid m (Some md) lib nid = Some a" "a \<noteq> 0" "libsPrintEntries m (Some md) = Some (r, lines)"
  shows "libsFindExportByNid m (Some md) lib nid = Some (lw m a) \<and>
    (\<exists>k. Function_line k nid (lw m a) \<in> set lines)"
proof -
  obtain e j where e: "find_library md lib 0 = Some (Some e)" "j < stubcount e" "lw m (entrytable e + of_nat (4 * j)) = nid"
    "a = entrytable e + of_nat (4 * (j + (stubcount e + vstubcount e)))"
    using export_line_of_find [OF assms(1,2)] by blast
  have "set (entry_lines m e) \<subseteq> set lines"
    using assms(3) entries_listed [OF e(1)] by (auto simp: libsPrintEntries_def)
  moreover have "Function_line (j + 1) nid (lw m a) \<in> set (entry_lines m e)"
    using e(2-4) by (auto simp: entry_lines_def Let_def)
  ultimately show ?thesis using assms(1,2) by (auto simp: libsFindExportByNid_def)
qed

section \<open>The system-call table comes back\<close>

definition slots :: "u32 \<Rightarrow> mem \<Rightarrow> u32 set" where
  "slots ctrl m = {syscall_base ctrl m + of_nat (4 * i) | i. i < syscall_count ctrl m}"

text \<open>The table lies in memory in one piece, behind its header, and the pointer to it is not inside.\<close>

definition syscalls_ok :: "u32 \<Rightarrow> mem \<Rightarrow> bool" where
  "syscalls_ok ctrl m \<longleftrightarrow> ctrl \<noteq> 0 \<and> aligned ctrl \<and> aligned (lw m ctrl) \<and> ctrl \<notin> slots ctrl m \<and>
     unat (lw m ctrl) + 16 + 4 * syscall_count ctrl m \<le> 2 ^ 32"

definition active :: "hook_state \<Rightarrow> nat \<Rightarrow> bool" where
  "active s i \<longleftrightarrow> i < APIHOOK_MAXIDS \<and> h_func (hooks s ! i) \<noteq> 0"

definition hooks_ok :: "u32 \<Rightarrow> u32 list \<Rightarrow> mem \<Rightarrow> hook_state \<Rightarrow> bool" where
  "hooks_ok ctrl stubs m0 s \<longleftrightarrow> length stubs = APIHOOK_MAXIDS \<and> map h_hookfunc (hooks s) = stubs \<and>
     (\<forall>i. active s i \<longrightarrow> h_syscall (hooks s ! i) \<in> slots ctrl m0 \<and> lw m0 (h_syscall (hooks s ! i)) = h_func (hooks s ! i) \<and>
        lw (hmem s) (h_syscall (hooks s ! i)) = stubs ! i) \<and>
     (\<forall>i j. active s i \<and> active s j \<and> i \<noteq> j \<longrightarrow> h_syscall (hooks s ! i) \<noteq> h_syscall (hooks s ! j)) \<and>
     (\<forall>a. aligned a \<longrightarrow> (\<forall>i. active s i \<longrightarrow> h_syscall (hooks s ! i) \<noteq> a) \<longrightarrow> lw (hmem s) a = lw m0 a)"

lemma aligned_mult_4: "aligned (of_nat (4 * i))"
proof -
  have "4 * i mod 2 ^ 32 mod 4 = 0" by (simp add: mod_mod_cancel)
  then show ?thesis unfolding aligned_unat unat_of_nat by simp
qed

lemma aligned_const: "aligned 0x10" "aligned 12" "aligned 4"
  by (simp_all add: aligned_unat)

lemma slots_aligned: "syscalls_ok ctrl m \<Longrightarrow> a \<in> slots ctrl m \<Longrightarrow> aligned a"
  unfolding slots_def syscalls_ok_def syscall_base_def
  using aligned_add aligned_mult_4 aligned_const by blast

lemma header_no_slot:
  assumes "syscalls_ok ctrl m"
  shows "lw m ctrl + 12 \<notin> slots ctrl m"
proof
  assume "lw m ctrl + 12 \<in> slots ctrl m"
  then obtain i where i: "i < syscall_count ctrl m" "lw m ctrl + 12 = syscall_base ctrl m + of_nat (4 * i)"
    by (auto simp: slots_def)
  let ?h = "lw m ctrl"
  have b: "unat ?h + 16 + 4 * i < 2 ^ 32" using assms i(1) by (simp add: syscalls_ok_def)
  have "unat (?h + 12) = unat ?h + 12"
    using b by (simp add: unat_word_ariths)
  moreover have "unat (?h + 0x10 + of_nat (4 * i)) = unat ?h + 16 + 4 * i"
    using b by (simp add: unat_word_ariths unat_of_nat)
  ultimately show False using i(2) by (simp add: syscall_base_def)
qed

lemma table_same:
  assumes "hooks_ok ctrl stubs m0 s" "syscalls_ok ctrl m0"
  shows "syscall_base ctrl (hmem s) = syscall_base ctrl m0" "syscall_count ctrl (hmem s) = syscall_count ctrl m0"
proof -
  have same: "lw (hmem s) a = lw m0 a" if "aligned a" "a \<notin> slots ctrl m0" for a
    using assms(1) that unfolding hooks_ok_def by blast
  have c: "lw (hmem s) ctrl = lw m0 ctrl" using assms(2) by (intro same) (simp_all add: syscalls_ok_def)
  moreover have "lw (hmem s) (lw m0 ctrl + 12) = lw m0 (lw m0 ctrl + 12)"
    using assms(2) header_no_slot [OF assms(2)]
    by (intro same) (simp_all add: syscalls_ok_def aligned_add aligned_const)
  ultimately show "syscall_base ctrl (hmem s) = syscall_base ctrl m0" "syscall_count ctrl (hmem s) = syscall_count ctrl m0"
    by (simp_all add: syscall_base_def syscall_count_def)
qed

lemma first_free_Some: "first_free i hs = Some k \<Longrightarrow> i \<le> k \<and> k < i + length hs \<and> h_func (hs ! (k - i)) = 0"
proof (induction hs arbitrary: i)
  case (Cons h hs)
  show ?case
  proof (cases "h_func h = 0")
    case False
    then have "first_free (i + 1) hs = Some k" using Cons.prems by simp
    from Cons.IH [OF this] show ?thesis by (auto simp: nth_Cons' )
  qed (use Cons.prems in simp)
qed simp

lemma hook_generic_ok:
  assumes ok: "hooks_ok ctrl stubs m0 s" and t: "syscalls_ok ctrl m0" and addr: "addr \<notin> set stubs"
  shows "hooks_ok ctrl stubs m0 (snd (hook_generic ctrl addr name ret format sleep s))"
proof (cases "\<exists>k a. find_free_hook s = Some k \<and> addr \<noteq> 0 \<and> find_syscall_addr ctrl (hmem s) addr = Some a")
  case True
  then obtain k a where k: "find_free_hook s = Some k" "addr \<noteq> 0" "find_syscall_addr ctrl (hmem s) addr = Some a" by blast
  have len: "length (hooks s) = APIHOOK_MAXIDS" "length stubs = APIHOOK_MAXIDS" and stubs: "map h_hookfunc (hooks s) = stubs"
    using ok unfolding hooks_ok_def by (metis length_map)+
  have free: "k < APIHOOK_MAXIDS" "h_func (hooks s ! k) = 0"
    using first_free_Some [of 0 "hooks s" k] k(1) len by (simp_all add: find_free_hook_def)
  obtain i where i: "i < syscall_count ctrl m0" "a = syscall_base ctrl m0 + of_nat (4 * i)" "lw (hmem s) a = addr"
    using k(3) table_same [OF ok t] by (auto simp: find_syscall_addr_def find_word_Some split: if_splits)
  have a: "a \<in> slots ctrl m0" using i by (auto simp: slots_def)
  have al: "aligned a" using slots_aligned [OF t a] .
  have new: "h_syscall (hooks s ! j) \<noteq> a" if "active s j" for j
  proof
    assume "h_syscall (hooks s ! j) = a"
    then have "addr = stubs ! j" using that ok i(3) unfolding hooks_ok_def by blast
    then show False using addr that len(2) by (simp add: active_def)
  qed
  then have m0: "lw m0 a = addr" using ok al i(3) unfolding hooks_ok_def by metis
  let ?h = "(hooks s ! k)\<lparr>h_syscall := a, h_func := addr, h_ret := ret, h_sleep := sleep, h_param := take APIHOOK_MAXPARAM format, h_name := name\<rparr>"
  let ?t = "s\<lparr>hooks := (hooks s)[k := ?h], hmem := sw (hmem s) a (h_hookfunc (hooks s ! k))\<rparr>"
  have r: "snd (hook_generic ctrl addr name ret format sleep s) = ?t"
    using k by (simp add: hook_generic_def apiHookAddr_def Let_def)
  have act: "active ?t j \<longleftrightarrow> j = k \<or> active s j" for j using k(2) free len by (auto simp: active_def nth_list_update)
  have nk: "\<not> active s k" using free by (simp add: active_def)
  have hk: "h_hookfunc (hooks s ! k) = stubs ! k" using stubs free(1) len by (metis nth_map)
  have al_slot: "aligned (h_syscall (hooks s ! j))" if "active s j" for j
    using slots_aligned [OF t] that ok unfolding hooks_ok_def by blast
  have nth: "hooks ?t ! j = (if j = k then ?h else hooks s ! j)" for j using free len by (simp add: nth_list_update)
  have "map h_hookfunc (hooks ?t) = stubs"
    using stubs by (simp add: map_update list_update_same_conv [symmetric] free len hk)
  moreover have "h_syscall (hooks ?t ! j) \<in> slots ctrl m0 \<and> lw m0 (h_syscall (hooks ?t ! j)) = h_func (hooks ?t ! j) \<and>
        lw (hmem ?t) (h_syscall (hooks ?t ! j)) = stubs ! j" if "active ?t j" for j
  proof (cases "j = k")
    case True
    then show ?thesis using a m0 hk nth by (simp add: lw_sw_same)
  next
    case False
    then have j: "active s j" using that act by simp
    then show ?thesis
      using ok new [OF j] al_slot [OF j] al False nth unfolding hooks_ok_def by (simp add: lw_sw_other)
  qed
  moreover have "h_syscall (hooks ?t ! i) \<noteq> h_syscall (hooks ?t ! j)" if "active ?t i" "active ?t j" "i \<noteq> j" for i j
    using that ok new act nth unfolding hooks_ok_def by (cases "i = k"; cases "j = k") auto
  moreover have "lw (hmem ?t) b = lw m0 b" if b: "aligned b" "\<forall>i. active ?t i \<longrightarrow> h_syscall (hooks ?t ! i) \<noteq> b" for b
  proof -
    have "h_syscall (hooks ?t ! k) = a" by (simp only: nth) simp
    then have "a \<noteq> b" using b(2) act [of k] by blast
    moreover have "\<forall>i. active s i \<longrightarrow> h_syscall (hooks s ! i) \<noteq> b" using b(2) act nth nk by metis
    ultimately show ?thesis using ok b(1) al unfolding hooks_ok_def by (simp add: lw_sw_other)
  qed
  ultimately show ?thesis unfolding r hooks_ok_def using len(2) by blast
qed (use ok in \<open>auto simp: hook_generic_def split: option.split\<close>)

lemma delete_ok:
  assumes ok: "hooks_ok ctrl stubs m0 s" and t: "syscalls_ok ctrl m0"
  shows "hooks_ok ctrl stubs m0 (apiHookGenericDelete n s)"
    and "active (apiHookGenericDelete n s) j \<longleftrightarrow> active s j \<and> int j \<noteq> n"
proof -
  have len: "length (hooks s) = APIHOOK_MAXIDS" "length stubs = APIHOOK_MAXIDS" and stubs: "map h_hookfunc (hooks s) = stubs"
    using ok unfolding hooks_ok_def by (metis length_map)+
  have "hooks_ok ctrl stubs m0 (apiHookGenericDelete n s) \<and> (\<forall>j. active (apiHookGenericDelete n s) j \<longleftrightarrow> active s j \<and> int j \<noteq> n)"
  proof (cases "0 \<le> n \<and> active s (nat n)")
    case False
    then have "apiHookGenericDelete n s = s" by (auto simp: apiHookGenericDelete_def active_def nat_less_iff)
    then show ?thesis using ok False by (auto simp: active_def)
  next
    case True
    let ?k = "nat n"
    have k: "active s ?k" "?k < APIHOOK_MAXIDS" using True by (auto simp: active_def)
    let ?h = "hooks s ! ?k"
    let ?t = "s\<lparr>hooks := (hooks s)[?k := ?h\<lparr>h_func := 0\<rparr>], hmem := sw (hmem s) (h_syscall ?h) (h_func ?h)\<rparr>"
    have r: "apiHookGenericDelete n s = ?t"
      using True k by (auto simp: apiHookGenericDelete_def active_def Let_def)
    have nth: "hooks ?t ! j = (if j = ?k then ?h\<lparr>h_func := 0\<rparr> else hooks s ! j)" for j
      using k(2) len by (simp add: nth_list_update)
    have act: "active ?t j \<longleftrightarrow> active s j \<and> j \<noteq> ?k" for j using nth [of j] by (auto simp: active_def)
    have slot: "aligned (h_syscall (hooks s ! j))" if "active s j" for j
      using slots_aligned [OF t] that ok unfolding hooks_ok_def by blast
    have other: "h_syscall (hooks s ! j) \<noteq> h_syscall ?h" if "active s j" "j \<noteq> ?k" for j
      using ok k(1) that unfolding hooks_ok_def by blast
    have "h_hookfunc ?h = stubs ! ?k" using stubs k(2) len by (metis nth_map)
    then have "map h_hookfunc (hooks ?t) = stubs" using stubs by (simp add: map_update)
    moreover have "h_syscall (hooks ?t ! j) \<in> slots ctrl m0 \<and> lw m0 (h_syscall (hooks ?t ! j)) = h_func (hooks ?t ! j) \<and>
        lw (hmem ?t) (h_syscall (hooks ?t ! j)) = stubs ! j" if "active ?t j" for j
    proof -
      have j: "active s j" "j \<noteq> ?k" using that act by simp_all
      have "lw (hmem ?t) (h_syscall (hooks s ! j)) = lw (hmem s) (h_syscall (hooks s ! j))"
        using slot [OF j(1)] slot [OF k(1)] other [OF j] by (simp add: lw_sw_other)
      then show ?thesis using ok j nth unfolding hooks_ok_def by simp
    qed
    moreover have "h_syscall (hooks ?t ! i) \<noteq> h_syscall (hooks ?t ! j)" if "active ?t i" "active ?t j" "i \<noteq> j" for i j
      using that ok act nth unfolding hooks_ok_def by auto
    moreover have "lw (hmem ?t) b = lw m0 b" if b: "aligned b" "\<forall>i. active ?t i \<longrightarrow> h_syscall (hooks ?t ! i) \<noteq> b" for b
    proof (cases "b = h_syscall ?h")
      case True
      then show ?thesis using ok k(1) unfolding hooks_ok_def by (simp add: lw_sw_same)
    next
      case False
      then have "\<forall>i. active s i \<longrightarrow> h_syscall (hooks s ! i) \<noteq> b" using b(2) act nth by metis
      then show ?thesis using ok b(1) slot [OF k(1)] False unfolding hooks_ok_def by (simp add: lw_sw_other)
    qed
    ultimately have "hooks_ok ctrl stubs m0 ?t" unfolding hooks_ok_def using len(2) by blast
    moreover have "int j \<noteq> n \<longleftrightarrow> j \<noteq> ?k" for j using True by linarith
    ultimately show ?thesis unfolding r using act by blast
  qed
  then show "hooks_ok ctrl stubs m0 (apiHookGenericDelete n s)" "active (apiHookGenericDelete n s) j \<longleftrightarrow> active s j \<and> int j \<noteq> n"
    by blast+
qed

text \<open>What the shell does with the hooks.\<close>

datatype hook_op =
  Hook_name u32 string char string bool
| Hook_nid u32 u32 char string bool
| Unhook int

fun hook_addr :: "hook_op \<Rightarrow> u32" where
  "hook_addr (Hook_name addr name ret format sleep) = addr"
| "hook_addr (Hook_nid addr nid ret format sleep) = addr"
| "hook_addr (Unhook n) = 0"

fun hook_do :: "u32 \<Rightarrow> hook_op \<Rightarrow> hook_state \<Rightarrow> hook_state" where
  "hook_do ctrl (Hook_name addr name ret format sleep) s = snd (apiHookGenericByName ctrl addr name ret format sleep s)"
| "hook_do ctrl (Hook_nid addr nid ret format sleep) s = snd (apiHookGenericByNid ctrl addr nid ret format sleep s)"
| "hook_do ctrl (Unhook n) s = apiHookGenericDelete n s"

lemma hook_do_ok:
  assumes "hooks_ok ctrl stubs m0 s" "syscalls_ok ctrl m0" "hook_addr x \<notin> set stubs"
  shows "hooks_ok ctrl stubs m0 (hook_do ctrl x s)"
  using hook_generic_ok [OF assms(1,2)] delete_ok(1) [OF assms(1,2)] assms(3)
  by (cases x) (simp_all add: apiHookGenericByName_def apiHookGenericByNid_def)

lemma start_ok: "length stubs = APIHOOK_MAXIDS \<Longrightarrow> hooks_ok ctrl stubs m0 \<lparr>hooks = g_apihooks stubs, hmem = m0\<rparr>"
  by (auto simp: hooks_ok_def g_apihooks_def active_def comp_def)

lemma words_equal:
  fixes m m' :: mem
  assumes w: "\<And>a. aligned a \<Longrightarrow> lw m a = lw m' a"
  shows "m = m'"
proof
  fix x :: u32
  define a where "a = x AND NOT 3"
  have a: "aligned a" using aligned_masks(1) by (simp add: a_def aligned_unat)
  have d: "x = a + (x AND 3)" unfolding a_def word_and_not_eq_diff by simp
  have "x AND 3 \<le> 3" by (rule word_and_le1)
  then have "unat (x AND 3) \<le> 3" by (simp add: word_le_nat_alt)
  then have "unat (x AND 3) = unat (0 :: u32) \<or> unat (x AND 3) = unat (1 :: u32) \<or>
      unat (x AND 3) = unat (2 :: u32) \<or> unat (x AND 3) = unat (3 :: u32)" by simp linarith
  then have "x AND 3 = 0 \<or> x AND 3 = 1 \<or> x AND 3 = 2 \<or> x AND 3 = 3" by (simp only: word_unat_eq_iff)
  then have x: "x = a \<or> x = a + 1 \<or> x = a + 2 \<or> x = a + 3" using d by (metis add.right_neutral)
  have b: "m a = ucast (lw m a)" "m (a + 1) = ucast (drop_bit 8 (lw m a))" "m (a + 2) = ucast (drop_bit 16 (lw m a))"
    "m (a + 3) = ucast (drop_bit 24 (lw m a))" for m
    by (simp_all only: lw_def byte_of_bytes)
  show "m x = m' x" using x b [of m] b [of m'] w [OF a] by auto
qed

lemma delete_all_ok:
  assumes "hooks_ok ctrl stubs m0 s" "syscalls_ok ctrl m0"
  shows "hooks_ok ctrl stubs m0 (fold apiHookGenericDelete ns s) \<and>
    (active (fold apiHookGenericDelete ns s) j \<longleftrightarrow> active s j \<and> int j \<notin> set ns)"
  using assms(1)
proof (induction ns arbitrary: s)
  case (Cons n ns)
  note ok = delete_ok [OF Cons.prems assms(2), of n]
  show ?case using Cons.IH [OF ok(1)] ok(2) by simp
qed simp

lemma hook_all_ok:
  assumes "hooks_ok ctrl stubs m0 s" "syscalls_ok ctrl m0" "list_all (\<lambda>x. hook_addr x \<notin> set stubs) ops"
  shows "hooks_ok ctrl stubs m0 (fold (hook_do ctrl) ops s)"
  using assms(1,3) by (induction ops arbitrary: s) (simp_all add: hook_do_ok assms(2))

lemma no_hooks_left:
  assumes "hooks_ok ctrl stubs m0 s" "\<And>j. \<not> active s j"
  shows "hmem s = m0"
  using assms unfolding hooks_ok_def by (intro words_equal) blast

text \<open>
  C15: The system-call table comes back. After any sequence of hooks set by name or identifier and deleted,
  whatever their names, formats and numbers, deleting all sixteen leaves the memory exactly as it was
  before the first, provided no hook's own entry is hooked. Until then every hook that is set stands in
  a slot of its own, which it took from the function it calls, and nothing else in memory has changed.
\<close>

theorem api_hooks_restored:
  assumes "syscalls_ok ctrl m0" "length stubs = APIHOOK_MAXIDS" "list_all (\<lambda>x. hook_addr x \<notin> set stubs) ops"
  shows "hooks_ok ctrl stubs m0 (fold (hook_do ctrl) ops \<lparr>hooks = g_apihooks stubs, hmem = m0\<rparr>) \<and>
    hmem (fold apiHookGenericDelete [0..15] (fold (hook_do ctrl) ops \<lparr>hooks = g_apihooks stubs, hmem = m0\<rparr>)) = m0"
proof -
  let ?s = "fold (hook_do ctrl) ops \<lparr>hooks = g_apihooks stubs, hmem = m0\<rparr>"
  have ok: "hooks_ok ctrl stubs m0 ?s" using start_ok [OF assms(2)] assms(1,3) by (rule hook_all_ok)
  note del = delete_all_ok [OF ok assms(1), of "[0..15]"]
  have "\<not> active (fold apiHookGenericDelete [0..15] ?s) j" for j using del by (auto simp: active_def)
  then show ?thesis using ok no_hooks_left del by blast
qed

text \<open>A table of two calls at \<open>0x100\<close>, whose address is at \<open>0x80\<close>.\<close>

definition example_calls :: mem where
  "example_calls = sw (sw (sw (sw (\<lambda>a. 0) 0x80 0x100) 0x10C 0x18) 0x110 0x5000) 0x114 0x6000"

lemma example_calls_words:
  "lw example_calls 0x80 = 0x100" "lw example_calls 0x10C = 0x18" "lw example_calls 0x110 = 0x5000"
  "lw example_calls 0x114 = 0x6000"
  by (simp_all add: example_calls_def lw_sw_same lw_sw_other aligned_unat)

lemma example_count: "syscall_count 0x80 example_calls = 2" "syscall_base 0x80 example_calls = 0x110"
  by (simp_all add: syscall_count_def syscall_base_def example_calls_words)

lemma example_table: "syscalls_ok 0x80 example_calls"
proof -
  have "0x80 \<noteq> (0x110 :: u32) + of_nat (4 * i)" if "i < 2" for i
  proof -
    have "i = 0 \<or> i = 1" using that by linarith
    then show ?thesis by (elim disjE) simp_all
  qed
  then show ?thesis unfolding syscalls_ok_def slots_def example_count example_calls_words by (auto simp: aligned_unat)
qed

theorem api_hooks_restored_witness:
  "hooks_ok 0x80 (replicate 16 0x9000) example_calls
      (fold (hook_do 0x80) [Hook_name 0x6000 ''f'' CHR ''i'' ''x'' False, Unhook 3]
         \<lparr>hooks = g_apihooks (replicate 16 0x9000), hmem = example_calls\<rparr>) \<and>
    hmem (fold apiHookGenericDelete [0..15] (fold (hook_do 0x80) [Hook_name 0x6000 ''f'' CHR ''i'' ''x'' False, Unhook 3]
         \<lparr>hooks = g_apihooks (replicate 16 0x9000), hmem = example_calls\<rparr>)) = example_calls"
  by (rule api_hooks_restored [OF example_table]) simp_all

text \<open>The hook of that example is set: the call's slot holds the address of the entry of hook 0.\<close>

lemma example_hooked:
  "lw (hmem (hook_do 0x80 (Hook_name 0x6000 ''f'' CHR ''i'' ''x'' False)
         \<lparr>hooks = g_apihooks (replicate 16 0x9000), hmem = example_calls\<rparr>)) 0x114 = 0x9000"
proof -
  let ?s = "\<lparr>hooks = g_apihooks (replicate 16 0x9000), hmem = example_calls\<rparr>"
  have "find_word example_calls 0x110 0x6000 0 2 = Some 1"
    by (auto simp: find_word_Some example_calls_words)
  then have "find_syscall_addr 0x80 (hmem ?s) 0x6000 = Some 0x114"
    by (simp add: find_syscall_addr_def example_count)
  moreover have "find_free_hook ?s = Some 0" by (simp add: find_free_hook_def g_apihooks_def replicate_app_Cons_same numeral_eq_Suc)
  moreover have "h_hookfunc (hooks ?s ! 0) = 0x9000" by (simp add: g_apihooks_def)
  ultimately show ?thesis
    by (simp add: apiHookGenericByName_def hook_generic_def apiHookAddr_def Let_def lw_sw_same aligned_unat)
qed
end
