(* ===== verification/ShellThread.thy ===== *)
theory ShellThread
  imports ShellFile
begin

text \<open>
  \<open>psplink/shell.c\<close>: the commands on the kernel's objects. A module or a thread is named by \<open>@name\<close> or
  by its identifier in hexadecimal; the objects of a kind are listed and shown (threads, event flags,
  semaphores, message boxes, callbacks, timers, pools, pipes, event handlers), threads are suspended,
  resumed, woken, ended, and thread events are watched (\<open>thmon\<close>).

  What the kernel answers is an argument: the result of a call with the block of values it fills in, of
  which the records below have the fields that are printed. \<open>ptr\<close> is the text \<open>printf\<close> gives a pointer.
\<close>

section \<open>Names and identifiers\<close>

text \<open>\<open>findm\<close>: \<open>sceKernelFindModuleByName\<close>; \<open>query\<close>: \<open>g_QueryModuleInfo\<close>.\<close>

definition get_module_uid :: "(int \<Rightarrow> int \<times> 'i) \<Rightarrow> (string \<Rightarrow> int option) \<Rightarrow> string \<Rightarrow> int \<times> string list" where
  "get_module_uid query findm name =
     (if chead name = CHR ''@'' then (module_refer query (findm (tl name)) False, [])
      else let (uid, endp) = strtoul16 name
           in if endp \<noteq> [] then (- 1, [''ERROR: Invalid uid '' @ name]) else (sint uid, []))"

text \<open>\<open>refer\<close>: the identifier for a name, \<open>None\<close> when the kernel reports an error.\<close>

definition get_thread_uid :: "(string \<Rightarrow> int option) \<Rightarrow> string \<Rightarrow> int \<times> string list" where
  "get_thread_uid refer name =
     (if chead name = CHR ''@''
      then (case refer (tl name) of
              None \<Rightarrow> (CMD_ERROR, [''ERROR: Invalid name '' @ name])
            | Some uid \<Rightarrow> (uid, []))
      else let (uid, endp) = strtoul16 name
           in if endp \<noteq> [] then (- 1, [''ERROR: Invalid uid '' @ name]) else (sint uid, []))"

section \<open>Lists and details\<close>

definition p32 :: "int \<Rightarrow> string" where
  "p32 uid = print_word (word_of_int uid)"

definition d32 :: "u32 \<Rightarrow> string" where
  "d32 w = dec_int (sint w)"

definition unknown :: "string \<Rightarrow> int \<Rightarrow> string" where
  "unknown name uid = ''ERROR: Unknown '' @ name @ '' '' @ p32 uid"

text \<open>
  \<open>ids\<close>: the identifiers the kernel stored, at most 100 as asked for; \<open>None\<close>: it reports an error.
\<close>

definition threadmanlist_cmd ::
  "string list \<Rightarrow> int list option \<Rightarrow> string \<Rightarrow> (int \<Rightarrow> bool \<Rightarrow> int \<times> string list) \<Rightarrow> int \<times> string list" where
  "threadmanlist_cmd argv ids name pinfo =
     (let verbose = (argv \<noteq> [] \<and> argv ! 0 = ''v'')
      in (CMD_OK,
          case ids of
            None \<Rightarrow> []
          | Some ids \<Rightarrow>
              (''<'' @ name @ '' List ('' @ dec_nat (length ids) @ '' entries)>'') #
              concat (map (\<lambda>uid. let (r, ls) = pinfo uid verbose in ls @ (if r < 0 then [unknown name uid] else [])) ids)))"

definition threadmaninfo_cmd ::
  "string list \<Rightarrow> string \<Rightarrow> (int \<Rightarrow> bool \<Rightarrow> int \<times> string list) \<Rightarrow> (string \<Rightarrow> int option) \<Rightarrow> int \<times> string list" where
  "threadmaninfo_cmd argv name pinfo refer =
     (let (uid, ls) = get_thread_uid refer (argv ! 0)
      in if 0 \<le> uid
         then let (r, ls') = pinfo uid True in (CMD_OK, ls @ ls' @ (if r < 0 then [unknown name uid] else []))
         else (CMD_ERROR, ls))"

text \<open>The common part of the functions that print an object.\<close>

definition print_info ::
  "(int \<Rightarrow> int \<times> 'i) \<Rightarrow> ('i \<Rightarrow> string) \<Rightarrow> ('i \<Rightarrow> string list) \<Rightarrow> int \<Rightarrow> bool \<Rightarrow> int \<times> string list" where
  "print_info refer name_of details uid verbose =
     (let (ret, info) = refer uid
      in (ret,
          if ret = 0
          then (''UID: '' @ p32 uid @ '' - Name: '' @ name_of info) # (if verbose then details info else [])
          else []))"

subsection \<open>Threads\<close>

definition get_thread_status :: "u32 \<Rightarrow> string" where
  "get_thread_status stat =
     (if stat AND 1 \<noteq> 0 then ''RUNNING '' else []) @ (if stat AND 2 \<noteq> 0 then ''READY '' else []) @
     (if stat AND 4 \<noteq> 0 then ''WAITING '' else []) @ (if stat AND 8 \<noteq> 0 then ''SUSPEND '' else []) @
     (if stat AND 16 \<noteq> 0 then ''STOPPED '' else []) @ (if stat AND 32 \<noteq> 0 then ''KILLED '' else [])"

record thread_info =
  ti_name :: string
  ti_attr :: u32
  ti_status :: u32
  ti_entry :: u32
  ti_stack :: u32
  ti_stackSize :: u32
  ti_gpReg :: u32
  ti_initPriority :: u32
  ti_currentPriority :: u32
  ti_waitType :: u32
  ti_waitId :: u32
  ti_wakeupCount :: u32
  ti_exitStatus :: u32
  ti_runClocks_low :: u32
  ti_intrPreemptCount :: u32
  ti_threadPreemptCount :: u32
  ti_releaseCount :: u32

text \<open>\<open>stack_free\<close>: \<open>sceKernelGetThreadStackFreeSize\<close>; \<open>cwd\<close>: the thread's directory, if the kernel has one.\<close>

definition print_threadinfo ::
  "(u32 \<Rightarrow> string) \<Rightarrow> (int \<Rightarrow> u32) \<Rightarrow> (int \<Rightarrow> string option) \<Rightarrow> (int \<Rightarrow> int \<times> thread_info) \<Rightarrow> int \<Rightarrow> bool \<Rightarrow> int \<times> string list" where
  "print_threadinfo ptr stack_free cwd refer uid =
     print_info refer ti_name (\<lambda>i.
       [''Attr: '' @ print_word (ti_attr i) @ '' - Status: '' @ d32 (ti_status i) @ ''/'' @ get_thread_status (ti_status i) @
          ''- Entry: '' @ ptr (ti_entry i),
        ''Stack: '' @ ptr (ti_stack i) @ '' - StackSize '' @ print_word (ti_stackSize i) @ '' - GP: '' @ print_word (ti_gpReg i),
        ''InitPri: '' @ d32 (ti_initPriority i) @ '' - CurrPri: '' @ d32 (ti_currentPriority i) @ '' - WaitType '' @ d32 (ti_waitType i),
        ''WaitId: '' @ print_word (ti_waitId i) @ '' - WakeupCount: '' @ d32 (ti_wakeupCount i) @ '' - ExitStatus: '' @ print_word (ti_exitStatus i),
        ''RunClocks: '' @ d32 (ti_runClocks_low i) @ '' - IntrPrempt: '' @ d32 (ti_intrPreemptCount i) @
          '' - ThreadPrempt: '' @ d32 (ti_threadPreemptCount i),
        ''ReleaseCount: '' @ d32 (ti_releaseCount i) @ '', StackFree: '' @ d32 (stack_free uid)] @
       (case cwd uid of None \<Rightarrow> [] | Some d \<Rightarrow> [''Current Dir: '' @ d])) uid"

subsection \<open>The other kinds\<close>

record event_info =
  ei_name :: string
  ei_attr :: u32
  ei_initPattern :: u32
  ei_currentPattern :: u32
  ei_numWaitThreads :: u32

definition print_eventinfo :: "(int \<Rightarrow> int \<times> event_info) \<Rightarrow> int \<Rightarrow> bool \<Rightarrow> int \<times> string list" where
  "print_eventinfo refer =
     print_info refer ei_name (\<lambda>i.
       [''Attr: '' @ print_word (ei_attr i) @ '' - initPattern '' @ print_word (ei_initPattern i) @
          '' - currPatten '' @ print_word (ei_currentPattern i),
        ''NumWaitThreads: '' @ print_word (ei_numWaitThreads i)])"

record sema_info =
  si_name :: string
  si_attr :: u32
  si_initCount :: u32
  si_currentCount :: u32
  si_maxCount :: u32
  si_numWaitThreads :: u32

definition print_semainfo :: "(int \<Rightarrow> int \<times> sema_info) \<Rightarrow> int \<Rightarrow> bool \<Rightarrow> int \<times> string list" where
  "print_semainfo refer =
     print_info refer si_name (\<lambda>i.
       [''Attr: '' @ print_word (si_attr i) @ '' - initCount: '' @ print_word (si_initCount i) @
          '' - currCount: '' @ print_word (si_currentCount i),
        ''maxCount: '' @ print_word (si_maxCount i) @ '' - NumWaitThreads: '' @ print_word (si_numWaitThreads i)])"

record mbox_info =
  mi_name :: string
  mi_attr :: u32
  mi_numWaitThreads :: u32
  mi_numMessages :: u32
  mi_firstMessage :: u32

definition print_mboxinfo :: "(u32 \<Rightarrow> string) \<Rightarrow> (int \<Rightarrow> int \<times> mbox_info) \<Rightarrow> int \<Rightarrow> bool \<Rightarrow> int \<times> string list" where
  "print_mboxinfo ptr refer =
     print_info refer mi_name (\<lambda>i.
       [''Attr: '' @ print_word (mi_attr i) @ '' - numWaitThreads: '' @ print_word (mi_numWaitThreads i) @
          '' - numMessages: '' @ print_word (mi_numMessages i),
        ''firstMessage '' @ ptr (mi_firstMessage i)])"

record cb_info =
  ci_name :: string
  ci_threadId :: u32
  ci_callback :: u32
  ci_common :: u32
  ci_notifyCount :: u32
  ci_notifyArg :: u32

definition print_cbinfo :: "(u32 \<Rightarrow> string) \<Rightarrow> (int \<Rightarrow> int \<times> cb_info) \<Rightarrow> int \<Rightarrow> bool \<Rightarrow> int \<times> string list" where
  "print_cbinfo ptr refer =
     print_info refer ci_name (\<lambda>i.
       [''threadId '' @ print_word (ci_threadId i) @ '' - callback '' @ ptr (ci_callback i) @ '' - common '' @ ptr (ci_common i),
        ''notifyCount '' @ d32 (ci_notifyCount i) @ '' - notifyArg '' @ d32 (ci_notifyArg i)])"

record vt_info =
  vi_name :: string
  vi_active :: u32
  vi_base_hi :: u32
  vi_base_low :: u32
  vi_current_hi :: u32
  vi_current_low :: u32
  vi_schedule_hi :: u32
  vi_schedule_low :: u32
  vi_handler :: u32
  vi_common :: u32

definition print_vtinfo :: "(u32 \<Rightarrow> string) \<Rightarrow> (int \<Rightarrow> int \<times> vt_info) \<Rightarrow> int \<Rightarrow> bool \<Rightarrow> int \<times> string list" where
  "print_vtinfo ptr refer =
     print_info refer vi_name (\<lambda>i.
       [''active '' @ d32 (vi_active i) @ '' - base.hi '' @ d32 (vi_base_hi i) @ '' - base.low '' @ d32 (vi_base_low i) @
          '' - current.hi '' @ d32 (vi_current_hi i) @ '' - current.low '' @ d32 (vi_current_low i),
        ''schedule.hi '' @ d32 (vi_schedule_hi i) @ '' - schedule.low '' @ d32 (vi_schedule_low i) @
          '' - handler '' @ ptr (vi_handler i) @ '' - common '' @ ptr (vi_common i)])"

record vpl_info =
  vp_name :: string
  vp_attr :: u32
  vp_poolSize :: u32
  vp_freeSize :: u32
  vp_numWaitThreads :: u32

definition print_vplinfo :: "(int \<Rightarrow> int \<times> vpl_info) \<Rightarrow> int \<Rightarrow> bool \<Rightarrow> int \<times> string list" where
  "print_vplinfo refer =
     print_info refer vp_name (\<lambda>i.
       [''Attr '' @ print_word (vp_attr i) @ '' - poolSize '' @ d32 (vp_poolSize i) @ '' - freeSize '' @ d32 (vp_freeSize i) @
          '' - numWaitThreads '' @ d32 (vp_numWaitThreads i)])"

record fpl_info =
  fp_name :: string
  fp_attr :: u32
  fp_blockSize :: u32
  fp_numBlocks :: u32
  fp_freeBlocks :: u32
  fp_numWaitThreads :: u32

definition print_fplinfo :: "(int \<Rightarrow> int \<times> fpl_info) \<Rightarrow> int \<Rightarrow> bool \<Rightarrow> int \<times> string list" where
  "print_fplinfo refer =
     print_info refer fp_name (\<lambda>i.
       [''Attr '' @ print_word (fp_attr i) @ '' - blockSize '' @ d32 (fp_blockSize i) @ '' - numBlocks '' @ d32 (fp_numBlocks i) @
          '' - freeBlocks '' @ d32 (fp_freeBlocks i) @ '' - numWaitThreads '' @ d32 (fp_numWaitThreads i)])"

record mpp_info =
  mp_name :: string
  mp_attr :: u32
  mp_bufSize :: u32
  mp_freeSize :: u32
  mp_numSendWaitThreads :: u32
  mp_numReceiveWaitThreads :: u32

definition print_mppinfo :: "(int \<Rightarrow> int \<times> mpp_info) \<Rightarrow> int \<Rightarrow> bool \<Rightarrow> int \<times> string list" where
  "print_mppinfo refer =
     print_info refer mp_name (\<lambda>i.
       [''Attr '' @ print_word (mp_attr i) @ '' - bufSize '' @ d32 (mp_bufSize i) @ '' - freeSize '' @ d32 (mp_freeSize i),
        ''numSendWaitThreads '' @ d32 (mp_numSendWaitThreads i) @ '' - numReceiveWaitThreads '' @ d32 (mp_numReceiveWaitThreads i)])"

record thev_info =
  te_name :: string
  te_threadId :: u32
  te_mask :: u32
  te_handler :: u32
  te_common :: u32

definition print_thevinfo :: "(u32 \<Rightarrow> string) \<Rightarrow> (int \<Rightarrow> int \<times> thev_info) \<Rightarrow> int \<Rightarrow> bool \<Rightarrow> int \<times> string list" where
  "print_thevinfo ptr refer =
     print_info refer te_name (\<lambda>i.
       [''threadId '' @ print_word (te_threadId i) @ '' - mask '' @ pad_zero 2 (hex_upper (unat (te_mask i))) @
          '' - handler '' @ ptr (te_handler i),
        ''common '' @ ptr (te_common i)])"

section \<open>The commands\<close>

text \<open>
  What the kernel answers about one kind of object: the identifiers (for each list the shell asks for),
  the identifier for a name, and the block of values.
\<close>

record 'i kind =
  k_ids :: "int list option"
  k_name :: "string \<Rightarrow> int option"
  k_info :: "int \<Rightarrow> int \<times> 'i"

datatype id_list = All_threads | Sleeping | Delayed | Suspended | Dormant

record thread_kind = "thread_info kind" +
  k_list :: "id_list \<Rightarrow> int list option"
  k_stack_free :: "int \<Rightarrow> u32"
  k_cwd :: "int \<Rightarrow> string option"

definition show_thread :: "(u32 \<Rightarrow> string) \<Rightarrow> thread_kind \<Rightarrow> int \<Rightarrow> bool \<Rightarrow> int \<times> string list" where
  "show_thread ptr k = print_threadinfo ptr (k_stack_free k) (k_cwd k) (k_info k)"

definition thlist_cmd :: "(u32 \<Rightarrow> string) \<Rightarrow> thread_kind \<Rightarrow> string list \<Rightarrow> int \<times> string list" where
  "thlist_cmd ptr k argv = threadmanlist_cmd argv (k_list k All_threads) ''Thread'' (show_thread ptr k)"

definition thsllist_cmd :: "(u32 \<Rightarrow> string) \<Rightarrow> thread_kind \<Rightarrow> string list \<Rightarrow> int \<times> string list" where
  "thsllist_cmd ptr k argv = threadmanlist_cmd argv (k_list k Sleeping) ''Sleep Thread'' (show_thread ptr k)"

definition thdelist_cmd :: "(u32 \<Rightarrow> string) \<Rightarrow> thread_kind \<Rightarrow> string list \<Rightarrow> int \<times> string list" where
  "thdelist_cmd ptr k argv = threadmanlist_cmd argv (k_list k Delayed) ''Delay Thread'' (show_thread ptr k)"

definition thsulist_cmd :: "(u32 \<Rightarrow> string) \<Rightarrow> thread_kind \<Rightarrow> string list \<Rightarrow> int \<times> string list" where
  "thsulist_cmd ptr k argv = threadmanlist_cmd argv (k_list k Suspended) ''Suspend Thread'' (show_thread ptr k)"

definition thdolist_cmd :: "(u32 \<Rightarrow> string) \<Rightarrow> thread_kind \<Rightarrow> string list \<Rightarrow> int \<times> string list" where
  "thdolist_cmd ptr k argv = threadmanlist_cmd argv (k_list k Dormant) ''Dormant Thread'' (show_thread ptr k)"

definition thinfo_cmd :: "(u32 \<Rightarrow> string) \<Rightarrow> thread_kind \<Rightarrow> string list \<Rightarrow> int \<times> string list" where
  "thinfo_cmd ptr k argv = threadmaninfo_cmd argv ''Thread'' (show_thread ptr k) (k_name k)"

definition evlist_cmd :: "event_info kind \<Rightarrow> string list \<Rightarrow> int \<times> string list" where
  "evlist_cmd k argv = threadmanlist_cmd argv (k_ids k) ''EventFlag'' (print_eventinfo (k_info k))"

definition evinfo_cmd :: "event_info kind \<Rightarrow> string list \<Rightarrow> int \<times> string list" where
  "evinfo_cmd k argv = threadmaninfo_cmd argv ''EventFlag'' (print_eventinfo (k_info k)) (k_name k)"

definition smlist_cmd :: "sema_info kind \<Rightarrow> string list \<Rightarrow> int \<times> string list" where
  "smlist_cmd k argv = threadmanlist_cmd argv (k_ids k) ''Semaphore'' (print_semainfo (k_info k))"

definition sminfo_cmd :: "sema_info kind \<Rightarrow> string list \<Rightarrow> int \<times> string list" where
  "sminfo_cmd k argv = threadmaninfo_cmd argv ''Semaphore'' (print_semainfo (k_info k)) (k_name k)"

definition mxlist_cmd :: "(u32 \<Rightarrow> string) \<Rightarrow> mbox_info kind \<Rightarrow> string list \<Rightarrow> int \<times> string list" where
  "mxlist_cmd ptr k argv = threadmanlist_cmd argv (k_ids k) ''Message Box'' (print_mboxinfo ptr (k_info k))"

definition mxinfo_cmd :: "(u32 \<Rightarrow> string) \<Rightarrow> mbox_info kind \<Rightarrow> string list \<Rightarrow> int \<times> string list" where
  "mxinfo_cmd ptr k argv = threadmaninfo_cmd argv ''Message Box'' (print_mboxinfo ptr (k_info k)) (k_name k)"

definition cblist_cmd :: "(u32 \<Rightarrow> string) \<Rightarrow> cb_info kind \<Rightarrow> string list \<Rightarrow> int \<times> string list" where
  "cblist_cmd ptr k argv = threadmanlist_cmd argv (k_ids k) ''Callback'' (print_cbinfo ptr (k_info k))"

definition cbinfo_cmd :: "(u32 \<Rightarrow> string) \<Rightarrow> cb_info kind \<Rightarrow> string list \<Rightarrow> int \<times> string list" where
  "cbinfo_cmd ptr k argv = threadmaninfo_cmd argv ''Callback'' (print_cbinfo ptr (k_info k)) (k_name k)"

definition vtlist_cmd :: "(u32 \<Rightarrow> string) \<Rightarrow> vt_info kind \<Rightarrow> string list \<Rightarrow> int \<times> string list" where
  "vtlist_cmd ptr k argv = threadmanlist_cmd argv (k_ids k) ''VTimer'' (print_vtinfo ptr (k_info k))"

definition vtinfo_cmd :: "(u32 \<Rightarrow> string) \<Rightarrow> vt_info kind \<Rightarrow> string list \<Rightarrow> int \<times> string list" where
  "vtinfo_cmd ptr k argv = threadmaninfo_cmd argv ''VTimer'' (print_vtinfo ptr (k_info k)) (k_name k)"

definition vpllist_cmd :: "vpl_info kind \<Rightarrow> string list \<Rightarrow> int \<times> string list" where
  "vpllist_cmd k argv = threadmanlist_cmd argv (k_ids k) ''Vpl'' (print_vplinfo (k_info k))"

definition vplinfo_cmd :: "vpl_info kind \<Rightarrow> string list \<Rightarrow> int \<times> string list" where
  "vplinfo_cmd k argv = threadmaninfo_cmd argv ''Vpl'' (print_vplinfo (k_info k)) (k_name k)"

definition fpllist_cmd :: "fpl_info kind \<Rightarrow> string list \<Rightarrow> int \<times> string list" where
  "fpllist_cmd k argv = threadmanlist_cmd argv (k_ids k) ''Fpl'' (print_fplinfo (k_info k))"

definition fplinfo_cmd :: "fpl_info kind \<Rightarrow> string list \<Rightarrow> int \<times> string list" where
  "fplinfo_cmd k argv = threadmaninfo_cmd argv ''Fpl'' (print_fplinfo (k_info k)) (k_name k)"

definition mpplist_cmd :: "mpp_info kind \<Rightarrow> string list \<Rightarrow> int \<times> string list" where
  "mpplist_cmd k argv = threadmanlist_cmd argv (k_ids k) ''Message Pipe'' (print_mppinfo (k_info k))"

definition mppinfo_cmd :: "mpp_info kind \<Rightarrow> string list \<Rightarrow> int \<times> string list" where
  "mppinfo_cmd k argv = threadmaninfo_cmd argv ''Message Pipe'' (print_mppinfo (k_info k)) (k_name k)"

definition thevlist_cmd :: "(u32 \<Rightarrow> string) \<Rightarrow> thev_info kind \<Rightarrow> string list \<Rightarrow> int \<times> string list" where
  "thevlist_cmd ptr k argv = threadmanlist_cmd argv (k_ids k) ''Thread Event Handler'' (print_thevinfo ptr (k_info k))"

definition thevinfo_cmd :: "(u32 \<Rightarrow> string) \<Rightarrow> thev_info kind \<Rightarrow> string list \<Rightarrow> int \<times> string list" where
  "thevinfo_cmd ptr k argv = threadmaninfo_cmd argv ''Thread Event Handler'' (print_thevinfo ptr (k_info k)) (k_name k)"

subsection \<open>Acting on threads\<close>

datatype thread_call =
  Suspend int
| Suspend_all_user
| Resume int
| Wakeup int
| Terminate int
| Delete int
| Terminate_delete int
| Find_context int
| Change_priority int u32
| Release_handler int
| Register_handler int u32

text \<open>The result, what is printed, and the call that is made.\<close>

definition thread_do_cmd ::
  "(thread_call \<Rightarrow> int) \<Rightarrow> (string \<Rightarrow> int option) \<Rightarrow> string \<Rightarrow> string \<Rightarrow> (int \<Rightarrow> thread_call) \<Rightarrow> int \<times> string list \<times> thread_call list" where
  "thread_do_cmd result refer name type fn =
     (let (uid, ls) = get_thread_uid refer name
      in if 0 \<le> uid
         then let err = result (fn uid)
              in (CMD_OK,
                  ls @ (if err < 0 then [''Cannot '' @ type @ '' uid '' @ p32 uid @ '' (error: '' @ p32 err @ '')''] else []),
                  [fn uid])
         else (CMD_ERROR, ls, []))"

type_synonym thread_cmd = "(thread_call \<Rightarrow> int) \<Rightarrow> (string \<Rightarrow> int option) \<Rightarrow> string list \<Rightarrow> int \<times> string list \<times> thread_call list"

definition thsusp_cmd :: thread_cmd where
  "thsusp_cmd result refer argv = thread_do_cmd result refer (argv ! 0) ''suspend'' Suspend"

definition thspuser_cmd :: thread_cmd where
  "thspuser_cmd result refer argv = (CMD_OK, [], [Suspend_all_user])"

definition thresm_cmd :: thread_cmd where
  "thresm_cmd result refer argv = thread_do_cmd result refer (argv ! 0) ''resume'' Resume"

definition thwake_cmd :: thread_cmd where
  "thwake_cmd result refer argv = thread_do_cmd result refer (argv ! 0) ''wakeup'' Wakeup"

definition thterm_cmd :: thread_cmd where
  "thterm_cmd result refer argv = thread_do_cmd result refer (argv ! 0) ''terminate'' Terminate"

definition thdel_cmd :: thread_cmd where
  "thdel_cmd result refer argv = thread_do_cmd result refer (argv ! 0) ''delete'' Delete"

definition thtdel_cmd :: thread_cmd where
  "thtdel_cmd result refer argv = thread_do_cmd result refer (argv ! 0) ''terminate delete'' Terminate_delete"

definition thctx_cmd :: thread_cmd where
  "thctx_cmd result refer argv = thread_do_cmd result refer (argv ! 0) ''get context'' Find_context"

definition thpri_cmd :: thread_cmd where
  "thpri_cmd result refer argv =
     (let (uid, ls) = get_thread_uid refer (argv ! 0)
      in if 0 \<le> uid
         then (case strtoint (argv ! 1) of
                 None \<Rightarrow> (CMD_ERROR, ls, [])
               | Some pri \<Rightarrow>
                   let err = result (Change_priority uid pri)
                   in (CMD_OK,
                       ls @ (if err < 0 then [''Cannot change priority uid '' @ p32 uid @ '' (error: '' @ p32 err @ '')''] else []),
                       [Change_priority uid pri]))
         else (CMD_ERROR, ls, []))"

subsection \<open>Watching thread events\<close>

abbreviation THREAD_CREATE :: u32 where "THREAD_CREATE \<equiv> 1"
abbreviation THREAD_START :: u32 where "THREAD_START \<equiv> 2"
abbreviation THREAD_EXIT :: u32 where "THREAD_EXIT \<equiv> 4"
abbreviation THREAD_DELETE :: u32 where "THREAD_DELETE \<equiv> 8"

text \<open>The identifiers of the SDK for all threads, those of the user and those of the kernel.\<close>

abbreviation THREADEVENT_ALL :: int where "THREADEVENT_ALL \<equiv> 0xFFFFFFFF - 0x100000000"
abbreviation THREADEVENT_KERN :: int where "THREADEVENT_KERN \<equiv> 0xFFFFFFF8 - 0x100000000"
abbreviation THREADEVENT_USER :: int where "THREADEVENT_USER \<equiv> 0xFFFFFFF0 - 0x100000000"

definition thread_event_handler :: "(int \<Rightarrow> int \<times> thread_info) \<Rightarrow> u32 \<Rightarrow> int \<Rightarrow> string" where
  "thread_event_handler refer evm thid =
     (let event = (if evm = THREAD_CREATE then ''Create'' else if evm = THREAD_START then ''Start''
                   else if evm = THREAD_EXIT then ''Exit'' else if evm = THREAD_DELETE then ''Delete'' else ''Unknown'');
          thname = (let (r, info) = refer thid in if r = 0 then ti_name info else ''Unknown'')
      in ''Thread '' @ pad_right 6 event @ '': thid '' @ p32 thid @ '' name '' @ thname)"

fun event_mask :: "string \<Rightarrow> u32 \<Rightarrow> u32" where
  "event_mask [] evm = evm"
| "event_mask (c # cs) evm =
     event_mask cs
       (if c = CHR ''c'' then evm OR THREAD_CREATE else if c = CHR ''s'' then evm OR THREAD_START
        else if c = CHR ''e'' then evm OR THREAD_EXIT else if c = CHR ''d'' then evm OR THREAD_DELETE else evm)"

text \<open>\<open>g_context.thevent\<close>, and the calls made so far.\<close>

record thmon_state =
  thevent :: int
  handler_calls :: "thread_call list"

definition release_handler :: "thmon_state \<Rightarrow> thmon_state" where
  "release_handler s =
     (if 0 \<le> thevent s then s\<lparr>thevent := - 1, handler_calls := handler_calls s @ [Release_handler (thevent s)]\<rparr> else s)"

text \<open>\<open>register\<close>: the identifier of the new handler, or the error.\<close>

definition thmon_cmd :: "(thread_call list \<Rightarrow> int) \<Rightarrow> string list \<Rightarrow> thmon_state \<Rightarrow> int \<times> thmon_state" where
  "thmon_cmd register argv s =
     (let s = release_handler s; c = chead (argv ! 0)
      in if c \<noteq> CHR ''a'' \<and> c \<noteq> CHR ''u'' \<and> c \<noteq> CHR ''k'' then (CMD_ERROR, s)
         else let uid = (if c = CHR ''a'' then THREADEVENT_ALL else if c = CHR ''u'' then THREADEVENT_USER else THREADEVENT_KERN);
                  evm = (if 1 < length argv then event_mask (argv ! 1) 0
                          else THREAD_CREATE OR THREAD_START OR THREAD_EXIT OR THREAD_DELETE)
              in (CMD_OK, s\<lparr>thevent := register (handler_calls s), handler_calls := handler_calls s @ [Register_handler uid evm]\<rparr>))"

definition thmonoff_cmd :: "thmon_state \<Rightarrow> int \<times> thmon_state" where
  "thmonoff_cmd s = (CMD_OK, release_handler s)"

section \<open>What a list prints, a command takes\<close>

lemma strtoul16_print_word: "strtoul16 (print_word v) = (v, [])"
proof -
  let ?h = "pad_zero 8 (hex_upper (unat v))"
  have n: "number_base (CHR ''0'' # CHR ''x'' # ?h) = hex_base (CHR ''0'' # CHR ''x'' # ?h)"
    if "is_hex (hd ?h)" "?h \<noteq> []"
    using that by (cases ?h) (simp_all add: number_base_def hex_base_def)
  have ne: "?h \<noteq> []" by (simp add: pad_zero_def hex_upper_def)
  then have "is_hex (hd ?h)" using pad_zero_hex_chars [of "hd ?h" 8 "unat v"] by (simp add: digit_in_def)
  from n [OF this ne] have "number_base (print_word v) = hex_base (print_word v)" by (simp add: print_word_def)
  moreover have "dropWhile c_isspace (print_word v) = print_word v" "chead (print_word v) = CHR ''0''"
    by (simp_all add: print_word_def c_isspace_def)
  ultimately have "strtoul16 (print_word v) = strtoul (print_word v)"
    by (simp add: strtoul16_def strtoul_def strtoul_by_def Let_def)
  then show ?thesis by simp
qed

lemma get_uid_printed:
  assumes "0 \<le> uid" "uid < 2 ^ 31"
  shows "get_module_uid query findm (p32 uid) = (uid, [])" "get_thread_uid refer (p32 uid) = (uid, [])"
proof -
  have "sint (word_of_int uid :: u32) = uid" using assms by (simp add: signed_of_int signed_take_bit_int_eq_self)
  moreover have "chead (p32 uid) \<noteq> CHR ''@''" by (simp add: p32_def print_word_def)
  ultimately show "get_module_uid query findm (p32 uid) = (uid, [])" "get_thread_uid refer (p32 uid) = (uid, [])"
    by (simp_all add: get_module_uid_def get_thread_uid_def p32_def strtoul16_print_word)
qed

lemma list_line_shows:
  assumes "refer uid = (0, i)"
  shows "snd (print_info refer nm details uid verbose) =
    (''UID: '' @ p32 uid @ '' - Name: '' @ nm i) # (if verbose then details i else [])"
  using assms by (simp add: print_info_def)

text \<open>
  What a list prints, a command takes. The first line a list prints for an object shows an identifier
  that, given as the argument of a thread command, makes the one call on that object and on no other; and
  the name that line shows, after an at sign, makes the same call when the kernel finds the object by it.
\<close>

theorem listed_identifiers_act:
  assumes "0 \<le> uid" "uid < 2 ^ 31" "k_info k uid = (0, i)" "refer (ti_name i) = Some uid"
  shows "\<exists>text. hd (snd (show_thread ptr k uid verbose)) = ''UID: '' @ text @ '' - Name: '' @ ti_name i \<and>
    snd (snd (thread_do_cmd result refer text type fn)) = [fn uid] \<and>
    snd (snd (thread_do_cmd result refer (CHR ''@'' # ti_name i) type fn)) = [fn uid]"
proof -
  have "hd (snd (show_thread ptr k uid verbose)) = ''UID: '' @ p32 uid @ '' - Name: '' @ ti_name i"
    using list_line_shows [of "k_info k" uid i] assms(3) by (simp add: show_thread_def print_threadinfo_def)
  moreover have "snd (snd (thread_do_cmd result refer (p32 uid) type fn)) = [fn uid]"
    using get_uid_printed [OF assms(1,2)] assms(1) by (simp add: thread_do_cmd_def Let_def)
  moreover have "snd (snd (thread_do_cmd result refer (CHR ''@'' # ti_name i) type fn)) = [fn uid]"
    using assms(1,4) by (simp add: thread_do_cmd_def get_thread_uid_def Let_def)
  ultimately show ?thesis by blast
qed

definition main_thread :: thread_info where
  "main_thread =
     \<lparr>ti_name = ''main'', ti_attr = 0, ti_status = 2, ti_entry = 0x08804000, ti_stack = 0x09F00000, ti_stackSize = 0x4000,
      ti_gpReg = 0, ti_initPriority = 32, ti_currentPriority = 32, ti_waitType = 0, ti_waitId = 0, ti_wakeupCount = 0,
      ti_exitStatus = 0, ti_runClocks_low = 100, ti_intrPreemptCount = 0, ti_threadPreemptCount = 1, ti_releaseCount = 0\<rparr>"

definition example_threads :: thread_kind where
  "example_threads =
     \<lparr>k_ids = None, k_name = \<lambda>nm. if nm = ''main'' then Some 0x4A1B else None,
      k_info = \<lambda>uid. if uid = 0x4A1B then (0, main_thread) else (- 1, main_thread),
      k_list = \<lambda>l. Some [0x4A1B], k_stack_free = \<lambda>_. 0x1000, k_cwd = \<lambda>_. Some ''ms0:/''\<rparr>"

theorem listed_identifiers_act_witness:
  "\<exists>text. hd (snd (show_thread print_word example_threads 0x4A1B True)) = ''UID: '' @ text @ '' - Name: '' @ ti_name main_thread \<and>
    snd (snd (thread_do_cmd (\<lambda>_. 0) (k_name example_threads) text ''suspend'' Suspend)) = [Suspend 0x4A1B] \<and>
    snd (snd (thread_do_cmd (\<lambda>_. 0) (k_name example_threads) (CHR ''@'' # ti_name main_thread) ''suspend'' Suspend)) = [Suspend 0x4A1B]"
  by (rule listed_identifiers_act) (simp_all add: example_threads_def main_thread_def)

section \<open>One handler\<close>

text \<open>The handlers that are registered after some calls.\<close>

fun live :: "(thread_call list \<Rightarrow> int) \<Rightarrow> thread_call list \<Rightarrow> thread_call list \<Rightarrow> int set \<Rightarrow> int set" where
  "live register h [] ids = ids"
| "live register h (c # cs) ids =
     live register (h @ [c]) cs
       (case c of
          Register_handler uid evm \<Rightarrow> (if 0 \<le> register h then insert (register h) ids else ids)
        | Release_handler i \<Rightarrow> ids - {i}
        | _ \<Rightarrow> ids)"

lemma live_snoc:
  "live register h (cs @ [c]) ids =
     (case c of
        Register_handler uid evm \<Rightarrow> (if 0 \<le> register (h @ cs) then insert (register (h @ cs)) (live register h cs ids) else live register h cs ids)
      | Release_handler i \<Rightarrow> live register h cs ids - {i}
      | _ \<Rightarrow> live register h cs ids)"
  by (induction cs arbitrary: h ids) (auto split: thread_call.split)

definition one_handler :: "(thread_call list \<Rightarrow> int) \<Rightarrow> thmon_state \<Rightarrow> bool" where
  "one_handler register s \<longleftrightarrow> live register [] (handler_calls s) {} = (if 0 \<le> thevent s then {thevent s} else {})"

lemma release_one: "one_handler register s \<Longrightarrow> one_handler register (release_handler s) \<and> thevent (release_handler s) < 0"
  by (auto simp: one_handler_def release_handler_def live_snoc)

datatype monitor = Thmon "string list" | Thmonoff

fun monitor_do :: "(thread_call list \<Rightarrow> int) \<Rightarrow> monitor \<Rightarrow> thmon_state \<Rightarrow> thmon_state" where
  "monitor_do register (Thmon argv) s = snd (thmon_cmd register argv s)"
| "monitor_do register Thmonoff s = snd (thmonoff_cmd s)"

lemma monitor_one: "one_handler register s \<Longrightarrow> one_handler register (monitor_do register x s)"
  using release_one [of register s]
  by (cases x) (auto simp: thmonoff_cmd_def thmon_cmd_def Let_def one_handler_def live_snoc)

text \<open>
  One handler. After any sequence of \<open>thmon\<close> and \<open>thmonoff\<close>, whatever their arguments and whether the
  kernel accepts the handlers, the handlers registered and not released are none, or the one whose
  identifier the shell keeps; after \<open>thmonoff\<close>, none.
\<close>

theorem thmon_one_handler:
  "one_handler register (fold (monitor_do register) xs \<lparr>thevent = - 1, handler_calls = []\<rparr>) \<and>
   live register [] (handler_calls (fold (monitor_do register) (xs @ [Thmonoff]) \<lparr>thevent = - 1, handler_calls = []\<rparr>)) {} = {}"
proof -
  have "one_handler register (fold (monitor_do register) xs s)" if "one_handler register s" for s
    using that by (induction xs arbitrary: s) (simp_all add: monitor_one)
  moreover have "one_handler register \<lparr>thevent = - 1, handler_calls = []\<rparr>" by (simp add: one_handler_def)
  ultimately have ok: "one_handler register (fold (monitor_do register) xs \<lparr>thevent = - 1, handler_calls = []\<rparr>)" by blast
  from release_one [OF this] show ?thesis using ok by (simp add: thmonoff_cmd_def one_handler_def)
qed
end
