(* ===== verification/ShellModule.thy ===== *)
theory ShellModule
  imports ShellThread ApiHook
begin

text \<open>
  \<open>psplink/shell.c\<close>: the commands on modules. A module is loaded, started, stopped and unloaded, its
  exports are found and hooked, it is shown and listed, and killed with its threads.

  The kernel is an argument (\<open>sys_answers\<close>); what it answers may depend on the calls made so far, which the
  state keeps in order. \<open>x_junk\<close> is what a path's buffer holds when no path was made.
\<close>

section \<open>The state\<close>

datatype sys_call =
  LoadModule string
| StartModule int string
| StopModule int
| UnloadModule int
| TerminateDeleteThread int
| LoadExec string string "string option"
| SuspendAllUserThreads
| ReleaseThreadEventHandler int
| Usb_call usb_call
| DisableHW
| TtyInit
| SioInit u32 bool
| ShellInit string string string string
| UmdActivate string
| HookExitGame
| WaitThreadEnd u32
| PatchException
| ExitGame

record query_info =
  m_name :: string
  m_attribute :: u16
  m_entry_addr :: u32
  m_gp_value :: u32
  m_text_addr :: u32
  m_text_size :: u32
  m_data_size :: u32
  m_bss_size :: u32
  m_nsegment :: nat
  m_segmentaddr :: "u32 list"
  m_segmentsize :: "u32 list"

text \<open>
  \<open>r_call\<close>: what a call returns after the calls before it; \<open>r_status\<close>: the status a stop or start leaves;
  \<open>r_thread\<close>: the entry of a thread, \<open>None\<close> when the kernel does not know it.
\<close>

record sys_answers =
  r_call :: "sys_call list \<Rightarrow> sys_call \<Rightarrow> int"
  r_status :: "sys_call list \<Rightarrow> u32"
  r_find :: "sys_call list \<Rightarrow> string \<Rightarrow> int option"
  r_query :: "sys_call list \<Rightarrow> int \<Rightarrow> int \<times> query_info"
  r_by_addr :: "sys_call list \<Rightarrow> u32 \<Rightarrow> int option"
  r_modules :: "sys_call list \<Rightarrow> int list option"
  r_threads :: "sys_call list \<Rightarrow> int list option"
  r_thread :: "sys_call list \<Rightarrow> int \<Rightarrow> u32 option"
  r_io :: io_answers

text \<open>The parts of \<open>g_context\<close> in use here and in the restart of the system.\<close>

record psp_context =
  x_bootfile :: string
  x_bootpath :: string
  x_currdir :: string
  x_execargs :: string
  x_execargv :: "nat list"
  x_execargc :: nat
  x_inexec :: bool
  x_execfile :: string
  x_netshelluid :: int
  x_conshelluid :: int
  x_thevent :: int
  x_wifi :: int
  x_wifishell :: bool
  x_usbshell :: bool
  x_conshell :: bool
  x_gdb :: bool
  x_usbgdb :: bool
  x_pid :: u32
  x_rebootkey :: int
  x_usb :: usb_state
  x_lastmod :: string
  x_junk :: string
  sys_calls :: "sys_call list"
  said_lines :: "string list"

definition tell :: "string \<Rightarrow> 'x psp_context_scheme \<Rightarrow> 'x psp_context_scheme" where
  "tell l st = st\<lparr>said_lines := said_lines st @ [l]\<rparr>"

definition tells :: "string list \<Rightarrow> 'x psp_context_scheme \<Rightarrow> 'x psp_context_scheme" where
  "tells ls st = st\<lparr>said_lines := said_lines st @ ls\<rparr>"

definition sys :: "sys_answers \<Rightarrow> sys_call \<Rightarrow> 'x psp_context_scheme \<Rightarrow> int \<times> 'x psp_context_scheme" where
  "sys k c st = (r_call k (sys_calls st) c, st\<lparr>sys_calls := sys_calls st @ [c]\<rparr>)"

text \<open>\<open>load_start_module\<close> of \<open>CUtil\<close>, with its calls.\<close>

definition start_module :: "sys_answers \<Rightarrow> string \<Rightarrow> string list \<Rightarrow> 'x psp_context_scheme \<Rightarrow> int \<times> 'x psp_context_scheme" where
  "start_module k name argv st =
     (let h = sys_calls st;
          (modid, block) = load_start_module (\<lambda>n. r_call k h (LoadModule n))
            (\<lambda>i args. r_call k (h @ [LoadModule name]) (StartModule i args)) name argv;
          h' = (case block of None \<Rightarrow> h @ [LoadModule name]
                | Some args \<Rightarrow> h @ [LoadModule name, StartModule (r_call k h (LoadModule name)) args])
      in (modid, st\<lparr>sys_calls := h'\<rparr>))"

definition module_uid :: "sys_answers \<Rightarrow> string \<Rightarrow> 'x psp_context_scheme \<Rightarrow> int \<times> 'x psp_context_scheme" where
  "module_uid k name st =
     (let (uid, ls) = get_module_uid (r_query k (sys_calls st)) (r_find k (sys_calls st)) name in (uid, tells ls st))"

definition file_path :: "sys_answers \<Rightarrow> string \<Rightarrow> 'x psp_context_scheme \<Rightarrow> string option" where
  "file_path k file st = handlepath (io_stat (r_io k)) (io_opens (r_io k)) (x_currdir st) file TYPE_FILE True"

type_synonym 'x sys_cmd = "string list \<Rightarrow> 'x psp_context_scheme \<Rightarrow> int \<times> 'x psp_context_scheme"

definition invalid_argument :: "string list \<Rightarrow> string" where
  "invalid_argument argv = ''ERROR: Invalid argument '' @ argv ! 0"

section \<open>Showing modules\<close>

definition h8 :: "u32 \<Rightarrow> string" where
  "h8 w = pad_zero 8 (hex_upper (unat w))"

definition segment_lines :: "query_info \<Rightarrow> string list" where
  "segment_lines i =
     map (\<lambda>j. ''Segment '' @ dec_nat j @ '': Addr '' @ print_word (m_segmentaddr i ! j) @ '' - Size '' @ print_word (m_segmentsize i ! j))
       [0..<min (m_nsegment i) 4]"

definition print_modinfo :: "(int \<Rightarrow> int \<times> query_info) \<Rightarrow> int \<Rightarrow> bool \<Rightarrow> int \<times> string list" where
  "print_modinfo query uid verbose =
     (let (ret, i) = query uid
      in (ret,
          if 0 \<le> ret
          then (''UID: '' @ p32 uid @ '' Attr: '' @ pad_zero 4 (hex_upper (unat (m_attribute i))) @ '' - Name: '' @ m_name i) #
            (if verbose
             then [''Entry: '' @ print_word (m_entry_addr i) @ '' - GP: '' @ print_word (m_gp_value i) @ '' - TextAddr: '' @ print_word (m_text_addr i),
                   ''TextSize: '' @ print_word (m_text_size i) @ '' - DataSize: '' @ print_word (m_data_size i) @ '' BssSize: '' @ print_word (m_bss_size i)]
                  @ segment_lines i
             else [])
          else []))"

definition modinfo_cmd :: "sys_answers \<Rightarrow> 'x sys_cmd" where
  "modinfo_cmd k argv st =
     (let (uid, st) = module_uid k (argv ! 0) st
      in if 0 \<le> uid
         then let (r, ls) = print_modinfo (r_query k (sys_calls st)) uid True
              in if r < 0 then (CMD_ERROR, tell (''ERROR: Unknown module '' @ p32 uid) st) else (CMD_OK, tells ls st)
         else (CMD_ERROR, tell (''ERROR: Invalid module '' @ argv ! 0) st))"

definition modlist_cmd :: "sys_answers \<Rightarrow> 'x sys_cmd" where
  "modlist_cmd k argv st =
     (let verbose = (argv \<noteq> [] \<and> argv ! 0 = ''v'')
      in (CMD_OK,
          case r_modules k (sys_calls st) of
            None \<Rightarrow> st
          | Some ids \<Rightarrow>
              tells ((''<Module List ('' @ dec_nat (length ids) @ '' modules)>'') #
                concat (map (\<lambda>uid. snd (print_modinfo (r_query k (sys_calls st)) uid verbose)) ids)) st))"

section \<open>Stopping and starting\<close>

definition modstop_cmd :: "sys_answers \<Rightarrow> 'x sys_cmd" where
  "modstop_cmd k argv st =
     (let (uid, st) = module_uid k (argv ! 0) st
      in if 0 \<le> uid
         then let (r, st) = sys k (StopModule uid) st
              in (CMD_OK, tell (''Module Stop '' @ p32 r @ '' Status '' @ print_word (r_status k (sys_calls st))) st)
         else (CMD_ERROR, tell (invalid_argument argv) st))"

definition modunld_cmd :: "sys_answers \<Rightarrow> 'x sys_cmd" where
  "modunld_cmd k argv st =
     (let (uid, st) = module_uid k (argv ! 0) st
      in if 0 \<le> uid
         then let (r, st) = sys k (UnloadModule uid) st in (CMD_OK, tell (''Module Unload '' @ p32 r) st)
         else (CMD_ERROR, tell (invalid_argument argv) st))"

definition modstun_cmd :: "sys_answers \<Rightarrow> 'x sys_cmd" where
  "modstun_cmd k argv st =
     (let (uid, st) = module_uid k (argv ! 0) st
      in if 0 \<le> uid
         then let (stop, st) = sys k (StopModule uid) st; status = r_status k (sys_calls st);
                  (unld, st) = sys k (UnloadModule uid) st
              in (CMD_OK, tell (''Module Stop/Unload '' @ p32 stop @ ''/'' @ p32 unld @ '' Status '' @ print_word status) st)
         else (CMD_ERROR, tell (invalid_argument argv) st))"

definition modstart_cmd :: "sys_answers \<Rightarrow> 'x sys_cmd" where
  "modstart_cmd k argv st =
     (let (uid, st) = module_uid k (argv ! 0) st
      in if 0 \<le> uid
         then let args = (if 1 < length argv then build_args (argv ! 1) (drop 2 argv) else build_args ''unknown'' []);
                  (r, st) = sys k (StartModule uid args) st
              in (CMD_OK, tell (''Module Start '' @ p32 r @ '' Status '' @ print_word (r_status k (sys_calls st))) st)
         else (CMD_ERROR, tell (invalid_argument argv) st))"

text \<open>The name of the module that was loaded last: 31 characters.\<close>

definition tell_loaded :: "sys_answers \<Rightarrow> string \<Rightarrow> int \<Rightarrow> 'x psp_context_scheme \<Rightarrow> 'x psp_context_scheme" where
  "tell_loaded k what modid st =
     (let (ok, info) = psplinkReferModule (r_query k (sys_calls st)) modid; line = what @ '' UID: '' @ p32 modid
      in if ok = 0 then tell line st
         else (tell (line @ '' Name: '' @ m_name info) st)\<lparr>x_lastmod := take 31 (m_name info)\<rparr>)"

definition modload_cmd :: "sys_answers \<Rightarrow> 'x sys_cmd" where
  "modload_cmd k argv st =
     (case file_path k (argv ! 0) st of
        None \<Rightarrow> (CMD_OK, tell (''Error invalid file '' @ x_junk st) st)
      | Some p \<Rightarrow>
          let (modid, st) = sys k (LoadModule p) st
          in (CMD_OK, tell_loaded k (''Module Load '' @ [CHR 0x27] @ p @ [CHR 0x27]) modid st))"

definition ldstart_cmd :: "sys_answers \<Rightarrow> 'x sys_cmd" where
  "ldstart_cmd k argv st =
     (if argv = [] then (CMD_ERROR, st)
      else case file_path k (argv ! 0) st of
        None \<Rightarrow> (CMD_ERROR, tell (''Error invalid file '' @ x_junk st) st)
      | Some p \<Rightarrow>
          let (modid, st) = start_module k p (tl argv) st
          in (CMD_OK,
              if 0 \<le> modid then tell_loaded k (''Load/Start '' @ p) modid st
              else tell (''Failed to Load/Start module '' @ [CHR 0x27] @ p @ [CHR 0x27] @ '' Error: '' @ p32 modid) st))"

section \<open>Killing a module\<close>

definition refer_module_by_addr :: "sys_answers \<Rightarrow> sys_call list \<Rightarrow> u32 \<Rightarrow> int" where
  "refer_module_by_addr k h addr = module_refer (r_query k h) (r_by_addr k h addr) True"

fun kill_threads :: "sys_answers \<Rightarrow> int \<Rightarrow> int list \<Rightarrow> 'x psp_context_scheme \<Rightarrow> 'x psp_context_scheme" where
  "kill_threads k uid [] st = st"
| "kill_threads k uid (t # ts) st =
     (case r_thread k (sys_calls st) t of
        None \<Rightarrow> kill_threads k uid ts st
      | Some ent \<Rightarrow>
          (if refer_module_by_addr k (sys_calls st) ent = uid
           then kill_threads k uid ts (snd (sys k (TerminateDeleteThread t) st))
           else kill_threads k uid ts st))"

definition kill_cmd :: "sys_answers \<Rightarrow> 'x sys_cmd" where
  "kill_cmd k argv st =
     (let (uid, st) = module_uid k (argv ! 0) st
      in if uid < 0 then (CMD_ERROR, st)
         else let (error, st) = sys k (StopModule uid) st
              in if error < 0 then (CMD_ERROR, tell (''Error could not stop module '' @ p32 error) st)
                 else let st = tell (''Stop status '' @ h8 (r_status k (sys_calls st))) st;
                          st = (case r_threads k (sys_calls st) of None \<Rightarrow> st | Some ids \<Rightarrow> kill_threads k uid ids st);
                          (r, st) = sys k (UnloadModule uid) st
                      in if r < 0 then (CMD_ERROR, tell ''Error could not unload module'' st) else (CMD_OK, st))"

section \<open>Exports and hooks\<close>

text \<open>What these commands use beside the kernel calls: the module tables, memory, the digest, the hooks.\<close>

record hook_env =
  he_module :: "int \<Rightarrow> lib_module option"
  he_sha1 :: "string \<Rightarrow> u8 list option"
  he_ctrl :: u32

text \<open>The listings of \<open>libs.c\<close> end when they come back (\<open>None\<close>: they do not).\<close>

definition modexp_cmd :: "(mem \<Rightarrow> lib_module option \<Rightarrow> (bool \<times> lib_line list) option) \<Rightarrow> hook_env \<Rightarrow> mem \<Rightarrow> sys_answers \<Rightarrow>
    string list \<Rightarrow> 'x psp_context_scheme \<Rightarrow> (int \<times> 'x psp_context_scheme \<times> lib_line list) option" where
  "modexp_cmd listing he m k argv st =
     (let (uid, st) = module_uid k (argv ! 0) st
      in if 0 \<le> uid
         then (case listing m (he_module he uid) of
                 None \<Rightarrow> None
               | Some (ok, lines) \<Rightarrow>
                   Some (if ok then (CMD_OK, st, lines)
                         else (CMD_ERROR, tell (''ERROR: Couldn'' @ [CHR 0x27] @ ''t find module '' @ argv ! 0) st, lines)))
         else Some (CMD_ERROR, tell (invalid_argument argv) st, []))"

definition modfindx_cmd :: "hook_env \<Rightarrow> mem \<Rightarrow> sys_answers \<Rightarrow> string list \<Rightarrow> 'x psp_context_scheme \<Rightarrow>
    (int \<times> 'x psp_context_scheme) option" where
  "modfindx_cmd he m k argv st =
     (let (uid, st) = module_uid k (argv ! 0) st;
          r = (if 0 \<le> uid
               then if chead (argv ! 2) = CHR ''@''
                    then map_option (\<lambda>a. (a, st)) (libsFindExportByName (he_sha1 he) m (he_module he uid) (Some (argv ! 1)) (tl (argv ! 2)))
                    else let (nid, endp) = strtoul16 (argv ! 2)
                         in if endp \<noteq> [] then Some (0, tell (''ERROR: Invalid nid '' @ argv ! 2) st)
                            else map_option (\<lambda>a. (a, st)) (libsFindExportByNid m (he_module he uid) (Some (argv ! 1)) nid)
               else Some (0, tell (invalid_argument argv) st))
      in map_option (\<lambda>(addr, st).
           if addr \<noteq> 0
           then (CMD_OK, tell (''Library: '' @ argv ! 1 @ '', Exp '' @ argv ! 2 @ '', Addr: '' @ print_word addr) st)
           else (CMD_ERROR, tell (''Couldn'' @ [CHR 0x27] @ ''t find module export'') st)) r)"

definition apihook_common :: "bool \<Rightarrow> hook_env \<Rightarrow> sys_answers \<Rightarrow> string list \<Rightarrow> hook_state \<Rightarrow> 'x psp_context_scheme \<Rightarrow>
    (int \<times> hook_state \<times> 'x psp_context_scheme) option" where
  "apihook_common sleep he k argv hs st =
     (let param = (if 4 < length argv then argv ! 4 else []);
          (uid, st) = module_uid k (argv ! 0) st;
          md = he_module he uid; lib = Some (argv ! 1); ret = chead (argv ! 3)
      in if 0 \<le> uid
         then if chead (argv ! 2) = CHR ''@''
              then map_option (\<lambda>addr.
                     let (ok, hs) = apiHookGenericByName (he_ctrl he) addr (tl (argv ! 2)) ret param sleep hs
                     in (if ok then CMD_OK else CMD_ERROR, hs, st)) (libsFindExportByName (he_sha1 he) (hmem hs) md lib (tl (argv ! 2)))
              else let (nid, endp) = strtoul16 (argv ! 2)
                   in if endp \<noteq> [] then Some (CMD_ERROR, hs, tell (''ERROR: Invalid nid '' @ argv ! 2) st)
                      else map_option (\<lambda>addr.
                             let (ok, hs) = apiHookGenericByNid (he_ctrl he) addr nid ret param False hs
                             in (if ok then CMD_OK else CMD_ERROR, hs, st)) (libsFindExportByNid (hmem hs) md lib nid)
         else Some (CMD_ERROR, hs, tell (invalid_argument argv) st))"

definition apihd_cmd :: "string list \<Rightarrow> hook_state \<Rightarrow> int \<times> hook_state" where
  "apihd_cmd argv hs =
     (case strtoint (argv ! 0) of
        None \<Rightarrow> (CMD_ERROR, hs)
      | Some i \<Rightarrow> (CMD_OK, apiHookGenericDelete (sint i) hs))"

section \<open>What kill does\<close>

lemma sys_calls_said [simp]:
  "sys_calls (tell l st) = sys_calls st" "sys_calls (tells ls st) = sys_calls st"
  by (simp_all add: tell_def tells_def)

lemma sys_calls_sys [simp]: "fst (sys k c st) = r_call k (sys_calls st) c" "sys_calls (snd (sys k c st)) = sys_calls st @ [c]"
  by (simp_all add: sys_def)

lemma module_uid_calls [simp]: "sys_calls (snd (module_uid k name st)) = sys_calls st"
  by (simp add: module_uid_def split: prod.split)

text \<open>A thread that the kernel knows and whose entry lies in the module.\<close>

definition in_module :: "sys_answers \<Rightarrow> sys_call list \<Rightarrow> int \<Rightarrow> int \<Rightarrow> bool" where
  "in_module k h uid t = (case r_thread k h t of None \<Rightarrow> False | Some ent \<Rightarrow> refer_module_by_addr k h ent = uid)"

text \<open>Ending a thread does not move the others between modules.\<close>

definition threads_stay :: "sys_answers \<Rightarrow> int \<Rightarrow> bool" where
  "threads_stay k uid \<longleftrightarrow>
     (\<forall>h t t'. t \<noteq> t' \<longrightarrow> in_module k (h @ [TerminateDeleteThread t]) uid t' = in_module k h uid t')"

lemma kill_threads_step:
  "kill_threads k uid (t # ts) st =
     (if in_module k (sys_calls st) uid t then kill_threads k uid ts (snd (sys k (TerminateDeleteThread t) st))
      else kill_threads k uid ts st)"
  by (simp add: in_module_def split: option.split)

lemma kill_threads_subseq:
  "\<exists>ths. sys_calls (kill_threads k uid ts st) = sys_calls st @ map TerminateDeleteThread ths \<and> set ths \<subseteq> set ts"
proof (induction ts arbitrary: st)
  case (Cons t ts)
  show ?case
  proof (cases "in_module k (sys_calls st) uid t")
    case True
    obtain ths where "sys_calls (kill_threads k uid ts (snd (sys k (TerminateDeleteThread t) st))) =
        (sys_calls st @ [TerminateDeleteThread t]) @ map TerminateDeleteThread ths" "set ths \<subseteq> set ts"
      using Cons.IH [of "snd (sys k (TerminateDeleteThread t) st)"] by auto
    then show ?thesis using True by (intro exI [of _ "t # ths"]) (auto simp: kill_threads_step simp del: kill_threads.simps)
  next
    case False
    then show ?thesis using Cons.IH [of st] by (auto simp: kill_threads_step simp del: kill_threads.simps)
  qed
qed simp

lemma kill_threads_exact:
  assumes "threads_stay k uid" "distinct ts"
  shows "sys_calls (kill_threads k uid ts st) =
    sys_calls st @ map TerminateDeleteThread (filter (in_module k (sys_calls st) uid) ts)"
  using assms(2)
proof (induction ts arbitrary: st)
  case (Cons t ts)
  let ?st = "snd (sys k (TerminateDeleteThread t) st)"
  have "filter (in_module k (sys_calls ?st) uid) ts = filter (in_module k (sys_calls st) uid) ts"
  proof (intro filter_cong refl)
    fix x assume "x \<in> set ts"
    then have "t \<noteq> x" using Cons.prems by auto
    then show "in_module k (sys_calls ?st) uid x = in_module k (sys_calls st) uid x"
      using assms(1) unfolding threads_stay_def by simp
  qed
  then show ?case using Cons by (simp add: kill_threads_step del: kill_threads.simps)
qed simp

lemma kill_cmd_calls:
  assumes "fst (module_uid k (argv ! 0) st) = uid" "0 \<le> uid" "0 \<le> r_call k (sys_calls st) (StopModule uid)"
  shows "sys_calls (snd (kill_cmd k argv st)) =
    sys_calls (case r_threads k (sys_calls st @ [StopModule uid]) of
        None \<Rightarrow> snd (sys k (StopModule uid) st)
      | Some ids \<Rightarrow> kill_threads k uid ids (tell (''Stop status '' @ h8 (r_status k (sys_calls st @ [StopModule uid])))
            (snd (sys k (StopModule uid) (snd (module_uid k (argv ! 0) st)))))) @ [UnloadModule uid]"
proof -
  obtain st1 where m: "module_uid k (argv ! 0) st = (uid, st1)" using assms(1) by (metis prod.collapse)
  have c: "sys_calls st1 = sys_calls st" using module_uid_calls [of k "argv ! 0" st] m by simp
  show ?thesis
    using assms(2,3) by (simp add: kill_cmd_def m c sys_def Let_def split: prod.split option.split)
qed

text \<open>
  C24: Kill. A module that can be stopped is stopped first and unloaded last; between, exactly those
  threads of the kernel's list are ended whose entry lies in the module, in the order of the list and
  each once, and no other call is made.
\<close>

theorem kill_cmd_ends_its_threads:
  assumes "fst (module_uid k (argv ! 0) st) = uid" "0 \<le> uid" "0 \<le> r_call k (sys_calls st) (StopModule uid)"
    and "r_threads k (sys_calls st @ [StopModule uid]) = Some ids" "distinct ids" "threads_stay k uid"
  shows "sys_calls (snd (kill_cmd k argv st)) =
    sys_calls st @ StopModule uid #
      map TerminateDeleteThread (filter (in_module k (sys_calls st @ [StopModule uid]) uid) ids) @ [UnloadModule uid]"
  unfolding kill_cmd_calls [OF assms(1-3)] by (simp add: kill_threads_exact [OF assms(6,5)] assms(4))

text \<open>A kernel with one module and three threads, two of them in it.\<close>

definition game_kernel :: sys_answers where
  "game_kernel =
     \<lparr>r_call = \<lambda>h c. 0, r_status = \<lambda>h. 0, r_find = \<lambda>h nm. if nm = ''game'' then Some 5 else None,
      r_query = \<lambda>h uid. (0, \<lparr>m_name = ''game'', m_attribute = 0, m_entry_addr = 0, m_gp_value = 0, m_text_addr = 0,
         m_text_size = 0, m_data_size = 0, m_bss_size = 0, m_nsegment = 0, m_segmentaddr = [], m_segmentsize = []\<rparr>),
      r_by_addr = \<lambda>h a. if a = 100 then Some 5 else Some 9, r_modules = \<lambda>h. Some [5, 9], r_threads = \<lambda>h. Some [1, 2, 3],
      r_thread = \<lambda>h t. Some (if t = 2 then 200 else 100), r_io = full_io []\<rparr>"

definition start_context :: psp_context where
  "start_context =
     \<lparr>x_bootfile = ''ms0:/psplink/psplink.pbp'', x_bootpath = ''ms0:/psplink/'', x_currdir = ''ms0:/'', x_execargs = [],
      x_execargv = [], x_execargc = 0, x_inexec = False, x_execfile = [], x_netshelluid = - 1, x_conshelluid = - 1,
      x_thevent = - 1, x_wifi = 0, x_wifishell = False, x_usbshell = True, x_conshell = False, x_gdb = False, x_usbgdb = False,
      x_pid = 0, x_rebootkey = 0, x_usb = usb_start, x_lastmod = [], x_junk = [], sys_calls = [], said_lines = []\<rparr>"

theorem kill_cmd_ends_its_threads_witness:
  "sys_calls (snd (kill_cmd game_kernel [''@game''] start_context)) =
    [StopModule 5, TerminateDeleteThread 1, TerminateDeleteThread 3, UnloadModule 5]"
proof -
  have s: "threads_stay game_kernel 5"
    by (simp add: threads_stay_def in_module_def game_kernel_def refer_module_by_addr_def module_refer_def psplinkReferModule_def)
  have u: "fst (module_uid game_kernel ([''@game''] ! 0) start_context) = 5"
    by (simp add: module_uid_def get_module_uid_def game_kernel_def module_refer_def)
  have "sys_calls (snd (kill_cmd game_kernel [''@game''] start_context)) =
    sys_calls start_context @ StopModule 5 #
      map TerminateDeleteThread (filter (in_module game_kernel (sys_calls start_context @ [StopModule 5]) 5) [1, 2, 3]) @ [UnloadModule 5]"
    by (rule kill_cmd_ends_its_threads [OF u _ _ _ _ s]) (simp_all add: game_kernel_def)
  then show ?thesis
    by (simp add: start_context_def in_module_def game_kernel_def refer_module_by_addr_def module_refer_def psplinkReferModule_def)
qed
end
