(* ===== verification/Restart.thy ===== *)
theory Restart
  imports ShellModule
begin

text \<open>
  How the system starts a program and starts again: the commands \<open>exec\<close>, \<open>modexec\<close>, \<open>debug\<close>, \<open>reset\<close>, \<open>wifi\<close>
  and \<open>wifishell\<close> of \<open>psplink/shell.c\<close>, the boot loader \<open>bootstrap/main.c\<close>, and \<open>psplink/main.c\<close>, which
  takes the boot loader's arguments, the configuration and what the last run saved, and loads the rest.

  Three programs run one after the other and hand each other a block of strings: the shell gives
  \<open>sceKernelLoadExec\<close> a block for the boot loader, the boot loader gives \<open>sceKernelStartModule\<close> another one for
  \<open>psplink.prx\<close>, and \<open>parse_sceargs\<close> reads that. The shell and the boot loader build their blocks with
  \<open>strcpy\<close> in arrays of 512 bytes on their stacks, without a test. A block that does not fit overruns the
  array and nothing is known of what follows: the outcome is \<open>None\<close>.
\<close>

section \<open>Blocks of strings\<close>

text \<open>
  The loop of \<open>parse_args\<close> (boot loader) and \<open>parse_sceargs\<close>: at most \<open>n\<close> strings. The byte behind a block
  is 0, as the kernel leaves it.
\<close>

fun arg_strings :: "nat \<Rightarrow> string \<Rightarrow> string list" where
  "arg_strings 0 blk = []"
| "arg_strings (Suc n) blk =
     (if blk = [] then [] else cstr blk # arg_strings n (drop (length (cstr blk) + 1) blk))"

text \<open>A path up to and with its last slash.\<close>

definition dir_part :: "string \<Rightarrow> string option" where
  "dir_part s = map_option (\<lambda>r. take (length s - length r + 1) s) (strrchr CHR ''/'' s)"

section \<open>The boot loader\<close>

definition boot_args :: "string \<Rightarrow> u32 \<Rightarrow> string option \<Rightarrow> string list \<Rightarrow> string" where
  "boot_args bootfile thid execfile argv =
     (let args = bootfile @ [CHR 0x00] @ h8 thid @ [CHR 0x00]
      in case execfile of None \<Rightarrow> args | Some e \<Rightarrow> args_loop argv (args @ e @ [CHR 0x00]))"

text \<open>
  The module that is loaded and the block it is started with. \<open>None\<close>: there is no first string, and
  \<open>strrchr\<close> gets a null pointer; or the path does not fit \<open>prx_path[256]\<close>, or the block \<open>prx_args[512]\<close>.
  Without a second string \<open>g_argv[1]\<close> is the null that ends the list. The block is only built when the
  module is loaded: the test here holds for that case.
\<close>

abbreviation PRX_PATH_LEN :: nat where "PRX_PATH_LEN \<equiv> 256"
abbreviation BOOT_ARGS_LEN :: nat where "BOOT_ARGS_LEN \<equiv> 512"

text \<open>A string (with its 0) or a block in an array of \<open>n\<close> bytes.\<close>

definition fits_array :: "nat \<Rightarrow> string \<Rightarrow> string option" where
  "fits_array n s = (if length s \<le> n then Some s else None)"

definition boot_main :: "u32 \<Rightarrow> string \<Rightarrow> (string \<times> string) option" where
  "boot_main thid blk =
     (let argv = arg_strings (MAX_ARGS - 1) blk
      in if argv = [] then None
         else let prx_path = (case dir_part (argv ! 0) of None \<Rightarrow> ''ms0:/psplink.prx'' | Some d \<Rightarrow> d @ ''psplink.prx'');
                  prx_args = boot_args (argv ! 0) thid (if 1 < length argv then Some (argv ! 1) else None) (drop 2 argv)
         in case (fits_array (PRX_PATH_LEN - 1) prx_path, fits_array BOOT_ARGS_LEN prx_args) of
              (Some prx, Some blk') \<Rightarrow> Some (prx, blk')
            | _ \<Rightarrow> None)"

section \<open>Loading the parts\<close>

definition load_psplink_user :: "sys_answers \<Rightarrow> 'x psp_context_scheme \<Rightarrow> 'x psp_context_scheme" where
  "load_psplink_user k st = snd (start_module k (x_bootpath st @ ''psplink_user.prx'') [] st)"

definition net_modules :: "string list" where
  "net_modules = [''flash0:/kd/ifhandle.prx'', ''flash0:/kd/pspnet.prx'', ''flash0:/kd/pspnet_inet.prx'',
     ''flash0:/kd/pspnet_apctl.prx'', ''flash0:/kd/pspnet_resolver.prx'']"

definition load_wifi :: "sys_answers \<Rightarrow> int \<Rightarrow> 'x psp_context_scheme \<Rightarrow> int \<times> 'x psp_context_scheme" where
  "load_wifi k ap st =
     (let st = fold (\<lambda>n st. snd (start_module k n [] st)) net_modules st
      in start_module k (x_bootpath st @ ''modnet.prx'') [dec_int ap] (st\<lparr>x_wifi := ap\<rparr>))"

definition load_wifishell :: "sys_answers \<Rightarrow> 'x psp_context_scheme \<Rightarrow> int \<times> 'x psp_context_scheme" where
  "load_wifishell k st = start_module k (x_bootpath st @ ''netshell.prx'') [] (st\<lparr>x_wifishell := True\<rparr>)"

definition load_usbshell :: "sys_answers \<Rightarrow> 'x psp_context_scheme \<Rightarrow> int \<times> 'x psp_context_scheme" where
  "load_usbshell k st = start_module k (x_bootpath st @ ''usbshell.prx'') [] (st\<lparr>x_usbshell := True\<rparr>)"

definition load_conshell :: "sys_answers \<Rightarrow> 'x psp_context_scheme \<Rightarrow> int \<times> 'x psp_context_scheme" where
  "load_conshell k st = start_module k (x_bootpath st @ ''conshell.prx'') [] (st\<lparr>x_conshell := True\<rparr>)"

definition load_gdb :: "sys_answers \<Rightarrow> string list \<Rightarrow> 'x psp_context_scheme \<Rightarrow> int \<times> 'x psp_context_scheme" where
  "load_gdb k argv st =
     start_module k (x_bootpath st @ (if x_usbgdb st then ''usbgdb.prx'' else ''netgdb.prx'')) argv (st\<lparr>x_gdb := True\<rparr>)"

text \<open>The boot loader's module is stopped and, if that worked, unloaded.\<close>

definition unload_loader :: "sys_answers \<Rightarrow> 'x psp_context_scheme \<Rightarrow> 'x psp_context_scheme" where
  "unload_loader k st =
     (case r_find k (sys_calls st) ''PSPLINKLOADER'' of
        None \<Rightarrow> tell (''Couldn'' @ [CHR 0x27] @ ''t find bootloader'') st
      | Some modid \<Rightarrow>
         (let (ret, st) = sys k (StopModule modid) st in if 0 \<le> ret then snd (sys k (UnloadModule modid) st) else st))"

section \<open>Stopping and resetting\<close>

definition psplinkStop :: "sys_answers \<Rightarrow> 'x psp_context_scheme \<Rightarrow> 'x psp_context_scheme" where
  "psplinkStop k st =
     (let (r, u, cs) = stop_usbmass (x_usb st);
          st = st\<lparr>x_usb := u, sys_calls := sys_calls st @ map Usb_call cs\<rparr>;
          st = (if 0 \<le> x_netshelluid st then snd (sys k (StopModule (x_netshelluid st)) st) else st);
          st = (if 0 \<le> x_conshelluid st then snd (sys k (StopModule (x_conshelluid st)) st) else st)
      in if 0 \<le> x_thevent st then snd (sys k (ReleaseThreadEventHandler (x_thevent st)) st) else st)"

abbreviation REBOOT_MODE_GAME :: int where "REBOOT_MODE_GAME \<equiv> 0"
abbreviation REBOOT_MODE_VSH :: int where "REBOOT_MODE_VSH \<equiv> 1"
abbreviation REBOOT_MODE_UPDATER :: int where "REBOOT_MODE_UPDATER \<equiv> 2"

text \<open>What stays in memory at \<open>SAVED_ADDR\<close> over a restart; no block: the magic number is not there.\<close>

record saved_context =
  sv_currdir :: string
  sv_rebootkey :: int

definition reboot_name :: "int \<Rightarrow> string option" where
  "reboot_name m =
     (if m = REBOOT_MODE_GAME then Some ''game'' else if m = REBOOT_MODE_VSH then Some ''vsh''
      else if m = REBOOT_MODE_UPDATER then Some ''updater'' else None)"

definition psplinkReset :: "sys_answers \<Rightarrow> 'x psp_context_scheme \<Rightarrow> saved_context \<times> 'x psp_context_scheme" where
  "psplinkReset k st =
     (let save = \<lparr>sv_currdir = x_currdir st, sv_rebootkey = x_rebootkey st\<rparr>;
          st = tell ''Resetting psplink'' (snd (sys k DisableHW st));
          st = psplinkStop k st;
          st = snd (sys k SuspendAllUserThreads st)
      in (save, snd (sys k (LoadExec (x_bootfile st) (x_bootfile st @ [CHR 0x00]) (reboot_name (x_rebootkey st))) st)))"

section \<open>The commands\<close>

definition save_args :: "string list \<Rightarrow> 'x psp_context_scheme \<Rightarrow> 'x psp_context_scheme" where
  "save_args argv st =
     (let (args, offs, argc, n) = save_execargs argv
      in st\<lparr>x_execargs := args, x_execargv := offs, x_execargc := argc\<rparr>)"

text \<open>The strings \<open>execargv\<close> points to.\<close>

definition saved_args :: "'x psp_context_scheme \<Rightarrow> string list" where
  "saved_args st = map (\<lambda>loc. cstr (drop loc (x_execargs st))) (take (x_execargc st) (x_execargv st))"

text \<open>
  \<open>None\<close>: the boot loader's block overruns \<open>args[512]\<close>, or, when nothing runs yet and the module could be
  loaded, the program's block overruns \<open>args[1024]\<close> of \<open>load_start_module\<close>.
\<close>

definition exec_cmd :: "sys_answers \<Rightarrow> string list \<Rightarrow> 'x psp_context_scheme \<Rightarrow> (int \<times> 'x psp_context_scheme) option" where
  "exec_cmd k argv st =
     (if argv = [] \<and> \<not> x_inexec st then Some (CMD_ERROR, st)
      else let exe = (if x_inexec st \<and> argv = [] then x_execfile st else argv ! 0)
      in case file_path k exe st of
           None \<Rightarrow> Some (CMD_ERROR, tell (''Error, invalid file '' @ x_junk st) st)
         | Some file \<Rightarrow>
            (let st = tell (''Exec '' @ [CHR 0x27] @ file @ [CHR 0x27]) st
             in if x_inexec st
                then (case fits_array BOOT_ARGS_LEN
                         (build_bootargs (x_bootfile st) (Some file) (if argv = [] then saved_args st else tl argv)) of
                        None \<Rightarrow> None
                      | Some args \<Rightarrow>
                          (let st = psplinkStop k st
                           in Some (CMD_ERROR, snd (sys k (LoadExec (x_bootfile st) args None) st))))
                else if 0 \<le> r_call k (sys_calls st) (LoadModule file) \<and> fits_array 1024 (build_args file (tl argv)) = None
                then None
                else let (modid, st) = start_module k file (tl argv) st
                     in Some (if 0 \<le> modid
                        then (CMD_OK, save_args (tl argv)
                               ((tell (''Load/Start module UID: '' @ p32 modid) st)\<lparr>x_execfile := file, x_inexec := True\<rparr>))
                        else (CMD_ERROR, tell (''Failed to Load/Start module '' @ [CHR 0x27] @ file @ [CHR 0x27] @ '' Error: '' @ p32 modid) st))))"

text \<open>With a key in front the arguments are those from the second on, the file's name included.\<close>

definition modexec_cmd :: "sys_answers \<Rightarrow> 'x sys_cmd" where
  "modexec_cmd k argv st =
     (if chead (argv ! 0) = CHR ''@'' \<and> length argv < 2 then (CMD_ERROR, st)
      else let (key, file) = (if chead (argv ! 0) = CHR ''@'' then (Some (tl (argv ! 0)), argv ! 1) else (None, argv ! 0))
      in case file_path k file st of
           None \<Rightarrow> (CMD_OK, st)
         | Some p \<Rightarrow>
            (let st = psplinkStop k st in (CMD_OK, snd (sys k (LoadExec p (build_args p (tl argv)) key) st))))"

definition debug_cmd :: "sys_answers \<Rightarrow> 'x sys_cmd" where
  "debug_cmd k argv st =
     (case file_path k (argv ! 0) st of
        None \<Rightarrow> (CMD_ERROR, tell (''Error invalid file '' @ x_junk st) st)
      | Some p \<Rightarrow>
         (let st = (if \<not> x_usbgdb st \<and> x_wifi st = 0 then snd (load_wifi k 1 st) else st)
          in (CMD_OK, if \<not> x_gdb st then snd (load_gdb k (p # tl argv) st)
                      else tell ''Error GDB already running, please reset'' st)))"

definition reset_cmd :: "sys_answers \<Rightarrow> string list \<Rightarrow> 'x psp_context_scheme \<Rightarrow> int \<times> saved_context \<times> 'x psp_context_scheme" where
  "reset_cmd k argv st =
     (let st = (if argv = [] then st
                else if argv ! 0 = ''game'' then st\<lparr>x_rebootkey := REBOOT_MODE_GAME\<rparr>
                else if argv ! 0 = ''vsh'' then st\<lparr>x_rebootkey := REBOOT_MODE_VSH\<rparr>
                else if argv ! 0 = ''updater'' then st\<lparr>x_rebootkey := REBOOT_MODE_UPDATER\<rparr>
                else st)
      in (CMD_OK, psplinkReset k st))"

text \<open>
  The access point is read from the second argument as soon as there is one: with one argument only,
  \<open>argv[1]\<close> is the null pointer behind it (\<open>None\<close>).
\<close>

definition ap_arg :: "string list \<Rightarrow> int option" where
  "ap_arg argv = (if argv = [] then Some 1 else if length argv < 2 then None else Some (c_atoi_str (argv ! 1)))"

definition wifi_cmd :: "sys_answers \<Rightarrow> string list \<Rightarrow> 'x psp_context_scheme \<Rightarrow> (int \<times> 'x psp_context_scheme) option" where
  "wifi_cmd k argv st =
     (if x_wifi st = 0 then map_option (\<lambda>ap. (CMD_OK, snd (load_wifi k ap st))) (ap_arg argv)
      else Some (CMD_OK, tell (''Wifi already enabled: ap '' @ dec_int (x_wifi st)) st))"

definition wifishell_cmd :: "sys_answers \<Rightarrow> string list \<Rightarrow> 'x psp_context_scheme \<Rightarrow> (int \<times> 'x psp_context_scheme) option" where
  "wifishell_cmd k argv st =
     map_option (\<lambda>st. (CMD_OK, snd (load_wifishell k st)))
       (if x_wifi st = 0 then map_option (\<lambda>ap. snd (load_wifi k ap st)) (ap_arg argv) else Some st)"

section \<open>Starting\<close>

record boot_context = psp_context +
  b_loaderthid :: u32
  b_resetonexit :: u32
  b_pcterm :: u32
  b_sioshell :: bool
  b_consinterfere :: u32
  b_conscmds :: "string list"

definition zero_context :: "string \<Rightarrow> usb_state \<Rightarrow> sys_call list \<Rightarrow> boot_context" where
  "zero_context junk usb before =
     \<lparr>x_bootfile = [], x_bootpath = [], x_currdir = [], x_execargs = [], x_execargv = [], x_execargc = 0, x_inexec = False,
      x_execfile = [], x_netshelluid = - 1, x_conshelluid = - 1, x_thevent = - 1, x_wifi = 0, x_wifishell = False,
      x_usbshell = False, x_conshell = False, x_gdb = False, x_usbgdb = False, x_pid = 0, x_rebootkey = 0, x_usb = usb,
      x_lastmod = [], x_junk = junk, sys_calls = before, said_lines = [], b_loaderthid = 0, b_resetonexit = 0, b_pcterm = 0,
      b_sioshell = False, b_consinterfere = 0, b_conscmds = []\<rparr>"

definition parse_sceargs :: "string \<Rightarrow> boot_context \<Rightarrow> boot_context" where
  "parse_sceargs args st =
     (let argv = arg_strings (MAX_ARGS - 1) args;
          st = st\<lparr>b_loaderthid := 0\<rparr>;
          st = (if 0 < length argv
                then let st = st\<lparr>x_bootfile := argv ! 0\<rparr>
                     in case dir_part (argv ! 0) of None \<Rightarrow> st | Some d \<Rightarrow> st\<lparr>x_bootpath := d\<rparr>
                else st);
          st = (if 1 < length argv then st\<lparr>b_loaderthid := fst (strtoul16 (argv ! 1))\<rparr> else st)
      in if 2 < length argv then save_args (drop 3 argv) (st\<lparr>x_execfile := argv ! 2\<rparr>) else st)"

definition HOSTFSDRIVER_PID :: u32 where "HOSTFSDRIVER_PID = 0x1C9"

text \<open>What reading the configuration does on the way: modules are loaded.\<close>

definition config_step :: "sys_answers \<Rightarrow> config_effect \<Rightarrow> boot_context \<Rightarrow> boot_context" where
  "config_step k e st = (case e of Conf.LoadModule m \<Rightarrow> snd (start_module k m [] st) | SetDisasmOpts _ \<Rightarrow> st)"

definition boot_config :: "sys_answers \<Rightarrow> config_state \<Rightarrow> boot_context \<Rightarrow> boot_context" where
  "boot_config k cfg st =
     (let st = fold (config_step k) (snd cfg) st; ctx = fst cfg
      in st\<lparr>x_usbgdb := usbgdb ctx \<noteq> 0, x_pid := if pid ctx \<noteq> 0 then pid ctx else HOSTFSDRIVER_PID\<rparr>)"

text \<open>The USB drivers, and the directory to begin in.\<close>

definition boot_usb :: "sys_answers \<Rightarrow> ConfigContext \<Rightarrow> boot_context \<Rightarrow> string \<times> boot_context" where
  "boot_usb k ctx st =
     (let res = (\<lambda>c. r_call k (sys_calls st) (Usb_call c))
      in if usbhost ctx \<noteq> 0
         then let (r, u, cs) = init_usbhost (x_bootpath st) (unat (x_pid st)) res (x_usb st)
              in (''host0:/'', st\<lparr>x_usb := u, sys_calls := sys_calls st @ map Usb_call cs\<rparr>)
         else if usbmass ctx \<noteq> 0
         then let (r, u, cs) = init_usbmass res (x_usb st)
              in (''ms0:/'', st\<lparr>x_usb := u, sys_calls := sys_calls st @ map Usb_call cs\<rparr>)
         else (''ms0:/'', st))"

text \<open>The shell begins in the saved directory when one was saved; \<open>shell_ok\<close>: \<open>shellInit\<close> succeeds.\<close>

definition boot_shell :: "sys_answers \<Rightarrow> ConfigContext \<Rightarrow> bool \<Rightarrow> saved_context option \<Rightarrow> string \<times> boot_context \<Rightarrow> boot_context" where
  "boot_shell k ctx shell_ok svd r =
     (let (init_dir, st) = r;
          (init_dir, st) = (case svd of None \<Rightarrow> (init_dir, st)
            | Some sv \<Rightarrow> (sv_currdir sv, st\<lparr>x_rebootkey := sv_rebootkey sv\<rparr>));
          st = (snd (sys k (ShellInit (cliprompt ctx) (path ctx) init_dir (startsh ctx)) st))\<lparr>x_currdir := init_dir\<rparr>
      in if shell_ok then st else snd (sys k ExitGame st))"

definition boot_devices :: "sys_answers \<Rightarrow> ConfigContext \<Rightarrow> boot_context \<Rightarrow> boot_context" where
  "boot_devices k ctx st =
     (let baud = (if baudrate ctx = 0 then DEFAULT_BAUDRATE else baudrate ctx);
          st = (if sioshell ctx \<noteq> 0 then (snd (sys k (SioInit baud False) st))\<lparr>b_sioshell := True\<rparr>
                else if kprintf ctx \<noteq> 0 then snd (sys k (SioInit baud True) st) else st);
          st = (if usbshell ctx \<noteq> 0 then snd (load_usbshell k st) else st);
          st = snd (sys k (UmdActivate ''disc0:'') st);
          st = snd (sys k HookExitGame st);
          st = snd (sys k (WaitThreadEnd (b_loaderthid st)) st);
          st = unload_loader k st
      in snd (sys k PatchException st))"

definition copy_conscontext :: "ConfigContext \<Rightarrow> boot_context \<Rightarrow> boot_context" where
  "copy_conscontext ctx st =
     st\<lparr>b_conscmds := [conscrosscmd ctx, conssquarecmd ctx, constrianglecmd ctx, conscirclecmd ctx, consselectcmd ctx,
          consstartcmd ctx, consdowncmd ctx, consleftcmd ctx, consupcmd ctx, consrightcmd ctx]\<rparr>"

definition boot_net :: "sys_answers \<Rightarrow> ConfigContext \<Rightarrow> boot_context \<Rightarrow> boot_context" where
  "boot_net k ctx st =
     (if 0 < sint (wifi ctx)
      then let st = snd (load_wifi k (sint (wifi ctx)) st)
           in if wifishell ctx \<noteq> 0 then let (uid, st) = load_wifishell k st in st\<lparr>x_netshelluid := uid\<rparr> else st
      else st)"

definition boot_shells :: "sys_answers \<Rightarrow> ConfigContext \<Rightarrow> boot_context \<Rightarrow> boot_context" where
  "boot_shells k ctx st =
     (let st = (if enableuser ctx \<noteq> 0 then load_psplink_user k st else st);
          st = boot_net k ctx st;
          st = (if conshell ctx \<noteq> 0
                then let (uid, st) = load_conshell k (st\<lparr>b_consinterfere := consinterfere ctx\<rparr>)
                     in copy_conscontext ctx (st\<lparr>x_conshelluid := uid\<rparr>)
                else st)
      in st\<lparr>b_resetonexit := resetonexit ctx, b_pcterm := pcterm ctx\<rparr>)"

definition boot_program :: "sys_answers \<Rightarrow> boot_context \<Rightarrow> boot_context" where
  "boot_program k st =
     (if x_execfile st \<noteq> []
      then let (modid, st) = start_module k (x_execfile st) (saved_args st) st
           in if 0 \<le> modid then st\<lparr>x_inexec := True\<rparr> else st
      else st)"

text \<open>
  \<open>initialise\<close>: \<open>cfg\<close> is what \<open>configLoad\<close> finds for a boot path; \<open>svd\<close> the block the last run left.
  The start of the exception handlers and of the firmware's memory map has no state here.
\<close>

definition initialise ::
  "sys_answers \<Rightarrow> (string \<Rightarrow> config_state) \<Rightarrow> bool \<Rightarrow> saved_context option \<Rightarrow> string \<Rightarrow> boot_context \<Rightarrow> boot_context" where
  "initialise k cfg shell_ok svd args st =
     (let st = parse_sceargs args st;
          c = cfg (x_bootpath st);
          ctx = fst c;
          st = boot_config k c st;
          st = snd (sys k TtyInit st)
      in boot_program k (boot_shells k ctx (boot_devices k ctx (boot_shell k ctx shell_ok svd (boot_usb k ctx st)))))"

text \<open>What a program that exits runs instead of \<open>sceKernelExitGame\<close>; without a reset its thread ends here.\<close>

definition exit_reset :: "sys_answers \<Rightarrow> boot_context \<Rightarrow> saved_context option \<times> boot_context" where
  "exit_reset k st =
     (if b_resetonexit st \<noteq> 0 then let (save, st) = psplinkReset k st in (Some save, st)
      else (None, tell ''sceKernelExitGame caught!'' st))"

section \<open>Blocks are read back\<close>

definition block_of :: "string list \<Rightarrow> string" where
  "block_of as = concat (map (\<lambda>a. a @ [CHR 0x00]) as)"

lemma block_of_simps [simp]: "block_of [] = []" "block_of (a # as) = a @ CHR 0x00 # block_of as"
  by (simp_all add: block_of_def)

lemma arg_strings_block: "list_all no_nul as \<Longrightarrow> arg_strings n (block_of as) = take n as"
proof (induction as arbitrary: n)
  case Nil
  then show ?case by (cases n) simp_all
next
  case (Cons a as)
  then show ?case by (cases n) (simp_all add: no_nul_def cstr_def takeWhile_append)
qed

lemma build_bootargs_block: "build_bootargs b (Some e) argv = block_of (b # e # argv)" "build_bootargs b None argv = block_of [b]"
  by (simp_all add: build_bootargs_def args_loop_eq block_of_def)

lemma boot_args_block:
  "boot_args b thid (Some e) argv = block_of (b # h8 thid # e # argv)" "boot_args b thid None argv = block_of [b, h8 thid]"
  by (simp_all add: boot_args_def args_loop_eq block_of_def)

lemma length_h8: "length (h8 v) = 8"
  using length_hex_upper [OF unat_less_16_8, of v] by (simp add: h8_def length_pad_zero)

lemma no_nul_h8: "no_nul (h8 v)"
proof -
  have "\<not> digit_in 16 CHR 0x00" by (simp add: digit_in_def is_hex_def upcase_def Let_def)
  then show ?thesis using pad_zero_hex_chars [of "CHR 0x00" 8 "unat v"] by (auto simp: no_nul_def h8_def)
qed

lemma strtoul16_h8: "strtoul16 (h8 v) = (v, [])"
proof -
  let ?h = "h8 v"
  have digits: "\<forall>c \<in> set ?h. digit_in 16 c" using pad_zero_hex_chars by (auto simp: h8_def)
  have ne: "?h \<noteq> []" by (simp add: h8_def pad_zero_def hex_upper_def)
  then obtain d r where h: "?h = d # r" by (cases ?h) auto
  have no_x: "\<not> digit_in 16 CHR ''x''" "\<not> digit_in 16 CHR ''X''" "\<not> digit_in 16 CHR ''-''" "\<not> digit_in 16 CHR ''+''"
    by (simp_all add: digit_in_def is_hex_def upcase_def Let_def)
  have "hex_base ?h = (16, ?h)" using digits no_x by (auto simp: hex_base_def split: list.split)
  moreover have "takeWhile (digit_in 16) ?h = ?h" "dropWhile (digit_in 16) ?h = []"
    using digits by (auto simp: takeWhile_eq_all_conv)
  moreover have "\<not> c_isspace d" "d \<noteq> CHR ''-''" "d \<noteq> CHR ''+''"
  proof -
    have "digit_in 16 d" using digits h by simp
    then show "\<not> c_isspace d" "d \<noteq> CHR ''-''" "d \<noteq> CHR ''+''"
      using no_x by (auto simp: c_isspace_def digit_in_def is_hex_def upcase_def Let_def)
  qed
  moreover have "int (unat v) < 4294967296" using unsigned_less [of v] by simp
  moreover have "digits_value 16 ?h 0 = int (unat v)" by (simp add: h8_def pad_zero_hex)
  ultimately show ?thesis using h by (simp add: strtoul16_def strtoul_by_def Let_def)
qed

lemma saved_args_save:
  assumes "length argv < MAX_ARGS" "list_all no_nul argv"
  shows "saved_args (save_args argv st) = argv"
proof -
  obtain args offs where e: "execargs_loop argv (length argv) 0 = (args, offs)" by fastforce
  have sp: "length offs = length argv"
    "\<forall>i < length argv. \<exists>s. drop (offs ! i) args = (argv ! i) @ CHR 0x00 # s"
    using execargs_loop_spec [OF order_refl e] unfolding diff_zero by blast+
  have "map (\<lambda>loc. cstr (drop loc args)) offs = argv"
  proof (rule nth_equalityI)
    fix i assume "i < length (map (\<lambda>loc. cstr (drop loc args)) offs)"
    then have i: "i < length argv" using sp(1) by simp
    then obtain s where "drop (offs ! i) args = (argv ! i) @ CHR 0x00 # s" using sp(2) by blast
    moreover have "no_nul (argv ! i)" using assms(2) i by (simp add: list_all_length)
    ultimately show "map (\<lambda>loc. cstr (drop loc args)) offs ! i = argv ! i"
      using i sp(1) by (simp add: cstr_def no_nul_def takeWhile_append)
  qed (simp add: sp(1))
  then show ?thesis using assms(1) e sp(1) by (simp add: saved_args_def save_args_def save_execargs_def Let_def)
qed

section \<open>What starting keeps\<close>

text \<open>What \<open>parse_sceargs\<close> sets stays until the program is started.\<close>

definition boot_part :: "boot_context \<Rightarrow> string \<times> string \<times> string list \<times> u32 \<times> bool" where
  "boot_part st = (x_bootfile st, x_execfile st, saved_args st, b_loaderthid st, x_inexec st)"

lemma saved_args_cong:
  "x_execargs st = x_execargs st' \<Longrightarrow> x_execargv st = x_execargv st' \<Longrightarrow> x_execargc st = x_execargc st' \<Longrightarrow>
   saved_args st = saved_args st'"
  by (simp add: saved_args_def)

lemma start_module_eq: "start_module k n argv st =
    (fst (start_module k n argv st), st\<lparr>sys_calls := sys_calls (snd (start_module k n argv st))\<rparr>)"
  by (simp add: start_module_def Let_def split: prod.split)

lemma boot_part_calls [simp]: "boot_part (st\<lparr>sys_calls := cs\<rparr>) = boot_part st"
  by (simp add: boot_part_def saved_args_def)

lemma boot_part_start [simp]: "boot_part (snd (start_module k n argv st)) = boot_part st"
  by (subst start_module_eq) simp

lemma boot_part_sys [simp]: "boot_part (snd (sys k c st)) = boot_part st"
  by (simp add: sys_def)

lemma boot_part_fields [simp]:
  "boot_part (st\<lparr>x_wifi := a\<rparr>) = boot_part st" "boot_part (st\<lparr>x_wifishell := b\<rparr>) = boot_part st"
  "boot_part (st\<lparr>x_usbshell := b\<rparr>) = boot_part st" "boot_part (st\<lparr>x_conshell := b\<rparr>) = boot_part st"
  "boot_part (st\<lparr>x_usbgdb := b\<rparr>) = boot_part st" "boot_part (st\<lparr>x_pid := p\<rparr>) = boot_part st"
  "boot_part (st\<lparr>x_usb := u\<rparr>) = boot_part st" "boot_part (st\<lparr>x_currdir := s\<rparr>) = boot_part st"
  "boot_part (st\<lparr>x_rebootkey := r\<rparr>) = boot_part st" "boot_part (st\<lparr>b_sioshell := b\<rparr>) = boot_part st"
  "boot_part (st\<lparr>b_consinterfere := p\<rparr>) = boot_part st" "boot_part (st\<lparr>b_conscmds := l\<rparr>) = boot_part st"
  "boot_part (st\<lparr>x_netshelluid := r\<rparr>) = boot_part st" "boot_part (st\<lparr>x_conshelluid := r\<rparr>) = boot_part st"
  "boot_part (st\<lparr>b_resetonexit := p\<rparr>) = boot_part st" "boot_part (st\<lparr>b_pcterm := p\<rparr>) = boot_part st"
  "boot_part (st\<lparr>said_lines := l\<rparr>) = boot_part st"
  by (simp_all add: boot_part_def saved_args_def)

lemma boot_part_fold: "(\<And>x st. boot_part (f x st) = boot_part st) \<Longrightarrow> boot_part (fold f xs st) = boot_part st"
  by (induction xs arbitrary: st) simp_all

lemma boot_part_loads [simp]:
  "boot_part (snd (load_wifi k ap st)) = boot_part st" "boot_part (snd (load_wifishell k st)) = boot_part st"
  "boot_part (snd (load_usbshell k st)) = boot_part st" "boot_part (snd (load_conshell k st)) = boot_part st"
  "boot_part (load_psplink_user k st) = boot_part st" "boot_part (unload_loader k st) = boot_part st"
  by (simp_all add: load_wifi_def load_wifishell_def load_usbshell_def load_conshell_def load_psplink_user_def
      unload_loader_def tell_def Let_def boot_part_fold case_prod_beta split: option.split)

lemma boot_part_stages [simp]:
  "boot_part (boot_config k cfg st) = boot_part st" "boot_part (snd (boot_usb k ctx st)) = boot_part st"
  "boot_part (boot_shell k ctx ok svd r) = boot_part (snd r)" "boot_part (boot_devices k ctx st) = boot_part st"
  "boot_part (boot_net k ctx st) = boot_part st" "boot_part (boot_shells k ctx st) = boot_part st"
proof -
  show "boot_part (boot_config k cfg st) = boot_part st"
    by (simp add: boot_config_def Let_def boot_part_fold config_step_def split: config_effect.split)
  show "boot_part (snd (boot_usb k ctx st)) = boot_part st"
    by (simp add: boot_usb_def Let_def case_prod_beta)
  show "boot_part (boot_shell k ctx ok svd r) = boot_part (snd r)"
    by (simp add: boot_shell_def Let_def case_prod_beta split: option.split)
  show "boot_part (boot_devices k ctx st) = boot_part st"
    by (simp add: boot_devices_def Let_def)
  show net: "boot_part (boot_net k ctx st) = boot_part st" for st
    by (simp add: boot_net_def Let_def case_prod_beta)
  show "boot_part (boot_shells k ctx st) = boot_part st"
    by (simp add: boot_shells_def copy_conscontext_def Let_def case_prod_beta net)
qed

text \<open>The directory and the mode of the next restart.\<close>

definition place :: "boot_context \<Rightarrow> string \<times> int" where
  "place st = (x_currdir st, x_rebootkey st)"

lemma place_fields [simp]:
  "place (st\<lparr>x_wifi := a\<rparr>) = place st" "place (st\<lparr>x_wifishell := b\<rparr>) = place st"
  "place (st\<lparr>x_usbshell := b\<rparr>) = place st" "place (st\<lparr>x_conshell := b\<rparr>) = place st"
  "place (st\<lparr>b_sioshell := b\<rparr>) = place st" "place (st\<lparr>sys_calls := cs\<rparr>) = place st"
  "place (st\<lparr>b_consinterfere := p\<rparr>) = place st" "place (st\<lparr>b_conscmds := l\<rparr>) = place st"
  "place (st\<lparr>x_netshelluid := r\<rparr>) = place st" "place (st\<lparr>x_conshelluid := r\<rparr>) = place st"
  "place (st\<lparr>b_resetonexit := p\<rparr>) = place st" "place (st\<lparr>b_pcterm := p\<rparr>) = place st"
  "place (st\<lparr>said_lines := l\<rparr>) = place st" "place (st\<lparr>x_inexec := b\<rparr>) = place st"
  by (simp_all add: place_def)

lemma place_start [simp]: "place (snd (start_module k n argv st)) = place st"
  by (subst start_module_eq) simp

lemma place_sys [simp]: "place (snd (sys k c st)) = place st"
  by (simp add: sys_def)

lemma place_fold: "(\<And>x st. place (f x st) = place st) \<Longrightarrow> place (fold f xs st) = place st"
  by (induction xs arbitrary: st) simp_all

lemma place_loads [simp]:
  "place (snd (load_wifi k ap st)) = place st" "place (snd (load_wifishell k st)) = place st"
  "place (snd (load_usbshell k st)) = place st" "place (snd (load_conshell k st)) = place st"
  "place (load_psplink_user k st) = place st" "place (unload_loader k st) = place st"
  by (simp_all add: load_wifi_def load_wifishell_def load_usbshell_def load_conshell_def load_psplink_user_def
      unload_loader_def tell_def Let_def place_fold case_prod_beta split: option.split)

lemma place_stages [simp]:
  "place (boot_devices k ctx st) = place st" "place (boot_shells k ctx st) = place st" "place (boot_program k st) = place st"
proof -
  show "place (boot_devices k ctx st) = place st"
    by (simp add: boot_devices_def Let_def)
  have net: "place (boot_net k ctx st) = place st" for st
    by (simp add: boot_net_def Let_def case_prod_beta)
  show "place (boot_shells k ctx st) = place st"
    by (simp add: boot_shells_def copy_conscontext_def Let_def case_prod_beta net)
  show "place (boot_program k st) = place st"
    by (simp add: boot_program_def Let_def case_prod_beta)
qed

lemma place_shell: "place (boot_shell k ctx ok (Some sv) r) = (sv_currdir sv, sv_rebootkey sv)"
proof -
  have "place (st\<lparr>x_currdir := sv_currdir sv\<rparr>) = (sv_currdir sv, x_rebootkey st)" for st by (simp add: place_def)
  then show ?thesis by (simp add: boot_shell_def Let_def case_prod_beta sys_def)
qed

lemma place_initialise: "place (initialise k cfg ok (Some sv) args st) = (sv_currdir sv, sv_rebootkey sv)"
  by (simp add: initialise_def Let_def place_shell)

text \<open>The program is started last, from the file and the arguments that were given.\<close>

definition launched :: "sys_answers \<Rightarrow> string \<Rightarrow> string list \<Rightarrow> sys_call list \<Rightarrow> bool" where
  "launched k f argv cs \<longleftrightarrow>
     (\<exists>h. cs = h @ LoadModule f #
        (if 0 \<le> r_call k h (LoadModule f) then [StartModule (r_call k h (LoadModule f)) (build_args f argv)] else []))"

lemma start_module_launched: "launched k f argv (sys_calls (snd (start_module k f argv st)))"
  unfolding launched_def
  by (intro exI [of _ "sys_calls st"]) (simp add: start_module_def load_start_module_def Let_def)

lemma initialise_parts:
  assumes "boot_part (parse_sceargs args st) = (b, f, argv, thid, False)"
  shows "x_bootfile (initialise k cfg ok svd args st) = b \<and> x_execfile (initialise k cfg ok svd args st) = f \<and>
    saved_args (initialise k cfg ok svd args st) = argv \<and> b_loaderthid (initialise k cfg ok svd args st) = thid \<and>
    (f = [] \<longrightarrow> \<not> x_inexec (initialise k cfg ok svd args st)) \<and>
    (f \<noteq> [] \<longrightarrow> launched k f argv (sys_calls (initialise k cfg ok svd args st)))"
proof -
  obtain s where s: "initialise k cfg ok svd args st = boot_program k s" "boot_part s = (b, f, argv, thid, False)"
    using assms by (simp add: initialise_def Let_def)
  have p: "x_bootfile s = b" "x_execfile s = f" "saved_args s = argv" "b_loaderthid s = thid" "\<not> x_inexec s"
    using s(2) by (simp_all add: boot_part_def)
  let ?t = "snd (start_module k f argv s)"
  have t: "boot_part ?t = (b, f, argv, thid, False)" using s(2) by simp
  have r: "boot_program k s = (if f \<noteq> [] then (if 0 \<le> fst (start_module k f argv s) then ?t\<lparr>x_inexec := True\<rparr> else ?t) else s)"
    by (simp add: boot_program_def p case_prod_beta)
  show ?thesis
  proof (cases "f = []")
    case True
    then show ?thesis unfolding s(1) r using p by simp
  next
    case False
    have "saved_args (?t\<lparr>x_inexec := True\<rparr>) = saved_args ?t" by (simp add: saved_args_def)
    then show ?thesis unfolding s(1) r using False t start_module_launched [of k f argv s] by (simp add: boot_part_def)
  qed
qed

lemma zero_part [simp]: "boot_part (zero_context junk usb before) = ([], [], [], 0, False)"
  by (simp add: boot_part_def zero_context_def saved_args_def)

lemma parse_sceargs_three:
  assumes "arg_strings (MAX_ARGS - 1) args = b # h8 thid # f # argv" "length argv < MAX_ARGS" "list_all no_nul argv"
  shows "boot_part (parse_sceargs args (zero_context junk usb before)) = (b, f, argv, thid, False)"
proof -
  have "saved_args (save_args argv st) = argv" for st :: boot_context using assms(2,3) by (rule saved_args_save)
  moreover have "boot_part (save_args argv st) = (x_bootfile st, x_execfile st, saved_args (save_args argv st), b_loaderthid st, x_inexec st)"
    for st :: boot_context by (simp add: boot_part_def save_args_def saved_args_def case_prod_beta Let_def)
  ultimately have "boot_part (save_args argv st) = (x_bootfile st, x_execfile st, argv, b_loaderthid st, x_inexec st)"
    for st :: boot_context by simp
  then show ?thesis
    using assms(1) by (simp add: parse_sceargs_def Let_def strtoul16_h8 zero_context_def split: option.split)
qed

lemma parse_sceargs_two:
  assumes "arg_strings (MAX_ARGS - 1) args = [b, h8 thid]"
  shows "boot_part (parse_sceargs args (zero_context junk usb before)) = (b, [], [], thid, False)"
  using assms by (simp add: parse_sceargs_def Let_def strtoul16_h8 zero_context_def boot_part_def saved_args_def split: option.split)

lemma boot_path_fits:
  assumes "length b + 12 \<le> PRX_PATH_LEN"
  shows "\<exists>prx. fits_array (PRX_PATH_LEN - 1) (case dir_part b of None \<Rightarrow> ''ms0:/psplink.prx'' | Some d \<Rightarrow> d @ ''psplink.prx'') = Some prx"
proof (cases "dir_part b")
  case (Some d)
  then have "length d \<le> length b" by (auto simp: dir_part_def)
  then show ?thesis using Some assms by (simp add: fits_array_def)
qed (simp add: fits_array_def)

text \<open>A boot file of up to 244 characters leaves room for the name of the module.\<close>

lemma boot_main_block:
  assumes "list_all no_nul (b # f # argv)" "length b \<le> 244" "length (block_of (b # h8 thid # f # take 13 argv)) \<le> BOOT_ARGS_LEN"
  shows "\<exists>prx. boot_main thid (block_of (b # f # argv)) = Some (prx, block_of (b # h8 thid # f # take 13 argv))"
proof -
  obtain prx where "fits_array (PRX_PATH_LEN - 1) (case dir_part b of None \<Rightarrow> ''ms0:/psplink.prx'' | Some d \<Rightarrow> d @ ''psplink.prx'') = Some prx"
    using boot_path_fits [of b] assms(2) by auto
  then show ?thesis using arg_strings_block [OF assms(1), of "MAX_ARGS - 1"] assms(3)
    by (simp add: boot_main_def Let_def boot_args_block fits_array_def [of BOOT_ARGS_LEN] del: block_of_simps)
qed

lemma boot_main_single:
  assumes "no_nul b" "length b \<le> 244"
  shows "\<exists>prx. boot_main thid (b @ [CHR 0x00]) = Some (prx, block_of [b, h8 thid])"
proof -
  obtain prx where "fits_array (PRX_PATH_LEN - 1) (case dir_part b of None \<Rightarrow> ''ms0:/psplink.prx'' | Some d \<Rightarrow> d @ ''psplink.prx'') = Some prx"
    using boot_path_fits [of b] assms(2) by auto
  moreover have "arg_strings (MAX_ARGS - 1) (block_of [b]) = [b]" using arg_strings_block [of "[b]" "MAX_ARGS - 1"] assms(1) by simp
  ultimately show ?thesis using assms(2)
    by (simp add: boot_main_def Let_def boot_args_block length_h8 fits_array_def [of BOOT_ARGS_LEN])
qed

lemma no_nul_cstr_any: "no_nul (cstr s)"
  by (auto simp: no_nul_def cstr_def dest: set_takeWhileD)

lemma no_nul_saved: "list_all no_nul (saved_args st)"
  by (simp add: saved_args_def list_all_iff no_nul_cstr_any)

lemma bootfile_said [simp]: "x_bootfile (tell l st) = x_bootfile st" "x_inexec (tell l st) = x_inexec st"
  "saved_args (tell l st) = saved_args st"
  by (simp_all add: tell_def saved_args_def)

lemma context_sys [simp]:
  "x_bootfile (snd (sys k c st)) = x_bootfile st" "x_rebootkey (snd (sys k c st)) = x_rebootkey st"
  "x_currdir (snd (sys k c st)) = x_currdir st"
  by (simp_all add: sys_def)

lemma context_stop [simp]:
  "x_bootfile (psplinkStop k st) = x_bootfile st" "x_rebootkey (psplinkStop k st) = x_rebootkey st"
  by (simp_all add: psplinkStop_def Let_def case_prod_beta)

lemma exec_cmd_again:
  assumes "x_inexec st" "file_path k (if argv = [] then x_execfile st else argv ! 0) st = Some f"
    and "length (block_of (x_bootfile st # f # (if argv = [] then saved_args st else tl argv))) \<le> BOOT_ARGS_LEN"
  shows "\<exists>st'. exec_cmd k argv st = Some (CMD_ERROR, st') \<and> last (sys_calls st') =
    LoadExec (x_bootfile st) (block_of (x_bootfile st # f # (if argv = [] then saved_args st else tl argv))) None"
  using assms by (cases "argv = []") (simp_all add: exec_cmd_def Let_def build_bootargs_block fits_array_def del: block_of_simps)

text \<open>Nothing tests the length of the block: one of more than 512 bytes runs over the end of the array.\<close>

lemma exec_cmd_overrun:
  assumes "x_inexec st" "file_path k (if argv = [] then x_execfile st else argv ! 0) st = Some f"
    and "BOOT_ARGS_LEN < length (block_of (x_bootfile st # f # (if argv = [] then saved_args st else tl argv)))"
  shows "exec_cmd k argv st = None"
  using assms by (cases "argv = []") (simp_all add: exec_cmd_def Let_def build_bootargs_block fits_array_def del: block_of_simps)

text \<open>
  C9: A program is started again. While a program runs, \<open>exec\<close> hands the boot loader a block of strings;
  the boot loader makes another of it; the system that starts from that one has the same boot file, and
  launches exactly the file that was named (or, without arguments, the file that ran before) with the
  arguments that were given (or those of the run before), up to the twelfth, whatever the configuration
  and whatever the kernel answers on the way. This holds as long as the arrays of the two programs take
  what is written to them, which neither tests: the shell's block and the boot loader's block are at most
  512 bytes, and the boot file's name at most 244 characters, so that the path of \<open>psplink.prx\<close> beside it
  fits in 256 bytes. A longer block overruns the stack (\<open>exec_cmd_overrun\<close>).
\<close>

theorem exec_restarts_program:
  assumes "x_inexec st" "file_path k (if argv = [] then x_execfile st else argv ! 0) st = Some f" "f \<noteq> []"
    and "list_all no_nul (x_bootfile st # f # tl argv)"
    and "length (block_of (x_bootfile st # f # (if argv = [] then saved_args st else tl argv))) \<le> BOOT_ARGS_LEN"
    and "length (block_of (x_bootfile st # h8 thid # f # take 13 (if argv = [] then saved_args st else tl argv))) \<le> BOOT_ARGS_LEN"
    and "length (x_bootfile st) \<le> 244"
  shows "\<exists>st' blk prx blk'. exec_cmd k argv st = Some (CMD_ERROR, st') \<and> last (sys_calls st') = LoadExec (x_bootfile st) blk None \<and>
    boot_main thid blk = Some (prx, blk') \<and>
    x_bootfile (initialise k' cfg ok svd blk' (zero_context junk usb before)) = x_bootfile st \<and>
    x_execfile (initialise k' cfg ok svd blk' (zero_context junk usb before)) = f \<and>
    saved_args (initialise k' cfg ok svd blk' (zero_context junk usb before)) = take 12 (if argv = [] then saved_args st else tl argv) \<and>
    launched k' f (take 12 (if argv = [] then saved_args st else tl argv))
      (sys_calls (initialise k' cfg ok svd blk' (zero_context junk usb before)))"
proof -
  let ?a = "if argv = [] then saved_args st else tl argv"
  let ?b = "x_bootfile st"
  let ?blk = "block_of (?b # h8 thid # f # take 13 ?a)"
  have nul: "list_all no_nul (?b # f # ?a)" using assms(4) no_nul_saved [of st] by auto
  then have "list_all no_nul (?b # h8 thid # f # take 13 ?a)" using no_nul_h8 by (auto simp: list_all_iff dest: in_set_takeD)
  then have "arg_strings (MAX_ARGS - 1) ?blk = ?b # h8 thid # f # take 12 (take 13 ?a)"
    using arg_strings_block [of "?b # h8 thid # f # take 13 ?a" "MAX_ARGS - 1"] by (simp del: block_of_simps take_take)
  then have "arg_strings (MAX_ARGS - 1) ?blk = ?b # h8 thid # f # take 12 ?a" by simp
  moreover have "list_all no_nul (take 12 ?a)" using nul by (auto simp: list_all_iff dest: in_set_takeD)
  ultimately have "boot_part (parse_sceargs ?blk (zero_context junk usb before)) = (?b, f, take 12 ?a, thid, False)"
    by (intro parse_sceargs_three) simp_all
  note boot = initialise_parts [OF this, of k' cfg ok svd]
  obtain prx where "boot_main thid (block_of (?b # f # ?a)) = Some (prx, ?blk)" using boot_main_block [OF nul assms(7,6)] by blast
  then show ?thesis using exec_cmd_again [OF assms(1,2,5)] boot assms(3) by blast
qed

definition running_context :: psp_context where
  "running_context = start_context\<lparr>x_inexec := True\<rparr>"

lemma running_file: "file_path game_kernel ''game.prx'' running_context = Some ''ms0:/game.prx''"
proof -
  have "handlepath (\<lambda>_. None) (\<lambda>_. True) ''ms0:/'' ''game.prx'' TYPE_FILE True = Some ''ms0:/game.prx''" by code_simp
  then show ?thesis by (simp add: file_path_def game_kernel_def full_io_def running_context_def start_context_def)
qed

theorem exec_restarts_program_witness:
  "\<exists>st' blk prx blk'. exec_cmd game_kernel [''game.prx'', ''a'', ''b''] running_context = Some (CMD_ERROR, st') \<and>
    last (sys_calls st') = LoadExec ''ms0:/psplink/psplink.pbp'' blk None \<and>
    boot_main 5 blk = Some (prx, blk') \<and>
    x_execfile (initialise game_kernel (\<lambda>_. (config_zero, [])) True None blk' (zero_context [] usb_start [])) = ''ms0:/game.prx'' \<and>
    saved_args (initialise game_kernel (\<lambda>_. (config_zero, [])) True None blk' (zero_context [] usb_start [])) = [''a'', ''b'']"
proof -
  have f: "file_path game_kernel (if [''game.prx'', ''a'', ''b''] = [] then x_execfile running_context
      else [''game.prx'', ''a'', ''b''] ! 0) running_context = Some ''ms0:/game.prx''"
    by (simp add: running_file)
  have b: "x_inexec running_context" "x_bootfile running_context = ''ms0:/psplink/psplink.pbp''"
    by (simp_all add: running_context_def start_context_def)
  have n: "list_all no_nul (x_bootfile running_context # ''ms0:/game.prx'' # tl [''game.prx'', ''a'', ''b''])"
    by (simp add: b no_nul_def)
  from exec_restarts_program [OF b(1) f _ n, of 5 game_kernel "\<lambda>_. (config_zero, [])" True None "[]" usb_start "[]"]
  show ?thesis unfolding b(2) by (auto simp: length_h8)
qed

text \<open>
  A reset keeps the place. After \<open>reset\<close> the boot loader and the system it starts leave the shell in the
  directory it was in, with the mode of restart that was asked for, and no program is started.
\<close>

theorem reset_keeps_place:
  assumes "no_nul (x_bootfile st)" "length (x_bootfile st) \<le> 244"
  shows "\<exists>blk key prx blk'. last (sys_calls (snd (snd (reset_cmd k argv st)))) = LoadExec (x_bootfile st) blk key \<and>
    boot_main thid blk = Some (prx, blk') \<and>
    x_currdir (initialise k' cfg ok (Some (fst (snd (reset_cmd k argv st)))) blk' (zero_context junk usb before)) = x_currdir st \<and>
    x_rebootkey (initialise k' cfg ok (Some (fst (snd (reset_cmd k argv st)))) blk' (zero_context junk usb before)) =
      (if argv = [''vsh''] then REBOOT_MODE_VSH else if argv = [''game''] then REBOOT_MODE_GAME
       else if argv = [''updater''] then REBOOT_MODE_UPDATER else x_rebootkey (snd (snd (reset_cmd k argv st)))) \<and>
    \<not> x_inexec (initialise k' cfg ok (Some (fst (snd (reset_cmd k argv st)))) blk' (zero_context junk usb before)) \<and>
    x_bootfile (initialise k' cfg ok (Some (fst (snd (reset_cmd k argv st)))) blk' (zero_context junk usb before)) = x_bootfile st"
proof -
  let ?b = "x_bootfile st" and ?sv = "fst (snd (reset_cmd k argv st))"
  let ?blk = "block_of [?b, h8 thid]"
  have nul: "list_all no_nul [?b, h8 thid]" using assms(1) no_nul_h8 by simp
  have "arg_strings (MAX_ARGS - 1) ?blk = [?b, h8 thid]"
    by (simp add: arg_strings_block [OF nul] del: block_of_simps)
  note boot = initialise_parts [OF parse_sceargs_two [OF this], of k' cfg ok "Some ?sv"]
  obtain prx where main: "boot_main thid (?b @ [CHR 0x00]) = Some (prx, ?blk)" using boot_main_single [OF assms] by blast
  have r: "\<exists>key. last (sys_calls (snd (snd (reset_cmd k argv st)))) = LoadExec ?b (?b @ [CHR 0x00]) key"
    "sv_currdir ?sv = x_currdir st" "sv_rebootkey ?sv = x_rebootkey (snd (snd (reset_cmd k argv st)))"
    "argv = [''vsh''] \<Longrightarrow> sv_rebootkey ?sv = REBOOT_MODE_VSH" "argv = [''game''] \<Longrightarrow> sv_rebootkey ?sv = REBOOT_MODE_GAME"
    "argv = [''updater''] \<Longrightarrow> sv_rebootkey ?sv = REBOOT_MODE_UPDATER"
    by (auto simp: reset_cmd_def psplinkReset_def Let_def tell_def)
  have "place (initialise k' cfg ok (Some ?sv) ?blk (zero_context junk usb before)) = (sv_currdir ?sv, sv_rebootkey ?sv)"
    by (rule place_initialise)
  then show ?thesis using boot main r by (auto simp: place_def)
qed

theorem reset_keeps_place_witness:
  "\<exists>blk key prx blk'. last (sys_calls (snd (snd (reset_cmd game_kernel [''vsh''] start_context)))) =
      LoadExec ''ms0:/psplink/psplink.pbp'' blk key \<and>
    boot_main 5 blk = Some (prx, blk') \<and>
    x_currdir (initialise game_kernel (\<lambda>_. (config_zero, [])) True
      (Some (fst (snd (reset_cmd game_kernel [''vsh''] start_context)))) blk' (zero_context [] usb_start [])) = ''ms0:/'' \<and>
    x_rebootkey (initialise game_kernel (\<lambda>_. (config_zero, [])) True
      (Some (fst (snd (reset_cmd game_kernel [''vsh''] start_context)))) blk' (zero_context [] usb_start [])) = REBOOT_MODE_VSH"
proof -
  have b: "x_bootfile start_context = ''ms0:/psplink/psplink.pbp''" "x_currdir start_context = ''ms0:/''"
    by (simp_all add: start_context_def)
  have n: "no_nul (x_bootfile start_context)" "length (x_bootfile start_context) \<le> 244" by (simp_all add: b no_nul_def)
  from reset_keeps_place [OF n, of game_kernel "[''vsh'']" 5 game_kernel "\<lambda>_. (config_zero, [])" True "[]" usb_start "[]"]
  show ?thesis unfolding b by auto
qed
end
