(* ===== verification/Uid.thy ===== *)
theory Uid
  imports ShellModule
begin

text \<open>
  \<open>psplink/memoryUID.c\<close>: the kernel's table of objects. The types form a ring (\<open>nextEntry\<close>), each type has a
  ring of objects (\<open>nextChild\<close>). The model reads the table through pointers, as the code does: \<open>h\<close> is
  the entry found at an address. The loops stop at pointers that the kernel keeps; on a table where
  they are not kept they may not stop (\<open>None\<close>).
\<close>

section \<open>The table\<close>

record uid_entry =
  u_parent :: u32
  nextChild :: u32
  realParent :: u32
  u_UID :: u32
  u_name :: string
  u_size :: u8
  u_attribute :: u16
  nextEntry :: u32

type_synonym uid_heap = "u32 \<Rightarrow> uid_entry"

abbreviation UIDLIST_START_1_0 :: u32 where "UIDLIST_START_1_0 \<equiv> 0x8800d030"
abbreviation UIDLIST_START_1_5 :: u32 where "UIDLIST_START_1_5 \<equiv> 0x8800fc98"

text \<open>\<open>ver\<close>: \<open>sceKernelDevkitVersion\<close>.\<close>

definition uid_start :: "u32 \<Rightarrow> u32" where
  "uid_start ver = (if ver = 0x01050001 then UIDLIST_START_1_5 else UIDLIST_START_1_0)"

section \<open>Finding an object\<close>

text \<open>An object is asked for by name or by identifier, and perhaps by the name of its type.\<close>

definition uid_hit :: "uid_heap \<Rightarrow> u32 \<Rightarrow> string option \<Rightarrow> string option \<Rightarrow> u32 \<Rightarrow> bool" where
  "uid_hit h uid nm parent e \<longleftrightarrow>
     (case nm of Some n \<Rightarrow> u_name (h e) = n | None \<Rightarrow> u_UID (h e) = uid) \<and>
     (case parent of
        None \<Rightarrow> True
      | Some p \<Rightarrow> realParent (h e) = 0 \<or> p = u_name (h (realParent (h e))))"

text \<open>The inner loop: an object found, or where the loop ends.\<close>

partial_function (option) child_loop :: "uid_heap \<Rightarrow> u32 \<Rightarrow> string option \<Rightarrow> string option \<Rightarrow> u32 \<Rightarrow> (bool \<times> u32) option" where
  "child_loop h uid nm parent ent =
     (let e = nextChild (h ent)
      in if uid_hit h uid nm parent e then Some (True, e)
         else if nextChild (h e) \<noteq> realParent (h e) then child_loop h uid nm parent e
         else Some (False, nextChild (h e)))"

partial_function (option) entry_loop :: "uid_heap \<Rightarrow> u32 \<Rightarrow> string option \<Rightarrow> string option \<Rightarrow> u32 \<Rightarrow> u32 \<Rightarrow> u32 option option" where
  "entry_loop h uid nm parent fin ent =
     (if u_UID (h ent) = uid then Some (Some ent)
      else Option.bind (if nextChild (h ent) \<noteq> ent then child_loop h uid nm parent ent else Some (False, ent))
        (\<lambda>r. if fst r then Some (Some (snd r))
             else let e = nextEntry (h (snd r))
                  in if nextEntry (h e) \<noteq> fin then entry_loop h uid nm parent fin e else Some None))"

definition findUIDObject :: "u32 \<Rightarrow> uid_heap \<Rightarrow> u32 \<Rightarrow> string option \<Rightarrow> string option \<Rightarrow> u32 option option" where
  "findUIDObject ver h uid nm parent =
     (let fin = u_parent (h (uid_start ver)) in entry_loop h uid nm parent fin (nextEntry (h fin)))"

definition findUIDByName :: "u32 \<Rightarrow> uid_heap \<Rightarrow> string \<Rightarrow> int option" where
  "findUIDByName ver h nm =
     map_option (\<lambda>r. case r of None \<Rightarrow> - 1 | Some e \<Rightarrow> sint (u_UID (h e))) (findUIDObject ver h 0 (Some nm) None)"

section \<open>The listing\<close>

text \<open>The lines printed, with their numbers; the size is in words, the attribute sign-extended.\<close>

datatype uid_line =
  Uid_type string u32 u32 u32
| Uid_none
| Uid_object u32 u32 nat u32 string

definition uid_line_of :: "uid_heap \<Rightarrow> u32 \<Rightarrow> uid_line" where
  "uid_line_of h e = Uid_object (u_UID (h e)) e (unat (u_size (h e)) * 4) (scast (u_attribute (h e))) (u_name (h e))"

partial_function (option) list_children :: "uid_heap \<Rightarrow> bool \<Rightarrow> u32 \<Rightarrow> uid_line list \<Rightarrow> (uid_line list \<times> u32) option" where
  "list_children h shown ent ls =
     (let e = nextChild (h ent); ls = ls @ (if shown then [uid_line_of h e] else [])
      in if nextChild (h e) \<noteq> realParent (h e) then list_children h shown e ls else Some (ls, nextChild (h e)))"

partial_function (option) list_entries :: "uid_heap \<Rightarrow> string option \<Rightarrow> u32 \<Rightarrow> u32 \<Rightarrow> uid_line list \<Rightarrow> uid_line list option" where
  "list_entries h nm fin ent ls =
     (let shown = (case nm of None \<Rightarrow> True | Some n \<Rightarrow> u_name (h ent) = n);
          ls = ls @ (if shown then [Uid_type (u_name (h ent)) (u_UID (h ent)) (scast (u_attribute (h ent))) ent] else [])
      in Option.bind (if nextChild (h ent) = ent then Some (ls @ (if shown then [Uid_none] else []), ent)
                      else list_children h shown ent ls)
        (\<lambda>r. let e = nextEntry (h (snd r))
             in if nextEntry (h e) \<noteq> fin then list_entries h nm fin e (fst r) else Some (fst r)))"

definition printUIDList :: "u32 \<Rightarrow> uid_heap \<Rightarrow> string option \<Rightarrow> uid_line list option" where
  "printUIDList ver h nm = (let fin = u_parent (h (uid_start ver)) in list_entries h nm fin (nextEntry (h fin)) [])"

section \<open>The commands\<close>

definition uidlist_cmd :: "u32 \<Rightarrow> uid_heap \<Rightarrow> string list \<Rightarrow> (int \<times> uid_line list) option" where
  "uidlist_cmd ver h argv =
     map_option (\<lambda>ls. (CMD_OK, ls)) (printUIDList ver h (if argv = [] then None else Some (argv ! 0)))"

definition uidinfo_cmd :: "u32 \<Rightarrow> uid_heap \<Rightarrow> string list \<Rightarrow> (int \<times> uid_line list) option" where
  "uidinfo_cmd ver h argv =
     (let parent = (if 1 < length argv then Some (argv ! 1) else None)
      in map_option (\<lambda>r. (CMD_OK,
             case r of
               None \<Rightarrow> []
             | Some e \<Rightarrow> uid_line_of h e # (if realParent (h e) \<noteq> 0 then [uid_line_of h (realParent (h e))] else [])))
           (if chead (argv ! 0) = CHR ''@'' then findUIDObject ver h 0 (Some (tl (argv ! 0))) parent
            else findUIDObject ver h (fst (strtoul (argv ! 0))) None parent))"

text \<open>The control block of a thread lies behind its object (\<open>thctx.c\<close>).\<close>

definition find_thread_tcb :: "u32 \<Rightarrow> uid_heap \<Rightarrow> u32 \<Rightarrow> u32 option option" where
  "find_thread_tcb ver h uid = map_option (map_option (\<lambda>e. e + 0x30)) (findUIDObject ver h uid None None)"

section \<open>The table as a list\<close>

text \<open>The ring of objects of the type at \<open>t\<close>, behind the entry \<open>e\<close>.\<close>

fun child_chain :: "uid_heap \<Rightarrow> u32 \<Rightarrow> u32 \<Rightarrow> u32 list \<Rightarrow> bool" where
  "child_chain h t e [] \<longleftrightarrow> nextChild (h e) = t"
| "child_chain h t e (c # cs) \<longleftrightarrow> nextChild (h e) = c \<and> realParent (h c) = t \<and> c \<noteq> t \<and> child_chain h t c cs"

text \<open>The ring of types behind \<open>e\<close>, up to \<open>fin\<close>, with the objects of each.\<close>

fun type_chain :: "uid_heap \<Rightarrow> u32 \<Rightarrow> u32 \<Rightarrow> (u32 \<times> u32 list) list \<Rightarrow> bool" where
  "type_chain h fin e [] \<longleftrightarrow> nextEntry (h e) = fin"
| "type_chain h fin e (t # ts) \<longleftrightarrow>
     nextEntry (h e) = fst t \<and> fst t \<noteq> fin \<and> child_chain h (fst t) (fst t) (snd t) \<and> type_chain h fin (fst t) ts"

definition uid_table :: "u32 \<Rightarrow> uid_heap \<Rightarrow> (u32 \<times> u32 list) list \<Rightarrow> bool" where
  "uid_table ver h ts \<longleftrightarrow> (let fin = u_parent (h (uid_start ver)) in type_chain h fin fin ts)"

lemma child_loop_list:
  "child_chain h t e cs \<Longrightarrow> cs \<noteq> [] \<Longrightarrow>
   child_loop h uid nm parent e = Some (case find (uid_hit h uid nm parent) cs of None \<Rightarrow> (False, t) | Some c \<Rightarrow> (True, c))"
proof (induction cs arbitrary: e)
  case (Cons c cs)
  show ?case
  proof (cases cs)
    case Nil
    then show ?thesis using Cons.prems by (subst child_loop.simps) simp
  next
    case (Cons d ds)
    then show ?thesis using Cons.prems Cons.IH [of c] by (subst child_loop.simps) simp
  qed
qed simp

lemma list_children_list:
  "child_chain h t e cs \<Longrightarrow> cs \<noteq> [] \<Longrightarrow>
   list_children h shown e ls = Some (ls @ (if shown then map (uid_line_of h) cs else []), t)"
proof (induction cs arbitrary: e ls)
  case (Cons c cs)
  show ?case
  proof (cases cs)
    case Nil
    then show ?thesis using Cons.prems by (subst list_children.simps) simp
  next
    case (Cons d ds)
    then show ?thesis using Cons.prems Cons.IH [of c] by (subst list_children.simps) simp
  qed
qed simp

text \<open>
  What is looked at: a type (by identifier only), then its objects, then the next type; the last type
  is left out.
\<close>

fun uid_search :: "uid_heap \<Rightarrow> u32 \<Rightarrow> string option \<Rightarrow> string option \<Rightarrow> (u32 \<times> u32 list) list \<Rightarrow> u32 option" where
  "uid_search h uid nm parent [] = None"
| "uid_search h uid nm parent (t # ts) =
     (if u_UID (h (fst t)) = uid then Some (fst t)
      else case find (uid_hit h uid nm parent) (snd t) of
             Some c \<Rightarrow> Some c
           | None \<Rightarrow> uid_search h uid nm parent ts)"

lemma chain_nonempty: "child_chain h t t cs \<Longrightarrow> nextChild (h t) \<noteq> t \<longleftrightarrow> cs \<noteq> []"
  by (cases cs) auto

lemma entry_loop_list:
  "type_chain h fin e (t # ts) \<Longrightarrow> ts \<noteq> [] \<Longrightarrow>
   entry_loop h uid nm parent fin (fst t) = Some (uid_search h uid nm parent (butlast (t # ts)))"
proof (induction ts arbitrary: e t)
  case (Cons t' ts)
  have chain: "child_chain h (fst t) (fst t) (snd t)" and rest: "type_chain h fin (fst t) (t' # ts)"
    using Cons.prems by simp_all
  have next_t: "nextEntry (h (fst t)) = fst t'" using rest by simp
  have inner: "(if nextChild (h (fst t)) \<noteq> fst t then child_loop h uid nm parent (fst t) else Some (False, fst t)) =
      Some (case find (uid_hit h uid nm parent) (snd t) of None \<Rightarrow> (False, fst t) | Some c \<Rightarrow> (True, c))"
    using child_loop_list [OF chain] chain_nonempty [OF chain] by simp
  have after: "(if nextEntry (h (fst t')) \<noteq> fin then entry_loop h uid nm parent fin (fst t') else Some None) =
      Some (uid_search h uid nm parent (butlast (t' # ts)))"
  proof (cases ts)
    case Nil
    then show ?thesis using rest by simp
  next
    case (Cons u us)
    then show ?thesis using rest Cons.IH [OF rest] by simp
  qed
  show ?case
    by (subst entry_loop.simps, simp only: inner) (simp add: next_t after split: option.split)
qed simp

text \<open>
  C27: The table of objects is searched as a list. On a well-formed table of at least two types the search
  comes back; it finds the first entry, in the order type, its objects, next type, that matches the
  identifier or the name and the type asked for; the objects of the last type are never found.
\<close>

theorem findUIDObject_search:
  assumes "uid_table ver h ts" "2 \<le> length ts"
  shows "findUIDObject ver h uid nm parent = Some (uid_search h uid nm parent (butlast ts))"
proof -
  obtain t t' us where ts: "ts = t # t' # us" using assms(2) by (cases ts; cases "tl ts") auto
  let ?fin = "u_parent (h (uid_start ver))"
  have c: "type_chain h ?fin ?fin (t # t' # us)" using assms(1) by (simp add: uid_table_def ts Let_def)
  then show ?thesis
    using entry_loop_list [OF c] by (simp add: findUIDObject_def ts Let_def)
qed

fun uid_listing :: "uid_heap \<Rightarrow> string option \<Rightarrow> (u32 \<times> u32 list) list \<Rightarrow> uid_line list" where
  "uid_listing h nm [] = []"
| "uid_listing h nm (t # ts) =
     (if (case nm of None \<Rightarrow> True | Some n \<Rightarrow> u_name (h (fst t)) = n)
      then Uid_type (u_name (h (fst t))) (u_UID (h (fst t))) (scast (u_attribute (h (fst t)))) (fst t) #
        (if snd t = [] then [Uid_none] else map (uid_line_of h) (snd t))
      else []) @ uid_listing h nm ts"

lemma list_entries_list:
  "type_chain h fin e (t # ts) \<Longrightarrow> ts \<noteq> [] \<Longrightarrow>
   list_entries h nm fin (fst t) ls = Some (ls @ uid_listing h nm (butlast (t # ts)))"
proof (induction ts arbitrary: e t ls)
  case (Cons t' ts)
  have chain: "child_chain h (fst t) (fst t) (snd t)" and rest: "type_chain h fin (fst t) (t' # ts)"
    using Cons.prems by simp_all
  have next_t: "nextEntry (h (fst t)) = fst t'" using rest by simp
  define more where "more = uid_listing h nm (butlast (t' # ts))"
  have a1: "more = []" if "nextEntry (h (fst t')) = fin"
  proof -
    have "ts = []" using rest that by (cases ts) auto
    then show ?thesis by (simp add: more_def)
  qed
  have a2: "list_entries h nm fin (fst t') ls = Some (ls @ more)" if "nextEntry (h (fst t')) \<noteq> fin" for ls
  proof -
    have "ts \<noteq> []" using rest that by (cases ts) simp_all
    then show ?thesis using Cons.IH [OF rest] by (simp add: more_def)
  qed
  have all: "uid_listing h nm (butlast (t # t' # ts)) = uid_listing h nm [t] @ more" by (simp add: more_def)
  have "list_entries h nm fin (fst t) ls = Some (ls @ uid_listing h nm [t] @ more)"
  proof (cases "snd t = []")
    case True
    then have "nextChild (h (fst t)) = fst t" using chain by simp
    then show ?thesis using True by (subst list_entries.simps) (simp add: Let_def next_t a1 a2)
  next
    case False
    then have "nextChild (h (fst t)) \<noteq> fst t" using chain_nonempty [OF chain] by simp
    then show ?thesis using False list_children_list [OF chain False]
      by (subst list_entries.simps) (simp add: Let_def next_t a1 a2)
  qed
  then show ?case unfolding all .
qed simp

lemma printUIDList_listing:
  assumes "uid_table ver h ts" "2 \<le> length ts"
  shows "printUIDList ver h nm = Some (uid_listing h nm (butlast ts))"
proof -
  obtain t t' us where ts: "ts = t # t' # us" using assms(2) by (cases ts; cases "tl ts") auto
  let ?fin = "u_parent (h (uid_start ver))"
  have c: "type_chain h ?fin ?fin (t # t' # us)" using assms(1) by (simp add: uid_table_def ts Let_def)
  then show ?thesis
    using list_entries_list [OF c] by (simp add: printUIDList_def ts Let_def)
qed

text \<open>Two types, the first with two objects.\<close>

definition uid_row :: "u32 \<Rightarrow> u32 \<Rightarrow> u32 \<Rightarrow> u32 \<Rightarrow> string \<Rightarrow> uid_entry" where
  "uid_row p c r i nm = \<lparr>u_parent = p, nextChild = c, realParent = r, u_UID = i, u_name = nm, u_size = 4, u_attribute = 0, nextEntry = 0\<rparr>"

definition example_uids :: uid_heap where
  "example_uids =
     (\<lambda>_. uid_row 16 0 0 0 [])
       (16 := (uid_row 0 16 0 1 ''Basic'')\<lparr>nextEntry := 32\<rparr>, 32 := (uid_row 0 48 0 2 ''Thread'')\<lparr>nextEntry := 80\<rparr>,
        48 := uid_row 0 64 32 3 ''main'', 64 := uid_row 0 32 32 4 ''update'', 80 := (uid_row 0 80 0 5 ''Fpl'')\<lparr>nextEntry := 16\<rparr>)"

theorem findUIDObject_search_witness:
  "findUIDObject 0 example_uids 4 None (Some ''Thread'') = Some (Some 64) \<and> findUIDObject 0 example_uids 5 None None = Some None"
proof -
  have t: "uid_table 0 example_uids [(32, [48, 64]), (80, [])]"
    by (simp add: uid_table_def uid_start_def example_uids_def uid_row_def)
  have "2 \<le> length [(32, [48, 64]), (80 :: u32, [] :: u32 list)]" by simp
  from findUIDObject_search [OF t this] show ?thesis
    by (simp add: example_uids_def uid_row_def uid_hit_def)
qed
end
