(* ===== verification/Exceptions.thy ===== *)
theory Exceptions
  imports Uid "HOL-Library.Multiset"
begin

text \<open>
  \<open>psplink/exception.c\<close>, the trap of \<open>psplink_user/psplink_ex.c\<close>, \<open>psplink/thctx.c\<close>, and the commands \<open>exprint\<close>,
  \<open>exlist\<close>, \<open>exctx\<close>, \<open>exresume\<close>, \<open>exprfpu\<close>, \<open>exprvfpu\<close> and \<open>setreg\<close> of \<open>psplink/shell.c\<close>.

  The contexts are the array of the user module; \<open>g_currex\<close> is the number of the current one. Floating
  point registers are their bits; \<open>fcvt\<close> is the text \<open>f_cvt\<close> makes of them. The kernel's answers about
  threads and modules are arguments.
\<close>

section \<open>Contexts\<close>

abbreviation PSPLINK_MAX_CONTEXT :: nat where "PSPLINK_MAX_CONTEXT \<equiv> 8"
abbreviation PSPLINK_EXTYPE_NORMAL :: u32 where "PSPLINK_EXTYPE_NORMAL \<equiv> 0"
abbreviation PSPLINK_EXTYPE_DEBUG :: u32 where "PSPLINK_EXTYPE_DEBUG \<equiv> 1"

record ex_context =
  c_valid :: bool
  c_r :: "u32 list"
  c_status :: u32
  c_lo :: u32
  c_hi :: u32
  c_badvaddr :: u32
  c_cause :: u32
  c_epc :: u32
  c_fpr :: "u32 list"
  c_fsr :: u32
  c_fir :: u32
  c_frame_ptr :: u32
  c_type :: u32
  c_vfpu :: "u32 list"
  c_thid :: int
  c_drcntl :: u32

text \<open>\<open>registered\<close>: \<open>g_list\<close> is set. \<open>woken\<close>: the threads that were woken, \<open>ex_debug\<close> the breakpoints.\<close>

record ex_state =
  contexts :: "ex_context list"
  registered :: bool
  g_currex :: "nat option"
  ex_debug :: debug_state
  woken :: "int list"

definition psplinkRegisterExceptions :: "ex_context list \<Rightarrow> ex_state \<Rightarrow> ex_state" where
  "psplinkRegisterExceptions ctx s = s\<lparr>contexts := ctx, registered := True\<rparr>"

text \<open>The context a command is about: the one named, if it is in use, or the current one.\<close>

definition pick_context :: "int \<Rightarrow> ex_state \<Rightarrow> nat option" where
  "pick_context ex s =
     (if 0 \<le> ex \<and> ex < int PSPLINK_MAX_CONTEXT
      then if registered s \<and> c_valid (contexts s ! nat ex) then Some (nat ex) else None
      else g_currex s)"

section \<open>Registers by name\<close>

datatype ex_reg = Epc | Fsr | Gpr nat

fun reg_index :: "string \<Rightarrow> nat \<Rightarrow> string list \<Rightarrow> nat option" where
  "reg_index reg i [] = None"
| "reg_index reg i (n # ns) = (if n = reg then Some i else reg_index reg (i + 1) ns)"

definition exceptionGetReg :: "string \<Rightarrow> ex_reg option" where
  "exceptionGetReg reg =
     (if reg = ''epc'' then Some Epc else if reg = ''fsr'' then Some Fsr else map_option Gpr (reg_index reg 0 regName))"

fun read_reg :: "ex_reg \<Rightarrow> ex_context \<Rightarrow> u32" where
  "read_reg Epc c = c_epc c"
| "read_reg Fsr c = c_fsr c"
| "read_reg (Gpr i) c = c_r c ! i"

fun write_reg :: "ex_reg \<Rightarrow> u32 \<Rightarrow> ex_context \<Rightarrow> ex_context" where
  "write_reg Epc v c = c\<lparr>c_epc := v\<rparr>"
| "write_reg Fsr v c = c\<lparr>c_fsr := v\<rparr>"
| "write_reg (Gpr i) v c = c\<lparr>c_r := (c_r c)[i := v]\<rparr>"

text \<open>A write through the pointer to a register; \<open>None\<close>: \<open>g_currex\<close> is null and the pointer is its field's offset.\<close>

definition set_current :: "ex_reg \<Rightarrow> u32 \<Rightarrow> ex_state \<Rightarrow> ex_state option" where
  "set_current r v s =
     map_option (\<lambda>i. s\<lparr>contexts := (contexts s)[i := write_reg r v (contexts s ! i)]\<rparr>) (g_currex s)"

section \<open>The cause\<close>

text \<open>The table has 31 texts: the last of its 32 places is a null pointer.\<close>

definition codeTxt :: "string list" where
  "codeTxt =
     [''Interrupt'', ''TLB modification'', ''TLB load/inst fetch'', ''TLB store'', ''Address load/inst fetch'', ''Address store'',
      ''Bus error (instr)'', ''Bus error (data)'', ''Syscall'', ''Breakpoint'', ''Reserved instruction'', ''Coprocessor unusable'',
      ''Arithmetic overflow'', ''Unknown 13'', ''Unknown 14'', ''FPU Exception'', ''Unknown 16'', ''Unknown 17'', ''Unknown 18'',
      ''Unknown 20'', ''Unknown 21'', ''Unknown 22'', ''Unknown 23'', ''Unknown 24'', ''Unknown 25'', ''Unknown 26'', ''Unknown 27'',
      ''Unknown 28'', ''Unknown 29'', ''Unknown 30'', ''Unknown 31'']"

definition codeFpu :: string where "codeFpu = ''IUOZVE''"
definition codeDebug :: string where "codeDebug = ''XSB??ID''"

definition FPU_EXCEPTION :: nat where "FPU_EXCEPTION = 15"

text \<open>The letters whose bits, from \<open>b\<close> on, are set.\<close>

definition bit_letters :: "string \<Rightarrow> nat \<Rightarrow> u32 \<Rightarrow> string" where
  "bit_letters cs b w = map fst (filter (\<lambda>p. bit w (snd p)) (zip cs [b..<b + length cs]))"

text \<open>\<open>None\<close>: \<open>strcpy\<close> from the null pointer.\<close>

definition exception_cause :: "ex_context \<Rightarrow> string option" where
  "exception_cause c =
     (if c_type c = PSPLINK_EXTYPE_NORMAL
      then let code = unat (drop_bit 2 (c_cause c) AND 31)
           in if code = FPU_EXCEPTION
              then Some (codeTxt ! code @ '' ('' @ bit_letters codeFpu 12 (c_fsr c) @ '')'')
              else if code < length codeTxt then Some (codeTxt ! code) else None
      else Some (''DEBUG ('' @ bit_letters codeDebug 6 (c_drcntl c) @ '')''))"

section \<open>Printing\<close>

definition cpu_line :: "u32 list \<Rightarrow> nat \<Rightarrow> string" where
  "cpu_line rs i =
     regName ! i @ '':'' @ (if i = 0 then ''0x00000000'' else print_word (rs ! i)) @ '' '' @
     regName ! (i + 1) @ '':'' @ print_word (rs ! (i + 1)) @ '' '' @
     regName ! (i + 2) @ '':'' @ print_word (rs ! (i + 2)) @ '' '' @
     regName ! (i + 3) @ '':'' @ print_word (rs ! (i + 3))"

definition exceptionPrintCPURegs :: "u32 list \<Rightarrow> string list" where
  "exceptionPrintCPURegs rs = map (cpu_line rs) [0, 4, 8, 12, 16, 20, 24, 28]"

record ex_answers =
  x_thread :: "int \<Rightarrow> int \<times> thread_info"
  x_module :: "u32 \<Rightarrow> int option"
  x_query :: "int \<Rightarrow> int \<times> query_info"

definition module_lines :: "ex_answers \<Rightarrow> u32 \<Rightarrow> string list" where
  "module_lines k pc =
     (let addr = (if pc < 0x88000000 \<or> 0x88400000 < pc then pc AND 0x7FFFFFFF else pc)
      in case x_module k addr of
           None \<Rightarrow> []
         | Some modid \<Rightarrow>
             (''Module ID - '' @ p32 modid) #
             (let (r, info) = x_query k modid in if r = 0 then [''Mod Name  - '' @ m_name info] else []))"

text \<open>
  The type that is tested is that of the current context, also when another one is printed. \<open>None\<close>:
  there is no current one, or the cause has no text.
\<close>

definition exceptionPrint :: "ex_answers \<Rightarrow> int \<Rightarrow> ex_state \<Rightarrow> string list option" where
  "exceptionPrint k ex s =
     (case pick_context ex s of
        None \<Rightarrow> Some [''No exception occurred'']
      | Some i \<Rightarrow>
         (let c = contexts s ! i
          in case (exception_cause c, g_currex s) of
               (Some cause, Some cur) \<Rightarrow>
                 Some ([''Exception - '' @ cause, ''Thread ID - '' @ p32 (c_thid c)] @
                   (let (r, th) = x_thread k (c_thid c) in if r = 0 then [''Th Name   - '' @ ti_name th] else []) @
                   module_lines k (c_epc c) @
                   [''EPC       - '' @ print_word (c_epc c)] @
                   (if c_type (contexts s ! cur) = PSPLINK_EXTYPE_NORMAL
                    then [''Cause     - '' @ print_word (c_cause c), ''BadVAddr  - '' @ print_word (c_badvaddr c)]
                    else [''DRCNTL    - '' @ print_word (c_drcntl c)]) @
                   [''Status    - '' @ print_word (c_status c)] @
                   exceptionPrintCPURegs (c_r c))
             | _ \<Rightarrow> None))"

fun ex_list_lines :: "nat \<Rightarrow> ex_context list \<Rightarrow> string list option" where
  "ex_list_lines i [] = Some []"
| "ex_list_lines i (c # cs) =
     (if c_valid c
      then (case exception_cause c of
              None \<Rightarrow> None
            | Some cause \<Rightarrow>
                map_option (\<lambda>ls. (''Exception '' @ pad_right 2 (dec_nat i) @ '': EPC '' @ print_word (c_epc c) @ '', Cause '' @ cause) # ls)
                  (ex_list_lines (i + 1) cs))
      else ex_list_lines (i + 1) cs)"

definition exceptionList :: "ex_state \<Rightarrow> string list option" where
  "exceptionList s = (if registered s then ex_list_lines 0 (contexts s) else Some [''No exception handler registered''])"

section \<open>Floating point registers\<close>

definition exceptionPrintFPURegs :: "(u32 \<Rightarrow> string) \<Rightarrow> u32 list \<Rightarrow> u32 \<Rightarrow> u32 \<Rightarrow> string list" where
  "exceptionPrintFPURegs fcvt fs fsr fir =
     map (\<lambda>i. ''fpr'' @ pad_zero 2 (dec_nat (2 * i)) @ '': '' @ pad_right 20 (fcvt (fs ! (2 * i))) @ '' - fpr'' @
            pad_zero 2 (dec_nat (2 * i + 1)) @ '': '' @ pad_right 20 (fcvt (fs ! (2 * i + 1)))) [0..<16] @
     [''fsr: '' @ h8 fsr @ ''   - fir '' @ h8 fir]"

definition exceptionFpuPrint :: "(u32 \<Rightarrow> string) \<Rightarrow> int \<Rightarrow> ex_state \<Rightarrow> string list" where
  "exceptionFpuPrint fcvt ex s =
     (case pick_context ex s of
        None \<Rightarrow> [''No exception occurred'']
      | Some i \<Rightarrow>
         (let c = contexts s ! i
          in if c_status c AND 0x20000000 \<noteq> 0 then exceptionPrintFPURegs fcvt (c_fpr c) (c_fsr c) (c_fir c)
             else [''FPU not enabled in context'']))"

subsection \<open>The vector unit\<close>

datatype vfpu_mode = Single | Col | Row | Matrix | Trans

definition MAT_NUM :: "nat \<Rightarrow> nat" where "MAT_NUM x = x div 16"
definition COL_NUM :: "nat \<Rightarrow> nat" where "COL_NUM x = x div 4 mod 4"
definition ROW_NUM :: "nat \<Rightarrow> nat" where "ROW_NUM x = x mod 4"

text \<open>A row: its name, if one is printed, and the numbers of its registers.\<close>

type_synonym vfpu_row = "string option \<times> nat list"

definition vname :: "char \<Rightarrow> nat \<Rightarrow> nat \<Rightarrow> nat \<Rightarrow> string" where
  "vname t m c r = t # dec_nat m @ dec_nat c @ dec_nat r"

fun vfpu_rows :: "vfpu_mode \<Rightarrow> vfpu_row list" where
  "vfpu_rows Single = map (\<lambda>i. (Some (vname CHR ''S'' (MAT_NUM i) (COL_NUM i) (ROW_NUM i)), [i])) [0..<128]"
| "vfpu_rows Col = map (\<lambda>k. let i = 4 * k in (Some (vname CHR ''C'' (MAT_NUM i) (COL_NUM i) 0), [i, i + 1, i + 2, i + 3])) [0..<32]"
| "vfpu_rows Row =
     concat (map (\<lambda>m. let i = 16 * m in
       map (\<lambda>j. (Some (vname CHR ''R'' (MAT_NUM i) 0 j), [i + j, i + j + 4, i + j + 8, i + j + 12])) [0..<4]) [0..<8])"
| "vfpu_rows Matrix =
     concat (map (\<lambda>m. let i = 16 * m in
       map (\<lambda>j. (if j = 0 then Some (vname CHR ''M'' (MAT_NUM i) 0 0) else None, [i + j, i + j + 4, i + j + 8, i + j + 12])) [0..<4]) [0..<8])"
| "vfpu_rows Trans =
     concat (map (\<lambda>m. let i = 16 * m in
       map (\<lambda>j. (if j = 0 then Some (vname CHR ''E'' (MAT_NUM i) 0 0) else None, [i + j * 4, i + j * 4 + 1, i + j * 4 + 2, i + j * 4 + 3])) [0..<4]) [0..<8])"

definition pad14 :: "string \<Rightarrow> string" where "pad14 s = pad_left 14 s"

definition print_vfpu_row :: "(u32 \<Rightarrow> string) \<Rightarrow> u32 list \<Rightarrow> vfpu_row \<Rightarrow> string" where
  "print_vfpu_row fcvt fs row =
     (case row of
        (nm, [x, y, z, w]) \<Rightarrow>
          (case nm of Some n \<Rightarrow> n @ '': '' | None \<Rightarrow> ''      '') @ ''{ '' @ pad14 (fcvt (fs ! x)) @ '', '' @ pad14 (fcvt (fs ! y)) @ '', '' @
          pad14 (fcvt (fs ! z)) @ '', '' @ pad14 (fcvt (fs ! w)) @ '' }''
      | _ \<Rightarrow> [])"

text \<open>Single registers go two on a line.\<close>

fun pairs_lines :: "(u32 \<Rightarrow> string) \<Rightarrow> u32 list \<Rightarrow> vfpu_row list \<Rightarrow> string list" where
  "pairs_lines fcvt fs ((Some n, [i]) # (Some n', [j]) # rows) =
     (n @ '': '' @ pad_right 20 (fcvt (fs ! i)) @ '' - '' @ n' @ '': '' @ pad_right 20 (fcvt (fs ! j))) # pairs_lines fcvt fs rows"
| "pairs_lines fcvt fs rows = []"

definition exceptionPrintVFPURegs :: "(u32 \<Rightarrow> string) \<Rightarrow> u32 list \<Rightarrow> vfpu_mode \<Rightarrow> string list" where
  "exceptionPrintVFPURegs fcvt fs mode =
     (if mode = Single then pairs_lines fcvt fs (vfpu_rows Single) else map (print_vfpu_row fcvt fs) (vfpu_rows mode))"

definition exceptionVfpuPrint :: "(u32 \<Rightarrow> string) \<Rightarrow> int \<Rightarrow> vfpu_mode \<Rightarrow> ex_state \<Rightarrow> string list" where
  "exceptionVfpuPrint fcvt ex mode s =
     (case pick_context ex s of
        None \<Rightarrow> [''No exception occurred'']
      | Some i \<Rightarrow>
         (let c = contexts s ! i
          in if c_status c AND 0x40000000 \<noteq> 0 then exceptionPrintVFPURegs fcvt (c_vfpu c) mode
             else [''VFPU not enabled in context'']))"

section \<open>Handling an exception\<close>

text \<open>
  The shell's own thread does not stop: it goes on in \<open>longjmp\<close>, back to the last \<open>setjmp\<close> of its loop.
  \<open>jump\<close>: the address of \<open>longjmp\<close>, \<open>parseenv\<close> that of the saved environment.
\<close>

definition exceptionCheckParseThread :: "ex_answers \<Rightarrow> u32 \<Rightarrow> u32 \<Rightarrow> ex_context \<Rightarrow> bool \<times> ex_context" where
  "exceptionCheckParseThread k jump parseenv c =
     (let (r, th) = x_thread k (c_thid c)
      in if r = 0 \<and> ti_name th = ''PspLinkParse''
         then (True, c\<lparr>c_epc := jump, c_r := (c_r c)[4 := parseenv, 5 := 1]\<rparr>) else (False, c))"

text \<open>What is printed (\<open>None\<close>: the printing fails), whether the thread is put to sleep, and the state.\<close>

definition psplinkHandleException :: "ex_answers \<Rightarrow> u32 \<Rightarrow> u32 \<Rightarrow> nat \<Rightarrow> ex_state \<Rightarrow> string list option \<times> bool \<times> ex_state" where
  "psplinkHandleException k jump parseenv i s =
     (let s = s\<lparr>g_currex := Some i\<rparr>;
          (own, d) = debugHandleException (c_epc (contexts s ! i)) (ex_debug s);
          s = s\<lparr>ex_debug := d\<rparr>;
          ls = (if own then Some [] else exceptionPrint k (- 1) s);
          (intex, c) = exceptionCheckParseThread k jump parseenv (contexts s ! i)
      in (ls, \<not> intex, s\<lparr>contexts := (contexts s)[i := c]\<rparr>))"

definition exceptionResume :: "ex_state \<Rightarrow> ex_state" where
  "exceptionResume s =
     (case g_currex s of
        None \<Rightarrow> s
      | Some i \<Rightarrow> s\<lparr>woken := woken s @ [c_thid (contexts s ! i)], g_currex := None\<rparr>)"

definition exceptionSetCtx :: "int \<Rightarrow> ex_state \<Rightarrow> ex_state" where
  "exceptionSetCtx ex s =
     (if 0 \<le> ex \<and> ex < int PSPLINK_MAX_CONTEXT \<and> registered s \<and> c_valid (contexts s ! nat ex)
      then s\<lparr>g_currex := Some (nat ex)\<rparr> else s)"

text \<open>
  \<open>psplinkTrap\<close>: what becomes of the thread. \<open>ctx\<close> is the free context the entry code found; \<open>debug_env\<close> the
  debug control register when it can be read; \<open>gdb\<close> what the debugger's handler answers, if there is one.
\<close>

datatype trap_end = Returned | Thread_deleted | Resumed bool

definition psplinkTrap ::
  "ex_answers \<Rightarrow> u32 \<Rightarrow> u32 \<Rightarrow> int \<Rightarrow> nat option \<Rightarrow> u32 option \<Rightarrow> (ex_context \<Rightarrow> bool \<times> ex_context) option \<Rightarrow> ex_state \<Rightarrow> trap_end \<times> ex_state" where
  "psplinkTrap k jump parseenv thid ctx debug_env gdb s =
     (if thid < 0 then (Returned, s)
      else case ctx of
        None \<Rightarrow> (Thread_deleted, s)
      | Some i \<Rightarrow>
         (let c = (contexts s ! i)\<lparr>c_thid := thid\<rparr>;
              c = (if c_type c = PSPLINK_EXTYPE_DEBUG then (case debug_env of None \<Rightarrow> c | Some v \<Rightarrow> c\<lparr>c_drcntl := v\<rparr>) else c);
              (handled, c) = (case gdb of None \<Rightarrow> (False, c) | Some f \<Rightarrow> f c);
              s = s\<lparr>contexts := (contexts s)[i := c]\<rparr>
          in if handled then (Resumed False, s)
             else let (ls, sleep, s) = psplinkHandleException k jump parseenv i s in (Resumed sleep, s)))"

section \<open>The commands\<close>

definition exprint_cmd :: "ex_answers \<Rightarrow> string list \<Rightarrow> ex_state \<Rightarrow> (int \<times> string list) option" where
  "exprint_cmd k argv s = map_option (\<lambda>ls. (CMD_OK, ls)) (exceptionPrint k (if argv = [] then - 1 else c_atoi_str (argv ! 0)) s)"

definition exlist_cmd :: "ex_state \<Rightarrow> (int \<times> string list) option" where
  "exlist_cmd s = map_option (\<lambda>ls. (CMD_OK, ls)) (exceptionList s)"

definition exctx_cmd :: "string list \<Rightarrow> ex_state \<Rightarrow> int \<times> ex_state" where
  "exctx_cmd argv s = (CMD_OK, exceptionSetCtx (c_atoi_str (argv ! 0)) s)"

definition exprfpu_cmd :: "(u32 \<Rightarrow> string) \<Rightarrow> string list \<Rightarrow> ex_state \<Rightarrow> int \<times> string list" where
  "exprfpu_cmd fcvt argv s = (CMD_OK, exceptionFpuPrint fcvt (if argv = [] then - 1 else c_atoi_str (argv ! 0)) s)"

definition vfpu_format :: "string list \<Rightarrow> vfpu_mode option" where
  "vfpu_format argv =
     (if argv = [] then Some Single
      else let c = chead (argv ! 0)
           in if c = CHR ''s'' then Some Single else if c = CHR ''c'' then Some Col else if c = CHR ''r'' then Some Row
              else if c = CHR ''m'' then Some Matrix else if c = CHR ''e'' then Some Trans else None)"

definition exprvfpu_cmd :: "(u32 \<Rightarrow> string) \<Rightarrow> string list \<Rightarrow> ex_state \<Rightarrow> int \<times> string list" where
  "exprvfpu_cmd fcvt argv s =
     (case vfpu_format argv of
        None \<Rightarrow> (CMD_ERROR, [''Unknown format code '' @ [CHR 0x27, chead (argv ! 0), CHR 0x27]])
      | Some mode \<Rightarrow> (CMD_OK, exceptionVfpuPrint fcvt (if 1 < length argv then c_atoi_str (argv ! 1) else - 1) mode s))"

text \<open>\<open>None\<close>: the program counter of no context is written.\<close>

definition exresume_cmd :: "lookups \<Rightarrow> string list \<Rightarrow> ex_state \<Rightarrow> (int \<times> ex_state) option" where
  "exresume_cmd env argv s =
     (if argv = [] then Some (CMD_OK, exceptionResume s)
      else case memDecode env (argv ! 0) of
             None \<Rightarrow> Some (CMD_ERROR, s)
           | Some addr \<Rightarrow> map_option (\<lambda>s. (CMD_OK, exceptionResume s)) (set_current Epc addr s))"

text \<open>The value is decoded from the first argument, the name of the register; the second is not looked at.\<close>

definition setreg_cmd :: "lookups \<Rightarrow> string list \<Rightarrow> ex_state \<Rightarrow> (int \<times> ex_state) option" where
  "setreg_cmd env argv s =
     (case memDecode env (argv ! 0) of
        None \<Rightarrow> Some (CMD_OK, s)
      | Some addr \<Rightarrow>
         (if chead (argv ! 0) \<noteq> CHR ''$'' then Some (CMD_ERROR, s)
          else case exceptionGetReg (tl (argv ! 0)) of
                 None \<Rightarrow> Some (CMD_ERROR, s)
               | Some r \<Rightarrow> map_option (\<lambda>s. (CMD_OK, s)) (set_current r addr s)))"

section \<open>The context of a thread\<close>

text \<open>The thread control block and the saved registers, whose layout \<open>thctx.c\<close> gives; \<open>ctx_gpr\<close> has registers 1 to 31.\<close>

record thread_regs =
  ctx_gpr :: "u32 list"
  ctx_fpr :: "u32 list"
  ctx_hi :: u32
  ctx_lo :: u32
  ctx_SR :: u32
  ctx_EPC :: u32

record thread_kcontext =
  kc_status :: u32
  kc_epc :: u32
  kc_sp :: u32
  kc_ra :: u32
  kc_k1 :: u32

record tcb =
  tcb_attribute :: u32
  tcb_stack :: u32
  tcb_stacksize :: u32
  tcb_kstack :: u32
  tcb_kstacksize :: u32
  tcb_context :: u32
  tcb_vfpu_context :: u32

definition PSP_THREAD_ATTR_USER :: u32 where "PSP_THREAD_ATTR_USER = 0x80000000"

definition empty_context :: ex_context where
  "empty_context =
     \<lparr>c_valid = False, c_r = replicate 32 0, c_status = 0, c_lo = 0, c_hi = 0, c_badvaddr = 0, c_cause = 0, c_epc = 0,
      c_fpr = replicate 32 0, c_fsr = 0, c_fir = 0, c_frame_ptr = 0, c_type = 0, c_vfpu = replicate 128 0, c_thid = 0, c_drcntl = 0\<rparr>"

definition psplinkInitException :: "ex_state \<Rightarrow> ex_state" where
  "psplinkInitException s = psplinkRegisterExceptions (replicate PSPLINK_MAX_CONTEXT empty_context) s"

text \<open>
  \<open>tcb_at\<close>, \<open>regs_at\<close> and \<open>kctx_at\<close> read the structures at an address. The result is 1 in every case; the
  context is filled in for a user thread that is found (\<open>None\<close>: left as it was).
\<close>

definition user_context :: "(u32 \<Rightarrow> thread_regs) \<Rightarrow> (u32 \<Rightarrow> thread_kcontext) \<Rightarrow> int \<Rightarrow> tcb \<Rightarrow> ex_context" where
  "user_context regs_at kctx_at uid t =
     (let th = regs_at (tcb_context t);
          c = empty_context\<lparr>c_thid := uid, c_r := 0 # ctx_gpr th, c_fpr := ctx_fpr th, c_hi := ctx_hi th, c_lo := ctx_lo th\<rparr>
      in if ctx_gpr th ! 28 AND 0x80000000 \<noteq> 0
         then let kth = kctx_at (tcb_kstack t + tcb_kstacksize t - 32)
              in c\<lparr>c_epc := kc_epc kth, c_status := kc_status kth, c_frame_ptr := kc_sp kth,
                   c_r := (c_r c)[29 := kc_sp kth, 31 := kc_ra kth, 27 := kc_k1 kth]\<rparr>
         else c\<lparr>c_epc := ctx_EPC th, c_status := ctx_SR th, c_frame_ptr := ctx_gpr th ! 28\<rparr>)"

definition psplinkFindUserThreadContext ::
  "(u32 \<Rightarrow> tcb) \<Rightarrow> (u32 \<Rightarrow> thread_regs) \<Rightarrow> (u32 \<Rightarrow> thread_kcontext) \<Rightarrow> u32 \<Rightarrow> uid_heap \<Rightarrow> int \<Rightarrow> (int \<times> ex_context option) option" where
  "psplinkFindUserThreadContext tcb_at regs_at kctx_at ver h uid =
     map_option (\<lambda>p. (1,
         case p of
           None \<Rightarrow> None
         | Some a \<Rightarrow> if tcb_attribute (tcb_at a) AND PSP_THREAD_ATTR_USER \<noteq> 0
                     then Some (user_context regs_at kctx_at uid (tcb_at a)) else None))
       (find_thread_tcb ver h (word_of_int uid))"

definition threadFindContext ::
  "(u32 \<Rightarrow> string) \<Rightarrow> (u32 \<Rightarrow> tcb) \<Rightarrow> (u32 \<Rightarrow> thread_regs) \<Rightarrow> u32 \<Rightarrow> uid_heap \<Rightarrow> int \<Rightarrow> (int \<times> string list) option" where
  "threadFindContext ptr tcb_at regs_at ver h uid =
     map_option (\<lambda>p.
         case p of
           None \<Rightarrow> (- 1, [])
         | Some a \<Rightarrow>
            (let t = tcb_at a; th = regs_at (tcb_context t)
             in (0, [''TCB 0x'' @ ptr a,
                     ''kstack '' @ print_word (tcb_kstack t) @ '' kstacksize '' @ print_word (tcb_kstacksize t),
                     ''stack  '' @ print_word (tcb_stack t) @ '' stacksize  '' @ print_word (tcb_stacksize t),
                     ''context 0x'' @ ptr (tcb_context t) @ '', vfpu 0x'' @ ptr (tcb_vfpu_context t),
                     ''EPC '' @ print_word (ctx_EPC th)] @ exceptionPrintCPURegs (0 # ctx_gpr th))))
       (find_thread_tcb ver h (word_of_int uid))"

section \<open>Properties\<close>

lemma length_bit_letters: "length (bit_letters cs b w) \<le> length cs"
  unfolding bit_letters_def length_map using length_filter_le [of "\<lambda>p. bit w (snd p)" "zip cs [b..<b + length cs]"] by simp

lemma codeTxt_lengths: "list_all (\<lambda>t. length t \<le> 23) codeTxt" "length codeTxt = 31" "codeTxt ! FPU_EXCEPTION = ''FPU Exception''"
  by (simp_all add: codeTxt_def FPU_EXCEPTION_def)

text \<open>The text of a cause fits its buffer of 40 bytes.\<close>

lemma exception_cause_fits: "exception_cause c = Some s \<Longrightarrow> length s < 40"
proof -
  assume s: "exception_cause c = Some s"
  have l: "length (codeTxt ! j) \<le> 23" if "j < 31" for j
    using codeTxt_lengths(1) that unfolding list_all_length codeTxt_lengths(2) by blast
  have b: "length (bit_letters codeFpu n w) \<le> 6" "length (bit_letters codeDebug n w) \<le> 7" for n w
    using length_bit_letters [of codeFpu n w] length_bit_letters [of codeDebug n w] by (simp_all add: codeFpu_def codeDebug_def)
  show ?thesis
  proof (cases "c_type c = PSPLINK_EXTYPE_NORMAL")
    case True
    then show ?thesis using s b(1) [of 12 "c_fsr c"] l codeTxt_lengths(2)
      by (auto simp: exception_cause_def Let_def codeTxt_lengths(3) split: if_splits intro: le_less_trans [OF l])
  next
    case False
    then show ?thesis using s b(2) [of 6 "c_drcntl c"] by (auto simp: exception_cause_def)
  qed
qed

text \<open>The texts are one place off from 19 on, and code 31 has none.\<close>

lemma cause_texts_shifted: "codeTxt ! 19 = ''Unknown 20''" "codeTxt ! 30 = ''Unknown 31''" "\<not> 31 < length codeTxt"
  by (simp_all add: codeTxt_def)

subsection \<open>Every vector register is printed once\<close>

definition rows_by_col :: "nat list list" where
  "rows_by_col = concat (map (\<lambda>m. map (\<lambda>j. [16 * m + j * 4, 16 * m + j * 4 + 1, 16 * m + j * 4 + 2, 16 * m + j * 4 + 3]) [0..<4]) [0..<8])"

definition rows_by_row :: "nat list list" where
  "rows_by_row = concat (map (\<lambda>m. map (\<lambda>j. [16 * m + j, 16 * m + j + 4, 16 * m + j + 8, 16 * m + j + 12]) [0..<4]) [0..<8])"

lemma rows_sorted: "sort (concat rows_by_col) = [0..<128]" "sort (concat rows_by_row) = [0..<128]"
  "sort (concat (map (\<lambda>k. [4 * k, 4 * k + 1, 4 * k + 2, 4 * k + 3]) [0..<32])) = [0..<128 :: nat]"
  by code_simp+

lemma vfpu_indices:
  "concat (map snd (vfpu_rows mode)) =
     (case mode of Single \<Rightarrow> [0..<128] | Col \<Rightarrow> concat (map (\<lambda>k. [4 * k, 4 * k + 1, 4 * k + 2, 4 * k + 3]) [0..<32])
      | Trans \<Rightarrow> concat rows_by_col | _ \<Rightarrow> concat rows_by_row)"
proof -
  have "concat (map (\<lambda>x. [x]) xs) = xs" for xs :: "nat list" by (induction xs) simp_all
  then show ?thesis
    by (cases mode) (simp_all add: comp_def Let_def map_concat rows_by_col_def rows_by_row_def)
qed

text \<open>
  Every register of the vector unit is printed exactly once, in each of the five formats.
\<close>

theorem vfpu_printed_once: "mset (concat (map snd (vfpu_rows mode))) = mset [0..<128]"
proof -
  have "sort (concat (map snd (vfpu_rows mode))) = [0..<128]"
    unfolding vfpu_indices by (cases mode) (simp_all only: vfpu_mode.case rows_sorted, simp)
  then show ?thesis by (metis mset_sort)
qed

subsection \<open>Setting a register\<close>

definition reg_names :: "string list" where "reg_names = ''epc'' # ''fsr'' # regName"

lemma reg_index_mem: "reg_index reg i ns = Some j \<Longrightarrow> reg \<in> set ns"
  by (induction ns arbitrary: i) (auto split: if_splits)

lemma exceptionGetReg_name: "exceptionGetReg reg = Some r \<Longrightarrow> reg \<in> set reg_names"
  by (auto simp: exceptionGetReg_def reg_names_def split: if_splits dest: reg_index_mem)

lemma reg_names_alnum: "list_all (\<lambda>n. list_all is_alnum n \<and> length n \<le> 15 \<and> n \<noteq> []) reg_names"
  by code_simp

lemma memDecode_register:
  assumes "reg \<in> set reg_names" "get_reg env reg = Some v"
  shows "memDecode env (CHR ''$'' # reg) = Some v"
proof -
  have a: "list_all is_alnum reg" "length reg \<le> 15" using reg_names_alnum assms(1) by (auto simp: list_all_iff)
  have t: "takeWhile is_alnum (take 15 reg) = reg" using a by (simp add: takeWhile_eq_all_conv list_all_iff)
  have s: "\<not> is_aspace CHR ''$''" by (simp add: is_aspace_def)
  have "line_turn env OP_START (CHR ''$'' # reg) = Operand v []"
    using assms(2) by (simp add: line_turn_def t s Let_def)
  then have "parse_loop env (CHR ''$'' # reg) OP_START 0 0 0 = Some v"
    by (subst parse_loop.simps) (simp add: deref_addr.simps parse_loop.simps do_op_def)
  then show ?thesis using a by (simp add: memDecode_def parse_line_def)
qed

lemma write_read_reg: "write_reg r (read_reg r c) c = c"
  by (cases r) simp_all

text \<open>
  \<open>setreg\<close> sets nothing. Whatever its arguments, the command leaves every register of the current
  context, and all else, as it was: the value it writes is the one the register has.
\<close>

theorem setreg_changes_nothing:
  assumes "g_currex s = Some i" "get_reg env = (\<lambda>n. map_option (\<lambda>r. read_reg r (contexts s ! i)) (exceptionGetReg n))"
  shows "\<exists>r. setreg_cmd env argv s = Some (r, s)"
proof (cases "\<exists>addr r. memDecode env (argv ! 0) = Some addr \<and> chead (argv ! 0) = CHR ''$'' \<and> exceptionGetReg (tl (argv ! 0)) = Some r")
  case True
  then obtain addr r where d: "memDecode env (argv ! 0) = Some addr" "chead (argv ! 0) = CHR ''$''"
    "exceptionGetReg (tl (argv ! 0)) = Some r" by blast
  have line: "argv ! 0 = CHR ''$'' # tl (argv ! 0)" using d(2) by (cases "argv ! 0") simp_all
  have "get_reg env (tl (argv ! 0)) = Some (read_reg r (contexts s ! i))" using assms(2) d(3) by simp
  from memDecode_register [OF exceptionGetReg_name [OF d(3)] this] have "addr = read_reg r (contexts s ! i)"
    using d(1) line by simp
  then have "set_current r addr s = Some s" using assms(1) by (simp add: set_current_def write_read_reg)
  then show ?thesis using d by (simp add: setreg_cmd_def)
qed (auto simp: setreg_cmd_def split: option.split)

definition current_context :: ex_context where
  "current_context = empty_context\<lparr>c_valid := True, c_r := map of_nat [100..<132], c_epc := 0x08804000\<rparr>"

definition example_exception :: ex_state where
  "example_exception =
     \<lparr>contexts = [current_context], registered = True, g_currex = Some 0, ex_debug = debug_start (\<lambda>_. 0), woken = []\<rparr>"

definition register_env :: lookups where
  "register_env = (plain_env (\<lambda>_. 0))\<lparr>get_reg := (\<lambda>n. map_option (\<lambda>r. read_reg r (contexts example_exception ! 0)) (exceptionGetReg n))\<rparr>"

theorem setreg_changes_nothing_witness: "\<exists>r. setreg_cmd register_env [''$v0'', ''0x1234''] example_exception = Some (r, example_exception)"
  by (rule setreg_changes_nothing [of _ 0]) (simp_all add: example_exception_def register_env_def)
end
