(* ===== verification/ShellTools.thy ===== *)
theory ShellTools
  imports Restart Exceptions
begin

text \<open>
  \<open>psplink/shell.c\<close>: the commands on the USB drivers, on the kernel's memory, on breakpoints and debug
  registers, on symbols and on the configuration, the clock, the profiler, the debug register and the battery. They
  look at their arguments and call the functions of the other theories.
\<close>

section \<open>USB\<close>

type_synonym usb_cmd = "usb_state \<Rightarrow> int \<times> usb_state \<times> usb_call list"

definition usbmasson_cmd :: "(usb_call \<Rightarrow> int) \<Rightarrow> usb_cmd" where
  "usbmasson_cmd res u = (CMD_OK, snd (init_usbmass res u))"

definition usbmassoff_cmd :: usb_cmd where
  "usbmassoff_cmd u = (CMD_OK, snd (stop_usbmass u))"

definition usbhoston_cmd :: "string \<Rightarrow> nat \<Rightarrow> (usb_call \<Rightarrow> int) \<Rightarrow> usb_cmd" where
  "usbhoston_cmd bootpath product res u = (CMD_OK, snd (init_usbhost bootpath product res u))"

definition usbhostoff_cmd :: "nat \<Rightarrow> usb_cmd" where
  "usbhostoff_cmd product u = (CMD_OK, snd (stop_usbhost product u))"

abbreviation PSP_USB_CABLE_CONNECTED :: u32 where "PSP_USB_CABLE_CONNECTED \<equiv> 0x20"
abbreviation PSP_USB_ACTIVATED :: u32 where "PSP_USB_ACTIVATED \<equiv> 0x200"

definition usbstat_cmd :: "u32 \<Rightarrow> int \<times> string list" where
  "usbstat_cmd state =
     (CMD_OK,
      [''USB Status:'',
       ''Connection    : '' @ (if state AND PSP_USB_ACTIVATED \<noteq> 0 then ''activated'' else ''deactivated''),
       ''USB Cable     : '' @ (if state AND PSP_USB_CABLE_CONNECTED \<noteq> 0 then ''connected'' else ''disconnected''),
       ''USB Connection: '' @ (if state AND PSP_USB_ACTIVATED \<noteq> 0 then ''established'' else ''notpresent'')])"

section \<open>The kernel's memory and state\<close>

text \<open>Of a partition: its start, size, free memory in all and in one piece, and attribute.\<close>

record partition_info =
  pt_startaddr :: u32
  pt_memsize :: u32
  pt_total :: u32
  pt_free :: u32
  pt_attr :: u32

definition partition_line :: "(int \<Rightarrow> partition_info) \<Rightarrow> int \<Rightarrow> string" where
  "partition_line info i =
     dec_int i @ '' | '' @ print_word (pt_startaddr (info i)) @ '' | '' @ pad_left 8 (d32 (pt_memsize (info i))) @ '' | '' @
     pad_left 9 (d32 (pt_total (info i))) @ '' | '' @ pad_left 9 (d32 (pt_free (info i))) @ '' | '' @
     pad_zero 4 (hex_upper (unat (pt_attr (info i)))) @ '' |''"

definition meminfo_cmd :: "(int \<Rightarrow> partition_info) \<Rightarrow> string list \<Rightarrow> int \<times> string list" where
  "meminfo_cmd info argv =
     (let part = (if argv = [] then 1 else c_atoi_str (argv ! 0));
          said = (if argv = [] then [] else [''pid: '' @ dec_int part]);
          top = (if argv = [] then 6 else part + 1)
      in if argv \<noteq> [] \<and> (part \<le> 0 \<or> 4 < part)
         then (CMD_ERROR, said @ [''Error, invalid partition number '' @ dec_int part])
         else (CMD_OK, said @
                [''Memory Partitions:'', ''N |    BASE    |   SIZE   | TOTALFREE |  MAXFREE  | ATTR |'',
                 ''--|------------|----------|-----------|-----------|------|''] @
                map (partition_line info) [part..top - 1]))"

datatype mem_dump = Dump | Dump_tail | Dump_block

definition memblocks_cmd :: "string list \<Rightarrow> int \<times> mem_dump option" where
  "memblocks_cmd argv =
     (if argv = [] then (CMD_OK, Some Dump_block)
      else if chead (argv ! 0) = CHR ''f'' then (CMD_OK, Some Dump)
      else if chead (argv ! 0) = CHR ''t'' then (CMD_OK, Some Dump_tail) else (CMD_ERROR, None))"

definition modaddr_cmd :: "lookups \<Rightarrow> (u32 \<Rightarrow> int option) \<Rightarrow> (int \<Rightarrow> int \<times> query_info) \<Rightarrow> string list \<Rightarrow> int \<times> string list" where
  "modaddr_cmd env by_addr query argv =
     (case memDecode env (argv ! 0) of
        None \<Rightarrow> (CMD_ERROR, [''Invalid address '' @ argv ! 0])
      | Some addr \<Rightarrow>
          (CMD_OK, case by_addr addr of
                     None \<Rightarrow> [''Couldn'' @ [CHR 0x27] @ ''t find module at address '' @ print_word addr]
                   | Some modid \<Rightarrow> snd (print_modinfo query modid True)))"

text \<open>\<open>regs\<close> of \<open>cop0_cmd\<close> are the 64 words of \<open>psplinkGetCop0\<close>.\<close>

definition cop0_lines :: "u32 list \<Rightarrow> nat \<Rightarrow> string list" where
  "cop0_lines ws base =
     map (\<lambda>k. ''$'' @ pad_zero 2 (dec_nat (2 * k)) @ '': '' @ print_word (ws ! (2 * k + base)) @ ''  -  $'' @
            pad_zero 2 (dec_nat (2 * k + 1)) @ '': '' @ print_word (ws ! (2 * k + 1 + base))) [0..<16]"

definition cop0_cmd :: "u32 list \<Rightarrow> int \<times> string list" where
  "cop0_cmd ws = (CMD_OK, ''MXC0 Regs:'' # cop0_lines ws 0 @ [[], ''CXC0 Regs:''] @ cop0_lines ws 32)"

record system_status =
  ss_status :: u32
  ss_idle_hi :: u32
  ss_idle_low :: u32
  ss_resume :: u32
  ss_thread :: u32
  ss_vfpu :: u32

definition sysstat_cmd :: "system_status option \<Rightarrow> int \<times> string list" where
  "sysstat_cmd stat =
     (CMD_OK,
      case stat of
        None \<Rightarrow> []
      | Some s \<Rightarrow>
          [''System Status: '' @ print_word (ss_status s), ''Idle Clocks:   '' @ h8 (ss_idle_hi s) @ h8 (ss_idle_low s),
           ''Resume Count:  '' @ d32 (ss_resume s), ''Thread Switch: '' @ d32 (ss_thread s), ''VFPU Switch:   '' @ d32 (ss_vfpu s)])"

section \<open>Breakpoints and debug registers\<close>

definition hwena_cmd :: "string list \<Rightarrow> u32 \<Rightarrow> int \<times> string list \<times> u32" where
  "hwena_cmd argv status =
     (if argv = []
      then (CMD_OK, [''Debug HW: '' @ (if debugHWEnabled status \<noteq> 0 then ''on'' else ''off'')], status)
      else if argv ! 0 = ''on'' then (CMD_OK, [], debugEnableHW status)
      else if argv ! 0 = ''off'' then (CMD_OK, [], debugDisableHW status)
      else (CMD_ERROR, [], status))"

definition hw_line :: "string \<Rightarrow> u32 \<Rightarrow> string" where
  "hw_line nm v = pad_right 6 nm @ '': '' @ print_word v"

definition debugPrintHWRegs :: "bool \<Rightarrow> hw_state \<Rightarrow> string list" where
  "debugPrintHWRegs v1 h =
     (if v1 then [''Not available on v1.0 firmware'']
      else case fst h of
        None \<Rightarrow> [''HW Debugger not enabled'']
      | Some e \<Rightarrow> ''<HW Debug Registers>'' #
             map (\<lambda>(n, v). hw_line n v)
               [(''DRCNTL'', DRCNTL e), (''IBC'', IBC e), (''DBC'', DBC e), (''IBA'', IBA e), (''IBAM'', IBAM e),
                (''DBA'', DBA e), (''DBAM'', DBAM e), (''DBD'', DBD e), (''DBDM'', DBDM e)])"

definition hwregs_cmd :: "lookups \<Rightarrow> string list \<Rightarrow> hw_state \<Rightarrow> int \<times> string list \<times> hw_state" where
  "hwregs_cmd env argv h =
     (if argv = [] then (CMD_OK, debugPrintHWRegs (isv1 env) h, h) else (CMD_OK, [], debugSetHWRegs (memDecode env) argv h))"

text \<open>The mask is 0 whatever the second argument is.\<close>

definition hwbp_cmd :: "lookups \<Rightarrow> string list \<Rightarrow> hw_state \<Rightarrow> int \<times> hw_state" where
  "hwbp_cmd env argv h =
     (case memDecode env (argv ! 0) of None \<Rightarrow> (CMD_ERROR, h) | Some addr \<Rightarrow> (CMD_OK, debugSetHWBreak addr 0 h))"

text \<open>Memory is that of the debugger's state.\<close>

definition bpset_cmd :: "lookups \<Rightarrow> string list \<Rightarrow> debug_state \<Rightarrow> int \<times> string list \<times> debug_state" where
  "bpset_cmd env argv d =
     (case memDecode (env\<lparr>memory := dmem d\<rparr>) (argv ! 0) of
        None \<Rightarrow> (CMD_ERROR, [], d)
      | Some addr \<Rightarrow>
         (let addr = addr AND NOT 3
          in if 4 \<le> size_left env addr (MEM_ATTRIB_WRITE OR MEM_ATTRIB_WORD OR MEM_ATTRIB_EXEC)
             then (CMD_OK, [], snd (debugSetBP addr d))
             else (CMD_ERROR, [''Error, invalidate memory address for breakpoint''], d)))"

definition bpprint_cmd :: "debug_state \<Rightarrow> int \<times> (nat \<times> u32 \<times> u32) list" where
  "bpprint_cmd d = (CMD_OK, debugPrintBPS d)"

definition step_cmd :: "RegBlock option \<Rightarrow> debug_state \<Rightarrow> int \<times> debug_state" where
  "step_cmd rb d = (CMD_OK, fst (debugStep rb False d))"

definition skip_cmd :: "RegBlock option \<Rightarrow> debug_state \<Rightarrow> int \<times> debug_state" where
  "skip_cmd rb d = (CMD_OK, fst (debugStep rb True d))"

section \<open>Symbols\<close>

text \<open>\<open>sfile\<close>: the size and contents of a file; \<open>mem_block\<close> and \<open>behind\<close> as in \<open>Symbols\<close>.\<close>

definition symload_cmd ::
  "io_answers \<Rightarrow> string \<Rightarrow> u32 option \<Rightarrow> (string \<Rightarrow> u32 option \<times> u8 list option) \<Rightarrow> u8 list \<Rightarrow> string list \<Rightarrow> symbols \<Rightarrow> int \<times> symbols" where
  "symload_cmd io cwd mem_block sfile behind argv s =
     (case handlepath (io_stat io) (io_opens io) cwd (argv ! 0) TYPE_FILE True of
        None \<Rightarrow> (CMD_ERROR, s)
      | Some source \<Rightarrow>
         (let (n, data) = sfile source; (ok, s) = symbolLoadSymbols mem_block n data behind s
          in (if ok then CMD_OK else CMD_ERROR, s)))"

definition symbolPrintLoadList :: "symbols \<Rightarrow> string list" where
  "symbolPrintLoadList s =
     (if g_files s = [] then [''No symbols loaded'']
      else map (\<lambda>f. ''Module '' @ take 28 (sf_mod f) @ '' - Size '' @ d32 (sf_size f) @ '' - Symcount '' @ dec_nat (length (sf_entries f)))
             (g_files s))"

definition symbolPrintSymbols :: "string \<Rightarrow> symbols \<Rightarrow> string list" where
  "symbolPrintSymbols modname s =
     (case find_symbolfile modname s of
        None \<Rightarrow> [''Could not file module '' @ modname @ [CHR 0x27] @ ''s symbols'']
      | Some f \<Rightarrow>
          map (\<lambda>(i, e). ''Symbol '' @ dec_nat i @ '' - Address '' @ print_word (e_addr e) @ '' - Size '' @
                 pad_right 10 (d32 (e_size e)) @ '' - Name '' @ e_name e)
            (zip [0..<length (sf_entries f)] (sf_entries f)))"

definition symlist_cmd :: "symbols \<Rightarrow> int \<times> string list" where
  "symlist_cmd s = (CMD_OK, symbolPrintLoadList s)"

definition symprint_cmd :: "string list \<Rightarrow> symbols \<Rightarrow> int \<times> string list" where
  "symprint_cmd argv s = (CMD_OK, symbolPrintSymbols (argv ! 0) s)"

definition symbyaddr_cmd :: "lookups \<Rightarrow> (u32 \<Rightarrow> mod_info option) \<Rightarrow> symbols \<Rightarrow> string list \<Rightarrow> int \<times> string list" where
  "symbyaddr_cmd env by_addr s argv =
     (case memDecode env (argv ! 0) of
        None \<Rightarrow> (CMD_ERROR, [])
      | Some addr \<Rightarrow>
         (case symbolFindByAddress by_addr s addr of
            None \<Rightarrow> (CMD_ERROR, [''Error could not find symbol at address '' @ print_word addr])
          | Some (e, ba) \<Rightarrow>
              (CMD_OK, [if ba + e_addr e < addr then e_name e @ ''+0x'' @ hex_lower (unat (addr - (ba + e_addr e))) else e_name e])))"

text \<open>The size that is printed is the one found.\<close>

definition symbyname_cmd :: "(string \<Rightarrow> mod_info option) \<Rightarrow> symbols \<Rightarrow> string list \<Rightarrow> int \<times> string list" where
  "symbyname_cmd by_name s argv =
     (case symbolFindByName by_name s (argv ! 0) of
        (addr, Some n) \<Rightarrow>
          (if 0 < addr then (CMD_OK, [argv ! 0 @ '' = '' @ print_word addr @ '' size '' @ d32 n])
           else (CMD_ERROR, [''Could not find symbol '' @ argv ! 0]))
      | (addr, None) \<Rightarrow> (CMD_ERROR, [''Could not find symbol '' @ argv ! 0]))"

definition tonid_cmd :: "(string \<Rightarrow> u8 list option) \<Rightarrow> string list \<Rightarrow> int \<times> string list" where
  "tonid_cmd sha1 argv = (CMD_OK, [''Name: '' @ argv ! 0 @ '', Nid: '' @ print_word (libsNameToNid sha1 (argv ! 0))])"

section \<open>The configuration, versions, the clock\<close>

type_synonym conf_cmd = "bool \<Rightarrow> PspFile option \<Rightarrow> bool \<Rightarrow> bool \<Rightarrow> string list \<Rightarrow> int \<times> config_outcome"

definition confset_cmd :: conf_cmd where
  "confset_cmd tmp f removed renamed argv =
     (CMD_OK, configChange tmp f removed renamed (argv ! 0) (if 1 < length argv then argv ! 1 else []) CONFIG_MODE_ADD)"

definition confdel_cmd :: conf_cmd where
  "confdel_cmd tmp f removed renamed argv = (CMD_OK, configChange tmp f removed renamed (argv ! 0) [] CONFIG_MODE_DEL)"

definition config_cmd :: "PspFile \<Rightarrow> int \<times> string list" where
  "config_cmd f = (CMD_OK, configPrint f)"

definition version_cmd :: "int \<times> string list" where
  "version_cmd = (CMD_OK, [''PSPLink Version 2.0 Final''])"

definition pspver_cmd :: "u32 \<Rightarrow> int \<times> string list" where
  "pspver_cmd ver =
     (CMD_OK, [''Version: '' @ d32 (drop_bit 24 ver AND 0xFF) @ ''.'' @ d32 (drop_bit 16 ver AND 0xFF)])"

text \<open>The three frequencies that are set.\<close>

definition clock_cmd :: "string list \<Rightarrow> int \<times> string list \<times> (u32 \<times> u32 \<times> u32) option" where
  "clock_cmd argv =
     (case (strtoint (argv ! 0), strtoint (argv ! 1), strtoint (argv ! 2)) of
        (Some a, Some b, Some c) \<Rightarrow> (CMD_OK, [], Some (a, b, c))
      | _ \<Rightarrow> (CMD_ERROR, [''Invalid clock values''], None))"

section \<open>The debug register\<close>

abbreviation DEBUG_REG_GLOBAL_PROFILER :: u32 where "DEBUG_REG_GLOBAL_PROFILER \<equiv> 0x00800000"
abbreviation DEBUG_REG_THREAD_PROFILER :: u32 where "DEBUG_REG_THREAD_PROFILER \<equiv> 0x00C00000"
abbreviation DEBUG_REG_PROFILER_MASK :: u32 where "DEBUG_REG_PROFILER_MASK \<equiv> NOT DEBUG_REG_THREAD_PROFILER"

text \<open>\<open>dbg\<close> is the register's value, \<open>None\<close> when its address is 0.\<close>

definition profiler_mode :: "u32 \<Rightarrow> string" where
  "profiler_mode dbg =
     (if dbg AND DEBUG_REG_THREAD_PROFILER = DEBUG_REG_THREAD_PROFILER then ''Thread''
      else if dbg AND DEBUG_REG_GLOBAL_PROFILER = DEBUG_REG_GLOBAL_PROFILER then ''Global'' else ''Off'')"

definition profmode_cmd :: "string list \<Rightarrow> u32 option \<Rightarrow> int \<times> string list \<times> u32 option" where
  "profmode_cmd argv reg =
     (case reg of
        None \<Rightarrow> (CMD_OK, [], None)
      | Some dbg \<Rightarrow>
         (if argv = [] then (CMD_OK, [''Profiler Mode: '' @ profiler_mode dbg], reg)
          else let c = chead (argv ! 0); set_line = ''Profiler mode set, you must now reset psplink''
          in if c = CHR ''t'' then (CMD_OK, [set_line], Some ((dbg AND DEBUG_REG_PROFILER_MASK) OR DEBUG_REG_THREAD_PROFILER))
             else if c = CHR ''g'' then (CMD_OK, [set_line], Some ((dbg AND DEBUG_REG_PROFILER_MASK) OR DEBUG_REG_GLOBAL_PROFILER))
             else if c = CHR ''o'' then (CMD_OK, [set_line], Some (dbg AND DEBUG_REG_PROFILER_MASK))
             else (CMD_ERROR, [''Invalid profiler mode '' @ [CHR 0x27] @ argv ! 0 @ [CHR 0x27]], reg)))"

definition debugreg_cmd :: "string list \<Rightarrow> u32 option \<Rightarrow> int \<times> string list \<times> u32 option" where
  "debugreg_cmd argv reg =
     (case reg of
        None \<Rightarrow> (CMD_OK, [], None)
      | Some dbg \<Rightarrow>
         (if argv = [] then (CMD_OK, [''Debug Register: '' @ print_word dbg], reg)
          else case strtoint (argv ! 0) of
                 Some v \<Rightarrow> (CMD_OK, [], Some v)
               | None \<Rightarrow> (CMD_ERROR, [''Invalid debug reg value '' @ [CHR 0x27] @ argv ! 0 @ [CHR 0x27]], reg)))"

section \<open>Power\<close>

record power_info =
  pw_online :: bool
  pw_battery :: bool
  pw_low :: bool
  pw_charging :: bool
  pw_percent :: int
  pw_minutes :: int
  pw_volt :: u32
  pw_temp :: int
  pw_cpu :: int
  pw_bus :: int

definition power_line :: "string \<Rightarrow> string \<Rightarrow> string" where
  "power_line nm v = pad_right 14 nm @ '': '' @ v"

definition yes_no :: "bool \<Rightarrow> string" where
  "yes_no b = (if b then ''yes'' else ''no '')"

definition two_digits :: "int \<Rightarrow> string" where
  "two_digits n = (if n < 0 then CHR ''-'' # pad_zero 1 (dec_nat (nat (- n))) else pad_zero 2 (dec_nat (nat n)))"

text \<open>\<open>volts\<close> formats millivolts as volts. Division rounds towards zero.\<close>

definition hours_of :: "int \<Rightarrow> int" where
  "hours_of n = (if 0 \<le> n then n div 60 else - (- n div 60))"

definition power_cmd :: "(u32 \<Rightarrow> string) \<Rightarrow> power_info \<Rightarrow> int \<times> string list" where
  "power_cmd volts p =
     (CMD_OK,
      [''External Power: '' @ yes_no (pw_online p),
       power_line ''Battery'' (if pw_battery p then ''present'' else ''absent '')] @
      (if pw_battery p then
         [power_line ''Low Charge'' (yes_no (pw_low p)), power_line ''Charging'' (yes_no (pw_charging p)),
          power_line ''Charge'' (dec_int (pw_percent p) @ ''% ('' @ two_digits (hours_of (pw_minutes p)) @ ''h'' @
            two_digits (pw_minutes p - hours_of (pw_minutes p) * 60) @ ''m)     ''),
          power_line ''Volts'' (volts (pw_volt p) @ ''V''),
          power_line ''Battery Temp'' (dec_int (pw_temp p) @ '' deg C'')]
       else [''Battery stats unavailable'']) @
      [power_line ''CPU Speed'' (dec_int (pw_cpu p) @ '' MHz''), power_line ''Bus Speed'' (dec_int (pw_bus p) @ '' MHz'')])"

section \<open>Properties\<close>

lemma keep_field: "((d :: u32) AND NOT m OR m AND k) AND NOT m = d AND NOT m"
  by (rule bit_word_eqI) (auto simp: bit_simps)

lemma other_field: "((d :: u32) AND NOT m OR m AND k) AND (m AND n) = k AND (m AND n)"
  by (rule bit_word_eqI) (auto simp: bit_simps)

text \<open>
  The profiler mode that is set is the one that is then printed, and no other bit of the register
  changes.
\<close>

lemma profmode_readback:
  assumes "(c, mode) \<in> {(CHR ''t'', ''Thread''), (CHR ''g'', ''Global''), (CHR ''o'', ''Off'')}"
  shows "\<exists>v. snd (snd (profmode_cmd [c # cs] (Some dbg))) = Some v \<and>
    fst (snd (profmode_cmd [] (Some v))) = [''Profiler Mode: '' @ mode] \<and>
    v AND DEBUG_REG_PROFILER_MASK = dbg AND DEBUG_REG_PROFILER_MASK"
proof -
  let ?m = "DEBUG_REG_THREAD_PROFILER" and ?g = "DEBUG_REG_GLOBAL_PROFILER"
  have g: "?g = ?m AND ?g" by simp
  show ?thesis
    using assms keep_field [of dbg ?m ?m] keep_field [of dbg ?m ?g] keep_field [of dbg ?m 0] other_field [of dbg ?m ?m ?m]
      other_field [of dbg ?m ?g ?m] other_field [of dbg ?m ?g ?g] other_field [of dbg ?m 0 ?m] other_field [of dbg ?m 0 ?g]
    by (auto simp: profmode_cmd_def profiler_mode_def Let_def)
qed

lemma memory_env [simp]: "size_left (env\<lparr>memory := m\<rparr>) = size_left env" "isv1 (env\<lparr>memory := m\<rparr>) = isv1 env"
  by (simp_all add: size_left_def fun_eq_iff)

text \<open>
  The command \<open>bpset\<close> is confined. Whatever its argument, the command changes at most one aligned word of memory,
  which lies in memory that may be written and executed.
\<close>

theorem bpset_confined:
  assumes "dmem (snd (snd (bpset_cmd env argv d))) x \<noteq> dmem d x" "\<not> protoff env"
  shows "\<exists>a. aligned a \<and> unat (x - a) < 4 \<and> valid_byte (isv1 env) x \<and>
    (\<forall>y. 4 \<le> unat (y - a) \<longrightarrow> dmem (snd (snd (bpset_cmd env argv d))) y = dmem d y)"
proof -
  let ?att = "MEM_ATTRIB_WRITE OR MEM_ATTRIB_WORD OR MEM_ATTRIB_EXEC"
  obtain addr where a: "memDecode (env\<lparr>memory := dmem d\<rparr>) (argv ! 0) = Some addr" "4 \<le> size_left env (addr AND NOT 3) ?att"
    "dmem (snd (debugSetBP (addr AND NOT 3) d)) x \<noteq> dmem d x"
    using assms(1) by (auto simp: bpset_cmd_def Let_def split: option.splits if_splits)
  let ?a = "addr AND NOT 3"
  have d: "dmem (snd (debugSetBP ?a d)) = sw (dmem d) ?a SW_BREAK_INST"
    using a(3) by (auto simp: debugSetBP_def split: if_splits option.splits)
  have fr: "frame ?a 4 (dmem d) (sw (dmem d) ?a SW_BREAK_INST)" using stores_ok(3) by (simp add: store_ok_def)
  have x: "sw (dmem d) ?a SW_BREAK_INST x \<noteq> dmem d x" using a(3) d by simp
  then have "unat (x - ?a) < 4" using fr unfolding frame_def by (meson not_le)
  moreover have "valid_byte (isv1 env) x" using fr assms(2) a(2) x by (rule frame_valid)
  moreover have "aligned ?a" using aligned_masks(1) by (simp add: aligned_unat)
  moreover have "dmem (snd (snd (bpset_cmd env argv d))) y = dmem d y" if "4 \<le> unat (y - ?a)" for y
    using a(1,2) d fr that unfolding frame_def by (simp add: bpset_cmd_def Let_def)
  ultimately show ?thesis by blast
qed

text \<open>A break point in the user's memory.\<close>

lemma example_break:
  "dmem (snd (snd (bpset_cmd (plain_env (\<lambda>_. 0)) [print_word 0x08804000] (debug_start (\<lambda>_. 0))))) = sw (\<lambda>_. 0) 0x08804000 SW_BREAK_INST"
proof -
  have s: "size_left (plain_env (\<lambda>_. 0)) 0x08804000 (MEM_ATTRIB_WRITE OR MEM_ATTRIB_WORD OR MEM_ATTRIB_EXEC) = 0x17FC000"
    by (simp add: size_left_def plain_env_def memValidate_def memValidate_in_def g_memareas_def entry_def in_entry_def)
  have a: "(0x08804000 :: u32) AND NOT 3 = 0x08804000" by (simp add: word_and_not_eq_diff)
  have b: "bpset_cmd (plain_env (\<lambda>_. 0)) [print_word 0x08804000] (debug_start (\<lambda>_. 0)) =
      (CMD_OK, [], snd (debugSetBP 0x08804000 (debug_start (\<lambda>_. 0))))"
    unfolding bpset_cmd_def Let_def nth_Cons_0 memDecode_print_word option.case a s by simp
  have "find_freebp (g_bps (debug_start (\<lambda>_. 0))) \<noteq> None"
    unfolding find_freebp_def find_None_iff debug_start_def no_bp_def by (auto intro: exI [of _ 0])
  then obtain i where i: "find_freebp (g_bps (debug_start (\<lambda>_. 0))) = Some i" by blast
  have m: "dmem (debug_start (\<lambda>_. 0)) = (\<lambda>_. 0)" by (simp add: debug_start_def)
  show ?thesis unfolding b snd_conv debugSetBP_def find_bp_start i option.case by (simp add: m)
qed

theorem bpset_confined_witness:
  "\<exists>a x. aligned a \<and> unat (x - a) < 4 \<and> valid_byte (isv1 (plain_env (\<lambda>_. 0))) x \<and>
    dmem (snd (snd (bpset_cmd (plain_env (\<lambda>_. 0)) [print_word 0x08804000] (debug_start (\<lambda>_. 0))))) x \<noteq> 0"
proof -
  let ?m = "dmem (snd (snd (bpset_cmd (plain_env (\<lambda>_. 0)) [print_word 0x08804000] (debug_start (\<lambda>_. 0)))))"
  have l: "lw ?m 0x08804000 = SW_BREAK_INST" unfolding example_break by (simp add: lw_sw_same aligned_unat)
  have z: "lw (\<lambda>_. 0) 0x08804000 = 0" by (simp add: lw_def)
  have "?m \<noteq> (\<lambda>_. 0)"
  proof
    assume "?m = (\<lambda>_. 0)"
    with l z show False by simp
  qed
  then obtain x where x: "?m x \<noteq> 0" by blast
  then have "?m x \<noteq> dmem (debug_start (\<lambda>_. 0)) x" by (simp add: debug_start_def)
  moreover have "\<not> protoff (plain_env (\<lambda>_. 0))" by (simp add: plain_env_def)
  ultimately show ?thesis using bpset_confined [of "plain_env (\<lambda>_. 0)" "[print_word 0x08804000]" "debug_start (\<lambda>_. 0)" x] x by blast
qed
end
