(* ===== verification/Pcterm.thy ===== *)
theory Pcterm
  imports HostShell
begin

text \<open>
  \<open>pcterm/pcterm.c\<close>: the terminal on the PC. It connects to the shell of the PSP through a channel of the USB
  host program (or a serial port), sends the lines typed, shows what comes back, and takes the shell's
  prompt, which is marked by two bytes 0xFF, out of the stream to show it as the prompt of the line editor.

  The answers of the sockets are arguments; what is shown, logged, sent and closed is recorded in order.
\<close>

section \<open>State\<close>

datatype term_state = STATE_IDLE | STATE_CONNECTING | STATE_CONNECTED

record term_args =
  ta_ip :: "string option"
  ta_hist :: "string option"
  ta_log :: "string option"
  ta_port :: int
  ta_baud :: "int option"
  ta_realbaud :: int
  serialmode :: bool
  ta_retries :: int

text \<open>\<open>linebuf\<close> and \<open>lpos\<close> are the static variables of \<open>read_socket\<close>.\<close>

record pc_term =
  t_args :: term_args
  t_exit :: bool
  conn_sanity :: int
  readsave :: "int set"
  writesave :: "int set"
  t_sock :: int
  t_log :: int
  t_state :: term_state
  promptwait :: bool
  history_file :: string
  linebuf :: string
  lpos :: nat

datatype term_effect =
    Screen string | Logged string | Prompt string | Sent string | Close_sock int | History string | Run string | Go_to string

abbreviation linebuf_size :: nat where "linebuf_size \<equiv> 16384"
abbreviation prompt_size :: nat where "prompt_size \<equiv> 1024"

section \<open>Reading\<close>

text \<open>The first byte 0xFF of a string: what is before and behind it.\<close>

definition mark :: "string \<Rightarrow> (string \<times> string) option" where
  "mark s = split_at (\<lambda>c. c = PASSPROMPT_VAL) s"

text \<open>
  The search for the prompt in what has been read: the prompt if it is complete, what is left to be shown, and
  the collected part of a prompt with its length.
\<close>

definition scan_prompt :: "string \<Rightarrow> string \<Rightarrow> nat \<Rightarrow> string option \<times> string \<times> string \<times> nat" where
  "scan_prompt buf line n =
     (if n = 0 then
        case mark buf of
          None \<Rightarrow> (None, buf, line, n)
        | Some (a, r) \<Rightarrow>
            (case mark r of
               Some (p, b) \<Rightarrow> (Some p, a @ b, line, n)
             | None \<Rightarrow> (None, a, r, length r))
      else
        case mark buf of
          Some (q, b) \<Rightarrow> (Some (take (prompt_size - 1) (line @ q)), b, line, 0)
        | None \<Rightarrow> (let line = take (linebuf_size - 1) (line @ take (linebuf_size - n) buf) in (None, buf, line, length line)))"

text \<open>
  \<open>data\<close> is what \<open>read\<close> gives, at most the 1023 bytes asked for: nothing on an error, the empty string at the end.
\<close>

definition read_socket :: "string option \<Rightarrow> pc_term \<Rightarrow> int \<times> term_effect list \<times> pc_term" where
  "read_socket data t =
     (case data of
        None \<Rightarrow> (-1, [], t)
      | Some d \<Rightarrow>
         (if d = [] then (-1, [], t)
          else let d = take (prompt_size - 1) d; buf = cstr d;
                   (pr, shown, line, n) = (if promptwait t then scan_prompt buf (linebuf t) (lpos t) else (None, buf, linebuf t, lpos t))
               in (int (length d),
                   Screen shown # (if 0 \<le> t_log t then [Logged shown] else []) @
                     (case pr of None \<Rightarrow> [] | Some p \<Rightarrow> [Screen [CHR 0x0A], Prompt p]),
                   t\<lparr>linebuf := line, lpos := n\<rparr>)))"

section \<open>Sending\<close>

text \<open>The connection is given up: the descriptor stays in \<open>readsave\<close>.\<close>

definition drop_sock :: "pc_term \<Rightarrow> term_effect list \<times> pc_term" where
  "drop_sock t = ([Close_sock (t_sock t)], t\<lparr>t_sock := - 1, t_state := STATE_IDLE\<rparr>)"

text \<open>\<open>sent\<close> says of the line and of the line break whether \<open>fixed_write\<close> writes all of it.\<close>

definition execute_line :: "bool \<times> bool \<Rightarrow> string \<Rightarrow> pc_term \<Rightarrow> term_effect list \<times> pc_term" where
  "execute_line sent buf t =
     (if t_state t \<noteq> STATE_CONNECTED then ([], t)
      else let (e, t) = (if buf = [] then ([], t) else if fst sent then ([Sent buf], t) else drop_sock t);
               (e', t) = (if snd sent \<and> 0 \<le> t_sock t then ([Sent [CHR 0x0A]], t) else drop_sock t)
           in (e @ e', t))"

definition cli_handler :: "bool \<times> bool \<Rightarrow> string option \<Rightarrow> pc_term \<Rightarrow> term_effect list \<times> pc_term" where
  "cli_handler sent line t =
     (case line of
        None \<Rightarrow> ([], t)
      | Some buf \<Rightarrow>
         (if buf = [] then ([], t)
          else if buf = ''close'' then ([History buf, Prompt []], t\<lparr>t_exit := True\<rparr>)
          else if buf \<noteq> ''exit'' \<and> buf \<noteq> ''quit'' \<and> hd buf = CHR ''!''
          then (if take 3 (drop 1 buf) = ''cd '' then ([History buf, Go_to (drop 4 buf)], t) else ([History buf, Run (drop 1 buf)], t))
          else let t = (if buf = ''exit'' \<or> buf = ''quit'' then t\<lparr>t_exit := True\<rparr> else t);
                   (e, t) = (if hd buf \<noteq> CHR ''@'' then ([Prompt []], t\<lparr>promptwait := True\<rparr>) else ([], t));
                   (e', t) = execute_line sent buf t
               in (History buf # e @ e', t)))"

text \<open>The three keys: a control character on a serial line, otherwise a command.\<close>

definition cli_key :: "nat \<Rightarrow> string \<Rightarrow> bool \<times> bool \<Rightarrow> pc_term \<Rightarrow> term_effect list \<times> pc_term" where
  "cli_key code cmd sent t =
     (if serialmode (t_args t) then (if 0 \<le> t_sock t then ([Sent [char_of code]], t) else ([], t))
      else execute_line sent cmd t)"

definition cli_reset :: "bool \<times> bool \<Rightarrow> pc_term \<Rightarrow> term_effect list \<times> pc_term" where
  "cli_reset = cli_key 18 ''reset''"

definition cli_step :: "bool \<times> bool \<Rightarrow> pc_term \<Rightarrow> term_effect list \<times> pc_term" where
  "cli_step = cli_key 19 ''step''"

definition cli_skip :: "bool \<times> bool \<Rightarrow> pc_term \<Rightarrow> term_effect list \<times> pc_term" where
  "cli_skip = cli_key 11 ''skip''"

section \<open>The connection\<close>

datatype connect_answer = Connect_done | Connect_pending | Connect_failed

text \<open>Whether to go on, and the state.\<close>

definition on_idle :: "int \<Rightarrow> connect_answer \<Rightarrow> pc_term \<Rightarrow> bool \<times> term_effect list \<times> pc_term" where
  "on_idle fd answer t =
     (let t = t\<lparr>t_sock := fd\<rparr>
      in if serialmode (t_args t) then
           (if fd = -1 then (False, [], t)
            else (True, [Sent [CHR 0x0A]], t\<lparr>readsave := insert fd (readsave t), t_state := STATE_CONNECTED\<rparr>))
         else if fd < 0 then (False, [], t)
         else case answer of
                Connect_done \<Rightarrow> (True, [], t\<lparr>readsave := insert fd (readsave t), t_state := STATE_CONNECTED\<rparr>)
              | Connect_pending \<Rightarrow> (True, [], t\<lparr>writesave := insert fd (writesave t), t_state := STATE_CONNECTING\<rparr>)
              | Connect_failed \<Rightarrow> (False, [], t))"

text \<open>\<open>err\<close> is the pending error of the socket, or nothing when \<open>getsockopt\<close> fails.\<close>

definition on_connecting :: "int option \<Rightarrow> pc_term \<Rightarrow> bool \<times> term_effect list \<times> pc_term" where
  "on_connecting err t =
     (case err of
        None \<Rightarrow> (False, [], t)
      | Some e \<Rightarrow>
          if e \<noteq> 0 then
            if ta_retries (t_args t) \<le> conn_sanity t then (False, [], t)
            else (let (es, t) = drop_sock (t\<lparr>conn_sanity := conn_sanity t + 1\<rparr>) in (True, Screen ''Retrying connection'' # es, t))
          else (True, [Sent [CHR 0x0A]],
                t\<lparr>conn_sanity := 0, t_state := STATE_CONNECTED, readsave := insert (t_sock t) (readsave t),
                  writesave := writesave t - {t_sock t}\<rparr>))"

text \<open>What one turn of the loop meets: the answers of opening, of \<open>select\<close>, of the line editor, of reading and connecting.\<close>

datatype select_answer = Select_intr | Select_fail | Select_ready "int set" "int set"

record term_world =
  w_fd :: int
  w_connect :: connect_answer
  w_select :: select_answer
  w_line :: "string option"
  w_sent :: "bool \<times> bool"
  w_data :: "string option"
  w_err :: "int option"

definition shell_idle :: "term_world \<Rightarrow> pc_term \<Rightarrow> bool \<times> term_effect list \<times> pc_term" where
  "shell_idle w t = (if t_state t = STATE_IDLE then on_idle (w_fd w) (w_connect w) t else (True, [], t))"

definition shell_read :: "term_world \<Rightarrow> int set \<Rightarrow> pc_term \<Rightarrow> term_effect list \<times> pc_term" where
  "shell_read w rs t =
     (if t_state t = STATE_CONNECTED \<and> t_sock t \<in> rs then
        let (r, e, t) = read_socket (w_data w) t
        in if r < 0 then let (e', t) = drop_sock t in (e @ e', t) else (e, t)
      else ([], t))"

definition shell_turn :: "term_world \<Rightarrow> pc_term \<Rightarrow> bool \<times> term_effect list \<times> pc_term" where
  "shell_turn w t =
     (let (go, e0, t) = shell_idle w t
      in if \<not> go then (False, e0, t)
         else case w_select w of
                Select_intr \<Rightarrow> (True, e0, t)
              | Select_fail \<Rightarrow> (False, e0, t)
              | Select_ready rs ws \<Rightarrow>
                 (let (e1, t) = (if 0 \<in> rs then cli_handler (w_sent w) (w_line w) t else ([], t));
                      (e2, t) = shell_read w rs t;
                      (go, e3, t) = (if t_state t = STATE_CONNECTING \<and> t_sock t \<in> ws then on_connecting (w_err w) t else (True, [], t))
                  in (go, e0 @ e1 @ e2 @ e3, t)))"

text \<open>The loop over the answers, up to the user's exit or an error: how it ended (\<open>None\<close>: still running).\<close>

fun shell_run :: "term_world list \<Rightarrow> pc_term \<Rightarrow> bool option \<times> term_effect list \<times> pc_term" where
  "shell_run [] t = (if t_exit t then Some True else None, [], t)"
| "shell_run (w # ws) t =
     (if t_exit t then (Some True, [], t)
      else let (go, e, t) = shell_turn w t
           in if \<not> go then (Some False, e, t) else let (r, e', t) = shell_run ws t in (r, e @ e', t))"

section \<open>The command line\<close>

definition map_int_to_speed :: "int \<Rightarrow> int option" where
  "map_int_to_speed baud = (if baud \<in> {4800, 9600, 19200, 38400, 57600, 115200} then Some baud else None)"

definition term_option :: "char \<times> string \<Rightarrow> term_args \<Rightarrow> term_args option" where
  "term_option opt a =
     (let (ch, optarg) = opt
      in if ch = CHR ''p'' then Some (a\<lparr>ta_port := c_atoi_str optarg mod 65536\<rparr>)
         else if ch = CHR ''h'' then Some (a\<lparr>ta_hist := Some optarg\<rparr>)
         else if ch = CHR ''r'' then Some (a\<lparr>ta_retries := c_atoi_str optarg\<rparr>)
         else if ch = CHR ''l'' then Some (a\<lparr>ta_log := Some optarg\<rparr>)
         else if ch = CHR ''b''
         then (case map_int_to_speed (c_atoi_str optarg) of
                 None \<Rightarrow> None | Some b \<Rightarrow> Some (a\<lparr>ta_baud := Some b, ta_realbaud := c_atoi_str optarg\<rparr>))
         else if ch = CHR ''s'' then Some (a\<lparr>serialmode := True\<rparr>)
         else None)"

fun term_options :: "(char \<times> string) list \<Rightarrow> term_args \<Rightarrow> term_args option" where
  "term_options [] a = Some a"
| "term_options (opt # opts) a = (case term_option opt a of None \<Rightarrow> None | Some a \<Rightarrow> term_options opts a)"

definition parse_args_term :: "(char \<times> string) list \<Rightarrow> string list \<Rightarrow> term_args option" where
  "parse_args_term opts operands =
     (let a = \<lparr>ta_ip = None, ta_hist = None, ta_log = None, ta_port = 10000, ta_baud = map_int_to_speed 115200,
               ta_realbaud = 115200, serialmode = False, ta_retries = 5\<rparr>
      in map_option (\<lambda>a. a\<lparr>ta_ip := Some (case operands of [] \<Rightarrow> (if serialmode a then ''/dev/ttyS0'' else ''localhost'') | x # _ \<Rightarrow> x)\<rparr>)
           (term_options opts a))"

definition build_histfile :: "string option \<Rightarrow> term_args \<Rightarrow> string" where
  "build_histfile home a =
     take (PATH_MAX - 1)
       (case ta_hist a of
          Some h \<Rightarrow> h
        | None \<Rightarrow> (case home of None \<Rightarrow> ''.pcterm.hist'' | Some h \<Rightarrow> h @ ''/.pcterm.hist''))"

text \<open>The state \<open>main\<close> and \<open>shell\<close> begin with; \<open>log_fd\<close> answers the opening of the log file.\<close>

definition term_start :: "string option \<Rightarrow> int \<Rightarrow> term_args \<Rightarrow> pc_term" where
  "term_start home log_fd a =
     \<lparr>t_args = a, t_exit = False, conn_sanity = 0, readsave = {0}, writesave = {}, t_sock = - 1,
      t_log = (if ta_log a \<noteq> None then log_fd else - 1), t_state = STATE_IDLE, promptwait = True,
      history_file = build_histfile home a, linebuf = [], lpos = 0\<rparr>"

text \<open>What an interrupt does.\<close>

definition sig_call :: "bool \<Rightarrow> pc_term \<Rightarrow> term_effect list \<times> pc_term" where
  "sig_call int_or_term t =
     (if int_or_term then (if 0 \<le> t_sock t then ([Screen ''Exiting'', Close_sock (t_sock t)], t\<lparr>t_sock := - 1, t_exit := True\<rparr>)
                           else ([Screen ''Exiting''], t\<lparr>t_exit := True\<rparr>))
      else ([], t))"

section \<open>The prompt in the stream\<close>

definition prompts :: "term_effect list \<Rightarrow> string list" where
  "prompts es = concat (map (\<lambda>e. case e of Prompt p \<Rightarrow> [p] | _ \<Rightarrow> []) es)"

definition shown :: "term_effect list \<Rightarrow> string" where
  "shown es = concat (map (\<lambda>e. case e of Screen s \<Rightarrow> s | _ \<Rightarrow> []) es)"

fun read_all :: "string list \<Rightarrow> pc_term \<Rightarrow> term_effect list \<times> pc_term" where
  "read_all [] t = ([], t)"
| "read_all (d # ds) t = (let (_, e, t) = read_socket (Some d) t; (es, t) = read_all ds t in (e @ es, t))"

lemma prompts_simps [simp]:
  "prompts [] = []" "prompts (a @ b) = prompts a @ prompts b" "prompts (Screen s # es) = prompts es"
  "prompts (Logged s # es) = prompts es" "prompts (Prompt p # es) = p # prompts es"
  by (simp_all add: prompts_def)




text \<open>What one read does: outside a prompt, where it starts, inside, where it ends, and around a whole one.\<close>

lemma shown_simps [simp]:
  "shown [] = []" "shown (a @ b) = shown a @ shown b" "shown (Screen s # es) = s @ shown es"
  "shown (Logged s # es) = shown es" "shown (Prompt p # es) = shown es"
  by (simp_all add: shown_def)


definition chunks_ok :: "string list \<Rightarrow> bool" where
  "chunks_ok cs \<longleftrightarrow> (\<forall>d \<in> set cs. d \<noteq> [] \<and> no_nul d \<and> length d < prompt_size)"

lemma chunks_ok_Cons [simp]: "chunks_ok (d # cs) \<longleftrightarrow> d \<noteq> [] \<and> no_nul d \<and> length d < prompt_size \<and> chunks_ok cs"
  by (auto simp: chunks_ok_def)

text \<open>
  The reads that lie inside the prompt, behind its first mark (at \<open>b\<close>) and before its second (at \<open>e\<close>); the first read
  begins at \<open>at\<close>.
\<close>

fun inside :: "nat \<Rightarrow> nat \<Rightarrow> nat \<Rightarrow> string list \<Rightarrow> string" where
  "inside b e at [] = []"
| "inside b e at (d # ds) = (if b < at \<and> at + length d \<le> e then d else []) @ inside b e (at + length d) ds"



text \<open>A text into which a line break has been put.\<close>

definition with_break :: "string \<Rightarrow> string \<Rightarrow> bool" where
  "with_break s w \<longleftrightarrow> (\<exists>a b. s = a @ b \<and> w = a @ CHR 0x0A # b)"

lemma with_breakI [simp]: "with_break (a @ b) (a @ CHR 0x0A # b)"
  by (auto simp: with_break_def)




text \<open>A prompt that comes in one read, or in two, has no read inside.\<close>

lemma inside_two:
  "length cs \<le> 2 \<Longrightarrow> e < length (concat cs) \<Longrightarrow> inside b e 0 cs = []"
  by (cases cs; cases "tl cs"; cases "tl (tl cs)") auto

definition example_term :: pc_term where
  "example_term = term_start None (- 1) (the (parse_args_term [] []))"


text \<open>
  A read that ends right behind the first mark: the position stays 0, the second mark is taken for a first
  one, and the prompt is shown as text.
\<close>

lemma prompt_lost:
  "prompts (fst (read_all [[PASSPROMPT_VAL], ''psplink>'', PASSPROMPT_VAL # '' ''] example_term)) = []"
  by (simp add: read_socket_def example_term_def term_start_def scan_prompt_def mark_def cstr_def PASSPROMPT_VAL_def Let_def
      parse_args_term_def map_int_to_speed_def)

text \<open>A prompt cut in three: the middle part is also shown on the screen.\<close>

lemma prompt_echoed:
  "Screen ''link'' \<in> set (fst (read_all [PASSPROMPT_VAL # ''psp'', ''link'', ''>'' @ [PASSPROMPT_VAL]] example_term))"
  by (simp add: read_socket_def example_term_def term_start_def scan_prompt_def mark_def cstr_def PASSPROMPT_VAL_def Let_def
      parse_args_term_def map_int_to_speed_def)

section \<open>The connection\<close>

text \<open>The terminal has a socket exactly when it is connecting or connected.\<close>

definition term_ok :: "pc_term \<Rightarrow> bool" where
  "term_ok t \<longleftrightarrow> (t_state t = STATE_IDLE \<longleftrightarrow> t_sock t = - 1) \<and> (t_state t \<noteq> STATE_IDLE \<longrightarrow> 0 \<le> t_sock t)"

lemma execute_line_ok: "term_ok t \<Longrightarrow> term_ok (snd (execute_line sent buf t))"
  by (auto simp: execute_line_def term_ok_def drop_sock_def Let_def)

lemma term_ok_simps [simp]:
  "term_ok (t\<lparr>t_exit := b\<rparr>) = term_ok t" "term_ok (t\<lparr>promptwait := b\<rparr>) = term_ok t" "term_ok (t\<lparr>conn_sanity := n\<rparr>) = term_ok t"
  "term_ok (t\<lparr>linebuf := l, lpos := k\<rparr>) = term_ok t"
  by (simp_all add: term_ok_def)

lemma cli_handler_ok: "term_ok t \<Longrightarrow> term_ok (snd (cli_handler sent line t))"
  using execute_line_ok [of _ sent "the line"]
  by (auto simp: cli_handler_def Let_def split_beta split: option.splits)

lemma read_socket_ok: "term_ok t \<Longrightarrow> term_ok (snd (snd (read_socket d t)))"
  by (simp add: read_socket_def Let_def split_beta split: option.split)

lemma drop_sock_ok: "term_ok (snd (drop_sock t))"
  by (simp add: drop_sock_def term_ok_def)

lemma shell_read_ok: "term_ok t \<Longrightarrow> term_ok (snd (shell_read w rs t))"
  using drop_sock_ok by (auto simp: shell_read_def split_beta Let_def read_socket_ok)

lemma shell_turn_ok:
  assumes "term_ok t" "shell_turn w t = (True, e, t')" "w_fd w \<ge> - 1"
  shows "term_ok t'"
proof -
  obtain go e0 t0 where i: "shell_idle w t = (go, e0, t0)" by (cases "shell_idle w t") auto
  have go: "go" using assms(2) i by (cases go) (auto simp: shell_turn_def)
  have t0: "term_ok t0"
    using i go assms(1,3) by (auto simp: shell_idle_def on_idle_def term_ok_def Let_def split: if_splits connect_answer.splits)
  show ?thesis
  proof (cases "w_select w")
    case (Select_ready rs ws)
    obtain e1 t1 where c: "(if 0 \<in> rs then cli_handler (w_sent w) (w_line w) t0 else ([], t0)) = (e1, t1)" by fastforce
    then have t1: "term_ok t1" using t0 cli_handler_ok [OF t0, of "w_sent w" "w_line w"] by (auto split: if_splits)
    obtain e2 t2 where r: "shell_read w rs t1 = (e2, t2)" by fastforce
    then have t2: "term_ok t2" using shell_read_ok [OF t1, of w rs] by simp
    show ?thesis
      using assms(2) i go c r t2 drop_sock_ok Select_ready
      by (auto simp: shell_turn_def Let_def on_connecting_def term_ok_def drop_sock_def split: if_splits option.splits)
  qed (use assms(2) i go t0 in \<open>auto simp: shell_turn_def\<close>)
qed

text \<open>
  A connection that keeps being refused is tried so many times again, then the terminal ends: the counter
  grows with each refusal and nothing but a connection resets it.
\<close>

definition refused :: "term_world \<Rightarrow> bool" where
  "refused w \<longleftrightarrow> 1 \<le> w_fd w \<and> w_connect w = Connect_pending \<and>
     w_select w = Select_ready {} {w_fd w} \<and> (\<exists>e. w_err w = Some e \<and> e \<noteq> 0)"

lemma refused_turn:
  assumes "refused w" "t_state t = STATE_IDLE" "\<not> serialmode (t_args t)"
  shows "if conn_sanity t < ta_retries (t_args t)
    then \<exists>e. shell_turn w t = (True, e, (snd (drop_sock t))\<lparr>conn_sanity := conn_sanity t + 1, writesave := insert (w_fd w) (writesave t)\<rparr>)
    else fst (shell_turn w t) = False"
  using assms by (auto simp: refused_def shell_turn_def shell_idle_def on_idle_def on_connecting_def drop_sock_def shell_read_def Let_def)

lemma refused_run:
  assumes "\<forall>w \<in> set ws. refused w" "t_state t = STATE_IDLE" "\<not> serialmode (t_args t)" "\<not> t_exit t"
    "conn_sanity t \<le> ta_retries (t_args t)" "nat (ta_retries (t_args t) - conn_sanity t) < length ws"
  shows "fst (shell_run ws t) = Some False"
  using assms
proof (induction ws arbitrary: t)
  case (Cons w ws)
  note T = refused_turn [of w t]
  show ?case
  proof (cases "conn_sanity t < ta_retries (t_args t)")
    case True
    let ?t = "(snd (drop_sock t))\<lparr>conn_sanity := conn_sanity t + 1, writesave := insert (w_fd w) (writesave t)\<rparr>"
    obtain e where e: "shell_turn w t = (True, e, ?t)" using T Cons.prems True by auto
    have "fst (shell_run ws ?t) = Some False"
      using Cons.prems True by (intro Cons.IH) (auto simp: drop_sock_def)
    then show ?thesis using e Cons.prems(4) by (simp add: split_beta Let_def)
  next
    case False
    then have "fst (shell_turn w t) = False" using T Cons.prems by auto
    then show ?thesis using Cons.prems(4) by (simp add: split_beta Let_def)
  qed
qed simp
end
