(* ===== verification/RemoteJoy.thy ===== *)
theory RemoteJoy
  imports Pcterm
begin

text \<open>
  \<open>tools/remotejoy\<close>: a joystick of the PC as the controller of the PSP. The PC programs (\<open>pc/remotejoy.c\<close> for
  the Linux joystick device, \<open>pcsdl/remotejoy.c\<close> for SDL) turn joystick events into messages of three words,
  sent through a channel of the USB host program; the module \<open>main.c\<close> on the PSP keeps the state they describe
  and mixes it into what the controller driver answers. A map file says which button is which.
\<close>

section \<open>Messages and buttons\<close>

abbreviation JOY_MAGIC :: u32 where "JOY_MAGIC \<equiv> 0x909ACCEF"
abbreviation TYPE_BUTTON_DOWN :: u32 where "TYPE_BUTTON_DOWN \<equiv> 1"
abbreviation TYPE_BUTTON_UP :: u32 where "TYPE_BUTTON_UP \<equiv> 2"
abbreviation TYPE_ANALOG_Y :: u32 where "TYPE_ANALOG_Y \<equiv> 3"
abbreviation TYPE_ANALOG_X :: u32 where "TYPE_ANALOG_X \<equiv> 4"

abbreviation PSP_CTRL_UP :: u32 where "PSP_CTRL_UP \<equiv> 0x10"
abbreviation PSP_CTRL_RIGHT :: u32 where "PSP_CTRL_RIGHT \<equiv> 0x20"
abbreviation PSP_CTRL_DOWN :: u32 where "PSP_CTRL_DOWN \<equiv> 0x40"
abbreviation PSP_CTRL_LEFT :: u32 where "PSP_CTRL_LEFT \<equiv> 0x80"

text \<open>Cross, circle, triangle, square, the two triggers, start, select, and the four directions.\<close>

definition g_bitmap :: "u32 list" where
  "g_bitmap = [0x4000, 0x2000, 0x1000, 0x8000, 0x100, 0x200, 0x8, 0x1,
     PSP_CTRL_UP, PSP_CTRL_DOWN, PSP_CTRL_LEFT, PSP_CTRL_RIGHT]"

definition map_names :: "string list" where
  "map_names = [''cross'', ''circle'', ''triangle'', ''square'', ''ltrig'', ''rtrig'', ''start'', ''select'']"

definition map_names_sdl :: "string list" where
  "map_names_sdl = [''cross'', ''circle'', ''triangle'', ''square'', ''ltrig'', ''rtrig'', ''start'', ''select'',
     ''up'', ''down'', ''left'', ''right'']"

text \<open>A message as it is sent.\<close>

definition joy_event :: "u32 \<times> u32 \<Rightarrow> u8 list" where
  "joy_event m = to_le32 JOY_MAGIC @ to_le32 (fst m) @ to_le32 (snd m)"

section \<open>The map file\<close>

abbreviation DIGITAL_TOL :: int where "DIGITAL_TOL \<equiv> 10000"
abbreviation MAX_AXES_NUM :: int where "MAX_AXES_NUM \<equiv> 32767"

record joy_map =
  buttmap :: "nat list"
  jm_digital :: int
  jm_analog :: int
  jm_tol :: int

definition remove_wsp :: "string \<Rightarrow> string" where
  "remove_wsp s = rev (dropWhile c_isspace (rev (dropWhile c_isspace s)))"

definition strtok_colon :: "string \<Rightarrow> (string \<times> string) option" where
  "strtok_colon s =
     (let s = dropWhile (\<lambda>c. c = CHR '':'') s
      in if s = [] then None else Some (takeWhile (\<lambda>c. c \<noteq> CHR '':'') s, drop 1 (dropWhile (\<lambda>c. c \<noteq> CHR '':'') s)))"

definition map_index :: "string list \<Rightarrow> string \<Rightarrow> nat option" where
  "map_index names tok = find (\<lambda>i. strcaseeq (names ! i) tok) [0..<length names]"

text \<open>One line; \<open>None\<close> when it makes the program write outside the array of the buttons.\<close>

definition build_line :: "string list \<Rightarrow> string \<Rightarrow> joy_map \<Rightarrow> joy_map option" where
  "build_line names text m =
     (let s = remove_wsp (cstr text)
      in if s = [] \<or> hd s = CHR ''#'' then Some m
         else case strtok_colon s of
                None \<Rightarrow> Some m
              | Some (tok, val) \<Rightarrow>
                  if val = [] then Some m
                  else let butt = c_atoi_str val
                       in case map_index names tok of
                            Some i \<Rightarrow> (if 0 \<le> butt \<and> butt < int (length (buttmap m))
                                      then Some (m\<lparr>buttmap := (buttmap m)[nat butt := i]\<rparr>) else None)
                          | None \<Rightarrow>
                              if strcaseeq ''analog'' tok then Some (m\<lparr>jm_analog := butt\<rparr>)
                              else if strcaseeq ''digital'' tok then Some (m\<lparr>jm_digital := butt\<rparr>)
                              else if strcaseeq ''tol'' tok then Some (m\<lparr>jm_tol := butt\<rparr>)
                              else Some m)"

fun build_lines :: "string list \<Rightarrow> string list \<Rightarrow> joy_map \<Rightarrow> joy_map option" where
  "build_lines names [] m = Some m"
| "build_lines names (t # ts) m = (case build_line names t m of None \<Rightarrow> None | Some m \<Rightarrow> build_lines names ts m)"

text \<open>
  \<open>file\<close>: no map file, or what opening it gives. The result is \<open>Inl False\<close> when the file cannot be opened,
  \<open>Inl True\<close> when the array is overrun.
\<close>

definition build_map_with :: "string list \<Rightarrow> string option option \<Rightarrow> nat \<Rightarrow> bool + joy_map" where
  "build_map_with names file buttons =
     (let m = \<lparr>buttmap = map (\<lambda>i. i mod 8) [0..<buttons], jm_digital = 0, jm_analog = - 1, jm_tol = DIGITAL_TOL\<rparr>
      in case file of
           None \<Rightarrow> Inr m
         | Some None \<Rightarrow> Inl False
         | Some (Some content) \<Rightarrow> (case build_lines names (fgets_lines 512 content) m of None \<Rightarrow> Inl True | Some m \<Rightarrow> Inr m))"

definition build_map :: "string option option \<Rightarrow> nat \<Rightarrow> bool + joy_map" where
  "build_map = build_map_with map_names"

definition build_map_sdl :: "string option option \<Rightarrow> nat \<Rightarrow> bool + joy_map" where
  "build_map_sdl = build_map_with map_names_sdl"

section \<open>Making a map file\<close>

text \<open>An event of the joystick device; \<open>js_init\<close> marks the states reported when it is opened.\<close>

datatype js_kind = JS_BUTTON | JS_AXIS | JS_OTHER

record js_event =
  js_kind :: js_kind
  js_init :: bool
  js_number :: nat
  js_value :: int

text \<open>
  The events as they are read, \<open>None\<close> for an error other than an interruption. The first waits for an axis
  that is moved, as \<open>read_event\<close> and the loop around it: an error leaves what was read last.
\<close>

fun read_event :: "js_kind set \<Rightarrow> js_event option list \<Rightarrow> js_event \<Rightarrow> bool \<times> js_event \<times> js_event option list" where
  "read_event kinds [] d = (False, d, [])"
| "read_event kinds (None # es) d = (False, d, es)"
| "read_event kinds (Some e # es) d = (if \<not> js_init e \<and> js_kind e \<in> kinds then (True, e, es) else read_event kinds es e)"

lemma read_event_less: "read_event kinds es d = (ok, e, es') \<Longrightarrow> length es' \<le> length es \<and> (ok \<longrightarrow> length es' < length es)"
  by (induction kinds es d rule: read_event.induct) (auto split: if_splits)

function wait_stick :: "js_event option list \<Rightarrow> js_event \<Rightarrow> js_event \<times> js_event option list" where
  "wait_stick es d =
     (let (ok, e, es') = read_event {JS_AXIS} es d
      in if ok \<and> \<bar>js_value e\<bar> < DIGITAL_TOL then wait_stick es' e else (e, es'))"
  by pat_completeness auto
termination
  by (relation "measure (\<lambda>(es, d). length es)") (auto dest: read_event_less [OF sym])

function wait_button :: "js_event option list \<Rightarrow> js_event \<Rightarrow> js_event option \<times> js_event option list" where
  "wait_button es d =
     (let (ok, e, es') = read_event {JS_BUTTON} es d
      in if \<not> ok then (None, es') else if js_value e \<noteq> 0 then (Some e, es') else wait_button es' e)"
  by pat_completeness auto
termination
  by (relation "measure (\<lambda>(es, d). length es)") (auto dest: read_event_less [OF sym])

function wait_analog :: "js_event option list \<Rightarrow> js_event \<Rightarrow> nat option" where
  "wait_analog es d =
     (let (ok, e, es') = read_event {JS_AXIS, JS_BUTTON} es d
      in if \<not> ok then None
         else if js_kind e = JS_AXIS then (if \<bar>js_value e\<bar> < DIGITAL_TOL then wait_analog es' e else Some (js_number e))
         else if js_kind e = JS_BUTTON \<and> js_value e \<noteq> 0 then None else wait_analog es' e)"
  by pat_completeness auto
termination
  by (relation "measure (\<lambda>(es, d). length es)") (auto dest: read_event_less [OF sym])

declare wait_stick.simps [simp del] wait_button.simps [simp del] wait_analog.simps [simp del]

definition map_entry :: "string \<Rightarrow> nat \<Rightarrow> string" where
  "map_entry nm n = nm @ '':'' @ dec_nat n @ [CHR 0x0A]"

text \<open>The button for each name in turn: what is written, and whether it came to the end.\<close>

fun map_buttons :: "string list \<Rightarrow> js_event option list \<Rightarrow> js_event \<Rightarrow> string \<times> js_event option list \<times> js_event option" where
  "map_buttons [] es d = ([], es, Some d)"
| "map_buttons (nm # nms) es d =
     (case wait_button es d of
        (None, es) \<Rightarrow> ([], es, None)
      | (Some e, es) \<Rightarrow> (let (text, es, r) = map_buttons nms es e in (map_entry nm (js_number e) @ text, es, r)))"

text \<open>The text of the file; \<open>d\<close> is what the variable holds before anything is read.\<close>

definition make_mapfile :: "js_event option list \<Rightarrow> js_event \<Rightarrow> string" where
  "make_mapfile es d =
     (let (e, es) = wait_stick es d;
          top_lines = map_entry ''tol'' 10000 @ map_entry ''digital'' (js_number e div 2);
          (text, es, r) = map_buttons map_names es e
      in top_lines @ text @
         (case r of None \<Rightarrow> []
          | Some d \<Rightarrow> (case wait_analog es d of None \<Rightarrow> [] | Some n \<Rightarrow> map_entry ''analog'' (n div 2))))"

section \<open>The PC\<close>

text \<open>The state of \<open>mainloop\<close>: the buttons held, the messages sent, whether it goes on.\<close>

record joy_pc =
  button_state :: u32
  sent :: "(u32 \<times> u32) list"
  running :: bool

text \<open>\<open>ok k\<close>: whether \<open>fixed_write\<close> writes all of message \<open>k\<close>.\<close>

definition send_event :: "(nat \<Rightarrow> bool) \<Rightarrow> u32 \<Rightarrow> u32 \<Rightarrow> joy_pc \<Rightarrow> joy_pc" where
  "send_event ok ty val s =
     (if ok (length (sent s)) then s\<lparr>sent := sent s @ [(ty, val)]\<rparr> else s\<lparr>running := False\<rparr>)"

definition joy_button :: "(nat \<Rightarrow> bool) \<Rightarrow> u32 \<Rightarrow> bool \<Rightarrow> joy_pc \<Rightarrow> joy_pc" where
  "joy_button ok bits down s =
     (if down then send_event ok TYPE_BUTTON_DOWN bits (s\<lparr>button_state := button_state s OR bits\<rparr>)
      else send_event ok TYPE_BUTTON_UP bits (s\<lparr>button_state := button_state s AND NOT bits\<rparr>))"

definition joy_release :: "(nat \<Rightarrow> bool) \<Rightarrow> u32 \<Rightarrow> u32 \<Rightarrow> joy_pc \<Rightarrow> joy_pc" where
  "joy_release ok bits dir s =
     (if running s \<and> button_state s AND bits \<noteq> 0 \<and> dir \<noteq> bits
      then send_event ok TYPE_BUTTON_UP bits (s\<lparr>button_state := button_state s AND NOT bits\<rparr>) else s)"

definition joy_press :: "(nat \<Rightarrow> bool) \<Rightarrow> u32 \<Rightarrow> joy_pc \<Rightarrow> joy_pc" where
  "joy_press ok dir s =
     (if running s \<and> button_state s AND dir = 0 \<and> dir \<noteq> 0
      then send_event ok TYPE_BUTTON_DOWN dir (s\<lparr>button_state := button_state s OR dir\<rparr>) else s)"

definition joy_digital :: "(nat \<Rightarrow> bool) \<Rightarrow> int \<Rightarrow> nat \<Rightarrow> int \<Rightarrow> joy_pc \<Rightarrow> joy_pc" where
  "joy_digital ok tol number val s =
     (if odd number then
        let dir = (if tol < val then PSP_CTRL_DOWN else if val < - tol then PSP_CTRL_UP else 0)
        in joy_press ok dir (joy_release ok PSP_CTRL_DOWN dir (joy_release ok PSP_CTRL_UP dir s))
      else
        let dir = (if tol < val then PSP_CTRL_RIGHT else if val < - tol then PSP_CTRL_LEFT else 0)
        in joy_press ok dir (joy_release ok PSP_CTRL_LEFT dir (joy_release ok PSP_CTRL_RIGHT dir s)))"

text \<open>Division rounds towards zero.\<close>

definition axis_byte :: "int \<Rightarrow> int" where
  "axis_byte val =
     (let n = (val + MAX_AXES_NUM) * 255 in if 0 \<le> n then n div (MAX_AXES_NUM * 2) else - (- n div (MAX_AXES_NUM * 2)))"

definition joy_analog :: "(nat \<Rightarrow> bool) \<Rightarrow> nat \<Rightarrow> int \<Rightarrow> joy_pc \<Rightarrow> joy_pc" where
  "joy_analog ok number val s =
     (if running s then send_event ok (if odd number then TYPE_ANALOG_Y else TYPE_ANALOG_X) (word_of_int (axis_byte val)) s else s)"

definition joy_step :: "(nat \<Rightarrow> bool) \<Rightarrow> joy_map \<Rightarrow> js_event \<Rightarrow> joy_pc \<Rightarrow> joy_pc" where
  "joy_step ok m e s =
     (if \<not> running s then s
      else case js_kind e of
             JS_BUTTON \<Rightarrow> joy_button ok (g_bitmap ! (buttmap m ! js_number e)) (js_value e \<noteq> 0) s
           | JS_AXIS \<Rightarrow>
              (let s = (if jm_digital m = int (js_number e div 2) then joy_digital ok (jm_tol m) (js_number e) (js_value e) s else s)
               in if jm_analog m = int (js_number e div 2) then joy_analog ok (js_number e) (js_value e) s else s)
           | JS_OTHER \<Rightarrow> s)"

definition joy_start :: joy_pc where
  "joy_start = \<lparr>button_state = 0, sent = [], running = True\<rparr>"

definition mainloop :: "(nat \<Rightarrow> bool) \<Rightarrow> joy_map \<Rightarrow> js_event list \<Rightarrow> joy_pc" where
  "mainloop ok m es = fold (joy_step ok m) es joy_start"

text \<open>The SDL program: a key or the end of the window ends it, the joystick events are the same.\<close>

datatype sdl_event = SDL_KEYDOWN | SDL_QUIT | SDL_JOYBUTTONDOWN nat | SDL_JOYBUTTONUP nat | SDL_JOYAXISMOTION nat int | SDL_OTHER

definition sdl_step :: "(nat \<Rightarrow> bool) \<Rightarrow> joy_map \<Rightarrow> sdl_event \<Rightarrow> joy_pc \<Rightarrow> joy_pc" where
  "sdl_step ok m e s =
     (if \<not> running s then s
      else case e of
             SDL_KEYDOWN \<Rightarrow> s\<lparr>running := False\<rparr>
           | SDL_QUIT \<Rightarrow> s\<lparr>running := False\<rparr>
           | SDL_JOYBUTTONDOWN b \<Rightarrow> joy_button ok (g_bitmap ! (buttmap m ! b)) True s
           | SDL_JOYBUTTONUP b \<Rightarrow> joy_button ok (g_bitmap ! (buttmap m ! b)) False s
           | SDL_JOYAXISMOTION a v \<Rightarrow>
              (let s = (if jm_digital m = int (a div 2) then joy_digital ok (jm_tol m) a v s else s)
               in if jm_analog m = int (a div 2) then joy_analog ok a v s else s)
           | SDL_OTHER \<Rightarrow> s)"

definition mainloop_sdl :: "(nat \<Rightarrow> bool) \<Rightarrow> joy_map \<Rightarrow> sdl_event list \<Rightarrow> joy_pc" where
  "mainloop_sdl ok m es = fold (sdl_step ok m) es joy_start"

section \<open>The PSP\<close>

record ctrl_data =
  Buttons :: u32
  Lx :: u8
  Ly :: u8

definition currjoy_start :: ctrl_data where
  "currjoy_start = \<lparr>Buttons = 0, Lx = 0x80, Ly = 0x80\<rparr>"

definition joy_apply :: "u32 \<times> u32 \<Rightarrow> ctrl_data \<Rightarrow> ctrl_data" where
  "joy_apply m j =
     (let (ty, val) = m
      in if ty = TYPE_BUTTON_UP then j\<lparr>Buttons := Buttons j AND NOT val\<rparr>
         else if ty = TYPE_BUTTON_DOWN then j\<lparr>Buttons := Buttons j OR val\<rparr>
         else if ty = TYPE_ANALOG_Y then j\<lparr>Ly := ucast val\<rparr>
         else if ty = TYPE_ANALOG_X then j\<lparr>Lx := ucast val\<rparr> else j)"

datatype joy_psp_effect = Delay | Flush int

text \<open>What one read of the channel gives: a negative result, or the bytes.\<close>

definition joy_receive :: "int + u8 list \<Rightarrow> ctrl_data \<Rightarrow> joy_psp_effect list \<times> ctrl_data" where
  "joy_receive r j =
     (case r of
        Inl err \<Rightarrow> ([Delay], j)
      | Inr bs \<Rightarrow>
          if length bs \<noteq> 12 \<or> le32 bs \<noteq> JOY_MAGIC then ([Flush (int (length bs))], j)
          else ([], joy_apply (le32 (drop 4 bs), le32 (drop 8 bs)) j))"

fun joy_loop :: "(int + u8 list) list \<Rightarrow> ctrl_data \<Rightarrow> joy_psp_effect list \<times> ctrl_data" where
  "joy_loop [] j = ([], j)"
| "joy_loop (r # rs) j = (let (e, j) = joy_receive r j; (es, j) = joy_loop rs j in (e @ es, j))"

definition map_axis :: "u8 \<Rightarrow> u8 \<Rightarrow> u8" where
  "map_axis real_pos new = (if \<bar>uint new - 127\<bar> < \<bar>uint real_pos - 127\<bar> then real_pos else new)"

definition add_value :: "ctrl_data \<Rightarrow> bool \<Rightarrow> ctrl_data \<Rightarrow> ctrl_data" where
  "add_value j neg p =
     p\<lparr>Buttons := (if neg then Buttons p AND NOT (Buttons j) else Buttons p OR Buttons j),
       Lx := map_axis (Lx p) (Lx j), Ly := map_axis (Ly p) (Ly j)\<rparr>"

definition add_values :: "ctrl_data \<Rightarrow> ctrl_data list \<Rightarrow> nat \<Rightarrow> bool \<Rightarrow> ctrl_data list" where
  "add_values j pads count neg = map (add_value j neg) (take count pads) @ drop count pads"

text \<open>The hooks: \<open>answer\<close> is what the driver's function returns and writes.\<close>

definition read_buffer_positive :: "ctrl_data \<Rightarrow> int \<times> ctrl_data list \<Rightarrow> int \<times> ctrl_data list" where
  "read_buffer_positive j answer =
     (if fst answer \<le> 0 then answer else (fst answer, add_values j (snd answer) (nat (fst answer)) False))"

definition read_buffer_negative :: "ctrl_data \<Rightarrow> int \<times> ctrl_data list \<Rightarrow> int \<times> ctrl_data list" where
  "read_buffer_negative j answer =
     (if fst answer \<le> 0 then answer else (fst answer, add_values j (snd answer) (nat (fst answer)) True))"

text \<open>The functions of the controller driver that are hooked, with the driver's function each hook calls.\<close>

datatype ctrl_call = ReadPositive | PeekPositive | ReadNegative | PeekNegative

definition joy_hooks :: "(string \<times> string \<times> ctrl_call) list" where
  "joy_hooks =
     [(''sceCtrl'', ''sceCtrlReadBufferPositive'', ReadPositive), (''sceCtrl'', ''sceCtrlPeekBufferPositive'', PeekPositive),
      (''sceCtrl'', ''sceCtrlReadBufferNegative'', PeekNegative), (''sceCtrl'', ''sceCtrlPeekBufferNegative'', PeekNegative),
      (''sceVshBridge'', ''vshCtrlReadBufferPositive'', ReadPositive)]"

section \<open>What the PSP shows is what the PC holds\<close>

lemma joy_receive_event [simp]: "joy_receive (Inr (joy_event m)) j = ([], joy_apply m j)"
proof -
  have "drop 4 (joy_event m) = to_le32 (fst m) @ to_le32 (snd m)" "drop 8 (joy_event m) = to_le32 (snd m)"
    by (simp_all add: joy_event_def)
  moreover have "le32 (joy_event m) = JOY_MAGIC" "length (joy_event m) = 12" by (simp_all add: joy_event_def)
  ultimately show ?thesis by (simp add: joy_receive_def)
qed

lemma joy_loop_events: "joy_loop (map (\<lambda>m. Inr (joy_event m)) ms) j = ([], fold joy_apply ms j)"
  by (induction ms arbitrary: j) simp_all

text \<open>What the PSP keeps after the messages sent so far.\<close>

definition joy_view :: "joy_pc \<Rightarrow> ctrl_data" where
  "joy_view s = fold joy_apply (sent s) currjoy_start"

definition joy_agree :: "joy_pc \<Rightarrow> bool" where
  "joy_agree s \<longleftrightarrow> running s \<and> Buttons (joy_view s) = button_state s"

lemma joy_button_agree: "\<forall>k. ok k \<Longrightarrow> joy_agree s \<Longrightarrow> joy_agree (joy_button ok b d s)"
  by (simp add: joy_agree_def joy_view_def joy_button_def send_event_def joy_apply_def)

lemma joy_release_agree: "\<forall>k. ok k \<Longrightarrow> joy_agree s \<Longrightarrow> joy_agree (joy_release ok b c s)"
  by (simp add: joy_agree_def joy_view_def joy_release_def send_event_def joy_apply_def)

lemma joy_press_agree: "\<forall>k. ok k \<Longrightarrow> joy_agree s \<Longrightarrow> joy_agree (joy_press ok c s)"
  by (simp add: joy_agree_def joy_view_def joy_press_def send_event_def joy_apply_def)

lemma joy_analog_agree: "\<forall>k. ok k \<Longrightarrow> joy_agree s \<Longrightarrow> joy_agree (joy_analog ok n v s)"
  by (simp add: joy_agree_def joy_view_def joy_analog_def send_event_def joy_apply_def)

lemma joy_digital_agree: "\<forall>k. ok k \<Longrightarrow> joy_agree s \<Longrightarrow> joy_agree (joy_digital ok tol n v s)"
  unfolding joy_digital_def Let_def by (simp add: joy_press_agree joy_release_agree)

lemma joy_step_agree: "\<forall>k. ok k \<Longrightarrow> joy_agree s \<Longrightarrow> joy_agree (joy_step ok m e s)"
  by (simp add: joy_step_def joy_button_agree joy_digital_agree joy_analog_agree Let_def split: js_kind.split)

lemma sdl_joystick_agree: "\<forall>k. ok k \<Longrightarrow> joy_agree s \<Longrightarrow> e \<noteq> SDL_KEYDOWN \<Longrightarrow> e \<noteq> SDL_QUIT \<Longrightarrow> joy_agree (sdl_step ok m e s)"
  by (simp add: sdl_step_def joy_button_agree joy_digital_agree joy_analog_agree Let_def split: sdl_event.split)

lemma mainloop_agree: "\<forall>k. ok k \<Longrightarrow> joy_agree (mainloop ok m es)"
proof -
  assume ok: "\<forall>k. ok k"
  have "joy_agree s \<Longrightarrow> joy_agree (fold (joy_step ok m) es s)" for s
    by (induction es arbitrary: s) (simp_all add: joy_step_agree ok)
  then show ?thesis by (simp add: mainloop_def joy_agree_def joy_start_def joy_view_def currjoy_start_def)
qed


text \<open>
  C40: The PSP shows what the PC holds: whatever the joystick does, once the messages have been received the
  buttons the module mixes into the controller are exactly the buttons the PC program holds, and no message
  is rejected (as long as every message is written and read as a whole).
\<close>

theorem joy_mirrors:
  assumes "\<forall>k. ok k"
  shows "\<exists>j. joy_loop (map (\<lambda>m. Inr (joy_event m)) (sent (mainloop ok m es))) currjoy_start = ([], j) \<and>
    Buttons j = button_state (mainloop ok m es)"
  using mainloop_agree [OF assms, of m es] by (simp add: joy_loop_events joy_agree_def joy_view_def)

text \<open>Stick down, button 2, stick back up, button 2 released.\<close>

definition example_joy :: "js_event list" where
  "example_joy =
     [\<lparr>js_kind = JS_AXIS, js_init = False, js_number = 1, js_value = 20000\<rparr>,
      \<lparr>js_kind = JS_BUTTON, js_init = False, js_number = 2, js_value = 1\<rparr>,
      \<lparr>js_kind = JS_AXIS, js_init = False, js_number = 1, js_value = - 30000\<rparr>,
      \<lparr>js_kind = JS_BUTTON, js_init = False, js_number = 2, js_value = 0\<rparr>]"

theorem joy_mirrors_witness:
  "\<exists>j. joy_loop (map (\<lambda>m. Inr (joy_event m)) (sent (mainloop (\<lambda>_. True) \<lparr>buttmap = [0, 1, 2], jm_digital = 0, jm_analog = - 1, jm_tol = 10000\<rparr>
      (take 3 example_joy)))) currjoy_start = ([], j) \<and> Buttons j = 0x1010"
proof -
  let ?m = "\<lparr>buttmap = [0, 1, 2], jm_digital = 0, jm_analog = - 1, jm_tol = 10000\<rparr>"
  have "button_state (mainloop (\<lambda>_. True) ?m (take 3 example_joy)) = 0x1010"
    by (simp add: example_joy_def mainloop_def joy_start_def joy_step_def joy_digital_def joy_press_def joy_release_def
        joy_button_def send_event_def g_bitmap_def numeral_3_eq_3)
  then show ?thesis using joy_mirrors [of "\<lambda>_. True" ?m "take 3 example_joy"] by simp
qed

text \<open>The directions after a move of the digital stick: those of its position, and no other button changes.\<close>

lemma and_bit_zero: "(w :: u32) AND 0x10 = 0 \<longleftrightarrow> \<not> bit w 4" "w AND 0x20 = 0 \<longleftrightarrow> \<not> bit w 5"
  "w AND 0x40 = 0 \<longleftrightarrow> \<not> bit w 6" "w AND 0x80 = 0 \<longleftrightarrow> \<not> bit w 7"
  using and_exp_eq_0_iff_not_bit [of w 4] and_exp_eq_0_iff_not_bit [of w 5]
    and_exp_eq_0_iff_not_bit [of w 6] and_exp_eq_0_iff_not_bit [of w 7] by simp_all

lemma joy_digital_directions:
  assumes "\<And>k. ok k" "running s" "0 \<le> tol" "odd number"
  shows "(button_state (joy_digital ok tol number v s) AND PSP_CTRL_DOWN \<noteq> 0) = (tol < v)"
    "(button_state (joy_digital ok tol number v s) AND PSP_CTRL_UP \<noteq> 0) = (v < - tol)"
  using assms by (auto simp: joy_digital_def joy_press_def joy_release_def send_event_def and_bit_zero bit_simps Let_def)

text \<open>The position of an analogue stick becomes a byte.\<close>

lemma axis_byte_range: "- 32768 \<le> val \<Longrightarrow> val \<le> 32767 \<Longrightarrow> 0 \<le> axis_byte val \<and> axis_byte val \<le> 255"
  unfolding axis_byte_def Let_def by (auto simp: div_le_dividend intro: order_trans)

text \<open>
  The driver's functions for negative logic are both hooked by the one that peeks: a program that reads them
  in this form is not made to wait for the next sample.
\<close>

lemma negative_hooks_peek: "map (snd \<circ> snd) (filter (\<lambda>(_, f, _). f = ''sceCtrlReadBufferNegative'') joy_hooks) = [PeekNegative]"
  by (simp add: joy_hooks_def)

section \<open>The map file\<close>

lemma dec_nat_digits: "c \<in> set (dec_nat n) \<Longrightarrow> is_num c"
proof -
  assume "c \<in> set (dec_nat n)"
  then obtain d where d: "d \<in> set (digits_of 10 n)" "c = digit_lower d" by (auto simp: dec_nat_def)
  have "d < 10" using digits_of_bound [of 10 d n] d(1) by simp
  then have "d = 0 \<or> d = 1 \<or> d = 2 \<or> d = 3 \<or> d = 4 \<or> d = 5 \<or> d = 6 \<or> d = 7 \<or> d = 8 \<or> d = 9" by auto
  then show "is_num c" unfolding d(2) by (elim disjE) (simp_all add: digit_lower_def is_num_def)
qed

lemma dec_nat_not_Nil [simp]: "dec_nat n \<noteq> []"
  by (simp add: dec_nat_def)

lemma is_num_plain: "is_num c \<Longrightarrow> \<not> c_isspace c \<and> c \<noteq> CHR 0x0A \<and> c \<noteq> CHR 0x00 \<and> c \<noteq> CHR '':'' \<and> c \<noteq> CHR ''-'' \<and> c \<noteq> CHR ''+'' \<and> \<not> is_aspace c"
  by (auto simp: is_num_def c_isspace_def is_aspace_def)

lemma c_atoi_dec: "c_atoi (dec_nat n) = int n"
proof (induction n rule: less_induct)
  case (less n)
  have d: "int (ccode (digit_lower k) - ccode (CHR ''0'')) = int k" if "k < 10" for k
  proof -
    have "k = 0 \<or> k = 1 \<or> k = 2 \<or> k = 3 \<or> k = 4 \<or> k = 5 \<or> k = 6 \<or> k = 7 \<or> k = 8 \<or> k = 9" using that by auto
    then show ?thesis by (elim disjE) (simp_all add: digit_lower_def)
  qed
  show ?case
  proof (cases "n < 10")
    case True
    then have "dec_nat n = [digit_lower n]" by (simp add: dec_nat_def digits_of.simps)
    then show ?thesis using d [OF True] by (simp add: c_atoi_def)
  next
    case False
    then have "dec_nat n = dec_nat (n div 10) @ [digit_lower (n mod 10)]"
      by (simp add: dec_nat_def digits_of.simps [of 10 n])
    moreover have "c_atoi (s @ [c]) = c_atoi s * 10 + int (ccode c - ccode (CHR ''0''))" for s c by (simp add: c_atoi_def)
    ultimately show ?thesis using less.IH [of "n div 10"] d [of "n mod 10"] False
      by simp (metis div_mult_mod_eq of_nat_add of_nat_mult of_nat_numeral)
  qed
qed

lemma c_atoi_str_dec: "c_atoi_str (dec_nat n) = int n"
proof -
  obtain c s where cs: "dec_nat n = c # s" by (cases "dec_nat n") auto
  then have c: "\<not> is_aspace c" "c \<noteq> CHR ''-''" "c \<noteq> CHR ''+''" using dec_nat_digits [of c n] is_num_plain [of c] by auto
  have "takeWhile is_num (dec_nat n) = dec_nat n" using dec_nat_digits by (simp add: takeWhile_eq_all_conv)
  then show ?thesis using c c_atoi_dec [of n] cs by (simp add: c_atoi_str_def Let_def)
qed

definition plain_key :: "string \<Rightarrow> bool" where
  "plain_key nm \<longleftrightarrow> nm \<noteq> [] \<and> \<not> c_isspace (hd nm) \<and> hd nm \<noteq> CHR ''#'' \<and> no_nul nm \<and> CHR '':'' \<notin> set nm \<and> CHR 0x0A \<notin> set nm"

definition joy_setting :: "string \<Rightarrow> nat \<Rightarrow> joy_map \<Rightarrow> joy_map option" where
  "joy_setting tok n m =
     (case map_index map_names tok of
        Some i \<Rightarrow> (if n < length (buttmap m) then Some (m\<lparr>buttmap := (buttmap m)[n := i]\<rparr>) else None)
      | None \<Rightarrow>
          if strcaseeq ''analog'' tok then Some (m\<lparr>jm_analog := int n\<rparr>)
          else if strcaseeq ''digital'' tok then Some (m\<lparr>jm_digital := int n\<rparr>)
          else if strcaseeq ''tol'' tok then Some (m\<lparr>jm_tol := int n\<rparr>) else Some m)"

lemma build_line_entry: "plain_key nm \<Longrightarrow> build_line map_names (map_entry nm n) m = joy_setting nm n m"
proof -
  assume k: "plain_key nm"
  let ?l = "nm @ CHR '':'' # dec_nat n"
  have e: "map_entry nm n = ?l @ [CHR 0x0A]" by (simp add: map_entry_def)
  have l: "\<not> c_isspace (last (dec_nat n))" using dec_nat_digits [of "last (dec_nat n)" n] is_num_plain by simp
  have z: "no_nul (dec_nat n)" using dec_nat_digits is_num_plain by (fastforce simp: no_nul_def)
  have "cstr (map_entry nm n) = map_entry nm n"
    using k z by (intro cstr_no_nul) (simp add: map_entry_def plain_key_def)
  moreover have "remove_wsp (map_entry nm n) = ?l"
  proof -
    have "dropWhile c_isspace (map_entry nm n) = map_entry nm n" using k by (cases nm) (auto simp: map_entry_def plain_key_def)
    moreover have "c_isspace (CHR 0x0A)" by (simp add: c_isspace_def)
    moreover have "dropWhile c_isspace (rev ?l) = rev ?l"
      using l by (cases "dec_nat n" rule: rev_cases) auto
    ultimately show ?thesis unfolding remove_wsp_def by (simp add: e)
  qed
  moreover have "strtok_colon ?l = Some (nm, dec_nat n)"
  proof -
    have "dropWhile (\<lambda>c. c = CHR '':'') ?l = ?l" using k by (cases nm) (auto simp: plain_key_def)
    moreover have "\<forall>c \<in> set nm. c \<noteq> CHR '':''" using k by (auto simp: plain_key_def)
    ultimately show ?thesis using k by (simp add: strtok_colon_def takeWhile_append2 dropWhile_append2 plain_key_def)
  qed
  ultimately show ?thesis using k
    by (simp add: build_line_def Let_def c_atoi_str_dec joy_setting_def plain_key_def split: option.split)
qed

text \<open>Settings applied one after the other.\<close>

fun joy_settings :: "(string \<times> nat) list \<Rightarrow> joy_map \<Rightarrow> joy_map option" where
  "joy_settings [] m = Some m"
| "joy_settings ((nm, n) # es) m = (case joy_setting nm n m of None \<Rightarrow> None | Some m \<Rightarrow> joy_settings es m)"

lemma length_dec_byte: "n < 65536 \<Longrightarrow> length (dec_nat n) \<le> 5"
  using length_dec_nat [of n 5] by simp

lemma build_lines_entries:
  assumes "\<forall>(nm, n) \<in> set es. plain_key nm \<and> length nm \<le> 100 \<and> n < 65536"
  shows "build_lines map_names (fgets_lines 512 (concat (map (\<lambda>(nm, n). map_entry nm n) es))) m = joy_settings es m"
proof -
  let ?ls = "map (\<lambda>(nm, n). nm @ '':'' @ dec_nat n) es"
  have "CHR 0x0A \<notin> set l \<and> length l < 512 - 1" if mem: "l \<in> set ?ls" for l
  proof -
    obtain nm n where l: "(nm, n) \<in> set es" "l = nm @ '':'' @ dec_nat n" using mem by auto
    then have "plain_key nm" "length nm \<le> 100" "length (dec_nat n) \<le> 5" using assms length_dec_byte by auto
    moreover have "CHR 0x0A \<notin> set (dec_nat n)" using dec_nat_digits is_num_plain by blast
    ultimately show ?thesis by (simp add: l(2) plain_key_def)
  qed
  then have "fgets_lines 512 (concat (map (\<lambda>l. l @ [CHR 0x0A]) ?ls)) = map (\<lambda>l. l @ [CHR 0x0A]) ?ls"
    by (intro fgets_lines_concat) blast
  then have f: "fgets_lines 512 (concat (map (\<lambda>(nm, n). map_entry nm n) es)) = map (\<lambda>(nm, n). map_entry nm n) es"
    by (simp add: map_entry_def comp_def case_prod_unfold)
  have "build_lines map_names (map (\<lambda>(nm, n). map_entry nm n) es) m = joy_settings es m"
    using assms by (induction es m rule: joy_settings.induct) (auto simp: build_line_entry split: option.split)
  then show ?thesis by (simp only: f)
qed

lemma names_plain: "\<forall>nm \<in> set (map_names @ [''tol'', ''digital'', ''analog'']). plain_key nm \<and> length nm \<le> 100"
  by (simp add: map_names_def plain_key_def c_isspace_def)

lemma names_index:
  "i < 8 \<Longrightarrow> map_index map_names (map_names ! i) = Some i"
  "map_index map_names ''tol'' = None" "map_index map_names ''digital'' = None" "map_index map_names ''analog'' = None"
proof -
  show "i < 8 \<Longrightarrow> map_index map_names (map_names ! i) = Some i"
  proof -
    assume "i < 8"
    then have "i = 0 \<or> i = 1 \<or> i = 2 \<or> i = 3 \<or> i = 4 \<or> i = 5 \<or> i = 6 \<or> i = 7" by auto
    then show ?thesis by (elim disjE) (simp_all add: map_index_def map_names_def strcaseeq_def tolower_def upt_conv_Cons)
  qed
qed (simp_all add: map_index_def map_names_def strcaseeq_def tolower_def upt_conv_Cons)

lemma joy_settings_append: "joy_settings (a @ b) m = (case joy_settings a m of None \<Rightarrow> None | Some m \<Rightarrow> joy_settings b m)"
  by (induction a m rule: joy_settings.induct) (auto split: option.split)

lemma settings_buttons:
  assumes "k \<le> 8" "k \<le> length bs" "\<forall>b \<in> set bs. b < length (buttmap m)"
  shows "joy_settings (map (\<lambda>i. (map_names ! i, bs ! i)) [0..<k]) m = Some (m\<lparr>buttmap := fold (\<lambda>i xs. xs[bs ! i := i]) [0..<k] (buttmap m)\<rparr>)"
  using assms(1,2)
proof (induction k)
  case (Suc k)
  have l: "length (fold (\<lambda>i xs. xs[bs ! i := i]) is xs) = length xs" for "is" and xs :: "nat list"
    by (induction "is" arbitrary: xs) simp_all
  have "bs ! k < length (buttmap m)" using assms(3) Suc.prems by simp
  then show ?case using Suc by (simp add: joy_settings_append joy_setting_def names_index(1) l)
qed simp

lemma fold_buttons:
  assumes "distinct bs" "\<forall>b \<in> set bs. b < length xs" "k \<le> length bs" "j < k"
  shows "fold (\<lambda>i xs. xs[bs ! i := i]) [0..<k] xs ! (bs ! j) = j"
  using assms(3,4)
proof (induction k)
  case (Suc k)
  have l: "length (fold (\<lambda>i xs. xs[bs ! i := i]) is xs) = length xs" for "is" and xs :: "nat list"
    by (induction "is" arbitrary: xs) simp_all
  show ?case
  proof (cases "j = k")
    case True
    then show ?thesis using assms(2) Suc.prems by (simp add: l)
  next
    case False
    then have "bs ! j \<noteq> bs ! k" using assms(1) Suc.prems by (simp add: nth_eq_iff_index_eq)
    then show ?thesis using Suc False by simp
  qed
qed simp

text \<open>The events of someone who follows the instructions: a stick, eight buttons, another stick.\<close>

definition js_stick :: "nat \<Rightarrow> int \<Rightarrow> js_event" where
  "js_stick a v = \<lparr>js_kind = JS_AXIS, js_init = False, js_number = a, js_value = v\<rparr>"

definition js_press :: "nat \<Rightarrow> js_event" where
  "js_press b = \<lparr>js_kind = JS_BUTTON, js_init = False, js_number = b, js_value = 1\<rparr>"

lemma wait_stick_moved: "DIGITAL_TOL \<le> \<bar>v\<bar> \<Longrightarrow> wait_stick (Some (js_stick a v) # es) d = (js_stick a v, es)"
  by (simp add: wait_stick.simps [of "_ # _"] js_stick_def)

lemma wait_analog_moved: "DIGITAL_TOL \<le> \<bar>v\<bar> \<Longrightarrow> wait_analog (Some (js_stick a v) # es) d = Some a"
  by (simp add: wait_analog.simps [of "_ # _"] js_stick_def)

lemma map_buttons_pressed:
  "length nms = length bs \<Longrightarrow>
   map_buttons nms (map (\<lambda>b. Some (js_press b)) bs @ es) d =
     (concat (map (\<lambda>(nm, n). map_entry nm n) (zip nms bs)), es, Some (if bs = [] then d else js_press (last bs)))"
proof (induction nms bs arbitrary: d rule: list_induct2')
  case (4 nm nms b bs)
  have "wait_button (Some (js_press b) # es') d = (Some (js_press b), es')" for es'
    by (simp add: wait_button.simps [of "_ # _"] js_press_def)
  with 4 show ?case by (simp add: js_press_def)
qed simp_all

lemma made_mapfile:
  assumes "length bs = 8" "DIGITAL_TOL \<le> \<bar>v\<bar>" "DIGITAL_TOL \<le> \<bar>v2\<bar>"
  shows "make_mapfile (Some (js_stick a v) # map (\<lambda>b. Some (js_press b)) bs @ [Some (js_stick a2 v2)]) d =
    concat (map (\<lambda>(nm, n). map_entry nm n) ((''tol'', 10000) # (''digital'', a div 2) # zip map_names bs @ [(''analog'', a2 div 2)]))"
proof -
  have "length map_names = length bs" using assms(1) by (simp add: map_names_def)
  from map_buttons_pressed [OF this, of "[Some (js_stick a2 v2)]" "js_stick a v"]
  show ?thesis using assms by (simp add: make_mapfile_def wait_stick_moved wait_analog_moved Let_def) (simp add: js_stick_def)
qed

text \<open>
  The map file round trip: when the user, asked by \<open>make_mapfile\<close>, moves a stick, presses eight different
  buttons and moves a stick, the file that is written gives, read by \<open>build_map\<close>, a map in which each of these
  buttons is the one it was pressed for, with the two sticks and the tolerance.
\<close>

theorem map_file_roundtrip:
  assumes "length bs = 8" "distinct bs" "\<forall>b \<in> set bs. b < buttons" "buttons \<le> 256" "a < 256" "a2 < 256"
    "DIGITAL_TOL \<le> \<bar>v\<bar>" "DIGITAL_TOL \<le> \<bar>v2\<bar>"
  shows "\<exists>m. build_map (Some (Some (make_mapfile
        (Some (js_stick a v) # map (\<lambda>b. Some (js_press b)) bs @ [Some (js_stick a2 v2)]) d))) buttons = Inr m \<and>
    (\<forall>i < 8. buttmap m ! (bs ! i) = i) \<and> jm_digital m = int (a div 2) \<and> jm_analog m = int (a2 div 2) \<and> jm_tol m = DIGITAL_TOL"
proof -
  let ?es = "(''tol'', 10000) # (''digital'', a div 2) # zip map_names bs @ [(''analog'', a2 div 2)]"
  let ?m = "\<lparr>buttmap = map (\<lambda>i. i mod 8) [0..<buttons], jm_digital = 0, jm_analog = - 1, jm_tol = DIGITAL_TOL\<rparr>"
  let ?b = "fold (\<lambda>i xs. xs[bs ! i := i]) [0..<8] (buttmap ?m)"
  have n: "length map_names = 8" by (simp add: map_names_def)
  have z: "zip map_names bs = map (\<lambda>i. (map_names ! i, bs ! i)) [0..<8]"
    using n assms(1) by (intro nth_equalityI) simp_all
  have "plain_key nm \<and> length nm \<le> 100 \<and> k < 65536" if "(nm, k) \<in> set ?es" for nm k
  proof -
    have "nm \<in> set (map_names @ [''tol'', ''digital'', ''analog''])" using that by (auto dest: set_zip_leftD)
    moreover have "k < 65536" using that assms(3-6) by (auto dest!: set_zip_rightD)
    ultimately show ?thesis using names_plain by blast
  qed
  then have "build_lines map_names (fgets_lines 512 (concat (map (\<lambda>(nm, n). map_entry nm n) ?es))) ?m = joy_settings ?es ?m"
    by (intro build_lines_entries) auto
  also have "\<dots> = Some (?m\<lparr>jm_tol := 10000, jm_digital := int (a div 2), buttmap := ?b, jm_analog := int (a2 div 2)\<rparr>)"
  proof -
    let ?m1 = "?m\<lparr>jm_tol := 10000, jm_digital := int (a div 2)\<rparr>"
    have s: "strcaseeq ''tol'' ''tol''" "strcaseeq ''digital'' ''digital''" "strcaseeq ''analog'' ''analog''"
      "\<not> strcaseeq ''analog'' ''tol''" "\<not> strcaseeq ''digital'' ''tol''" "\<not> strcaseeq ''analog'' ''digital''"
      by (simp_all add: strcaseeq_def tolower_def)
    have "joy_settings (map (\<lambda>i. (map_names ! i, bs ! i)) [0..<8]) ?m1 = Some (?m1\<lparr>buttmap := ?b\<rparr>)"
      using settings_buttons [of 8 bs ?m1] assms(1,3) by simp
    then show ?thesis by (simp only: joy_settings.simps joy_settings_append z joy_setting_def names_index option.case s if_True if_False) simp
  qed
  finally have "build_map (Some (Some (concat (map (\<lambda>(nm, n). map_entry nm n) ?es)))) buttons =
      Inr (?m\<lparr>jm_tol := 10000, jm_digital := int (a div 2), buttmap := ?b, jm_analog := int (a2 div 2)\<rparr>)"
    unfolding build_map_def build_map_with_def Let_def by simp
  moreover have "?b ! (bs ! i) = i" if "i < 8" for i
    using fold_buttons [OF assms(2), of "buttmap ?m" 8 i] assms(1,3) that by simp
  ultimately show ?thesis using made_mapfile [OF assms(1,7,8), of a a2 d] by simp
qed

theorem map_file_roundtrip_witness:
  "\<exists>m. build_map (Some (Some (make_mapfile
        (Some (js_stick 7 (- 32767)) # map (\<lambda>b. Some (js_press b)) [2, 1, 0, 3, 6, 7, 9, 8] @ [Some (js_stick 0 12000)]) (js_press 0)))) 10 = Inr m \<and>
    buttmap m ! 6 = 4 \<and> jm_digital m = 3"
proof -
  have "\<exists>m. build_map (Some (Some (make_mapfile
        (Some (js_stick 7 (- 32767)) # map (\<lambda>b. Some (js_press b)) [2, 1, 0, 3, 6, 7, 9, 8] @ [Some (js_stick 0 12000)]) (js_press 0)))) 10 = Inr m \<and>
    (\<forall>i < 8. buttmap m ! ([2, 1, 0, 3, 6, 7, 9, 8] ! i) = i) \<and> jm_digital m = int (7 div 2) \<and> jm_analog m = int (0 div 2) \<and> jm_tol m = DIGITAL_TOL"
    by (rule map_file_roundtrip) simp_all
  then show ?thesis by (elim exE conjE) (intro exI conjI, assumption, drule spec [of _ 4], simp_all)
qed

text \<open>A button number in the file that the joystick does not have makes the program write outside its array.\<close>

lemma build_map_overrun: "build_map (Some (Some (map_entry ''cross'' 10))) 10 = Inl True"
proof -
  have p: "plain_key ''cross''" using names_plain by (simp add: map_names_def)
  have "build_lines map_names (fgets_lines 512 (concat (map (\<lambda>(nm, n). map_entry nm n) [(''cross'', 10)]))) m = joy_settings [(''cross'', 10)] m" for m
    using p by (intro build_lines_entries) simp
  moreover have "map_index map_names ''cross'' = Some 0" using names_index(1) [of 0] by (simp add: map_names_def)
  ultimately show ?thesis by (simp add: build_map_def build_map_with_def joy_setting_def Let_def)
qed
end
