(* ===== verification/Bitmap.thy ===== *)
theory Bitmap
  imports ShellFile
begin

text \<open>
  \<open>psplink/bitmap.c\<close> and the command \<open>scrshot\<close> of \<open>psplink/shell.c\<close>: a picture of the screen as a bitmap file
  of 480 by 272 pixels in 24 bits, from a frame buffer in one of four formats, 512 pixels to the line.
\<close>

section \<open>Pixels\<close>

abbreviation scr_width :: nat where "scr_width \<equiv> 480"
abbreviation scr_height :: nat where "scr_height \<equiv> 272"
abbreviation scr_stride :: nat where "scr_stride \<equiv> 512"

definition half :: "mem \<Rightarrow> u32 \<Rightarrow> u16" where
  "half m a = ucast (m a) OR push_bit 8 (ucast (m (a + 1)))"

text \<open>The three bytes of the file for a pixel: blue, green, red.\<close>

definition pixel_8888 :: "mem \<Rightarrow> u32 \<Rightarrow> u8 list" where
  "pixel_8888 m a = [m (a + 2), m (a + 1), m a]"

definition pixel_5551 :: "u16 \<Rightarrow> u8 list" where
  "pixel_5551 v = [ucast (push_bit 3 (drop_bit 10 v AND 0x1F)), ucast (push_bit 3 (drop_bit 5 v AND 0x1F)), ucast (push_bit 3 (v AND 0x1F))]"

definition pixel_565 :: "u16 \<Rightarrow> u8 list" where
  "pixel_565 v = [ucast (push_bit 3 (drop_bit 11 v AND 0x1F)), ucast (push_bit 2 (drop_bit 5 v AND 0x3F)), ucast (push_bit 3 (v AND 0x1F))]"

definition pixel_4444 :: "u16 \<Rightarrow> u8 list" where
  "pixel_4444 v = [ucast (push_bit 4 (drop_bit 8 v AND 0xF)), ucast (push_bit 4 (drop_bit 4 v AND 0xF)), ucast (push_bit 4 (v AND 0xF))]"

text \<open>The lines from the lowest one up.\<close>

definition bmp_lines :: "(nat \<Rightarrow> nat \<Rightarrow> u8 list) \<Rightarrow> u8 list" where
  "bmp_lines px = concat (map (\<lambda>h. concat (map (px h) [0..<scr_width])) (rev [0..<scr_height]))"

definition write_8888_data :: "mem \<Rightarrow> u32 \<Rightarrow> u8 list" where
  "write_8888_data m fb = bmp_lines (\<lambda>h i. pixel_8888 m (fb + of_nat (h * scr_stride * 4) + of_nat (i * 4)))"

definition write_16_data :: "(u16 \<Rightarrow> u8 list) \<Rightarrow> mem \<Rightarrow> u32 \<Rightarrow> u8 list" where
  "write_16_data px m fb = bmp_lines (\<lambda>h i. px (half m (fb + of_nat (h * scr_stride * 2) + of_nat (i * 2))))"

definition write_5551_data :: "mem \<Rightarrow> u32 \<Rightarrow> u8 list" where
  "write_5551_data = write_16_data pixel_5551"

definition write_565_data :: "mem \<Rightarrow> u32 \<Rightarrow> u8 list" where
  "write_565_data = write_16_data pixel_565"

definition write_4444_data :: "mem \<Rightarrow> u32 \<Rightarrow> u8 list" where
  "write_4444_data = write_16_data pixel_4444"

section \<open>The file\<close>

abbreviation bmp_bytes :: nat where "bmp_bytes \<equiv> 391680"
abbreviation bmp_header_size :: nat where "bmp_header_size \<equiv> 54"

definition to_le16 :: "u16 \<Rightarrow> u8 list" where
  "to_le16 v = [ucast v, ucast (drop_bit 8 v)]"

definition bmp_header :: "u8 list" where
  "bmp_header = [0x42, 0x4D] @ to_le32 (of_nat (bmp_bytes + bmp_header_size)) @ to_le32 0 @ to_le32 (of_nat bmp_header_size) @
     to_le32 0x28 @ to_le32 (of_nat scr_width) @ to_le32 (of_nat scr_height) @ to_le16 1 @ to_le16 24 @ to_le32 0 @
     to_le32 (of_nat bmp_bytes) @ to_le32 2834 @ to_le32 2834 @ to_le32 0 @ to_le32 0"

text \<open>\<open>fixed_write\<close>: the answers of the writes; what came to be written. It stops at an answer of at most 0.\<close>

fun write_all :: "int list \<Rightarrow> u8 list \<Rightarrow> u8 list" where
  "write_all [] data = []"
| "write_all (n # ns) data =
     (if data = [] \<or> n \<le> 0 then [] else take (nat n) data @ write_all ns (drop (nat n) data))"

text \<open>\<open>old\<close> is what the buffer holds before, which an unknown format leaves.\<close>

definition frame_data :: "mem \<Rightarrow> u32 \<Rightarrow> int \<Rightarrow> u8 list \<Rightarrow> u8 list" where
  "frame_data m fb fmt old =
     (if fmt = 0 then write_565_data m fb
      else if fmt = 1 then write_5551_data m fb
      else if fmt = 2 then write_4444_data m fb
      else if fmt = 3 then write_8888_data m fb
      else old)"

definition bitmapWrite :: "int \<Rightarrow> int list \<Rightarrow> mem \<Rightarrow> u32 \<Rightarrow> u8 list \<Rightarrow> int \<Rightarrow> string \<Rightarrow> int \<times> string list \<times> (string \<times> u8 list) option" where
  "bitmapWrite fd answers m fb old fmt file =
     (if fd < 0 then (-1, [''Could not open file '' @ [CHR 0x27] @ file @ [CHR 0x27] @ '' for writing''], None)
      else (0, [], Some (file, write_all answers (bmp_header @ frame_data m fb fmt old))))"

section \<open>The command\<close>

text \<open>
  What \<open>sceDisplayGetFrameBufferInternal\<close> answers for a priority (nothing on an error), the result of the
  allocation, the contents of the block, the descriptor of the file and the answers of its writes.
\<close>

record screen =
  frame_of :: "int \<Rightarrow> (u32 \<times> int \<times> int) option"
  block_id :: int
  block_data :: "u8 list"
  out_fd :: int
  out_answers :: "int list"

definition scrshot_cmd ::
  "io_answers \<Rightarrow> string \<Rightarrow> screen \<Rightarrow> mem \<Rightarrow> string list \<Rightarrow> int \<times> string list \<times> (string \<times> u8 list) option" where
  "scrshot_cmd io cwd d m argv =
     (let pri = (if 1 < length argv then c_atoi_str (argv ! 1) else 2)
      in case handlepath (io_stat io) (io_opens io) cwd (argv ! 0) TYPE_FILE False of
           None \<Rightarrow> (CMD_ERROR, [''Error invalid path''], None)
         | Some target \<Rightarrow>
            (case frame_of d pri of
               None \<Rightarrow> (CMD_ERROR, [''Invalid frame address''], None)
             | Some (fb, width, fmt) \<Rightarrow>
                if fb = 0 then (CMD_ERROR, [''Invalid frame address''], None)
                else if block_id d < 0
                then (CMD_ERROR, [''Error could not allocate memory buffer '' @ print_word (word_of_int (block_id d))], None)
                else let p = (if fb AND 0x80000000 \<noteq> 0 then fb OR 0xA0000000 else fb OR 0x40000000);
                         (_, said, file) = bitmapWrite (out_fd d) (out_answers d) m p (block_data d) fmt target
                     in (CMD_OK, (''frame_addr 0x'' @ hex_lower (unat fb) @ '', frame_width '' @ dec_int width @
                           '', pixel_format '' @ dec_int fmt @ '' output '' @ target) # said, file)))"

section \<open>What the file shows\<close>

lemma length_concat_const: "\<forall>x \<in> set xs. length (f x) = k \<Longrightarrow> length (concat (map f xs)) = length xs * k"
  by (induction xs) simp_all

lemma nth_concat_const:
  "\<forall>x \<in> set xs. length (f x) = k \<Longrightarrow> i < length xs \<Longrightarrow> j < k \<Longrightarrow> concat (map f xs) ! (i * k + j) = f (xs ! i) ! j"
proof (induction xs arbitrary: i)
  case (Cons x xs)
  show ?case
  proof (cases i)
    case 0
    then show ?thesis using Cons.prems by (simp add: nth_append)
  next
    case (Suc l)
    then have "concat (map f (x # xs)) ! (i * k + j) = concat (map f xs) ! (l * k + j)"
      using Cons.prems(1) by (simp add: nth_append add.assoc)
    then show ?thesis using Cons Suc by simp
  qed
qed simp

lemma length_bmp_lines: "\<forall>h i. length (px h i) = 3 \<Longrightarrow> length (bmp_lines px) = bmp_bytes"
  unfolding bmp_lines_def by (subst length_concat_const [where k = "scr_width * 3"]) (simp_all add: length_concat_const [where k = 3])

lemma nth_bmp_lines:
  assumes "\<forall>h i. length (px h i) = 3" "x < scr_width" "y < scr_height" "c < 3"
  shows "bmp_lines px ! (((scr_height - 1 - y) * scr_width + x) * 3 + c) = px y x ! c"
proof -
  let ?row = "\<lambda>h. concat (map (px h) [0..<scr_width])"
  have k: "\<forall>h \<in> set (rev [0..<scr_height]). length (?row h) = scr_width * 3"
    using assms(1) by (simp add: length_concat_const [where k = 3])
  have e: "((scr_height - 1 - y) * scr_width + x) * 3 + c = (scr_height - 1 - y) * (scr_width * 3) + (x * 3 + c)" by simp
  have "bmp_lines px ! (((scr_height - 1 - y) * scr_width + x) * 3 + c) = ?row (rev [0..<scr_height] ! (scr_height - 1 - y)) ! (x * 3 + c)"
    unfolding bmp_lines_def e by (rule nth_concat_const [OF k]) (use assms(2-4) in simp_all)
  also have "rev [0..<scr_height] ! (scr_height - 1 - y) = y" using assms(3) by (simp add: rev_nth)
  also have "?row y ! (x * 3 + c) = px y ([0..<scr_width] ! x) ! c"
    by (rule nth_concat_const) (use assms in simp_all)
  finally show ?thesis using assms(2) by simp
qed

lemma write_all_total: "\<forall>n \<in> set ns. 0 < n \<Longrightarrow> sum_list ns \<ge> int (length data) \<Longrightarrow> write_all ns data = data"
proof (induction ns arbitrary: data)
  case (Cons n ns)
  show ?case
  proof (cases "data = []")
    case False
    have "write_all ns (drop (nat n) data) = drop (nat n) data"
    proof (cases "nat n \<le> length data")
      case True
      then show ?thesis using Cons by (intro Cons.IH) (auto simp: of_nat_diff)
    next
      case f: False
      then have "drop (nat n) data = []" by simp
      then show ?thesis by (cases ns) simp_all
    qed
    then show ?thesis using False Cons.prems(1) by simp
  qed simp
qed simp

text \<open>The bytes of a pixel in the frame buffer: its address and its colours, by format.\<close>

definition frame_pixel :: "mem \<Rightarrow> u32 \<Rightarrow> int \<Rightarrow> nat \<Rightarrow> nat \<Rightarrow> u8 list" where
  "frame_pixel m fb fmt x y =
     (if fmt = 3 then pixel_8888 m (fb + of_nat ((y * scr_stride + x) * 4))
      else let v = half m (fb + of_nat ((y * scr_stride + x) * 2))
           in if fmt = 0 then pixel_565 v else if fmt = 1 then pixel_5551 v else pixel_4444 v)"

lemma frame_data_pixels:
  assumes "0 \<le> fmt" "fmt \<le> 3"
  shows "frame_data m fb fmt old = bmp_lines (\<lambda>y x. frame_pixel m fb fmt x y)"
proof -
  have f: "fmt = 0 \<or> fmt = 1 \<or> fmt = 2 \<or> fmt = 3" using assms by arith
  show ?thesis
    using f by (elim disjE) (simp_all add: frame_data_def frame_pixel_def write_565_data_def write_5551_data_def write_4444_data_def
        write_16_data_def write_8888_data_def Let_def algebra_simps)
qed

lemma length_frame_pixel: "length (frame_pixel m fb fmt x y) = 3"
  by (simp add: frame_pixel_def pixel_8888_def pixel_565_def pixel_5551_def pixel_4444_def Let_def)

lemma length_bmp_header: "length bmp_header = bmp_header_size"
  by (simp add: bmp_header_def to_le16_def)

text \<open>
  C31: The screen shot is the screen: when the file can be written, in any of the four formats, the file has the
  header and size of a bitmap of 480 by 272 pixels, and the colours of each point of the screen stand at the
  place of this point.
\<close>

theorem bitmap_shows_screen:
  assumes "0 \<le> fd" "0 \<le> fmt" "fmt \<le> 3" "\<forall>n \<in> set answers. 0 < n" "int (bmp_bytes + bmp_header_size) \<le> sum_list answers"
  shows "\<exists>bytes. bitmapWrite fd answers m fb old fmt file = (0, [], Some (file, bytes)) \<and>
    length bytes = bmp_bytes + bmp_header_size \<and> take bmp_header_size bytes = bmp_header \<and>
    (\<forall>x y c. x < scr_width \<and> y < scr_height \<and> c < 3 \<longrightarrow>
       bytes ! (bmp_header_size + ((scr_height - 1 - y) * scr_width + x) * 3 + c) = frame_pixel m fb fmt x y ! c)"
proof -
  let ?px = "\<lambda>y x. frame_pixel m fb fmt x y"
  have l: "\<forall>h i. length (?px h i) = 3" by (simp add: length_frame_pixel)
  have n: "length (bmp_lines ?px) = bmp_bytes" by (rule length_bmp_lines [OF l])
  have "write_all answers (bmp_header @ bmp_lines ?px) = bmp_header @ bmp_lines ?px"
    by (rule write_all_total) (use assms(4,5) in \<open>simp_all add: n length_bmp_header\<close>)
  then have "bitmapWrite fd answers m fb old fmt file = (0, [], Some (file, bmp_header @ bmp_lines ?px))"
    using assms(1) by (simp add: bitmapWrite_def frame_data_pixels [OF assms(2,3)])
  moreover have "(bmp_header @ bmp_lines ?px) ! (bmp_header_size + ((scr_height - 1 - y) * scr_width + x) * 3 + c) = ?px y x ! c"
    if "x < scr_width" "y < scr_height" "c < 3" for x y c
    using nth_bmp_lines [OF l that] by (simp only: nth_append length_bmp_header) (simp add: add.assoc)
  ultimately show ?thesis by (intro exI [of _ "bmp_header @ bmp_lines ?px"]) (simp add: n length_bmp_header)
qed

theorem bitmap_shows_screen_witness:
  "\<exists>bytes. bitmapWrite 5 [400000] (\<lambda>a. ucast a) 0x44000000 [] 3 ''ms0:/a.bmp'' = (0, [], Some (''ms0:/a.bmp'', bytes)) \<and> bytes ! 54 = 0x02"
proof -
  obtain bytes where b: "bitmapWrite 5 [400000] (\<lambda>a. ucast a) 0x44000000 [] 3 ''ms0:/a.bmp'' = (0, [], Some (''ms0:/a.bmp'', bytes))"
    "\<forall>x y c. x < scr_width \<and> y < scr_height \<and> c < 3 \<longrightarrow>
       bytes ! (bmp_header_size + ((scr_height - 1 - y) * scr_width + x) * 3 + c) = frame_pixel (\<lambda>a. ucast a) 0x44000000 3 x y ! c"
    using bitmap_shows_screen [of 5 3 "[400000]" "\<lambda>a. ucast a" "0x44000000" "[]" "''ms0:/a.bmp''"] by auto
  have "bytes ! 54 = frame_pixel (\<lambda>a. ucast a) 0x44000000 3 0 271 ! 0" using b(2) [rule_format, of 0 271 0] by simp
  also have "\<dots> = 0x02" by (simp add: frame_pixel_def pixel_8888_def)
  finally show ?thesis using b(1) by blast
qed

text \<open>The formats without alpha lose nothing.\<close>

definition unpack_565 :: "u8 list \<Rightarrow> u16" where
  "unpack_565 p = push_bit 11 (ucast (drop_bit 3 (p ! 0))) OR push_bit 5 (ucast (drop_bit 2 (p ! 1))) OR ucast (drop_bit 3 (p ! 2))"

lemma pixel_565_lossless: "unpack_565 (pixel_565 v) = v"
proof (rule bit_word_eqI)
  fix n assume "n < LENGTH(16)"
  then have n: "n < 16" by simp
  have "n < 5 \<or> (\<exists>k. n = 5 + k \<and> k < 6) \<or> (\<exists>k. n = 11 + k \<and> k < 5)" using n by presburger
  have m: "k < 5 \<Longrightarrow> bit (248 :: u8) (3 + k)" "k < 6 \<Longrightarrow> bit (63 :: u8) k" "k < 5 \<Longrightarrow> bit (248 :: int) (3 + k)" "k < 6 \<Longrightarrow> bit (63 :: int) k"
    "k < 5 \<Longrightarrow> bit (248 :: u16) (3 + k)" "k < 6 \<Longrightarrow> bit (63 :: u16) k" for k
  proof -
    have "k < 5 \<Longrightarrow> k = 0 \<or> k = 1 \<or> k = 2 \<or> k = 3 \<or> k = 4" by auto
    then show "k < 5 \<Longrightarrow> bit (248 :: u8) (3 + k)" "k < 5 \<Longrightarrow> bit (248 :: u16) (3 + k)" "k < 5 \<Longrightarrow> bit (248 :: int) (3 + k)" by auto
    have "k < 6 \<Longrightarrow> k = 0 \<or> k = 1 \<or> k = 2 \<or> k = 3 \<or> k = 4 \<or> k = 5" by auto
    then show "k < 6 \<Longrightarrow> bit (63 :: u8) k" "k < 6 \<Longrightarrow> bit (63 :: u16) k" "k < 6 \<Longrightarrow> bit (63 :: int) k" by auto
  qed
  show "bit (unpack_565 (pixel_565 v)) n = bit v n"
    using \<open>n < 5 \<or> (\<exists>k. n = 5 + k \<and> k < 6) \<or> (\<exists>k. n = 11 + k \<and> k < 5)\<close>
    by (elim disjE exE conjE) (auto simp: unpack_565_def pixel_565_def bit_simps m)
qed

end
