(* ===== verification/FrontEnds.thy ===== *)
theory FrontEnds
  imports Pcterm
begin

text \<open>
  The programs that carry lines to the shell of the PSP and text back: \<open>usbshell/main.c\<close> over a channel of the
  USB link, \<open>netshell/main.c\<close> over a TCP connection, \<open>conshell/main.c\<close> with the buttons of the console, and the
  serial port of \<open>psplink/sio.c\<close>; and the byte transports of the debugger stub, \<open>usbgdb/usbgdb.c\<close> and
  \<open>netgdb/netgdb.c\<close>.

  What a read gives is an argument, as is the result of a command (1 ends the shell).
\<close>

section \<open>The shell over USB\<close>

abbreviation MAX_USB_CLI :: nat where "MAX_USB_CLI \<equiv> 4096"

datatype fe_effect = Wait | Ran string | Exit_shell | Show_prompt | Send string | Shut int

text \<open>One read: \<open>None\<close> when it gives no byte. The line is \<open>cli\<close> up to \<open>cli_pos\<close>.\<close>

definition usb_char :: "(string \<Rightarrow> int) \<Rightarrow> char option \<Rightarrow> string \<Rightarrow> fe_effect list \<times> string" where
  "usb_char result r line =
     (case r of
        None \<Rightarrow> ([Wait], line)
      | Some c \<Rightarrow>
          if c = CHR 0x0A
          then (Ran (cstr line) # (if result (cstr line) = 1 then [Exit_shell] else []) @ [Show_prompt], [])
          else ([], if length line < MAX_USB_CLI - 1 then line @ [c] else line))"

fun usb_shell :: "(string \<Rightarrow> int) \<Rightarrow> char option list \<Rightarrow> string \<Rightarrow> fe_effect list \<times> string" where
  "usb_shell result [] line = ([], line)"
| "usb_shell result (r # rs) line =
     (let (e, line) = usb_char result r line; (es, line) = usb_shell result rs line in (e @ es, line))"

section \<open>The shell over TCP\<close>

datatype recv_answer = Recv_error | Recv_end | Recv char

text \<open>
  \<open>n_data\<close> is the variable the byte is read into; \<open>out\<close> is \<open>g_data\<close> up to \<open>g_size\<close>. \<open>listener\<close> and \<open>conn\<close> are the
  locals \<open>sock\<close> and \<open>new\<close> beside the globals \<open>g_servsock\<close> and \<open>g_currsock\<close>.
\<close>

record net_shell =
  n_cli :: string
  n_data :: char
  out :: string
  currsock :: int
  servsock :: int
  listener :: int
  conn :: int

abbreviation NET_CLI :: nat where "NET_CLI \<equiv> 1024"

text \<open>\<open>wifiPrint\<close> waits while there is text to be sent: \<open>None\<close>, as for a text that overruns \<open>g_data[4096]\<close>.\<close>

definition wifiPrint :: "string \<Rightarrow> net_shell \<Rightarrow> net_shell option" where
  "wifiPrint text s =
     (if currsock s < 0 then Some s else if out s \<noteq> [] \<or> 4096 < length text then None else Some (s\<lparr>out := text\<rparr>))"

text \<open>One turn of the loop of a connection: whether the connection goes on. \<open>sent\<close> is the success of sending.\<close>

definition net_turn :: "(string \<Rightarrow> int) \<Rightarrow> bool \<Rightarrow> recv_answer \<Rightarrow> net_shell \<Rightarrow> bool \<times> fe_effect list \<times> net_shell" where
  "net_turn result sent r s =
     (if out s \<noteq> [] \<and> \<not> sent then (False, [Shut (conn s)], s\<lparr>currsock := - 1\<rparr>)
      else let e0 = (if out s \<noteq> [] then [Send (out s)] else []);
               s = s\<lparr>out := []\<rparr>;
               s = (case r of Recv c \<Rightarrow> s\<lparr>n_data := c\<rparr> | _ \<Rightarrow> s);
               c = n_data s
           in if r = Recv_error then (True, e0 @ [Wait], s)
              else if c = CHR 0x0A \<or> c = CHR 0x0D then
                (if n_cli s \<noteq> [] then
                   let line = cstr (n_cli s)
                   in if result line = 1
                      then (True, e0 @ [Ran line, Shut (listener s), Shut (conn s), Exit_shell, Wait],
                            s\<lparr>n_cli := [], currsock := - 1, servsock := - 1\<rparr>)
                      else (True, e0 @ [Ran line, Wait], s\<lparr>n_cli := []\<rparr>)
                 else (True, e0 @ [Wait], s))
              else (True, e0 @ [Wait], s\<lparr>n_cli := (if length (n_cli s) < NET_CLI - 1 then n_cli s @ [c] else n_cli s)\<rparr>))"

fun net_connection :: "(string \<Rightarrow> int) \<Rightarrow> (bool \<times> recv_answer) list \<Rightarrow> net_shell \<Rightarrow> bool \<times> fe_effect list \<times> net_shell" where
  "net_connection result [] s = (True, [], s)"
| "net_connection result ((sent, r) # rs) s =
     (let (go, e, s) = net_turn result sent r s
      in if \<not> go then (False, e, s) else let (go, es, s) = net_connection result rs s in (go, e @ es, s))"

text \<open>A new connection: the greeting is sent at once.\<close>

definition net_accept :: "int \<Rightarrow> net_shell \<Rightarrow> bool \<times> fe_effect list \<times> net_shell" where
  "net_accept new s =
     (if new < 0 then (False, [Shut (listener s)], s\<lparr>servsock := - 1, conn := new\<rparr>)
      else (True, [Send (''Welcome to PSPLink'' @ [CHR 0x27] @ ''s NetShell'' @ [CHR 0x0A]), Show_prompt], s\<lparr>currsock := new, conn := new\<rparr>))"

definition net_stop :: "net_shell \<Rightarrow> fe_effect list" where
  "net_stop s = (if 0 \<le> currsock s then [Shut (currsock s)] else []) @ (if 0 \<le> servsock s then [Shut (servsock s)] else [])"

section \<open>The buttons of the console\<close>

text \<open>Button and command, in the order of the tests.\<close>

definition cons_commands :: "(u32 \<times> string) list" where
  "cons_commands =
     [(0x100, ''exit''), (0x200, ''reset''), (0x4000, ''custom 0''), (0x8000, ''custom 1''), (0x1000, ''custom 2''),
      (0x2000, ''custom 3''), (0x1, ''custom 4''), (0x8, ''custom 5''), (0x40, ''custom 6''), (0x80, ''custom 7''),
      (0x10, ''custom 8''), (0x20, ''custom 9'')]"

definition cons_command :: "u32 \<Rightarrow> string option" where
  "cons_command pressed = map_option snd (find (\<lambda>(b, c). pressed AND b \<noteq> 0) cons_commands)"

text \<open>One turn: the buttons now and those of the last turn, and whether the console may give commands.\<close>

definition cons_turn :: "(string \<Rightarrow> int) \<Rightarrow> bool \<Rightarrow> u32 \<Rightarrow> u32 \<Rightarrow> fe_effect list \<times> u32" where
  "cons_turn result permit buttons oldbuttons =
     ((case cons_command (buttons AND NOT oldbuttons) of
         None \<Rightarrow> []
       | Some c \<Rightarrow> (if c = ''exit'' \<or> c = ''reset'' then [Send (c @ [CHR 0x0A])] else []) @
           (if permit then Ran c # (if result c = 1 then [Exit_shell] else []) else [])),
      buttons)"

fun run_conshell :: "(string \<Rightarrow> int) \<Rightarrow> (bool \<times> u32) list \<Rightarrow> u32 \<Rightarrow> fe_effect list" where
  "run_conshell result [] old = []"
| "run_conshell result ((permit, b) # bs) old = fst (cons_turn result permit b old) @ run_conshell result bs b"

text \<open>What is given to the screen, as its format, and the result.\<close>

definition consPrint :: "string \<Rightarrow> string \<times> int" where
  "consPrint data =
     (let data = take 511 data in (map (\<lambda>c. if c = CHR 0x0D then CHR '' '' else c) data, int (length data)))"

section \<open>The serial port\<close>

text \<open>The status register's answers before there is room: \<open>None\<close> when they end with the port still full.\<close>

abbreviation PSP_UART_TXFULL :: u32 where "PSP_UART_TXFULL \<equiv> 0x20"
abbreviation PSP_UART_RXEMPTY :: u32 where "PSP_UART_RXEMPTY \<equiv> 0x10"
abbreviation PSP_UART_CLK :: nat where "PSP_UART_CLK \<equiv> 96000000"

fun sioPutchar :: "u32 list \<Rightarrow> u32 \<Rightarrow> (u32 \<times> u32 list) option" where
  "sioPutchar [] ch = None"
| "sioPutchar (st # sts) ch = (if st AND PSP_UART_TXFULL \<noteq> 0 then sioPutchar sts ch else Some (ch, sts))"

definition sioGetchar :: "u32 \<Rightarrow> u32 \<Rightarrow> int" where
  "sioGetchar stat fifo = (if stat AND PSP_UART_RXEMPTY \<noteq> 0 then - 1 else sint fifo)"

text \<open>\<open>sioReadChar\<close> and \<open>sioReadCharWithTimeout\<close>: the port before and after the wait for its interrupt.\<close>

definition sioReadChar :: "u32 \<times> u32 \<Rightarrow> u32 \<times> u32 \<Rightarrow> int" where
  "sioReadChar now later =
     (let ch = sioGetchar (fst now) (snd now) in if ch = - 1 then sioGetchar (fst later) (snd later) else ch)"

text \<open>The characters of a text, with the line ends completed.\<close>

definition sioPutText :: "string \<Rightarrow> string" where
  "sioPutText data =
     concat (map (\<lambda>i. (if data ! i = CHR 0x0A \<and> (0 < i \<and> data ! (i - 1) \<noteq> CHR 0x0D \<or> i = 0) then [CHR 0x0D] else []) @
         [data ! i] @
         (if i + 1 < length data \<and> data ! i = CHR 0x0D \<and> data ! (i + 1) \<noteq> CHR 0x0A then [CHR 0x0A] else [])) [0..<length data])"

text \<open>The three words written to the divisors and the control register.\<close>

definition sioSetBaud :: "nat \<Rightarrow> nat \<times> nat \<times> nat" where
  "sioSetBaud baud = (let d = PSP_UART_CLK div baud in (d div 64, d mod 64, 0x60))"

definition PutCharDebug :: "u32 \<Rightarrow> u32 list" where
  "PutCharDebug ty = (if ty AND 0xFF00 = 0 then (if ty = 10 then [13] else []) @ [ty] else [])"

section \<open>Transports of the debugger\<close>

text \<open>Over USB a read is repeated until it gives a byte; over TCP an error leaves 0.\<close>

fun usb_getDebugChar :: "(int \<times> u8) list \<Rightarrow> (int \<times> u8) option" where
  "usb_getDebugChar [] = None"
| "usb_getDebugChar ((r, ch) # rs) = (if r < 1 then usb_getDebugChar rs else Some (r, ch))"

definition net_getDebugChar :: "int \<Rightarrow> int \<times> u8 \<Rightarrow> int \<times> u8" where
  "net_getDebugChar sock answer = (if 0 \<le> sock then (fst answer, if 0 < fst answer then snd answer else 0) else (- 1, 0))"

definition net_writeDebugData :: "int \<Rightarrow> (u8 list \<Rightarrow> int) \<Rightarrow> u8 list \<Rightarrow> int \<times> u8 list option" where
  "net_writeDebugData sock send data = (if 0 \<le> sock then (send data, Some data) else (- 1, None))"

definition net_putDebugChar :: "int \<Rightarrow> (u8 list \<Rightarrow> int) \<Rightarrow> u8 \<Rightarrow> int \<times> u8 list option" where
  "net_putDebugChar sock send ch = net_writeDebugData sock send [ch]"

section \<open>Lines over USB\<close>

text \<open>The lines run, in order.\<close>

definition ran :: "fe_effect list \<Rightarrow> string list" where
  "ran es = concat (map (\<lambda>e. case e of Ran l \<Rightarrow> [l] | _ \<Rightarrow> []) es)"

lemma ran_simps [simp]: "ran [] = []" "ran (a @ b) = ran a @ ran b" "ran (Wait # es) = ran es" "ran (Ran l # es) = l # ran es"
  "ran (Exit_shell # es) = ran es" "ran (Show_prompt # es) = ran es" "ran (Send t # es) = ran es" "ran (Shut n # es) = ran es"
  by (simp_all add: ran_def)

text \<open>The bytes of a line, with waits between them.\<close>

definition bytes_read :: "char option list \<Rightarrow> string" where
  "bytes_read rs = concat (map (\<lambda>r. case r of None \<Rightarrow> [] | Some c \<Rightarrow> [c]) rs)"

lemma bytes_read_simps [simp]: "bytes_read [] = []" "bytes_read (None # rs) = bytes_read rs" "bytes_read (Some c # rs) = c # bytes_read rs"
  by (simp_all add: bytes_read_def)

lemma usb_shell_line:
  "CHR 0x0A \<notin> set (bytes_read rs) \<Longrightarrow> length line + length (bytes_read rs) < MAX_USB_CLI \<Longrightarrow>
   ran (fst (usb_shell result rs line)) = [] \<and> snd (usb_shell result rs line) = line @ bytes_read rs"
  by (induction rs arbitrary: line) (auto simp: usb_char_def split_beta Let_def bytes_read_def split: option.splits)

text \<open>A reference: the lines a stream completes, and the rest.\<close>

fun stream_lines :: "string \<Rightarrow> string \<Rightarrow> string list" where
  "stream_lines acc [] = []"
| "stream_lines acc (c # s) = (if c = CHR 0x0A then acc # stream_lines [] s else stream_lines (acc @ [c]) s)"

lemma usb_shell_stream:
  "length line < MAX_USB_CLI \<Longrightarrow> line = take (MAX_USB_CLI - 1) acc \<Longrightarrow>
   ran (fst (usb_shell result rs line)) = map (\<lambda>l. cstr (take (MAX_USB_CLI - 1) l)) (stream_lines acc (bytes_read rs))"
proof (induction rs arbitrary: line acc)
  case (Cons r rs)
  show ?case
  proof (cases r)
    case None
    then show ?thesis using Cons.IH [OF Cons.prems] by (simp add: usb_char_def split_beta)
  next
    case (Some c)
    show ?thesis
    proof (cases "c = CHR 0x0A")
      case True
      then show ?thesis using Some Cons.IH [of "[]" "[]"] Cons.prems by (simp add: usb_char_def split_beta)
    next
      case False
      let ?line = "if length line < MAX_USB_CLI - 1 then line @ [c] else line"
      have "?line = take (MAX_USB_CLI - 1) (acc @ [c])" using Cons.prems(2) by auto
      moreover have "length ?line < MAX_USB_CLI" using Cons.prems(1) by simp
      ultimately show ?thesis using Some False Cons.IH [of ?line "acc @ [c]"] by (simp add: usb_char_def split_beta)
    qed
  qed
qed simp

lemma stream_lines_line: "CHR 0x0A \<notin> set l \<Longrightarrow> stream_lines acc (l @ CHR 0x0A # s) = (acc @ l) # stream_lines [] s"
  by (induction l arbitrary: acc) auto

lemma stream_lines_concat:
  "\<forall>l \<in> set ls. CHR 0x0A \<notin> set l \<Longrightarrow> stream_lines [] (concat (map (\<lambda>l. l @ [CHR 0x0A]) ls)) = ls"
  by (induction ls) (simp_all add: stream_lines_line)

text \<open>What the terminal on the PC sends.\<close>

definition sent_text :: "term_effect list \<Rightarrow> string" where
  "sent_text es = concat (map (\<lambda>e. case e of Sent s \<Rightarrow> s | _ \<Rightarrow> []) es)"

fun type_lines :: "string list \<Rightarrow> pc_term \<Rightarrow> term_effect list \<times> pc_term" where
  "type_lines [] t = ([], t)"
| "type_lines (l # ls) t = (let (e, t) = cli_handler (True, True) (Some l) t; (es, t) = type_lines ls t in (e @ es, t))"

text \<open>A line for the PSP: not one of the terminal's own.\<close>

definition psp_line :: "string \<Rightarrow> bool" where
  "psp_line l \<longleftrightarrow> l \<noteq> [] \<and> hd l \<noteq> CHR ''!'' \<and> l \<noteq> ''close'' \<and> CHR 0x0A \<notin> set l \<and> no_nul l \<and> length l < MAX_USB_CLI"

lemma execute_line_connected:
  "buf \<noteq> [] \<Longrightarrow> t_state t = STATE_CONNECTED \<Longrightarrow> 0 \<le> t_sock t \<Longrightarrow>
   execute_line (True, True) buf t = ([Sent buf, Sent [CHR 0x0A]], t)"
  by (simp add: execute_line_def)

lemma cli_handler_psp_line:
  assumes "psp_line l" "t_state t = STATE_CONNECTED" "0 \<le> t_sock t"
  shows "sent_text (fst (cli_handler (True, True) (Some l) t)) = l @ [CHR 0x0A] \<and>
    t_state (snd (cli_handler (True, True) (Some l) t)) = STATE_CONNECTED \<and>
    t_sock (snd (cli_handler (True, True) (Some l) t)) = t_sock t"
proof -
  have l: "l \<noteq> []" "hd l \<noteq> CHR ''!''" "l \<noteq> ''close''" using assms(1) by (simp_all add: psp_line_def)
  show ?thesis using assms(2,3) l
    by (simp add: cli_handler_def execute_line_connected sent_text_def Let_def)
qed

lemma type_lines_sent:
  "\<forall>l \<in> set ls. psp_line l \<Longrightarrow> t_state t = STATE_CONNECTED \<Longrightarrow> 0 \<le> t_sock t \<Longrightarrow>
   sent_text (fst (type_lines ls t)) = concat (map (\<lambda>l. l @ [CHR 0x0A]) ls)"
proof (induction ls arbitrary: t)
  case (Cons l ls)
  obtain e t' where c: "cli_handler (True, True) (Some l) t = (e, t')" by fastforce
  then have "sent_text e = l @ [CHR 0x0A] \<and> t_state t' = STATE_CONNECTED \<and> t_sock t' = t_sock t"
    using cli_handler_psp_line [of l t] Cons.prems by simp
  moreover have "sent_text (e @ es) = sent_text e @ sent_text es" for es by (simp add: sent_text_def)
  ultimately show ?case using Cons.IH [of t'] Cons.prems c by (simp add: split_beta)
qed (simp add: sent_text_def)

text \<open>
  What is typed at the PC's terminal is what the shell of the PSP runs: the lines entered while the terminal
  is connected are handed to the shell one by one, whole and in order, whatever waits there are between the
  bytes. (A line has at most 4095 characters and is not one of the terminal's own commands.)
\<close>

theorem typed_lines_run:
  assumes "\<forall>l \<in> set ls. psp_line l" "t_state t = STATE_CONNECTED" "0 \<le> t_sock t"
    "bytes_read rs = sent_text (fst (type_lines ls t))"
  shows "ran (fst (usb_shell result rs [])) = ls \<and> snd (usb_shell result rs []) = []"
proof -
  have s: "bytes_read rs = concat (map (\<lambda>l. l @ [CHR 0x0A]) ls)" using type_lines_sent [OF assms(1-3)] assms(4) by simp
  have n: "\<forall>l \<in> set ls. CHR 0x0A \<notin> set l" using assms(1) by (auto simp: psp_line_def)
  have "ran (fst (usb_shell result rs [])) = map (\<lambda>l. cstr (take (MAX_USB_CLI - 1) l)) ls"
    using usb_shell_stream [of "[]" "[]" result rs] by (simp add: s stream_lines_concat [OF n])
  also have "\<dots> = ls" by (rule map_idI) (use assms(1) in \<open>auto simp: psp_line_def cstr_no_nul\<close>)
  moreover have "snd (usb_shell result rs []) = []"
  proof -
    have e: "bytes_read rs = [] \<or> last (bytes_read rs) = CHR 0x0A" unfolding s by (cases ls rule: rev_cases) simp_all
    have "snd (usb_shell result rs line) = []" if "bytes_read rs = [] \<and> line = [] \<or> bytes_read rs \<noteq> [] \<and> last (bytes_read rs) = CHR 0x0A" for line
      using that
    proof (induction rs arbitrary: line)
      case (Cons r rs)
      then show ?case
        by (cases r; cases "bytes_read rs = []") (auto simp: usb_char_def split_beta Let_def split: if_splits)
    qed simp
    then show ?thesis using e by blast
  qed
  ultimately show ?thesis by simp
qed

theorem typed_lines_run_witness:
  "ran (fst (usb_shell (\<lambda>_. 0) (map Some (''ls'' @ [CHR 0x0A] @ ''pwd'') @ [None, Some (CHR 0x0A)]) [])) = [''ls'', ''pwd'']"
proof -
  let ?t = "example_term\<lparr>t_state := STATE_CONNECTED, t_sock := 5\<rparr>"
  have l: "\<forall>l \<in> set [''ls'', ''pwd'']. psp_line l" by (simp add: psp_line_def)
  have "bytes_read (map Some (''ls'' @ [CHR 0x0A] @ ''pwd'') @ [None, Some (CHR 0x0A)]) = sent_text (fst (type_lines [''ls'', ''pwd''] ?t))"
    using type_lines_sent [OF l, of ?t] by simp
  from typed_lines_run [OF l _ _ this] show ?thesis by simp
qed

section \<open>Line ends on the serial port\<close>

text \<open>The text with \<open>prev\<close> before it: a line feed alone gets a carriage return, a carriage return alone a line feed.\<close>

fun crlf :: "bool \<Rightarrow> string \<Rightarrow> string" where
  "crlf cr [] = []"
| "crlf cr (c # s) =
     (if c = CHR 0x0A then (if cr then [c] else [CHR 0x0D, c])
      else if c = CHR 0x0D \<and> s \<noteq> [] \<and> hd s \<noteq> CHR 0x0A then [c, CHR 0x0A] else [c]) @ crlf (c = CHR 0x0D) s"

lemma sioPutText_crlf: "sioPutText data = crlf False data"
proof -
  let ?f = "\<lambda>(data :: string) i. (if data ! i = CHR 0x0A \<and> (0 < i \<and> data ! (i - 1) \<noteq> CHR 0x0D \<or> i = 0) then [CHR 0x0D] else []) @
         [data ! i] @
         (if i + 1 < length data \<and> data ! i = CHR 0x0D \<and> data ! (i + 1) \<noteq> CHR 0x0A then [CHR 0x0A] else [])"
  have "concat (map (?f (pre @ s)) [length pre..<length (pre @ s)]) = crlf (pre \<noteq> [] \<and> last pre = CHR 0x0D) s" for pre s
  proof (induction s arbitrary: pre)
    case (Cons c s)
    have u: "[length pre..<length (pre @ c # s)] = length pre # [length (pre @ [c])..<length ((pre @ [c]) @ s)]"
      using upt_conv_Cons [of "length pre" "length (pre @ c # s)"] by (simp del: upt_Suc)
    have h: "?f (pre @ c # s) (length pre) =
       (if c = CHR 0x0A then (if pre \<noteq> [] \<and> last pre = CHR 0x0D then [c] else [CHR 0x0D, c])
        else if c = CHR 0x0D \<and> s \<noteq> [] \<and> hd s \<noteq> CHR 0x0A then [c, CHR 0x0A] else [c])"
      by (cases s) (auto simp: nth_append last_conv_nth)
    show ?case unfolding u using Cons.IH [of "pre @ [c]"] h by simp
  qed simp
  from this [of "[]" data] show ?thesis by (simp add: sioPutText_def)
qed

text \<open>The text sent has no line feed without a carriage return, and sending it again changes nothing.\<close>

lemma crlf_head: "crlf cr t = [] \<longleftrightarrow> t = []" "t \<noteq> [] \<Longrightarrow> hd t \<noteq> CHR 0x0A \<Longrightarrow> crlf cr t = crlf cr' t"
  "t \<noteq> [] \<Longrightarrow> hd (crlf True t) = hd t"
  by (cases t; auto)+

lemma crlf_complete: "crlf cr (crlf cr s) = crlf cr s"
proof (induction s arbitrary: cr)
  case (Cons c s)
  consider "c = CHR 0x0A" | "c = CHR 0x0D" "s \<noteq> []" "hd s \<noteq> CHR 0x0A" | "c = CHR 0x0D" "s = [] \<or> hd s = CHR 0x0A"
    | "c \<noteq> CHR 0x0A" "c \<noteq> CHR 0x0D" by blast
  then show ?case
  proof cases
    case 2
    have "crlf False (crlf True s) = crlf True (crlf True s)"
      using 2 crlf_head(1) [of True s] crlf_head(3) [of s] by (intro crlf_head(2)) simp_all
    then show ?thesis using 2 Cons.IH [of True] by simp
  next
    case 3
    then show ?thesis using Cons.IH [of True] crlf_head(1) [of True s] crlf_head(3) [of s] by auto
  qed (use Cons.IH [of False] in auto)
qed simp

lemma sioPutText_idem: "sioPutText (sioPutText data) = sioPutText data"
  by (simp add: sioPutText_crlf crlf_complete)

text \<open>The two divisors are the clock divided by the rate.\<close>

lemma sioSetBaud_divisors: "sioSetBaud baud = (a, b, c) \<Longrightarrow> a * 64 + b = PSP_UART_CLK div baud \<and> b < 64"
  by (auto simp: sioSetBaud_def Let_def)

section \<open>The console and the network\<close>

text \<open>A button that stays down gives its command once.\<close>

lemma held_button: "fst (cons_turn result permit b b) = []"
  by (simp add: cons_turn_def cons_command_def cons_commands_def)

text \<open>The first button in the order of the tests decides.\<close>

lemma cons_command_first: "cons_command (0x100 OR b) = Some ''exit''"
proof -
  have "(0x100 OR b) AND 0x100 \<noteq> (0 :: u32)"
  proof
    assume "(0x100 OR b) AND 0x100 = 0"
    then have "\<not> bit ((0x100 OR b) AND 0x100) 8" by simp
    then show False by (simp add: bit_simps)
  qed
  then show ?thesis by (simp add: cons_command_def cons_commands_def)
qed

text \<open>The end of a connection is taken for another byte: the last one is read again and again.\<close>

lemma net_end_repeats:
  assumes "out s = []" "n_data s \<noteq> CHR 0x0A" "n_data s \<noteq> CHR 0x0D" "length (n_cli s) + n < NET_CLI"
  shows "net_connection result (replicate n (True, Recv_end)) s =
    (True, replicate n Wait, s\<lparr>n_cli := n_cli s @ replicate n (n_data s)\<rparr>)"
  using assms
proof (induction n arbitrary: s)
  case (Suc n)
  have "net_turn result True Recv_end s = (True, [Wait], s\<lparr>n_cli := n_cli s @ [n_data s]\<rparr>)"
    using Suc.prems by (simp add: net_turn_def Let_def)
  with Suc.IH [of "s\<lparr>n_cli := n_cli s @ [n_data s]\<rparr>"] Suc.prems show ?case by (simp add: replicate_app_Cons_same)
qed simp

end
