(* ===== verification/GdbSession.thy ===== *)
theory GdbSession
  imports Gdb CUtil
begin

text \<open>
  \<open>gdbcommon/gdb-common.c\<close> and \<open>gdbcommon/main.c\<close>: how an exception of the debugged program meets the server
  of the debugger. The thread that fails enters \<open>GdbTrapEntry\<close>, leaves its context in \<open>g_context\<close>, sets one event
  flag and waits for the other; \<open>GdbMain\<close> waits for the first, lets the stub handle the exception and sets the
  second, on which the thread goes on with the context it finds.

  Threads are interleaved at the flags: a step relation, in which copying the context and the flag operation beside
  it are one step. The calls on the event flag do not fail. \<open>'c\<close> is a context, \<open>'t\<close> a thread.
\<close>

section \<open>The state\<close>

datatype gdb_pc = Handling | Waiting | Stopped

record ('t, 'c) gdb_session =
  gctx :: 'c
  handle_exp :: bool
  continue_ev :: bool
  gdb_pc :: gdb_pc
  firstrun :: bool
  trapped :: "'t \<Rightarrow> 'c option"
  resumed :: "('t \<times> 'c \<times> 'c) list"

text \<open>
  \<open>resumed\<close> records for each exception the thread, the context it brought and the one it went on with.
  \<open>fake\<close> is the context made by \<open>main\<close> for the first run.
\<close>

definition session_start :: "'c \<Rightarrow> ('t, 'c) gdb_session" where
  "session_start fake = \<lparr>gctx = fake, handle_exp = False, continue_ev = False, gdb_pc = Handling, firstrun = True,
     trapped = (\<lambda>_. None), resumed = []\<rparr>"

text \<open>Whether a thread belongs to the program: its entry lies in the program's text (unsigned comparison).\<close>

definition trap_ours :: "u32 option \<Rightarrow> u32 \<Rightarrow> u32 \<Rightarrow> bool" where
  "trap_ours entry text_addr text_len =
     (case entry of None \<Rightarrow> False | Some e \<Rightarrow> text_addr \<le> e \<and> e < text_addr + text_len)"

definition trap_enter :: "'t \<Rightarrow> 'c \<Rightarrow> ('t, 'c) gdb_session \<Rightarrow> ('t, 'c) gdb_session" where
  "trap_enter t c s = s\<lparr>gctx := c, handle_exp := True, trapped := (trapped s)(t := Some c)\<rparr>"

definition trap_leave :: "'t \<Rightarrow> ('t, 'c) gdb_session \<Rightarrow> ('t, 'c) gdb_session" where
  "trap_leave t s =
     s\<lparr>continue_ev := False, trapped := (trapped s)(t := None),
       resumed := resumed s @ [(t, the (trapped s t), gctx s)]\<rparr>"

text \<open>The stub's work: it may change the context; \<open>goes_on\<close> is whether its result is not 0.\<close>

definition gdb_handled :: "bool \<Rightarrow> 'c \<Rightarrow> ('t, 'c) gdb_session \<Rightarrow> ('t, 'c) gdb_session" where
  "gdb_handled goes_on c s =
     (let s = s\<lparr>gctx := c\<rparr>
      in if \<not> goes_on then s\<lparr>gdb_pc := Stopped\<rparr>
         else if \<not> firstrun s then s\<lparr>continue_ev := True, gdb_pc := Waiting\<rparr>
         else s\<lparr>firstrun := False, gdb_pc := Waiting\<rparr>)"

definition gdb_woken :: "('t, 'c) gdb_session \<Rightarrow> ('t, 'c) gdb_session" where
  "gdb_woken s = s\<lparr>handle_exp := False, gdb_pc := Handling\<rparr>"

text \<open>
  The steps. The program runs from the end of the first handling on, which starts it. \<open>stub\<close> says what the stub
  may make of a context, \<open>ours\<close> which threads the trap takes (\<open>trap_ours\<close> of their entries).
\<close>

inductive gdb_step :: "('c \<Rightarrow> bool \<times> 'c \<Rightarrow> bool) \<Rightarrow> ('t \<Rightarrow> bool) \<Rightarrow> ('t, 'c) gdb_session \<Rightarrow> ('t, 'c) gdb_session \<Rightarrow> bool"
  for stub :: "'c \<Rightarrow> bool \<times> 'c \<Rightarrow> bool" and ours :: "'t \<Rightarrow> bool" where
  enter: "ours t \<Longrightarrow> \<not> firstrun s \<Longrightarrow> trapped s t = None \<Longrightarrow> gdb_step stub ours s (trap_enter t c s)"
| leave: "trapped s t \<noteq> None \<Longrightarrow> continue_ev s \<Longrightarrow> gdb_step stub ours s (trap_leave t s)"
| handled: "gdb_pc s = Handling \<Longrightarrow> stub (gctx s) (goes_on, c) \<Longrightarrow> gdb_step stub ours s (gdb_handled goes_on c s)"
| woken: "gdb_pc s = Waiting \<Longrightarrow> handle_exp s \<Longrightarrow> gdb_step stub ours s (gdb_woken s)"

text \<open>Runs in which no two threads are in the trap at once.\<close>

definition alone :: "('t, 'c) gdb_session \<Rightarrow> bool" where
  "alone s \<longleftrightarrow> (\<forall>t u. trapped s t \<noteq> None \<longrightarrow> trapped s u \<noteq> None \<longrightarrow> t = u)"

inductive gdb_run :: "('c \<Rightarrow> bool \<times> 'c \<Rightarrow> bool) \<Rightarrow> ('t \<Rightarrow> bool) \<Rightarrow> 'c \<Rightarrow> ('t, 'c) gdb_session \<Rightarrow> bool"
  for stub :: "'c \<Rightarrow> bool \<times> 'c \<Rightarrow> bool" and ours :: "'t \<Rightarrow> bool" and fake :: 'c where
  start: "gdb_run stub ours fake (session_start fake)"
| step: "gdb_run stub ours fake s \<Longrightarrow> gdb_step stub ours s s' \<Longrightarrow> alone s' \<Longrightarrow> gdb_run stub ours fake s'"

inductive_cases gdb_stepE: "gdb_step stub ours s s'"

section \<open>What a thread goes on with\<close>

text \<open>
  With one thread in the trap: either its exception waits to be taken up, or the stub has it, or it has been
  handled and the thread may go on; with none, both flags are clear.
\<close>

definition gdb_inv :: "('c \<Rightarrow> bool \<times> 'c \<Rightarrow> bool) \<Rightarrow> ('t, 'c) gdb_session \<Rightarrow> bool" where
  "gdb_inv stub s \<longleftrightarrow>
     (\<forall>(t, c, c') \<in> set (resumed s). stub c (True, c')) \<and>
     (firstrun s \<longrightarrow> (\<forall>t. trapped s t = None) \<and> gdb_pc s \<noteq> Waiting) \<and>
     ((\<forall>t. trapped s t = None) \<longrightarrow> \<not> handle_exp s \<and> \<not> continue_ev s \<and> (gdb_pc s = Handling \<longrightarrow> firstrun s)) \<and>
     (\<forall>t c. trapped s t = Some c \<longrightarrow>
        (handle_exp s \<and> \<not> continue_ev s \<and> gdb_pc s \<noteq> Handling \<and> gctx s = c) \<or>
        (\<not> handle_exp s \<and> \<not> continue_ev s \<and> gdb_pc s = Handling \<and> gctx s = c) \<or>
        (\<not> handle_exp s \<and> continue_ev s \<and> gdb_pc s = Waiting \<and> stub c (True, gctx s)) \<or>
        (\<not> handle_exp s \<and> \<not> continue_ev s \<and> gdb_pc s = Stopped))"

lemma gdb_inv_step:
  assumes "gdb_inv stub s" "alone s" "gdb_step stub ours s s'" "alone s'"
  shows "gdb_inv stub s'"
  using assms(3)
proof cases
  case (enter t c)
  have "trapped s u = None" for u
  proof (rule ccontr)
    assume u: "trapped s u \<noteq> None"
    then have "u \<noteq> t" using enter(4) by auto
    then show False using assms(4) u by (auto simp: alone_def enter(1) trap_enter_def split: if_splits)
  qed
  then show ?thesis using assms(1) enter by (auto simp: gdb_inv_def trap_enter_def)
next
  case (leave t)
  obtain c where c: "trapped s t = Some c" using leave(2) by auto
  have o: "trapped s u = None" if "u \<noteq> t" for u using assms(2) c that by (auto simp: alone_def)
  have "stub c (True, gctx s) \<and> \<not> handle_exp s \<and> gdb_pc s = Waiting \<and> \<not> firstrun s"
    using assms(1) c leave(3) unfolding gdb_inv_def by fastforce
  then show ?thesis using assms(1) c o by (auto simp: gdb_inv_def leave(1) trap_leave_def)
next
  case (handled goes_on c)
  have q: "c' = gctx s" if "trapped s t = Some c'" for t c'
    using assms(1) that handled(2) unfolding gdb_inv_def by auto
  have u: "handle_exp s = False" "continue_ev s = False" if "trapped s t = Some c'" for t c'
    using assms(1) that handled(2) unfolding gdb_inv_def by auto
  show ?thesis
  proof (cases "\<exists>t c'. trapped s t = Some c'")
    case True
    then have f: "\<not> handle_exp s" "\<not> continue_ev s" "\<not> firstrun s" using u assms(1) unfolding gdb_inv_def by fastforce+
    show ?thesis using assms(1) handled f q by (simp add: gdb_inv_def gdb_handled_def Let_def) fastforce
  next
    case False
    then show ?thesis using assms(1) handled by (auto simp: gdb_inv_def gdb_handled_def Let_def)
  qed
next
  case woken
  then show ?thesis using assms(1) by (auto simp: gdb_inv_def gdb_woken_def)
qed

lemma gdb_run_inv: "gdb_run stub ours fake s \<Longrightarrow> gdb_inv stub s \<and> alone s"
proof (induction rule: gdb_run.induct)
  case start
  show ?case by (simp add: gdb_inv_def alone_def session_start_def)
next
  case (step s s')
  then show ?case using gdb_inv_step by blast
qed

text \<open>
  Every thread goes on with what the stub made of its own exception: in a session in which no two threads
  fail at once, each time a thread leaves the trap the context it continues with is one the stub has produced
  from the context it came with, and it leaves only after the stub has said so; and while its exception is
  taken up nobody has changed the context.
\<close>

theorem trap_resumes_handled:
  assumes "gdb_run stub ours fake s"
  shows "(\<forall>(t, c, c') \<in> set (resumed s). stub c (True, c')) \<and>
    (gdb_pc s = Handling \<and> trapped s t = Some c \<longrightarrow> handle_exp s \<or> gctx s = c)"
proof -
  have i: "gdb_inv stub s" using gdb_run_inv [OF assms] by blast
  have r: "\<forall>(t, c, c') \<in> set (resumed s). stub c (True, c')" using i unfolding gdb_inv_def by (rule conjunct1)
  have "handle_exp s \<or> gctx s = c" if "gdb_pc s = Handling" "trapped s t = Some c" using i that unfolding gdb_inv_def by auto
  with r show ?thesis by blast
qed

text \<open>One exception: the stub moves the program counter from 7 to 8.\<close>

definition stub_example :: "nat \<Rightarrow> bool \<times> nat \<Rightarrow> bool" where
  "stub_example c r \<longleftrightarrow> r = (True, Suc c)"

definition example_session :: "(nat, nat) gdb_session" where
  "example_session = trap_leave 1 (gdb_handled True 8 (gdb_woken (trap_enter 1 7 (gdb_handled True 1 (session_start 0)))))"

lemma example_run: "gdb_run stub_example (\<lambda>_. True) 0 example_session"
proof -
  let ?s1 = "gdb_handled True 1 (session_start 0) :: (nat, nat) gdb_session"
  let ?s2 = "trap_enter 1 7 ?s1" and ?s3 = "gdb_woken (trap_enter 1 7 ?s1)" and ?s4 = "gdb_handled True 8 (gdb_woken (trap_enter 1 7 ?s1))"
  have 1: "gdb_run stub_example (\<lambda>_. True) 0 ?s1"
    by (rule gdb_run.step [OF gdb_run.start gdb_step.handled]) (simp_all add: session_start_def stub_example_def alone_def gdb_handled_def)
  have 2: "gdb_run stub_example (\<lambda>_. True) 0 ?s2"
    by (rule gdb_run.step [OF 1 gdb_step.enter]) (simp_all add: session_start_def alone_def gdb_handled_def trap_enter_def)
  have 3: "gdb_run stub_example (\<lambda>_. True) 0 ?s3"
    by (rule gdb_run.step [OF 2 gdb_step.woken]) (simp_all add: session_start_def alone_def gdb_handled_def trap_enter_def gdb_woken_def)
  have 4: "gdb_run stub_example (\<lambda>_. True) 0 ?s4"
    by (rule gdb_run.step [OF 3 gdb_step.handled])
      (simp_all add: session_start_def alone_def gdb_handled_def trap_enter_def gdb_woken_def stub_example_def)
  show ?thesis unfolding example_session_def
    by (rule gdb_run.step [OF 4 gdb_step.leave])
      (simp_all add: session_start_def alone_def gdb_handled_def trap_enter_def gdb_woken_def trap_leave_def)
qed

theorem trap_resumes_handled_witness: "resumed example_session = [(1, 7, 8)] \<and> stub_example 7 (True, 8)"
proof -
  have r: "resumed example_session = [(1, 7, 8)]"
    by (simp add: example_session_def session_start_def gdb_handled_def trap_enter_def gdb_woken_def trap_leave_def)
  from trap_resumes_handled [OF example_run, of 1 7] show ?thesis unfolding r by simp
qed

text \<open>
  When a second thread fails while the first one waits, the context of the first is overwritten: it goes on with
  the registers of the second.
\<close>

lemma two_traps_mix:
  "\<exists>s :: (nat, nat) gdb_session. (gdb_step stub_example (\<lambda>_. True))\<^sup>*\<^sup>* (session_start 0) s \<and> resumed s = [(1, 7, 101)]"
proof -
  let ?s1 = "gdb_handled True 1 (session_start 0) :: (nat, nat) gdb_session"
  let ?s3 = "trap_enter 2 100 (trap_enter 1 7 ?s1)"
  let ?s5 = "gdb_handled True 101 (gdb_woken ?s3)"
  have "gdb_step stub_example (\<lambda>_. True) (session_start 0) ?s1"
    by (rule gdb_step.handled) (simp_all add: session_start_def stub_example_def)
  moreover have "gdb_step stub_example (\<lambda>_. True) ?s1 (trap_enter 1 7 ?s1)"
    by (rule gdb_step.enter) (simp_all add: session_start_def gdb_handled_def)
  moreover have "gdb_step stub_example (\<lambda>_. True) (trap_enter 1 7 ?s1) ?s3"
    by (rule gdb_step.enter) (simp_all add: session_start_def gdb_handled_def trap_enter_def)
  moreover have "gdb_step stub_example (\<lambda>_. True) ?s3 (gdb_woken ?s3)"
    by (rule gdb_step.woken) (simp_all add: session_start_def gdb_handled_def trap_enter_def)
  moreover have "gdb_step stub_example (\<lambda>_. True) (gdb_woken ?s3) ?s5"
    by (rule gdb_step.handled) (simp_all add: session_start_def gdb_handled_def trap_enter_def gdb_woken_def stub_example_def)
  moreover have "gdb_step stub_example (\<lambda>_. True) ?s5 (trap_leave 1 ?s5)"
    by (rule gdb_step.leave) (simp_all add: session_start_def gdb_handled_def trap_enter_def gdb_woken_def)
  ultimately have "(gdb_step stub_example (\<lambda>_. True))\<^sup>*\<^sup>* (session_start 0) (trap_leave 1 ?s5)"
    by (meson rtranclp.rtrancl_into_rtrancl rtranclp.rtrancl_refl)
  moreover have "resumed (trap_leave 1 ?s5) = [(1, 7, 101)]"
    by (simp add: session_start_def gdb_handled_def trap_enter_def gdb_woken_def trap_leave_def)
  ultimately show ?thesis by blast
qed

text \<open>
  \<open>netgdb\<close> enters \<open>GdbMain\<close> again with each connection. An exception whose handling the end of the last connection
  has cut short is taken for the first run by the next: its thread is not woken.
\<close>

definition gdb_again :: "('t, 'c) gdb_session \<Rightarrow> ('t, 'c) gdb_session" where
  "gdb_again s = s\<lparr>gdb_pc := Handling, firstrun := True\<rparr>"

lemma reconnect_stuck:
  assumes "gdb_run stub ours fake s" "gdb_pc s = Stopped" "trapped s t = Some c" "\<not> handle_exp s"
  shows "let s' = gdb_handled True c' (gdb_again s)
    in trapped s' t = Some c \<and> \<not> continue_ev s' \<and> gdb_pc s' = Waiting \<and> \<not> handle_exp s'"
  using gdb_run_inv [OF assms(1)] assms(2-) by (auto simp: gdb_inv_def gdb_handled_def gdb_again_def Let_def)

section \<open>The start of the server\<close>

record gdb_boot =
  b_evid :: int
  b_mbx :: int
  b_ready :: bool
  b_version :: u32
  b_uid :: int
  b_info :: "u32 option"

datatype gdb_boot_result = Usage | No_event | No_mbx | Not_ready | No_module | No_info
  | Started bool bool u32 "string list"

text \<open>\<open>strrchr (s, '.')\<close> and \<open>strcasecmp\<close> with \<open>.elf\<close>.\<close>

definition is_elf :: "string \<Rightarrow> bool" where
  "is_elf s = (CHR ''.'' \<in> set s \<and>
     map upcase (rev (takeWhile (\<lambda>c. c \<noteq> CHR ''.'') (rev s))) = ''ELF'')"

text \<open>What \<open>main\<close> comes to: hardware debugging, an ELF file, the entry point of the fake context, the arguments.\<close>

definition gdb_main :: "gdb_boot \<Rightarrow> string list \<Rightarrow> gdb_boot_result" where
  "gdb_main b argv =
     (if length argv < 2 then Usage
      else if b_evid b < 0 then No_event
      else if b_mbx b < 0 then No_mbx
      else if \<not> b_ready b then Not_ready
      else if b_uid b < 0 then No_module
      else case b_info b of
             None \<Rightarrow> No_info
           | Some entry \<Rightarrow> Started (b_version b \<noteq> 0x01000300) (is_elf (argv ! 1)) entry (tl argv))"

end
