(* ===== verification/Spec2Isabelle.thy ===== *)
theory Spec2Isabelle
  imports Tty Async CUtil Args CLib Conf Script MemMap Debug Gdb HostPath HostFs HostInv HostReply HostShell
    Transport HostDriver HostLink Symbols Disasm ShellMem Shell ShellCli ShellFile ApiHook ShellThread ShellModule Restart Uid Exceptions ShellTools Pcterm RemoteJoy Bitmap FrontEnds GdbSession
begin

text \<open>
  PSPLINK, a monitor and debugger for the PlayStation Portable, with its file server and terminal on the PC.
  This library models the C code under \<open>src/\<close> as HOL functions and step relations and proves what makes it
  correct. This theory imports all others and declares nothing.

  \<^bold>\<open>The program and its parts.\<close> \<open>bootstrap\<close> loads \<open>psplink/\<close>, the monitor, into the kernel of the PSP. The monitor
  reads its configuration, starts the driver \<open>usbhostfs/\<close>, and gives a shell to whichever front end carries lines to
  it: a channel of the USB link (\<open>usbshell/\<close>), TCP (\<open>netshell/\<close>), the buttons of the console (\<open>conshell/\<close>) or the
  serial port. The driver shares one USB link between synchronous requests of the file system \<open>host:\<close>, bulk writes
  and eight asynchronous channels. At the other end \<open>usbhostfs_pc/\<close> answers the requests from directories of the PC
  and passes the channels to sockets, where \<open>pcterm/\<close> is the terminal of the shell. \<open>usbgdb/\<close> and \<open>netgdb/\<close> with
  \<open>gdbcommon/\<close> are a debugger stub, \<open>psplink_user/\<close> takes the exceptions of user programs, and \<open>tools/remotejoy/\<close>
  sends the joystick of the PC to the controller of the PSP. The parts meet in the byte streams of the link, in
  the memory of the PSP, in the table of shell commands and in the context of an exception.

  \<^bold>\<open>Representation.\<close> A struct is a \<open>record\<close>, an enum a \<open>datatype\<close>, a 32-bit integer a word (\<open>u32\<close>, \<open>s32\<close>) where
  wrap-around matters and \<open>int\<close> or \<open>nat\<close> where the code's bounds exclude it; a C string is a character list without
  its NUL (\<open>cstr\<close> cuts at the first one); memory is a function from addresses to bytes with \<open>lw\<close> and \<open>sw\<close>
  (\<open>Prelude\<close>). Calls of the kernel, the operating system and libraries are arguments, or are recorded in the order in
  which they are made. Errors are values. Loops are structural or have a measure (the input left, the room left);
  where the data of others could make a loop endless it is a \<open>partial_function (option)\<close> (\<open>find_library\<close>,
  \<open>print_imports\<close>, \<open>print_entries\<close> of \<open>ApiHook\<close>, \<open>copy_loop\<close> of \<open>ShellFile\<close>, the pointer loops of \<open>Uid\<close>) and its
  return is a theorem: \<open>Some\<close> stands in the statements. Fuel occurs in one place: the depth of scripts and custom
  commands in \<open>Shell.shellParse\<close>, where no bound exists in the code; \<open>shellParse_deeper\<close> shows that a result, once
  found, does not depend on the depth, and \<open>custom_loops\<close> that a custom command that names itself never ends.

  \<^bold>\<open>The terminal, the channels and the front ends.\<close>
    \<^item> \<open>Ring\<close>: the ring of bytes as an interface (locale \<open>byte_fifo\<close>), interpreted twice on the code's rings:
      \<open>stdin\<close> in \<open>Tty\<close> and \<open>endpoint\<close> in \<open>Async\<close>.
    \<^item> \<open>Tty\<close> (\<open>psplink/tty.c\<close>, \<open>stdio.c\<close>): the handlers of the standard streams and the ring of typed characters,
      as a step relation of a reader and the shell; no wakeup is lost.
    \<^item> \<open>Async\<close> (\<open>usbhostfs/main.c\<close>, \<open>usbhostfs_pc/main.c\<close>): registration, reading, writing and framing of the
      channels; a client's bytes arrive in order.
    \<^item> \<open>FrontEnds\<close> (\<open>usbshell\<close>, \<open>netshell\<close>, \<open>conshell\<close>, \<open>psplink/sio.c\<close>, \<open>usbgdb\<close>, \<open>netgdb\<close>): the loops that collect
      lines, the serial port and the byte transports of the debugger; lines typed at the PC's terminal are run one
      by one.
    \<^item> \<open>Pcterm\<close> (\<open>pcterm/pcterm.c\<close>): connection and retries, the prompt taken out of the stream, the state of the
      sockets, options and keys.

  \<^bold>\<open>Texts and settings.\<close>
    \<^item> \<open>CUtil\<close> (\<open>psplink/util.c\<close>): character classes, paths, argument blocks, buffered reading, masked search.
    \<^item> \<open>Args\<close> (\<open>parse_args.c\<close>), \<open>CLib\<close> (\<open>strtoul\<close>, \<open>strtoint\<close>), \<open>Format\<close> (the numbers of \<open>printf\<close>): what is
      quoted or printed is read back.
    \<^item> \<open>Conf\<close> (\<open>psplinkcnf.c\<close>, \<open>config.c\<close>): the settings and the file rewritten by \<open>configChange\<close>.
    \<^item> \<open>Script\<close> (\<open>script.c\<close>): arguments replaced in a script's lines, and the loop over them.

  \<^bold>\<open>Memory, symbols and debugging.\<close>
    \<^item> \<open>MemMap\<close> (\<open>decodeaddr.c\<close>): the table of valid regions, \<open>memValidate\<close> and address expressions.
    \<^item> \<open>Debug\<close> (\<open>debug.c\<close>): breakpoints, stepping, the exception handler, the hardware registers; the invariant is
      that memory with the breakpoints taken out is the program's own.
    \<^item> \<open>Gdb\<close> (\<open>gdbcommon/gdb-stub.c\<close>): packets, commands and their range check, stepping.
    \<^item> \<open>GdbSession\<close> (\<open>gdbcommon/gdb-common.c\<close>, \<open>main.c\<close>): threads that fail and the server that handles them, as a
      step relation over the event flags.
    \<^item> \<open>Exceptions\<close> (\<open>exception.c\<close>, \<open>thctx.c\<close>, \<open>psplink_user/psplink_ex.c\<close>): contexts, causes, registers, the trap.
    \<^item> \<open>Symbols\<close> (\<open>symbols.c\<close>), \<open>Disasm\<close> (\<open>disasm.c\<close>), \<open>Uid\<close> (\<open>memoryUID.c\<close>), \<open>ApiHook\<close> (\<open>libs.c\<close>, \<open>apihook.c\<close>),
      \<open>Bitmap\<close> (\<open>bitmap.c\<close>): symbol files and their heap, both instruction tables, the kernel's object table,
      exports and the sixteen hooks, screen shots.

  \<^bold>\<open>The shell\<close> (\<open>psplink/shell.c\<close>).
    \<^item> \<open>Shell\<close>: variables, prompt, the table of commands and \<open>shellParse\<close>. Whatever holds of every call holds of every
      line, script and custom command: locale \<open>shell_relation\<close>, interpreted as \<open>log\<close> (the calls made) and \<open>mem\<close> (the
      memory kept).
    \<^item> \<open>ShellCli\<close>: the line editor and its history, as a refinement of an abstract editor with a ring of lines.
    \<^item> \<open>ShellMem\<close>, \<open>ShellFile\<close>, \<open>ShellThread\<close>, \<open>ShellModule\<close>, \<open>ShellTools\<close>: the commands, by subject.
    \<^item> \<open>Restart\<close> (also \<open>bootstrap/main.c\<close>, \<open>psplink/main.c\<close>): the boot loader, the start of the monitor, its saved
      context, and the commands that start a program or the system again.

  \<^bold>\<open>The file system of the PC.\<close>
    \<^item> \<open>HostPath\<close>, \<open>HostFs\<close> (\<open>usbhostfs_pc/main.c\<close>): the map from paths of the PSP to the PC, the tables of files and
      directories and the handler of each request. \<open>HostInv\<close>: calls stay below the drives, descriptors are open
      when used and closed at the end. \<open>HostReply\<close>: each request is answered once.
    \<^item> \<open>HostShell\<close>: the options, the shell of the PC program with its map file, sockets and threads.
    \<^item> \<open>Transport\<close> (\<open>usbhostfs/main.c\<close>): blocks over the USB link, the exchange of a command, bulk writes.
    \<^item> \<open>HostDriver\<close> (\<open>host_driver.c\<close>): the driver over an exchange that is a parameter (locale \<open>host_file\<close>).
      \<open>HostLink\<close> interprets it on the server (\<open>host_server\<close>) and shows the USB exchange a refinement of that; the
      lemmas on whole reads and writes speak of driver and server together.

  \<^bold>\<open>Tools.\<close> \<open>RemoteJoy\<close> (\<open>tools/remotejoy/\<close>): the map file, the events turned into messages, and the controller
  that follows them.

  \<^bold>\<open>What the theorems show.\<close> Round trips (what is quoted, printed, saved, sent or written comes back); safety of memory
  (commands, packets, hooks and breakpoints touch only what they may, also through whole lines and scripts);
  confinement and bookkeeping of the file server; refinements (the editor, the USB exchange, the pointer search, the
  joystick) and equivalences (branch targets of disassembler and debugger, driver and server); no lost wakeup, return
  of loops, answers in order. Lemmas with the words overrun, overflow, lost, stuck, mix, loops or dead in their
  names show where the code fails to do what it means to.

  \<^bold>\<open>Limits stated in the theorems.\<close> Where the code writes into an array without a test, or stops reading after a
  first block, the statement has the bound as a hypothesis and the case beyond is a lemma or a finding: the blocks
  of 512 bytes between the three programs of a restart (\<open>Restart.fits_array\<close>), the first 4096 bytes of a
  configuration file (\<open>Conf.file_blocks\<close>), a prompt of 125 characters and reads of 1023 bytes at the terminal
  (\<open>Pcterm\<close>), a step breakpoint that is left alone while it is pending (\<open>Debug.step_apart\<close>).

  \<^bold>\<open>Not modelled.\<close> Floating-point formatting (\<open>f_cvt\<close>) and the map of firmware revisions in \<open>util.c\<close>; the assembly
  files; the descriptor tables and the registration of the USB driver; forking and privileges of the PC program; the
  settings of the serial port in \<open>pcterm\<close>; the opening of devices in \<open>remotejoy\<close>; \<open>modnet/\<close>, which only calls
  the network library; the programs of \<open>tools/\<close> beside \<open>remotejoy\<close> (\<open>echo\<close>, \<open>kprintf\<close>, \<open>webget\<close>, \<open>debugmenu\<close> and others),
  which are examples of their libraries. All of these are input and output without logic of the monitor. Timing
  is left out: a delay is a step at which others may act.
\<close>

end
